(* ===== verification/Prelude.thy ===== *)
theory Prelude
  imports
    Main
    "HOL-Library.Word"
    "HOL-Library.Multiset"
    "HOL-Library.List_Lexorder"
    "HOL-Library.Char_ord"
    "HOL-Library.Product_Lexorder"
    "HOL-Library.Option_ord"
    "HOL-Library.Code_Target_Numeral"
begin

text \<open>
  What the components share: the part of the Rust standard library the sources call, and generic
  lemmas about it.

  A Rust \<open>String\<close> is its UTF-8 bytes, and so is an Isabelle \<^typ>\<open>string\<close> here: a \<^typ>\<open>char\<close> is one byte,
  \<open>len()\<close> is \<^const>\<open>length\<close>, and the derived byte order of \<open>str\<close> is the lexicographic order of
  HOL-Library. A Unicode scalar value (a Rust \<open>char\<close>) is the group of bytes that encodes it; the
  operation \<open>chars\<close> below splits a string into such groups. A byte slice is a \<^typ>\<open>string\<close> too.

  A \<open>BTreeSet\<close> is the sorted list of its distinct elements, a \<open>BTreeMap\<close> the association list
  sorted by key: what iterating them gives.
\<close>

named_theorems rust_simps \<open>evaluation rules of the standard-library operations\<close>

type_synonym bytes = string
type_synonym u8 = "8 word"
type_synonym u16 = "16 word"

abbreviation byte :: "char \<Rightarrow> nat" where
  "byte c \<equiv> of_char c"

section \<open>Lists\<close>

definition push :: "'a list \<Rightarrow> 'a \<Rightarrow> 'a list" where
  \<comment> \<open>\<open>Vec::push\<close>\<close>
  "push xs x = xs @ [x]"

lemma set_push [simp]: "set (push xs x) = insert x (set xs)"
  by (auto simp: push_def)

lemma length_push [simp]: "length (push xs x) = Suc (length xs)"
  by (simp add: push_def)

lemma push_neq_Nil [simp]: "push xs x \<noteq> []"
  by (simp add: push_def)

lemma map_push [simp]: "map f (push xs x) = push (map f xs) (f x)"
  by (simp add: push_def)

fun filter_map :: "('a \<Rightarrow> 'b option) \<Rightarrow> 'a list \<Rightarrow> 'b list" where
  \<comment> \<open>\<open>Iterator::filter_map\<close>; with the identity it is \<open>flatten\<close> over options\<close>
  "filter_map f [] = []"
| "filter_map f (x # xs) = (case f x of None \<Rightarrow> filter_map f xs | Some y \<Rightarrow> y # filter_map f xs)"

lemma set_filter_map: "y \<in> set (filter_map f xs) \<longleftrightarrow> (\<exists>x \<in> set xs. f x = Some y)"
  by (induction xs) (auto split: option.splits)

lemma filter_map_append [simp]: "filter_map f (xs @ ys) = filter_map f xs @ filter_map f ys"
  by (induction xs) (auto split: option.splits)

lemma length_filter_map: "length (filter_map f xs) \<le> length xs"
  by (induction xs) (auto split: option.splits)

lemma mset_filter_map: "mset xs = mset ys \<Longrightarrow> mset (filter_map f xs) = mset (filter_map f ys)"
proof -
  have *: "mset (filter_map f zs) = image_mset (the \<circ> f) (filter_mset (\<lambda>x. f x \<noteq> None) (mset zs))" for zs
    by (induction zs) (auto split: option.splits)
  assume "mset xs = mset ys"
  then show ?thesis by (simp add: *)
qed

fun retain_new :: "('a \<Rightarrow> 'k) \<Rightarrow> 'k list \<Rightarrow> 'a list \<Rightarrow> 'a list" where
  \<comment> \<open>\<open>retain\<close> or \<open>filter\<close> with a set \<open>seen\<close> that each kept element's key is inserted into\<close>
  "retain_new key seen [] = []"
| "retain_new key seen (x # xs) =
     (if key x \<in> set seen then retain_new key seen xs
      else x # retain_new key (key x # seen) xs)"

lemma retain_new_keys: "key ` set (retain_new key seen xs) = key ` set xs - set seen"
  by (induction xs arbitrary: seen) auto

lemma retain_new_subset: "set (retain_new key seen xs) \<subseteq> set xs"
  by (induction xs arbitrary: seen) (auto split: if_splits)

lemma retain_new_distinct: "distinct (map key (retain_new key seen xs))"
proof (induction xs arbitrary: seen)
  case Nil
  then show ?case by simp
next
  case (Cons x xs)
  have "key x \<notin> key ` set (retain_new key (key x # seen) xs)"
    by (simp add: retain_new_keys)
  with Cons show ?case by simp
qed

lemma retain_new_first:
  "x \<in> set (retain_new key [] xs) \<Longrightarrow> \<exists>ys zs. xs = ys @ x # zs \<and> key x \<notin> key ` set ys"
proof -
  have "x \<in> set (retain_new key seen xs) \<Longrightarrow>
      \<exists>ys zs. xs = ys @ x # zs \<and> key x \<notin> key ` set ys \<union> set seen" for seen
  proof (induction xs arbitrary: seen)
    case Nil
    then show ?case by simp
  next
    case (Cons y xs)
    show ?case
    proof (cases "x = y \<and> key y \<notin> set seen")
      case True
      then have "y # xs = [] @ x # xs \<and> key x \<notin> key ` set [] \<union> set seen" by simp
      then show ?thesis by blast
    next
      case False
      then obtain seen' where "x \<in> set (retain_new key seen' xs)"
        and "set seen' = set seen \<union> {key y}"
        using Cons.prems by (cases "key y \<in> set seen") (auto simp: insert_absorb)
      then obtain ys zs where "xs = ys @ x # zs" "key x \<notin> key ` set ys \<union> (set seen \<union> {key y})"
        using Cons.IH [of seen'] by auto
      then have "y # xs = (y # ys) @ x # zs \<and> key x \<notin> key ` set (y # ys) \<union> set seen" by auto
      then show ?thesis by blast
    qed
  qed
  from this [of "[]"] show "x \<in> set (retain_new key [] xs) \<Longrightarrow> ?thesis" by simp
qed

lemma filter_key_inj:
  assumes "inj_on f (set zs)" and "k \<in> set zs"
  shows "filter (\<lambda>x. f k = f x) zs = replicate (count (mset zs) k) k"
proof -
  have "filter (\<lambda>x. f k = f x) zs = filter ((=) k) zs"
    using assms by (intro filter_cong) (auto simp: inj_on_def)
  then show ?thesis by (simp add: replicate_count_mset_eq_filter_eq)
qed

lemma sort_key_perm:
  \<comment> \<open>sorting by a key that separates the elements forgets the order they arrived in\<close>
  assumes "mset xs = mset ys" and "inj_on f (set xs)"
  shows "sort_key f xs = sort_key f ys"
proof (rule properties_for_sort_key)
  have sets: "set xs = set ys" using assms(1) by (rule mset_eq_setD)
  show "mset (sort_key f ys) = mset xs" using assms(1) by simp
  show "sorted (map f (sort_key f ys))" by simp
  fix k assume "k \<in> set (sort_key f ys)"
  then have k: "k \<in> set ys" by simp
  have "filter (\<lambda>x. f k = f x) (sort_key f ys) = replicate (count (mset (sort_key f ys)) k) k"
    using assms(2) k by (intro filter_key_inj) (simp_all add: sets)
  also have "\<dots> = replicate (count (mset xs) k) k" using assms(1) by simp
  also have "\<dots> = filter (\<lambda>x. f k = f x) xs"
    using assms(2) k by (intro filter_key_inj [symmetric]) (simp_all add: sets)
  finally show "filter (\<lambda>x. f k = f x) (sort_key f ys) = filter (\<lambda>x. f k = f x) xs" .
qed

lemma filter_map_id_map [simp]: "filter_map id (map f xs) = filter_map f xs"
  by (induction xs) (auto split: option.splits)

lemma sort_key_perm_append:
  \<comment> \<open>the elements of a prefix that the key separates may arrive in any order\<close>
  assumes "mset xs = mset ys" and "inj_on f (set xs)"
  shows "sort_key f (xs @ zs) = sort_key f (ys @ zs)"
proof (rule properties_for_sort_key)
  show "mset (sort_key f (ys @ zs)) = mset (xs @ zs)" using assms(1) by simp
  show "sorted (map f (sort_key f (ys @ zs)))" by simp
  fix k assume "k \<in> set (sort_key f (ys @ zs))"
  have "filter (\<lambda>x. f k = f x) (sort_key f xs) = filter (\<lambda>x. f k = f x) (sort_key f ys)"
    using sort_key_perm [OF assms] by simp
  then have "filter (\<lambda>x. f k = f x) xs = filter (\<lambda>x. f k = f x) ys"
    using sort_key_stable [of f "f k" xs] sort_key_stable [of f "f k" ys] by (simp add: eq_commute)
  then show "filter (\<lambda>x. f k = f x) (sort_key f (ys @ zs)) = filter (\<lambda>x. f k = f x) (xs @ zs)"
    using sort_key_stable [of f "f k" "ys @ zs"] by (simp add: eq_commute)
qed

lemma ex_split_Cons:
  "(\<exists>pre y post. x # xs = pre @ y # post \<and> P y \<and> (\<forall>i \<in> set pre. Q i)) \<longleftrightarrow>
     P x \<or> Q x \<and> (\<exists>pre y post. xs = pre @ y # post \<and> P y \<and> (\<forall>i \<in> set pre. Q i))"
  (is "?l \<longleftrightarrow> ?r")
proof
  assume ?l
  then obtain pre y post where *: "x # xs = pre @ y # post" "P y" "\<forall>i \<in> set pre. Q i" by blast
  show ?r
  proof (cases pre)
    case Nil
    with * show ?thesis by simp
  next
    case (Cons z zs)
    with * have "xs = zs @ y # post" "Q x" "\<forall>i \<in> set zs. Q i" by simp_all
    with * show ?thesis by blast
  qed
next
  assume ?r
  then show ?l
  proof
    assume "P x"
    then have "x # xs = [] @ x # xs \<and> P x \<and> (\<forall>i \<in> set []. Q i)" by simp
    then show ?l by blast
  next
    assume "Q x \<and> (\<exists>pre y post. xs = pre @ y # post \<and> P y \<and> (\<forall>i \<in> set pre. Q i))"
    then obtain pre y post where *: "Q x" "xs = pre @ y # post" "P y" "\<forall>i \<in> set pre. Q i" by blast
    then have "x # xs = (x # pre) @ y # post \<and> P y \<and> (\<forall>i \<in> set (x # pre). Q i)" by simp
    then show ?l by blast
  qed
qed

section \<open>Ordered sets and maps\<close>

definition btree_set :: "'a::linorder list \<Rightarrow> 'a list" where
  \<comment> \<open>a \<open>BTreeSet\<close> built from an iterator, as the list its own iterator gives\<close>
  "btree_set xs = sort (remdups xs)"

lemma set_btree_set [simp]: "set (btree_set xs) = set xs"
  by (simp add: btree_set_def)

lemma sorted_btree_set [simp]: "sorted (btree_set xs)"
  by (simp add: btree_set_def)

lemma distinct_btree_set [simp]: "distinct (btree_set xs)"
  by (simp add: btree_set_def)

lemma btree_set_eq_iff: "btree_set xs = btree_set ys \<longleftrightarrow> set xs = set ys"
  by (metis distinct_btree_set set_btree_set sorted_btree_set sorted_distinct_set_unique)

lemma btree_set_id: "sorted xs \<Longrightarrow> distinct xs \<Longrightarrow> btree_set xs = xs"
  by (simp add: btree_set_def distinct_remdups_id sorted_sort_id)

lemma btree_set_Nil [simp]: "btree_set [] = []"
  by (simp add: btree_set_def)

lemma btree_set_eq_Nil [simp]: "btree_set xs = [] \<longleftrightarrow> xs = []"
  by (metis set_btree_set set_empty)

fun btm_insert :: "'k::linorder \<Rightarrow> 'v \<Rightarrow> ('k \<times> 'v) list \<Rightarrow> ('k \<times> 'v) list" where
  \<comment> \<open>\<open>BTreeMap::insert\<close>: an existing value is replaced\<close>
  "btm_insert k v [] = [(k, v)]"
| "btm_insert k v ((k', v') # m) =
     (if k < k' then (k, v) # (k', v') # m
      else if k = k' then (k, v) # m
      else (k', v') # btm_insert k v m)"

definition btm_of_list :: "('k::linorder \<times> 'v) list \<Rightarrow> ('k \<times> 'v) list" where
  \<comment> \<open>collecting into a \<open>BTreeMap\<close>: of equal keys the last value stays\<close>
  "btm_of_list kvs = foldl (\<lambda>m (k, v). btm_insert k v m) [] kvs"

definition btm_wf :: "('k::linorder \<times> 'v) list \<Rightarrow> bool" where
  "btm_wf m \<longleftrightarrow> sorted (map fst m) \<and> distinct (map fst m)"

lemma map_of_btm_insert: "map_of (btm_insert k v m) = (map_of m)(k \<mapsto> v)"
  by (induction k v m rule: btm_insert.induct) auto

lemma fst_btm_insert: "fst ` set (btm_insert k v m) = insert k (fst ` set m)"
  by (induction k v m rule: btm_insert.induct) auto

lemma btm_wf_insert: "btm_wf m \<Longrightarrow> btm_wf (btm_insert k v m)"
proof (induction k v m rule: btm_insert.induct)
  case (2 k v k' v' m)
  have "fst ` set (btm_insert k v m) = insert k (fst ` set m)" by (rule fst_btm_insert)
  with 2 show ?case by (fastforce simp: btm_wf_def)
qed (simp add: btm_wf_def)

lemma btm_of_list_snoc: "btm_of_list (kvs @ [(k, v)]) = btm_insert k v (btm_of_list kvs)"
  by (simp add: btm_of_list_def)

lemma btm_of_list_Nil [simp]: "btm_of_list [] = []"
  by (simp add: btm_of_list_def)

lemma btm_wf_of_list [simp]: "btm_wf (btm_of_list kvs)"
  by (induction kvs rule: rev_induct)
    (auto simp: btm_wf_def [of "[]"] btm_of_list_snoc btm_wf_insert)

lemma map_of_btm_of_list: "map_of (btm_of_list kvs) = map_of (rev kvs)"
  by (induction kvs rule: rev_induct) (auto simp: btm_of_list_snoc map_of_btm_insert)

lemma btm_ext: "btm_wf m \<Longrightarrow> btm_wf m' \<Longrightarrow> map_of m = map_of m' \<Longrightarrow> m = m'"
proof -
  assume *: "btm_wf m" "btm_wf m'" "map_of m = map_of m'"
  then have "set m = set m'" using map_of_inject_set [of m m'] by (simp add: btm_wf_def)
  with * show "m = m'"
    using map_sorted_distinct_set_unique [of fst m m']
    by (simp add: btm_wf_def distinct_map)
qed

end
