(* ===== verification/Rust_Str.thy ===== *)
theory Rust_Str
  imports Prelude
begin

text \<open>
  The operations of Rust's \<open>str\<close>, \<open>String\<close>, \<open>char\<close> and \<open>u8\<close> that the sources use, over UTF-8 bytes.
\<close>

section \<open>Characters\<close>

definition is_continuation :: "char \<Rightarrow> bool" where
  "is_continuation c \<longleftrightarrow> 128 \<le> byte c \<and> byte c < 192"

function chars :: "string \<Rightarrow> string list" where
  \<comment> \<open>\<open>str::chars\<close>: a scalar value starts at every byte that is no continuation byte\<close>
  "chars [] = []"
| "chars (c # s) = (c # takeWhile is_continuation s) # chars (dropWhile is_continuation s)"
  by pat_completeness auto
termination
  by (relation "measure length") (auto simp: le_imp_less_Suc length_dropWhile_le)

lemma concat_chars [simp]: "concat (chars s) = s"
  by (induction s rule: chars.induct) simp_all

lemma chars_nonempty: "g \<in> set (chars s) \<Longrightarrow> g \<noteq> []"
  by (induction s rule: chars.induct) auto

lemma length_chars: "length (chars s) \<le> length s"
proof (induction s rule: chars.induct)
  case (2 c s)
  then show ?case
    by (simp add: order_trans [OF _ length_dropWhile_le])
qed simp

definition ascii :: "string \<Rightarrow> bool" where
  "ascii s \<longleftrightarrow> list_all (\<lambda>c. byte c < 128) s"

lemma chars_ascii: "ascii s \<Longrightarrow> chars s = map (\<lambda>c. [c]) s"
proof (induction s rule: chars.induct)
  case (2 c s)
  then have "takeWhile is_continuation s = []" "dropWhile is_continuation s = s"
    by (cases s; simp add: ascii_def is_continuation_def)+
  with 2 show ?case by (simp add: ascii_def)
qed simp

definition char_groups :: "string list \<Rightarrow> bool" where
  \<comment> \<open>what \<open>chars\<close> can return: only the first group may start with a continuation byte\<close>
  "char_groups gs \<longleftrightarrow>
     (\<forall>g \<in> set gs. g \<noteq> [] \<and> list_all is_continuation (tl g)) \<and>
     (\<forall>g \<in> set (tl gs). \<not> is_continuation (hd g))"

lemma char_groups_Cons:
  "char_groups (g # gs) \<longleftrightarrow> g \<noteq> [] \<and> list_all is_continuation (tl g) \<and> char_groups gs \<and>
     (\<forall>h \<in> set gs. \<not> is_continuation (hd h))"
  by (cases gs) (auto simp: char_groups_def)

lemma hd_chars: "s \<noteq> [] \<Longrightarrow> chars s \<noteq> [] \<and> hd (hd (chars s)) = hd s"
  by (cases s) simp_all

lemma char_groups_chars: "char_groups (chars s)"
proof (induction s rule: chars.induct)
  case (2 c s)
  let ?r = "dropWhile is_continuation s"
  have "\<not> is_continuation (hd h)" if "h \<in> set (chars ?r)" for h
  proof (cases "h = hd (chars ?r)")
    case True
    have "?r \<noteq> []"
    proof
      assume "?r = []"
      with that show False by (metis chars.simps(1) empty_iff list.set(1))
    qed
    with True have "hd h = hd ?r" using hd_chars by blast
    moreover have "\<not> is_continuation (hd ?r)" using \<open>?r \<noteq> []\<close> by (rule hd_dropWhile)
    ultimately show ?thesis by simp
  next
    case False
    with that have "h \<in> set (tl (chars ?r))" by (cases "chars ?r") auto
    with 2 show ?thesis by (simp add: char_groups_def)
  qed
  with 2 show ?case
    by (auto simp: char_groups_Cons list_all_iff dest: set_takeWhileD)
qed (simp add: char_groups_def)

lemma chars_concat: "char_groups gs \<Longrightarrow> chars (concat gs) = gs"
proof (induction gs)
  case (Cons g gs)
  obtain c t where g: "g = c # t" using Cons.prems by (cases g) (auto simp: char_groups_Cons)
  have t: "\<forall>x \<in> set t. is_continuation x"
    using Cons.prems g by (simp add: char_groups_Cons list_all_iff)
  have r: "concat gs = [] \<or> \<not> is_continuation (hd (concat gs))"
    using Cons.prems by (cases gs) (auto simp: char_groups_Cons)
  then have "takeWhile is_continuation (t @ concat gs) = t"
    "dropWhile is_continuation (t @ concat gs) = concat gs"
    using t by (auto simp: takeWhile_append dropWhile_append hd_conv_nth takeWhile_eq_Nil_iff
        dropWhile_eq_self_iff)
  with Cons g show ?case by (simp add: char_groups_Cons)
qed simp

lemma char_groups_filter: "char_groups gs \<Longrightarrow> char_groups (filter P gs)"
  by (induction gs) (auto simp: char_groups_Cons)

lemma char_groups_take: "char_groups gs \<Longrightarrow> char_groups (take n gs)"
  by (auto simp: char_groups_def tl_take dest: in_set_takeD)

fun is_control :: "string \<Rightarrow> bool" where
  \<comment> \<open>\<open>char::is_control\<close>: category Cc, U+0000-U+001F, U+007F and U+0080-U+009F\<close>
  "is_control [c] = (byte c < 32 \<or> byte c = 127)"
| "is_control [c, d] = (byte c = 194 \<and> 128 \<le> byte d \<and> byte d < 160)"
| "is_control _ = False"

fun is_whitespace :: "string \<Rightarrow> bool" where
  \<comment> \<open>\<open>char::is_whitespace\<close>: the Unicode property White_Space\<close>
  "is_whitespace [c] = (9 \<le> byte c \<and> byte c \<le> 13 \<or> byte c = 32)"
| "is_whitespace [c, d] = (byte c = 194 \<and> (byte d = 133 \<or> byte d = 160))"
| "is_whitespace [c, d, e] =
     (map byte [c, d, e] = [225, 154, 128]
    \<or> byte c = 226 \<and> byte d = 128 \<and> (128 \<le> byte e \<and> byte e \<le> 138 \<or> byte e \<in> {168, 169, 175})
    \<or> map byte [c, d, e] = [226, 129, 159]
    \<or> map byte [c, d, e] = [227, 128, 128])"
| "is_whitespace _ = False"

definition is_ascii_digit :: "char \<Rightarrow> bool" where
  "is_ascii_digit c \<longleftrightarrow> 48 \<le> byte c \<and> byte c \<le> 57"

definition is_ascii_uppercase :: "char \<Rightarrow> bool" where
  "is_ascii_uppercase c \<longleftrightarrow> 65 \<le> byte c \<and> byte c \<le> 90"

definition is_ascii_lowercase :: "char \<Rightarrow> bool" where
  "is_ascii_lowercase c \<longleftrightarrow> 97 \<le> byte c \<and> byte c \<le> 122"

definition is_ascii_alphanumeric :: "char \<Rightarrow> bool" where
  "is_ascii_alphanumeric c \<longleftrightarrow> is_ascii_digit c \<or> is_ascii_uppercase c \<or> is_ascii_lowercase c"

definition is_ascii_control :: "char \<Rightarrow> bool" where
  "is_ascii_control c \<longleftrightarrow> byte c < 32 \<or> byte c = 127"

definition is_ascii_whitespace :: "char \<Rightarrow> bool" where
  \<comment> \<open>\<open>u8::is_ascii_whitespace\<close>: tab, line feed, form feed, carriage return, space\<close>
  "is_ascii_whitespace c \<longleftrightarrow> byte c \<in> {9, 10, 12, 13, 32}"

definition char_lower :: "char \<Rightarrow> char" where
  "char_lower c = (if is_ascii_uppercase c then char_of (byte c + 32) else c)"

definition char_upper :: "char \<Rightarrow> char" where
  "char_upper c = (if is_ascii_lowercase c then char_of (byte c - 32) else c)"

definition to_ascii_lowercase :: "string \<Rightarrow> string" where
  "to_ascii_lowercase s = map char_lower s"

definition to_ascii_uppercase :: "string \<Rightarrow> string" where
  "to_ascii_uppercase s = map char_upper s"

definition eq_ignore_ascii_case :: "string \<Rightarrow> string \<Rightarrow> bool" where
  "eq_ignore_ascii_case s t \<longleftrightarrow> to_ascii_lowercase s = to_ascii_lowercase t"

lemma length_to_ascii_lowercase [simp]: "length (to_ascii_lowercase s) = length s"
  by (simp add: to_ascii_lowercase_def)

lemma byte_less_256 [simp]: "byte c < 256"
proof -
  have "(of_char c :: nat) < 2 ^ 8"
    unfolding of_char_def by (rule order_less_le_trans [OF horner_sum_of_bool_2_less]) simp
  then show ?thesis by simp
qed

lemma byte_char_of [simp]: "n < 256 \<Longrightarrow> byte (char_of n) = n"
  by (simp add: char_of_take_bit_eq take_bit_nat_eq_self_iff)

lemma byte_char_lower: "byte (char_lower c) = (if is_ascii_uppercase c then byte c + 32 else byte c)"
  by (simp add: char_lower_def is_ascii_uppercase_def)

lemma char_lower_idem [simp]: "char_lower (char_lower c) = char_lower c"
proof -
  have "\<not> is_ascii_uppercase (char_lower c)"
    unfolding is_ascii_uppercase_def byte_char_lower by (simp add: is_ascii_uppercase_def)
  then show ?thesis by (simp add: char_lower_def [of "char_lower c"])
qed

lemma to_ascii_lowercase_idem [simp]: "to_ascii_lowercase (to_ascii_lowercase s) = to_ascii_lowercase s"
  by (simp add: to_ascii_lowercase_def)

lemma eq_ignore_ascii_case_refl [simp]: "eq_ignore_ascii_case s s"
  by (simp add: eq_ignore_ascii_case_def)

section \<open>Trimming, prefixes, searching\<close>

definition trim :: "string \<Rightarrow> string" where
  "trim s = concat (rev (dropWhile is_whitespace (rev (dropWhile is_whitespace (chars s)))))"

definition trim_end_matches :: "char \<Rightarrow> string \<Rightarrow> string" where
  "trim_end_matches d s = rev (dropWhile (\<lambda>c. c = d) (rev s))"

definition starts_with :: "string \<Rightarrow> string \<Rightarrow> bool" where
  "starts_with s p \<longleftrightarrow> take (length p) s = p"

definition ends_with :: "string \<Rightarrow> string \<Rightarrow> bool" where
  "ends_with s p \<longleftrightarrow> starts_with (rev s) (rev p)"

definition strip_prefix :: "string \<Rightarrow> string \<Rightarrow> string option" where
  "strip_prefix s p = (if starts_with s p then Some (drop (length p) s) else None)"

definition strip_suffix :: "string \<Rightarrow> string \<Rightarrow> string option" where
  "strip_suffix s p = (if ends_with s p then Some (take (length s - length p) s) else None)"

fun str_contains :: "string \<Rightarrow> string \<Rightarrow> bool" where
  "str_contains [] p = (p = [])"
| "str_contains (c # s) p = (starts_with (c # s) p \<or> str_contains s p)"

fun str_find :: "string \<Rightarrow> string \<Rightarrow> nat option" where
  \<comment> \<open>\<open>str::find\<close>: byte offset of the first match\<close>
  "str_find [] p = (if p = [] then Some 0 else None)"
| "str_find (c # s) p = (if starts_with (c # s) p then Some 0 else map_option Suc (str_find s p))"

lemma starts_with_iff: "starts_with s p \<longleftrightarrow> (\<exists>r. s = p @ r)"
proof
  assume "starts_with s p"
  then have "s = p @ drop (length p) s"
    by (metis append_take_drop_id starts_with_def)
  then show "\<exists>r. s = p @ r" ..
qed (auto simp: starts_with_def)

lemma starts_with_append [simp]: "starts_with (p @ r) p"
  by (simp add: starts_with_def)

lemma ends_with_append [simp]: "ends_with (r @ p) p"
  by (simp add: ends_with_def starts_with_def)

lemma strip_prefix_Some: "strip_prefix s p = Some r \<longleftrightarrow> s = p @ r"
  by (auto simp: strip_prefix_def starts_with_iff)

lemma strip_suffix_append [simp]: "strip_suffix (r @ p) p = Some r"
  by (simp add: strip_suffix_def)

lemma strip_suffix_Some: "strip_suffix s p = Some r \<longleftrightarrow> s = r @ p"
proof
  assume *: "strip_suffix s p = Some r"
  then have "ends_with s p" by (simp add: strip_suffix_def split: if_splits)
  then obtain q where "rev s = rev p @ q" by (auto simp: ends_with_def starts_with_iff)
  then have "s = rev q @ p" by (metis rev_append rev_rev_ident)
  with * show "s = r @ p" by simp
qed simp

lemma str_find_Some:
  "str_find s p = Some i \<Longrightarrow> i + length p \<le> length s \<and> take (length p) (drop i s) = p"
proof (induction s arbitrary: i)
  case Nil
  then show ?case by (simp split: if_splits)
next
  case (Cons c s)
  show ?case
  proof (cases "starts_with (c # s) p")
    case True
    with Cons.prems have "i = 0" by simp
    with True show ?thesis
      by (metis add_0 drop0 length_append linorder_not_less starts_with_def
          append_take_drop_id le_add1)
  next
    case False
    with Cons show ?thesis by auto
  qed
qed

lemma dropWhile_none: "(\<And>x. x \<in> set xs \<Longrightarrow> \<not> P x) \<Longrightarrow> dropWhile P xs = xs"
  by (cases xs) auto

lemma trim_id:
  assumes "ascii s" and "\<And>c. c \<in> set s \<Longrightarrow> \<not> is_whitespace [c]"
  shows "trim s = s"
proof -
  have "dropWhile is_whitespace (chars s) = chars s"
    "dropWhile is_whitespace (rev (chars s)) = rev (chars s)"
    using assms by (auto simp: chars_ascii intro!: dropWhile_none)
  then show ?thesis by (simp add: trim_def)
qed

lemma char_groups_Nil [simp]: "char_groups []"
  by (simp add: char_groups_def)

lemma char_groups_appendD: "char_groups (xs @ ys) \<Longrightarrow> char_groups xs \<and> char_groups ys"
  by (induction xs) (auto simp: char_groups_Cons)

lemma char_groups_dropWhile: "char_groups gs \<Longrightarrow> char_groups (dropWhile P gs)"
  using char_groups_appendD [of "takeWhile P gs" "dropWhile P gs"] by simp

lemma char_groups_dropWhile_rev: "char_groups gs \<Longrightarrow> char_groups (rev (dropWhile P (rev gs)))"
proof -
  have "gs = rev (dropWhile P (rev gs)) @ rev (takeWhile P (rev gs))"
    by (metis rev_append rev_rev_ident takeWhile_dropWhile_id)
  then show "char_groups gs \<Longrightarrow> ?thesis" by (metis char_groups_appendD)
qed

lemma chars_trim:
  "chars (trim s) = rev (dropWhile is_whitespace (rev (dropWhile is_whitespace (chars s))))"
  unfolding trim_def
  by (intro chars_concat char_groups_dropWhile_rev char_groups_dropWhile char_groups_chars)

lemma set_chars_trim: "set (chars (trim s)) \<subseteq> set (chars s)"
  by (auto simp: chars_trim dest!: set_dropWhileD)

lemma length_chars_trim: "length (chars (trim s)) \<le> length (chars s)"
proof -
  have "length (dropWhile P xs) \<le> length xs" for P and xs :: "string list"
    by (rule length_dropWhile_le)
  then show ?thesis by (simp add: chars_trim) (metis (no_types) le_trans length_rev)
qed

lemma trim_idem [simp]: "trim (trim s) = trim s"
proof -
  let ?c = "rev (dropWhile is_whitespace (rev (dropWhile is_whitespace (chars s))))"
  have "dropWhile is_whitespace ?c = ?c"
  proof (cases ?c)
    case (Cons g gs)
    let ?d = "dropWhile is_whitespace (chars s)"
    have "?d = ?c @ rev (takeWhile is_whitespace (rev ?d))"
      by (metis rev_append rev_rev_ident takeWhile_dropWhile_id)
    with Cons have "?d = g # gs @ rev (takeWhile is_whitespace (rev ?d))" by simp
    then have "hd ?d = g" "?d \<noteq> []" by (metis list.sel(1), metis list.distinct(1))
    then have "\<not> is_whitespace g" by (metis hd_dropWhile)
    with Cons show ?thesis by simp
  next
    case Nil
    then show ?thesis by (simp only: dropWhile.simps)
  qed
  then show ?thesis by (simp add: trim_def [of "trim s"] chars_trim) (simp add: trim_def)
qed

section \<open>Splitting and joining\<close>

fun split_on :: "char \<Rightarrow> string \<Rightarrow> string list" where
  \<comment> \<open>\<open>str::split\<close> at a character: always at least one piece\<close>
  "split_on d [] = [[]]"
| "split_on d (c # s) =
     (if c = d then [] # split_on d s
      else (case split_on d s of [] \<Rightarrow> [[c]] | p # ps \<Rightarrow> (c # p) # ps))"

definition split_once :: "char \<Rightarrow> string \<Rightarrow> (string \<times> string) option" where
  "split_once d s =
     (case dropWhile (\<lambda>c. c \<noteq> d) s of
        [] \<Rightarrow> None
      | _ # rest \<Rightarrow> Some (takeWhile (\<lambda>c. c \<noteq> d) s, rest))"

definition split_ascii_whitespace :: "string \<Rightarrow> string list" where
  "split_ascii_whitespace s =
     filter (\<lambda>p. p \<noteq> [])
       (split_on CHR '' '' (map (\<lambda>c. if is_ascii_whitespace c then CHR '' '' else c) s))"

fun join :: "string \<Rightarrow> string list \<Rightarrow> string" where
  "join sep [] = []"
| "join sep [x] = x"
| "join sep (x # y # ys) = x @ sep @ join sep (y # ys)"

lemma split_on_nonempty [simp]: "split_on d s \<noteq> []"
  by (cases s) (auto split: list.splits)

lemma split_on_no_sep: "p \<in> set (split_on d s) \<Longrightarrow> d \<notin> set p"
proof (induction s arbitrary: p)
  case (Cons c s)
  then show ?case
    by (cases "split_on d s") (fastforce split: if_splits)+
qed simp

lemma split_on_id: "d \<notin> set s \<Longrightarrow> split_on d s = [s]"
  by (induction s) auto

lemma split_on_append: "d \<notin> set p \<Longrightarrow> split_on d (p @ d # s) = p # split_on d s"
  by (induction p) auto

lemma split_on_join:
  "ps \<noteq> [] \<Longrightarrow> (\<And>p. p \<in> set ps \<Longrightarrow> d \<notin> set p) \<Longrightarrow> split_on d (join [d] ps) = ps"
  by (induction "[d]" ps rule: join.induct) (auto simp: split_on_id split_on_append)

lemma join_split_on: "join [d] (split_on d s) = s"
proof (induction s)
  case (Cons c s)
  obtain p ps where *: "split_on d s = p # ps" by (cases "split_on d s") auto
  show ?case
  proof (cases "c = d")
    case True
    with Cons * show ?thesis by simp
  next
    case False
    with Cons * show ?thesis by (cases ps) auto
  qed
qed simp

lemma split_on_pieces_subset: "p \<in> set (split_on d s) \<Longrightarrow> set p \<subseteq> set s"
proof (induction s arbitrary: p)
  case (Cons c s)
  then show ?case
    by (cases "split_on d s") (fastforce split: if_splits)+
qed simp

lemma length_split_on_piece: "p \<in> set (split_on d s) \<Longrightarrow> length p \<le> length s"
proof (induction s arbitrary: p)
  case (Cons c s)
  then show ?case
    by (cases "split_on d s") (fastforce split: if_splits)+
qed simp

lemma split_once_Some: "split_once d s = Some (a, b) \<longleftrightarrow> s = a @ d # b \<and> d \<notin> set a"
proof
  assume "split_once d s = Some (a, b)"
  then obtain c where *: "dropWhile (\<lambda>c. c \<noteq> d) s = c # b" and a: "a = takeWhile (\<lambda>c. c \<noteq> d) s"
    by (auto simp: split_once_def split: list.splits)
  have "dropWhile (\<lambda>c. c \<noteq> d) s \<noteq> []" using * by simp
  then have "\<not> hd (dropWhile (\<lambda>c. c \<noteq> d) s) \<noteq> d" by (rule hd_dropWhile)
  with * have "c = d" by simp
  have "s = takeWhile (\<lambda>c. c \<noteq> d) s @ dropWhile (\<lambda>c. c \<noteq> d) s" by simp
  with * \<open>c = d\<close> a have "s = a @ d # b" by simp
  moreover have "d \<notin> set a" unfolding a by (auto dest: set_takeWhileD)
  ultimately show "s = a @ d # b \<and> d \<notin> set a" ..
next
  assume "s = a @ d # b \<and> d \<notin> set a"
  moreover from this have "dropWhile (\<lambda>c. c \<noteq> d) (a @ d # b) = d # b"
    and "takeWhile (\<lambda>c. c \<noteq> d) (a @ d # b) = a"
    by (auto simp: dropWhile_append3 takeWhile_append)
  ultimately show "split_once d s = Some (a, b)"
    by (simp add: split_once_def)
qed

lemma split_once_None: "split_once d s = None \<longleftrightarrow> d \<notin> set s"
proof
  assume "split_once d s = None"
  then have "dropWhile (\<lambda>c. c \<noteq> d) s = []" by (simp add: split_once_def split: list.splits)
  then show "d \<notin> set s" by (auto simp: dropWhile_eq_Nil_conv)
next
  assume "d \<notin> set s"
  then have *: "dropWhile (\<lambda>c. c \<noteq> d) s = []" by (auto simp: dropWhile_eq_Nil_conv)
  show "split_once d s = None" unfolding split_once_def * by simp
qed

section \<open>Numbers\<close>

definition digit_char :: "nat \<Rightarrow> char" where
  "digit_char n = char_of (48 + n)"

definition digit_val :: "char \<Rightarrow> nat" where
  "digit_val c = byte c - 48"

function show_nat :: "nat \<Rightarrow> string" where
  \<comment> \<open>\<open>Display\<close> of the unsigned integers\<close>
  "show_nat n = (if n < 10 then [digit_char n] else show_nat (n div 10) @ [digit_char (n mod 10)])"
  by pat_completeness auto
termination
  by (relation "measure id") auto

declare show_nat.simps [simp del]

definition show_int :: "int \<Rightarrow> string" where
  \<comment> \<open>\<open>Display\<close> of the signed integers\<close>
  "show_int i = (if i < 0 then CHR ''-'' # show_nat (nat (- i)) else show_nat (nat i))"

definition digits_val :: "string \<Rightarrow> nat" where
  "digits_val s = foldl (\<lambda>v c. 10 * v + digit_val c) 0 s"

definition parse_uint :: "nat \<Rightarrow> string \<Rightarrow> nat option" where
  \<comment> \<open>\<open>str::parse\<close> at an unsigned type with maximum \<open>limit\<close>: an optional plus sign, then digits\<close>
  "parse_uint limit s =
     (let ds = (case s of c # r \<Rightarrow> if c = CHR ''+'' then r else s | [] \<Rightarrow> [])
      in if ds = [] \<or> \<not> list_all is_ascii_digit ds \<or> limit < digits_val ds then None
         else Some (digits_val ds))"

lemma digit_char_is_digit: "n < 10 \<Longrightarrow> is_ascii_digit (digit_char n)"
  by (simp add: digit_char_def is_ascii_digit_def)

lemma digit_val_char [simp]: "n < 10 \<Longrightarrow> digit_val (digit_char n) = n"
  by (simp add: digit_char_def digit_val_def)

lemma show_nat_nonempty [simp]: "show_nat n \<noteq> []"
  by (subst show_nat.simps) simp

lemma show_nat_digits: "list_all is_ascii_digit (show_nat n)"
proof (induction n rule: show_nat.induct)
  case (1 n)
  then show ?case by (subst show_nat.simps) (auto simp: digit_char_is_digit)
qed

lemma digits_val_show_nat [simp]: "digits_val (show_nat n) = n"
proof (induction n rule: show_nat.induct)
  case (1 n)
  show ?case
  proof (cases "n < 10")
    case True
    then show ?thesis by (subst show_nat.simps) (simp add: digits_val_def)
  next
    case False
    with 1 have "digits_val (show_nat (n div 10)) = n div 10" by simp
    with False show ?thesis by (subst show_nat.simps) (simp add: digits_val_def)
  qed
qed

lemma show_nat_inj [simp]: "show_nat m = show_nat n \<longleftrightarrow> m = n"
  by (metis digits_val_show_nat)

lemma parse_uint_show_nat: "n \<le> limit \<Longrightarrow> parse_uint limit (show_nat n) = Some n"
proof -
  assume n: "n \<le> limit"
  obtain c r where cr: "show_nat n = c # r" by (cases "show_nat n") auto
  have "is_ascii_digit c" using show_nat_digits [of n] cr by simp
  then have "c \<noteq> CHR ''+''" by (auto simp: is_ascii_digit_def)
  with n cr show_nat_digits [of n] digits_val_show_nat [of n] show ?thesis
    by (simp add: parse_uint_def)
qed

lemma parse_uint_le: "parse_uint limit s = Some n \<Longrightarrow> n \<le> limit"
  by (auto simp: parse_uint_def Let_def split: if_splits)

lemma show_nat_no_char: "\<not> is_ascii_digit c \<Longrightarrow> c \<notin> set (show_nat n)"
  using show_nat_digits [of n] by (auto simp: list_all_iff)

end
