(* ===== verification/Net.thy ===== *)
theory Net
  imports Rust_Str
begin

text \<open>
  The address types of Rust's \<open>std::net\<close> that observations are keyed by: \<open>IpAddr\<close> and \<open>SocketAddr\<close>,
  their derived orders, their \<open>Display\<close> texts and the parser of \<open>IpAddr\<close>. A socket address is what
  \<open>SocketAddr::new\<close> builds: IPv6 flow label and scope identifier are zero.
\<close>

datatype ip_addr = V4 "32 word" | V6 "128 word"

datatype socket_addr = SocketAddr (sa_ip: ip_addr) (sa_port: u16)

fun is_ipv4 :: "ip_addr \<Rightarrow> bool" where
  "is_ipv4 (V4 _) = True"
| "is_ipv4 (V6 _) = False"

definition is_ipv6 :: "ip_addr \<Rightarrow> bool" where
  "is_ipv6 ip = (\<not> is_ipv4 ip)"

fun is_loopback :: "ip_addr \<Rightarrow> bool" where
  "is_loopback (V4 a) = (unat a div 2 ^ 24 = 127)"
| "is_loopback (V6 a) = (a = 1)"

section \<open>Orders\<close>

fun ip_key :: "ip_addr \<Rightarrow> nat \<times> nat" where
  "ip_key (V4 a) = (0, unat a)"
| "ip_key (V6 a) = (1, unat a)"

lemma ip_key_inj: "ip_key a = ip_key b \<longleftrightarrow> a = b"
  by (cases a; cases b) (simp_all add: word_unat_eq_iff)

instantiation ip_addr :: linorder
begin

definition less_eq_ip_addr :: "ip_addr \<Rightarrow> ip_addr \<Rightarrow> bool" where
  "a \<le> b \<longleftrightarrow> ip_key a \<le> ip_key b"

definition less_ip_addr :: "ip_addr \<Rightarrow> ip_addr \<Rightarrow> bool" where
  "a < b \<longleftrightarrow> ip_key a < ip_key b"

instance
  by intro_classes (auto simp: less_eq_ip_addr_def less_ip_addr_def ip_key_inj [symmetric])

end

definition sa_key :: "socket_addr \<Rightarrow> ip_addr \<times> u16" where
  "sa_key a = (sa_ip a, sa_port a)"

lemma sa_key_inj: "sa_key a = sa_key b \<longleftrightarrow> a = b"
  by (cases a; cases b) (simp add: sa_key_def)

instantiation socket_addr :: linorder
begin

definition less_eq_socket_addr :: "socket_addr \<Rightarrow> socket_addr \<Rightarrow> bool" where
  "a \<le> b \<longleftrightarrow> sa_key a \<le> sa_key b"

definition less_socket_addr :: "socket_addr \<Rightarrow> socket_addr \<Rightarrow> bool" where
  "a < b \<longleftrightarrow> sa_key a < sa_key b"

instance
  by intro_classes (auto simp: less_eq_socket_addr_def less_socket_addr_def sa_key_inj [symmetric])

end

section \<open>Display\<close>

definition octets :: "32 word \<Rightarrow> nat list" where
  "octets a = map (\<lambda>i. unat a div 256 ^ i mod 256) [3, 2, 1, 0]"

definition segments :: "128 word \<Rightarrow> nat list" where
  "segments a = map (\<lambda>i. unat a div 65536 ^ i mod 65536) [7, 6, 5, 4, 3, 2, 1, 0]"

definition show_ipv4 :: "32 word \<Rightarrow> string" where
  "show_ipv4 a = join ''.'' (map show_nat (octets a))"

definition hex_digit :: "nat \<Rightarrow> char" where
  "hex_digit n = (if n < 10 then char_of (48 + n) else char_of (87 + n))"

function show_hex :: "nat \<Rightarrow> string" where
  "show_hex n = (if n < 16 then [hex_digit n] else show_hex (n div 16) @ [hex_digit (n mod 16)])"
  by pat_completeness auto
termination
  by (relation "measure id") auto

declare show_hex.simps [simp del]

fun zero_span :: "nat list \<Rightarrow> nat \<Rightarrow> nat \<times> nat \<Rightarrow> nat \<times> nat \<Rightarrow> nat \<times> nat" where
  \<comment> \<open>the longest run of zero segments as (start, length), the first of equals\<close>
  "zero_span [] i current longest = longest"
| "zero_span (s # ss) i (cs, cl) (ls, ll) =
     (if s = 0 then
        let current = (if cl = 0 then i else cs, cl + 1)
        in zero_span ss (Suc i) current (if ll < cl + 1 then current else (ls, ll))
      else zero_span ss (Suc i) (0, 0) (ls, ll))"

definition show_ipv6 :: "128 word \<Rightarrow> string" where
  "show_ipv6 a =
     (let segs = segments a in
      if take 6 segs = [0, 0, 0, 0, 0, 65535] then ''::ffff:'' @ show_ipv4 (of_nat (unat a mod 2 ^ 32))
      else let (start, len) = zero_span segs 0 (0, 0) (0, 0) in
        if 1 < len then
          join '':'' (map show_hex (take start segs)) @ ''::'' @
          join '':'' (map show_hex (drop (start + len) segs))
        else join '':'' (map show_hex segs))"

fun show_ip :: "ip_addr \<Rightarrow> string" where
  "show_ip (V4 a) = show_ipv4 a"
| "show_ip (V6 a) = show_ipv6 a"

definition show_socket :: "socket_addr \<Rightarrow> string" where
  "show_socket s =
     (case sa_ip s of
        V4 a \<Rightarrow> show_ipv4 a @ '':'' @ show_nat (unat (sa_port s))
      | V6 a \<Rightarrow> ''['' @ show_ipv6 a @ '']:'' @ show_nat (unat (sa_port s)))"

section \<open>Parsing\<close>

type_synonym 'a reader = "string \<Rightarrow> ('a \<times> string) option"

definition hex_val :: "char \<Rightarrow> nat option" where
  "hex_val c =
     (if is_ascii_digit c then Some (byte c - 48)
      else if 97 \<le> byte c \<and> byte c \<le> 102 then Some (byte c - 87)
      else if 65 \<le> byte c \<and> byte c \<le> 70 then Some (byte c - 55)
      else None)"

definition digit_of :: "nat \<Rightarrow> char \<Rightarrow> nat option" where
  "digit_of radix c = (case hex_val c of None \<Rightarrow> None | Some v \<Rightarrow> if v < radix then Some v else None)"

definition read_number :: "nat \<Rightarrow> nat \<Rightarrow> bool \<Rightarrow> nat \<Rightarrow> nat reader" where
  "read_number radix max_digits allow_zero_prefix limit s =
     (let ds = takeWhile (\<lambda>c. digit_of radix c \<noteq> None) s;
          v = foldl (\<lambda>v c. radix * v + the (digit_of radix c)) 0 ds
      in if length ds = 0 \<or> max_digits < length ds
            \<or> \<not> allow_zero_prefix \<and> hd ds = CHR ''0'' \<and> 1 < length ds
            \<or> limit < v then None
         else Some (v, drop (length ds) s))"

definition read_given_char :: "char \<Rightarrow> unit reader" where
  "read_given_char d s = (case s of c # r \<Rightarrow> if c = d then Some ((), r) else None | [] \<Rightarrow> None)"

definition read_separator :: "char \<Rightarrow> nat \<Rightarrow> 'a reader \<Rightarrow> 'a reader" where
  "read_separator d i p s =
     (if 0 < i then case read_given_char d s of None \<Rightarrow> None | Some (_, r) \<Rightarrow> p r else p s)"

fun read_ipv4_groups :: "nat \<Rightarrow> nat \<Rightarrow> nat list reader" where
  "read_ipv4_groups 0 i s = Some ([], s)"
| "read_ipv4_groups (Suc n) i s =
     (case read_separator CHR ''.'' i (read_number 10 3 False 255) s of
        None \<Rightarrow> None
      | Some (v, r) \<Rightarrow> (case read_ipv4_groups n (Suc i) r of
            None \<Rightarrow> None
          | Some (vs, r') \<Rightarrow> Some (v # vs, r')))"

definition read_ipv4_addr :: "nat list reader" where
  "read_ipv4_addr s = read_ipv4_groups 4 0 s"

fun read_groups :: "nat \<Rightarrow> nat \<Rightarrow> string \<Rightarrow> nat list \<times> bool \<times> string" where
  \<comment> \<open>\<open>todo\<close> groups left of the limit, \<open>i\<close> groups read; the flag: ended with an embedded IPv4 address\<close>
  "read_groups 0 i s = ([], False, s)"
| "read_groups (Suc todo) i s =
     (case (if 0 < todo then read_separator CHR '':'' i read_ipv4_addr s else None) of
        Some ([a, b, c, d], r) \<Rightarrow> ([a * 256 + b, c * 256 + d], True, r)
      | _ \<Rightarrow> (case read_separator CHR '':'' i (read_number 16 4 True 65535) s of
            None \<Rightarrow> ([], False, s)
          | Some (g, r) \<Rightarrow>
              (case read_groups todo (Suc i) r of (gs, v4, r') \<Rightarrow> (g # gs, v4, r'))))"

definition read_ipv6_addr :: "nat list reader" where
  "read_ipv6_addr s =
     (case read_groups 8 0 s of (hd_groups, hd_v4, r) \<Rightarrow>
        if length hd_groups = 8 then Some (hd_groups, r)
        else if hd_v4 then None
        else if take 2 r \<noteq> ''::'' then None
        else (case read_groups (8 - (length hd_groups + 1)) 0 (drop 2 r) of (tl_groups, _, r') \<Rightarrow>
           Some (hd_groups @ replicate (8 - length hd_groups - length tl_groups) 0 @ tl_groups, r')))"

definition be_value :: "nat \<Rightarrow> nat list \<Rightarrow> nat" where
  "be_value base ds = foldl (\<lambda>v d. base * v + d) 0 ds"

definition parse_ip :: "string \<Rightarrow> ip_addr option" where
  \<comment> \<open>\<open>str::parse::<IpAddr>\<close>\<close>
  "parse_ip s =
     (case read_ipv4_addr s of
        Some (gs, r) \<Rightarrow> if r = [] then Some (V4 (of_nat (be_value 256 gs))) else None
      | None \<Rightarrow> (case read_ipv6_addr s of
            Some (gs, r) \<Rightarrow> if r = [] then Some (V6 (of_nat (be_value 65536 gs))) else None
          | None \<Rightarrow> None))"

lemma be_value_Cons: "be_value base (d # ds) = d * base ^ length ds + be_value base ds"
proof -
  have "foldl (\<lambda>v d. base * v + d) a ds = a * base ^ length ds + foldl (\<lambda>v d. base * v + d) 0 ds" for a
  proof (induction ds arbitrary: a)
    case (Cons x xs)
    show ?case using Cons [of "base * a + x"] Cons [of x] by (simp add: algebra_simps)
  qed simp
  from this [of d] show ?thesis by (simp add: be_value_def)
qed

lemma be_value_bound: "list_all (\<lambda>d. d < base) ds \<Longrightarrow> be_value base ds < base ^ length ds"
proof (induction ds)
  case (Cons d ds)
  then have "be_value base ds < base ^ length ds" "d + 1 \<le> base" by simp_all
  then have "be_value base (d # ds) < (d + 1) * base ^ length ds" by (simp add: be_value_Cons)
  also have "\<dots> \<le> base * base ^ length ds" using \<open>d + 1 \<le> base\<close> by (rule mult_le_mono1)
  finally show ?case by simp
qed (simp add: be_value_def)

end
