(* ===== verification/Core_Types.thy ===== *)
theory Core_Types
  imports Net
begin

text \<open>
  The scan vocabulary of \<^verbatim>\<open>crates/surface-core/src/lib.rs\<close>: lifecycle states, stages, progress events,
  errors, the configuration, the selection of stages and the skipped checks. Constructors and fields
  carry a prefix where the Rust name belongs to a type's namespace. Durations in milliseconds and
  counts are \<^typ>\<open>nat\<close>.
\<close>

datatype scan_status = NotStarted | Completed | Partial | Interrupted | Failed

datatype scan_stage =
    Stage_Preflight | Stage_Dns | Stage_Ports | Stage_Services | Stage_Http | Stage_Tls
  | Stage_Findings

datatype scan_progress = Started scan_stage | StageCompleted scan_stage nat

datatype scan_error_kind =
    Err_Configuration | Err_Dns | Err_Timeout | Err_Network | Err_Http | Err_Tls
  | Err_Cancelled | Err_Authorization | Err_Other

record scan_error =
  err_stage :: scan_stage
  err_target :: "string option"
  err_kind :: scan_error_kind
  err_message :: string
  err_recoverable :: bool

definition new_scan_error ::
    "scan_stage \<Rightarrow> string option \<Rightarrow> scan_error_kind \<Rightarrow> string \<Rightarrow> bool \<Rightarrow> scan_error" where
  "new_scan_error stage target kind message recoverable =
     \<lparr>err_stage = stage, err_target = target, err_kind = kind, err_message = message,
      err_recoverable = recoverable\<rparr>"

lemma new_scan_error_simps [simp]:
  "err_stage (new_scan_error s t k m r) = s"
  "err_target (new_scan_error s t k m r) = t"
  "err_kind (new_scan_error s t k m r) = k"
  "err_message (new_scan_error s t k m r) = m"
  "err_recoverable (new_scan_error s t k m r) = r"
  by (simp_all add: new_scan_error_def)

record scan_configuration =
  cfg_ports :: "u16 list"
  cfg_udp_ports :: "u16 list"
  cfg_concurrency :: nat
  cfg_connect_timeout_ms :: nat
  cfg_request_timeout_ms :: nat
  cfg_global_timeout_ms :: nat
  cfg_ipv4_only :: bool
  cfg_ipv6_only :: bool
  cfg_authorization_acknowledged :: bool

record scan_selection =
  sel_ports :: bool
  sel_services :: bool
  sel_http :: bool
  sel_tls :: bool

definition selection_all :: scan_selection where
  "selection_all = \<lparr>sel_ports = True, sel_services = True, sel_http = True, sel_tls = True\<rparr>"

definition selection_only :: "scan_stage list \<Rightarrow> scan_selection" where
  "selection_only stages =
     (let http = Stage_Http \<in> set stages;
          tls = Stage_Tls \<in> set stages;
          services = Stage_Services \<in> set stages \<or> http \<or> tls;
          ports = Stage_Ports \<in> set stages \<or> services
      in \<lparr>sel_ports = ports, sel_services = services, sel_http = http, sel_tls = tls\<rparr>)"

definition selection_default :: scan_selection where
  "selection_default = selection_all"

definition selection_closed :: "scan_selection \<Rightarrow> bool" where
  \<comment> \<open>every selected stage has its prerequisites selected\<close>
  "selection_closed sel \<longleftrightarrow>
     (sel_http sel \<or> sel_tls sel \<longrightarrow> sel_services sel) \<and> (sel_services sel \<longrightarrow> sel_ports sel)"

lemma selection_all_closed [simp]: "selection_closed selection_all"
  by (simp add: selection_closed_def selection_all_def)

lemma selection_only_closed [simp]: "selection_closed (selection_only stages)"
  by (simp add: selection_closed_def selection_only_def Let_def)

definition stage_selected :: "scan_selection \<Rightarrow> scan_stage \<Rightarrow> bool" where
  "stage_selected sel stage =
     (case stage of
        Stage_Ports \<Rightarrow> sel_ports sel
      | Stage_Services \<Rightarrow> sel_services sel
      | Stage_Http \<Rightarrow> sel_http sel
      | Stage_Tls \<Rightarrow> sel_tls sel
      | _ \<Rightarrow> True)"

record skipped_check =
  skip_check :: string
  skip_reason :: string

text \<open>
  \<open>ScanSelection::only\<close> selects a stage exactly when it is listed or a listed stage needs it, it
  is the least such selection, and it is closed under prerequisites.
\<close>

theorem selection_only_least:
  "selection_closed (selection_only stages) \<and>
   (\<forall>stage \<in> {Stage_Ports, Stage_Services, Stage_Http, Stage_Tls}.
      stage_selected (selection_only stages) stage \<longleftrightarrow>
      (\<forall>sel. selection_closed sel \<and> (\<forall>s \<in> set stages. stage_selected sel s)
         \<longrightarrow> stage_selected sel stage))"
proof -
  let ?only = "selection_only stages"
  have upper: "stage_selected ?only s" if "s \<in> set stages" for s
    by (cases s) (use that in \<open>simp_all add: stage_selected_def selection_only_def Let_def\<close>)
  have least: "stage_selected sel stage"
    if "selection_closed sel" "\<forall>s \<in> set stages. stage_selected sel s" "stage_selected ?only stage"
    for sel stage
  proof -
    have "stage_selected sel s" if "s \<in> set stages" for s
      using that \<open>\<forall>s \<in> set stages. stage_selected sel s\<close> by blast
    then have
      "Stage_Ports \<in> set stages \<Longrightarrow> sel_ports sel"
      "Stage_Services \<in> set stages \<Longrightarrow> sel_services sel"
      "Stage_Http \<in> set stages \<Longrightarrow> sel_http sel"
      "Stage_Tls \<in> set stages \<Longrightarrow> sel_tls sel"
      by (force simp: stage_selected_def)+
    note listed = this
    show ?thesis
      by (cases stage) (use that(1,3) listed in
        \<open>auto simp: stage_selected_def selection_only_def selection_closed_def Let_def\<close>)
  qed
  have "stage_selected ?only stage \<longleftrightarrow>
      (\<forall>sel. selection_closed sel \<and> (\<forall>s \<in> set stages. stage_selected sel s)
         \<longrightarrow> stage_selected sel stage)" for stage
    using upper least selection_only_closed by blast
  then show ?thesis by simp
qed

theorem selection_only_least_witness:
  "stage_selected (selection_only [Stage_Tls]) Stage_Ports \<and>
   \<not> stage_selected (selection_only [Stage_Tls]) Stage_Http"
  using selection_only_least [of "[Stage_Tls]"]
  by (simp add: stage_selected_def selection_only_def Let_def)

end
