(* ===== verification/Ports.thy ===== *)
theory Ports
  imports Core_Types
begin

text \<open>
  Port selection parsing, \<^verbatim>\<open>crates/surface-core/src/ports.rs\<close>. The \<open>BTreeSet\<close> that the loop extends is
  the list of everything inserted so far; its size and its iteration are those of \<^const>\<open>btree_set\<close>.
\<close>

section \<open>Model\<close>

definition MAX_SELECTED_PORTS :: nat where
  "MAX_SELECTED_PORTS = 65535"

definition COMMON_PORTS :: "u16 list" where
  "COMMON_PORTS =
    [20, 21, 22, 23, 25, 53, 80, 110, 111, 135, 139, 143, 443, 445, 465, 587, 993, 995, 1433, 1521,
     1883, 2049, 2375, 2376, 2483, 2484, 3000, 3306, 3389, 5432, 5671, 5672, 5900, 6379, 6443, 7474,
     7687, 7777, 8000, 8080, 8123, 8443, 8883, 8888, 9000, 9042, 9090, 9092, 9100, 9200, 9300,
     11211, 15671, 15672, 25565, 27017, 33060, 33073, 33080]"

definition COMMON_UDP_PORTS :: "u16 list" where
  "COMMON_UDP_PORTS =
    [53, 67, 68, 69, 88, 123, 137, 138, 161, 162, 389, 500, 514, 520, 623, 1194, 1434, 1701, 1812,
     1813, 1900, 2049, 2456, 2457, 2458, 3389, 3478, 4500, 4789, 5353, 7777, 11211, 19132, 19133,
     27015, 34197, 51820]"

record port_selection =
  selected_ports :: "u16 list"

definition as_slice :: "port_selection \<Rightarrow> u16 list" where
  "as_slice sel = selected_ports sel"

datatype port_spec_error = PortSpecError string

fun show_port_spec_error :: "port_spec_error \<Rightarrow> string" where
  "show_port_spec_error (PortSpecError message) = message"

definition quoted :: "string \<Rightarrow> string" where
  "quoted s = [CHR 0x27] @ s @ [CHR 0x27]"

definition parse_port :: "string \<Rightarrow> port_spec_error + u16" where
  "parse_port v =
     (case parse_uint 65535 v of
        None \<Rightarrow> Inl (PortSpecError (''invalid port '' @ quoted v))
      | Some port \<Rightarrow>
          if port = 0 then Inl (PortSpecError ''port must be between 1 and 65535'')
          else Inr (of_nat port))"

definition u16_range :: "u16 \<Rightarrow> u16 \<Rightarrow> u16 list" where
  \<comment> \<open>\<open>start..=end\<close>\<close>
  "u16_range a b = map of_nat [unat a..<Suc (unat b)]"

definition parse_item :: "string \<Rightarrow> port_spec_error + u16 list" where
  \<comment> \<open>the ports that one loop iteration inserts\<close>
  "parse_item item =
     (if item = [] \<or> trim item \<noteq> item then
        Inl (PortSpecError ''port items must be non-empty and contain no whitespace'')
      else (case split_once CHR ''-'' item of
          Some (start, stop) \<Rightarrow>
            if CHR ''-'' \<in> set stop then
              Inl (PortSpecError (''invalid port range '' @ quoted item))
            else (case parse_port start of
                Inl e \<Rightarrow> Inl e
              | Inr a \<Rightarrow> (case parse_port stop of
                    Inl e \<Rightarrow> Inl e
                  | Inr b \<Rightarrow>
                      if b < a then Inl (PortSpecError (''reversed port range '' @ quoted item))
                      else Inr (u16_range a b)))
        | None \<Rightarrow> (case parse_port item of Inl e \<Rightarrow> Inl e | Inr p \<Rightarrow> Inr [p])))"

fun parse_items :: "u16 list \<Rightarrow> string list \<Rightarrow> port_spec_error + u16 list" where
  "parse_items ports [] = Inr ports"
| "parse_items ports (item # items) =
     (case parse_item item of
        Inl e \<Rightarrow> Inl e
      | Inr ps \<Rightarrow> parse_items (ports @ ps) items)"

definition parse_with_preset :: "string \<Rightarrow> u16 list \<Rightarrow> port_spec_error + port_selection" where
  "parse_with_preset specification common_ports =
     (if specification = ''common'' \<or> specification = ''top-100'' then
        Inr \<lparr>selected_ports = common_ports\<rparr>
      else if specification = ''all'' then
        Inr \<lparr>selected_ports = u16_range 1 65535\<rparr>
      else if specification = [] then
        Inl (PortSpecError ''port specification must not be empty'')
      else (case parse_items [] (split_on CHR '','' specification) of
          Inl e \<Rightarrow> Inl e
        | Inr ports \<Rightarrow>
            if MAX_SELECTED_PORTS < length (btree_set ports) then
              Inl (PortSpecError (''port specification selects more than '' @
                show_nat MAX_SELECTED_PORTS @ '' ports''))
            else Inr \<lparr>selected_ports = btree_set ports\<rparr>))"

definition parse_ports :: "string \<Rightarrow> port_spec_error + port_selection" where
  "parse_ports specification = parse_with_preset specification COMMON_PORTS"

definition parse_udp_ports :: "string \<Rightarrow> port_spec_error + port_selection" where
  "parse_udp_ports specification = parse_with_preset specification COMMON_UDP_PORTS"

section \<open>Lemmas\<close>

lemma u16_of_nat_le: "n \<le> 65535 \<Longrightarrow> unat (of_nat n :: u16) = n"
  by (simp add: unat_of_nat)

lemma u16_unat_le: "unat (p :: u16) \<le> 65535"
proof -
  have "unat p < 2 ^ LENGTH(16)" by (rule unsigned_less)
  then show ?thesis by simp
qed

lemma parse_port_Inr:
  "parse_port v = Inr p \<Longrightarrow> parse_uint 65535 v = Some (unat p) \<and> p \<noteq> 0"
proof -
  assume "parse_port v = Inr p"
  then obtain n where n: "parse_uint 65535 v = Some n" "n \<noteq> 0" "p = of_nat n"
    by (auto simp: parse_port_def split: option.splits if_splits)
  then have "unat p = n" using parse_uint_le [OF n(1)] by (simp add: u16_of_nat_le)
  with n show ?thesis by auto
qed

lemma parse_port_show: "p \<noteq> 0 \<Longrightarrow> parse_port (show_nat (unat p)) = Inr p"
  using u16_unat_le [of p]
  by (simp add: parse_port_def parse_uint_show_nat unat_eq_zero)

lemma set_u16_range: "set (u16_range a b) = {a..b}"
proof -
  have "p \<in> of_nat ` {unat a..<Suc (unat b)} \<longleftrightarrow> a \<le> p \<and> p \<le> b" for p
  proof
    assume "p \<in> of_nat ` {unat a..<Suc (unat b)}"
    then obtain n where n: "p = of_nat n" "unat a \<le> n" "n \<le> unat b" by auto
    then have "unat p = n" using u16_unat_le [of b] by (simp add: u16_of_nat_le)
    with n show "a \<le> p \<and> p \<le> b" by (simp add: word_le_nat_alt)
  next
    assume "a \<le> p \<and> p \<le> b"
    then have "unat p \<in> {unat a..<Suc (unat b)}" by (auto simp: word_le_nat_alt)
    then have "of_nat (unat p) \<in> (of_nat :: nat \<Rightarrow> u16) ` {unat a..<Suc (unat b)}" by blast
    then show "p \<in> of_nat ` {unat a..<Suc (unat b)}" by simp
  qed
  then show ?thesis by (simp add: u16_range_def set_eq_iff del: upt_Suc)
qed

lemma sorted_u16_range: "sorted (u16_range a b) \<and> distinct (u16_range a b)"
proof -
  have b: "unat b \<le> 65535" by (rule u16_unat_le)
  have "map unat (u16_range a b) = [unat a..<Suc (unat b)]"
    unfolding u16_range_def map_map
    by (rule map_idI) (use b in \<open>auto simp: u16_of_nat_le\<close>)
  moreover have "sorted [unat a..<Suc (unat b)]" "distinct [unat a..<Suc (unat b)]"
    by (rule sorted_upt, rule distinct_upt)
  ultimately have "sorted (map unat (u16_range a b))" "distinct (map unat (u16_range a b))"
    by simp_all
  then show ?thesis
    by (simp add: sorted_map distinct_map word_le_nat_alt [abs_def])
qed

lemma parse_item_nonzero: "parse_item item = Inr ps \<Longrightarrow> p \<in> set ps \<Longrightarrow> p \<noteq> 0"
  by (auto simp: parse_item_def set_u16_range split: if_splits option.splits sum.splits
      dest!: parse_port_Inr)

lemma parse_items_Inr:
  "parse_items ports items = Inr ps \<longleftrightarrow>
     (\<forall>item \<in> set items. \<exists>qs. parse_item item = Inr qs) \<and>
     ps = ports @ concat (map (projr \<circ> parse_item) items)"
  by (induction ports items rule: parse_items.induct) (auto split: sum.splits)

lemma parse_items_Inl:
  "parse_items ports items = Inl e \<longleftrightarrow>
     (\<exists>pre item post. items = pre @ item # post \<and> parse_item item = Inl e \<and>
        (\<forall>i \<in> set pre. \<exists>qs. parse_item i = Inr qs))"
proof (induction ports items rule: parse_items.induct)
  case (2 ports item items)
  then show ?case
    unfolding ex_split_Cons by (cases "parse_item item") simp_all
qed simp

lemma nonzero_u16_bound:
  assumes "0 \<notin> set (ports :: u16 list)"
  shows "length (btree_set ports) \<le> MAX_SELECTED_PORTS"
proof -
  have "length (btree_set ports) = card (set ports)"
    by (metis distinct_btree_set distinct_card set_btree_set)
  also have "\<dots> \<le> card (UNIV - {0 :: u16})"
    using assms by (intro card_mono) auto
  also have "\<dots> = MAX_SELECTED_PORTS"
    by (simp add: card_Diff_singleton card_word MAX_SELECTED_PORTS_def)
  finally show ?thesis .
qed

lemma parse_items_nonzero: "parse_items [] items = Inr ps \<Longrightarrow> 0 \<notin> set ps"
  by (fastforce simp: parse_items_Inr dest: parse_item_nonzero)

lemma strictly_ascending:
  "sorted_wrt (<) xs \<Longrightarrow> sorted xs \<and> distinct (xs :: 'a::linorder list)"
  by (simp add: strict_sorted_iff)

lemma COMMON_PORTS_wf: "sorted COMMON_PORTS" "distinct COMMON_PORTS" "0 \<notin> set COMMON_PORTS"
proof -
  have "sorted_wrt (<) COMMON_PORTS"
    by (simp add: COMMON_PORTS_def sorted_wrt2 sorted_wrt1 del: sorted_wrt.simps(2))
  then show "sorted COMMON_PORTS" "distinct COMMON_PORTS" by (auto dest: strictly_ascending)
  show "0 \<notin> set COMMON_PORTS" by (simp add: COMMON_PORTS_def)
qed

lemma COMMON_UDP_PORTS_wf:
  "sorted COMMON_UDP_PORTS" "distinct COMMON_UDP_PORTS" "0 \<notin> set COMMON_UDP_PORTS"
proof -
  have "sorted_wrt (<) COMMON_UDP_PORTS"
    by (simp add: COMMON_UDP_PORTS_def sorted_wrt2 sorted_wrt1 del: sorted_wrt.simps(2))
  then show "sorted COMMON_UDP_PORTS" "distinct COMMON_UDP_PORTS" by (auto dest: strictly_ascending)
  show "0 \<notin> set COMMON_UDP_PORTS" by (simp add: COMMON_UDP_PORTS_def)
qed

lemma parse_with_preset_list:
  assumes "specification \<notin> {''common'', ''top-100'', ''all'', []}"
  shows "parse_with_preset specification preset =
     (case parse_items [] (split_on CHR '','' specification) of
        Inl e \<Rightarrow> Inl e
      | Inr ports \<Rightarrow> Inr \<lparr>selected_ports = btree_set ports\<rparr>)"
proof (cases "parse_items [] (split_on CHR '','' specification)")
  case (Inl e)
  with assms show ?thesis by (simp add: parse_with_preset_def)
next
  case (Inr ports)
  have "\<not> MAX_SELECTED_PORTS < length (btree_set ports)"
    using nonzero_u16_bound [OF parse_items_nonzero [OF Inr]] by simp
  with assms Inr show ?thesis by (simp add: parse_with_preset_def)
qed


section \<open>Specification: the items of a list and how they are written\<close>

datatype port_item = Single u16 | Range u16 u16

fun item_valid :: "port_item \<Rightarrow> bool" where
  "item_valid (Single p) = (p \<noteq> 0)"
| "item_valid (Range a b) = (a \<noteq> 0 \<and> a \<le> b)"

fun item_set :: "port_item \<Rightarrow> u16 set" where
  "item_set (Single p) = {p}"
| "item_set (Range a b) = {a..b}"

fun show_item :: "port_item \<Rightarrow> string" where
  "show_item (Single p) = show_nat (unat p)"
| "show_item (Range a b) = show_nat (unat a) @ ''-'' @ show_nat (unat b)"

lemma show_item_chars: "c \<in> set (show_item i) \<Longrightarrow> is_ascii_digit c \<or> c = CHR ''-''"
  by (cases i) (use show_nat_digits in \<open>auto simp: list_all_iff\<close>)

lemma show_item_trim: "trim (show_item i) = show_item i"
  using show_item_chars [of _ i]
  by (intro trim_id) (auto simp: ascii_def list_all_iff is_ascii_digit_def dest!: show_item_chars)

lemma show_item_nonempty: "show_item i \<noteq> []"
  by (cases i) auto

lemma no_dash_in_number: "CHR ''-'' \<notin> set (show_nat n)"
  by (rule show_nat_no_char) (simp add: is_ascii_digit_def)

lemma parse_item_show:
  assumes "item_valid i"
  shows "\<exists>ps. parse_item (show_item i) = Inr ps \<and> set ps = item_set i"
proof (cases i)
  case (Single p)
  have "split_once CHR ''-'' (show_item i) = None"
    using Single no_dash_in_number by (simp add: split_once_None)
  with Single assms show ?thesis
    by (simp add: parse_item_def show_item_trim [of "Single p", simplified] parse_port_show)
next
  case (Range a b)
  have *: "split_once CHR ''-'' (show_item i) = Some (show_nat (unat a), show_nat (unat b))"
    using Range no_dash_in_number by (simp add: split_once_Some)
  from Range assms have "a \<noteq> 0" "a \<le> b" by simp_all
  then have "b \<noteq> 0" by auto
  then have "parse_item (show_item i) = Inr (u16_range a b)"
    using show_item_nonempty [of i] no_dash_in_number [of "unat b"] \<open>a \<noteq> 0\<close> \<open>a \<le> b\<close>
    by (simp add: parse_item_def show_item_trim * parse_port_show)
  with Range show ?thesis by (simp add: set_u16_range)
qed

section \<open>Properties\<close>

text \<open>
  Whatever specification is accepted, TCP or UDP, the selection is strictly ascending (sorted
  without duplicates), contains no port zero and at most 65535 ports.
\<close>

theorem parse_ports_wf:
  assumes "parse_ports specification = Inr sel \<or> parse_udp_ports specification = Inr sel"
  shows "sorted (as_slice sel) \<and> distinct (as_slice sel) \<and> 0 \<notin> set (as_slice sel) \<and>
     length (as_slice sel) \<le> MAX_SELECTED_PORTS"
proof -
  have *: "sorted (as_slice sel) \<and> distinct (as_slice sel) \<and> 0 \<notin> set (as_slice sel)"
    if "parse_with_preset specification preset = Inr sel"
      "sorted preset" "distinct preset" "0 \<notin> set preset" for preset
    using that parse_items_nonzero sorted_u16_range [of 1 65535]
    by (auto simp: parse_with_preset_def as_slice_def set_u16_range split: if_splits sum.splits)
  from assms have wf: "sorted (as_slice sel)" "distinct (as_slice sel)" "0 \<notin> set (as_slice sel)"
    using * [of COMMON_PORTS] * [of COMMON_UDP_PORTS] COMMON_PORTS_wf COMMON_UDP_PORTS_wf
    by (auto simp: parse_ports_def parse_udp_ports_def)
  with nonzero_u16_bound [of "as_slice sel"] show ?thesis
    by (simp add: btree_set_id)
qed

theorem parse_ports_wf_witness:
  "parse_ports ''common'' = Inr \<lparr>selected_ports = COMMON_PORTS\<rparr> \<and>
   sorted COMMON_PORTS \<and> length COMMON_PORTS \<le> MAX_SELECTED_PORTS"
proof -
  have *: "parse_ports ''common'' = Inr \<lparr>selected_ports = COMMON_PORTS\<rparr>"
    by (simp add: parse_ports_def parse_with_preset_def)
  with parse_ports_wf [of "''common''" "\<lparr>selected_ports = COMMON_PORTS\<rparr>"] show ?thesis
    by (simp add: as_slice_def)
qed

text \<open>
  What a specification means, read off its text: a preset, or a list of ports and ranges between commas, where a number is
  what the standard library reads as one.
\<close>

definition port_text :: "string \<Rightarrow> u16 \<Rightarrow> bool" where
  "port_text v p \<longleftrightarrow> parse_uint 65535 v = Some (unat p) \<and> p \<noteq> 0"

definition item_denotes :: "string \<Rightarrow> u16 set \<Rightarrow> bool" where
  "item_denotes item ports \<longleftrightarrow>
     (\<exists>p. port_text item p \<and> ports = {p}) \<or>
     (\<exists>x y a b. item = x @ ''-'' @ y \<and> port_text x a \<and> port_text y b \<and> a \<le> b \<and> ports = {a..b})"

definition specification_denotes :: "u16 list \<Rightarrow> string \<Rightarrow> u16 set \<Rightarrow> bool" where
  "specification_denotes preset specification ports \<longleftrightarrow>
     (if specification \<in> {''common'', ''top-100''} then ports = set preset
      else if specification = ''all'' then ports = UNIV - {0}
      else (\<forall>item \<in> set (split_on CHR '','' specification). \<exists>ps. item_denotes item ps) \<and>
        ports = \<Union> {ps. \<exists>item \<in> set (split_on CHR '','' specification). item_denotes item ps})"

lemma parse_port_exact: "parse_port v = Inr p \<longleftrightarrow> port_text v p"
proof
  assume "port_text v p"
  then have "parse_uint 65535 v = Some (unat p)" "unat p \<noteq> 0" by (simp_all add: port_text_def unat_eq_zero)
  then show "parse_port v = Inr p" by (simp add: parse_port_def)
qed (auto simp: port_text_def dest: parse_port_Inr)

lemma port_text_chars: "port_text v p \<Longrightarrow> v \<noteq> [] \<and> (\<forall>c \<in> set v. is_ascii_digit c \<or> c = CHR ''+'')"
  by (cases v) (auto simp: port_text_def parse_uint_def Let_def list_all_iff split: if_splits)

lemma item_chars:
  "item_denotes item ports \<Longrightarrow> item \<noteq> [] \<and> (\<forall>c \<in> set item. is_ascii_digit c \<or> c = CHR ''+'' \<or> c = CHR ''-'')"
  unfolding item_denotes_def by (auto dest!: port_text_chars)

lemma item_trim: "item_denotes item ports \<Longrightarrow> trim item = item"
  by (drule item_chars, intro trim_id) (auto simp: ascii_def list_all_iff is_ascii_digit_def)

lemma no_dash: "port_text v p \<Longrightarrow> CHR ''-'' \<notin> set v"
  by (auto dest!: port_text_chars simp: is_ascii_digit_def)

lemma parse_item_exact: "(\<exists>ps. parse_item item = Inr ps \<and> set ps = ports) \<longleftrightarrow> item_denotes item ports"
proof
  assume "\<exists>ps. parse_item item = Inr ps \<and> set ps = ports"
  then obtain ps where ps: "parse_item item = Inr ps" "set ps = ports" by blast
  show "item_denotes item ports"
  proof (cases "split_once CHR ''-'' item")
    case None
    with ps have "\<exists>p. port_text item p \<and> ports = {p}"
      by (auto simp: parse_item_def parse_port_exact split: if_splits sum.splits)
    then show ?thesis by (simp add: item_denotes_def)
  next
    case (Some xy)
    obtain x y where xy: "xy = (x, y)" by fastforce
    with Some have "item = x @ ''-'' @ y" by (simp add: split_once_Some)
    moreover from ps Some xy obtain a b where "port_text x a" "port_text y b" "a \<le> b" "ports = {a..b}"
      by (auto simp: parse_item_def parse_port_exact set_u16_range not_less split: if_splits sum.splits)
    ultimately show ?thesis unfolding item_denotes_def by blast
  qed
next
  assume d: "item_denotes item ports"
  note start = item_chars [OF d, THEN conjunct1] item_trim [OF d]
  from d consider (single) p where "port_text item p" "ports = {p}"
    | (range) x y a b where "item = x @ ''-'' @ y" "port_text x a" "port_text y b" "a \<le> b" "ports = {a..b}"
    unfolding item_denotes_def by blast
  then show "\<exists>ps. parse_item item = Inr ps \<and> set ps = ports"
  proof cases
    case single
    then have "split_once CHR ''-'' item = None" by (simp add: split_once_None no_dash)
    with single start show ?thesis by (simp add: parse_item_def parse_port_exact [THEN iffD2])
  next
    case range
    then have "split_once CHR ''-'' item = Some (x, y)" by (simp add: split_once_Some no_dash)
    moreover have "parse_port x = Inr a" "parse_port y = Inr b" using range by (simp_all add: parse_port_exact)
    ultimately show ?thesis using range start by (simp add: parse_item_def no_dash set_u16_range)
  qed
qed

lemma item_denotes_unique: "item_denotes item ps \<Longrightarrow> item_denotes item qs \<Longrightarrow> ps = qs"
  unfolding parse_item_exact [symmetric] by auto

lemma btree_set_sorted_list: "btree_set xs = sorted_list_of_set (set xs)"
  by (simp add: btree_set_def sorted_list_of_set_sort_remdups)

lemma parse_with_preset_exact:
  assumes "sorted preset" "distinct preset"
  shows "parse_with_preset specification preset = Inr sel \<longleftrightarrow>
    (\<exists>ports. specification_denotes preset specification ports \<and> as_slice sel = sorted_list_of_set ports)"
proof -
  have sel: "\<lparr>selected_ports = xs\<rparr> = sel \<longleftrightarrow> as_slice sel = xs" for xs
    by (cases sel) (auto simp: as_slice_def)
  have sorted: "sorted_list_of_set (set xs) = xs" if "sorted xs" "distinct xs" for xs :: "u16 list"
    using that by (simp add: sorted_list_of_set_sort_remdups distinct_remdups_id sorted_sort_id)
  have all: "set (u16_range 1 65535) = UNIV - {0}"
  proof -
    have "p \<le> 65535" for p :: u16 unfolding word_le_nat_alt using u16_unat_le [of p] by simp
    moreover have "1 \<le> p \<longleftrightarrow> p \<noteq> 0" for p :: u16
      unfolding word_le_nat_alt unat_1 unat_eq_zero [symmetric] by linarith
    ultimately show ?thesis unfolding set_u16_range by (simp only: set_eq_iff atLeastAtMost_iff) simp
  qed
  consider "specification \<in> {''common'', ''top-100''}" | "specification = ''all''" | "specification = []"
    | "specification \<notin> {''common'', ''top-100'', ''all'', []}" by blast
  then show ?thesis
  proof cases
    case 1
    then have "parse_with_preset specification preset = Inr \<lparr>selected_ports = preset\<rparr>" by (auto simp: parse_with_preset_def)
    with 1 sorted [OF assms] show ?thesis by (simp add: specification_denotes_def sel)
  next
    case 2
    then show ?thesis
      using sorted [of "u16_range 1 65535"] sorted_u16_range [of 1 65535]
      by (simp add: parse_with_preset_def specification_denotes_def sel all)
  next
    case 3
    have "\<not> item_denotes [] ps" for ps using item_chars [of "[]" ps] by blast
    moreover have "split_on CHR '','' [] = [[]]" by (simp add: split_on_id)
    ultimately show ?thesis using 3 by (simp add: parse_with_preset_def specification_denotes_def)
  next
    case 4
    let ?items = "split_on CHR '','' specification"
    have denotes: "specification_denotes preset specification ports \<longleftrightarrow>
        (\<forall>item \<in> set ?items. \<exists>ps. item_denotes item ps) \<and> ports = \<Union> {ps. \<exists>item \<in> set ?items. item_denotes item ps}" for ports
      using 4 by (simp add: specification_denotes_def)
    show ?thesis
    proof (cases "parse_items [] ?items")
      case (Inl e)
      then obtain item where "item \<in> set ?items" "parse_item item = Inl e"
        unfolding parse_items_Inl by (metis in_set_conv_decomp)
      then have "\<not> item_denotes item ps" for ps unfolding parse_item_exact [symmetric] by simp
      with 4 Inl \<open>item \<in> set ?items\<close> show ?thesis by (auto simp: parse_with_preset_list denotes)
    next
      case (Inr ports)
      then have ok: "\<forall>item \<in> set ?items. \<exists>qs. parse_item item = Inr qs"
        and ports: "ports = concat (map (projr \<circ> parse_item) ?items)" by (simp_all add: parse_items_Inr)
      have item: "item_denotes item ps \<longleftrightarrow> ps = set (projr (parse_item item))" if "item \<in> set ?items" for item ps
        using ok that unfolding parse_item_exact [symmetric] by force
      have "\<Union> {ps. \<exists>item \<in> set ?items. item_denotes item ps} = set ports"
        using item by (auto simp: ports)
      moreover have "\<forall>item \<in> set ?items. \<exists>ps. item_denotes item ps" using item by blast
      ultimately have "specification_denotes preset specification ps \<longleftrightarrow> ps = set ports" for ps by (simp add: denotes)
      with 4 Inr show ?thesis by (simp add: parse_with_preset_list sel btree_set_sorted_list)
    qed
  qed
qed

text \<open>
  C39: Parsing is exact for every text, presets included: a specification is accepted exactly when it is a preset or each of its
  items is a port between 1 and 65535 or a range of two such ports in order, and the selection is the ascending list, without
  duplicates, of exactly the ports these denote, the ends of a range included.
\<close>

theorem parse_ports_exact:
  "parse_ports specification = Inr sel \<longleftrightarrow>
     (\<exists>ports. specification_denotes COMMON_PORTS specification ports \<and> as_slice sel = sorted_list_of_set ports)"
  unfolding parse_ports_def by (rule parse_with_preset_exact [OF COMMON_PORTS_wf(1,2)])

text \<open>
  Writing any non-empty list of valid single ports and ranges, comma separated, and parsing it
  selects exactly the ports of its items, in ascending order.
\<close>

theorem parse_ports_roundtrip:
  assumes "items \<noteq> []" and "\<forall>i \<in> set items. item_valid i"
  shows "\<exists>sel. parse_ports (join '','' (map show_item items)) = Inr sel \<and>
     set (as_slice sel) = (\<Union>i \<in> set items. item_set i) \<and>
     as_slice sel = sorted_list_of_set (\<Union>i \<in> set items. item_set i)"
proof -
  let ?text = "join '','' (map show_item items)"
  have split: "split_on CHR '','' ?text = map show_item items"
    using assms(1) show_item_chars [of "CHR '',''"]
    by (intro split_on_join) (auto simp: is_ascii_digit_def)
  have chars: "is_ascii_digit c \<or> c = CHR ''-'' \<or> c = CHR '',''" if "c \<in> set ?text" for c
  proof -
    have "c \<in> set (join [d] ps) \<Longrightarrow> c = d \<or> (\<exists>p \<in> set ps. c \<in> set p)" for d :: char and ps
      by (induction "[d]" ps rule: join.induct) auto
    from this [OF that] show ?thesis using show_item_chars by auto
  qed
  have "CHR ''o'' \<notin> set ?text" "CHR ''l'' \<notin> set ?text"
    using chars [of "CHR ''o''"] chars [of "CHR ''l''"] by (auto simp: is_ascii_digit_def)
  then have "?text \<notin> {''common'', ''top-100'', ''all''}" by fastforce
  moreover have "?text \<noteq> []"
    using split assms(1) show_item_nonempty by (cases items) (auto, metis map_is_Nil_conv list.inject)
  ultimately have list: "?text \<notin> {''common'', ''top-100'', ''all'', []}" by blast
  have ok: "\<exists>ps. parse_item item = Inr ps" if "item \<in> set (split_on CHR '','' ?text)" for item
    using that parse_item_show assms(2) unfolding split by fastforce
  have "parse_items [] (split_on CHR '','' ?text) \<noteq> Inl e" for e
    unfolding parse_items_Inl using ok by (metis in_set_conv_decomp sum.distinct(1))
  then obtain ports where ports: "parse_items [] (split_on CHR '','' ?text) = Inr ports"
    by (cases "parse_items [] (split_on CHR '','' ?text)") auto
  then have parsed: "parse_ports ?text = Inr \<lparr>selected_ports = btree_set ports\<rparr>"
    using list by (simp add: parse_ports_def parse_with_preset_list)
  have "set ports = (\<Union>i \<in> set items. set (projr (parse_item (show_item i))))"
    using ports unfolding split by (simp add: parse_items_Inr)
  also have "\<dots> = (\<Union>i \<in> set items. item_set i)"
    using parse_item_show assms(2) by (intro SUP_cong refl) (metis sum.sel(2))
  finally have "set ports = (\<Union>i \<in> set items. item_set i)" .
  moreover have "btree_set ports = sorted_list_of_set (set ports)"
    by (simp add: btree_set_def sorted_list_of_set_sort_remdups)
  ultimately show ?thesis using parsed by (simp add: as_slice_def)
qed

theorem parse_ports_roundtrip_witness:
  "\<exists>sel. parse_ports (join '','' (map show_item [Range 443 445, Single 80])) = Inr sel \<and>
     set (as_slice sel) = {443..445} \<union> {80}"
  using parse_ports_roundtrip [of "[Range 443 445, Single 80]"] by fastforce

end
