(* ===== verification/Dns_Types.thy ===== *)
theory Dns_Types
  imports Core_Types
begin

text \<open>
  The DNS observation types of \<^verbatim>\<open>crates/surface-core/src/dns.rs\<close>. Types the code keeps in a \<open>BTreeSet\<close>
  (\<open>CnameHop\<close>, \<open>ResolvedHost\<close>) are datatypes with the derived lexicographic order, the others records.
\<close>

datatype dns_record =
    Rec_A "32 word"
  | Rec_Aaaa "128 word"
  | Rec_Cname string
  | Rec_Ns string
  | Rec_Mx u16 string
  | Rec_Txt string
  | Rec_Caa u8 string string

datatype address_source = Src_Explicit | Src_ARecord | Src_AaaaRecord

datatype cname_hop = CnameHop (hop_from: string) (hop_to: string)

definition hop_key :: "cname_hop \<Rightarrow> string \<times> string" where
  "hop_key h = (hop_from h, hop_to h)"

lemma hop_key_inj: "hop_key a = hop_key b \<longleftrightarrow> a = b"
  by (cases a; cases b) (simp add: hop_key_def)

instantiation cname_hop :: linorder
begin

definition less_eq_cname_hop :: "cname_hop \<Rightarrow> cname_hop \<Rightarrow> bool" where
  "a \<le> b \<longleftrightarrow> hop_key a \<le> hop_key b"

definition less_cname_hop :: "cname_hop \<Rightarrow> cname_hop \<Rightarrow> bool" where
  "a < b \<longleftrightarrow> hop_key a < hop_key b"

instance
  by intro_classes (auto simp: less_eq_cname_hop_def less_cname_hop_def hop_key_inj [symmetric])

end

datatype dangling_cname_status =
    Dangling_Resolved | Dangling_NxDomain | Dangling_NoAddress | Dangling_Indeterminate

fun dangling_status_str :: "dangling_cname_status \<Rightarrow> string" where
  "dangling_status_str Dangling_Resolved = ''resolved''"
| "dangling_status_str Dangling_NxDomain = ''nxdomain''"
| "dangling_status_str Dangling_NoAddress = ''no_address''"
| "dangling_status_str Dangling_Indeterminate = ''indeterminate''"

record dangling_cname_observation =
  dg_source_alias :: string
  dg_canonical_target :: string
  dg_status :: dangling_cname_status
  dg_evidence :: "string list"
  dg_errors :: "string list"
  dg_limitations :: "string list"

datatype resolved_host =
  ResolvedHost (rh_hostname: "string option") (rh_ip: ip_addr) (rh_source: address_source)

record spf_observation =
  spf_records :: "string list"
  spf_terminal_policy :: "string option"

record dmarc_observation =
  dmarc_record :: string
  dmarc_policy :: "string option"
  dmarc_subdomain_policy :: "string option"
  dmarc_percentage :: "nat option"
  dmarc_aggregate_reports :: "string list"
  dmarc_adkim :: "string option"
  dmarc_aspf :: "string option"

record mail_observation =
  mail_mx_present :: bool
  mail_spf :: spf_observation
  mail_dmarc :: "dmarc_observation list"
  mail_mta_sts :: "string list"
  mail_mta_sts_policy_available :: "bool option"
  mail_tls_rpt :: "string list"

datatype dnssec_status =
    Dnssec_Secure | Dnssec_Insecure | Dnssec_Bogus | Dnssec_Indeterminate | Dnssec_NotApplicable

fun dnssec_status_str :: "dnssec_status \<Rightarrow> string" where
  "dnssec_status_str Dnssec_Secure = ''secure''"
| "dnssec_status_str Dnssec_Insecure = ''insecure''"
| "dnssec_status_str Dnssec_Bogus = ''bogus''"
| "dnssec_status_str Dnssec_Indeterminate = ''indeterminate''"
| "dnssec_status_str Dnssec_NotApplicable = ''not_applicable''"

datatype dnssec_record_type = DnssecRt_A | DnssecRt_Aaaa

fun dnssec_record_type_str :: "dnssec_record_type \<Rightarrow> string" where
  "dnssec_record_type_str DnssecRt_A = ''A''"
| "dnssec_record_type_str DnssecRt_Aaaa = ''AAAA''"

record dnssec_rrset_observation =
  rrset_name :: string
  rrset_record_type :: dnssec_record_type
  rrset_status :: dnssec_status

record dnssec_observation =
  dnssec_status :: dnssec_status
  dnssec_checked_rrsets :: "dnssec_rrset_observation list"
  dnssec_errors :: "string list"
  dnssec_limitations :: "string list"

definition dnssec_default :: dnssec_observation where
  "dnssec_default =
     \<lparr>dnssec_status = Dnssec_Indeterminate, dnssec_checked_rrsets = [], dnssec_errors = [],
      dnssec_limitations = []\<rparr>"

datatype wildcard_dns_status =
    Wild_Detected | Wild_NotDetected | Wild_Indeterminate | Wild_NotApplicable

fun wildcard_status_str :: "wildcard_dns_status \<Rightarrow> string" where
  "wildcard_status_str Wild_Detected = ''detected''"
| "wildcard_status_str Wild_NotDetected = ''not_detected''"
| "wildcard_status_str Wild_Indeterminate = ''indeterminate''"
| "wildcard_status_str Wild_NotApplicable = ''not_applicable''"

datatype wildcard_record_type = WildRt_A | WildRt_Aaaa | WildRt_Cname

fun wildcard_record_type_str :: "wildcard_record_type \<Rightarrow> string" where
  "wildcard_record_type_str WildRt_A = ''A''"
| "wildcard_record_type_str WildRt_Aaaa = ''AAAA''"
| "wildcard_record_type_str WildRt_Cname = ''CNAME''"

record wildcard_dns_observation =
  wild_status :: wildcard_dns_status
  wild_probes_attempted :: nat
  wild_answer_types :: "wildcard_record_type list"
  wild_answer_fingerprints :: "string list"
  wild_errors :: "string list"
  wild_limitations :: "string list"
  wild_probe_answers_scanned :: bool

definition wildcard_default :: wildcard_dns_observation where
  "wildcard_default =
     \<lparr>wild_status = Wild_Indeterminate, wild_probes_attempted = 0, wild_answer_types = [],
      wild_answer_fingerprints = [], wild_errors = [], wild_limitations = [],
      wild_probe_answers_scanned = False\<rparr>"

datatype axfr_outcome =
    Axfr_Allowed | Axfr_Refused | Axfr_NotAuthoritative | Axfr_Incomplete | Axfr_Unreachable
  | Axfr_Timeout | Axfr_Cancelled | Axfr_LimitExceeded

fun axfr_outcome_str :: "axfr_outcome \<Rightarrow> string" where
  "axfr_outcome_str Axfr_Allowed = ''allowed''"
| "axfr_outcome_str Axfr_Refused = ''refused''"
| "axfr_outcome_str Axfr_NotAuthoritative = ''not_authoritative''"
| "axfr_outcome_str Axfr_Incomplete = ''incomplete''"
| "axfr_outcome_str Axfr_Unreachable = ''unreachable''"
| "axfr_outcome_str Axfr_Timeout = ''timeout''"
| "axfr_outcome_str Axfr_Cancelled = ''cancelled''"
| "axfr_outcome_str Axfr_LimitExceeded = ''limit_exceeded''"

record axfr_limits =
  lim_nameservers :: nat
  lim_ips_per_nameserver :: nat
  lim_endpoints :: nat
  lim_bytes :: nat
  lim_records :: nat
  lim_messages :: nat

definition axfr_limits_default :: axfr_limits where
  "axfr_limits_default =
     \<lparr>lim_nameservers = 4, lim_ips_per_nameserver = 2, lim_endpoints = 8,
      lim_bytes = 2 * 1024 * 1024, lim_records = 4096, lim_messages = 64\<rparr>"

record axfr_attempt =
  att_server :: string
  att_endpoint :: socket_addr
  att_outcome :: axfr_outcome
  att_response_code :: "string option"
  att_messages :: nat
  att_records :: nat
  att_bytes :: nat
  att_error :: "string option"

record authoritative_axfr_observation =
  axfr_zone :: string
  axfr_nameservers :: "string list"
  axfr_attempts :: "axfr_attempt list"
  axfr_limits :: axfr_limits
  axfr_transferred_records_retained :: bool
  axfr_transferred_owner_names_retained :: bool
  axfr_transferred_owner_names_scanned :: bool

text \<open>
  Authoritative evidence: the zone origin is a \<open>Name\<close> of the \<open>hickory_proto\<close> crate, kept as its text.
\<close>

record authoritative_evidence =
  ev_zone :: string
  ev_nameservers :: "string list"

record dns_observation =
  dns_queried_name :: string
  dns_records :: "dns_record list"
  dns_cname_chain :: "cname_hop list"
  dns_dangling_cnames :: "dangling_cname_observation list"
  dns_resolved_hosts :: "resolved_host list"
  dns_mail :: mail_observation
  dns_dnssec :: "dnssec_observation option"
  dns_authoritative_axfr :: "authoritative_axfr_observation option"
  dns_wildcard_dns :: "wildcard_dns_observation option"
  dns_errors :: "scan_error list"

record dns_baseline =
  base_observation :: dns_observation
  base_authority :: "authoritative_evidence option"

datatype axfr_check_state =
    AxfrCheck_Completed | AxfrCheck_Skipped string | AxfrCheck_TimedOut | AxfrCheck_Cancelled

record axfr_check =
  axc_observation :: "authoritative_axfr_observation option"
  axc_state :: axfr_check_state

datatype wildcard_check_state = WildCheck_Completed | WildCheck_TimedOut | WildCheck_Cancelled

record wildcard_dns_check =
  wdc_observation :: wildcard_dns_observation
  wdc_state :: wildcard_check_state

datatype dangling_check_state =
    DanglingCheck_Completed | DanglingCheck_TimedOut | DanglingCheck_Cancelled

record dangling_cname_check =
  dcc_observations :: "dangling_cname_observation list"
  dcc_state :: dangling_check_state

end
