(* ===== verification/Keyed_Stage.thy ===== *)
theory Keyed_Stage
  imports Prelude
begin

text \<open>
  The interface between a scan stage and the pool of concurrent requests under it. Every active stage
  of the program maps its inputs to requests, polls them through \<open>buffer_unordered\<close>, collects what
  arrives, drops absent results and sorts by the key of the result. The stage's part of the contract is
  that a result carries the key of its input; then the order of arrival cannot be seen.
\<close>

lemma sort_key_map: "sort_key f (map g xs) = map g (sort_key (f \<circ> g) xs)"
proof -
  have ins: "insort_key f (g x) (map g ys) = map g (insort_key (f \<circ> g) x ys)" for x ys
    by (induction ys) auto
  show ?thesis by (induction xs) (simp_all add: ins [unfolded comp_def] comp_def)
qed

locale keyed_option_stage =
  fixes request :: "'a \<Rightarrow> 'b option"
    and result_key :: "'b \<Rightarrow> 'k::linorder"
    and input_key :: "'a \<Rightarrow> 'k"
  assumes request_key: "request x = Some y \<Longrightarrow> result_key y = input_key x"
begin

lemma filter_map_insort_None:
  "request x = None \<Longrightarrow> filter_map request (insort_key input_key x xs) = filter_map request xs"
  by (induction xs) (auto split: option.splits)

lemma filter_map_insort_Some:
  assumes x: "request x = Some y"
  shows "sorted (map input_key xs) \<Longrightarrow>
    filter_map request (insort_key input_key x xs) = insort_key result_key y (filter_map request xs)"
proof (induction xs)
  case Nil
  with x show ?case by simp
next
  case (Cons z zs)
  have y: "result_key y = input_key x" using x by (rule request_key)
  show ?case
  proof (cases "input_key x \<le> input_key z")
    case True
    with Cons.prems have "\<forall>w \<in> set (filter_map request (z # zs)). result_key y \<le> result_key w"
      using y request_key by (fastforce simp: set_filter_map split: option.splits)
    then have "insort_key result_key y (filter_map request (z # zs)) = y # filter_map request (z # zs)"
      by (rule insort_is_Cons)
    with True x show ?thesis by simp
  next
    case False
    with Cons y show ?thesis
      by (cases "request z") (simp_all add: request_key)
  qed
qed

lemma filter_map_sort:
  "filter_map request (sort_key input_key xs) = sort_key result_key (filter_map request xs)"
proof (induction xs)
  case (Cons x xs)
  then show ?case
    by (cases "request x") (simp_all add: filter_map_insort_None filter_map_insort_Some)
qed simp

lemma arrival_order_invisible:
  assumes "mset arrived = mset (filter_map request xs)" and "inj_on input_key (set xs)"
  shows "sort_key result_key arrived = filter_map request (sort_key input_key xs)"
proof -
  have "x = x'" if "request x = Some y" "request x' = Some y'" "result_key y = result_key y'"
    "x \<in> set xs" "x' \<in> set xs" for x x' y y'
  proof -
    from that have "input_key x = input_key x'" using request_key by metis
    with that assms(2) show ?thesis by (auto dest: inj_onD)
  qed
  then have "inj_on result_key (set (filter_map request xs))"
    by (intro inj_onI) (metis option.inject set_filter_map)
  with assms(1) have "sort_key result_key arrived = sort_key result_key (filter_map request xs)"
    by (metis mset_eq_setD sort_key_perm)
  then show ?thesis by (simp add: filter_map_sort)
qed

end

locale keyed_stage =
  fixes request :: "'a \<Rightarrow> 'b"
    and result_key :: "'b \<Rightarrow> 'k::linorder"
    and input_key :: "'a \<Rightarrow> 'k"
  assumes request_key_total: "result_key (request x) = input_key x"

sublocale keyed_stage \<subseteq> optional: keyed_option_stage "\<lambda>x. Some (request x)" result_key input_key
  by unfold_locales (auto simp: request_key_total)

lemma filter_map_Some [simp]: "filter_map (\<lambda>x. Some (f x)) xs = map f xs"
  by (induction xs) simp_all

context keyed_stage begin

lemma arrival_order_invisible_total:
  assumes "mset arrived = mset (map request xs)" and "inj_on input_key (set xs)"
  shows "sort_key result_key arrived = map request (sort_key input_key xs)"
  using optional.arrival_order_invisible [of arrived xs] assms by simp

end

text \<open>What every stage assumes of the pool: it returns each result once, in some order.\<close>

definition fair_pool :: "(nat \<Rightarrow> 'b list \<Rightarrow> 'b list) \<Rightarrow> bool" where
  "fair_pool arrive \<longleftrightarrow> (\<forall>n xs. 0 < n \<longrightarrow> mset (arrive n xs) = mset xs)"

lemma fair_pool_mset: "fair_pool arrive \<Longrightarrow> 0 < n \<Longrightarrow> mset (arrive n xs) = mset xs"
  by (simp add: fair_pool_def)

lemma fair_pool_set: "fair_pool arrive \<Longrightarrow> 0 < n \<Longrightarrow> set (arrive n xs) = set xs"
  by (rule mset_eq_setD) (rule fair_pool_mset)

lemma fair_pool_rev [simp]: "fair_pool (\<lambda>n. rev)"
  by (simp add: fair_pool_def)

end
