(* ===== verification/Scanner.thy ===== *)
theory Scanner
  imports Core_Types Keyed_Stage
begin

text \<open>
  Bounded port scanning, \<^verbatim>\<open>crates/surface-core/src/scanner.rs\<close>. The sockets are the environment: a
  function from the connect timeout and the address to what the \<open>select!\<close> over cancellation, timeout
  and socket operation saw. Polling many probes at once (\<open>buffer_unordered\<close> of the \<open>futures\<close> crate)
  returns their results in an order the model does not know: a function \<open>arrive\<close> from the concurrency
  and the list in submission order to the list in arrival order, of which the theorems assume only that
  it is a permutation.
\<close>

section \<open>Model\<close>

datatype transport_protocol = Tcp | Udp

fun transport_as_str :: "transport_protocol \<Rightarrow> string" where
  "transport_as_str Tcp = ''tcp''"
| "transport_as_str Udp = ''udp''"

fun transport_rank :: "transport_protocol \<Rightarrow> nat" where
  "transport_rank Tcp = 0"
| "transport_rank Udp = 1"

lemma transport_rank_inj: "transport_rank a = transport_rank b \<longleftrightarrow> a = b"
  by (cases a; cases b) simp_all

instantiation transport_protocol :: linorder
begin

definition less_eq_transport_protocol :: "transport_protocol \<Rightarrow> transport_protocol \<Rightarrow> bool" where
  "a \<le> b \<longleftrightarrow> transport_rank a \<le> transport_rank b"

definition less_transport_protocol :: "transport_protocol \<Rightarrow> transport_protocol \<Rightarrow> bool" where
  "a < b \<longleftrightarrow> transport_rank a < transport_rank b"

instance
  by intro_classes
    (auto simp: less_eq_transport_protocol_def less_transport_protocol_def
      transport_rank_inj [symmetric])

end

datatype port_state = Open | Closed | OpenFiltered | TimedOut | Unreachable | PortError | Cancelled

record port_observation =
  po_transport :: transport_protocol
  po_address :: socket_addr
  po_state :: port_state
  po_latency_ms :: "nat option"
  po_error :: "string option"

record host_observation =
  host_ip :: ip_addr
  host_ports :: "port_observation list"

text \<open>\<open>std::io::ErrorKind\<close>, as far as the code tells its values apart.\<close>

datatype io_error_kind = ConnectionRefused | IoTimedOut | HostUnreachable | NetworkUnreachable | OtherIo

datatype probe_result =
    ProbeCancelled \<comment> \<open>the cancellation branch was taken\<close>
  | ProbeElapsed "nat option" \<comment> \<open>the timeout expired, after the latency in milliseconds\<close>
  | ProbeFailed io_error_kind string "nat option" \<comment> \<open>the operation failed with the error and its text\<close>
  | ProbeSucceeded "nat option"

fun classify_error :: "io_error_kind \<Rightarrow> port_state" where
  "classify_error ConnectionRefused = Closed"
| "classify_error IoTimedOut = TimedOut"
| "classify_error HostUnreachable = Unreachable"
| "classify_error NetworkUnreachable = Unreachable"
| "classify_error OtherIo = PortError"

definition sanitize_chars :: "nat \<Rightarrow> string \<Rightarrow> string" where
  \<comment> \<open>the idiom \<open>chars().filter(!is_control).take(n).collect()\<close>\<close>
  "sanitize_chars n v = concat (take n (filter (\<lambda>c. \<not> is_control c) (chars v)))"

definition sanitize_error :: "string \<Rightarrow> string" where
  "sanitize_error v = sanitize_chars 256 v"

definition connect ::
    "(nat \<Rightarrow> socket_addr \<Rightarrow> probe_result) \<Rightarrow> nat \<Rightarrow> socket_addr \<Rightarrow> port_observation" where
  "connect net connect_timeout address =
     (case net connect_timeout address of
        ProbeCancelled \<Rightarrow>
          \<lparr>po_transport = Tcp, po_address = address, po_state = Cancelled,
           po_latency_ms = None, po_error = None\<rparr>
      | ProbeSucceeded latency_ms \<Rightarrow>
          \<lparr>po_transport = Tcp, po_address = address, po_state = Open,
           po_latency_ms = latency_ms, po_error = None\<rparr>
      | ProbeFailed kind message latency_ms \<Rightarrow>
          \<lparr>po_transport = Tcp, po_address = address, po_state = classify_error kind,
           po_latency_ms = latency_ms, po_error = Some (sanitize_error message)\<rparr>
      | ProbeElapsed latency_ms \<Rightarrow>
          \<lparr>po_transport = Tcp, po_address = address, po_state = TimedOut,
           po_latency_ms = latency_ms, po_error = Some ''connection timed out''\<rparr>)"

definition udp_probe_payload :: "u16 \<Rightarrow> bytes" where
  "udp_probe_payload port =
     (if port = 53 then
        map char_of [0x53, 0x55, 0x01, 0x00, 0x00, 0x01, 0x00, 0x00, 0x00, 0x00, 0x00, 0x00, 0x00, 0x00,
                     0x02, 0x00, 0x01 :: nat]
      else if port = 123 then CHR 0x1b # replicate 47 (CHR 0x00)
      else if port = 3478 then
        map char_of [0x00, 0x01, 0x00, 0x00, 0x21, 0x12, 0xa4, 0x42 :: nat] @ ''SURFACEPROBE''
      else if port = 19132 \<or> port = 19133 then
        CHR 0x01 # replicate 9 (CHR 0x00) @
        map char_of [0xff, 0xff, 0x00, 0xfe, 0xfe, 0xfe, 0xfe, 0xfd, 0xfd, 0xfd, 0xfd, 0x12, 0x34, 0x56,
                     0x78 :: nat] @ replicate 8 (CHR 0x00)
      else if port = 27015 then
        replicate 4 (CHR 0xff) @ ''TSource Engine Query'' @ [CHR 0x00]
      else [])"

definition udp_bind_address :: "socket_addr \<Rightarrow> string" where
  "udp_bind_address address = (if is_ipv4 (sa_ip address) then ''0.0.0.0:0'' else ''[::]:0'')"

definition probe_udp ::
    "(nat \<Rightarrow> string \<Rightarrow> bytes \<Rightarrow> socket_addr \<Rightarrow> probe_result) \<Rightarrow> nat \<Rightarrow> socket_addr \<Rightarrow> port_observation"
where
  "probe_udp net probe_timeout address =
     (case net probe_timeout (udp_bind_address address) (udp_probe_payload (sa_port address)) address of
        ProbeCancelled \<Rightarrow>
          \<lparr>po_transport = Udp, po_address = address, po_state = Cancelled,
           po_latency_ms = None, po_error = None\<rparr>
      | ProbeSucceeded latency_ms \<Rightarrow>
          \<lparr>po_transport = Udp, po_address = address, po_state = Open,
           po_latency_ms = latency_ms, po_error = None\<rparr>
      | ProbeFailed kind message latency_ms \<Rightarrow>
          \<lparr>po_transport = Udp, po_address = address, po_state = classify_error kind,
           po_latency_ms = latency_ms, po_error = Some (sanitize_error message)\<rparr>
      | ProbeElapsed latency_ms \<Rightarrow>
          \<lparr>po_transport = Udp, po_address = address, po_state = OpenFiltered,
           po_latency_ms = latency_ms, po_error = None\<rparr>)"

definition attempts :: "ip_addr list \<Rightarrow> u16 list \<Rightarrow> socket_addr list" where
  "attempts addresses ports = concat (map (\<lambda>ip. map (SocketAddr ip) ports) addresses)"

definition group_by_host :: "ip_addr list \<Rightarrow> port_observation list \<Rightarrow> host_observation list" where
  "group_by_host addresses observations =
     map (\<lambda>ip. \<lparr>host_ip = ip, host_ports = filter (\<lambda>po. sa_ip (po_address po) = ip) observations\<rparr>)
       addresses"

definition scan_ports ::
    "(nat \<Rightarrow> port_observation list \<Rightarrow> port_observation list) \<Rightarrow>
     (nat \<Rightarrow> socket_addr \<Rightarrow> probe_result) \<Rightarrow>
     ip_addr list \<Rightarrow> u16 list \<Rightarrow> nat \<Rightarrow> nat \<Rightarrow> host_observation list" where
  "scan_ports arrive net addresses ports concurrency connect_timeout =
     (let observations =
        sort_key po_address
          (arrive (max concurrency 1) (map (connect net connect_timeout) (attempts addresses ports)))
      in group_by_host addresses observations)"

definition scan_udp_ports ::
    "(nat \<Rightarrow> port_observation list \<Rightarrow> port_observation list) \<Rightarrow>
     (nat \<Rightarrow> string \<Rightarrow> bytes \<Rightarrow> socket_addr \<Rightarrow> probe_result) \<Rightarrow>
     ip_addr list \<Rightarrow> u16 list \<Rightarrow> nat \<Rightarrow> nat \<Rightarrow> host_observation list" where
  "scan_udp_ports arrive net addresses ports concurrency probe_timeout =
     (let observations =
        sort_key po_address
          (arrive (max concurrency 1) (map (probe_udp net probe_timeout) (attempts addresses ports)))
      in group_by_host addresses observations)"

section \<open>Lemmas\<close>

lemma chars_sanitize_chars:
  "chars (sanitize_chars n v) = take n (filter (\<lambda>c. \<not> is_control c) (chars v))"
  unfolding sanitize_chars_def
  by (intro chars_concat char_groups_take char_groups_filter char_groups_chars)

definition clean_text :: "nat \<Rightarrow> string \<Rightarrow> bool" where
  \<comment> \<open>at most \<open>n\<close> characters, none of them a control character\<close>
  "clean_text n s \<longleftrightarrow> length (chars s) \<le> n \<and> (\<forall>c \<in> set (chars s). \<not> is_control c)"

lemma sanitize_chars_clean: "clean_text n (sanitize_chars n v)"
  unfolding clean_text_def chars_sanitize_chars by (auto dest: in_set_takeD)

lemma clean_text_ascii:
  "ascii s \<Longrightarrow> length s \<le> n \<Longrightarrow> list_all (\<lambda>c. 32 \<le> byte c \<and> byte c \<noteq> 127) s \<Longrightarrow> clean_text n s"
  by (auto simp: clean_text_def chars_ascii list_all_iff)

lemma sanitize_chars_idem: "sanitize_chars n (sanitize_chars n v) = sanitize_chars n v"
proof -
  let ?kept = "filter (\<lambda>c. \<not> is_control c) (chars v)"
  have "filter (\<lambda>c. \<not> is_control c) (take n ?kept) = take n ?kept"
    by (rule filter_True) (auto dest: in_set_takeD)
  then have "sanitize_chars n (sanitize_chars n v) = concat (take n (take n ?kept))"
    by (simp add: sanitize_chars_def [of n "sanitize_chars n v"] chars_sanitize_chars)
  then show ?thesis by (simp add: sanitize_chars_def)
qed

lemma connect_address [simp]: "po_address (connect net t a) = a"
  by (simp add: connect_def split: probe_result.splits)

lemma connect_transport [simp]: "po_transport (connect net t a) = Tcp"
  by (simp add: connect_def split: probe_result.splits)

lemma probe_udp_address [simp]: "po_address (probe_udp net t a) = a"
  by (simp add: probe_udp_def split: probe_result.splits)

lemma probe_udp_transport [simp]: "po_transport (probe_udp net t a) = Udp"
  by (simp add: probe_udp_def split: probe_result.splits)

interpretation tcp: keyed_stage "connect net t" po_address id for net t
  by unfold_locales simp

interpretation udp: keyed_stage "probe_udp net t" po_address id for net t
  by unfold_locales simp

lemma set_attempts: "set (attempts addresses ports) = {a. sa_ip a \<in> set addresses \<and> sa_port a \<in> set ports}"
  by (auto simp: attempts_def) (metis imageI socket_addr.collapse)

lemma attempts_of_ip:
  "distinct addresses \<Longrightarrow> ip \<in> set addresses \<Longrightarrow>
   filter (\<lambda>a. sa_ip a = ip) (attempts addresses ports) = map (SocketAddr ip) ports"
proof (induction addresses)
  case (Cons x xs)
  have same: "filter (\<lambda>a. sa_ip a = ip) (map (SocketAddr ip) ports) = map (SocketAddr ip) ports"
    by (rule filter_True) auto
  have other: "filter (\<lambda>a. sa_ip a = ip) (map (SocketAddr z) ports) = []" if "z \<noteq> ip" for z
    using that by (auto intro: filter_False)
  have none: "filter (\<lambda>a. sa_ip a = ip) (attempts xs ports) = []" if "ip \<notin> set xs"
    using that by (intro filter_False) (auto simp: set_attempts)
  have split: "attempts (z # zs) ports = map (SocketAddr z) ports @ attempts zs ports" for z zs
    by (simp add: attempts_def)
  show ?case
  proof (cases "x = ip")
    case True
    with Cons.prems none same show ?thesis by (simp add: split)
  next
    case False
    with Cons other show ?thesis by (simp add: split)
  qed
qed simp

lemma sort_socket_same_ip: "sort_key id (map (SocketAddr ip) ports) = map (SocketAddr ip) (sort ports)"
proof -
  have "(id \<circ> SocketAddr ip) a \<le> (id \<circ> SocketAddr ip) b \<longleftrightarrow> a \<le> b" for a b
    by (simp add: less_eq_socket_addr_def sa_key_def)
  then have "insort_key (id \<circ> SocketAddr ip) x xs = insort x xs" for x xs
    by (induction xs) simp_all
  then have "sort_key (id \<circ> SocketAddr ip) ports = sort ports"
    by (induction ports) simp_all
  then show ?thesis by (simp add: sort_key_map del: id_o o_id)
qed

lemma group_by_host_work:
  assumes address: "\<And>a. po_address (work a) = a" and "distinct addresses"
  shows "group_by_host addresses (map work (sort_key id (attempts addresses ports))) =
    map (\<lambda>ip. \<lparr>host_ip = ip, host_ports = map (work \<circ> SocketAddr ip) (sort ports)\<rparr>) addresses"
proof -
  have "filter (\<lambda>po. sa_ip (po_address po) = ip) (map work (sort_key id (attempts addresses ports)))
      = map (work \<circ> SocketAddr ip) (sort ports)" if "ip \<in> set addresses" for ip
  proof -
    have "filter (\<lambda>po. sa_ip (po_address po) = ip) (map work zs) =
        map work (filter (\<lambda>a. sa_ip a = ip) zs)" for zs
      by (induction zs) (simp_all add: address)
    moreover have "filter (\<lambda>a. sa_ip a = ip) (sort_key id (attempts addresses ports)) =
        map (SocketAddr ip) (sort ports)"
      by (simp add: filter_sort attempts_of_ip [OF assms(2) that] sort_socket_same_ip)
    ultimately show ?thesis by simp
  qed
  then show ?thesis by (simp add: group_by_host_def)
qed

lemma scan_ports_hosts:
  assumes "fair_pool arrive" and "distinct addresses"
  shows "scan_ports arrive net addresses ports n t =
    map (\<lambda>ip. \<lparr>host_ip = ip, host_ports = map (connect net t \<circ> SocketAddr ip) (sort ports)\<rparr>) addresses"
  unfolding scan_ports_def Let_def
  using tcp.arrival_order_invisible_total [of _ net t "attempts addresses ports"]
  by (simp add: fair_pool_mset [OF assms(1)] group_by_host_work [OF connect_address assms(2)])

lemma scan_udp_ports_hosts:
  assumes "fair_pool arrive" and "distinct addresses"
  shows "scan_udp_ports arrive net addresses ports n t =
    map (\<lambda>ip. \<lparr>host_ip = ip, host_ports = map (probe_udp net t \<circ> SocketAddr ip) (sort ports)\<rparr>) addresses"
  unfolding scan_udp_ports_def Let_def
  using udp.arrival_order_invisible_total [of _ net t "attempts addresses ports"]
  by (simp add: fair_pool_mset [OF assms(1)] group_by_host_work [OF probe_udp_address assms(2)])

lemma classify_error_closed: "classify_error k \<noteq> Open \<and> classify_error k \<noteq> OpenFiltered"
  by (cases k) simp_all

lemma connect_state:
  "(po_state (connect net t a) = Open \<longleftrightarrow> (\<exists>l. net t a = ProbeSucceeded l)) \<and>
   po_state (connect net t a) \<noteq> OpenFiltered"
  by (cases "net t a") (simp_all add: connect_def classify_error_closed)

lemma probe_udp_state:
  fixes net t a
  defines "r \<equiv> net t (udp_bind_address a) (udp_probe_payload (sa_port a)) a"
  shows "(po_state (probe_udp net t a) = Open \<longleftrightarrow> (\<exists>l. r = ProbeSucceeded l)) \<and>
   (po_state (probe_udp net t a) = OpenFiltered \<longleftrightarrow> (\<exists>l. r = ProbeElapsed l))"
  by (cases r) (simp_all add: probe_udp_def r_def [symmetric] classify_error_closed)

lemma sanitize_error_clean: "clean_text 256 (sanitize_error m)"
  unfolding sanitize_error_def by (rule sanitize_chars_clean)

lemma timeout_text_clean: "clean_text 256 ''connection timed out''"
  by (rule clean_text_ascii) (simp_all add: ascii_def)

lemma connect_error_clean: "po_error (connect net t a) = Some e \<Longrightarrow> clean_text 256 e"
  by (cases "net t a") (auto simp add: connect_def sanitize_error_clean timeout_text_clean)

lemma probe_udp_error_clean: "po_error (probe_udp net t a) = Some e \<Longrightarrow> clean_text 256 e"
  by (auto simp add: probe_udp_def sanitize_error_clean split: probe_result.splits)

section \<open>Properties\<close>

text \<open>
  Port scanning is deterministic: whatever the concurrency and whatever the order in which the
  probes complete, TCP and UDP scans return one host per address in the order given, holding exactly one
  observation per port in ascending port order, each the classification of that socket's own probe.
\<close>

theorem scan_deterministic:
  assumes "fair_pool arrive" and "distinct addresses"
  shows "scan_ports arrive net addresses ports n t =
      map (\<lambda>ip. \<lparr>host_ip = ip, host_ports = map (\<lambda>p. connect net t (SocketAddr ip p)) (sort ports)\<rparr>)
        addresses \<and>
    scan_udp_ports arrive net_udp addresses ports n t =
      map (\<lambda>ip. \<lparr>host_ip = ip, host_ports = map (\<lambda>p. probe_udp net_udp t (SocketAddr ip p)) (sort ports)\<rparr>)
        addresses"
  using assms by (simp add: scan_ports_hosts scan_udp_ports_hosts comp_def)

theorem scan_deterministic_witness:
  "scan_ports (\<lambda>n. rev) (\<lambda>t a. ProbeSucceeded None) [V4 1, V4 2] [443, 80] 0 9 =
     map (\<lambda>ip. \<lparr>host_ip = ip, host_ports =
        map (\<lambda>p. \<lparr>po_transport = Tcp, po_address = SocketAddr ip p, po_state = Open,
                 po_latency_ms = None, po_error = None\<rparr>) [80, 443]\<rparr>) [V4 1, V4 2]"
  using scan_deterministic [of "\<lambda>n. rev" "[V4 1, V4 2]" "\<lambda>t a. ProbeSucceeded None" "[443, 80]" 0 9]
  by (simp add: connect_def)

text \<open>
  What a probe may claim. Open is reported only when the connection or the datagram exchange
  succeeded; a silent UDP port is never open but open or filtered, and a silent TCP port timed out; and
  the text kept of an operating-system error has at most 256 characters and no control character.
\<close>

theorem probe_states_conservative:
  "(po_state (connect net t a) = Open \<longleftrightarrow> (\<exists>l. net t a = ProbeSucceeded l)) \<and>
   (po_state (probe_udp udp_net t a) = Open \<longleftrightarrow>
      (\<exists>l. udp_net t (udp_bind_address a) (udp_probe_payload (sa_port a)) a = ProbeSucceeded l)) \<and>
   (po_state (probe_udp udp_net t a) = OpenFiltered \<longleftrightarrow>
      (\<exists>l. udp_net t (udp_bind_address a) (udp_probe_payload (sa_port a)) a = ProbeElapsed l)) \<and>
   po_state (connect net t a) \<noteq> OpenFiltered \<and>
   (po_error (connect net t a) = Some e \<longrightarrow> clean_text 256 e) \<and>
   (po_error (probe_udp udp_net t a) = Some e \<longrightarrow> clean_text 256 e)"
  using connect_state [of net t a] probe_udp_state [of udp_net t a]
    connect_error_clean [of net t a e] probe_udp_error_clean [of udp_net t a e]
  by blast

theorem probe_states_conservative_witness:
  "po_state (probe_udp (\<lambda>t b p a. ProbeElapsed None) 9 (SocketAddr (V4 1) 53)) = OpenFiltered \<and>
   po_error (connect (\<lambda>t a. ProbeFailed OtherIo ''reset'' None) 9 (SocketAddr (V4 1) 53)) = Some ''reset'' \<and>
   clean_text 256 ''reset''"
proof -
  let ?net = "\<lambda>t a. ProbeFailed OtherIo ''reset'' None"
  have "po_error (connect ?net 9 (SocketAddr (V4 1) 53)) = Some ''reset''"
    by (simp add: connect_def sanitize_error_def sanitize_chars_def is_continuation_def)
  with probe_states_conservative [of ?net 9 "SocketAddr (V4 1) 53" "\<lambda>t b p a. ProbeElapsed None" "''reset''"]
  show ?thesis by simp
qed

end
