(* ===== verification/Dns.thy ===== *)
theory Dns
  imports Dns_Types Scanner
begin

text \<open>
  The pure part of \<^verbatim>\<open>crates/surface-core/src/dns.rs\<close>: mail-record interpretation, the primary CNAME
  chain, the observation of an explicit IP, and the classification of validation and destination
  queries. The resolver calls themselves are parameters of the engine.
\<close>

section \<open>Mail records\<close>

definition MAX_DMARC_DESTINATIONS :: nat where
  "MAX_DMARC_DESTINATIONS = 16"

definition MAX_DMARC_DESTINATION_CHARS :: nat where
  "MAX_DMARC_DESTINATION_CHARS = 256"

definition take_chars :: "nat \<Rightarrow> string \<Rightarrow> string" where
  \<comment> \<open>\<open>chars().take(n).collect()\<close>\<close>
  "take_chars n s = concat (take n (chars s))"

definition dmarc_part :: "dmarc_observation \<Rightarrow> string \<Rightarrow> dmarc_observation" where
  \<comment> \<open>one iteration of the loop of \<open>parse_dmarc\<close>\<close>
  "dmarc_part result part =
     (case split_once CHR ''='' part of
        None \<Rightarrow> result
      | Some (name, v) \<Rightarrow>
          let tag = to_ascii_lowercase name in
          if tag = ''p'' then result\<lparr>dmarc_policy := Some (to_ascii_lowercase v)\<rparr>
          else if tag = ''sp'' then result\<lparr>dmarc_subdomain_policy := Some (to_ascii_lowercase v)\<rparr>
          else if tag = ''pct'' then
            result\<lparr>dmarc_percentage :=
              (case parse_uint 255 v of None \<Rightarrow> None | Some n \<Rightarrow> if n \<le> 100 then Some n else None)\<rparr>
          else if tag = ''rua'' then
            result\<lparr>dmarc_aggregate_reports :=
              map (take_chars MAX_DMARC_DESTINATION_CHARS)
                (take MAX_DMARC_DESTINATIONS (map trim (split_on CHR '','' v)))\<rparr>
          else if tag = ''adkim'' then result\<lparr>dmarc_adkim := Some (to_ascii_lowercase v)\<rparr>
          else if tag = ''aspf'' then result\<lparr>dmarc_aspf := Some (to_ascii_lowercase v)\<rparr>
          else result)"

definition parse_dmarc :: "string \<Rightarrow> dmarc_observation" where
  "parse_dmarc r =
     foldl dmarc_part
       \<lparr>dmarc_record = r, dmarc_policy = None, dmarc_subdomain_policy = None,
        dmarc_percentage = None, dmarc_aggregate_reports = [], dmarc_adkim = None, dmarc_aspf = None\<rparr>
       (map trim (split_on CHR '';'' r))"

definition spf_terminal_terms :: "string list" where
  "spf_terminal_terms = [''-all'', ''~all'', ''?all'', ''+all'', ''all'']"

definition spf_text :: "dns_record \<Rightarrow> string option" where
  "spf_text r =
     (case r of
        Rec_Txt v \<Rightarrow> if starts_with (to_ascii_lowercase v) ''v=spf1 '' then Some v else None
      | _ \<Rightarrow> None)"

fun is_mx :: "dns_record \<Rightarrow> bool" where
  "is_mx (Rec_Mx _ _) = True"
| "is_mx _ = False"

definition interpret_mail ::
    "dns_record list \<Rightarrow> string list \<Rightarrow> string list \<Rightarrow> string list \<Rightarrow> mail_observation" where
  "interpret_mail records dmarc_records mta_sts tls_rpt =
     (let spf = sort (filter_map spf_text records);
          terminal_policy =
            (case spf of
               [] \<Rightarrow> None
             | record # _ \<Rightarrow>
                 find (\<lambda>t. t \<in> set spf_terminal_terms) (rev (split_ascii_whitespace record)));
          dmarc = sort_key dmarc_record
            (map parse_dmarc
              (filter (\<lambda>r. starts_with (to_ascii_lowercase r) ''v=dmarc1'') dmarc_records))
      in \<lparr>mail_mx_present = list_ex is_mx records,
          mail_spf = \<lparr>spf_records = spf, spf_terminal_policy = terminal_policy\<rparr>,
          mail_dmarc = dmarc, mail_mta_sts = mta_sts, mail_mta_sts_policy_available = None,
          mail_tls_rpt = tls_rpt\<rparr>)"

section \<open>The CNAME chain and explicit addresses\<close>

definition MAX_CNAME_CHAIN_HOPS :: nat where
  "MAX_CNAME_CHAIN_HOPS = 16"

function cname_loop ::
    "cname_hop list \<Rightarrow> string list \<Rightarrow> string \<Rightarrow> cname_hop list \<Rightarrow> cname_hop list" where
  \<comment> \<open>the \<open>while\<close> loop of \<open>ordered_cname_chain\<close>, over the remaining edges, visited names and current name\<close>
  "cname_loop edges visited current chain =
     (if length chain < MAX_CNAME_CHAIN_HOPS \<and> current \<notin> set visited then
        (case find (\<lambda>hop. eq_ignore_ascii_case (hop_from hop) current) edges of
           None \<Rightarrow> chain
         | Some hop \<Rightarrow>
             cname_loop (removeAll hop edges) (current # visited) (hop_to hop) (push chain hop))
      else chain)"
  by pat_completeness auto
termination
  by (relation "measure (\<lambda>(_, _, _, chain). MAX_CNAME_CHAIN_HOPS - length chain)") auto

declare cname_loop.simps [simp del]

definition ordered_cname_chain :: "string \<Rightarrow> cname_hop list \<Rightarrow> cname_hop list" where
  "ordered_cname_chain hostname edges = cname_loop (btree_set edges) [] hostname []"

definition explicit_ip_observation :: "string option \<Rightarrow> ip_addr \<Rightarrow> dns_observation" where
  \<comment> \<open>over the target's \<open>hostname\<close> field, the only one read\<close>
  "explicit_ip_observation hostname ip =
     \<lparr>dns_queried_name = (case hostname of Some h \<Rightarrow> h | None \<Rightarrow> show_ip ip),
      dns_records = [], dns_cname_chain = [], dns_dangling_cnames = [],
      dns_resolved_hosts = [ResolvedHost None ip Src_Explicit],
      dns_mail = interpret_mail [] [] [] [],
      dns_dnssec = Some (dnssec_default\<lparr>
        dnssec_status := Dnssec_NotApplicable,
        dnssec_limitations := [''DNSSEC validation applies only to hostname targets.'']\<rparr>),
      dns_authoritative_axfr = None,
      dns_wildcard_dns = Some (wildcard_default\<lparr>
        wild_status := Wild_NotApplicable,
        wild_limitations :=
          [''Wildcard DNS detection applies only to hostname targets.'',
           ''Random probe answers were not scanned or used as downstream targets.'']\<rparr>),
      dns_errors = []\<rparr>"

section \<open>Classification\<close>

datatype dangling_query_outcome = Query_Address | Query_NxDomain | Query_NoAddress | Query_Indeterminate

definition classify_dangling_outcomes :: "dangling_query_outcome list \<Rightarrow> dangling_cname_status" where
  "classify_dangling_outcomes outcomes =
     (if Query_Address \<in> set outcomes then Dangling_Resolved
      else if outcomes \<noteq> [] \<and> list_all (\<lambda>q. q = Query_NxDomain) outcomes then Dangling_NxDomain
      else if outcomes \<noteq> [] \<and> list_all (\<lambda>q. q = Query_NoAddress) outcomes then Dangling_NoAddress
      else Dangling_Indeterminate)"

definition MAX_DANGLING_CNAME_MESSAGES :: nat where
  "MAX_DANGLING_CNAME_MESSAGES = 8"

definition MAX_DANGLING_CNAME_MESSAGE_CHARS :: nat where
  "MAX_DANGLING_CNAME_MESSAGE_CHARS = 256"

definition push_dangling_message :: "string list \<Rightarrow> string \<Rightarrow> string list" where
  "push_dangling_message messages message =
     (if MAX_DANGLING_CNAME_MESSAGES \<le> length messages then messages
      else let message = take_chars MAX_DANGLING_CNAME_MESSAGE_CHARS message
        in if message \<in> set messages then messages else push messages message)"

text \<open>\<open>Proof\<close> of the \<open>hickory_proto\<close> crate: the validation state of a record.\<close>

datatype dnssec_proof = Proof_Secure | Proof_Insecure | Proof_Bogus | Proof_Indeterminate

fun dnssec_status_from_proof :: "dnssec_proof \<Rightarrow> dnssec_status" where
  "dnssec_status_from_proof Proof_Secure = Dnssec_Secure"
| "dnssec_status_from_proof Proof_Insecure = Dnssec_Insecure"
| "dnssec_status_from_proof Proof_Bogus = Dnssec_Bogus"
| "dnssec_status_from_proof Proof_Indeterminate = Dnssec_Indeterminate"

fun aggregate_loop :: "dnssec_status option \<Rightarrow> dnssec_status list \<Rightarrow> dnssec_status" where
  "aggregate_loop aggregate [] =
     (case aggregate of Some s \<Rightarrow> s | None \<Rightarrow> Dnssec_Indeterminate)"
| "aggregate_loop aggregate (Dnssec_Bogus # ss) = Dnssec_Bogus"
| "aggregate_loop aggregate (Dnssec_Indeterminate # ss) = aggregate_loop (Some Dnssec_Indeterminate) ss"
| "aggregate_loop aggregate (Dnssec_Insecure # ss) =
     aggregate_loop
       (if aggregate \<noteq> Some Dnssec_Indeterminate then Some Dnssec_Insecure else aggregate) ss"
| "aggregate_loop aggregate (Dnssec_Secure # ss) =
     aggregate_loop (if aggregate = None then Some Dnssec_Secure else aggregate) ss"
| "aggregate_loop aggregate (Dnssec_NotApplicable # ss) = aggregate_loop aggregate ss"

definition aggregate_dnssec_status :: "dnssec_status list \<Rightarrow> dnssec_status" where
  "aggregate_dnssec_status statuses = aggregate_loop None statuses"

definition dnssec_status_from_proofs :: "dnssec_proof list \<Rightarrow> dnssec_status" where
  "dnssec_status_from_proofs proofs = aggregate_dnssec_status (map dnssec_status_from_proof proofs)"

section \<open>Bounds on text\<close>

definition MAX_TXT_BYTES :: nat where
  "MAX_TXT_BYTES = 2048"

definition is_char_boundary :: "string \<Rightarrow> nat \<Rightarrow> bool" where
  "is_char_boundary s i \<longleftrightarrow>
     i = 0 \<or> i = length s \<or> i < length s \<and> \<not> is_continuation (s ! i)"

fun boundary_at_most :: "string \<Rightarrow> nat \<Rightarrow> nat" where
  \<comment> \<open>the \<open>while\<close> loop of \<open>capped\<close>, from \<open>boundary\<close> downwards; offset 0 is always a boundary\<close>
  "boundary_at_most s 0 = 0"
| "boundary_at_most s (Suc i) = (if is_char_boundary s (Suc i) then Suc i else boundary_at_most s i)"

definition capped :: "string \<Rightarrow> string" where
  "capped v =
     (if MAX_TXT_BYTES < length v then take (boundary_at_most v MAX_TXT_BYTES) v else v)"

section \<open>Lemmas\<close>

fun chain_linked :: "string \<Rightarrow> cname_hop list \<Rightarrow> bool" where
  \<comment> \<open>every hop starts, up to ASCII case, at the name the one before it ends at\<close>
  "chain_linked name [] = True"
| "chain_linked name (h # hs) = (eq_ignore_ascii_case (hop_from h) name \<and> chain_linked (hop_to h) hs)"

fun chain_end :: "string \<Rightarrow> cname_hop list \<Rightarrow> string" where
  "chain_end name [] = name"
| "chain_end name (h # hs) = chain_end (hop_to h) hs"

lemma chain_linked_push:
  "chain_linked name (push hs h) \<longleftrightarrow>
     chain_linked name hs \<and> eq_ignore_ascii_case (hop_from h) (chain_end name hs)"
  by (induction hs arbitrary: name) (simp_all add: push_def)

lemma chain_end_push [simp]: "chain_end name (push hs h) = hop_to h"
  by (induction hs arbitrary: name) (simp_all add: push_def)

lemma distinct_push [simp]: "distinct (push xs x) \<longleftrightarrow> distinct xs \<and> x \<notin> set xs"
  by (auto simp: push_def)

definition chain_ok :: "string \<Rightarrow> cname_hop list \<Rightarrow> cname_hop list \<Rightarrow> bool" where
  "chain_ok hostname edges chain \<longleftrightarrow>
     chain_linked hostname chain \<and> length chain \<le> MAX_CNAME_CHAIN_HOPS \<and> distinct chain \<and>
     set chain \<subseteq> set edges"

lemma cname_loop_ok:
  assumes "chain_ok hostname all chain" and "set edges = set all - set chain"
    and "current = chain_end hostname chain"
  shows "chain_ok hostname all (cname_loop edges visited current chain)"
  using assms
proof (induction edges visited current chain rule: cname_loop.induct)
  case (1 edges visited current chain)
  show ?case
  proof (cases "length chain < MAX_CNAME_CHAIN_HOPS \<and> current \<notin> set visited")
    case True
    show ?thesis
    proof (cases "find (\<lambda>hop. eq_ignore_ascii_case (hop_from hop) current) edges")
      case None
      with True 1(2) show ?thesis by (simp add: cname_loop.simps [of edges])
    next
      case (Some hop)
      then have hop: "hop \<in> set edges" "eq_ignore_ascii_case (hop_from hop) current"
        by (auto simp: find_Some_iff)
      have "chain_ok hostname all (push chain hop)"
        using 1(2-4) hop True by (auto simp: chain_ok_def chain_linked_push)
      moreover have "set (removeAll hop edges) = set all - set (push chain hop)"
        using 1(3) by auto
      moreover have "hop_to hop = chain_end hostname (push chain hop)" by simp
      ultimately have
        "chain_ok hostname all
           (cname_loop (removeAll hop edges) (current # visited) (hop_to hop) (push chain hop))"
        using 1(1) [OF True Some] by blast
      with True Some show ?thesis by (simp add: cname_loop.simps [of edges visited])
    qed
  next
    case False
    then have "cname_loop edges visited current chain = chain"
      by (subst cname_loop.simps) (simp only: if_False)
    with 1(2) show ?thesis by simp
  qed
qed

lemma parse_dmarc_record [simp]: "dmarc_record (parse_dmarc r) = r"
proof -
  have "dmarc_record (foldl dmarc_part d ps) = dmarc_record d" for d ps
    by (induction ps arbitrary: d) (simp_all add: dmarc_part_def Let_def split: option.splits prod.splits)
  then show ?thesis by (simp add: parse_dmarc_def)
qed

lemma chars_take_chars [simp]: "chars (take_chars n s) = take n (chars s)"
  unfolding take_chars_def by (intro chars_concat char_groups_take char_groups_chars)

definition dmarc_bounded :: "dmarc_observation \<Rightarrow> bool" where
  "dmarc_bounded d \<longleftrightarrow>
     (\<forall>n. dmarc_percentage d = Some n \<longrightarrow> n \<le> 100) \<and>
     length (dmarc_aggregate_reports d) \<le> MAX_DMARC_DESTINATIONS \<and>
     (\<forall>r \<in> set (dmarc_aggregate_reports d). length (chars r) \<le> MAX_DMARC_DESTINATION_CHARS)"

lemma dmarc_bounded_updates [simp]:
  "dmarc_bounded (d\<lparr>dmarc_policy := v\<rparr>) = dmarc_bounded d"
  "dmarc_bounded (d\<lparr>dmarc_subdomain_policy := v\<rparr>) = dmarc_bounded d"
  "dmarc_bounded (d\<lparr>dmarc_adkim := v\<rparr>) = dmarc_bounded d"
  "dmarc_bounded (d\<lparr>dmarc_aspf := v\<rparr>) = dmarc_bounded d"
  by (simp_all add: dmarc_bounded_def)

lemma dmarc_bounded_percentage:
  "dmarc_bounded d \<Longrightarrow> (\<forall>n. p = Some n \<longrightarrow> n \<le> 100) \<Longrightarrow> dmarc_bounded (d\<lparr>dmarc_percentage := p\<rparr>)"
  by (simp add: dmarc_bounded_def)

lemma dmarc_bounded_reports:
  "dmarc_bounded d \<Longrightarrow>
   dmarc_bounded (d\<lparr>dmarc_aggregate_reports :=
     map (take_chars MAX_DMARC_DESTINATION_CHARS) (take MAX_DMARC_DESTINATIONS rs)\<rparr>)"
  by (simp add: dmarc_bounded_def)

lemma dmarc_bounded_if: "dmarc_bounded d \<Longrightarrow> dmarc_bounded e \<Longrightarrow> dmarc_bounded (if b then d else e)"
  by simp

lemma dmarc_part_bounded:
  assumes "dmarc_bounded d"
  shows "dmarc_bounded (dmarc_part d p)"
proof (cases "split_once CHR ''='' p")
  case None
  with assms show ?thesis by (simp add: dmarc_part_def)
next
  case (Some nv)
  obtain n v where nv: "nv = (n, v)" by (cases nv)
  show ?thesis
    unfolding dmarc_part_def Some nv Let_def option.case prod.case
    by (intro dmarc_bounded_if dmarc_bounded_reports dmarc_bounded_percentage)
      (auto simp: assms split: option.splits if_splits)
qed

lemma parse_dmarc_bounded_lemma: "dmarc_bounded (parse_dmarc r)"
proof -
  have step: "dmarc_bounded d \<Longrightarrow> dmarc_bounded (foldl dmarc_part d ps)" for d ps
    by (induction ps arbitrary: d) (simp_all add: dmarc_part_bounded)
  show ?thesis unfolding parse_dmarc_def by (rule step) (simp add: dmarc_bounded_def)
qed

definition worst_status :: "dnssec_status set \<Rightarrow> dnssec_status" where
  "worst_status A =
    (if Dnssec_Bogus \<in> A then Dnssec_Bogus
     else if Dnssec_Indeterminate \<in> A then Dnssec_Indeterminate
     else if Dnssec_Insecure \<in> A then Dnssec_Insecure
     else if Dnssec_Secure \<in> A then Dnssec_Secure
     else Dnssec_Indeterminate)"

lemma aggregate_loop_worst:
  assumes "a \<in> {None, Some Dnssec_Indeterminate, Some Dnssec_Insecure, Some Dnssec_Secure}"
  shows "aggregate_loop a ss = worst_status (set ss \<union> set_option a)"
  using assms
proof (induction ss arbitrary: a)
  case Nil
  then show ?case by (auto simp: worst_status_def)
next
  case (Cons s ss)
  then consider "a = None" | "a = Some Dnssec_Indeterminate" | "a = Some Dnssec_Insecure"
    | "a = Some Dnssec_Secure" by blast
  then show ?case
    by cases (cases s; simp add: Cons.IH; simp add: worst_status_def)+
qed

lemma boundary_at_most_props:
  "boundary_at_most s i \<le> i \<and> is_char_boundary s (boundary_at_most s i) \<and>
   (\<forall>j \<le> i. is_char_boundary s j \<longrightarrow> j \<le> boundary_at_most s i)"
proof (induction i)
  case 0
  then show ?case by (simp add: is_char_boundary_def)
next
  case (Suc i)
  then show ?case by (auto simp: le_Suc_eq)
qed

section \<open>Properties\<close>

text \<open>
  The primary CNAME chain starts at the queried host name, every hop starts where the one before
  it ends (up to ASCII case), it has at most 16 hops, no hop twice, and only observed edges; an edge set
  given in any order, with any repetitions, yields the same chain.
\<close>

theorem cname_chain_linked:
  "chain_linked hostname (ordered_cname_chain hostname edges) \<and>
   length (ordered_cname_chain hostname edges) \<le> 16 \<and>
   distinct (ordered_cname_chain hostname edges) \<and>
   set (ordered_cname_chain hostname edges) \<subseteq> set edges \<and>
   (set edges = set edges' \<longrightarrow> ordered_cname_chain hostname edges = ordered_cname_chain hostname edges')"
proof -
  have "chain_ok hostname edges (ordered_cname_chain hostname edges)"
    unfolding ordered_cname_chain_def by (rule cname_loop_ok) (simp_all add: chain_ok_def)
  moreover have "ordered_cname_chain hostname edges = ordered_cname_chain hostname edges'"
    if "set edges = set edges'"
    using that btree_set_eq_iff [of edges edges'] by (simp add: ordered_cname_chain_def)
  ultimately show ?thesis by (simp add: chain_ok_def MAX_CNAME_CHAIN_HOPS_def)
qed

theorem cname_chain_linked_witness:
  "ordered_cname_chain ''a'' [CnameHop ''a'' ''B'', CnameHop ''b'' ''c''] =
   ordered_cname_chain ''a'' [CnameHop ''b'' ''c'', CnameHop ''a'' ''B'', CnameHop ''b'' ''c'']"
  using cname_chain_linked [of "''a''" "[CnameHop ''a'' ''B'', CnameHop ''b'' ''c'']"
      "[CnameHop ''b'' ''c'', CnameHop ''a'' ''B'', CnameHop ''b'' ''c'']"]
  by (simp add: insert_commute)

text \<open>
  The mail interpretation does not depend on the order in which the resolver returned the TXT
  records of the host or of its DMARC name, and every DMARC observation in it is bounded: a percentage
  of at most 100 and at most 16 report destinations of at most 256 characters.
\<close>

theorem interpret_mail_deterministic:
  assumes "mset records = mset records'" and "mset dmarc = mset dmarc'"
  shows "interpret_mail records dmarc sts rpt = interpret_mail records' dmarc' sts rpt \<and>
    list_all dmarc_bounded (mail_dmarc (interpret_mail records dmarc sts rpt))"
proof

  have "sort (filter_map spf_text records) = sort (filter_map spf_text records')"
    by (rule sort_key_perm) (simp_all add: mset_filter_map [OF assms(1)])
  moreover have "list_ex is_mx records = list_ex is_mx records'"
    using mset_eq_setD [OF assms(1)] by (simp add: list_ex_iff)
  moreover have "sort_key dmarc_record (map parse_dmarc (filter P dmarc)) =
      sort_key dmarc_record (map parse_dmarc (filter P dmarc'))" for P
    by (rule sort_key_perm) (auto simp: assms(2) inj_on_def)
  ultimately show "interpret_mail records dmarc sts rpt = interpret_mail records' dmarc' sts rpt"
    by (simp add: interpret_mail_def Let_def)
  show "list_all dmarc_bounded (mail_dmarc (interpret_mail records dmarc sts rpt))"
    by (auto simp: interpret_mail_def Let_def list_all_iff parse_dmarc_bounded_lemma)
qed

theorem interpret_mail_deterministic_witness:
  "interpret_mail [Rec_Txt ''v=spf1 -all'', Rec_Mx 10 ''m''] [''v=DMARC1; p=none'', ''x''] [] [] =
   interpret_mail [Rec_Mx 10 ''m'', Rec_Txt ''v=spf1 -all''] [''x'', ''v=DMARC1; p=none''] [] []"
  by (rule interpret_mail_deterministic [THEN conjunct1]) simp_all

text \<open>
  The DNSSEC status of a host is decided by the worst validated RRset whatever the order of the
  answers: one bogus RRset makes the whole host bogus, then indeterminate, then insecure, and it is
  secure only when a secure RRset was seen and nothing worse; no evidence is indeterminate.
\<close>

theorem dnssec_aggregate_spec:
  "aggregate_dnssec_status ss =
    (if Dnssec_Bogus \<in> set ss then Dnssec_Bogus
     else if Dnssec_Indeterminate \<in> set ss then Dnssec_Indeterminate
     else if Dnssec_Insecure \<in> set ss then Dnssec_Insecure
     else if Dnssec_Secure \<in> set ss then Dnssec_Secure
     else Dnssec_Indeterminate)"
  by (simp add: aggregate_dnssec_status_def aggregate_loop_worst worst_status_def)

text \<open>
  A TXT value is kept as a prefix of at most 2048 bytes that ends on a character boundary, and it
  is the longest such prefix; a value within the bound is kept unchanged.
\<close>

theorem capped_longest_prefix:
  "length (capped v) \<le> 2048 \<and> (\<exists>n. capped v = take n v \<and> is_char_boundary v n \<and> n \<le> length v \<and>
     (\<forall>j \<le> min (length v) 2048. is_char_boundary v j \<longrightarrow> j \<le> n))"
proof (cases "2048 < length v")
  case True
  let ?n = "boundary_at_most v 2048"
  have "capped v = take ?n v" using True by (simp add: capped_def MAX_TXT_BYTES_def)
  moreover have "?n \<le> 2048" "is_char_boundary v ?n" "\<forall>j \<le> 2048. is_char_boundary v j \<longrightarrow> j \<le> ?n"
    using boundary_at_most_props [of v 2048] by blast+
  ultimately have "length (capped v) \<le> 2048 \<and> capped v = take ?n v \<and> is_char_boundary v ?n \<and>
      ?n \<le> length v \<and> (\<forall>j \<le> min (length v) 2048. is_char_boundary v j \<longrightarrow> j \<le> ?n)"
    using True by (simp add: min_def)
  then show ?thesis by blast
next
  case False
  then have "capped v = take (length v) v" by (simp add: capped_def MAX_TXT_BYTES_def)
  moreover have "is_char_boundary v (length v)" by (simp add: is_char_boundary_def)
  ultimately have "length (capped v) \<le> 2048 \<and> capped v = take (length v) v \<and>
      is_char_boundary v (length v) \<and> length v \<le> length v \<and>
      (\<forall>j \<le> min (length v) 2048. is_char_boundary v j \<longrightarrow> j \<le> length v)"
    using False by simp
  then show ?thesis by blast
qed

theorem capped_longest_prefix_witness:
  "length (capped (replicate 3000 CHR ''x'')) \<le> 2048 \<and> is_char_boundary ''ab'' 1 \<and> (1::nat) \<le> 2048"
  using capped_longest_prefix [of "replicate 3000 CHR ''x''"]
  by (simp add: is_char_boundary_def is_continuation_def)

end
