(* ===== verification/Target.thy ===== *)
theory Target
  imports Core_Types
begin

text \<open>
  Target normalization, \<^verbatim>\<open>crates/surface-core/src/target.rs\<close>. The host and URL parsers of the \<open>url\<close>
  crate and the Unicode case mapping of \<open>str::to_lowercase\<close> are parameters, the fields of
  \<open>url_crate\<close>; IP literals are parsed by the standard library's parser, which is modelled.
\<close>

section \<open>Model\<close>

record normalized_target =
  tgt_original :: string
  tgt_hostname :: "string option"
  tgt_explicit_ip :: "ip_addr option"
  tgt_scheme :: "string option"
  tgt_explicit_port :: "u16 option"
  tgt_initial_path :: "string option"

definition is_local :: "normalized_target \<Rightarrow> bool" where
  "is_local t \<longleftrightarrow>
     (case tgt_explicit_ip t of Some ip \<Rightarrow> is_loopback ip | None \<Rightarrow> False)
     \<or> tgt_hostname t = Some ''localhost''"

definition identity :: "normalized_target \<Rightarrow> string" where
  "identity t =
     (case tgt_hostname t of
        Some h \<Rightarrow> h
      | None \<Rightarrow> (case tgt_explicit_ip t of Some ip \<Rightarrow> show_ip ip | None \<Rightarrow> tgt_original t))"

datatype target_error = TargetError (target_message: string)

datatype url_host = HostDomain string | HostIpv4 "32 word" | HostIpv6 "128 word"

record parsed_url =
  url_scheme :: string
  url_username :: string
  url_password :: "string option"
  url_host :: "url_host option"
  url_port :: "u16 option"
  url_path :: string
  url_query :: "string option"

record url_crate =
  uc_host_parse :: "string \<Rightarrow> string + url_host" \<comment> \<open>\<open>Host::parse\<close>, an error as its text\<close>
  uc_url_parse :: "string \<Rightarrow> string + parsed_url" \<comment> \<open>\<open>Url::parse\<close>\<close>
  uc_lowercase :: "string \<Rightarrow> string" \<comment> \<open>\<open>str::to_lowercase\<close>\<close>

definition valid_label :: "string \<Rightarrow> bool" where
  "valid_label label \<longleftrightarrow>
     label \<noteq> [] \<and> length label \<le> 63 \<and> \<not> starts_with label ''-'' \<and> \<not> ends_with label ''-'' \<and>
     list_all (\<lambda>b. is_ascii_alphanumeric b \<or> b = CHR ''-'') label"

definition validate_domain :: "string \<Rightarrow> target_error + unit" where
  "validate_domain domain =
     (if 253 < length domain then Inl (TargetError ''hostname exceeds 253 ASCII bytes'')
      else (case find (\<lambda>label. \<not> valid_label label) (split_on CHR ''.'' domain) of
              Some label \<Rightarrow>
                Inl (TargetError (''invalid hostname label '' @ [CHR 0x27] @ label @ [CHR 0x27]))
            | None \<Rightarrow> Inr ()))"

definition ip_target :: "string \<Rightarrow> ip_addr \<Rightarrow> normalized_target" where
  "ip_target original ip =
     \<lparr>tgt_original = original, tgt_hostname = Some (show_ip ip), tgt_explicit_ip = Some ip,
      tgt_scheme = None, tgt_explicit_port = None, tgt_initial_path = None\<rparr>"

definition url_destination ::
    "url_crate \<Rightarrow> url_host \<Rightarrow> target_error + string \<times> ip_addr option" where
  \<comment> \<open>the \<open>match host\<close> of \<open>normalize_url\<close>\<close>
  "url_destination uc host =
     (case host of
        HostDomain domain \<Rightarrow>
          let domain = uc_lowercase uc (trim_end_matches CHR ''.'' domain)
          in (case validate_domain domain of Inl e \<Rightarrow> Inl e | Inr _ \<Rightarrow> Inr (domain, None))
      | HostIpv4 ip \<Rightarrow> Inr (show_ip (V4 ip), Some (V4 ip))
      | HostIpv6 ip \<Rightarrow> Inr (show_ip (V6 ip), Some (V6 ip)))"

definition normalize_url :: "url_crate \<Rightarrow> string \<Rightarrow> target_error + normalized_target" where
  "normalize_url uc input =
     (case uc_url_parse uc input of
        Inl e \<Rightarrow> Inl (TargetError (''invalid URL: '' @ e))
      | Inr url \<Rightarrow>
          if url_scheme url \<notin> {''http'', ''https''} then
            Inl (TargetError (''unsupported URL scheme '' @ [CHR 0x27] @ url_scheme url @ [CHR 0x27]
              @ ''; use http or https''))
          else if url_username url \<noteq> [] \<or> url_password url \<noteq> None then
            Inl (TargetError ''target URLs must not contain credentials'')
          else (case url_host url of
              None \<Rightarrow> Inl (TargetError ''URL must contain a hostname or IP address'')
            | Some host \<Rightarrow>
                (case url_destination uc host of
                   Inl e \<Rightarrow> Inl e
                 | Inr (hostname, explicit_ip) \<Rightarrow>
                     let initial_path = url_path url @
                       (case url_query url of Some q \<Rightarrow> ''?'' @ q | None \<Rightarrow> [])
                     in Inr \<lparr>tgt_original = input, tgt_hostname = Some hostname,
                          tgt_explicit_ip = explicit_ip, tgt_scheme = Some (url_scheme url),
                          tgt_explicit_port = url_port url, tgt_initial_path = Some initial_path\<rparr>)))"

definition has_url_syntax :: "string \<Rightarrow> bool" where
  "has_url_syntax input \<longleftrightarrow> list_ex (\<lambda>c. c \<in> set ''/?#@:'') input"

definition normalize_bare :: "url_crate \<Rightarrow> string \<Rightarrow> target_error + normalized_target" where
  \<comment> \<open>the part of \<open>normalize_target\<close> after the URL case\<close>
  "normalize_bare uc input =
     (if has_url_syntax input then
        Inl (TargetError ''bare target must be a hostname or IP address'')
      else let hostname = trim_end_matches CHR ''.'' input
        in if hostname = [] then Inl (TargetError ''hostname must not be empty'')
           else (case uc_host_parse uc hostname of
               Inl e \<Rightarrow> Inl (TargetError (''invalid hostname: '' @ e))
             | Inr (HostDomain domain) \<Rightarrow>
                 let domain = uc_lowercase uc domain
                 in (case validate_domain domain of
                       Inl e \<Rightarrow> Inl e
                     | Inr _ \<Rightarrow> Inr \<lparr>tgt_original = input, tgt_hostname = Some domain,
                         tgt_explicit_ip = None, tgt_scheme = None, tgt_explicit_port = None,
                         tgt_initial_path = None\<rparr>)
             | Inr (HostIpv4 ip) \<Rightarrow> Inr (ip_target input (V4 ip))
             | Inr (HostIpv6 ip) \<Rightarrow> Inr (ip_target input (V6 ip))))"

definition unbracketed :: "string \<Rightarrow> string" where
  "unbracketed input =
     (case strip_prefix input ''['' of
        None \<Rightarrow> input
      | Some v \<Rightarrow> (case strip_suffix v '']'' of None \<Rightarrow> input | Some w \<Rightarrow> w))"

definition normalize_target :: "url_crate \<Rightarrow> string \<Rightarrow> target_error + normalized_target" where
  "normalize_target uc input =
     (if input = [] \<or> trim input \<noteq> input \<or> list_ex is_control (chars input) then
        Inl (TargetError ''target must be non-empty and contain no surrounding whitespace'')
      else (case parse_ip (unbracketed input) of
          Some ip \<Rightarrow> Inr (ip_target input ip)
        | None \<Rightarrow>
            if str_contains input ''://'' then normalize_url uc input
            else normalize_bare uc input))"

section \<open>Lemmas\<close>

definition valid_domain :: "string \<Rightarrow> bool" where
  "valid_domain d \<longleftrightarrow> length d \<le> 253 \<and> list_all valid_label (split_on CHR ''.'' d)"

lemma validate_domain_ok: "validate_domain d = Inr u \<longleftrightarrow> valid_domain d"
  by (auto simp: validate_domain_def valid_domain_def list_all_iff find_None_iff find_Some_iff
      split: option.splits dest: nth_mem)

definition target_wf :: "normalized_target \<Rightarrow> bool" where
  \<comment> \<open>what every accepted target satisfies\<close>
  "target_wf t \<longleftrightarrow>
     (\<exists>h. tgt_hostname t = Some h \<and>
        (case tgt_explicit_ip t of Some ip \<Rightarrow> h = show_ip ip | None \<Rightarrow> valid_domain h)) \<and>
     (\<forall>s. tgt_scheme t = Some s \<longrightarrow> s = ''http'' \<or> s = ''https'')"

lemma ip_target_wf [simp]: "target_wf (ip_target s ip)"
  by (simp add: target_wf_def ip_target_def)

lemma normalize_url_wf:
  assumes "normalize_url uc input = Inr t"
  shows "target_wf t \<and> tgt_original t = input"
proof -
  obtain url host where url: "uc_url_parse uc input = Inr url" "url_scheme url \<in> {''http'', ''https''}"
    and "url_host url = Some host"
    using assms by (auto simp: normalize_url_def split: sum.splits if_splits option.splits)
  then obtain hostname ip where dest: "url_destination uc host = Inr (hostname, ip)"
    and t: "tgt_original t = input" "tgt_hostname t = Some hostname" "tgt_explicit_ip t = ip"
      "tgt_scheme t = Some (url_scheme url)"
    using assms by (auto simp: normalize_url_def Let_def split: sum.splits if_splits)
  from dest have "case ip of Some ip \<Rightarrow> hostname = show_ip ip | None \<Rightarrow> valid_domain hostname"
    by (cases host) (auto simp: url_destination_def Let_def validate_domain_ok split: sum.splits)
  with t url show ?thesis by (auto simp: target_wf_def)
qed

lemma normalize_bare_wf:
  assumes "normalize_bare uc input = Inr t"
  shows "target_wf t \<and> tgt_original t = input \<and> tgt_scheme t = None"
proof -
  let ?host = "trim_end_matches CHR ''.'' input"
  obtain host where host: "uc_host_parse uc ?host = Inr host"
    using assms by (auto simp: normalize_bare_def Let_def split: if_splits sum.splits)
  show ?thesis
  proof (cases host)
    case (HostDomain domain)
    with assms host show ?thesis
      by (auto simp: normalize_bare_def Let_def target_wf_def validate_domain_ok split: if_splits sum.splits)
  next
    case (HostIpv4 ip)
    with assms host show ?thesis
      by (auto simp: normalize_bare_def Let_def target_wf_def ip_target_def split: if_splits)
  next
    case (HostIpv6 ip)
    with assms host show ?thesis
      by (auto simp: normalize_bare_def Let_def target_wf_def ip_target_def split: if_splits)
  qed
qed

section \<open>Properties\<close>

text \<open>
  C38: Every accepted target is well formed whatever the URL crate does: its host name is the text of
  its explicit address, or else a domain of at most 253 bytes whose labels are non-empty, at most 63
  bytes, alphanumeric or inner hyphens; its scheme is absent, http or https; the original input is kept
  and contains no control character; and a URL with credentials is never accepted.
\<close>

theorem normalize_target_wf:
  assumes "normalize_target uc input = Inr t"
  shows "target_wf t \<and> tgt_original t = input \<and> \<not> list_ex is_control (chars input) \<and>
    (tgt_scheme t \<noteq> None \<longrightarrow>
       (\<exists>url. uc_url_parse uc input = Inr url \<and> url_username url = [] \<and> url_password url = None))"
proof -
  have clean: "\<not> list_ex is_control (chars input)"
    using assms by (auto simp: normalize_target_def split: if_splits)
  consider (ip) ip where "t = ip_target input ip" | (url) "normalize_url uc input = Inr t"
    | (bare) "normalize_bare uc input = Inr t"
    using assms by (auto simp: normalize_target_def split: if_splits option.splits)
  then show ?thesis
  proof cases
    case ip
    with clean show ?thesis by (simp add: ip_target_def target_wf_def)
  next
    case url
    then have "\<exists>url. uc_url_parse uc input = Inr url \<and> url_username url = [] \<and> url_password url = None"
      by (auto simp: normalize_url_def split: sum.splits if_splits)
    with clean normalize_url_wf [OF url] show ?thesis by blast
  next
    case bare
    with clean normalize_bare_wf show ?thesis by simp
  qed
qed

definition sample_url_crate :: url_crate where
  \<comment> \<open>a crate that accepts a host as a domain and no URL\<close>
  "sample_url_crate =
     \<lparr>uc_host_parse = (\<lambda>s. Inr (HostDomain s)), uc_url_parse = (\<lambda>s. Inl ''no URL''),
      uc_lowercase = to_ascii_lowercase\<rparr>"

theorem normalize_target_wf_witness:
  "target_wf \<lparr>tgt_original = ''a-b.c'', tgt_hostname = Some ''a-b.c'', tgt_explicit_ip = None,
     tgt_scheme = None, tgt_explicit_port = None, tgt_initial_path = None\<rparr>"
proof -
  have "normalize_target sample_url_crate ''a-b.c'' =
    Inr \<lparr>tgt_original = ''a-b.c'', tgt_hostname = Some ''a-b.c'', tgt_explicit_ip = None,
     tgt_scheme = None, tgt_explicit_port = None, tgt_initial_path = None\<rparr>"
    by code_simp
  from normalize_target_wf [OF this] show ?thesis by blast
qed

end
