(* ===== verification/Utf8_Lossy.thy ===== *)
theory Utf8_Lossy
  imports Rust_Str
begin

text \<open>
  \<open>String::from_utf8_lossy\<close> of the Rust standard library: well-formed sequences of Unicode's table 3-7
  are kept, every maximal ill-formed part becomes one U+FFFD.
\<close>

definition byte_at :: "bytes \<Rightarrow> nat \<Rightarrow> nat" where
  \<comment> \<open>the byte at an offset, 0 past the end\<close>
  "byte_at bs i = (if i < length bs then byte (bs ! i) else 0)"

definition continues_at :: "bytes \<Rightarrow> nat \<Rightarrow> bool" where
  "continues_at bs i \<longleftrightarrow> 128 \<le> byte_at bs i \<and> byte_at bs i \<le> 191"

definition second_of_three :: "nat \<Rightarrow> nat \<Rightarrow> bool" where
  "second_of_three b c \<longleftrightarrow>
     b = 0xE0 \<and> 0xA0 \<le> c \<and> c \<le> 0xBF
   \<or> 0xE1 \<le> b \<and> b \<le> 0xEC \<and> 0x80 \<le> c \<and> c \<le> 0xBF
   \<or> b = 0xED \<and> 0x80 \<le> c \<and> c \<le> 0x9F
   \<or> 0xEE \<le> b \<and> b \<le> 0xEF \<and> 0x80 \<le> c \<and> c \<le> 0xBF"

definition second_of_four :: "nat \<Rightarrow> nat \<Rightarrow> bool" where
  "second_of_four b c \<longleftrightarrow>
     b = 0xF0 \<and> 0x90 \<le> c \<and> c \<le> 0xBF
   \<or> 0xF1 \<le> b \<and> b \<le> 0xF3 \<and> 0x80 \<le> c \<and> c \<le> 0xBF
   \<or> b = 0xF4 \<and> 0x80 \<le> c \<and> c \<le> 0x8F"

definition utf8_step :: "bytes \<Rightarrow> bool \<times> nat" where
  \<comment> \<open>whether the bytes start with a well-formed sequence, and how many bytes the step consumes\<close>
  "utf8_step bs =
     (let b = byte_at bs 0; c = byte_at bs 1
      in if b < 128 then (True, 1)
         else if 0xC2 \<le> b \<and> b \<le> 0xDF then (if continues_at bs 1 then (True, 2) else (False, 1))
         else if 0xE0 \<le> b \<and> b \<le> 0xEF then
           (if \<not> second_of_three b c then (False, 1)
            else if \<not> continues_at bs 2 then (False, 2)
            else (True, 3))
         else if 0xF0 \<le> b \<and> b \<le> 0xF4 then
           (if \<not> second_of_four b c then (False, 1)
            else if \<not> continues_at bs 2 then (False, 2)
            else if \<not> continues_at bs 3 then (False, 3)
            else (True, 4))
         else (False, 1))"

definition replacement_char :: string where
  "replacement_char = map char_of [0xEF, 0xBF, 0xBD :: nat]"

lemma utf8_step_pos: "0 < snd (utf8_step bs)"
  by (simp add: utf8_step_def Let_def)

function from_utf8_lossy :: "bytes \<Rightarrow> string" where
  "from_utf8_lossy bs =
     (if bs = [] then []
      else let (ok, n) = utf8_step bs
        in (if ok then take n bs else replacement_char) @ from_utf8_lossy (drop n bs))"
  by pat_completeness auto
termination
proof (relation "measure length")
  fix bs :: bytes and x ok n
  assume "bs \<noteq> []" and "x = utf8_step bs" and "(ok, n) = x"
  then show "(drop n bs, bs) \<in> measure length"
    using utf8_step_pos [of bs] by (cases "utf8_step bs") auto
qed simp

declare from_utf8_lossy.simps [simp del]

lemma from_utf8_lossy_Nil [simp]: "from_utf8_lossy [] = []"
  by (simp add: from_utf8_lossy.simps)

lemma from_utf8_lossy_ascii: "ascii bs \<Longrightarrow> from_utf8_lossy bs = bs"
proof (induction bs)
  case (Cons c bs)
  then have "utf8_step (c # bs) = (True, 1)"
    by (simp add: utf8_step_def byte_at_def ascii_def)
  with Cons show ?case by (simp add: from_utf8_lossy.simps [of "c # bs"] ascii_def)
qed simp

end
