(* ===== verification/Service.thy ===== *)
theory Service
  imports Scanner Utf8_Lossy
begin

text \<open>
  Service identification, \<^verbatim>\<open>crates/surface-core/src/service.rs\<close>. One probe's socket is a session of the
  environment: whether connecting and writing succeed and what the reads return; the \<open>select!\<close> of a
  probe over cancellation and the timeout is the constructor the environment answers with.
\<close>

section \<open>Data\<close>

datatype service_kind =
    Svc_Http | Svc_Https | Svc_Ssh | Svc_Smtp | Svc_Smtps | Svc_Ftp | Svc_Imap | Svc_Imaps | Svc_Pop3
  | Svc_Pop3s | Svc_Dns | Svc_Redis | Svc_Mysql | Svc_Postgresql | Svc_Mqtt | Svc_Mssql | Svc_Oracle
  | Svc_Mongodb | Svc_Memcached | Svc_Elasticsearch | Svc_Rabbitmq | Svc_Kafka | Svc_Cassandra
  | Svc_Clickhouse | Svc_Neo4j | Svc_Smb | Svc_Nfs | Svc_Rdp | Svc_Vnc | Svc_Docker | Svc_Kubernetes
  | Svc_Prometheus | Svc_Grafana | Svc_Wireguard | Svc_StunTurn | Svc_Netbird | Svc_MinecraftJava
  | Svc_MinecraftBedrock | Svc_Terraria | Svc_Valheim | Svc_Factorio | Svc_SourceEngine | Svc_Tls
  | Svc_Unknown

fun service_kind_str :: "service_kind \<Rightarrow> string" where
  \<comment> \<open>the \<open>Display\<close> implementation; the last arm of the code prints the variant's name\<close>
  "service_kind_str Svc_Smtps = ''SMTPS''"
| "service_kind_str Svc_Imaps = ''IMAPS''"
| "service_kind_str Svc_Pop3s = ''POP3S''"
| "service_kind_str Svc_Dns = ''DNS''"
| "service_kind_str Svc_Mssql = ''MSSQL''"
| "service_kind_str Svc_Smb = ''SMB''"
| "service_kind_str Svc_Nfs = ''NFS''"
| "service_kind_str Svc_Rdp = ''RDP''"
| "service_kind_str Svc_Vnc = ''VNC''"
| "service_kind_str Svc_StunTurn = ''STUN/TURN''"
| "service_kind_str Svc_SourceEngine = ''Source Engine''"
| "service_kind_str Svc_Http = ''Http''"
| "service_kind_str Svc_Https = ''Https''"
| "service_kind_str Svc_Ssh = ''Ssh''"
| "service_kind_str Svc_Smtp = ''Smtp''"
| "service_kind_str Svc_Ftp = ''Ftp''"
| "service_kind_str Svc_Imap = ''Imap''"
| "service_kind_str Svc_Pop3 = ''Pop3''"
| "service_kind_str Svc_Redis = ''Redis''"
| "service_kind_str Svc_Mysql = ''Mysql''"
| "service_kind_str Svc_Postgresql = ''Postgresql''"
| "service_kind_str Svc_Mqtt = ''Mqtt''"
| "service_kind_str Svc_Oracle = ''Oracle''"
| "service_kind_str Svc_Mongodb = ''Mongodb''"
| "service_kind_str Svc_Memcached = ''Memcached''"
| "service_kind_str Svc_Elasticsearch = ''Elasticsearch''"
| "service_kind_str Svc_Rabbitmq = ''Rabbitmq''"
| "service_kind_str Svc_Kafka = ''Kafka''"
| "service_kind_str Svc_Cassandra = ''Cassandra''"
| "service_kind_str Svc_Clickhouse = ''Clickhouse''"
| "service_kind_str Svc_Neo4j = ''Neo4j''"
| "service_kind_str Svc_Docker = ''Docker''"
| "service_kind_str Svc_Kubernetes = ''Kubernetes''"
| "service_kind_str Svc_Prometheus = ''Prometheus''"
| "service_kind_str Svc_Grafana = ''Grafana''"
| "service_kind_str Svc_Wireguard = ''Wireguard''"
| "service_kind_str Svc_Netbird = ''Netbird''"
| "service_kind_str Svc_MinecraftJava = ''MinecraftJava''"
| "service_kind_str Svc_MinecraftBedrock = ''MinecraftBedrock''"
| "service_kind_str Svc_Terraria = ''Terraria''"
| "service_kind_str Svc_Valheim = ''Valheim''"
| "service_kind_str Svc_Factorio = ''Factorio''"
| "service_kind_str Svc_Tls = ''Tls''"
| "service_kind_str Svc_Unknown = ''Unknown''"

datatype detection_confidence = Conf_Low | Conf_Medium | Conf_High

record ssh_identification =
  ssh_protocol :: string
  ssh_software :: string

record ssh_algorithm_selections =
  sel_kex :: string
  sel_host_key :: string
  sel_cipher_c2s :: string
  sel_cipher_s2c :: string
  sel_mac_c2s :: string
  sel_mac_s2c :: string

record partial_ssh_algorithm_selections =
  part_kex :: "string option"
  part_host_key :: "string option"
  part_cipher_c2s :: "string option"
  part_cipher_s2c :: "string option"
  part_mac_c2s :: "string option"
  part_mac_s2c :: "string option"

datatype ssh_posture_outcome =
    Ssh_Complete ssh_algorithm_selections
  | Ssh_Partial partial_ssh_algorithm_selections string
  | Ssh_Indeterminate string

record ssh_posture =
  ssh_ident :: "ssh_identification option"
  ssh_outcome :: ssh_posture_outcome

record service_observation =
  svc_transport :: transport_protocol
  svc_address :: socket_addr
  svc_service :: service_kind
  svc_confidence :: detection_confidence
  svc_banner :: "string option"
  svc_details :: "(string \<times> string) list"
  svc_ssh :: "ssh_posture option"

section \<open>Probing one endpoint\<close>

definition MAX_BANNER_BYTES :: nat where
  "MAX_BANNER_BYTES = 1024"

definition MAX_SERVICE_ENDPOINTS :: nat where
  "MAX_SERVICE_ENDPOINTS = 256"

definition crlf :: string where
  "crlf = [CHR 0x0d, CHR 0x0a]"

datatype probe_behavior = Probe_Http | Probe_Request bytes | Probe_SmtpEhlo | Probe_ReadOnly | Probe_TlsOnly

definition probe_behavior :: "u16 \<Rightarrow> probe_behavior" where
  "probe_behavior port =
     (if port \<in> {25, 587} then Probe_SmtpEhlo
      else if port \<in> {80, 8000, 8080, 8888} then Probe_Http
      else if port = 110 then Probe_Request (''CAPA'' @ crlf)
      else if port = 143 then Probe_Request (''a001 CAPABILITY'' @ crlf)
      else if port = 6379 then Probe_Request (''*1'' @ crlf @ ''$4'' @ crlf @ ''PING'' @ crlf)
      else if port \<in> {443, 465, 993, 995, 8443} then Probe_TlsOnly
      else Probe_ReadOnly)"

definition hinted_service :: "transport_protocol \<Rightarrow> u16 \<Rightarrow> service_kind" where
  "hinted_service transport port =
     (let tcp = (transport = Tcp); udp = (transport = Udp)
      in if tcp \<and> port = 21 then Svc_Ftp
         else if tcp \<and> port \<in> {25, 587} then Svc_Smtp
         else if port = 53 then Svc_Dns
         else if tcp \<and> port \<in> {80, 8000, 8080, 8888} then Svc_Http
         else if tcp \<and> port = 110 then Svc_Pop3
         else if tcp \<and> port = 143 then Svc_Imap
         else if tcp \<and> port \<in> {443, 8443} then Svc_Https
         else if tcp \<and> port = 445 then Svc_Smb
         else if tcp \<and> port = 465 then Svc_Smtps
         else if tcp \<and> port = 993 then Svc_Imaps
         else if tcp \<and> port = 995 then Svc_Pop3s
         else if tcp \<and> port = 1433 then Svc_Mssql
         else if tcp \<and> port \<in> {1521, 2483, 2484} then Svc_Oracle
         else if tcp \<and> port \<in> {1883, 8883} then Svc_Mqtt
         else if port = 2049 then Svc_Nfs
         else if tcp \<and> port \<in> {2375, 2376} then Svc_Docker
         else if tcp \<and> port \<in> {3306, 33060} then Svc_Mysql
         else if port = 3389 then Svc_Rdp
         else if tcp \<and> port = 5432 then Svc_Postgresql
         else if tcp \<and> port \<in> {5671, 5672, 15671, 15672} then Svc_Rabbitmq
         else if tcp \<and> port = 5900 then Svc_Vnc
         else if tcp \<and> port = 6379 then Svc_Redis
         else if tcp \<and> port = 6443 then Svc_Kubernetes
         else if tcp \<and> port \<in> {7474, 7687} then Svc_Neo4j
         else if port = 7777 then Svc_Terraria
         else if tcp \<and> port \<in> {8123, 9000} then Svc_Clickhouse
         else if tcp \<and> port \<in> {9090, 9100} then Svc_Prometheus
         else if tcp \<and> port = 9092 then Svc_Kafka
         else if tcp \<and> port = 9042 then Svc_Cassandra
         else if tcp \<and> port \<in> {9200, 9300} then Svc_Elasticsearch
         else if port = 11211 then Svc_Memcached
         else if port \<in> {19132, 19133} then Svc_MinecraftBedrock
         else if udp \<and> port \<in> {2456, 2457, 2458} then Svc_Valheim
         else if tcp \<and> port = 25565 then Svc_MinecraftJava
         else if udp \<and> port = 27015 then Svc_SourceEngine
         else if tcp \<and> port = 27017 then Svc_Mongodb
         else if udp \<and> port = 34197 then Svc_Factorio
         else if udp \<and> port = 3478 then Svc_StunTurn
         else if tcp \<and> port = 3000 then Svc_Grafana
         else if tcp \<and> port \<in> {33073, 33080} then Svc_Netbird
         else if udp \<and> port = 51820 then Svc_Wireguard
         else Svc_Unknown)"

definition sanitize_banner :: "bytes \<Rightarrow> string" where
  "sanitize_banner bs =
     trim (concat (take MAX_BANNER_BYTES
       (map (\<lambda>c. if is_control c then '' '' else c) (chars (from_utf8_lossy bs)))))"

definition smtp_details :: "string \<Rightarrow> (string \<times> string) list" where
  "smtp_details banner =
     (let uppercase = to_ascii_uppercase banner
      in foldl (\<lambda>details capability.
             if str_contains uppercase capability
             then btm_insert (to_ascii_lowercase capability) ''advertised'' details else details)
           [] [''STARTTLS'', ''AUTH'', ''SIZE''])"

definition classify_banner :: "string \<Rightarrow> u16 \<Rightarrow> service_kind \<times> detection_confidence" where
  "classify_banner banner port =
     (let uppercase = to_ascii_uppercase banner
      in if starts_with banner ''SSH-'' then (Svc_Ssh, Conf_High)
         else if starts_with uppercase ''HTTP/'' then (Svc_Http, Conf_High)
         else if port \<in> {25, 587} \<and> starts_with uppercase ''220 '' then (Svc_Smtp, Conf_High)
         else if port = 21 \<and> starts_with uppercase ''220 '' then (Svc_Ftp, Conf_High)
         else if port = 110 \<and> str_contains uppercase ''+OK'' then (Svc_Pop3, Conf_High)
         else if port = 143 \<and> str_contains uppercase ''CAPABILITY'' then (Svc_Imap, Conf_High)
         else if port = 6379 \<and> str_contains uppercase ''+PONG'' then (Svc_Redis, Conf_High)
         else if port = 3306 \<and> banner \<noteq> [] then (Svc_Mysql, Conf_Medium)
         else if port \<in> {25, 587} then (Svc_Smtp, Conf_Low)
         else (hinted_service Tcp port, Conf_Low))"

record tcp_session =
  ses_connected :: bool
  ses_write :: "bytes \<Rightarrow> bool" \<comment> \<open>whether \<open>write_all\<close> of these bytes succeeds\<close>
  ses_read :: "bytes option" \<comment> \<open>the bytes waiting at the first read, \<open>None\<close> an error\<close>
  ses_read_again :: "bytes option" \<comment> \<open>at the second read\<close>

definition probe_read :: "tcp_session \<Rightarrow> u16 \<Rightarrow> string \<Rightarrow> bytes option" where
  \<comment> \<open>the connection and the \<open>match\<close> of \<open>probe_inner\<close>: the bytes in the buffer at its end\<close>
  "probe_read ses port hostname =
     (let read_once = map_option (take MAX_BANNER_BYTES) (ses_read ses);
          send = (\<lambda>payload. if ses_write ses payload then read_once else None)
      in if \<not> ses_connected ses then None
         else (case probe_behavior port of
             Probe_Http \<Rightarrow>
               send (''HEAD / HTTP/1.1'' @ crlf @ ''Host: '' @ hostname @ crlf @
                 ''Connection: close'' @ crlf @
                 ''User-Agent: Surface/0.1 (+authorized-security-assessment)'' @ crlf @ crlf)
           | Probe_Request payload \<Rightarrow> send payload
           | Probe_SmtpEhlo \<Rightarrow>
               (case read_once of
                  None \<Rightarrow> None
                | Some first \<Rightarrow>
                    if length first < MAX_BANNER_BYTES then
                      (if ses_write ses (''EHLO '' @ hostname @ crlf) then
                         map_option (\<lambda>again. first @ take (MAX_BANNER_BYTES - length first) again)
                           (ses_read_again ses)
                       else None)
                    else Some first)
           | Probe_ReadOnly \<Rightarrow> read_once
           | Probe_TlsOnly \<Rightarrow> read_once))"

definition banner_observation :: "socket_addr \<Rightarrow> bytes \<Rightarrow> service_observation" where
  \<comment> \<open>the rest of \<open>probe_inner\<close>\<close>
  "banner_observation address bs =
     (let banner = sanitize_banner bs;
          (service, confidence) = classify_banner banner (sa_port address)
      in \<lparr>svc_transport = Tcp, svc_address = address, svc_service = service,
          svc_confidence = confidence,
          svc_banner = (if banner \<noteq> [] then Some banner else None),
          svc_details = (if service = Svc_Smtp then smtp_details banner else []),
          svc_ssh = None\<rparr>)"

definition probe_inner :: "tcp_session \<Rightarrow> socket_addr \<Rightarrow> string \<Rightarrow> service_observation option" where
  "probe_inner ses address hostname =
     map_option (banner_observation address) (probe_read ses (sa_port address) hostname)"

definition hint_observation :: "socket_addr \<Rightarrow> service_observation" where
  "hint_observation address =
     \<lparr>svc_transport = Tcp, svc_address = address, svc_service = hinted_service Tcp (sa_port address),
      svc_confidence = Conf_Low, svc_banner = None, svc_details = [], svc_ssh = None\<rparr>"

datatype probe_race = Race_Cancelled | Race_Elapsed | Race_Session tcp_session

definition probe ::
    "(nat \<Rightarrow> socket_addr \<Rightarrow> probe_race) \<Rightarrow> string \<Rightarrow> nat \<Rightarrow> socket_addr \<Rightarrow> service_observation option" where
  "probe net hostname probe_timeout address =
     (case net probe_timeout address of
        Race_Cancelled \<Rightarrow> None
      | Race_Elapsed \<Rightarrow> Some (hint_observation address)
      | Race_Session ses \<Rightarrow>
          (case probe_inner ses address hostname of
             None \<Rightarrow> Some (hint_observation address)
           | Some observation \<Rightarrow> Some observation))"

section \<open>All endpoints\<close>

definition open_tcp_addresses :: "host_observation list \<Rightarrow> socket_addr list" where
  "open_tcp_addresses hosts =
     concat (map (\<lambda>host. map po_address
       (filter (\<lambda>port. po_transport port = Tcp \<and> po_state port = Open) (host_ports host))) hosts)"

definition udp_service :: "port_observation \<Rightarrow> service_observation option" where
  \<comment> \<open>the closure over the UDP ports of the last \<open>extend\<close> of \<open>detect_services\<close>\<close>
  "udp_service port =
     (if po_transport port \<noteq> Udp \<or> po_state port \<notin> {Open, OpenFiltered} then None
      else let service = hinted_service Udp (sa_port (po_address port))
        in if po_state port = Open \<or> service \<noteq> Svc_Unknown then
             Some \<lparr>svc_transport = Udp, svc_address = po_address port, svc_service = service,
               svc_confidence =
                 (if po_state port = Open \<and> service \<noteq> Svc_Unknown then Conf_Medium else Conf_Low),
               svc_banner = None, svc_details = [], svc_ssh = None\<rparr>
           else None)"

definition known_hint :: "socket_addr \<Rightarrow> service_observation option" where
  \<comment> \<open>the closure over the TCP addresses past the probing limit\<close>
  "known_hint address =
     (let observation = hint_observation address
      in if svc_service observation \<noteq> Svc_Unknown then Some observation else None)"

definition service_key :: "service_observation \<Rightarrow> socket_addr \<times> transport_protocol" where
  "service_key observation = (svc_address observation, svc_transport observation)"

definition detect_services ::
    "(nat \<Rightarrow> service_observation option list \<Rightarrow> service_observation option list) \<Rightarrow>
     (nat \<Rightarrow> socket_addr \<Rightarrow> probe_race) \<Rightarrow>
     host_observation list \<Rightarrow> string option \<Rightarrow> nat \<Rightarrow> nat \<Rightarrow> service_observation list" where
  "detect_services arrive net hosts hostname concurrency probe_timeout =
     (let tcp_addresses = open_tcp_addresses hosts;
          host = (case hostname of Some h \<Rightarrow> h | None \<Rightarrow> ''localhost'');
          probed = filter_map id
            (arrive (max concurrency 1)
              (map (probe net host probe_timeout) (take MAX_SERVICE_ENDPOINTS tcp_addresses)));
          hinted = filter_map known_hint (drop MAX_SERVICE_ENDPOINTS tcp_addresses);
          udp = concat (map (\<lambda>host. filter_map udp_service (host_ports host)) hosts)
      in sort_key service_key (probed @ hinted @ udp))"

section \<open>Lemmas\<close>

lemma service_key_hint [simp]: "service_key (hint_observation a) = (a, Tcp)"
  by (simp add: hint_observation_def service_key_def)

lemma service_key_banner [simp]: "service_key (banner_observation a bs) = (a, Tcp)"
  by (simp add: banner_observation_def service_key_def Let_def split: prod.split)

lemma probe_address: "probe net h t a = Some y \<Longrightarrow> service_key y = (a, Tcp)"
  by (auto simp: probe_def probe_inner_def split: probe_race.splits option.splits)

interpretation probing: keyed_option_stage "probe net h t" service_key "\<lambda>a. (a, Tcp)" for net h t
  by unfold_locales (rule probe_address)

lemma udp_service_key:
  "udp_service port = Some y \<Longrightarrow>
   service_key y = (po_address port, Udp) \<and> po_transport port = Udp \<and> po_state port \<in> {Open, OpenFiltered}"
  by (auto simp: udp_service_def service_key_def Let_def split: if_splits)

lemma known_hint_key: "known_hint a = Some y \<Longrightarrow> service_key y = (a, Tcp)"
  by (auto simp: known_hint_def Let_def split: if_splits)

lemma filter_map_cong:
  "(\<And>x. x \<in> set xs \<Longrightarrow> f x = g x) \<Longrightarrow> filter_map f xs = filter_map g xs"
  by (induction xs) (auto split: option.splits)

definition services_in_order ::
    "(nat \<Rightarrow> socket_addr \<Rightarrow> probe_race) \<Rightarrow> host_observation list \<Rightarrow> string option \<Rightarrow> nat \<Rightarrow>
     service_observation list" where
  \<comment> \<open>the observations of \<open>detect_services\<close>, one endpoint after the other\<close>
  "services_in_order net hosts hostname t =
     (let tcp_addresses = open_tcp_addresses hosts;
          host = (case hostname of Some h \<Rightarrow> h | None \<Rightarrow> ''localhost'')
      in filter_map (probe net host t) (take MAX_SERVICE_ENDPOINTS tcp_addresses) @
         filter_map known_hint (drop MAX_SERVICE_ENDPOINTS tcp_addresses) @
         concat (map (\<lambda>host. filter_map udp_service (host_ports host)) hosts))"

lemma detect_services_sequential:
  assumes "fair_pool arrive" and "distinct (open_tcp_addresses hosts)"
  shows "detect_services arrive net hosts hostname n t =
    sort_key service_key (services_in_order net hosts hostname t)"
proof -
  define host where "host = (case hostname of Some h \<Rightarrow> h | None \<Rightarrow> ''localhost'')"
  define probed where "probed = take MAX_SERVICE_ENDPOINTS (open_tcp_addresses hosts)"
  let ?arrived = "filter_map id (arrive (max n 1) (map (probe net host t) probed))"
  have perm: "mset ?arrived = mset (filter_map (probe net host t) probed)"
    using mset_filter_map [OF fair_pool_mset [OF assms(1), of "max n 1" "map (probe net host t) probed"],
        of id] by simp
  have "inj_on service_key (set ?arrived)"
    unfolding mset_eq_setD [OF perm] set_filter_map
    by (intro inj_onI) (smt (verit) mem_Collect_eq option.inject prod.inject probe_address set_filter_map)
  then have "sort_key service_key (?arrived @ zs) =
      sort_key service_key (filter_map (probe net host t) probed @ zs)" for zs
    by (rule sort_key_perm_append [OF perm])
  then show ?thesis
    by (simp add: detect_services_def services_in_order_def Let_def host_def probed_def)
qed

definition probed_port :: "host_observation list \<Rightarrow> service_observation \<Rightarrow> bool" where
  \<comment> \<open>the endpoint is a port some host was observed to have open (for UDP, open or open-filtered)\<close>
  "probed_port hosts y \<longleftrightarrow>
     (\<exists>host \<in> set hosts. \<exists>port \<in> set (host_ports host).
        po_address port = svc_address y \<and> po_transport port = svc_transport y \<and>
        (po_state port = Open \<or> po_state port = OpenFiltered \<and> svc_transport y = Udp))"

lemma services_in_order_probed:
  assumes "y \<in> set (services_in_order net hosts hostname t)"
  shows "probed_port hosts y"
proof -
  have tcp: "probed_port hosts y" if "service_key y = (a, Tcp)" "a \<in> set (open_tcp_addresses hosts)" for a
    using that by (fastforce simp: probed_port_def service_key_def open_tcp_addresses_def)
  have udp_port: "probed_port hosts y"
    if "udp_service port = Some y" "port \<in> set (host_ports host)" "host \<in> set hosts" for port host
  proof -
    have "po_address port = svc_address y" "po_transport port = svc_transport y"
      "po_state port = Open \<or> po_state port = OpenFiltered \<and> svc_transport y = Udp"
      using udp_service_key [OF that(1)] by (auto simp: service_key_def)
    with that(2,3) show ?thesis unfolding probed_port_def by blast
  qed
  consider (probed) a h where "probe net h t a = Some y" "a \<in> set (open_tcp_addresses hosts)"
    | (hinted) a where "known_hint a = Some y" "a \<in> set (open_tcp_addresses hosts)"
    | (udp) port host where "udp_service port = Some y" "port \<in> set (host_ports host)" "host \<in> set hosts"
    using assms
    by (auto simp: services_in_order_def Let_def set_filter_map dest: in_set_takeD in_set_dropD)
  then show ?thesis
  proof cases
    case probed
    with tcp show ?thesis using probe_address by blast
  next
    case hinted
    with tcp show ?thesis using known_hint_key by blast
  next
    case (udp port host)
    then show ?thesis by (rule udp_port)
  qed
qed

lemma char_groups_map_space:
  "char_groups gs \<Longrightarrow> char_groups (map (\<lambda>c. if is_control c then '' '' else c) gs)"
  by (induction gs) (auto simp: char_groups_Cons is_continuation_def)

lemma blanked_no_control:
  "c \<in> set (take n (map (\<lambda>c. if is_control c then '' '' else c) gs)) \<Longrightarrow> \<not> is_control c"
  by (auto dest!: in_set_takeD split: if_splits)

lemma classify_banner_silent: "snd (classify_banner [] port) = Conf_Low"
  by (simp add: classify_banner_def to_ascii_uppercase_def starts_with_def Let_def)

section \<open>Properties\<close>

text \<open>
  Service detection is deterministic: with a fair pool of probes the result is the stable sort by
  address and transport of the one-after-the-other observations, whatever order the probes finish in;
  only the first 256 open TCP addresses are contacted (two networks that agree on those give the same
  result), and every observation is of a port that was observed open (for UDP, open or open-filtered).
\<close>

theorem detect_services_deterministic:
  assumes "fair_pool arrive" and "distinct (open_tcp_addresses hosts)"
    and "\<And>a. a \<in> set (take 256 (open_tcp_addresses hosts)) \<Longrightarrow> net t a = net' t a"
  shows "detect_services arrive net hosts hostname n t =
      sort_key service_key (services_in_order net' hosts hostname t) \<and>
    list_all (probed_port hosts) (detect_services arrive net hosts hostname n t)"
proof
  have "probe net h t a = probe net' h t a" if "a \<in> set (take 256 (open_tcp_addresses hosts))" for a h
    using assms(3) [OF that] by (simp add: probe_def)
  then have "services_in_order net hosts hostname t = services_in_order net' hosts hostname t"
    unfolding services_in_order_def MAX_SERVICE_ENDPOINTS_def Let_def
    by (metis (no_types, lifting) filter_map_cong)
  then show "detect_services arrive net hosts hostname n t =
      sort_key service_key (services_in_order net' hosts hostname t)"
    by (simp add: detect_services_sequential [OF assms(1,2)])
  show "list_all (probed_port hosts) (detect_services arrive net hosts hostname n t)"
    by (auto simp: detect_services_sequential [OF assms(1,2)] list_all_iff
        intro: services_in_order_probed)
qed

theorem detect_services_deterministic_witness:
  "detect_services (\<lambda>n. rev) (\<lambda>t a. Race_Elapsed)
     [\<lparr>host_ip = V4 1, host_ports =
        [\<lparr>po_transport = Tcp, po_address = SocketAddr (V4 1) 443, po_state = Open,
          po_latency_ms = None, po_error = None\<rparr>,
         \<lparr>po_transport = Tcp, po_address = SocketAddr (V4 1) 22, po_state = Open,
          po_latency_ms = None, po_error = None\<rparr>]\<rparr>] None 8 1000 =
   sort_key service_key (services_in_order (\<lambda>t a. Race_Elapsed)
     [\<lparr>host_ip = V4 1, host_ports =
        [\<lparr>po_transport = Tcp, po_address = SocketAddr (V4 1) 443, po_state = Open,
          po_latency_ms = None, po_error = None\<rparr>,
         \<lparr>po_transport = Tcp, po_address = SocketAddr (V4 1) 22, po_state = Open,
          po_latency_ms = None, po_error = None\<rparr>]\<rparr>] None 1000)"
  by (rule detect_services_deterministic [THEN conjunct1]) (simp_all add: open_tcp_addresses_def)

text \<open>
  A banner taken from the network is reported without any control character, with at most 1,024
  characters and without surrounding white space, whatever bytes the peer sent; and a silent peer is
  only ever a low-confidence port hint.
\<close>

theorem sanitize_banner_safe:
  "clean_text 1024 (sanitize_banner bs) \<and> trim (sanitize_banner bs) = sanitize_banner bs \<and>
   snd (classify_banner [] port) = Conf_Low"
proof -
  let ?gs = "take MAX_BANNER_BYTES
    (map (\<lambda>c. if is_control c then '' '' else c) (chars (from_utf8_lossy bs)))"
  have "char_groups ?gs" by (intro char_groups_take char_groups_map_space char_groups_chars)
  then have gs: "chars (concat ?gs) = ?gs" by (rule chars_concat)
  have "\<not> is_control c" if "c \<in> set (chars (sanitize_banner bs))" for c
  proof -
    have "c \<in> set ?gs"
      using subsetD [OF set_chars_trim that [unfolded sanitize_banner_def]] by (simp only: gs)
    then show ?thesis by (rule blanked_no_control)
  qed
  moreover have "length (chars (sanitize_banner bs)) \<le> 1024"
    unfolding sanitize_banner_def
    by (rule le_trans [OF length_chars_trim]) (simp only: gs length_take, simp add: MAX_BANNER_BYTES_def)
  moreover have "trim (sanitize_banner bs) = sanitize_banner bs"
    unfolding sanitize_banner_def by (rule trim_idem)
  ultimately show ?thesis using classify_banner_silent [of port] unfolding clean_text_def by blast
qed

end
