(* ===== verification/Http.thy ===== *)
theory Http
  imports Target Service
begin

text \<open>
  Bounded HTTP inspection, \<^verbatim>\<open>crates/surface-core/src/http.rs\<close>. URLs of the \<open>url\<close> crate are an abstract
  type \<open>'u\<close> with the operations the code calls, \<open>url_ops\<close>; the client of the \<open>reqwest\<close> crate is
  \<open>http_client\<close>: what a build answers, and what the n-th request for a URL answers. A header map is
  the list of its pairs of lower-case name and value, the value absent where it is not visible ASCII.
\<close>

section \<open>Data\<close>

record cookie_observation =
  ck_name :: string
  ck_secure :: bool
  ck_http_only :: bool
  ck_same_site :: "string option"
  ck_domain :: "string option"
  ck_path :: "string option"

record redirect_observation =
  rd_from :: string
  rd_status :: u16
  rd_to :: string

record http_observation =
  ho_address :: socket_addr
  ho_url :: string
  ho_final_url :: "string option"
  ho_status :: "u16 option"
  ho_version :: "string option"
  ho_latency_ms :: "nat option"
  ho_redirects :: "redirect_observation list"
  ho_headers :: "(string \<times> string) list"
  ho_cookies :: "cookie_observation list"
  ho_title :: "string option"
  ho_body_bytes :: nat
  ho_body_truncated :: bool
  ho_robots_txt :: "bool option"
  ho_security_txt :: "bool option"
  ho_sitemap_xml :: "bool option"
  ho_error :: "string option"

datatype hsts_state = Hsts_Present | Hsts_Missing | Hsts_NotApplicable

definition effective_url :: "http_observation \<Rightarrow> string" where
  "effective_url h = (case ho_final_url h of Some u \<Rightarrow> u | None \<Rightarrow> ho_url h)"

definition hsts_state :: "http_observation \<Rightarrow> hsts_state" where
  "hsts_state h =
     (if \<not> starts_with (effective_url h) ''https://'' then Hsts_NotApplicable
      else if map_of (ho_headers h) ''strict-transport-security'' \<noteq> None then Hsts_Present
      else Hsts_Missing)"

definition MAX_BODY_BYTES :: nat where
  "MAX_BODY_BYTES = 131072"

definition MAX_COOKIES :: nat where
  "MAX_COOKIES = 64"

definition MAX_HEADER_BYTES :: nat where
  "MAX_HEADER_BYTES = 4096"

definition MAX_REDIRECTS :: nat where
  "MAX_REDIRECTS = 5"

definition SECURITY_HEADERS :: "string list" where
  "SECURITY_HEADERS =
     [''strict-transport-security'', ''content-security-policy'', ''x-content-type-options'',
      ''referrer-policy'', ''permissions-policy'', ''cross-origin-opener-policy'',
      ''cross-origin-resource-policy'', ''cross-origin-embedder-policy'', ''x-frame-options'',
      ''server'', ''x-powered-by'', ''content-type'']"

section \<open>Text from the peer\<close>

definition cap :: "nat \<Rightarrow> string \<Rightarrow> string" where
  "cap n v = concat (filter (\<lambda>c. \<not> is_control c) (take n (chars v)))"

definition sanitize_http :: "string \<Rightarrow> string" where
  "sanitize_http v = cap 512 v"

definition cookie_attribute :: "cookie_observation \<Rightarrow> string \<Rightarrow> cookie_observation" where
  \<comment> \<open>one iteration of the loop of \<open>parse_cookie\<close>\<close>
  "cookie_attribute cookie attribute =
     (let (name, v) = (case split_once CHR ''='' attribute of None \<Rightarrow> (attribute, []) | Some nv \<Rightarrow> nv);
          tag = to_ascii_lowercase name
      in if tag = ''secure'' then cookie\<lparr>ck_secure := True\<rparr>
         else if tag = ''httponly'' then cookie\<lparr>ck_http_only := True\<rparr>
         else if tag = ''samesite'' then cookie\<lparr>ck_same_site := Some (cap 64 v)\<rparr>
         else if tag = ''domain'' then cookie\<lparr>ck_domain := Some (cap 256 v)\<rparr>
         else if tag = ''path'' then cookie\<lparr>ck_path := Some (cap 256 v)\<rparr>
         else cookie)"

definition parse_cookie :: "string \<Rightarrow> cookie_observation option" where
  "parse_cookie v =
     (case map trim (split_on CHR '';'' v) of
        [] \<Rightarrow> None
      | first # attributes \<Rightarrow>
          (case split_once CHR ''='' first of
             None \<Rightarrow> None
           | Some (name, _) \<Rightarrow>
               if trim name = [] then None
               else Some (foldl cookie_attribute
                 \<lparr>ck_name = cap 256 (trim name), ck_secure = False, ck_http_only = False,
                  ck_same_site = None, ck_domain = None, ck_path = None\<rparr> attributes)))"

definition parse_cookies :: "(string \<times> string option) list \<Rightarrow> cookie_observation list" where
  "parse_cookies headers =
     take MAX_COOKIES (filter_map parse_cookie
       (filter_map id (map snd (filter (\<lambda>(name, _). name = ''set-cookie'') headers))))"

definition header_get :: "(string \<times> string option) list \<Rightarrow> string \<Rightarrow> string option" where
  \<comment> \<open>\<open>HeaderMap::get\<close>, the first value, and \<open>to_str().ok()\<close>\<close>
  "header_get headers name =
     (case find (\<lambda>(n, _). n = name) headers of None \<Rightarrow> None | Some (_, v) \<Rightarrow> v)"

definition selected_headers :: "(string \<times> string option) list \<Rightarrow> (string \<times> string) list" where
  "selected_headers headers =
     btm_of_list (filter_map
       (\<lambda>name. map_option (\<lambda>v. (name, cap MAX_HEADER_BYTES v)) (header_get headers name))
       SECURITY_HEADERS)"

definition extract_title :: "bytes \<Rightarrow> string option" where
  "extract_title body =
     (let content = from_utf8_lossy body; lowercase = to_ascii_lowercase content
      in case str_find lowercase ''<title'' of
           None \<Rightarrow> None
         | Some start \<Rightarrow> (case str_find (drop start lowercase) ''>'' of
             None \<Rightarrow> None
           | Some gt \<Rightarrow> let content_start = start + gt + 1
               in (case str_find (drop content_start lowercase) ''</title>'' of
                 None \<Rightarrow> None
               | Some close \<Rightarrow>
                   let title = join '' '' (split_ascii_whitespace (take close (drop content_start content)))
                   in if title = [] then None else Some (cap 512 title))))"

section \<open>URLs and the client\<close>

record 'u url_ops =
  uo_parse :: "string \<Rightarrow> 'u option"
  uo_join :: "'u \<Rightarrow> string \<Rightarrow> 'u option"
  uo_show :: "'u \<Rightarrow> string"
  uo_scheme :: "'u \<Rightarrow> string"
  uo_host_str :: "'u \<Rightarrow> string option"
  uo_port_or_known_default :: "'u \<Rightarrow> u16 option"
  uo_at_path :: "'u \<Rightarrow> string \<Rightarrow> 'u" \<comment> \<open>with the path set and query and fragment removed\<close>

record http_response =
  rsp_status :: u16
  rsp_version :: string
  rsp_headers :: "(string \<times> string option) list"
  rsp_chunks :: "bytes option list" \<comment> \<open>the body stream, \<open>None\<close> an error in it\<close>

record 'u http_client =
  cl_builds :: bool
  cl_get :: "nat \<Rightarrow> 'u \<Rightarrow> string + http_response" \<comment> \<open>the n-th request; an error as its text\<close>
  cl_head :: "'u \<Rightarrow> u16 option" \<comment> \<open>the status of a HEAD request that was answered\<close>
  cl_elapsed_ms :: "nat option"

definition is_redirection :: "u16 \<Rightarrow> bool" where
  \<comment> \<open>\<open>StatusCode::is_redirection\<close>\<close>
  "is_redirection status \<longleftrightarrow> 300 \<le> status \<and> status < 400"

definition same_origin :: "'u url_ops \<Rightarrow> 'u \<Rightarrow> 'u \<Rightarrow> bool" where
  "same_origin ops initial next_url \<longleftrightarrow>
     uo_scheme ops initial = uo_scheme ops next_url \<and>
     uo_host_str ops initial = uo_host_str ops next_url \<and>
     uo_port_or_known_default ops initial = uo_port_or_known_default ops next_url"

definition url_host_text :: "string \<Rightarrow> string" where
  "url_host_text hostname =
     (if CHR '':'' \<in> set hostname \<and> \<not> starts_with hostname ''['' then ''['' @ hostname @ '']'' else hostname)"

definition error_observation :: "socket_addr \<Rightarrow> string \<Rightarrow> string \<Rightarrow> http_observation" where
  "error_observation address url message =
     \<lparr>ho_address = address, ho_url = url, ho_final_url = None, ho_status = None, ho_version = None,
      ho_latency_ms = None, ho_redirects = [], ho_headers = [], ho_cookies = [], ho_title = None,
      ho_body_bytes = 0, ho_body_truncated = False, ho_robots_txt = None, ho_security_txt = None,
      ho_sitemap_xml = None, ho_error = Some (sanitize_http message)\<rparr>"

section \<open>One endpoint\<close>

function follow ::
    "'u url_ops \<Rightarrow> 'u http_client \<Rightarrow> 'u \<Rightarrow> 'u \<Rightarrow> redirect_observation list \<Rightarrow>
     string + http_response \<times> 'u \<times> redirect_observation list" where
  \<comment> \<open>the \<open>loop\<close> of \<open>inspect_inner\<close>: \<open>Inl\<close> the text of a request error, \<open>Inr\<close> the response it breaks
    with, the current URL and the redirects\<close>
  "follow ops client initial current redirects =
     (case cl_get client (length redirects) current of
        Inl message \<Rightarrow> Inl message
      | Inr response \<Rightarrow>
          if \<not> is_redirection (rsp_status response) \<or> MAX_REDIRECTS \<le> length redirects then
            Inr (response, current, redirects)
          else (case header_get (rsp_headers response) ''location'' of
              None \<Rightarrow> Inr (response, current, redirects)
            | Some location \<Rightarrow>
                (case uo_join ops current location of
                   None \<Rightarrow> Inr (response, current, redirects)
                 | Some next_url \<Rightarrow>
                     let redirects = push redirects
                       \<lparr>rd_from = uo_show ops current, rd_status = rsp_status response,
                        rd_to = uo_show ops next_url\<rparr>
                     in if \<not> same_origin ops initial next_url then Inr (response, current, redirects)
                        else follow ops client initial next_url redirects)))"
  by pat_completeness auto
termination
  by (relation "measure (\<lambda>(_, _, _, _, redirects). MAX_REDIRECTS - length redirects)") auto

declare follow.simps [simp del]

fun read_body :: "bytes \<Rightarrow> bytes option list \<Rightarrow> bytes \<times> bool" where
  \<comment> \<open>the \<open>while\<close> loop over the body stream\<close>
  "read_body body [] = (body, False)"
| "read_body body (None # chunks) = (body, False)"
| "read_body body (Some chunk # chunks) =
     (let remaining = MAX_BODY_BYTES - length body
      in if remaining < length chunk then (body @ take remaining chunk, True)
         else read_body (body @ chunk) chunks)"

definition check_path :: "'u url_ops \<Rightarrow> 'u http_client \<Rightarrow> 'u \<Rightarrow> string \<Rightarrow> bool option" where
  "check_path ops client base path =
     map_option (\<lambda>status. status \<noteq> 404) (cl_head client (uo_at_path ops base path))"

definition endpoint_url :: "normalized_target \<Rightarrow> service_observation \<Rightarrow> string" where
  \<comment> \<open>\<open>url_text\<close> of \<open>inspect_inner\<close>\<close>
  "endpoint_url target service =
     (let port = sa_port (svc_address service);
          scheme = (if svc_service service = Svc_Https \<or> port \<in> {443, 8443} then ''https'' else ''http'');
          hostname =
            (case tgt_hostname target of
               Some h \<Rightarrow> h
             | None \<Rightarrow> if is_ipv6 (sa_ip (svc_address service)) then ''[::1]'' else ''127.0.0.1'');
          path = (case tgt_initial_path target of Some p \<Rightarrow> p | None \<Rightarrow> ''/'')
      in scheme @ ''://'' @ url_host_text hostname @ '':'' @ show_nat (unat port) @ path)"

text \<open>
  The client a build makes: for a target without an explicit address its host name resolves to the
  service's address, the argument of \<open>Client::resolve\<close>.
\<close>

definition resolve_override ::
    "normalized_target \<Rightarrow> service_observation \<Rightarrow> (string \<times> socket_addr) option" where
  "resolve_override target service =
     (if tgt_explicit_ip target = None then
        Some (case tgt_hostname target of
                Some h \<Rightarrow> h
              | None \<Rightarrow> if is_ipv6 (sa_ip (svc_address service)) then ''[::1]'' else ''127.0.0.1'',
              svc_address service)
      else None)"

definition inspect_inner ::
    "'u url_ops \<Rightarrow> ((string \<times> socket_addr) option \<Rightarrow> nat \<Rightarrow> 'u http_client) \<Rightarrow>
     normalized_target \<Rightarrow> service_observation \<Rightarrow> nat \<Rightarrow> http_observation" where
  "inspect_inner ops connect_client target service request_timeout =
     (let url_text = endpoint_url target service; address = svc_address service
      in case uo_parse ops url_text of
           None \<Rightarrow> error_observation address url_text ''could not construct endpoint URL''
         | Some initial \<Rightarrow>
             let client = connect_client (resolve_override target service) request_timeout
             in if \<not> cl_builds client then
                  error_observation address url_text ''could not initialize HTTP client''
                else (case follow ops client initial initial [] of
                    Inl message \<Rightarrow>
                      error_observation address (uo_show ops initial) (sanitize_http message)
                  | Inr (response, current, redirects) \<Rightarrow>
                      let (body, truncated) = read_body [] (rsp_chunks response)
                      in \<lparr>ho_address = address, ho_url = uo_show ops initial,
                          ho_final_url = Some (uo_show ops current),
                          ho_status = Some (rsp_status response),
                          ho_version = Some (rsp_version response),
                          ho_latency_ms = cl_elapsed_ms client, ho_redirects = redirects,
                          ho_headers = selected_headers (rsp_headers response),
                          ho_cookies = parse_cookies (rsp_headers response),
                          ho_title = extract_title body, ho_body_bytes = length body,
                          ho_body_truncated = truncated,
                          ho_robots_txt = check_path ops client initial ''/robots.txt'',
                          ho_security_txt = check_path ops client initial ''/.well-known/security.txt'',
                          ho_sitemap_xml = check_path ops client initial ''/sitemap.xml'',
                          ho_error = None\<rparr>))"

section \<open>All endpoints\<close>

definition http_candidate :: "service_observation \<Rightarrow> bool" where
  "http_candidate service \<longleftrightarrow>
     svc_transport service = Tcp \<and>
     (svc_service service \<in> {Svc_Http, Svc_Https} \<or>
      sa_port (svc_address service) \<in> {80, 443, 8000, 8080, 8443})"

definition inspect_http ::
    "'u url_ops \<Rightarrow> (service_observation \<Rightarrow> bool) \<Rightarrow>
     ((string \<times> socket_addr) option \<Rightarrow> nat \<Rightarrow> 'u http_client) \<Rightarrow>
     normalized_target \<Rightarrow> nat \<Rightarrow> service_observation \<Rightarrow> http_observation option" where
  \<comment> \<open>\<open>inspect\<close>: \<open>cancelled service\<close> tells whether the \<open>select!\<close> took the cancellation branch\<close>
  "inspect_http ops cancelled connect_client target request_timeout service =
     (if cancelled service then None
      else Some (inspect_inner ops connect_client target service request_timeout))"

definition analyze_http ::
    "(nat \<Rightarrow> http_observation option list \<Rightarrow> http_observation option list) \<Rightarrow> 'u url_ops \<Rightarrow>
     (service_observation \<Rightarrow> bool) \<Rightarrow>
     ((string \<times> socket_addr) option \<Rightarrow> nat \<Rightarrow> 'u http_client) \<Rightarrow>
     normalized_target \<Rightarrow> service_observation list \<Rightarrow> nat \<Rightarrow> nat \<Rightarrow> http_observation list" where
  "analyze_http arrive ops cancelled connect_client target services concurrency request_timeout =
     sort_key ho_address
       (filter_map id
         (arrive (min 16 (max 1 concurrency))
           (map (inspect_http ops cancelled connect_client target request_timeout)
             (filter http_candidate services))))"

section \<open>Lemmas\<close>

lemma chars_cap: "chars (cap n v) = filter (\<lambda>c. \<not> is_control c) (take n (chars v))"
  unfolding cap_def by (intro chars_concat char_groups_filter char_groups_take char_groups_chars)

lemma cap_clean [simp]: "clean_text n (cap n v)"
  unfolding clean_text_def chars_cap
  by (auto intro: le_trans [OF length_filter_le])

lemma sanitize_http_clean [simp]: "clean_text 512 (sanitize_http v)"
  by (simp add: sanitize_http_def)

lemma same_origin_refl [simp]: "same_origin ops u u"
  by (simp add: same_origin_def)

fun url_linked :: "string \<Rightarrow> redirect_observation list \<Rightarrow> bool" where
  \<comment> \<open>every redirect leaves from where the one before it led\<close>
  "url_linked u [] = True"
| "url_linked u (r # rs) = (rd_from r = u \<and> url_linked (rd_to r) rs)"

fun url_end :: "string \<Rightarrow> redirect_observation list \<Rightarrow> string" where
  "url_end u [] = u"
| "url_end u (r # rs) = url_end (rd_to r) rs"

lemma url_linked_push: "url_linked u (push rs r) \<longleftrightarrow> url_linked u rs \<and> rd_from r = url_end u rs"
  by (induction rs arbitrary: u) (auto simp: push_def)

lemma url_end_push [simp]: "url_end u (push rs r) = rd_to r"
  by (induction rs arbitrary: u) (auto simp: push_def)

definition follow_inv :: "'u url_ops \<Rightarrow> 'u \<Rightarrow> 'u \<Rightarrow> redirect_observation list \<Rightarrow> bool" where
  "follow_inv ops initial current redirects \<longleftrightarrow>
     same_origin ops initial current \<and> length redirects \<le> MAX_REDIRECTS \<and>
     url_linked (uo_show ops initial) redirects \<and>
     uo_show ops current = url_end (uo_show ops initial) redirects"

definition follow_post :: "'u url_ops \<Rightarrow> 'u \<Rightarrow> 'u \<Rightarrow> redirect_observation list \<Rightarrow> bool" where
  \<comment> \<open>at the end the last redirect may lead to another origin; it was recorded and not followed\<close>
  "follow_post ops initial current redirects \<longleftrightarrow>
     same_origin ops initial current \<and> length redirects \<le> MAX_REDIRECTS \<and>
     url_linked (uo_show ops initial) redirects"

lemma follow_inv_post: "follow_inv ops i c r \<Longrightarrow> follow_post ops i c r"
  by (simp add: follow_inv_def follow_post_def)

lemma follow_ok:
  assumes "follow_inv ops initial current redirects"
    and "follow ops client initial current redirects = Inr (response, current', redirects')"
  shows "follow_post ops initial current' redirects'"
  using assms
proof (induction ops client initial current redirects rule: follow.induct)
  case (1 ops client initial current redirects)
  note IH = "1.IH" and inv = "1.prems"(1)
  note eq = "1.prems"(2) [unfolded follow.simps [of ops client initial current redirects]]
  have stay: ?case if "Inr (r, current, redirects) = (Inr (response, current', redirects') :: string + _)" for r
    using that follow_inv_post [OF inv] by simp
  show ?case
  proof (cases "cl_get client (length redirects) current")
    case (Inl m)
    with eq show ?thesis by simp
  next
    case (Inr r)
    show ?thesis
    proof (cases "\<not> is_redirection (rsp_status r) \<or> MAX_REDIRECTS \<le> length redirects")
      case True
      with eq Inr stay [of r] show ?thesis by simp
    next
      case False
      show ?thesis
      proof (cases "header_get (rsp_headers r) ''location''")
        case None
        with eq Inr False stay [of r] show ?thesis by simp
      next
        case (Some location)
        show ?thesis
        proof (cases "uo_join ops current location")
          case None
          with eq Inr False Some stay [of r] show ?thesis by simp
        next
          case next_url: (Some next_url)
          let ?r = "push redirects \<lparr>rd_from = uo_show ops current, rd_status = rsp_status r,
                      rd_to = uo_show ops next_url\<rparr>"
          have linked: "length ?r \<le> MAX_REDIRECTS" "url_linked (uo_show ops initial) ?r"
            "uo_show ops next_url = url_end (uo_show ops initial) ?r"
            using inv False by (auto simp: follow_inv_def url_linked_push)
          show ?thesis
          proof (cases "same_origin ops initial next_url")
            case True
            then have "follow_inv ops initial next_url ?r" using linked by (simp add: follow_inv_def)
            moreover have "follow ops client initial next_url ?r = Inr (response, current', redirects')"
              using eq Inr False Some next_url True by simp
            ultimately show ?thesis
              using IH [OF Inr False Some next_url refl] True by blast
          next
            case other: False
            then have "current' = current" "redirects' = ?r"
              using eq Inr False Some next_url by auto
            with inv linked show ?thesis by (simp add: follow_inv_def follow_post_def)
          qed
        qed
      qed
    qed
  qed
qed

lemma follow_cong:
  assumes "\<And>n u. same_origin ops initial u \<Longrightarrow> cl_get client n u = cl_get client' n u"
    and "same_origin ops initial current"
  shows "follow ops client initial current redirects = follow ops client' initial current redirects"
  using assms
proof (induction ops client initial current redirects rule: follow.induct)
  case (1 ops client initial current redirects)
  have get: "cl_get client' (length redirects) current = cl_get client (length redirects) current"
    using 1(2,3) by simp
  show ?case
    unfolding follow.simps [of ops client initial current redirects]
      follow.simps [of ops client' initial current redirects] get Let_def
    by (intro sum.case_cong if_cong option.case_cong refl) (use 1 in simp)
qed

lemma read_body_bound: "length body \<le> MAX_BODY_BYTES \<Longrightarrow> length (fst (read_body body chunks)) \<le> MAX_BODY_BYTES"
  by (induction body chunks rule: read_body.induct) (auto simp: Let_def)

lemma extract_title_clean: "extract_title body = Some t \<Longrightarrow> clean_text 512 t"
  by (auto simp: extract_title_def Let_def split: option.splits if_splits)

definition cookie_clean :: "cookie_observation \<Rightarrow> bool" where
  "cookie_clean c \<longleftrightarrow>
     clean_text 256 (ck_name c) \<and> (\<forall>v. ck_same_site c = Some v \<longrightarrow> clean_text 64 v) \<and>
     (\<forall>v. ck_domain c = Some v \<longrightarrow> clean_text 256 v) \<and> (\<forall>v. ck_path c = Some v \<longrightarrow> clean_text 256 v)"

lemma cookie_clean_updates [simp]:
  "cookie_clean (c\<lparr>ck_secure := b\<rparr>) = cookie_clean c"
  "cookie_clean (c\<lparr>ck_http_only := b\<rparr>) = cookie_clean c"
  "cookie_clean c \<Longrightarrow> cookie_clean (c\<lparr>ck_same_site := Some (cap 64 v)\<rparr>)"
  "cookie_clean c \<Longrightarrow> cookie_clean (c\<lparr>ck_domain := Some (cap 256 v)\<rparr>)"
  "cookie_clean c \<Longrightarrow> cookie_clean (c\<lparr>ck_path := Some (cap 256 v)\<rparr>)"
  by (simp_all add: cookie_clean_def)

lemma cookie_attribute_clean: "cookie_clean c \<Longrightarrow> cookie_clean (cookie_attribute c a)"
  unfolding cookie_attribute_def Let_def by (simp split: prod.split if_split)

lemma parse_cookie_clean: "parse_cookie v = Some c \<Longrightarrow> cookie_clean c"
proof -
  have step: "cookie_clean c \<Longrightarrow> cookie_clean (foldl cookie_attribute c as)" for c as
    by (induction as arbitrary: c) (simp_all add: cookie_attribute_clean)
  assume "parse_cookie v = Some c"
  then obtain name attributes where
    "c = foldl cookie_attribute
       \<lparr>ck_name = cap 256 (trim name), ck_secure = False, ck_http_only = False,
        ck_same_site = None, ck_domain = None, ck_path = None\<rparr> attributes"
    by (auto simp: parse_cookie_def split: list.splits option.splits if_splits)
  moreover have "cookie_clean \<lparr>ck_name = cap 256 n, ck_secure = False, ck_http_only = False,
      ck_same_site = None, ck_domain = None, ck_path = None\<rparr>" for n
    by (simp add: cookie_clean_def)
  ultimately show ?thesis using step by simp
qed

lemma selected_headers_clean:
  "(n, v) \<in> set (selected_headers headers) \<Longrightarrow> n \<in> set SECURITY_HEADERS \<and> clean_text 4096 v"
proof -
  let ?kvs = "filter_map (\<lambda>name. map_option (\<lambda>v. (name, cap MAX_HEADER_BYTES v)) (header_get headers name))
    SECURITY_HEADERS"
  assume "(n, v) \<in> set (selected_headers headers)"
  then have "map_of (selected_headers headers) n = Some v"
    using btm_wf_of_list [of ?kvs] by (simp add: selected_headers_def btm_wf_def)
  then have "(n, v) \<in> set ?kvs"
    by (auto simp: selected_headers_def map_of_btm_of_list dest!: map_of_SomeD)
  then show ?thesis by (auto simp: set_filter_map MAX_HEADER_BYTES_def)
qed

definition http_bounded :: "http_observation \<Rightarrow> bool" where
  \<comment> \<open>every field that holds data of the peer is bounded and free of control characters\<close>
  "http_bounded h \<longleftrightarrow>
     length (ho_redirects h) \<le> MAX_REDIRECTS \<and> ho_body_bytes h \<le> MAX_BODY_BYTES \<and>
     length (ho_cookies h) \<le> MAX_COOKIES \<and> (\<forall>c \<in> set (ho_cookies h). cookie_clean c) \<and>
     (\<forall>(n, v) \<in> set (ho_headers h). n \<in> set SECURITY_HEADERS \<and> clean_text 4096 v) \<and>
     (\<forall>t. ho_title h = Some t \<longrightarrow> clean_text 512 t) \<and> (\<forall>e. ho_error h = Some e \<longrightarrow> clean_text 512 e)"

lemma error_observation_bounded [simp]: "http_bounded (error_observation a u m)"
  by (simp add: http_bounded_def error_observation_def)

lemma inspect_inner_address [simp]: "ho_address (inspect_inner ops cc target service t) = svc_address service"
  by (simp add: inspect_inner_def error_observation_def Let_def split: option.split sum.split prod.split)

interpretation http: keyed_option_stage "inspect_http ops cancelled cc target t" ho_address svc_address
  for ops :: "'u url_ops" and cancelled cc target t
  by unfold_locales (auto simp: inspect_http_def split: if_splits)

lemma inspect_inner_cases:
  obtains (failed) u m where "inspect_inner ops cc target service t = error_observation (svc_address service) u m"
  | (answered) initial client response current redirects body truncated where
      "uo_parse ops (endpoint_url target service) = Some initial"
      "client = cc (resolve_override target service) t"
      "follow ops client initial initial [] = Inr (response, current, redirects)"
      "read_body [] (rsp_chunks response) = (body, truncated)"
      "inspect_inner ops cc target service t =
        \<lparr>ho_address = svc_address service, ho_url = uo_show ops initial,
         ho_final_url = Some (uo_show ops current),
         ho_status = Some (rsp_status response), ho_version = Some (rsp_version response),
         ho_latency_ms = cl_elapsed_ms client, ho_redirects = redirects,
         ho_headers = selected_headers (rsp_headers response),
         ho_cookies = parse_cookies (rsp_headers response),
         ho_title = extract_title body, ho_body_bytes = length body, ho_body_truncated = truncated,
         ho_robots_txt = check_path ops client initial ''/robots.txt'',
         ho_security_txt = check_path ops client initial ''/.well-known/security.txt'',
         ho_sitemap_xml = check_path ops client initial ''/sitemap.xml'', ho_error = None\<rparr>"
proof -
  let ?c = "cc (resolve_override target service) t"
  show ?thesis
  proof (cases "uo_parse ops (endpoint_url target service)")
    case None
    then show ?thesis by (intro failed) (simp add: inspect_inner_def Let_def)
  next
    case (Some initial)
    show ?thesis
    proof (cases "cl_builds ?c")
      case False
      with Some show ?thesis by (intro failed) (simp add: inspect_inner_def Let_def)
    next
      case True
      show ?thesis
      proof (cases "follow ops ?c initial initial []")
        case (Inl m)
        with Some True show ?thesis by (intro failed) (simp add: inspect_inner_def Let_def)
      next
        case (Inr r)
        obtain response current redirects where r: "r = (response, current, redirects)"
          by (cases r)
        obtain body truncated where b: "read_body [] (rsp_chunks response) = (body, truncated)"
          by (cases "read_body [] (rsp_chunks response)")
        show ?thesis
          by (rule answered [OF Some refl _ b]) (use Some True Inr r b in \<open>simp_all add: inspect_inner_def Let_def\<close>)
      qed
    qed
  qed
qed

section \<open>Properties\<close>

text \<open>
  Whatever an HTTP server answers, the observation is bounded: at most 5 redirects, 131,072 body
  bytes, 64 cookies, only the listed headers with at most 4,096 characters each, a title of at most 512
  characters, and no control character in any of these.
\<close>

theorem http_observation_bounded:
  "http_bounded (inspect_inner ops cc target service t)"
proof (cases rule: inspect_inner_cases [of ops cc target service t])
  case (failed u m)
  then show ?thesis by simp
next
  case (answered initial client response current redirects body truncated)
  have "follow_inv ops initial initial []" by (simp add: follow_inv_def)
  from follow_ok [OF this answered(3)] have "length redirects \<le> MAX_REDIRECTS"
    by (simp add: follow_post_def)
  moreover have "length body \<le> MAX_BODY_BYTES"
    using read_body_bound [of "[]" "rsp_chunks response"] answered(4) by simp
  moreover have "\<forall>c \<in> set (parse_cookies (rsp_headers response)). cookie_clean c"
    by (auto simp: parse_cookies_def set_filter_map parse_cookie_clean dest!: in_set_takeD)
  moreover have "length (parse_cookies (rsp_headers response)) \<le> MAX_COOKIES"
    by (simp add: parse_cookies_def)
  moreover have "\<forall>(n, v) \<in> set (selected_headers (rsp_headers response)).
      n \<in> set SECURITY_HEADERS \<and> clean_text 4096 v"
    using selected_headers_clean by blast
  ultimately show ?thesis
    using extract_title_clean by (simp add: answered(5) http_bounded_def)
qed

text \<open>
  C29: HTTP inspection never leaves the origin: it depends on the network only through requests to URLs
  with the scheme, host and port of the initial URL and through the three well-known paths of that
  origin; two networks that agree there give the same observation whatever else they answer.
\<close>

theorem http_stays_on_origin:
  assumes "\<And>initial n u. uo_parse ops (endpoint_url target service) = Some initial \<Longrightarrow>
      same_origin ops initial u \<Longrightarrow>
      cl_get (cc (resolve_override target service) t) n u = cl_get (cc' (resolve_override target service) t) n u"
    and "\<And>initial path. uo_parse ops (endpoint_url target service) = Some initial \<Longrightarrow>
      path \<in> {''/robots.txt'', ''/.well-known/security.txt'', ''/sitemap.xml''} \<Longrightarrow>
      cl_head (cc (resolve_override target service) t) (uo_at_path ops initial path) =
      cl_head (cc' (resolve_override target service) t) (uo_at_path ops initial path)"
    and "cl_builds (cc (resolve_override target service) t) = cl_builds (cc' (resolve_override target service) t)"
    and "cl_elapsed_ms (cc (resolve_override target service) t) =
      cl_elapsed_ms (cc' (resolve_override target service) t)"
  shows "inspect_inner ops cc target service t = inspect_inner ops cc' target service t"
proof (cases "uo_parse ops (endpoint_url target service)")
  case None
  then show ?thesis by (simp add: inspect_inner_def)
next
  case (Some initial)
  let ?c = "cc (resolve_override target service) t" and ?c' = "cc' (resolve_override target service) t"
  have "follow ops ?c initial initial [] = follow ops ?c' initial initial []"
    by (rule follow_cong) (use assms(1) Some in auto)
  moreover have "check_path ops ?c initial path = check_path ops ?c' initial path"
    if "path \<in> {''/robots.txt'', ''/.well-known/security.txt'', ''/sitemap.xml''}" for path
    using assms(2) [OF Some that] by (simp add: check_path_def)
  ultimately show ?thesis
    using assms(3,4) by (simp add: inspect_inner_def Some Let_def cong: sum.case_cong)
qed

definition sample_url_ops :: "string url_ops" where
  \<comment> \<open>URLs as their text, the origin the part before the first path\<close>
  "sample_url_ops =
     \<lparr>uo_parse = Some, uo_join = (\<lambda>u l. Some l), uo_show = id, uo_scheme = take 4,
      uo_host_str = Some, uo_port_or_known_default = (\<lambda>_. None), uo_at_path = (@)\<rparr>"

definition sample_client :: "http_response \<Rightarrow> string http_client" where
  \<comment> \<open>redirects the URL \<open>http://h:80/\<close> to another host, where it answers with the given response\<close>
  "sample_client elsewhere =
     \<lparr>cl_builds = True,
      cl_get = (\<lambda>n u.
        if u = ''http://h:80/'' then
          Inr \<lparr>rsp_status = 302, rsp_version = ''HTTP/1.1'',
            rsp_headers = [(''location'', Some ''http://other/'')], rsp_chunks = []\<rparr>
        else Inr elsewhere),
      cl_head = (\<lambda>_. Some 404), cl_elapsed_ms = Some 3\<rparr>"

theorem http_stays_on_origin_witness:
  "inspect_inner sample_url_ops (\<lambda>_ _. sample_client \<lparr>rsp_status = 200, rsp_version = [], rsp_headers = [], rsp_chunks = []\<rparr>)
     \<lparr>tgt_original = ''h'', tgt_hostname = Some ''h'', tgt_explicit_ip = None, tgt_scheme = None,
      tgt_explicit_port = None, tgt_initial_path = None\<rparr> (hint_observation (SocketAddr (V4 1) 80)) 9 =
   inspect_inner sample_url_ops (\<lambda>_ _. sample_client \<lparr>rsp_status = 500, rsp_version = [], rsp_headers = [], rsp_chunks = []\<rparr>)
     \<lparr>tgt_original = ''h'', tgt_hostname = Some ''h'', tgt_explicit_ip = None, tgt_scheme = None,
      tgt_explicit_port = None, tgt_initial_path = None\<rparr> (hint_observation (SocketAddr (V4 1) 80)) 9"
proof (rule http_stays_on_origin)
  have url: "endpoint_url
     \<lparr>tgt_original = ''h'', tgt_hostname = Some ''h'', tgt_explicit_ip = None, tgt_scheme = None,
      tgt_explicit_port = None, tgt_initial_path = None\<rparr> (hint_observation (SocketAddr (V4 1) 80))
     = ''http://h:80/''" by code_simp
  fix initial :: string and n u
  assume "uo_parse sample_url_ops (endpoint_url
     \<lparr>tgt_original = ''h'', tgt_hostname = Some ''h'', tgt_explicit_ip = None, tgt_scheme = None,
      tgt_explicit_port = None, tgt_initial_path = None\<rparr> (hint_observation (SocketAddr (V4 1) 80))) = Some initial"
    and "same_origin sample_url_ops initial u"
  then have "u = ''http://h:80/''" by (simp add: url sample_url_ops_def same_origin_def)
  then show "cl_get (sample_client \<lparr>rsp_status = 200, rsp_version = [], rsp_headers = [], rsp_chunks = []\<rparr>) n u =
      cl_get (sample_client \<lparr>rsp_status = 500, rsp_version = [], rsp_headers = [], rsp_chunks = []\<rparr>) n u"
    by (simp add: sample_client_def)
qed (simp_all add: sample_client_def)

end
