(* ===== verification/Tls.thy ===== *)
theory Tls
  imports Service
begin

text \<open>
  TLS endpoint evidence, \<^verbatim>\<open>crates/surface-core/src/tls.rs\<close>. The handshake itself is the \<open>rustls\<close> crate's:
  the environment answers an attempt with its outcome and with the certificates its verifier was shown.
  The X.509 parser (\<open>x509_parser\<close>) and the digest (\<open>sha2\<close>) are parameters, the fields of
  \<open>x509_crate\<close>. The \<open>cfg(test)\<close> counters of the capture are not modelled.
\<close>

section \<open>Data\<close>

definition MAX_CERTIFICATES :: nat where
  "MAX_CERTIFICATES = 16"

definition MAX_CERTIFICATE_DER_BYTES :: nat where
  "MAX_CERTIFICATE_DER_BYTES = 1024 * 1024"

definition MAX_SUBJECT_ALT_NAMES :: nat where
  "MAX_SUBJECT_ALT_NAMES = 128"

record certificate_capture =
  cap_certificates :: "bytes list"
  cap_chain_length :: nat
  cap_der_truncated :: bool

definition capture_default :: certificate_capture where
  "capture_default = \<lparr>cap_certificates = [], cap_chain_length = 0, cap_der_truncated = False\<rparr>"

record tls_observation =
  to_address :: socket_addr
  to_server_name :: string
  to_handshake_succeeded :: bool
  to_certificate_trusted :: "bool option"
  to_hostname_matches :: "bool option"
  to_protocol_version :: "string option"
  to_cipher_suite :: "string option"
  to_alpn :: "string option"
  to_certificate_chain_length :: "nat option"
  to_leaf_certificate_sha256 :: "string option"
  to_subject :: "string option"
  to_issuer :: "string option"
  to_serial_number :: "string option"
  to_valid_from_unix :: "int option"
  to_valid_until_unix :: "int option"
  to_subject_alt_names :: "string list"
  to_subject_alt_names_truncated :: bool
  to_public_key_algorithm :: "string option"
  to_public_key_bits :: "nat option"
  to_signature_algorithm :: "string option"
  to_errors :: "string list"

datatype general_name = GN_DnsName string | GN_IpAddress bytes | GN_Other

datatype public_key = PK_Rsa bytes | PK_Ec | PK_Other

record x509_certificate =
  x_subject :: string
  x_issuer :: string
  x_serial :: string
  x_not_before :: int
  x_not_after :: int
  x_alt_names :: "unit + general_name list option" \<comment> \<open>the extension: unreadable, or absent or its names\<close>
  x_key_algorithm :: string
  x_key :: "public_key option" \<comment> \<open>\<open>None\<close> where the key does not parse\<close>
  x_key_curve :: "string option"
  x_signature_algorithm :: string

record x509_crate =
  xc_parse :: "bytes \<Rightarrow> string + x509_certificate"
  xc_sha256_hex :: "bytes \<Rightarrow> string"

section \<open>Certificates\<close>

fun within_budget :: "nat \<Rightarrow> bytes list \<Rightarrow> bytes list \<times> bool" where
  \<comment> \<open>the loop over certificates with a cumulative byte count: those within it, and whether it stopped\<close>
  "within_budget used [] = ([], False)"
| "within_budget used (c # cs) =
     (if MAX_CERTIFICATE_DER_BYTES < used + length c then ([], True)
      else (case within_budget (used + length c) cs of (kept, stopped) \<Rightarrow> (c # kept, stopped)))"

definition record_certificates :: "bytes \<Rightarrow> bytes list \<Rightarrow> certificate_capture" where
  "record_certificates end_entity intermediates =
     (let (kept, stopped) = within_budget 0 (take MAX_CERTIFICATES (end_entity # intermediates))
      in \<lparr>cap_certificates = kept, cap_chain_length = length intermediates + 1,
          cap_der_truncated = stopped\<rparr>)"

definition san_text :: "general_name \<Rightarrow> string option" where
  \<comment> \<open>\<open>normalized\<close> of one general name, with the filter on empty names\<close>
  "san_text name =
     (let normalized =
        (case name of
           GN_DnsName n \<Rightarrow> Some (to_ascii_lowercase (trim_end_matches CHR ''.'' n))
         | GN_IpAddress bs \<Rightarrow>
             if length bs = 4 then Some (join ''.'' (map (\<lambda>b. show_nat (byte b)) bs))
             else if length bs = 16 then Some (show_ipv6 (of_nat (be_value 256 (map byte bs))))
             else None
         | GN_Other \<Rightarrow> None)
      in case normalized of Some [] \<Rightarrow> None | _ \<Rightarrow> normalized)"

fun san_loop :: "string list \<Rightarrow> string list \<Rightarrow> general_name list \<Rightarrow> string list \<times> bool" where
  \<comment> \<open>the loop of \<open>normalized_subject_alt_names\<close> over \<open>names\<close> and \<open>seen\<close>\<close>
  "san_loop names seen [] = (names, False)"
| "san_loop names seen (g # gs) =
     (case san_text g of
        None \<Rightarrow> san_loop names seen gs
      | Some n \<Rightarrow>
          if n \<in> set seen then san_loop names seen gs
          else if length names = MAX_SUBJECT_ALT_NAMES then (names, True)
          else san_loop (push names n) (n # seen) gs)"

definition normalized_subject_alt_names :: "x509_certificate \<Rightarrow> unit + string list \<times> bool" where
  "normalized_subject_alt_names certificate =
     (case x_alt_names certificate of
        Inl _ \<Rightarrow> Inl ()
      | Inr None \<Rightarrow> Inr ([], False)
      | Inr (Some general_names) \<Rightarrow> Inr (san_loop [] [] general_names))"

fun bit_count :: "nat \<Rightarrow> nat" where
  \<comment> \<open>\<open>u8::BITS - leading_zeros\<close>\<close>
  "bit_count n = (if n = 0 then 0 else Suc (bit_count (n div 2)))"

declare bit_count.simps [simp del]

definition high_bit :: "char \<Rightarrow> bool" where
  "high_bit b \<longleftrightarrow> 128 \<le> byte b"

definition rsa_modulus_bits :: "bytes \<Rightarrow> nat option" where
  "rsa_modulus_bits modulus =
     (case (case modulus of
              [] \<Rightarrow> None
            | b # rest \<Rightarrow>
                if byte b = 0 then
                  (case rest of c # _ \<Rightarrow> if high_bit c then Some rest else None | [] \<Rightarrow> None)
                else if high_bit b then None
                else Some modulus) of
        None \<Rightarrow> None
      | Some [] \<Rightarrow> None
      | Some (b # rest) \<Rightarrow> Some (length rest * 8 + bit_count (byte b)))"

definition OID_EC_P256 :: string where
  "OID_EC_P256 = ''1.2.840.10045.3.1.7''"

definition OID_NIST_EC_P384 :: string where
  "OID_NIST_EC_P384 = ''1.3.132.0.34''"

definition OID_NIST_EC_P521 :: string where
  "OID_NIST_EC_P521 = ''1.3.132.0.35''"

definition parsed_public_key_bits :: "public_key \<Rightarrow> string option \<Rightarrow> nat option" where
  "parsed_public_key_bits key named_curve_oid =
     (case key of
        PK_Rsa modulus \<Rightarrow> rsa_modulus_bits modulus
      | PK_Ec \<Rightarrow>
          if named_curve_oid = Some OID_EC_P256 then Some 256
          else if named_curve_oid = Some OID_NIST_EC_P384 then Some 384
          else if named_curve_oid = Some OID_NIST_EC_P521 then Some 521
          else None
      | PK_Other \<Rightarrow> None)"

definition sanitize_tls :: "string \<Rightarrow> string" where
  "sanitize_tls v = sanitize_chars 512 v"

definition add_error :: "string \<Rightarrow> tls_observation \<Rightarrow> tls_observation" where
  "add_error message observation = observation\<lparr>to_errors := push (to_errors observation) message\<rparr>"

definition inspect_leaf :: "x509_crate \<Rightarrow> bytes \<Rightarrow> tls_observation \<Rightarrow> tls_observation" where
  \<comment> \<open>\<open>inspect_certificates\<close> from the parse of the leaf on\<close>
  "inspect_leaf xc leaf observation =
     (case xc_parse xc leaf of
        Inl e \<Rightarrow> add_error (sanitize_tls (''could not parse leaf certificate: '' @ e)) observation
      | Inr certificate \<Rightarrow>
          let observation =
            (case normalized_subject_alt_names certificate of
               Inr (names, truncated) \<Rightarrow>
                 observation\<lparr>to_subject_alt_names := names, to_subject_alt_names_truncated := truncated\<rparr>
             | Inl _ \<Rightarrow>
                 add_error ''subject alternative name extension could not be parsed'' observation)
          in observation\<lparr>
               to_leaf_certificate_sha256 := Some (xc_sha256_hex xc leaf),
               to_subject := Some (x_subject certificate),
               to_issuer := Some (x_issuer certificate),
               to_serial_number := Some (x_serial certificate),
               to_valid_from_unix := Some (x_not_before certificate),
               to_valid_until_unix := Some (x_not_after certificate),
               to_public_key_algorithm := Some (x_key_algorithm certificate),
               to_public_key_bits :=
                 (case x_key certificate of
                    None \<Rightarrow> None
                  | Some key \<Rightarrow> parsed_public_key_bits key (x_key_curve certificate)),
               to_signature_algorithm := Some (x_signature_algorithm certificate)\<rparr>)"

definition inspect_certificates ::
    "x509_crate \<Rightarrow> bytes list \<Rightarrow> nat \<Rightarrow> bool \<Rightarrow> tls_observation \<Rightarrow> tls_observation" where
  "inspect_certificates xc certificates chain_length der_truncated observation =
     (let observation = observation\<lparr>to_certificate_chain_length := Some chain_length\<rparr>;
          observation =
            (if MAX_CERTIFICATES < chain_length then
               add_error (''certificate inspection limited to the first '' @ show_nat MAX_CERTIFICATES
                 @ '' of '' @ show_nat chain_length @ '' peer certificates'') observation
             else observation);
          (inspected, stopped) = within_budget 0 (take MAX_CERTIFICATES certificates);
          observation =
            (if der_truncated \<or> stopped then
               add_error (''certificate DER inspection limited to '' @ show_nat MAX_CERTIFICATE_DER_BYTES
                 @ '' cumulative bytes'') observation
             else observation)
      in if inspected = [] then observation
         else (case certificates of
             [] \<Rightarrow> observation
           | leaf # _ \<Rightarrow> inspect_leaf xc leaf observation))"

section \<open>One endpoint\<close>

definition failed :: "socket_addr \<Rightarrow> string \<Rightarrow> string \<Rightarrow> tls_observation" where
  "failed address server_name error =
     \<lparr>to_address = address, to_server_name = server_name, to_handshake_succeeded = False,
      to_certificate_trusted = None, to_hostname_matches = None, to_protocol_version = None,
      to_cipher_suite = None, to_alpn = None, to_certificate_chain_length = None,
      to_leaf_certificate_sha256 = None, to_subject = None, to_issuer = None, to_serial_number = None,
      to_valid_from_unix = None, to_valid_until_unix = None, to_subject_alt_names = [],
      to_subject_alt_names_truncated = False, to_public_key_algorithm = None,
      to_public_key_bits = None, to_signature_algorithm = None, to_errors = [sanitize_tls error]\<rparr>"

definition failed_with_capture ::
    "x509_crate \<Rightarrow> socket_addr \<Rightarrow> string \<Rightarrow> string \<Rightarrow> certificate_capture \<Rightarrow> tls_observation" where
  "failed_with_capture xc address server_name error captured =
     (let observation = failed address server_name error
      in if cap_chain_length captured \<noteq> 0 then
           inspect_certificates xc (cap_certificates captured) (cap_chain_length captured)
             (cap_der_truncated captured) observation
         else observation)"

record tls_connection =
  cn_protocol_version :: "string option"
  cn_cipher_suite :: "string option"
  cn_alpn :: "bytes option"
  cn_peer_certificates :: "bytes list option"

datatype tls_outcome =
    Tls_Elapsed
  | Tls_ConnectError string
  | Tls_NameError string
  | Tls_HandshakeError string
  | Tls_Connected tls_connection

record tls_attempt =
  ta_cancelled :: bool
  ta_configured :: bool
  ta_presented :: "(bytes \<times> bytes list) option" \<comment> \<open>what the verifier was last called with\<close>
  ta_outcome :: tls_outcome

definition connected_observation ::
    "x509_crate \<Rightarrow> socket_addr \<Rightarrow> string \<Rightarrow> tls_connection \<Rightarrow> tls_observation" where
  \<comment> \<open>\<open>inspect_inner\<close> after the handshake\<close>
  "connected_observation xc address server_name connection =
     (let observation =
        \<lparr>to_address = address, to_server_name = server_name, to_handshake_succeeded = True,
         to_certificate_trusted = Some True, to_hostname_matches = Some True,
         to_protocol_version = cn_protocol_version connection,
         to_cipher_suite = cn_cipher_suite connection,
         to_alpn = map_option from_utf8_lossy (cn_alpn connection),
         to_certificate_chain_length = None, to_leaf_certificate_sha256 = None, to_subject = None,
         to_issuer = None, to_serial_number = None, to_valid_from_unix = None,
         to_valid_until_unix = None, to_subject_alt_names = [],
         to_subject_alt_names_truncated = False, to_public_key_algorithm = None,
         to_public_key_bits = None, to_signature_algorithm = None, to_errors = []\<rparr>
      in case cn_peer_certificates connection of
           Some certificates \<Rightarrow>
             inspect_certificates xc certificates (length certificates) False observation
         | None \<Rightarrow> add_error ''TLS peer supplied no certificate'' observation)"

definition inspect_tls ::
    "x509_crate \<Rightarrow> (nat \<Rightarrow> socket_addr \<Rightarrow> tls_attempt) \<Rightarrow> string \<Rightarrow> nat \<Rightarrow> socket_addr \<Rightarrow>
     tls_observation option" where
  "inspect_tls xc net server_name handshake_timeout address =
     (let attempt = net handshake_timeout address;
          captured =
            (case ta_presented attempt of
               None \<Rightarrow> capture_default
             | Some (end_entity, intermediates) \<Rightarrow> record_certificates end_entity intermediates)
      in if \<not> ta_configured attempt then
           Some (failed address server_name ''TLS verifier configuration failed'')
         else if ta_cancelled attempt then None
         else Some (case ta_outcome attempt of
             Tls_Connected connection \<Rightarrow> connected_observation xc address server_name connection
           | Tls_ConnectError e \<Rightarrow>
               failed_with_capture xc address server_name (sanitize_tls e) captured
           | Tls_NameError e \<Rightarrow>
               failed_with_capture xc address server_name (''invalid TLS server name: '' @ e) captured
           | Tls_HandshakeError e \<Rightarrow>
               failed_with_capture xc address server_name (sanitize_tls e) captured
           | Tls_Elapsed \<Rightarrow>
               failed_with_capture xc address server_name ''TLS handshake timed out'' captured))"

section \<open>All endpoints\<close>

definition is_implicit_tls_candidate :: "service_observation \<Rightarrow> bool" where
  "is_implicit_tls_candidate service \<longleftrightarrow>
     (let kind = svc_service service; port = sa_port (svc_address service)
      in svc_transport service = Tcp \<and>
         (kind \<in> {Svc_Https, Svc_Smtps, Svc_Imaps, Svc_Pop3s, Svc_Tls}
          \<or> kind = Svc_Oracle \<and> port = 2484
          \<or> kind = Svc_Mqtt \<and> port = 8883
          \<or> kind = Svc_Docker \<and> port = 2376
          \<or> kind = Svc_Rabbitmq \<and> port \<in> {5671, 15671}
          \<or> kind = Svc_Kubernetes \<and> port = 6443))"

definition analyze_tls ::
    "(nat \<Rightarrow> tls_observation option list \<Rightarrow> tls_observation option list) \<Rightarrow> x509_crate \<Rightarrow> bool \<Rightarrow>
     (nat \<Rightarrow> socket_addr \<Rightarrow> tls_attempt) \<Rightarrow> service_observation list \<Rightarrow> string \<Rightarrow> nat \<Rightarrow> nat \<Rightarrow>
     tls_observation list" where
  \<comment> \<open>\<open>verifier_builds\<close>: whether the WebPKI verifier could be built\<close>
  "analyze_tls arrive xc verifier_builds net services server_name concurrency handshake_timeout =
     (if \<not> verifier_builds then []
      else sort_key to_address
        (filter_map id
          (arrive (min 16 (max 1 concurrency))
            (map (inspect_tls xc net server_name handshake_timeout)
              (btree_set (map svc_address (filter is_implicit_tls_candidate services)))))))"

section \<open>Lemmas\<close>

lemma add_error_simps [simp]:
  "to_address (add_error m t) = to_address t"
  "to_handshake_succeeded (add_error m t) = to_handshake_succeeded t"
  "to_certificate_trusted (add_error m t) = to_certificate_trusted t"
  "to_subject_alt_names (add_error m t) = to_subject_alt_names t"
  by (simp_all add: add_error_def)

lemma inspect_leaf_simps [simp]:
  "to_address (inspect_leaf xc leaf t) = to_address t"
  "to_handshake_succeeded (inspect_leaf xc leaf t) = to_handshake_succeeded t"
  "to_certificate_trusted (inspect_leaf xc leaf t) = to_certificate_trusted t"
  by (simp_all add: inspect_leaf_def Let_def split: sum.split prod.split)

lemma inspect_certificates_simps [simp]:
  "to_address (inspect_certificates xc cs n b t) = to_address t"
  "to_handshake_succeeded (inspect_certificates xc cs n b t) = to_handshake_succeeded t"
  "to_certificate_trusted (inspect_certificates xc cs n b t) = to_certificate_trusted t"
  by (simp_all add: inspect_certificates_def Let_def split: prod.split list.split)

lemma failed_with_capture_simps [simp]:
  "to_address (failed_with_capture xc a s e c) = a"
  "to_handshake_succeeded (failed_with_capture xc a s e c) = False"
  "to_certificate_trusted (failed_with_capture xc a s e c) = None"
  by (simp_all add: failed_with_capture_def failed_def Let_def)

lemma connected_observation_simps [simp]:
  "to_address (connected_observation xc a s c) = a"
  "to_handshake_succeeded (connected_observation xc a s c) = True"
  by (simp_all add: connected_observation_def Let_def split: option.split)

lemma inspect_tls_address: "inspect_tls xc net s t a = Some y \<Longrightarrow> to_address y = a"
  by (auto simp: inspect_tls_def Let_def failed_def split: if_splits tls_outcome.splits)

lemma inspect_tls_trusted:
  "inspect_tls xc net s t a = Some y \<Longrightarrow> to_certificate_trusted y \<noteq> None \<Longrightarrow>
   (\<exists>c. ta_outcome (net t a) = Tls_Connected c)"
  by (auto simp: inspect_tls_def Let_def failed_def split: if_splits tls_outcome.splits)

interpretation tls: keyed_option_stage "inspect_tls xc net s t" to_address id for xc net s t
  by unfold_locales (simp add: inspect_tls_address)

lemma san_text_nonempty: "san_text g = Some n \<Longrightarrow> n \<noteq> []"
  by (auto simp: san_text_def Let_def split: option.splits list.splits)

lemma san_loop_ok:
  assumes "distinct names" and "length names \<le> MAX_SUBJECT_ALT_NAMES" and "[] \<notin> set names"
    and "set names \<subseteq> set seen" and "san_loop names seen gs = (names', truncated)"
  shows "distinct names' \<and> length names' \<le> MAX_SUBJECT_ALT_NAMES \<and> [] \<notin> set names' \<and>
    (truncated \<longrightarrow> length names' = MAX_SUBJECT_ALT_NAMES) \<and>
    (\<not> truncated \<longrightarrow> set names' = set names \<union> ({n. Some n \<in> san_text ` set gs} - set seen))"
  using assms
proof (induction gs arbitrary: names seen)
  case (Cons g gs)
  show ?case
  proof (cases "san_text g")
    case None
    with Cons.IH [of names seen] Cons.prems show ?thesis by simp
  next
    case (Some n)
    then have n: "n \<noteq> []" by (rule san_text_nonempty)
    consider (old) "n \<in> set seen" | (full) "n \<notin> set seen" "length names = MAX_SUBJECT_ALT_NAMES"
      | (new) "n \<notin> set seen" "length names < MAX_SUBJECT_ALT_NAMES"
      using Cons.prems(2) by fastforce
    then show ?thesis
    proof cases
      case old
      with Some Cons.prems have "san_loop names seen gs = (names', truncated)" by simp
      from Cons.IH [OF Cons.prems(1-4) this] old Some show ?thesis by auto
    next
      case full
      with Some Cons.prems show ?thesis by simp
    next
      case new
      then have prems: "distinct (push names n)" "length (push names n) \<le> MAX_SUBJECT_ALT_NAMES"
        "[] \<notin> set (push names n)" "set (push names n) \<subseteq> set (n # seen)"
        using Cons.prems n by (auto simp: push_def)
      have "san_loop (push names n) (n # seen) gs = (names', truncated)"
        using new Some Cons.prems by simp
      from Cons.IH [OF prems this] new Some show ?thesis by auto
    qed
  qed
qed auto

lemma bit_count_bounds: "0 < n \<Longrightarrow> 2 ^ (bit_count n - 1) \<le> n \<and> n < 2 ^ bit_count n \<and> 0 < bit_count n"
proof (induction n rule: bit_count.induct)
  case (1 n)
  have step: "bit_count n = Suc (bit_count (n div 2))" using 1(2) by (simp add: bit_count.simps [of n])
  show ?case
  proof (cases "n div 2 = 0")
    case True
    with 1(2) have "n = 1" by presburger
    then show ?thesis by (simp add: bit_count.simps)
  next
    case False
    then have IH: "2 ^ (bit_count (n div 2) - 1) \<le> n div 2" "n div 2 < 2 ^ bit_count (n div 2)"
      "0 < bit_count (n div 2)"
      using 1 by simp_all
    then obtain k where k: "bit_count (n div 2) = Suc k" by (cases "bit_count (n div 2)") auto
    from IH k show ?thesis by (simp add: step) linarith
  qed
qed

definition modulus_value :: "bytes \<Rightarrow> nat" where
  "modulus_value modulus = be_value 256 (map byte modulus)"

lemma modulus_bits:
  assumes "byte b \<noteq> 0"
  shows "let k = length rest * 8 + bit_count (byte b)
    in 0 < k \<and> 2 ^ (k - 1) \<le> modulus_value (b # rest) \<and> modulus_value (b # rest) < 2 ^ k"
proof -
  let ?n = "length rest" and ?c = "bit_count (byte b)"
  have b: "2 ^ (?c - 1) \<le> byte b" "byte b + 1 \<le> 2 ^ ?c" "0 < ?c"
    using bit_count_bounds [of "byte b"] assms by simp_all
  have pow: "(256::nat) ^ ?n = 2 ^ (?n * 8)" using power_mult [of "2::nat" 8 ?n] by (simp add: mult.commute)
  have v: "modulus_value (b # rest) = byte b * 2 ^ (?n * 8) + be_value 256 (map byte rest)"
    by (simp add: modulus_value_def be_value_Cons pow)
  have r: "be_value 256 (map byte rest) < 2 ^ (?n * 8)"
    using be_value_bound [of 256 "map byte rest"] by (simp add: list_all_iff pow)
  have "2 ^ (?n * 8 + ?c - 1) = 2 ^ (?c - 1) * (2::nat) ^ (?n * 8)"
    using b(3) by (simp add: power_add [symmetric])
  also have "\<dots> \<le> byte b * 2 ^ (?n * 8)" using b(1) by (rule mult_le_mono1)
  finally have low: "2 ^ (?n * 8 + ?c - 1) \<le> modulus_value (b # rest)" using v by simp
  have "modulus_value (b # rest) < (byte b + 1) * 2 ^ (?n * 8)" using v r by simp
  also have "\<dots> \<le> 2 ^ ?c * 2 ^ (?n * 8)" using b(2) by (rule mult_le_mono1)
  finally have "modulus_value (b # rest) < 2 ^ (?n * 8 + ?c)" by (simp add: power_add mult.commute)
  with low b(3) show ?thesis by (simp add: Let_def)
qed

lemma modulus_value_zero: "byte b = 0 \<Longrightarrow> modulus_value (b # rest) = modulus_value rest"
  by (simp add: modulus_value_def be_value_Cons)

section \<open>Properties\<close>

text \<open>
  A reported RSA key size is the exact bit length of the modulus read as a big-endian integer, with
  or without the sign byte of its DER encoding; the other encodings (empty, negative, redundant zeros)
  report none.
\<close>

theorem rsa_modulus_bits_exact:
  "case rsa_modulus_bits modulus of
     Some k \<Rightarrow> 0 < k \<and> 2 ^ (k - 1) \<le> modulus_value modulus \<and> modulus_value modulus < 2 ^ k
   | None \<Rightarrow> modulus = [] \<or> high_bit (hd modulus)
       \<or> byte (hd modulus) = 0 \<and> (tl modulus = [] \<or> \<not> high_bit (hd (tl modulus)))"
proof (cases modulus)
  case Nil
  then show ?thesis by (simp add: rsa_modulus_bits_def)
next
  case (Cons b rest)
  show ?thesis
  proof (cases "byte b = 0")
    case True
    show ?thesis
    proof (cases "rest \<noteq> [] \<and> high_bit (hd rest)")
      case False
      with Cons True show ?thesis by (cases rest) (simp_all add: rsa_modulus_bits_def)
    next
      case sign: True
      then obtain c rest' where rest: "rest = c # rest'" by (cases rest) auto
      with sign have "byte c \<noteq> 0" by (simp add: high_bit_def)
      from modulus_bits [OF this, of rest'] show ?thesis
        using Cons True rest sign by (simp add: rsa_modulus_bits_def modulus_value_zero Let_def)
    qed
  next
    case False
    show ?thesis
    proof (cases "high_bit b")
      case True
      with Cons False show ?thesis by (simp add: rsa_modulus_bits_def)
    next
      case low: False
      from modulus_bits [OF False, of rest] show ?thesis
        using Cons False low by (simp add: rsa_modulus_bits_def Let_def)
    qed
  qed
qed

theorem rsa_modulus_bits_exact_witness:
  "2 ^ 8 \<le> modulus_value [CHR 0x01, CHR 0xFF] \<and> modulus_value [CHR 0x01, CHR 0xFF] < 2 ^ 9"
proof -
  have "rsa_modulus_bits [CHR 0x01, CHR 0xFF] = Some 9" by code_simp
  with rsa_modulus_bits_exact [of "[CHR 0x01, CHR 0xFF]"] show ?thesis by simp
qed

text \<open>
  TLS analysis is deterministic: with a fair pool the observations are the per-address observations
  in address order, whatever order the handshakes finish in, one for each address of an implicit-TLS
  candidate that was not cancelled; and a certificate is called trusted only at an address where the
  validating handshake succeeded.
\<close>

theorem analyze_tls_deterministic:
  fixes services and net
  defines "addresses \<equiv> btree_set (map svc_address (filter is_implicit_tls_candidate services))"
  assumes "fair_pool arrive"
  shows "analyze_tls arrive xc True net services name n t =
      filter_map (inspect_tls xc net name t) addresses \<and>
    (\<forall>y \<in> set (analyze_tls arrive xc True net services name n t).
      to_address y \<in> set addresses \<and>
      (to_certificate_trusted y \<noteq> None \<longrightarrow> (\<exists>c. ta_outcome (net t (to_address y)) = Tls_Connected c)))"
proof
  let ?arrived = "arrive (min 16 (max 1 n)) (map (inspect_tls xc net name t) addresses)"
  have "mset (filter_map id ?arrived) = mset (filter_map (inspect_tls xc net name t) addresses)"
    using mset_filter_map [OF fair_pool_mset [OF assms(2), of "min 16 (max 1 n)"], of id] by simp
  from tls.arrival_order_invisible [OF this] have
    "sort_key to_address (filter_map id ?arrived) =
      filter_map (inspect_tls xc net name t) (sort_key id addresses)" by simp
  moreover have "sort_key id addresses = addresses"
    using sorted_sort_id [OF sorted_btree_set] by (simp add: id_def addresses_def)
  ultimately show *: "analyze_tls arrive xc True net services name n t =
      filter_map (inspect_tls xc net name t) addresses"
    by (simp add: analyze_tls_def addresses_def)
  show "\<forall>y \<in> set (analyze_tls arrive xc True net services name n t).
      to_address y \<in> set addresses \<and>
      (to_certificate_trusted y \<noteq> None \<longrightarrow> (\<exists>c. ta_outcome (net t (to_address y)) = Tls_Connected c))"
    unfolding * set_filter_map by (metis inspect_tls_address inspect_tls_trusted set_filter_map)
qed

definition sample_x509_crate :: x509_crate where
  "sample_x509_crate = \<lparr>xc_parse = (\<lambda>bs. Inl ''unreadable''), xc_sha256_hex = (\<lambda>bs. ''00'')\<rparr>"

definition sample_tls_net :: "nat \<Rightarrow> socket_addr \<Rightarrow> tls_attempt" where
  \<comment> \<open>every handshake times out\<close>
  "sample_tls_net t a = \<lparr>ta_cancelled = False, ta_configured = True, ta_presented = None, ta_outcome = Tls_Elapsed\<rparr>"

theorem analyze_tls_deterministic_witness:
  "analyze_tls (\<lambda>n. rev) sample_x509_crate True sample_tls_net
      [hint_observation (SocketAddr (V4 1) 8443), hint_observation (SocketAddr (V4 1) 443)] ''h'' 8 1000 =
   filter_map (inspect_tls sample_x509_crate sample_tls_net ''h'' 1000)
     (btree_set (map svc_address (filter is_implicit_tls_candidate
       [hint_observation (SocketAddr (V4 1) 8443), hint_observation (SocketAddr (V4 1) 443)])))"
  by (rule analyze_tls_deterministic [THEN conjunct1]) simp

end
