(* ===== verification/Findings.thy ===== *)
theory Findings
  imports Dns Http Tls
begin

text \<open>
  The interpretation of observations into findings, \<^verbatim>\<open>crates/surface-core/src/findings.rs\<close>: one
  definition per group of rules, each the list of findings its Rust function pushes, then their
  deduplication and order. Timestamps are seconds since the Unix epoch.
\<close>

section \<open>Data\<close>

datatype severity = Sev_Info | Sev_Low | Sev_Medium | Sev_High | Sev_Critical

fun severity_rank :: "severity \<Rightarrow> nat" where
  "severity_rank Sev_Info = 0"
| "severity_rank Sev_Low = 1"
| "severity_rank Sev_Medium = 2"
| "severity_rank Sev_High = 3"
| "severity_rank Sev_Critical = 4"

lemma severity_rank_inj: "severity_rank a = severity_rank b \<longleftrightarrow> a = b"
  by (cases a; cases b) simp_all

instantiation severity :: linorder
begin

definition less_eq_severity :: "severity \<Rightarrow> severity \<Rightarrow> bool" where
  "a \<le> b \<longleftrightarrow> severity_rank a \<le> severity_rank b"

definition less_severity :: "severity \<Rightarrow> severity \<Rightarrow> bool" where
  "a < b \<longleftrightarrow> severity_rank a < severity_rank b"

instance
  by intro_classes (auto simp: less_eq_severity_def less_severity_def severity_rank_inj [symmetric])

end

datatype finding_category = Cat_Network | Cat_Http | Cat_Tls | Cat_Mail

datatype finding_confidence = FConf_Low | FConf_Medium | FConf_High

record evidence =
  evd_location :: string
  evd_observed :: string

record finding =
  fnd_id :: string
  fnd_title :: string
  fnd_severity :: severity
  fnd_category :: finding_category
  fnd_target :: string
  fnd_description :: string
  fnd_evidence :: "evidence list"
  fnd_remediation :: "string option"
  fnd_references :: "string list"
  fnd_confidence :: finding_confidence

definition finding_of ::
    "string \<Rightarrow> string \<Rightarrow> severity \<Rightarrow> finding_category \<Rightarrow> string \<Rightarrow> string \<Rightarrow> string \<Rightarrow> string \<Rightarrow>
     string option \<Rightarrow> finding_confidence \<Rightarrow> finding" where
  "finding_of rule title severity category target description location observed remediation confidence =
     \<lparr>fnd_id = rule, fnd_title = title, fnd_severity = severity, fnd_category = category,
      fnd_target = target, fnd_description = description,
      fnd_evidence = [\<lparr>evd_location = location, evd_observed = observed\<rparr>],
      fnd_remediation = remediation, fnd_references = [], fnd_confidence = confidence\<rparr>"

definition with_references :: "finding \<Rightarrow> string list \<Rightarrow> finding" where
  "with_references f references = f\<lparr>fnd_references := references\<rparr>"

definition RSA_ENCRYPTION_OID :: string where
  "RSA_ENCRYPTION_OID = ''1.2.840.113549.1.1.1''"

definition SHA1_SIGNATURE_OIDS :: "string list" where
  "SHA1_SIGNATURE_OIDS = [''1.2.840.113549.1.1.5'', ''1.2.840.10040.4.3'', ''1.2.840.10045.4.1'']"

definition NIST_SP_800_131A_REV2 :: string where
  "NIST_SP_800_131A_REV2 = ''https://doi.org/10.6028/NIST.SP.800-131Ar2''"

definition rfc_reference :: "string \<Rightarrow> string" where
  \<comment> \<open>the constants \<open>RFC_3279\<close>, \<open>RFC_8996\<close>, \<open>RFC_4253\<close>, \<open>RFC_9142\<close>, \<open>RFC_8758\<close>, \<open>RFC_6151\<close>\<close>
  "rfc_reference number = ''https://www.rfc-editor.org/rfc/rfc'' @ number @ ''.html''"

section \<open>DNS and mail rules\<close>

definition directly_observed_nxdomain :: "dns_observation \<Rightarrow> cname_hop \<Rightarrow> bool" where
  "directly_observed_nxdomain dns hop \<longleftrightarrow>
     list_ex (\<lambda>observation.
         dg_status observation = Dangling_NxDomain \<and>
         eq_ignore_ascii_case (dg_canonical_target observation) (hop_to hop) \<and>
         list_ex (\<lambda>observed_hop.
             eq_ignore_ascii_case (hop_from observed_hop) (dg_source_alias observation) \<and>
             eq_ignore_ascii_case (hop_to observed_hop) (dg_canonical_target observation))
           (dns_cname_chain dns))
       (dns_dangling_cnames dns)"

definition dangling_finding :: "string \<Rightarrow> cname_hop \<Rightarrow> finding" where
  "dangling_finding target hop =
     finding_of ''DNS-CNAME-DANGLING-INDICATOR'' ''Potential dangling CNAME'' Sev_Medium Cat_Network target
       ''A directly observed primary-target CNAME destination returned conclusive NXDOMAIN across the selected address queries. This is a potential dangling CNAME indicator; ownership, claimability, and takeover feasibility were not tested.''
       ''Primary CNAME chain'' (hop_from hop @ '' -> '' @ hop_to hop @ ''; status=NXDOMAIN'')
       (Some ''Review whether the CNAME destination is still required and controlled by the intended owner.'')
       FConf_Medium"

definition dangling_cname_findings :: "string \<Rightarrow> dns_observation \<Rightarrow> finding list" where
  "dangling_cname_findings target dns =
     map (dangling_finding target)
       (retain_new (\<lambda>hop. to_ascii_lowercase (hop_to hop)) []
         (filter (directly_observed_nxdomain dns) (dns_cname_chain dns)))"

definition wildcard_finding :: "string \<Rightarrow> string \<Rightarrow> finding" where
  "wildcard_finding target observed =
     finding_of ''DNS-WILDCARD-DETECTED'' ''Wildcard DNS answers detected'' Sev_Info Cat_Network target
       ''Two random child names returned identical non-empty DNS answer fingerprints. This is contextual routing evidence and is not automatically a vulnerability.''
       ''Wildcard DNS detection'' observed None FConf_High"

definition wildcard_findings :: "string \<Rightarrow> dns_observation \<Rightarrow> finding list" where
  \<comment> \<open>the second rule of \<open>dns_findings\<close>\<close>
  "wildcard_findings target dns =
     (case dns_wildcard_dns dns of
        None \<Rightarrow> []
      | Some wildcard \<Rightarrow>
          if wild_status wildcard \<noteq> Wild_Detected then []
          else let answer_types = join '','' (map wildcard_record_type_str (wild_answer_types wildcard))
            in [wildcard_finding target
                  (''probes_attempted='' @ show_nat (wild_probes_attempted wildcard) @ ''; answer_types='' @
                   (if answer_types = [] then ''none'' else answer_types) @ ''; fingerprints='' @
                   show_nat (length (wild_answer_fingerprints wildcard)))])"

definition show_attempt :: "axfr_attempt \<Rightarrow> string" where
  "show_attempt attempt =
     att_server attempt @ '' ('' @ show_socket (att_endpoint attempt) @ ''): complete, '' @
     show_nat (att_messages attempt) @ '' messages, '' @ show_nat (att_records attempt) @
     '' records, '' @ show_nat (att_bytes attempt) @ '' bytes''"

definition axfr_finding :: "string \<Rightarrow> string \<Rightarrow> finding" where
  "axfr_finding target allowed =
     finding_of ''DNS-AXFR-ALLOWED'' ''Authoritative zone transfer is allowed'' Sev_High Cat_Network target
       ''An authoritative server returned a complete SOA-delimited AXFR over TCP.''
       ''Authoritative AXFR'' allowed
       (Some ''Restrict AXFR to explicitly authorized secondary DNS servers.'') FConf_High"

definition axfr_findings :: "string \<Rightarrow> dns_observation \<Rightarrow> finding list" where
  \<comment> \<open>the third rule of \<open>dns_findings\<close>\<close>
  "axfr_findings target dns =
     (case dns_authoritative_axfr dns of
        None \<Rightarrow> []
      | Some axfr \<Rightarrow>
          let allowed = join '' | ''
            (map show_attempt (filter (\<lambda>a. att_outcome a = Axfr_Allowed) (axfr_attempts axfr)))
          in if allowed = [] then [] else [axfr_finding target allowed])"

definition dnssec_finding :: "string \<Rightarrow> string \<Rightarrow> finding" where
  "dnssec_finding target observed =
     finding_of ''DNS-DNSSEC-BOGUS'' ''DNSSEC validation is bogus'' Sev_High Cat_Network target
       ''Hickory Resolver cryptographically classified at least one selected primary-host RRset as bogus.''
       ''DNSSEC validation'' observed
       (Some (''Inspect the zone'' @ [CHR 0x27] @ ''s DS, DNSKEY, and RRSIG chain and repair invalid or missing signed data.''))
       FConf_High"

definition dnssec_findings :: "string \<Rightarrow> dns_observation \<Rightarrow> finding list" where
  \<comment> \<open>the last rule of \<open>dns_findings\<close>\<close>
  "dnssec_findings target dns =
     (case dns_dnssec dns of
        None \<Rightarrow> []
      | Some dnssec \<Rightarrow>
          if dnssec_status dnssec \<noteq> Dnssec_Bogus then []
          else let observed = join '' | ''
              (map (\<lambda>r. rrset_name r @ '' '' @ dnssec_record_type_str (rrset_record_type r) @ '': bogus'')
                (filter (\<lambda>r. rrset_status r = Dnssec_Bogus) (dnssec_checked_rrsets dnssec)))
            in [dnssec_finding target
                  (if observed = [] then ''aggregate DNSSEC status: bogus'' else observed)])"

definition dns_findings :: "string \<Rightarrow> dns_observation \<Rightarrow> finding list" where
  "dns_findings target dns =
     dangling_cname_findings target dns @ wildcard_findings target dns @ axfr_findings target dns @
     dnssec_findings target dns"

definition spf_finding :: "string \<Rightarrow> string \<Rightarrow> finding" where
  "spf_finding target observed =
     finding_of ''MAIL-SPF-MULTIPLE'' ''Multiple SPF records observed'' Sev_Medium Cat_Mail target
       ''Multiple SPF records can cause SPF evaluation to return a permanent error.''
       ''DNS TXT'' observed (Some ''Publish exactly one SPF record.'') FConf_High"

definition dmarc_finding :: "string \<Rightarrow> string \<Rightarrow> finding" where
  "dmarc_finding target observed =
     finding_of ''MAIL-DMARC-MONITORING'' ''DMARC policy is monitoring-only'' Sev_Low Cat_Mail target
       ''The observed DMARC p=none policy requests reporting without receiver enforcement.''
       ''_dmarc TXT'' observed
       (Some ''After validating mail sources, consider an enforcement policy appropriate for the domain.'')
       FConf_High"

definition mail_findings :: "string \<Rightarrow> dns_observation \<Rightarrow> finding list" where
  "mail_findings target dns =
     (if 1 < length (spf_records (mail_spf (dns_mail dns)))
      then [spf_finding target (join '' | '' (spf_records (mail_spf (dns_mail dns))))] else []) @
     (case mail_dmarc (dns_mail dns) of
        [] \<Rightarrow> []
      | dmarc # _ \<Rightarrow>
          if dmarc_policy dmarc = Some ''none'' then [dmarc_finding target (dmarc_record dmarc)] else [])"

section \<open>Network rules\<close>

definition DATABASE_PORTS :: "u16 list" where
  "DATABASE_PORTS =
     [1433, 1521, 2483, 2484, 3306, 5432, 6379, 7474, 7687, 8123, 9000, 9042, 9200, 11211, 27017, 33060]"

definition database_finding :: "socket_addr \<Rightarrow> finding" where
  "database_finding address =
     finding_of ''NET-DATABASE-EXPOSED'' ''Database-like TCP service is reachable'' Sev_High Cat_Network
       (show_socket address)
       ''A TCP connection succeeded on a port commonly used by database or data-store software; the product was not inferred solely from the port.''
       ''TCP connect'' ''open''
       (Some ''Restrict network access unless this listener is intentionally exposed.'') FConf_Medium"

definition database_findings :: "host_observation list \<Rightarrow> finding list" where
  \<comment> \<open>the first loop of \<open>exposure_findings\<close>\<close>
  "database_findings hosts =
     concat (map (\<lambda>host. map (\<lambda>port. database_finding (po_address port))
       (filter (\<lambda>port. sa_port (po_address port) \<in> set DATABASE_PORTS)
         (filter (\<lambda>port. po_transport port = Tcp \<and> po_state port = Open) (host_ports host)))) hosts)"

definition legacy_ssh_table :: "ssh_algorithm_selections \<Rightarrow> (string \<times> string \<times> string) list" where
  \<comment> \<open>key, selected algorithm, legacy algorithm\<close>
  "legacy_ssh_table s =
     [(''ssh_kex'', sel_kex s, ''diffie-hellman-group14-sha1''),
      (''ssh_kex'', sel_kex s, ''diffie-hellman-group1-sha1''),
      (''ssh_host_key_algorithm'', sel_host_key s, ''ssh-rsa''),
      (''ssh_host_key_algorithm'', sel_host_key s, ''ssh-dss''),
      (''ssh_cipher_c2s'', sel_cipher_c2s s, ''3des-cbc''),
      (''ssh_cipher_c2s'', sel_cipher_c2s s, ''arcfour''),
      (''ssh_cipher_c2s'', sel_cipher_c2s s, ''arcfour128''),
      (''ssh_cipher_c2s'', sel_cipher_c2s s, ''arcfour256''),
      (''ssh_cipher_s2c'', sel_cipher_s2c s, ''3des-cbc''),
      (''ssh_cipher_s2c'', sel_cipher_s2c s, ''arcfour''),
      (''ssh_cipher_s2c'', sel_cipher_s2c s, ''arcfour128''),
      (''ssh_cipher_s2c'', sel_cipher_s2c s, ''arcfour256''),
      (''ssh_mac_c2s'', sel_mac_c2s s, ''hmac-sha1''),
      (''ssh_mac_c2s'', sel_mac_c2s s, ''hmac-md5''),
      (''ssh_mac_c2s'', sel_mac_c2s s, ''hmac-md5-96''),
      (''ssh_mac_s2c'', sel_mac_s2c s, ''hmac-sha1''),
      (''ssh_mac_s2c'', sel_mac_s2c s, ''hmac-md5''),
      (''ssh_mac_s2c'', sel_mac_s2c s, ''hmac-md5-96'')]"

definition legacy_finding :: "socket_addr \<Rightarrow> string \<Rightarrow> finding" where
  "legacy_finding address observed =
     with_references
       (finding_of ''NET-SSH-LEGACY-ALGORITHM'' ''SSH KEXINIT inferred a legacy algorithm selection'' Sev_Medium
          Cat_Network (show_socket address)
          ''RFC 4253 client-first KEXINIT preference intersection inferred the listed legacy selection before any completed key exchange. Surface closed after KEXINIT, so no cryptographic negotiation completed, and this does not establish server preference.''
          ''SSH KEXINIT client-first preference intersection'' observed
          (Some ''Disable obsolete SSH algorithms after confirming required client compatibility.'')
          FConf_Medium)
       [rfc_reference ''4253'', rfc_reference ''9142'', rfc_reference ''8758'', rfc_reference ''6151'',
        NIST_SP_800_131A_REV2]"

definition ssh_legacy_finding :: "service_observation \<Rightarrow> finding option" where
  "ssh_legacy_finding service =
     (case svc_ssh service of
        None \<Rightarrow> None
      | Some posture \<Rightarrow>
          (case ssh_outcome posture of
             Ssh_Complete selections \<Rightarrow>
               let legacy =
                 map (\<lambda>(key, _, algorithm). key @ ''='' @ algorithm)
                   (filter (\<lambda>(_, selected, legacy). selected = legacy) (legacy_ssh_table selections))
               in if legacy = [] then None
                  else Some (legacy_finding (svc_address service) (join '', '' legacy))
           | _ \<Rightarrow> None))"

definition ssh_reachable_finding :: "service_observation \<Rightarrow> finding" where
  "ssh_reachable_finding service =
     finding_of ''NET-SSH-REACHABLE'' ''SSH service is externally reachable'' Sev_Info Cat_Network
       (show_socket (svc_address service))
       ''Surface received an SSH identification banner from the endpoint.'' ''service banner''
       (case svc_banner service of Some b \<Rightarrow> b | None \<Rightarrow> ''SSH identification received'')
       (Some ''Confirm that access controls and authentication policy match operational requirements.'')
       FConf_High"

definition ssh_findings :: "service_observation list \<Rightarrow> finding list" where
  \<comment> \<open>the second loop of \<open>exposure_findings\<close>\<close>
  "ssh_findings services =
     concat (map (\<lambda>service. ssh_reachable_finding service #
         (case ssh_legacy_finding service of Some legacy \<Rightarrow> [legacy] | None \<Rightarrow> []))
       (filter (\<lambda>service. svc_service service = Svc_Ssh) services))"

definition smtp_without_starttls :: "service_observation \<Rightarrow> bool" where
  "smtp_without_starttls service \<longleftrightarrow>
     svc_service service = Svc_Smtp \<and> svc_confidence service = Conf_High \<and>
     (case svc_banner service of Some b \<Rightarrow> str_contains b ''250'' | None \<Rightarrow> False) \<and>
     map_of (svc_details service) ''starttls'' = None"

definition smtp_finding :: "service_observation \<Rightarrow> finding" where
  "smtp_finding service =
     finding_of ''MAIL-SMTP-STARTTLS-NOT-ADVERTISED'' ''SMTP service did not advertise STARTTLS'' Sev_Medium
       Cat_Mail (show_socket (svc_address service))
       ''A bounded EHLO exchange completed, but the observed capability list did not advertise STARTTLS.''
       ''SMTP EHLO capabilities''
       (case svc_banner service of Some b \<Rightarrow> b | None \<Rightarrow> ''EHLO response received'')
       (Some ''Review whether transport encryption should be offered on this SMTP endpoint.'') FConf_High"

definition exposure_findings ::
    "string \<Rightarrow> host_observation list \<Rightarrow> service_observation list \<Rightarrow> finding list" where
  "exposure_findings target hosts services =
     database_findings hosts @ ssh_findings services @
     map smtp_finding (filter smtp_without_starttls services)"

section \<open>HTTP rules\<close>

definition status_text :: "http_observation \<Rightarrow> string" where
  \<comment> \<open>\<open>format!("status {}", status.unwrap_or_default())\<close>\<close>
  "status_text o1 = ''status '' @ show_nat (case ho_status o1 of Some st \<Rightarrow> unat st | None \<Rightarrow> 0)"

definition no_https_redirect_finding :: "string \<Rightarrow> http_observation \<Rightarrow> finding" where
  "no_https_redirect_finding target o1 =
     finding_of ''HTTP-NO-HTTPS-REDIRECT'' ''HTTP endpoint did not redirect to HTTPS'' Sev_Medium Cat_Http target
       ''The observed HTTP request completed without a same-host redirect to HTTPS.''
       (ho_url o1) (status_text o1)
       (Some ''Redirect plaintext HTTP requests to an HTTPS endpoint when appropriate.'') FConf_High"

definition hsts_finding :: "string \<Rightarrow> http_observation \<Rightarrow> finding" where
  "hsts_finding target o1 =
     finding_of ''HTTP-HSTS-MISSING'' ''HSTS header missing'' Sev_Medium Cat_Http target
       ''The confirmed HTTPS endpoint returned no Strict-Transport-Security header.''
       (ho_url o1) (status_text o1)
       (Some ''Evaluate and deploy an appropriate Strict-Transport-Security policy.'') FConf_High"

definition downgrade_finding :: "string \<Rightarrow> http_observation \<Rightarrow> redirect_observation \<Rightarrow> finding" where
  "downgrade_finding target o1 redirect =
     finding_of ''HTTP-HTTPS-DOWNGRADE'' ''HTTPS redirects to HTTP'' Sev_High Cat_Http target
       ''The HTTPS endpoint redirected to a plaintext HTTP URL.''
       (ho_url o1) (rd_to redirect) (Some ''Keep redirects on HTTPS.'') FConf_High"

definition disclosure_finding :: "string \<Rightarrow> http_observation \<Rightarrow> finding" where
  "disclosure_finding target o1 =
     finding_of ''HTTP-VERSION-DISCLOSURE'' ''Server implementation header disclosed'' Sev_Info Cat_Http target
       ''The endpoint returned Server or X-Powered-By metadata; this is informational and does not prove a vulnerability.''
       (ho_url o1)
       (case map_of (ho_headers o1) ''server'' of
          Some v \<Rightarrow> v
        | None \<Rightarrow> (case map_of (ho_headers o1) ''x-powered-by'' of Some v \<Rightarrow> v | None \<Rightarrow> ''present''))
       (Some ''Remove unnecessary product/version detail where operationally practical.'') FConf_High"

definition security_txt_finding :: "string \<Rightarrow> finding" where
  "security_txt_finding target =
     finding_of ''HTTP-SECURITY-TXT-MISSING'' ''security.txt not found'' Sev_Info Cat_Http target
       ''The well-known security.txt path returned HTTP 404.''
       ''/.well-known/security.txt'' ''not found''
       (Some ''Consider publishing RFC 9116 contact information.'') FConf_High"

definition http_findings_of :: "string \<Rightarrow> http_observation \<Rightarrow> finding list" where
  \<comment> \<open>the body of the loop of \<open>http_findings\<close>\<close>
  "http_findings_of target o1 =
     (let https = starts_with (ho_url o1) ''https://'';
          redirects_to_https = list_ex (\<lambda>r. starts_with (rd_to r) ''https://'') (ho_redirects o1);
          redirects_to_http = find (\<lambda>r. starts_with (rd_to r) ''http://'') (ho_redirects o1)
      in (if \<not> https \<and> \<not> starts_with (effective_url o1) ''https://'' \<and> \<not> redirects_to_https
          then [no_https_redirect_finding target o1] else []) @
         (if hsts_state o1 = Hsts_Missing then [hsts_finding target o1] else []) @
         (if https then (case redirects_to_http of
              Some redirect \<Rightarrow> [downgrade_finding target o1 redirect] | None \<Rightarrow> []) else []) @
         (if map_of (ho_headers o1) ''server'' \<noteq> None \<or> map_of (ho_headers o1) ''x-powered-by'' \<noteq> None
          then [disclosure_finding target o1] else []) @
         (if ho_security_txt o1 = Some False then [security_txt_finding target] else []))"

definition http_findings :: "string \<Rightarrow> http_observation list \<Rightarrow> finding list" where
  "http_findings target observations =
     concat (map (http_findings_of target) (filter (\<lambda>o1. ho_status o1 \<noteq> None) observations))"

section \<open>TLS rules\<close>

definition weak_rsa_finding :: "string \<Rightarrow> tls_observation \<Rightarrow> nat \<Rightarrow> finding" where
  "weak_rsa_finding target o1 bits =
     with_references
       (finding_of ''TLS-CERT-WEAK-RSA-KEY'' ''TLS leaf certificate uses a weak RSA key'' Sev_Medium Cat_Tls target
          ''The parsed leaf SubjectPublicKeyInfo uses the exact rsaEncryption OID and reports an RSA modulus smaller than 2048 bits.''
          (show_socket (to_address o1))
          (''public_key_algorithm='' @ RSA_ENCRYPTION_OID @ '', public_key_bits='' @ show_nat bits)
          (Some ''Replace the leaf certificate with one using an RSA key of at least 2048 bits or an appropriate modern alternative.'')
          FConf_High)
       [NIST_SP_800_131A_REV2, rfc_reference ''3279'']"

definition sha1_finding :: "string \<Rightarrow> tls_observation \<Rightarrow> string \<Rightarrow> finding" where
  "sha1_finding target o1 algorithm =
     with_references
       (finding_of ''TLS-CERT-SHA1-SIGNATURE'' ''TLS leaf certificate uses a SHA-1 signature'' Sev_Medium Cat_Tls target
          ''The parsed leaf certificate signatureAlgorithm exactly identifies SHA-1 with RSA, DSA, or ECDSA.''
          (show_socket (to_address o1)) (''signature_algorithm='' @ algorithm)
          (Some ''Replace the leaf certificate with one signed using SHA-256 or stronger.'') FConf_High)
       [NIST_SP_800_131A_REV2, rfc_reference ''3279'']"

definition obsolete_protocol_finding :: "string \<Rightarrow> tls_observation \<Rightarrow> string \<Rightarrow> finding" where
  "obsolete_protocol_finding target o1 version =
     with_references
       (finding_of ''TLS-OBSOLETE-PROTOCOL'' ''TLS endpoint negotiated an obsolete protocol'' Sev_Medium Cat_Tls target
          ''The directly observed negotiated protocol version is TLS 1.0 or TLS 1.1, which RFC 8996 deprecates.''
          (show_socket (to_address o1)) (''protocol_version='' @ version)
          (Some ''Disable TLS 1.0 and TLS 1.1; require TLS 1.2 or later.'') FConf_High)
       [rfc_reference ''8996'']"

definition tls_weakness_findings :: "string \<Rightarrow> tls_observation \<Rightarrow> finding list" where
  "tls_weakness_findings target o1 =
     (case to_public_key_bits o1 of
        Some bits \<Rightarrow>
          if to_public_key_algorithm o1 = Some RSA_ENCRYPTION_OID \<and> bits \<noteq> 0 \<and> bits < 2048
          then [weak_rsa_finding target o1 bits] else []
      | None \<Rightarrow> []) @
     (case to_signature_algorithm o1 of
        Some algorithm \<Rightarrow>
          if algorithm \<in> set SHA1_SIGNATURE_OIDS then [sha1_finding target o1 algorithm] else []
      | None \<Rightarrow> []) @
     (case to_protocol_version o1 of
        Some version \<Rightarrow>
          if version \<in> {''TLSv1_0'', ''TLSv1_1''} then [obsolete_protocol_finding target o1 version] else []
      | None \<Rightarrow> [])"

definition validation_failed_finding :: "string \<Rightarrow> tls_observation \<Rightarrow> finding" where
  "validation_failed_finding target o1 =
     finding_of ''TLS-VALIDATION-FAILED'' ''Validating TLS handshake failed'' Sev_High Cat_Tls target
       ''The expected TLS endpoint did not complete the certificate-validating handshake.''
       (show_socket (to_address o1))
       (case to_errors o1 of e # _ \<Rightarrow> e | [] \<Rightarrow> ''handshake failed'')
       (Some ''Inspect the certificate chain, identity, validity period, and TLS configuration.'') FConf_Medium"

definition not_yet_valid_finding :: "string \<Rightarrow> tls_observation \<Rightarrow> int \<Rightarrow> finding" where
  "not_yet_valid_finding target o1 valid_from =
     finding_of ''TLS-CERT-NOT-YET-VALID'' ''TLS certificate is not yet valid'' Sev_High Cat_Tls target
       ''The observed leaf certificate validity start follows the scan time.''
       (show_socket (to_address o1)) (''valid_from_unix='' @ show_int valid_from)
       (Some ''Install a certificate whose validity period has started.'') FConf_High"

definition expired_finding :: "string \<Rightarrow> tls_observation \<Rightarrow> int \<Rightarrow> finding" where
  "expired_finding target o1 valid_until =
     finding_of ''TLS-CERT-EXPIRED'' ''TLS certificate is expired'' Sev_High Cat_Tls target
       ''The observed leaf certificate validity end precedes the scan time.''
       (show_socket (to_address o1)) (''valid_until_unix='' @ show_int valid_until)
       (Some ''Replace or renew the certificate.'') FConf_High"

definition expiring_finding :: "string \<Rightarrow> tls_observation \<Rightarrow> int \<Rightarrow> finding" where
  "expiring_finding target o1 remaining =
     finding_of ''TLS-CERT-EXPIRING'' ''TLS certificate expires soon'' Sev_Low Cat_Tls target
       ''The observed leaf certificate expires within 30 days.''
       (show_socket (to_address o1)) (''remaining_days='' @ show_int (remaining div 86400))
       (Some ''Renew the certificate before expiry.'') FConf_High"

definition expiry_findings :: "string \<Rightarrow> int \<Rightarrow> tls_observation \<Rightarrow> finding list" where
  \<comment> \<open>the \<open>else if\<close> of the last rule; \<open>remaining div 86400\<close> is printed only where it is not negative\<close>
  "expiry_findings target scan_time o1 =
     (case to_valid_until_unix o1 of
        None \<Rightarrow> []
      | Some valid_until \<Rightarrow>
          let remaining = valid_until - scan_time
          in if remaining < 0 then [expired_finding target o1 valid_until]
             else if to_handshake_succeeded o1 \<and> remaining < 30 * 24 * 60 * 60
             then [expiring_finding target o1 remaining] else [])"

definition validity_findings :: "string \<Rightarrow> int \<Rightarrow> tls_observation \<Rightarrow> finding list" where
  \<comment> \<open>the last rule of \<open>tls_findings\<close>\<close>
  "validity_findings target scan_time o1 =
     (case to_valid_from_unix o1 of
        Some valid_from \<Rightarrow>
          if scan_time < valid_from then [not_yet_valid_finding target o1 valid_from]
          else expiry_findings target scan_time o1
      | None \<Rightarrow> expiry_findings target scan_time o1)"

definition expected_tls :: "service_observation list \<Rightarrow> tls_observation \<Rightarrow> bool" where
  "expected_tls services o1 \<longleftrightarrow>
     list_ex (\<lambda>service. svc_address service = to_address o1 \<and>
       (svc_service service = Svc_Https \<or> sa_port (svc_address service) \<in> {443, 8443})) services"

definition tls_findings_of ::
    "string \<Rightarrow> service_observation list \<Rightarrow> int \<Rightarrow> tls_observation \<Rightarrow> finding list" where
  \<comment> \<open>the body of the loop of \<open>tls_findings\<close>\<close>
  "tls_findings_of target services scan_time o1 =
     (if expected_tls services o1 \<and> \<not> to_handshake_succeeded o1
      then [validation_failed_finding target o1] else []) @
     tls_weakness_findings target o1 @ validity_findings target scan_time o1"

definition tls_findings ::
    "string \<Rightarrow> service_observation list \<Rightarrow> tls_observation list \<Rightarrow> int \<Rightarrow> finding list" where
  "tls_findings target services observations scan_time =
     concat (map (tls_findings_of target services scan_time) observations)"

section \<open>All findings\<close>

definition evidence_key :: "finding \<Rightarrow> (string \<times> string) list" where
  "evidence_key f = map (\<lambda>e. (evd_location e, evd_observed e)) (fnd_evidence f)"

definition dedup_key :: "finding \<Rightarrow> string \<times> string \<times> (string \<times> string) list" where
  "dedup_key f = (fnd_id f, fnd_target f, evidence_key f)"

definition finding_order :: "finding \<Rightarrow> nat \<times> string \<times> string \<times> (string \<times> string) list" where
  \<comment> \<open>the comparison of \<open>sort_by\<close>: severity descending, then identity, target and evidence\<close>
  "finding_order f =
     (severity_rank Sev_Critical - severity_rank (fnd_severity f), fnd_id f, fnd_target f, evidence_key f)"

definition raw_findings ::
    "string \<Rightarrow> dns_observation option \<Rightarrow> host_observation list \<Rightarrow> service_observation list \<Rightarrow>
     http_observation list \<Rightarrow> tls_observation list \<Rightarrow> int \<Rightarrow> finding list" where
  \<comment> \<open>\<open>generate_findings\<close> before \<open>retain\<close>\<close>
  "raw_findings target dns hosts services http tls scan_time =
     (case dns of Some d \<Rightarrow> dns_findings target d @ mail_findings target d | None \<Rightarrow> []) @
     exposure_findings target hosts services @ http_findings target http @
     tls_findings target services tls scan_time"

definition generate_findings ::
    "string \<Rightarrow> dns_observation option \<Rightarrow> host_observation list \<Rightarrow> service_observation list \<Rightarrow>
     http_observation list \<Rightarrow> tls_observation list \<Rightarrow> int \<Rightarrow> finding list" where
  "generate_findings target dns hosts services http tls scan_time =
     sort_key finding_order
       (retain_new dedup_key [] (raw_findings target dns hosts services http tls scan_time))"

section \<open>The rule catalogue\<close>

definition rule_of ::
    "finding \<Rightarrow> string \<times> string \<times> severity \<times> finding_category \<times> string \<times> string option \<times> string list \<times>
     finding_confidence" where
  \<comment> \<open>what a finding has of its rule: everything but the target and the evidence\<close>
  "rule_of f =
     (fnd_id f, fnd_title f, fnd_severity f, fnd_category f, fnd_description f, fnd_remediation f,
      fnd_references f, fnd_confidence f)"

definition blank_address :: socket_addr where
  "blank_address = SocketAddr (V4 0) 0"

definition blank_http :: http_observation where
  "blank_http = error_observation blank_address [] []"

definition blank_tls :: tls_observation where
  "blank_tls = failed blank_address [] []"

definition rule_examples :: "finding list" where
  \<comment> \<open>one finding of each rule\<close>
  "rule_examples =
     [dangling_finding [] (CnameHop [] []), wildcard_finding [] [], axfr_finding [] [],
      dnssec_finding [] [], spf_finding [] [], dmarc_finding [] [], database_finding blank_address,
      legacy_finding blank_address [], ssh_reachable_finding (hint_observation blank_address),
      smtp_finding (hint_observation blank_address), no_https_redirect_finding [] blank_http,
      hsts_finding [] blank_http,
      downgrade_finding [] blank_http \<lparr>rd_from = [], rd_status = 0, rd_to = []\<rparr>,
      disclosure_finding [] blank_http, security_txt_finding [], weak_rsa_finding [] blank_tls 0,
      sha1_finding [] blank_tls [], obsolete_protocol_finding [] blank_tls [],
      validation_failed_finding [] blank_tls, not_yet_valid_finding [] blank_tls 0,
      expired_finding [] blank_tls 0, expiring_finding [] blank_tls 0]"

definition rules where
  "rules = map rule_of rule_examples"

lemmas finding_defs =
  dangling_finding_def wildcard_finding_def axfr_finding_def dnssec_finding_def spf_finding_def
  dmarc_finding_def database_finding_def legacy_finding_def ssh_reachable_finding_def smtp_finding_def
  no_https_redirect_finding_def hsts_finding_def downgrade_finding_def disclosure_finding_def
  security_txt_finding_def weak_rsa_finding_def sha1_finding_def obsolete_protocol_finding_def
  validation_failed_finding_def not_yet_valid_finding_def expired_finding_def expiring_finding_def

lemma finding_ids [simp]:
  "fnd_id (dangling_finding t h) = ''DNS-CNAME-DANGLING-INDICATOR''"
  "fnd_id (wildcard_finding t v) = ''DNS-WILDCARD-DETECTED''"
  "fnd_id (axfr_finding t v) = ''DNS-AXFR-ALLOWED''"
  "fnd_id (dnssec_finding t v) = ''DNS-DNSSEC-BOGUS''"
  "fnd_id (spf_finding t v) = ''MAIL-SPF-MULTIPLE''"
  "fnd_id (dmarc_finding t v) = ''MAIL-DMARC-MONITORING''"
  "fnd_id (database_finding a) = ''NET-DATABASE-EXPOSED''"
  "fnd_id (legacy_finding a v) = ''NET-SSH-LEGACY-ALGORITHM''"
  "fnd_id (ssh_reachable_finding s) = ''NET-SSH-REACHABLE''"
  "fnd_id (smtp_finding s) = ''MAIL-SMTP-STARTTLS-NOT-ADVERTISED''"
  "fnd_id (no_https_redirect_finding t h1) = ''HTTP-NO-HTTPS-REDIRECT''"
  "fnd_id (hsts_finding t h1) = ''HTTP-HSTS-MISSING''"
  "fnd_id (downgrade_finding t h1 r) = ''HTTP-HTTPS-DOWNGRADE''"
  "fnd_id (disclosure_finding t h1) = ''HTTP-VERSION-DISCLOSURE''"
  "fnd_id (security_txt_finding t) = ''HTTP-SECURITY-TXT-MISSING''"
  "fnd_id (weak_rsa_finding t o1 n) = ''TLS-CERT-WEAK-RSA-KEY''"
  "fnd_id (sha1_finding t o1 v) = ''TLS-CERT-SHA1-SIGNATURE''"
  "fnd_id (obsolete_protocol_finding t o1 v) = ''TLS-OBSOLETE-PROTOCOL''"
  "fnd_id (validation_failed_finding t o1) = ''TLS-VALIDATION-FAILED''"
  "fnd_id (not_yet_valid_finding t o1 i) = ''TLS-CERT-NOT-YET-VALID''"
  "fnd_id (expired_finding t o1 i) = ''TLS-CERT-EXPIRED''"
  "fnd_id (expiring_finding t o1 i) = ''TLS-CERT-EXPIRING''"
  by (simp_all add: finding_defs finding_of_def with_references_def)

lemma rule_of_finding [simp]:
  "rule_of (finding_of r t s c tg d l v rem conf) = (r, t, s, c, d, rem, [], conf)"
  by (simp add: rule_of_def finding_of_def)

lemma rule_of_with_references [simp]:
  "rule_of (with_references (finding_of r t s c tg d l v rem conf) refs) = (r, t, s, c, d, rem, refs, conf)"
  by (simp add: rule_of_def finding_of_def with_references_def)

lemma rules_distinct: "distinct (map fst rules)"
  by (simp add: rules_def rule_examples_def rule_of_def)

lemma rule_example_mem:
  "dangling_finding [] (CnameHop [] []) \<in> set rule_examples"
  "wildcard_finding [] [] \<in> set rule_examples"
  "axfr_finding [] [] \<in> set rule_examples"
  "dnssec_finding [] [] \<in> set rule_examples"
  "spf_finding [] [] \<in> set rule_examples"
  "dmarc_finding [] [] \<in> set rule_examples"
  "database_finding blank_address \<in> set rule_examples"
  "legacy_finding blank_address [] \<in> set rule_examples"
  "ssh_reachable_finding (hint_observation blank_address) \<in> set rule_examples"
  "smtp_finding (hint_observation blank_address) \<in> set rule_examples"
  "no_https_redirect_finding [] blank_http \<in> set rule_examples"
  "hsts_finding [] blank_http \<in> set rule_examples"
  "downgrade_finding [] blank_http \<lparr>rd_from = [], rd_status = 0, rd_to = []\<rparr> \<in> set rule_examples"
  "disclosure_finding [] blank_http \<in> set rule_examples"
  "security_txt_finding [] \<in> set rule_examples"
  "weak_rsa_finding [] blank_tls 0 \<in> set rule_examples"
  "sha1_finding [] blank_tls [] \<in> set rule_examples"
  "obsolete_protocol_finding [] blank_tls [] \<in> set rule_examples"
  "validation_failed_finding [] blank_tls \<in> set rule_examples"
  "not_yet_valid_finding [] blank_tls 0 \<in> set rule_examples"
  "expired_finding [] blank_tls 0 \<in> set rule_examples"
  "expiring_finding [] blank_tls 0 \<in> set rule_examples"
  by (simp_all only: rule_examples_def list.set insert_iff simp_thms)

lemma rule_exampleI: "g \<in> set rule_examples \<Longrightarrow> rule_of f = rule_of g \<Longrightarrow> rule_of f \<in> set rules"
  by (simp add: rules_def)

lemma rule_of_example:
  "rule_of (dangling_finding t h) \<in> set rules"
  "rule_of (wildcard_finding t v) \<in> set rules"
  "rule_of (axfr_finding t v) \<in> set rules"
  "rule_of (dnssec_finding t v) \<in> set rules"
  "rule_of (spf_finding t v) \<in> set rules"
  "rule_of (dmarc_finding t v) \<in> set rules"
  "rule_of (database_finding a) \<in> set rules"
  "rule_of (legacy_finding a v) \<in> set rules"
  "rule_of (ssh_reachable_finding s) \<in> set rules"
  "rule_of (smtp_finding s) \<in> set rules"
  "rule_of (no_https_redirect_finding t h1) \<in> set rules"
  "rule_of (hsts_finding t h1) \<in> set rules"
  "rule_of (downgrade_finding t h1 r) \<in> set rules"
  "rule_of (disclosure_finding t h1) \<in> set rules"
  "rule_of (security_txt_finding t) \<in> set rules"
  "rule_of (weak_rsa_finding t o1 n) \<in> set rules"
  "rule_of (sha1_finding t o1 v) \<in> set rules"
  "rule_of (obsolete_protocol_finding t o1 v) \<in> set rules"
  "rule_of (validation_failed_finding t o1) \<in> set rules"
  "rule_of (not_yet_valid_finding t o1 i) \<in> set rules"
  "rule_of (expired_finding t o1 i) \<in> set rules"
  "rule_of (expiring_finding t o1 i) \<in> set rules"
proof -
  show "rule_of (dangling_finding t h) \<in> set rules"
    by (rule rule_exampleI [OF rule_example_mem(1)]) (simp add: dangling_finding_def)
  show "rule_of (wildcard_finding t v) \<in> set rules"
    by (rule rule_exampleI [OF rule_example_mem(2)]) (simp add: wildcard_finding_def)
  show "rule_of (axfr_finding t v) \<in> set rules"
    by (rule rule_exampleI [OF rule_example_mem(3)]) (simp add: axfr_finding_def)
  show "rule_of (dnssec_finding t v) \<in> set rules"
    by (rule rule_exampleI [OF rule_example_mem(4)]) (simp add: dnssec_finding_def)
  show "rule_of (spf_finding t v) \<in> set rules"
    by (rule rule_exampleI [OF rule_example_mem(5)]) (simp add: spf_finding_def)
  show "rule_of (dmarc_finding t v) \<in> set rules"
    by (rule rule_exampleI [OF rule_example_mem(6)]) (simp add: dmarc_finding_def)
  show "rule_of (database_finding a) \<in> set rules"
    by (rule rule_exampleI [OF rule_example_mem(7)]) (simp add: database_finding_def)
  show "rule_of (legacy_finding a v) \<in> set rules"
    by (rule rule_exampleI [OF rule_example_mem(8)]) (simp add: legacy_finding_def)
  show "rule_of (ssh_reachable_finding s) \<in> set rules"
    by (rule rule_exampleI [OF rule_example_mem(9)]) (simp add: ssh_reachable_finding_def)
  show "rule_of (smtp_finding s) \<in> set rules"
    by (rule rule_exampleI [OF rule_example_mem(10)]) (simp add: smtp_finding_def)
  show "rule_of (no_https_redirect_finding t h1) \<in> set rules"
    by (rule rule_exampleI [OF rule_example_mem(11)]) (simp add: no_https_redirect_finding_def)
  show "rule_of (hsts_finding t h1) \<in> set rules"
    by (rule rule_exampleI [OF rule_example_mem(12)]) (simp add: hsts_finding_def)
  show "rule_of (downgrade_finding t h1 r) \<in> set rules"
    by (rule rule_exampleI [OF rule_example_mem(13)]) (simp add: downgrade_finding_def)
  show "rule_of (disclosure_finding t h1) \<in> set rules"
    by (rule rule_exampleI [OF rule_example_mem(14)]) (simp add: disclosure_finding_def)
  show "rule_of (security_txt_finding t) \<in> set rules"
    by (rule rule_exampleI [OF rule_example_mem(15)]) (simp add: security_txt_finding_def)
  show "rule_of (weak_rsa_finding t o1 n) \<in> set rules"
    by (rule rule_exampleI [OF rule_example_mem(16)]) (simp add: weak_rsa_finding_def)
  show "rule_of (sha1_finding t o1 v) \<in> set rules"
    by (rule rule_exampleI [OF rule_example_mem(17)]) (simp add: sha1_finding_def)
  show "rule_of (obsolete_protocol_finding t o1 v) \<in> set rules"
    by (rule rule_exampleI [OF rule_example_mem(18)]) (simp add: obsolete_protocol_finding_def)
  show "rule_of (validation_failed_finding t o1) \<in> set rules"
    by (rule rule_exampleI [OF rule_example_mem(19)]) (simp add: validation_failed_finding_def)
  show "rule_of (not_yet_valid_finding t o1 i) \<in> set rules"
    by (rule rule_exampleI [OF rule_example_mem(20)]) (simp add: not_yet_valid_finding_def)
  show "rule_of (expired_finding t o1 i) \<in> set rules"
    by (rule rule_exampleI [OF rule_example_mem(21)]) (simp add: expired_finding_def)
  show "rule_of (expiring_finding t o1 i) \<in> set rules"
    by (rule rule_exampleI [OF rule_example_mem(22)]) (simp add: expiring_finding_def)
qed

definition by_rule :: "finding \<Rightarrow> bool" where
  \<comment> \<open>an instance of a rule of the catalogue with exactly one piece of evidence\<close>
  "by_rule f \<longleftrightarrow> rule_of f \<in> set rules \<and> length (fnd_evidence f) = 1"

lemma by_rule [simp]:
  "by_rule (dangling_finding t h)" "by_rule (wildcard_finding t v)" "by_rule (axfr_finding t v)"
  "by_rule (dnssec_finding t v)" "by_rule (spf_finding t v)" "by_rule (dmarc_finding t v)"
  "by_rule (database_finding a)" "by_rule (legacy_finding a v)" "by_rule (ssh_reachable_finding s)"
  "by_rule (smtp_finding s)" "by_rule (no_https_redirect_finding t h1)" "by_rule (hsts_finding t h1)"
  "by_rule (downgrade_finding t h1 r)" "by_rule (disclosure_finding t h1)"
  "by_rule (security_txt_finding t)" "by_rule (weak_rsa_finding t o1 n)"
  "by_rule (sha1_finding t o1 v)" "by_rule (obsolete_protocol_finding t o1 v)"
  "by_rule (validation_failed_finding t o1)" "by_rule (not_yet_valid_finding t o1 i)"
  "by_rule (expired_finding t o1 i)" "by_rule (expiring_finding t o1 i)"
  unfolding by_rule_def
  by (simp_all only: rule_of_example)
    (simp_all add: finding_defs finding_of_def with_references_def)

lemma by_rule_inj: "by_rule f \<Longrightarrow> by_rule g \<Longrightarrow> dedup_key f = dedup_key g \<Longrightarrow> f = g"
proof -
  assume *: "by_rule f" "by_rule g" "dedup_key f = dedup_key g"
  then have "fnd_id f = fnd_id g" "fnd_target f = fnd_target g" "evidence_key f = evidence_key g"
    by (simp_all add: dedup_key_def)
  have "rule_of f = rule_of g"
  proof -
    have "fst (rule_of f) = fst (rule_of g)" using \<open>fnd_id f = fnd_id g\<close> by (simp add: rule_of_def)
    then show ?thesis
      using * rules_distinct unfolding by_rule_def distinct_map by (meson inj_onD)
  qed
  moreover have "fnd_evidence f = fnd_evidence g"
  proof -
    obtain e where e: "fnd_evidence f = [e]"
      using *(1) by (auto simp: by_rule_def length_Suc_conv)
    obtain e' where e': "fnd_evidence g = [e']"
      using *(2) by (auto simp: by_rule_def length_Suc_conv)
    from \<open>evidence_key f = evidence_key g\<close> e e' show ?thesis
      by (cases e; cases e') (simp add: evidence_key_def)
  qed
  ultimately show "f = g"
    using \<open>fnd_target f = fnd_target g\<close> by (cases f; cases g) (simp add: rule_of_def)
qed

lemma dns_by_rule: "f \<in> set (dns_findings t d) \<Longrightarrow> by_rule f"
  by (auto simp: dns_findings_def dangling_cname_findings_def wildcard_findings_def axfr_findings_def
      dnssec_findings_def Let_def split: option.splits if_splits)

lemma mail_by_rule: "f \<in> set (mail_findings t d) \<Longrightarrow> by_rule f"
  by (auto simp: mail_findings_def split: list.splits if_splits)

lemma legacy_by_rule: "ssh_legacy_finding s = Some f \<Longrightarrow> by_rule f"
  by (auto simp: ssh_legacy_finding_def Let_def split: option.splits ssh_posture_outcome.splits if_splits)

lemma exposure_by_rule: "f \<in> set (exposure_findings t hosts services) \<Longrightarrow> by_rule f"
  by (auto simp: exposure_findings_def database_findings_def ssh_findings_def legacy_by_rule
      split: option.splits)

lemma mem_if_list: "f \<in> set (if b then xs else []) \<longleftrightarrow> b \<and> f \<in> set xs"
  by simp

lemma http_of_iff:
  "f \<in> set (http_findings_of t h1) \<longleftrightarrow>
    \<not> starts_with (ho_url h1) ''https://'' \<and> \<not> starts_with (effective_url h1) ''https://'' \<and>
      \<not> list_ex (\<lambda>r. starts_with (rd_to r) ''https://'') (ho_redirects h1) \<and>
      f = no_https_redirect_finding t h1
    \<or> hsts_state h1 = Hsts_Missing \<and> f = hsts_finding t h1
    \<or> starts_with (ho_url h1) ''https://'' \<and>
      (\<exists>r. find (\<lambda>r. starts_with (rd_to r) ''http://'') (ho_redirects h1) = Some r \<and>
        f = downgrade_finding t h1 r)
    \<or> (map_of (ho_headers h1) ''server'' \<noteq> None \<or> map_of (ho_headers h1) ''x-powered-by'' \<noteq> None) \<and>
      f = disclosure_finding t h1
    \<or> ho_security_txt h1 = Some False \<and> f = security_txt_finding t"
  unfolding http_findings_of_def Let_def set_append Un_iff mem_if_list
  by (cases "find (\<lambda>r. starts_with (rd_to r) ''http://'') (ho_redirects h1)")
    (simp_all only: option.case list.set singleton_iff empty_iff option.inject option.distinct
      simp_thms ex_simps conj_assoc)

lemma http_by_rule: "f \<in> set (http_findings t hs) \<Longrightarrow> by_rule f"
  unfolding http_findings_def set_concat set_map UN_iff image_iff bex_simps http_of_iff by auto

lemma tls_by_rule: "f \<in> set (tls_findings t services os scan_time) \<Longrightarrow> by_rule f"
  by (auto simp: tls_findings_def tls_findings_of_def tls_weakness_findings_def validity_findings_def
      expiry_findings_def Let_def split: option.splits if_splits)

lemma raw_by_rule: "f \<in> set (raw_findings t dns hosts services http tls scan_time) \<Longrightarrow> by_rule f"
  by (auto simp: raw_findings_def dns_by_rule mail_by_rule exposure_by_rule http_by_rule tls_by_rule
      split: option.splits)

lemma raw_inj: "inj_on dedup_key (set (raw_findings t dns hosts services http tls scan_time))"
  by (rule inj_onI) (blast intro: by_rule_inj raw_by_rule)

lemma retain_new_set:
  assumes "inj_on key (set xs)"
  shows "set (retain_new key [] xs) = set xs"
proof
  show "set (retain_new key [] xs) \<subseteq> set xs" by (rule retain_new_subset)
  show "set xs \<subseteq> set (retain_new key [] xs)"
  proof
    fix x assume x: "x \<in> set xs"
    have "key x \<in> key ` set (retain_new key [] xs)" using x by (simp add: retain_new_keys)
    then obtain y where "y \<in> set (retain_new key [] xs)" "key x = key y" by blast
    with x assms show "x \<in> set (retain_new key [] xs)"
      using retain_new_subset [of key "[]" xs] by (metis inj_onD subsetD)
  qed
qed

lemma set_generate:
  "set (generate_findings t dns hosts services http tls scan_time) =
   set (raw_findings t dns hosts services http tls scan_time)"
  by (simp add: generate_findings_def retain_new_set raw_inj)

lemma distinct_generate:
  "distinct (map dedup_key (generate_findings t dns hosts services http tls scan_time))"
proof -
  let ?r = "retain_new dedup_key [] (raw_findings t dns hosts services http tls scan_time)"
  have "distinct ?r \<and> inj_on dedup_key (set ?r)"
    using retain_new_distinct [of dedup_key "[]" "raw_findings t dns hosts services http tls scan_time"]
    by (simp add: distinct_map)
  then show ?thesis by (simp add: generate_findings_def distinct_map)
qed

lemma finding_order_dedup: "finding_order f = finding_order g \<Longrightarrow> dedup_key f = dedup_key g"
  by (simp add: finding_order_def dedup_key_def)

lemma generate_cong:
  assumes raw: "set (raw_findings t dns hosts services http tls scan_time) =
    set (raw_findings t dns' hosts' services' http' tls' scan_time)"
  shows "generate_findings t dns hosts services http tls scan_time =
    generate_findings t dns' hosts' services' http' tls' scan_time"
    (is "?g = ?g'")
proof -
  let ?r = "retain_new dedup_key [] (raw_findings t dns hosts services http tls scan_time)"
  let ?r' = "retain_new dedup_key [] (raw_findings t dns' hosts' services' http' tls' scan_time)"
  have sets: "set ?r = set ?r'" using raw by (simp add: retain_new_set raw_inj)
  have d: "distinct (map dedup_key ?r)" "distinct (map dedup_key ?r')" by (rule retain_new_distinct)+
  then have "mset ?r = mset ?r'" using sets by (intro set_eq_iff_mset_eq_distinct [THEN iffD1])
      (auto simp: distinct_map)
  moreover have "inj_on finding_order (set ?r)"
    using d(1) finding_order_dedup by (meson distinct_map inj_on_def)
  ultimately show ?thesis unfolding generate_findings_def by (rule sort_key_perm)
qed

lemma raw_set_cong:
  assumes "set hosts = set hosts'" "set services = set services'" "set http = set http'" "set tls = set tls'"
  shows "set (raw_findings t dns hosts services http tls scan_time) =
    set (raw_findings t dns hosts' services' http' tls' scan_time)"
proof -
  have "expected_tls services = expected_tls services'"
    by (rule ext) (simp add: expected_tls_def list_ex_iff assms)
  then have "tls_findings_of t services = tls_findings_of t services'"
    by (intro ext) (simp add: tls_findings_of_def)
  then show ?thesis
    by (simp add: raw_findings_def exposure_findings_def database_findings_def ssh_findings_def
        http_findings_def tls_findings_def assms)
qed

section \<open>High-severity rules\<close>

lemma finding_severities [simp]:
  "fnd_severity (dangling_finding t h) = Sev_Medium"
  "fnd_severity (wildcard_finding t v) = Sev_Info"
  "fnd_severity (axfr_finding t v) = Sev_High"
  "fnd_severity (dnssec_finding t v) = Sev_High"
  "fnd_severity (spf_finding t v) = Sev_Medium"
  "fnd_severity (dmarc_finding t v) = Sev_Low"
  "fnd_severity (database_finding a) = Sev_High"
  "fnd_severity (legacy_finding a v) = Sev_Medium"
  "fnd_severity (ssh_reachable_finding s) = Sev_Info"
  "fnd_severity (smtp_finding s) = Sev_Medium"
  "fnd_severity (no_https_redirect_finding t h1) = Sev_Medium"
  "fnd_severity (hsts_finding t h1) = Sev_Medium"
  "fnd_severity (downgrade_finding t h1 r) = Sev_High"
  "fnd_severity (disclosure_finding t h1) = Sev_Info"
  "fnd_severity (security_txt_finding t) = Sev_Info"
  "fnd_severity (weak_rsa_finding t o1 n) = Sev_Medium"
  "fnd_severity (sha1_finding t o1 v) = Sev_Medium"
  "fnd_severity (obsolete_protocol_finding t o1 v) = Sev_Medium"
  "fnd_severity (validation_failed_finding t o1) = Sev_High"
  "fnd_severity (not_yet_valid_finding t o1 i) = Sev_High"
  "fnd_severity (expired_finding t o1 i) = Sev_High"
  "fnd_severity (expiring_finding t o1 i) = Sev_Low"
  by (simp_all add: finding_defs finding_of_def with_references_def)

lemma high_le [simp]:
  "Sev_High \<le> Sev_High" "\<not> Sev_High \<le> Sev_Info" "\<not> Sev_High \<le> Sev_Low" "\<not> Sev_High \<le> Sev_Medium"
  by (simp_all add: less_eq_severity_def)

lemma by_rule_not_critical: "by_rule f \<Longrightarrow> fnd_severity f \<noteq> Sev_Critical"
proof -
  assume "by_rule f"
  then obtain g where "g \<in> set rule_examples" "rule_of f = rule_of g"
    by (auto simp: by_rule_def rules_def)
  then have "fnd_severity f = fnd_severity g" by (simp add: rule_of_def)
  moreover have "list_all (\<lambda>g. fnd_severity g \<noteq> Sev_Critical) rule_examples"
    by (simp add: rule_examples_def)
  ultimately show ?thesis using \<open>g \<in> set rule_examples\<close> by (simp add: list_all_iff)
qed

abbreviation any_high :: "finding list \<Rightarrow> bool" where
  "any_high fs \<equiv> \<exists>f \<in> set fs. Sev_High \<le> fnd_severity f"

definition transfer_allowed :: "dns_observation \<Rightarrow> bool" where
  "transfer_allowed d \<longleftrightarrow>
     (\<exists>axfr. dns_authoritative_axfr d = Some axfr \<and>
        (\<exists>a \<in> set (axfr_attempts axfr). att_outcome a = Axfr_Allowed))"

definition dnssec_bogus :: "dns_observation \<Rightarrow> bool" where
  "dnssec_bogus d \<longleftrightarrow> (\<exists>v. dns_dnssec d = Some v \<and> dnssec_status v = Dnssec_Bogus)"

definition database_reachable :: "host_observation list \<Rightarrow> bool" where
  "database_reachable hosts \<longleftrightarrow>
     (\<exists>host \<in> set hosts. \<exists>port \<in> set (host_ports host). po_transport port = Tcp \<and>
        po_state port = Open \<and> sa_port (po_address port) \<in> set DATABASE_PORTS)"

definition https_downgraded :: "http_observation list \<Rightarrow> bool" where
  "https_downgraded http \<longleftrightarrow>
     (\<exists>h1 \<in> set http. ho_status h1 \<noteq> None \<and> starts_with (ho_url h1) ''https://'' \<and>
        (\<exists>r \<in> set (ho_redirects h1). starts_with (rd_to r) ''http://''))"

definition certificate_unusable :: "service_observation list \<Rightarrow> int \<Rightarrow> tls_observation \<Rightarrow> bool" where
  \<comment> \<open>the handshake of an expected TLS endpoint failed, or the leaf is outside its validity period\<close>
  "certificate_unusable services scan_time o1 \<longleftrightarrow>
     expected_tls services o1 \<and> \<not> to_handshake_succeeded o1
     \<or> (\<exists>v. to_valid_from_unix o1 = Some v \<and> scan_time < v)
     \<or> (\<exists>v. to_valid_until_unix o1 = Some v \<and> v < scan_time)"

lemma join_eq_Nil: "(\<And>x. x \<in> set xs \<Longrightarrow> x \<noteq> []) \<Longrightarrow> join sep xs = [] \<longleftrightarrow> xs = []"
  by (cases xs rule: remdups_adj.cases) auto

lemma high_dns: "any_high (dns_findings t d) \<longleftrightarrow> transfer_allowed d \<or> dnssec_bogus d"
proof -
  have "\<not> any_high (dangling_cname_findings t d)" "\<not> any_high (wildcard_findings t d)"
    by (auto simp: dangling_cname_findings_def wildcard_findings_def Let_def
        split: option.splits if_splits)
  moreover have "any_high (axfr_findings t d) \<longleftrightarrow> transfer_allowed d"
  proof (cases "dns_authoritative_axfr d")
    case (Some axfr)
    have "join '' | '' (map show_attempt xs) = [] \<longleftrightarrow> xs = []" for xs
      by (subst join_eq_Nil) (auto simp: show_attempt_def)
    with Some show ?thesis
      by (auto simp: axfr_findings_def transfer_allowed_def Let_def filter_empty_conv)
  qed (simp add: axfr_findings_def transfer_allowed_def)
  moreover have "any_high (dnssec_findings t d) \<longleftrightarrow> dnssec_bogus d"
    by (cases "dns_dnssec d") (simp_all add: dnssec_findings_def dnssec_bogus_def Let_def)
  ultimately show ?thesis unfolding dns_findings_def set_append bex_Un by blast
qed

lemma high_mail: "\<not> any_high (mail_findings t d)"
  by (auto simp: mail_findings_def split: list.splits if_splits)

lemma legacy_severity: "ssh_legacy_finding s = Some f \<Longrightarrow> fnd_severity f = Sev_Medium"
  by (auto simp: ssh_legacy_finding_def Let_def split: option.splits ssh_posture_outcome.splits if_splits)

lemma high_exposure: "any_high (exposure_findings t hosts services) \<longleftrightarrow> database_reachable hosts"
proof -
  have "any_high (database_findings hosts) \<longleftrightarrow> database_reachable hosts"
    by (fastforce simp: database_findings_def database_reachable_def)
  moreover have "\<not> any_high (ssh_findings services)"
    by (auto simp: ssh_findings_def legacy_severity split: option.splits)
  moreover have "\<not> any_high (map smtp_finding (filter smtp_without_starttls services))" by auto
  ultimately show ?thesis unfolding exposure_findings_def set_append bex_Un by blast
qed

lemma high_http: "any_high (http_findings t http) \<longleftrightarrow> https_downgraded http"
proof -
  have found: "(\<exists>r. find P xs = Some r) \<longleftrightarrow> (\<exists>x \<in> set xs. P x)" for P and xs :: "redirect_observation list"
    using find_None_iff [of P xs] by (cases "find P xs") auto
  have "any_high (http_findings_of t h1) \<longleftrightarrow> starts_with (ho_url h1) ''https://'' \<and>
      (\<exists>r \<in> set (ho_redirects h1). starts_with (rd_to r) ''http://'')" for h1
    unfolding Bex_def http_of_iff found [symmetric, unfolded Bex_def] by auto
  then show ?thesis by (simp add: http_findings_def https_downgraded_def) blast
qed

lemma high_tls_of:
  "any_high (tls_findings_of t services scan_time o1) \<longleftrightarrow> certificate_unusable services scan_time o1"
proof -
  define early where "early \<longleftrightarrow> (\<exists>v. to_valid_from_unix o1 = Some v \<and> scan_time < v)"
  define late where "late \<longleftrightarrow> (\<exists>v. to_valid_until_unix o1 = Some v \<and> v < scan_time)"
  have weak: "\<not> any_high (tls_weakness_findings t o1)"
    by (auto simp: tls_weakness_findings_def split: option.splits if_splits)
  have expiry: "any_high (expiry_findings t scan_time o1) \<longleftrightarrow> late"
    by (cases "to_valid_until_unix o1") (simp_all add: expiry_findings_def Let_def late_def)
  have "any_high (validity_findings t scan_time o1) \<longleftrightarrow> early \<or> \<not> early \<and> late"
    by (cases "to_valid_from_unix o1") (simp_all add: validity_findings_def expiry early_def)
  with weak show ?thesis
    unfolding tls_findings_of_def certificate_unusable_def early_def [symmetric] late_def [symmetric]
    by (simp add: bex_Un) blast
qed

lemma high_tls: "any_high (tls_findings t services os scan_time) \<longleftrightarrow>
    (\<exists>o1 \<in> set os. certificate_unusable services scan_time o1)"
  unfolding tls_findings_def set_concat set_map by (simp add: high_tls_of)

section \<open>Properties\<close>

text \<open>
  C5: Findings are canonical: every one is an instance of one of the 22 rules of the catalogue with
  exactly one piece of evidence, none is lost or repeated by the deduplication, they are ordered by
  descending severity, then identity, target and evidence, and the order (or repetition) of hosts,
  services and HTTP and TLS observations cannot be seen in them.
\<close>

theorem findings_canonical:
  assumes "set hosts = set hosts'" "set services = set services'" "set http = set http'" "set tls = set tls'"
  shows "generate_findings target dns hosts services http tls scan_time =
      generate_findings target dns hosts' services' http' tls' scan_time \<and>
    (let fs = generate_findings target dns hosts services http tls scan_time
     in list_all by_rule fs \<and> distinct (map dedup_key fs) \<and> sorted (map finding_order fs) \<and>
        set fs = set (raw_findings target dns hosts services http tls scan_time))"
proof
  show "generate_findings target dns hosts services http tls scan_time =
      generate_findings target dns hosts' services' http' tls' scan_time"
    by (rule generate_cong) (rule raw_set_cong [OF assms])
  have "sorted (map finding_order (generate_findings target dns hosts services http tls scan_time))"
    by (simp add: generate_findings_def)
  then show "let fs = generate_findings target dns hosts services http tls scan_time
     in list_all by_rule fs \<and> distinct (map dedup_key fs) \<and> sorted (map finding_order fs) \<and>
        set fs = set (raw_findings target dns hosts services http tls scan_time)"
    using raw_by_rule unfolding Let_def set_generate list_all_iff by (auto simp: distinct_generate)
qed

theorem findings_canonical_witness:
  "generate_findings ''h'' None [] [hint_observation (SocketAddr (V4 1) 22), hint_observation (SocketAddr (V4 1) 80)] [] [] 0 =
   generate_findings ''h'' None [] [hint_observation (SocketAddr (V4 1) 80), hint_observation (SocketAddr (V4 1) 22)] [] [] 0"
  by (rule findings_canonical [THEN conjunct1]) auto

text \<open>
  C21: A high-severity finding is reported exactly when one of the seven conditions was observed: an
  allowed zone transfer, a bogus DNSSEC status, an open TCP port of the database list, an HTTPS endpoint
  that redirects to HTTP, a failed handshake of an expected TLS endpoint, or a leaf certificate that is
  not yet or no longer valid at the scan time. No finding is critical.
\<close>

theorem high_findings_exact:
  "(any_high (generate_findings target dns hosts services http tls scan_time) \<longleftrightarrow>
     (\<exists>d. dns = Some d \<and> (transfer_allowed d \<or> dnssec_bogus d)) \<or> database_reachable hosts \<or>
     https_downgraded http \<or> (\<exists>o1 \<in> set tls. certificate_unusable services scan_time o1)) \<and>
   (\<forall>f \<in> set (generate_findings target dns hosts services http tls scan_time).
     fnd_severity f \<noteq> Sev_Critical)"
proof
  show "any_high (generate_findings target dns hosts services http tls scan_time) \<longleftrightarrow>
     (\<exists>d. dns = Some d \<and> (transfer_allowed d \<or> dnssec_bogus d)) \<or> database_reachable hosts \<or>
     https_downgraded http \<or> (\<exists>o1 \<in> set tls. certificate_unusable services scan_time o1)"
    unfolding set_generate raw_findings_def set_append bex_Un high_exposure high_http high_tls
    by (cases dns) (simp_all add: bex_Un high_dns high_mail)
  show "\<forall>f \<in> set (generate_findings target dns hosts services http tls scan_time).
     fnd_severity f \<noteq> Sev_Critical"
    using raw_by_rule by_rule_not_critical unfolding set_generate by blast
qed

theorem high_findings_exact_witness:
  "any_high (generate_findings ''h'' None
     [\<lparr>host_ip = V4 1, host_ports = [\<lparr>po_transport = Tcp, po_address = SocketAddr (V4 1) 6379,
        po_state = Open, po_latency_ms = None, po_error = None\<rparr>]\<rparr>] [] [] [] 0)"
  unfolding high_findings_exact [THEN conjunct1]
  by (simp add: database_reachable_def DATABASE_PORTS_def)

end
