(* ===== verification/Intelligence_Types.thy ===== *)
theory Intelligence_Types
  imports Dns_Types
begin

text \<open>
  The observation types of the optional intelligence stage, \<^verbatim>\<open>crates/surface-core/src/intelligence.rs\<close>.
  A report carries them; the analysis that fills them is not part of a scan.
\<close>

datatype certificate_transparency_dns_status =
    Ct_NotChecked | Ct_Resolved | Ct_NoAddress | Ct_NxDomain | Ct_Indeterminate

record certificate_transparency_candidate =
  ctc_name :: string
  ctc_wildcard :: bool
  ctc_issuance_count :: nat
  ctc_dns_status :: certificate_transparency_dns_status

record certificate_transparency_observation =
  ct_source :: string
  ct_candidates :: "certificate_transparency_candidate list"
  ct_issuance_count :: nat
  ct_pages_fetched :: nat
  ct_complete :: bool
  ct_errors :: "string list"

record subdomain_observation =
  sub_name :: string
  sub_dns :: "dns_observation option"
  sub_error :: "string option"

record related_domain_candidate =
  rdc_name :: string
  rdc_matched_nameservers :: "string list"
  rdc_confidence :: string
  rdc_evidence :: "string list"

record related_domains_observation =
  rdo_nameservers :: "string list"
  rdo_provider :: "string option"
  rdo_candidates :: "related_domain_candidate list"
  rdo_complete :: bool
  rdo_errors :: "string list"

record network_registration_observation =
  nr_address :: ip_addr
  nr_source :: string
  nr_registry :: string
  nr_handle :: "string option"
  nr_name :: "string option"
  nr_network_type :: "string option"
  nr_start_address :: "ip_addr option"
  nr_end_address :: "ip_addr option"
  nr_registration_country :: "string option"
  nr_statuses :: "string list"

record bgp_route_observation =
  bgp_address :: ip_addr
  bgp_prefix :: "string option"
  bgp_origin_asns :: "32 word list"
  bgp_source :: string
  bgp_complete :: bool
  bgp_limitations :: "string list"

record dkim_observation =
  dkim_selector :: string
  dkim_records :: nat
  dkim_version :: "string option"
  dkim_key_type :: "string option"
  dkim_public_key_fingerprint :: "string option"
  dkim_revoked :: bool
  dkim_malformed :: bool

record network_metadata =
  nm_address :: ip_addr
  nm_prefix :: string
  nm_asn :: "32 word option"
  nm_organization :: "string option"
  nm_country :: "string option"

record cve_candidate =
  cve_id :: string
  cve_product :: string
  cve_version :: string
  cve_severity :: string
  cve_advisory_url :: string
  cve_source :: string
  cve_confidence :: string

record intelligence_observation =
  int_subdomains :: "subdomain_observation list"
  int_dkim :: "dkim_observation list"
  int_networks :: "network_metadata list"
  int_cve_candidates :: "cve_candidate list"
  int_bundle_version :: "string option"
  int_related_domains :: "related_domains_observation option"
  int_certificate_transparency :: "certificate_transparency_observation option"
  int_network_registrations :: "network_registration_observation list"
  int_bgp_routes :: "bgp_route_observation list"
  int_complete :: bool
  int_errors :: "string list"

end
