(* ===== verification/Report.thy ===== *)
theory Report
  imports Findings Intelligence_Types
begin

text \<open>
  The report all stages write to, \<open>ScanReport\<close> of \<^verbatim>\<open>crates/surface-core/src/lib.rs\<close>, with the score types
  of \<^verbatim>\<open>exposure.rs\<close>. Timestamps are seconds since the Unix epoch; the scan identifier, a random UUID,
  and the clock readings are arguments.
\<close>

record score_deduction =
  ded_id :: string
  ded_points :: nat
  ded_reason :: string
  ded_finding_ids :: "string list"
  ded_target :: "string option"

datatype score_classification = Score_Favorable | Score_Review | Score_Elevated | Score_Critical

record exposure_score =
  score_model_version :: string
  score_value :: nat
  score_class :: score_classification
  score_deductions :: "score_deduction list"
  score_incomplete :: bool
  score_limitations :: "string list"

record scan_report =
  rep_schema_version :: string
  rep_scanner_version :: string
  rep_scan_id :: string
  rep_started_at :: int
  rep_completed_at :: "int option"
  rep_target :: normalized_target
  rep_configuration :: scan_configuration
  rep_status :: scan_status
  rep_dns :: "dns_observation option"
  rep_hosts :: "host_observation list"
  rep_services :: "service_observation list"
  rep_http :: "http_observation list"
  rep_tls :: "tls_observation list"
  rep_findings :: "finding list"
  rep_exposure_score :: "exposure_score option"
  rep_intelligence :: "intelligence_observation option"
  rep_skipped_checks :: "skipped_check list"
  rep_errors :: "scan_error list"
  rep_message :: string

definition not_started :: "string \<Rightarrow> int \<Rightarrow> normalized_target \<Rightarrow> scan_configuration \<Rightarrow> scan_report" where
  \<comment> \<open>the package version is that of the workspace\<close>
  "not_started scan_id started_at target configuration =
     \<lparr>rep_schema_version = ''0.4.0'', rep_scanner_version = ''0.3.0'', rep_scan_id = scan_id,
      rep_started_at = started_at, rep_completed_at = None, rep_target = target,
      rep_configuration = configuration, rep_status = NotStarted, rep_dns = None, rep_hosts = [],
      rep_services = [], rep_http = [], rep_tls = [], rep_findings = [], rep_exposure_score = None,
      rep_intelligence = None, rep_skipped_checks = [], rep_errors = [],
      rep_message = ''Scan has not started.''\<rparr>"

definition target_name :: "scan_report \<Rightarrow> string" where
  \<comment> \<open>\<open>report.target.hostname.as_deref().unwrap_or(&report.target.original)\<close>\<close>
  "target_name r = (case tgt_hostname (rep_target r) of Some h \<Rightarrow> h | None \<Rightarrow> tgt_original (rep_target r))"

definition add_report_error :: "scan_error \<Rightarrow> scan_report \<Rightarrow> scan_report" where
  \<comment> \<open>\<open>report.errors.push\<close>\<close>
  "add_report_error e r = r\<lparr>rep_errors := push (rep_errors r) e\<rparr>"

text \<open>A configuration with the defaults of the command line, for the witnesses.\<close>

definition sample_configuration :: scan_configuration where
  "sample_configuration =
     \<lparr>cfg_ports = [22, 443], cfg_udp_ports = [53], cfg_concurrency = 64, cfg_connect_timeout_ms = 1500,
      cfg_request_timeout_ms = 5000, cfg_global_timeout_ms = 60000, cfg_ipv4_only = False,
      cfg_ipv6_only = False, cfg_authorization_acknowledged = False\<rparr>"

definition sample_report :: scan_report where
  "sample_report = not_started ''id'' 0 (ip_target ''192.0.2.1'' (V4 3221225985)) sample_configuration"

end
