(* ===== verification/Exposure.thy ===== *)
theory Exposure
  imports Report
begin

text \<open>
  The exposure score, \<^verbatim>\<open>crates/surface-core/src/exposure.rs\<close>: deductions for distinct pairs of finding
  identity and target, their saturating 16-bit sum, the value and its classification.
\<close>

section \<open>Model\<close>

definition EXPOSURE_MODEL_VERSION :: string where
  "EXPOSURE_MODEL_VERSION = ''1.0''"

fun severity_points :: "severity \<Rightarrow> nat" where
  "severity_points Sev_Info = 0"
| "severity_points Sev_Low = 2"
| "severity_points Sev_Medium = 7"
| "severity_points Sev_High = 20"
| "severity_points Sev_Critical = 35"

definition classification :: "nat \<Rightarrow> score_classification" where
  "classification v =
     (if 85 \<le> v \<and> v \<le> 100 then Score_Favorable
      else if 65 \<le> v \<and> v \<le> 84 then Score_Review
      else if 35 \<le> v \<and> v \<le> 64 then Score_Elevated
      else Score_Critical)"

definition score_key :: "finding \<Rightarrow> string \<times> string" where
  "score_key f = (fnd_id f, fnd_target f)"

definition deduction :: "finding \<Rightarrow> score_deduction option" where
  \<comment> \<open>the part of the \<open>filter_map\<close> after the test on \<open>seen\<close>\<close>
  "deduction f =
     (let points = severity_points (fnd_severity f)
      in if 0 < points then
           Some \<lparr>ded_id = ''finding:'' @ fnd_id f @ '':'' @ fnd_target f, ded_points = points,
             ded_reason = fnd_title f, ded_finding_ids = [fnd_id f], ded_target = Some (fnd_target f)\<rparr>
         else None)"

definition saturating_add_u16 :: "nat \<Rightarrow> nat \<Rightarrow> nat" where
  "saturating_add_u16 a b = min 65535 (a + b)"

definition calculate_exposure :: "scan_report \<Rightarrow> exposure_score" where
  "calculate_exposure report =
     (let deductions =
        sort_key ded_id (filter_map deduction (retain_new score_key [] (rep_findings report)));
          total = min 100 (foldl (\<lambda>sum d. saturating_add_u16 sum (ded_points d)) 0 deductions);
          v = 100 - total;
          incomplete = (rep_status report \<noteq> Completed \<or> rep_skipped_checks report \<noteq> []);
          limitations =
            ''This configuration and exposure score is not proof of security.'' #
            (if incomplete then
               [''The scan was incomplete; absent observations were not treated as safe.''] else [])
      in \<lparr>score_model_version = EXPOSURE_MODEL_VERSION, score_value = v,
          score_class = classification v, score_deductions = deductions,
          score_incomplete = incomplete, score_limitations = limitations\<rparr>)"

section \<open>Lemmas\<close>

lemma saturating_fold:
  "foldl (\<lambda>sum d. saturating_add_u16 sum (ded_points d)) (min 65535 a) ds =
   min 65535 (a + sum_list (map ded_points ds))"
proof (induction ds arbitrary: a)
  case (Cons d ds)
  have "saturating_add_u16 (min 65535 a) (ded_points d) = min 65535 (a + ded_points d)"
    by (simp add: saturating_add_u16_def min_def)
  with Cons show ?case by (simp add: add.assoc)
qed simp

lemma sum_list_mset_cong: "mset xs = mset ys \<Longrightarrow> sum_list (map (f :: 'a \<Rightarrow> nat) xs) = sum_list (map f ys)"
  by (metis mset_map sum_mset_sum_list)

definition deduction_total :: "finding list \<Rightarrow> nat" where
  \<comment> \<open>the sum of the points of one finding for each distinct pair of identity and target\<close>
  "deduction_total fs = sum_list (map (\<lambda>f. severity_points (fnd_severity f)) (retain_new score_key [] fs))"

lemma deductions_sum:
  "sum_list (map ded_points (filter_map deduction fs)) =
   sum_list (map (\<lambda>f. severity_points (fnd_severity f)) fs)"
  by (induction fs) (auto simp: deduction_def Let_def)

lemma exposure_value:
  "score_value (calculate_exposure r) = 100 - min 100 (deduction_total (rep_findings r))"
proof -
  let ?ds = "filter_map deduction (retain_new score_key [] (rep_findings r))"
  have "foldl (\<lambda>sum d. saturating_add_u16 sum (ded_points d)) 0 (sort_key ded_id ?ds) =
      min 65535 (deduction_total (rep_findings r))"
    using saturating_fold [of 0 "sort_key ded_id ?ds"]
      sum_list_mset_cong [of "sort_key ded_id ?ds" ?ds ded_points]
    by (simp add: deduction_total_def deductions_sum)
  then show ?thesis by (simp add: calculate_exposure_def Let_def min_def)
qed

lemma classification_exact:
  "v \<le> 100 \<Longrightarrow>
   (classification v = Score_Favorable \<longleftrightarrow> 85 \<le> v) \<and>
   (classification v = Score_Review \<longleftrightarrow> 65 \<le> v \<and> v < 85) \<and>
   (classification v = Score_Elevated \<longleftrightarrow> 35 \<le> v \<and> v < 65) \<and>
   (classification v = Score_Critical \<longleftrightarrow> v < 35)"
  by (auto simp: classification_def)

lemma retain_new_perm_points:
  assumes sev: "\<And>f g. f \<in> set fs \<Longrightarrow> g \<in> set fs \<Longrightarrow> score_key f = score_key g \<Longrightarrow>
      fnd_severity f = fnd_severity g"
    and sets: "set fs = set gs"
  shows "deduction_total fs = deduction_total gs"
proof -
  let ?p = "\<lambda>f. severity_points (fnd_severity f)"
  define points where "points k = ?p (SOME f. f \<in> set fs \<and> score_key f = k)" for k
  have p: "?p f = points (score_key f)" if "f \<in> set fs" for f
  proof -
    have "(SOME g. g \<in> set fs \<and> score_key g = score_key f) \<in> set fs \<and>
        score_key (SOME g. g \<in> set fs \<and> score_key g = score_key f) = score_key f"
      by (rule someI [of "\<lambda>g. g \<in> set fs \<and> score_key g = score_key f" f]) (simp add: that)
    with sev that show ?thesis unfolding points_def by metis
  qed
  have total: "deduction_total hs = sum points (score_key ` set fs)" if hs: "set hs = set fs" for hs
  proof -
    let ?r = "retain_new score_key [] hs"
    have "map ?p ?r = map points (map score_key ?r)"
      using p retain_new_subset [of score_key "[]" hs] hs by auto
    then have "deduction_total hs = sum_list (map points (map score_key ?r))"
      by (simp only: deduction_total_def)
    moreover have "sum_list (map points (map score_key ?r)) = sum points (set (map score_key ?r))"
      by (rule sum_list_distinct_conv_sum_set) (rule retain_new_distinct)
    ultimately show ?thesis by (simp add: retain_new_keys hs)
  qed
  from total [of fs] total [of gs] sets show ?thesis by simp
qed

section \<open>Properties\<close>

text \<open>
  The score is 100 less the points (0, 2, 7, 20, 35 by severity) of one finding for every distinct
  pair of rule and target, clamped at 0: the 16-bit sum never wraps, the value stays within 0 to 100, and
  its classification is the documented band of the value.
\<close>

theorem exposure_score_exact:
  "let s = calculate_exposure r; v = score_value s
   in v = 100 - min 100 (deduction_total (rep_findings r)) \<and> v \<le> 100 \<and>
      (score_class s = Score_Favorable \<longleftrightarrow> v \<in> {85..100}) \<and>
      (score_class s = Score_Review \<longleftrightarrow> v \<in> {65..84}) \<and>
      (score_class s = Score_Elevated \<longleftrightarrow> v \<in> {35..64}) \<and>
      (score_class s = Score_Critical \<longleftrightarrow> v \<in> {0..34})"
proof -
  have "score_class (calculate_exposure r) = classification (score_value (calculate_exposure r))"
    by (simp add: calculate_exposure_def Let_def)
  moreover have "score_value (calculate_exposure r) \<le> 100" by (simp add: exposure_value)
  ultimately show ?thesis
    using classification_exact [of "score_value (calculate_exposure r)"]
    by (auto simp: exposure_value Let_def)
qed

lemma by_rule_severity: "by_rule f \<Longrightarrow> by_rule g \<Longrightarrow> score_key f = score_key g \<Longrightarrow> fnd_severity f = fnd_severity g"
proof -
  assume *: "by_rule f" "by_rule g" "score_key f = score_key g"
  then have "fst (rule_of f) = fst (rule_of g)" by (simp add: score_key_def rule_of_def)
  then have "rule_of f = rule_of g"
    using * rules_distinct unfolding by_rule_def distinct_map by (meson inj_onD)
  then show ?thesis by (simp add: rule_of_def)
qed

text \<open>
  Repeating the findings of a report, or giving them in another order, changes neither the score's
  value nor its classification.
\<close>

theorem exposure_value_order_free:
  assumes "set (rep_findings r) = set (rep_findings r')" and "list_all by_rule (rep_findings r)"
  shows "score_value (calculate_exposure r) = score_value (calculate_exposure r') \<and>
    score_class (calculate_exposure r) = score_class (calculate_exposure r')"
proof -
  have "deduction_total (rep_findings r) = deduction_total (rep_findings r')"
    by (rule retain_new_perm_points) (use assms by_rule_severity in \<open>auto simp: list_all_iff\<close>)
  then have "score_value (calculate_exposure r) = score_value (calculate_exposure r')"
    by (simp add: exposure_value)
  moreover have "score_class (calculate_exposure s) = classification (score_value (calculate_exposure s))" for s
    by (simp add: calculate_exposure_def Let_def)
  ultimately show ?thesis by simp
qed

theorem exposure_value_order_free_witness:
  "score_value (calculate_exposure (sample_report\<lparr>rep_findings := [dnssec_finding [] [], spf_finding [] []]\<rparr>)) =
   score_value (calculate_exposure (sample_report
     \<lparr>rep_findings := [spf_finding [] [], dnssec_finding [] [], spf_finding [] []]\<rparr>))"
  by (rule exposure_value_order_free [THEN conjunct1]) (simp_all add: insert_commute)

end
