(* ===== verification/Lifecycle.thy ===== *)
theory Lifecycle
  imports Exposure
begin

text \<open>
  The terminal operations on a report, \<^verbatim>\<open>crates/surface-core/src/lifecycle.rs\<close>. What the code asks of the
  outside world, whether the token is cancelled and whether the deadline has passed, is an argument for
  each place it is asked; progress events are returned as the list in which they were sent.

  The locale \<open>report_step\<close> states what every operation on the shared report owes the rest of the engine;
  the operations are interpreted here, the engine's stages are composed of them.
\<close>

section \<open>Model\<close>

definition add_skipped_check :: "string \<Rightarrow> string \<Rightarrow> scan_report \<Rightarrow> scan_report" where
  "add_skipped_check check reason report =
     (if list_all (\<lambda>skipped. skip_check skipped \<noteq> check) (rep_skipped_checks report) then
        report\<lparr>rep_skipped_checks :=
          push (rep_skipped_checks report) \<lparr>skip_check = check, skip_reason = reason\<rparr>\<rparr>
      else report)"

definition record_selection_skips :: "scan_selection \<Rightarrow> scan_report \<Rightarrow> scan_report" where
  "record_selection_skips selection report =
     foldl (\<lambda>r (check, selected).
         if \<not> selected then add_skipped_check check ''excluded by --only'' r else r)
       report
       [(''ports'', sel_ports selection), (''services'', sel_services selection),
        (''http'', sel_http selection), (''tls'', sel_tls selection)]"

definition has_observations :: "scan_report \<Rightarrow> bool" where
  "has_observations report \<longleftrightarrow>
     rep_dns report \<noteq> None \<or> rep_hosts report \<noteq> [] \<or> rep_services report \<noteq> [] \<or>
     rep_http report \<noteq> [] \<or> rep_tls report \<noteq> []"

fun stage_rank :: "scan_stage \<Rightarrow> nat" where
  "stage_rank Stage_Preflight = 0"
| "stage_rank Stage_Dns = 1"
| "stage_rank Stage_Ports = 2"
| "stage_rank Stage_Services = 3"
| "stage_rank Stage_Http = 4"
| "stage_rank Stage_Tls = 5"
| "stage_rank Stage_Findings = 6"

definition stage_checks :: "scan_selection \<Rightarrow> (string \<times> scan_stage \<times> bool) list" where
  \<comment> \<open>the table of \<open>record_unfinished_checks\<close>\<close>
  "stage_checks selection =
     [(''dns'', Stage_Dns, True), (''dnssec_validation'', Stage_Dns, True),
      (''authoritative_axfr'', Stage_Dns, True), (''wildcard_dns'', Stage_Dns, True),
      (''dangling_cname'', Stage_Dns, True), (''ports'', Stage_Ports, sel_ports selection),
      (''services'', Stage_Services, sel_services selection), (''http'', Stage_Http, sel_http selection),
      (''tls'', Stage_Tls, sel_tls selection)]"

definition record_unfinished_checks ::
    "scan_stage \<Rightarrow> scan_selection \<Rightarrow> string \<Rightarrow> scan_report \<Rightarrow> scan_report" where
  "record_unfinished_checks failed_stage selection reason report =
     foldl (\<lambda>r (check, stage, selected).
         if selected \<and> stage_rank failed_stage \<le> stage_rank stage
         then add_skipped_check check reason r else r)
       report (stage_checks selection)"

definition terminal_status :: "scan_error_kind \<Rightarrow> scan_report \<Rightarrow> scan_status" where
  \<comment> \<open>the \<open>match kind\<close> of \<open>terminate\<close>\<close>
  "terminal_status kind report =
     (case kind of
        Err_Configuration \<Rightarrow> Failed
      | Err_Cancelled \<Rightarrow> Interrupted
      | Err_Timeout \<Rightarrow> if \<not> has_observations report then Failed else Partial
      | _ \<Rightarrow> Partial)"

definition terminate ::
    "scan_stage \<Rightarrow> scan_selection \<Rightarrow> scan_error_kind \<Rightarrow> string \<Rightarrow> scan_report \<Rightarrow> scan_report" where
  "terminate stage selection kind message report =
     (if rep_status report = Interrupted \<and> kind = Err_Cancelled then report
      else if rep_status report = Failed \<and> kind = Err_Timeout then report
      else
        let status = terminal_status kind report;
            report = report\<lparr>rep_status := status, rep_message := message\<rparr>;
            report = add_report_error
              (new_scan_error stage (tgt_hostname (rep_target report)) kind message (status \<noteq> Failed)) report
        in record_unfinished_checks stage selection message report)"

definition dns_indeterminate :: "scan_report \<Rightarrow> bool" where
  \<comment> \<open>one of \<open>dnssec_indeterminate\<close>, \<open>wildcard_indeterminate\<close>, \<open>dangling_indeterminate\<close> of \<open>settle\<close>\<close>
  "dns_indeterminate report \<longleftrightarrow>
     (case rep_dns report of
        None \<Rightarrow> False
      | Some dns \<Rightarrow>
          (case dns_dnssec dns of Some v \<Rightarrow> dnssec_status v = Dnssec_Indeterminate | None \<Rightarrow> False) \<or>
          (case dns_wildcard_dns dns of Some v \<Rightarrow> wild_status v = Wild_Indeterminate | None \<Rightarrow> False) \<or>
          list_ex (\<lambda>v. dg_status v = Dangling_Indeterminate) (dns_dangling_cnames dns))"

definition settle :: "scan_report \<Rightarrow> scan_report" where
  "settle report =
     (if rep_status report \<in> {Interrupted, Failed, Partial} then report
      else report\<lparr>
        rep_status := (if rep_errors report = [] \<and> \<not> dns_indeterminate report then Completed else Partial),
        rep_message :=
          ''Surface analyzed externally observable services and security-related configuration.''\<rparr>)"

text \<open>The two questions, in the order asked: is the token cancelled, and if not, is the deadline past.\<close>

record interruption =
  int_cancelled :: bool
  int_expired :: bool

definition interrupted :: "interruption \<Rightarrow> bool" where
  "interrupted i \<longleftrightarrow> int_cancelled i \<or> int_expired i"

definition check_interruption ::
    "interruption \<Rightarrow> scan_stage \<Rightarrow> scan_selection \<Rightarrow> string \<Rightarrow> string \<Rightarrow> scan_report \<Rightarrow> scan_report" where
  \<comment> \<open>the \<open>if cancelled .. else if expired ..\<close> of \<open>finalize\<close>, with the two messages\<close>
  "check_interruption i stage selection cancel_message timeout_message report =
     (if int_cancelled i then terminate stage selection Err_Cancelled cancel_message report
      else if int_expired i then terminate stage selection Err_Timeout timeout_message report
      else report)"

definition report_findings :: "int \<Rightarrow> scan_report \<Rightarrow> finding list" where
  "report_findings now report =
     generate_findings (target_name report) (rep_dns report) (rep_hosts report) (rep_services report)
       (rep_http report) (rep_tls report) now"

definition finalize ::
    "interruption \<Rightarrow> interruption \<Rightarrow> int \<Rightarrow> int \<Rightarrow> scan_report \<Rightarrow> scan_report \<times> scan_progress list" where
  \<comment> \<open>\<open>before\<close> and \<open>after\<close> are the answers around the findings, \<open>now\<close> and \<open>finished\<close> the clock readings\<close>
  "finalize before after now finished report =
     (if rep_completed_at report \<noteq> None then (report, [])
      else if list_ex (\<lambda>e. err_stage e = Stage_Preflight) (rep_errors report) then
        (report\<lparr>rep_completed_at := Some finished\<rparr>, [])
      else
        let report =
              (if interrupted before then
                 check_interruption before Stage_Findings selection_all
                   ''scan interrupted during findings finalization''
                   ''global timeout expired during findings finalization'' report
               else settle report);
            report = report\<lparr>rep_findings := report_findings now report\<rparr>;
            report = report\<lparr>rep_exposure_score := Some (calculate_exposure report)\<rparr>;
            events = [Started Stage_Findings, StageCompleted Stage_Findings (length (rep_findings report))];
            report = check_interruption after Stage_Findings selection_all
              ''scan interrupted after findings finalization''
              ''global timeout expired after findings finalization'' report
        in (report\<lparr>rep_completed_at := Some finished\<rparr>, events))"

section \<open>The contract of an operation on the report\<close>

definition report_wf :: "scan_report \<Rightarrow> bool" where
  \<comment> \<open>a check is skipped at most once, and an interrupted or failed report says why\<close>
  "report_wf r \<longleftrightarrow>
     distinct (map skip_check (rep_skipped_checks r)) \<and>
     (rep_status r = Interrupted \<longrightarrow> (\<exists>e \<in> set (rep_errors r). err_kind e = Err_Cancelled)) \<and>
     (rep_status r = Failed \<longrightarrow> (\<exists>e \<in> set (rep_errors r). \<not> err_recoverable e))"

definition same_scan :: "scan_report \<Rightarrow> scan_report \<Rightarrow> bool" where
  \<comment> \<open>the fields only the constructor writes\<close>
  "same_scan r s \<longleftrightarrow>
     rep_target s = rep_target r \<and> rep_configuration s = rep_configuration r \<and>
     rep_scan_id s = rep_scan_id r \<and> rep_started_at s = rep_started_at r \<and>
     rep_schema_version s = rep_schema_version r \<and> rep_scanner_version s = rep_scanner_version r"

locale report_step =
  fixes step :: "scan_report \<Rightarrow> scan_report"
  assumes keeps_wf: "report_wf r \<Longrightarrow> report_wf (step r)"
    and keeps_scan: "same_scan r (step r)"
    and errors_grow: "set (rep_errors r) \<subseteq> set (rep_errors (step r))"
    and skips_grow: "set (rep_skipped_checks r) \<subseteq> set (rep_skipped_checks (step r))"
    and stays_started: "rep_status (step r) = NotStarted \<Longrightarrow> rep_status r = NotStarted"
begin

lemma target_kept [simp]: "rep_target (step r) = rep_target r"
  using keeps_scan by (simp add: same_scan_def)

lemma configuration_kept [simp]: "rep_configuration (step r) = rep_configuration r"
  using keeps_scan by (simp add: same_scan_def)

lemma errors_kept: "rep_errors (step r) = [] \<Longrightarrow> rep_errors r = []"
  using errors_grow [of r] by simp

lemma skips_kept: "rep_skipped_checks (step r) = [] \<Longrightarrow> rep_skipped_checks r = []"
  using skips_grow [of r] by simp

end

text \<open>Steps compose, also under a condition: the engine is built of them.\<close>

lemma same_scan_refl [simp]: "same_scan r r"
  by (simp add: same_scan_def)

lemma same_scan_trans: "same_scan r s \<Longrightarrow> same_scan s t \<Longrightarrow> same_scan r t"
  by (simp add: same_scan_def)

lemma report_step_id: "report_step (\<lambda>r. r)"
  by unfold_locales simp_all

lemma report_step_comp:
  assumes "report_step f" and "report_step g"
  shows "report_step (\<lambda>r. g (f r))"
proof -
  show ?thesis
  proof
    show "report_wf r \<Longrightarrow> report_wf (g (f r))" for r
      using assms by (simp add: report_step_def)
    show "same_scan r (g (f r))" for r
      using assms same_scan_trans unfolding report_step_def by blast
    show "set (rep_errors r) \<subseteq> set (rep_errors (g (f r)))" for r
      using assms unfolding report_step_def by blast
    show "set (rep_skipped_checks r) \<subseteq> set (rep_skipped_checks (g (f r)))" for r
      using assms unfolding report_step_def by blast
    show "rep_status (g (f r)) = NotStarted \<Longrightarrow> rep_status r = NotStarted" for r
      using assms unfolding report_step_def by blast
  qed
qed


lemma report_step_If: "report_step f \<Longrightarrow> report_step g \<Longrightarrow> report_step (\<lambda>r. if P r then f r else g r)"
proof
  assume f: "report_step f" and g: "report_step g"
  fix r
  show "report_wf r \<Longrightarrow> report_wf (if P r then f r else g r)"
    using report_step.keeps_wf [OF f] report_step.keeps_wf [OF g] by simp
  show "same_scan r (if P r then f r else g r)"
    using report_step.keeps_scan [OF f] report_step.keeps_scan [OF g] by simp
  show "set (rep_errors r) \<subseteq> set (rep_errors (if P r then f r else g r))"
    using report_step.errors_grow [OF f, of r] report_step.errors_grow [OF g, of r] by (cases "P r") simp_all
  show "set (rep_skipped_checks r) \<subseteq> set (rep_skipped_checks (if P r then f r else g r))"
    using report_step.skips_grow [OF f, of r] report_step.skips_grow [OF g, of r] by (cases "P r") simp_all
  show "rep_status (if P r then f r else g r) = NotStarted \<Longrightarrow> rep_status r = NotStarted"
    using report_step.stays_started [OF f, of r] report_step.stays_started [OF g, of r] by (cases "P r") simp_all
qed

lemma report_step_foldl: "(\<And>x. report_step (step x)) \<Longrightarrow> report_step (\<lambda>r. foldl (\<lambda>r x. step x r) r xs)"
proof (induction xs)
  case Nil
  then show ?case by (simp add: report_step_id)
next
  case (Cons x xs)
  from report_step_comp [OF Cons.prems [of x] Cons.IH [OF Cons.prems]] show ?case by simp
qed

lemma report_step_fields:
  \<comment> \<open>a step that writes observations only\<close>
  assumes "\<And>r. same_scan r (step r)" and "\<And>r. rep_errors (step r) = rep_errors r"
    and "\<And>r. rep_skipped_checks (step r) = rep_skipped_checks r" and "\<And>r. rep_status (step r) = rep_status r"
  shows "report_step step"
  using assms by unfold_locales (simp_all add: report_wf_def)

section \<open>The operations keep the contract\<close>

interpretation skipping: report_step "add_skipped_check check reason" for check reason
  by unfold_locales
    (auto simp: add_skipped_check_def report_wf_def same_scan_def list_all_iff push_def split: if_splits)

interpretation erring: report_step "add_report_error e" for e
  by unfold_locales (auto simp: add_report_error_def report_wf_def same_scan_def)

lemma report_step_skip_if: "report_step (\<lambda>r. if b then add_skipped_check check reason r else r)"
  using skipping.report_step_axioms report_step_id by (cases b) simp_all

interpretation selecting: report_step "record_selection_skips selection" for selection
  unfolding record_selection_skips_def [abs_def]
  by (rule report_step_foldl) (simp add: split_def report_step_skip_if)

interpretation unfinished: report_step "record_unfinished_checks stage selection reason" for stage selection reason
  unfolding record_unfinished_checks_def [abs_def]
  by (rule report_step_foldl) (simp add: split_def report_step_skip_if)

lemma skip_step_fields [simp]:
  "rep_status (add_skipped_check c m r) = rep_status r"
  "rep_errors (add_skipped_check c m r) = rep_errors r"
  "rep_message (add_skipped_check c m r) = rep_message r"
  "rep_completed_at (add_skipped_check c m r) = rep_completed_at r"
  "has_observations (add_skipped_check c m r) = has_observations r"
  by (simp_all add: add_skipped_check_def has_observations_def)

lemma foldl_keeps: "(\<And>r x. field (step r x) = field r) \<Longrightarrow> field (foldl step r xs) = field r"
  by (induction xs arbitrary: r) simp_all

lemma unfinished_fields [simp]:
  "rep_status (record_unfinished_checks stage sel m r) = rep_status r"
  "rep_errors (record_unfinished_checks stage sel m r) = rep_errors r"
  "rep_message (record_unfinished_checks stage sel m r) = rep_message r"
  "rep_completed_at (record_unfinished_checks stage sel m r) = rep_completed_at r"
  unfolding record_unfinished_checks_def
  by (rule foldl_keeps, simp split: prod.split)+

lemma selection_skip_fields [simp]:
  "rep_status (record_selection_skips sel r) = rep_status r"
  "rep_errors (record_selection_skips sel r) = rep_errors r"
  "rep_completed_at (record_selection_skips sel r) = rep_completed_at r"
  unfolding record_selection_skips_def
  by (rule foldl_keeps, simp split: prod.split)+

interpretation ending: report_step "terminate stage selection kind message" for stage selection kind message
proof
  fix r
  let ?r = "r\<lparr>rep_status := terminal_status kind r, rep_message := message\<rparr>"
  let ?e = "new_scan_error stage (tgt_hostname (rep_target r)) kind message (terminal_status kind r \<noteq> Failed)"
  let ?s = "add_report_error ?e ?r"
  have t: "terminate stage selection kind message r = r \<or>
      terminate stage selection kind message r = record_unfinished_checks stage selection message ?s"
    by (simp add: terminate_def Let_def)
  have skips: "rep_skipped_checks ?s = rep_skipped_checks r" by (simp add: add_report_error_def)
  have scan: "same_scan r ?s" by (simp add: same_scan_def add_report_error_def)
  have "rep_status ?s = Interrupted \<Longrightarrow> kind = Err_Cancelled"
    by (auto simp: add_report_error_def terminal_status_def split: scan_error_kind.splits if_splits)
  then have wf: "report_wf r \<Longrightarrow> report_wf ?s"
    by (auto simp: report_wf_def add_report_error_def new_scan_error_def)
  show "report_wf r \<Longrightarrow> report_wf (terminate stage selection kind message r)"
    using t unfinished.keeps_wf wf by metis
  show "same_scan r (terminate stage selection kind message r)"
    using t unfinished.keeps_scan scan same_scan_trans same_scan_refl by metis
  show "set (rep_errors r) \<subseteq> set (rep_errors (terminate stage selection kind message r))"
    using t by (auto simp: add_report_error_def)
  show "set (rep_skipped_checks r) \<subseteq> set (rep_skipped_checks (terminate stage selection kind message r))"
    using t skips unfinished.skips_grow order_refl by metis
  show "rep_status (terminate stage selection kind message r) = NotStarted \<Longrightarrow> rep_status r = NotStarted"
    using t by (auto simp: add_report_error_def terminal_status_def split: scan_error_kind.splits if_splits)
qed

interpretation settling: report_step settle
  by unfold_locales (auto simp: settle_def report_wf_def same_scan_def split: if_splits)

interpretation interrupting: report_step "check_interruption i stage selection cm tm" for i stage selection cm tm
  unfolding check_interruption_def [abs_def]
  by (intro report_step_If ending.report_step_axioms report_step_id)


section \<open>What the operations record\<close>

definition skip_names :: "scan_report \<Rightarrow> string set" where
  "skip_names r = skip_check ` set (rep_skipped_checks r)"

lemma add_skipped_check_skips:
  "rep_skipped_checks (add_skipped_check c m r) =
   rep_skipped_checks r @ (if c \<in> skip_names r then [] else [\<lparr>skip_check = c, skip_reason = m\<rparr>])"
  by (auto simp: add_skipped_check_def skip_names_def list_all_iff push_def)

lemma skip_names_add [simp]: "skip_names (add_skipped_check c m r) = insert c (skip_names r)"
  by (auto simp: add_skipped_check_skips skip_names_def)

lemma skips_foldl:
  "distinct (map fst xs) \<Longrightarrow>
   rep_skipped_checks (foldl (\<lambda>r (c, x). if P x then add_skipped_check c m r else r) r xs) =
   rep_skipped_checks r @ map (\<lambda>c. \<lparr>skip_check = c, skip_reason = m\<rparr>)
     (filter (\<lambda>c. c \<notin> skip_names r) (map fst (filter (P \<circ> snd) xs)))"
proof (induction xs arbitrary: r)
  case (Cons x xs)
  obtain c y where x: "x = (c, y)" by (cases x)
  have "c \<noteq> d" if "d \<in> set (map fst (filter (P \<circ> snd) xs))" for d
    using that Cons.prems by (auto simp: x)
  then have "filter (\<lambda>d. d \<noteq> c \<and> d \<notin> skip_names r) (map fst (filter (P \<circ> snd) xs)) =
      filter (\<lambda>d. d \<notin> skip_names r) (map fst (filter (P \<circ> snd) xs))"
    by (intro filter_cong) auto
  with Cons show ?case by (auto simp: x add_skipped_check_skips comp_def)
qed simp

definition unfinished_checks :: "scan_stage \<Rightarrow> scan_selection \<Rightarrow> string list" where
  \<comment> \<open>the selected checks that belong to the given stage or a later one\<close>
  "unfinished_checks stopped selection =
     [c. (c, stage, selected) \<leftarrow> stage_checks selection, selected \<and> stage_rank stopped \<le> stage_rank stage]"

lemma unfinished_skips:
  "rep_skipped_checks (record_unfinished_checks stopped selection m r) =
   rep_skipped_checks r @ map (\<lambda>c. \<lparr>skip_check = c, skip_reason = m\<rparr>)
     (filter (\<lambda>c. c \<notin> skip_names r) (unfinished_checks stopped selection))"
proof -
  have d: "distinct (map fst (stage_checks selection))" by (simp add: stage_checks_def)
  have "unfinished_checks stopped selection =
      map fst (filter ((\<lambda>(s, b). b \<and> stage_rank stopped \<le> stage_rank s) \<circ> snd) (stage_checks selection))"
    by (simp add: unfinished_checks_def stage_checks_def)
  with skips_foldl [OF d, of "\<lambda>(s, b). b \<and> stage_rank stopped \<le> stage_rank s" m r]
  show ?thesis by (simp add: record_unfinished_checks_def split_def)
qed

lemma terminate_skips:
  "\<not> (rep_status r = Interrupted \<and> kind = Err_Cancelled) \<Longrightarrow>
   \<not> (rep_status r = Failed \<and> kind = Err_Timeout) \<Longrightarrow>
   rep_skipped_checks (terminate stage selection kind m r) =
   rep_skipped_checks r @ map (\<lambda>c. \<lparr>skip_check = c, skip_reason = m\<rparr>)
     (filter (\<lambda>c. c \<notin> skip_names r) (unfinished_checks stage selection))"
  by (auto simp: terminate_def Let_def unfinished_skips skip_names_def add_report_error_def)

lemma terminate_fields:
  "\<not> (rep_status r = Interrupted \<and> kind = Err_Cancelled) \<Longrightarrow>
   \<not> (rep_status r = Failed \<and> kind = Err_Timeout) \<Longrightarrow>
   rep_status (terminate stage selection kind m r) = terminal_status kind r \<and>
   rep_message (terminate stage selection kind m r) = m \<and>
   rep_errors (terminate stage selection kind m r) =
     rep_errors r @ [new_scan_error stage (tgt_hostname (rep_target r)) kind m (terminal_status kind r \<noteq> Failed)]"
  by (simp add: terminate_def Let_def add_report_error_def push_def)

section \<open>What the operations leave alone\<close>

definition observed :: "scan_report \<Rightarrow> dns_observation option \<times> host_observation list \<times>
    service_observation list \<times> http_observation list \<times> tls_observation list" where
  "observed r = (rep_dns r, rep_hosts r, rep_services r, rep_http r, rep_tls r)"

definition conclusions :: "scan_report \<Rightarrow> finding list \<times> exposure_score option \<times>
    intelligence_observation option \<times> int option" where
  "conclusions r = (rep_findings r, rep_exposure_score r, rep_intelligence r, rep_completed_at r)"

lemma has_observations_observed: "observed r = observed s \<Longrightarrow> has_observations r = has_observations s"
  by (simp add: observed_def has_observations_def)

lemma skip_observed [simp]: "observed (add_skipped_check c m r) = observed r"
  by (simp add: add_skipped_check_def observed_def)

lemma skip_conclusions [simp]: "conclusions (add_skipped_check c m r) = conclusions r"
  by (simp add: add_skipped_check_def conclusions_def)

lemma error_observed [simp]: "observed (add_report_error e r) = observed r"
  by (simp add: add_report_error_def observed_def)

lemma selection_skips_observed [simp]: "observed (record_selection_skips sel r) = observed r"
  unfolding record_selection_skips_def by (rule foldl_keeps, simp split: prod.split)

lemma unfinished_observed [simp]: "observed (record_unfinished_checks stage sel m r) = observed r"
  unfolding record_unfinished_checks_def by (rule foldl_keeps, simp split: prod.split)

lemma unfinished_conclusions [simp]: "conclusions (record_unfinished_checks stage sel m r) = conclusions r"
  unfolding record_unfinished_checks_def by (rule foldl_keeps, simp split: prod.split)

lemma terminate_keeps [simp]:
  "observed (terminate stage sel kind m r) = observed r"
  "conclusions (terminate stage sel kind m r) = conclusions r"
  by (simp_all add: terminate_def Let_def)
    (simp_all add: add_report_error_def observed_def conclusions_def)

lemma settle_keeps [simp]:
  "observed (settle r) = observed r"
  "conclusions (settle r) = conclusions r"
  by (simp_all add: settle_def observed_def conclusions_def)

lemma check_interruption_keeps [simp]:
  "observed (check_interruption i stage sel cm tm r) = observed r"
  "conclusions (check_interruption i stage sel cm tm r) = conclusions r"
  by (simp_all add: check_interruption_def)

section \<open>Finalisation\<close>

definition preflight_failed :: "scan_report \<Rightarrow> bool" where
  "preflight_failed r \<longleftrightarrow> (\<exists>e \<in> set (rep_errors r). err_stage e = Stage_Preflight)"

definition closing_report :: "interruption \<Rightarrow> int \<Rightarrow> scan_report \<Rightarrow> scan_report" where
  \<comment> \<open>the report \<open>finalize\<close> scores\<close>
  "closing_report before now r =
     (let r' = if interrupted before then
                 check_interruption before Stage_Findings selection_all
                   ''scan interrupted during findings finalization''
                   ''global timeout expired during findings finalization'' r
               else settle r
      in r'\<lparr>rep_findings := report_findings now r'\<rparr>)"

lemma finalize_open:
  "rep_completed_at r = None \<Longrightarrow> \<not> preflight_failed r \<Longrightarrow>
   finalize before after now finished r =
     (let c = closing_report before now r;
          s = check_interruption after Stage_Findings selection_all
              ''scan interrupted after findings finalization''
              ''global timeout expired after findings finalization''
              (c\<lparr>rep_exposure_score := Some (calculate_exposure c)\<rparr>)
      in (s\<lparr>rep_completed_at := Some finished\<rparr>,
          [Started Stage_Findings, StageCompleted Stage_Findings (length (rep_findings c))]))"
  by (simp add: finalize_def closing_report_def preflight_failed_def list_ex_iff Let_def)

lemma finalize_closed:
  "rep_completed_at r \<noteq> None \<Longrightarrow> finalize before after now finished r = (r, [])"
  by (simp add: finalize_def)

lemma finalize_preflight:
  "rep_completed_at r = None \<Longrightarrow> preflight_failed r \<Longrightarrow>
   finalize before after now finished r = (r\<lparr>rep_completed_at := Some finished\<rparr>, [])"
  by (simp add: finalize_def preflight_failed_def list_ex_iff)

interpretation scoring: report_step "\<lambda>r. r\<lparr>rep_exposure_score := score r\<rparr>" for score
  by (rule report_step_fields) (simp_all add: same_scan_def)

interpretation finding_step: report_step "\<lambda>r. r\<lparr>rep_findings := fs r\<rparr>" for fs
  by (rule report_step_fields) (simp_all add: same_scan_def)

interpretation closing_time: report_step "\<lambda>r. r\<lparr>rep_completed_at := t\<rparr>" for t
  by (rule report_step_fields) (simp_all add: same_scan_def)

interpretation closing: report_step "closing_report before now" for before now
proof -
  have "report_step (\<lambda>r. if interrupted before then
      check_interruption before Stage_Findings selection_all m t r else settle r)" for m t
    by (intro report_step_If interrupting.report_step_axioms settling.report_step_axioms)
  from report_step_comp [OF this finding_step.report_step_axioms]
  show "report_step (closing_report before now)"
    unfolding closing_report_def [abs_def] Let_def .
qed

interpretation finalizing: report_step "\<lambda>r. fst (finalize before after now finished r)"
  for before after now finished
proof -
  note closing = report_step_comp [OF closing.report_step_axioms report_step_comp
      [OF scoring.report_step_axioms report_step_comp
        [OF interrupting.report_step_axioms closing_time.report_step_axioms]]]
  have "report_step (\<lambda>r. if rep_completed_at r \<noteq> None then r
      else if preflight_failed r then r\<lparr>rep_completed_at := Some finished\<rparr>
      else (check_interruption after Stage_Findings selection_all
              ''scan interrupted after findings finalization''
              ''global timeout expired after findings finalization''
              ((closing_report before now r)\<lparr>rep_exposure_score :=
                 Some (calculate_exposure (closing_report before now r))\<rparr>))
             \<lparr>rep_completed_at := Some finished\<rparr>)"
    by (intro report_step_If report_step_id closing_time.report_step_axioms closing)
  moreover have "fst (finalize before after now finished r) = (if rep_completed_at r \<noteq> None then r
      else if preflight_failed r then r\<lparr>rep_completed_at := Some finished\<rparr>
      else (check_interruption after Stage_Findings selection_all
              ''scan interrupted after findings finalization''
              ''global timeout expired after findings finalization''
              ((closing_report before now r)\<lparr>rep_exposure_score :=
                 Some (calculate_exposure (closing_report before now r))\<rparr>))
             \<lparr>rep_completed_at := Some finished\<rparr>)" for r
    by (cases "rep_completed_at r"; cases "preflight_failed r")
      (simp_all add: finalize_open finalize_closed finalize_preflight Let_def)
  ultimately show "report_step (\<lambda>r. fst (finalize before after now finished r))" by simp
qed

section \<open>Properties\<close>

text \<open>
  Stopping a scan early sets the status the kind of the stop asks for (a configuration error fails it,
  a cancellation interrupts it, a timeout fails it only when nothing was observed), appends exactly one
  error, recoverable unless the scan failed, and appends one skip entry with the stop's message for exactly
  the selected checks of the stopped stage and the later ones that have no entry yet; a repeated
  cancellation, and a timeout of a failed scan, change nothing.
\<close>

theorem terminate_exact:
  "if rep_status r = Interrupted \<and> kind = Err_Cancelled \<or> rep_status r = Failed \<and> kind = Err_Timeout
   then terminate stage selection kind m r = r
   else
     rep_status (terminate stage selection kind m r) =
       (if kind = Err_Configuration then Failed
        else if kind = Err_Cancelled then Interrupted
        else if kind = Err_Timeout \<and> \<not> has_observations r then Failed else Partial) \<and>
     rep_message (terminate stage selection kind m r) = m \<and>
     rep_errors (terminate stage selection kind m r) =
       rep_errors r @ [new_scan_error stage (tgt_hostname (rep_target r)) kind m
         (rep_status (terminate stage selection kind m r) \<noteq> Failed)] \<and>
     rep_skipped_checks (terminate stage selection kind m r) =
       rep_skipped_checks r @ map (\<lambda>c. \<lparr>skip_check = c, skip_reason = m\<rparr>)
         (filter (\<lambda>c. c \<notin> skip_names r) (unfinished_checks stage selection))"
proof (cases "rep_status r = Interrupted \<and> kind = Err_Cancelled \<or> rep_status r = Failed \<and> kind = Err_Timeout")
  case True
  then show ?thesis by (auto simp: terminate_def)
next
  case False
  then have *: "\<not> (rep_status r = Interrupted \<and> kind = Err_Cancelled)"
    "\<not> (rep_status r = Failed \<and> kind = Err_Timeout)" by auto
  have "terminal_status kind r =
       (if kind = Err_Configuration then Failed
        else if kind = Err_Cancelled then Interrupted
        else if kind = Err_Timeout \<and> \<not> has_observations r then Failed else Partial)"
    by (cases kind) (simp_all add: terminal_status_def)
  with terminate_fields [OF *, of stage selection m] terminate_skips [OF *, of stage selection m]
  show ?thesis unfolding if_not_P [OF False] by simp
qed

lemma report_findings_cong:
  "observed r = observed s \<Longrightarrow> rep_target r = rep_target s \<Longrightarrow> report_findings now r = report_findings now s"
  by (simp add: observed_def report_findings_def target_name_def split: option.split)

lemma closing_findings: "rep_findings (closing_report before now r) = report_findings now r"
proof -
  have "report_findings now (check_interruption before stage sel cm tm r) = report_findings now r"
    for stage sel cm tm
    by (rule report_findings_cong) simp_all
  moreover have "report_findings now (settle r) = report_findings now r"
    by (rule report_findings_cong) simp_all
  ultimately show ?thesis by (simp add: closing_report_def Let_def)
qed

lemma observed_simps [simp]:
  "observed (r\<lparr>rep_findings := fs\<rparr>) = observed r"
  "observed (r\<lparr>rep_exposure_score := s\<rparr>) = observed r"
  "observed (r\<lparr>rep_completed_at := t\<rparr>) = observed r"
  by (simp_all add: observed_def)

lemma closing_observed: "observed (closing_report before now r) = observed r"
  by (simp add: closing_report_def Let_def)

text \<open>
  Finalising an unfinished report closes it for good and keeps every observation: a report with a
  preflight error is only stamped, any other gets exactly the findings of its own observations, a score and
  the two progress events of the findings stage, and finalising again changes nothing.
\<close>

theorem finalize_closes:
  assumes "rep_completed_at r = None"
  shows "case finalize before after now finished r of (s, events) \<Rightarrow>
    rep_completed_at s = Some finished \<and>
    finalize before' after' now' finished' s = (s, []) \<and>
    same_scan r s \<and> observed s = observed r \<and>
    (if preflight_failed r then s = r\<lparr>rep_completed_at := Some finished\<rparr> \<and> events = []
     else rep_findings s = report_findings now r \<and> rep_exposure_score s \<noteq> None \<and>
       events = [Started Stage_Findings, StageCompleted Stage_Findings (length (report_findings now r))])"
proof (cases "preflight_failed r")
  case True
  with assms show ?thesis by (simp add: finalize_preflight finalize_closed same_scan_def)
next
  case False
  let ?c = "(closing_report before now r)\<lparr>rep_exposure_score := Some (calculate_exposure (closing_report before now r))\<rparr>"
  let ?t = "check_interruption after Stage_Findings selection_all
              ''scan interrupted after findings finalization''
              ''global timeout expired after findings finalization'' ?c"
  let ?s = "?t\<lparr>rep_completed_at := Some finished\<rparr>"
  have f: "finalize before after now finished r =
      (?s, [Started Stage_Findings, StageCompleted Stage_Findings (length (report_findings now r))])"
    by (simp add: finalize_open [OF assms False] Let_def closing_findings)
  have "conclusions ?t = conclusions ?c" by simp
  then have "rep_findings ?s = report_findings now r" "rep_exposure_score ?s \<noteq> None"
    by (simp_all add: conclusions_def closing_findings)
  moreover have "same_scan r ?s"
    using finalizing.keeps_scan [of r before after now finished] by (simp add: f)
  moreover have "observed ?s = observed r" by (simp add: closing_observed)
  ultimately show ?thesis using False by (simp add: f finalize_closed)
qed

theorem finalize_closes_witness:
  "case finalize \<lparr>int_cancelled = False, int_expired = True\<rparr> \<lparr>int_cancelled = True, int_expired = True\<rparr> 1 2 sample_report of
     (s, events) \<Rightarrow> rep_completed_at s = Some 2"
proof -
  have "rep_completed_at sample_report = None" by (simp add: sample_report_def not_started_def)
  from finalize_closes [OF this, where before = "\<lparr>int_cancelled = False, int_expired = True\<rparr>"
      and after = "\<lparr>int_cancelled = True, int_expired = True\<rparr>" and now = 1 and finished = 2]
  show ?thesis by (auto split: prod.splits)
qed

lemma settle_status:
  "rep_status (settle r) =
    (if rep_status r \<in> {Interrupted, Failed, Partial} then rep_status r
     else if rep_errors r = [] \<and> \<not> dns_indeterminate r then Completed else Partial)"
  by (simp add: settle_def)

lemma terminate_never_complete:
  "rep_status (terminate stage sel Err_Cancelled m r) = Interrupted"
  "rep_status (terminate stage sel Err_Timeout m r) \<in> {Failed, Partial}"
  using terminate_exact [of r Err_Cancelled stage sel m] terminate_exact [of r Err_Timeout stage sel m]
  by (auto split: if_splits)

lemma check_interruption_status:
  "\<not> interrupted i \<Longrightarrow> check_interruption i stage sel cm tm r = r"
  "int_cancelled i \<Longrightarrow> rep_status (check_interruption i stage sel cm tm r) = Interrupted"
  "interrupted i \<Longrightarrow> \<not> int_cancelled i \<Longrightarrow>
     rep_status (check_interruption i stage sel cm tm r) \<in> {Failed, Partial}"
  using terminate_never_complete by (auto simp: interrupted_def check_interruption_def)

lemma closing_status:
  "rep_status (closing_report before now r) \<noteq> NotStarted"
  "rep_status (closing_report before now r) = Completed \<longleftrightarrow>
     \<not> interrupted before \<and> rep_status r \<notin> {Interrupted, Failed, Partial} \<and>
     rep_errors r = [] \<and> \<not> dns_indeterminate r"
proof -
  let ?t = "check_interruption before Stage_Findings selection_all
      ''scan interrupted during findings finalization''
      ''global timeout expired during findings finalization'' r"
  have "interrupted before \<Longrightarrow> rep_status ?t \<in> {Interrupted, Failed, Partial}"
    by (cases "int_cancelled before") (use check_interruption_status(2,3) in auto)
  then show "rep_status (closing_report before now r) \<noteq> NotStarted"
    "rep_status (closing_report before now r) = Completed \<longleftrightarrow>
     \<not> interrupted before \<and> rep_status r \<notin> {Interrupted, Failed, Partial} \<and>
     rep_errors r = [] \<and> \<not> dns_indeterminate r"
    by (auto simp: closing_report_def Let_def settle_status)
qed

lemma finalize_completed_at: "rep_completed_at r = None \<Longrightarrow>
   rep_completed_at (fst (finalize before after now finished r)) = Some finished"
  by (cases "preflight_failed r") (simp_all add: finalize_preflight finalize_open Let_def)

lemma finalize_status:
  assumes "rep_completed_at r = None" and "\<not> preflight_failed r"
  shows "rep_status (fst (finalize before after now finished r)) =
    rep_status (check_interruption after Stage_Findings selection_all
      ''scan interrupted after findings finalization''
      ''global timeout expired after findings finalization''
      ((closing_report before now r)\<lparr>rep_exposure_score := Some (calculate_exposure (closing_report before now r))\<rparr>))"
  by (simp add: finalize_open [OF assms] Let_def)

lemma finalize_outcome:
  assumes "rep_completed_at r = None" and "\<not> preflight_failed r"
  shows "(rep_status (fst (finalize before after now finished r)) = Completed \<longleftrightarrow>
      \<not> int_cancelled before \<and> \<not> int_expired before \<and> \<not> int_cancelled after \<and> \<not> int_expired after \<and>
      rep_status r \<notin> {Interrupted, Failed, Partial} \<and> rep_errors r = [] \<and> \<not> dns_indeterminate r) \<and>
    (int_cancelled after \<longrightarrow> rep_status (fst (finalize before after now finished r)) = Interrupted) \<and>
    rep_status (fst (finalize before after now finished r)) \<noteq> NotStarted"
proof -
  let ?c = "(closing_report before now r)\<lparr>rep_exposure_score := Some (calculate_exposure (closing_report before now r))\<rparr>"
  note st = check_interruption_status [of after Stage_Findings selection_all
      "''scan interrupted after findings finalization''"
      "''global timeout expired after findings finalization''" ?c]
  note closing = closing_status [of before now r]
  consider "\<not> interrupted after" | "int_cancelled after" | "interrupted after" "\<not> int_cancelled after"
    by (auto simp: interrupted_def)
  then show ?thesis
  proof cases
    case 1
    with st(1) closing show ?thesis by (auto simp: finalize_status [OF assms] interrupted_def)
  next
    case 2
    with st(2) show ?thesis by (simp add: finalize_status [OF assms])
  next
    case 3
    with st(3) show ?thesis by (auto simp: finalize_status [OF assms] interrupted_def)
  qed
qed

text \<open>
  C28: A finalised scan without a preflight error is reported completed exactly when it recorded no error,
  left no DNS check indeterminate, had not stopped early, and was neither cancelled nor out of time around
  the findings stage; cancellation after the findings always ends as interrupted; and no finalised scan is
  still marked as not started.
\<close>

theorem finalize_completed_iff:
  assumes "rep_completed_at r = None" and "\<not> preflight_failed r"
  shows "(rep_status (fst (finalize before after now finished r)) = Completed \<longleftrightarrow>
      \<not> int_cancelled before \<and> \<not> int_expired before \<and> \<not> int_cancelled after \<and> \<not> int_expired after \<and>
      rep_status r \<notin> {Interrupted, Failed, Partial} \<and> rep_errors r = [] \<and> \<not> dns_indeterminate r) \<and>
    (int_cancelled after \<longrightarrow> rep_status (fst (finalize before after now finished r)) = Interrupted) \<and>
    rep_status (fst (finalize before after now finished r)) \<noteq> NotStarted"
  using assms by (rule finalize_outcome)

theorem finalize_completed_iff_witness:
  "rep_status (fst (finalize \<lparr>int_cancelled = False, int_expired = False\<rparr>
     \<lparr>int_cancelled = False, int_expired = False\<rparr> 1 2 sample_report)) = Completed"
  by (rule finalize_completed_iff [THEN conjunct1, THEN iffD2])
    (simp_all add: sample_report_def not_started_def preflight_failed_def dns_indeterminate_def)

lemma calculate_exposure_cong:
  "rep_findings r = rep_findings s \<Longrightarrow> rep_status r = rep_status s \<Longrightarrow>
   rep_skipped_checks r = rep_skipped_checks s \<Longrightarrow> calculate_exposure r = calculate_exposure s"
  by (simp add: calculate_exposure_def)

text \<open>
  When neither cancellation nor the deadline is seen after the findings stage, the score of the
  finalised report is the score of that very report: its \<open>incomplete\<close> flag is set exactly when the status is
  not completed or a check was skipped.
\<close>

theorem finalize_score_current:
  assumes "rep_completed_at r = None" and "\<not> preflight_failed r" and "\<not> interrupted after"
  shows "let s = fst (finalize before after now finished r)
    in rep_exposure_score s = Some (calculate_exposure s) \<and>
       (score_incomplete (calculate_exposure s) \<longleftrightarrow> rep_status s \<noteq> Completed \<or> rep_skipped_checks s \<noteq> [])"
proof -
  have "calculate_exposure ((closing_report before now r)
      \<lparr>rep_exposure_score := x, rep_completed_at := Some finished\<rparr>) =
      calculate_exposure (closing_report before now r)" for x
    by (rule calculate_exposure_cong) simp_all
  then show ?thesis
    by (simp add: finalize_open [OF assms(1,2)] check_interruption_status(1) [OF assms(3)] Let_def)
      (simp add: calculate_exposure_def Let_def)
qed

theorem finalize_score_current_witness:
  "let s = fst (finalize \<lparr>int_cancelled = False, int_expired = True\<rparr>
     \<lparr>int_cancelled = False, int_expired = False\<rparr> 1 2 sample_report)
   in rep_exposure_score s = Some (calculate_exposure s)"
proof -
  have "rep_completed_at sample_report = None" "\<not> preflight_failed sample_report"
    "\<not> interrupted \<lparr>int_cancelled = False, int_expired = False\<rparr>"
    by (simp_all add: sample_report_def not_started_def preflight_failed_def interrupted_def)
  from finalize_score_current [OF this, where before = "\<lparr>int_cancelled = False, int_expired = True\<rparr>"
      and now = 1 and finished = 2]
  show ?thesis by (simp add: Let_def)
qed

lemma late_interruption_score:
  \<comment> \<open>a cancellation seen only after the findings leaves the score as it was computed before\<close>
  "let s = fst (finalize \<lparr>int_cancelled = False, int_expired = False\<rparr>
     \<lparr>int_cancelled = True, int_expired = False\<rparr> 1 2 sample_report)
   in rep_status s = Interrupted \<and> map_option score_incomplete (rep_exposure_score s) = Some False"
  by (simp add: sample_report_def not_started_def finalize_def interrupted_def settle_def
      dns_indeterminate_def check_interruption_def terminate_def terminal_status_def
      calculate_exposure_def report_findings_def target_name_def ip_target_def Let_def
      add_report_error_def record_unfinished_checks_def stage_checks_def)

end
