(* ===== verification/Ssh_Wire.thy ===== *)
theory Ssh_Wire
  imports Service
begin

text \<open>
  What the SSH check puts on and reads from the wire, \<^verbatim>\<open>crates/surface-core/src/ssh.rs\<close>: the identification
  line, the client's KEXINIT packet, and the reader of the server's. A connection is the bytes the peer
  sends before it closes or fails; \<open>read_exact\<close> fails when fewer are left. A reader returns the value and
  the bytes it leaves, or the text of the \<open>ProtocolError\<close>. A \<open>Cursor\<close> is the suffix of the payload from its
  position on: the position never passes the end, so the additions in it cannot overflow.
\<close>

section \<open>Model\<close>

definition MAX_IDENTIFICATION_BYTES :: nat where
  "MAX_IDENTIFICATION_BYTES = 255"

definition MAX_PRE_BANNER_LINES :: nat where
  "MAX_PRE_BANNER_LINES = 50"

definition MAX_PRE_BANNER_BYTES :: nat where
  "MAX_PRE_BANNER_BYTES = 4 * 1024"

definition MAX_PACKET_LENGTH_FIELD_VALUE :: nat where
  \<comment> \<open>\<open>MAX_TOTAL_PACKET_BYTES - PACKET_LENGTH_FIELD_BYTES\<close>\<close>
  "MAX_PACKET_LENGTH_FIELD_VALUE = 35000 - 4"

definition MAX_NAME_LIST_BYTES :: nat where
  "MAX_NAME_LIST_BYTES = 8 * 1024"

definition MAX_ALGORITHM_NAMES :: nat where
  "MAX_ALGORITHM_NAMES = 128"

definition SSH_MSG_KEXINIT :: nat where
  "SSH_MSG_KEXINIT = 20"

definition CLIENT_IDENTIFICATION :: bytes where
  "CLIENT_IDENTIFICATION = ''SSH-2.0-Surface_0.3'' @ crlf"

definition KEX_ALGORITHMS :: "string list" where
  "KEX_ALGORITHMS =
     [''curve25519-sha256'', ''ecdh-sha2-nistp256'', ''diffie-hellman-group16-sha512'',
      ''diffie-hellman-group14-sha256'', ''diffie-hellman-group14-sha1'', ''diffie-hellman-group1-sha1'']"

definition HOST_KEY_ALGORITHMS :: "string list" where
  "HOST_KEY_ALGORITHMS =
     [''ssh-ed25519'', ''ecdsa-sha2-nistp256'', ''rsa-sha2-512'', ''rsa-sha2-256'', ''ssh-rsa'', ''ssh-dss'']"

definition CIPHER_ALGORITHMS :: "string list" where
  "CIPHER_ALGORITHMS =
     [''aes256-ctr'', ''aes128-ctr'', ''3des-cbc'', ''arcfour'', ''arcfour128'', ''arcfour256'']"

definition MAC_ALGORITHMS :: "string list" where
  "MAC_ALGORITHMS = [''hmac-sha2-512'', ''hmac-sha2-256'', ''hmac-sha1'', ''hmac-md5'', ''hmac-md5-96'']"

definition COMPRESSION_ALGORITHMS :: "string list" where
  "COMPRESSION_ALGORITHMS = [''none'']"

subsection \<open>The identification line\<close>

function valid_utf8 :: "bytes \<Rightarrow> bool" where
  \<comment> \<open>whether \<open>std::str::from_utf8\<close> succeeds\<close>
  "valid_utf8 bs =
     (if bs = [] then True
      else let (ok, n) = utf8_step bs in if ok then valid_utf8 (drop n bs) else False)"
  by pat_completeness auto
termination
proof (relation "measure length")
  fix bs :: bytes and x ok n
  assume "bs \<noteq> []" and "x = utf8_step bs" and "(ok, n) = x"
  then show "(drop n bs, bs) \<in> measure length"
    using utf8_step_pos [of bs] by (cases "utf8_step bs") auto
qed simp

declare valid_utf8.simps [simp del]

definition is_graphic :: "char \<Rightarrow> bool" where
  \<comment> \<open>\<open>(b'!'..=b'~').contains\<close>\<close>
  "is_graphic c \<longleftrightarrow> 33 \<le> byte c \<and> byte c \<le> 126"

definition is_printable :: "char \<Rightarrow> bool" where
  \<comment> \<open>\<open>(b' '..=b'~').contains\<close>\<close>
  "is_printable c \<longleftrightarrow> 32 \<le> byte c \<and> byte c \<le> 126"

definition sanitize_text :: "string \<Rightarrow> string" where
  "sanitize_text v = sanitize_chars MAX_IDENTIFICATION_BYTES v"

definition identification_software :: "string \<Rightarrow> string + string" where
  \<comment> \<open>the part of \<open>parse_identification\<close> after the protocol version\<close>
  "identification_software software_and_comment =
     (let (software, comment) =
        (case split_once CHR '' '' software_and_comment of
           Some (s, c) \<Rightarrow> (s, Some c)
         | None \<Rightarrow> (software_and_comment, None))
      in if software = [] \<or> \<not> list_all is_graphic software then Inl ''invalid SSH software version''
         else Inr (sanitize_text
           (case comment of
              Some c \<Rightarrow> if c \<noteq> [] then software @ '' '' @ sanitize_text c else software
            | None \<Rightarrow> software)))"

definition parse_identification :: "bytes \<Rightarrow> string + ssh_identification" where
  "parse_identification line =
     (if MAX_IDENTIFICATION_BYTES < length line then Inl ''server identification exceeds 255 bytes''
      else case strip_suffix line crlf of
        None \<Rightarrow> Inl ''server identification requires CRLF''
      | Some content \<Rightarrow>
          if CHR 0x00 \<in> set content then Inl ''server identification contains NUL''
          else if \<not> valid_utf8 content then Inl ''server identification is not valid ASCII''
          else if \<not> list_all is_printable content then Inl ''server identification contains invalid ASCII''
          else (case strip_prefix content ''SSH-'' of
              None \<Rightarrow> Inl ''invalid server identification prefix''
            | Some rest \<Rightarrow>
                (case split_once CHR ''-'' rest of
                   None \<Rightarrow> Inl ''invalid server identification fields''
                 | Some (protocol, software_and_comment) \<Rightarrow>
                     if protocol \<noteq> ''2.0'' \<and> protocol \<noteq> ''1.99'' then Inl ''unsupported SSH protocol version''
                     else (case identification_software software_and_comment of
                         Inl e \<Rightarrow> Inl e
                       | Inr software \<Rightarrow> Inr \<lparr>ssh_protocol = protocol, ssh_software = software\<rparr>))))"

datatype ident_step = Ident_Refused string | Ident_More bytes nat nat | Ident_Line bytes

definition ident_byte :: "bytes \<Rightarrow> nat \<Rightarrow> nat \<Rightarrow> char \<Rightarrow> ident_step" where
  \<comment> \<open>one turn of the loop of \<open>read_identification\<close> with the byte it read; the other arguments are \<open>line\<close> up
      to \<open>line_length\<close>, \<open>pre_banner_lines\<close> and \<open>pre_banner_bytes\<close>, as is what \<open>Ident_More\<close> goes on with\<close>
  "ident_byte line lines used b =
     (if length line = MAX_PRE_BANNER_BYTES + 1 then Ident_Refused ''pre-banner byte limit exceeded''
      else if line \<noteq> [] \<and> last line = CHR 0x0d \<and> b \<noteq> CHR 0x0a then
        Ident_Refused ''SSH line contains bare carriage return''
      else if b \<noteq> CHR 0x0d \<and> b \<noteq> CHR 0x0a \<and> is_ascii_control b then
        Ident_Refused ''SSH line contains a control character''
      else
        let line = push line b;
            could_be_identification = (starts_with ''SSH-'' line \<or> starts_with line ''SSH-'')
        in if starts_with line ''SSH-'' \<and> MAX_IDENTIFICATION_BYTES < length line then
             Ident_Refused ''server identification exceeds 255 bytes''
           else if \<not> could_be_identification \<and> MAX_PRE_BANNER_BYTES < used + length line then
             Ident_Refused ''pre-banner byte limit exceeded''
           else if b \<noteq> CHR 0x0a then Ident_More line lines used
           else if length line < 2 \<or> line ! (length line - 2) \<noteq> CHR 0x0d then
             Ident_Refused ''SSH line requires CRLF''
           else if starts_with line ''SSH-'' then Ident_Line line
           else if MAX_PRE_BANNER_LINES < lines + 1 then Ident_Refused ''pre-banner line limit exceeded''
           else if MAX_PRE_BANNER_BYTES < used + length line then
             Ident_Refused ''pre-banner byte limit exceeded''
           else Ident_More [] (lines + 1) (used + length line))"

fun read_identification_loop ::
    "bytes \<Rightarrow> nat \<Rightarrow> nat \<Rightarrow> bytes \<Rightarrow> string + ssh_identification \<times> bytes" where
  "read_identification_loop line lines used [] = Inl ''server identification truncated''"
| "read_identification_loop line lines used (b # stream) =
     (case ident_byte line lines used b of
        Ident_Refused e \<Rightarrow> Inl e
      | Ident_More line lines used \<Rightarrow> read_identification_loop line lines used stream
      | Ident_Line line \<Rightarrow>
          (case parse_identification line of Inl e \<Rightarrow> Inl e | Inr i \<Rightarrow> Inr (i, stream)))"

definition read_identification :: "bytes \<Rightarrow> string + ssh_identification \<times> bytes" where
  "read_identification stream = read_identification_loop [] 0 0 stream"

subsection \<open>The client's packet\<close>

definition u32_be :: "nat \<Rightarrow> bytes" where
  \<comment> \<open>\<open>u32::to_be_bytes\<close>\<close>
  "u32_be n = map char_of [n div 16777216 mod 256, n div 65536 mod 256, n div 256 mod 256, n mod 256]"

definition append_name_list :: "bytes \<Rightarrow> string list \<Rightarrow> bytes" where
  "append_name_list payload names =
     (let v = join '','' names in payload @ u32_be (length v) @ v)"

definition kexinit_payload :: "bytes \<Rightarrow> string list list \<Rightarrow> bytes" where
  \<comment> \<open>the payload, built from the cookie and the ten lists\<close>
  "kexinit_payload cookie name_lists =
     foldl append_name_list (char_of SSH_MSG_KEXINIT # cookie) name_lists @ [char_of (0 :: nat)] @ u32_be 0"

definition binary_packet :: "bytes \<Rightarrow> bytes \<Rightarrow> bytes" where
  \<comment> \<open>the framing, with the random bytes the padding is taken from\<close>
  "binary_packet payload random_padding =
     (let padding_length = 8 - (4 + 1 + length payload) mod 8;
          padding_length = (if padding_length < 4 then padding_length + 8 else padding_length);
          packet_length = 1 + length payload + padding_length
      in u32_be packet_length @ [char_of padding_length] @ payload @ take padding_length random_padding)"

definition client_name_lists :: "string list list" where
  "client_name_lists =
     [KEX_ALGORITHMS, HOST_KEY_ALGORITHMS, CIPHER_ALGORITHMS, CIPHER_ALGORITHMS, MAC_ALGORITHMS,
      MAC_ALGORITHMS, COMPRESSION_ALGORITHMS, COMPRESSION_ALGORITHMS, [], []]"

definition client_kexinit_packet :: "bytes \<Rightarrow> bytes \<Rightarrow> bytes" where
  \<comment> \<open>the two arguments are the random UUIDs of the cookie and of the padding\<close>
  "client_kexinit_packet cookie random_padding =
     binary_packet (kexinit_payload cookie client_name_lists) random_padding"


subsection \<open>The server's packet\<close>

definition read_exact :: "string \<Rightarrow> nat \<Rightarrow> bytes \<Rightarrow> string + bytes \<times> bytes" where
  \<comment> \<open>\<open>read_exact\<close> of a number of bytes with the error it is mapped to, and \<open>Cursor::take\<close>\<close>
  "read_exact message n stream =
     (if length stream < n then Inl message else Inr (take n stream, drop n stream))"

definition u32_from_be :: "bytes \<Rightarrow> nat" where
  "u32_from_be bs = be_value 256 (map byte bs)"

definition cursor_take :: "nat \<Rightarrow> bytes \<Rightarrow> string + bytes \<times> bytes" where
  "cursor_take n cursor = read_exact ''KEXINIT payload truncated'' n cursor"

definition cursor_byte :: "bytes \<Rightarrow> string + nat \<times> bytes" where
  "cursor_byte cursor =
     (case cursor_take 1 cursor of Inl e \<Rightarrow> Inl e | Inr (v, cursor) \<Rightarrow> Inr (byte (v ! 0), cursor))"

definition cursor_u32 :: "bytes \<Rightarrow> string + nat \<times> bytes" where
  "cursor_u32 cursor =
     (case cursor_take 4 cursor of Inl e \<Rightarrow> Inl e | Inr (v, cursor) \<Rightarrow> Inr (u32_from_be v, cursor))"

definition valid_domain_label :: "string \<Rightarrow> bool" where
  \<comment> \<open>the closure of \<open>valid_domain_name\<close>\<close>
  "valid_domain_label label \<longleftrightarrow>
     label \<noteq> [] \<and> length label \<le> 63 \<and>
     list_all (\<lambda>b. is_ascii_alphanumeric b \<or> b = CHR ''-'') label \<and>
     is_ascii_alphanumeric (hd label) \<and> is_ascii_alphanumeric (last label)"

definition valid_domain_name :: "string \<Rightarrow> bool" where
  "valid_domain_name domain \<longleftrightarrow>
     domain \<noteq> [] \<and> length domain \<le> 253 \<and> list_all valid_domain_label (split_on CHR ''.'' domain)"

definition valid_algorithm_name :: "string \<Rightarrow> bool" where
  "valid_algorithm_name name =
     (if name = [] \<or> 64 < length name \<or> \<not> list_all (\<lambda>b. is_graphic b \<and> b \<noteq> CHR '','') name then False
      else case split_on CHR ''@'' name of
        [] \<Rightarrow> False
      | [local] \<Rightarrow> local \<noteq> []
      | [local, domain] \<Rightarrow> local \<noteq> [] \<and> valid_domain_name domain
      | _ \<Rightarrow> False)"

definition cursor_name_list :: "bytes \<Rightarrow> string + string list \<times> bytes" where
  "cursor_name_list cursor =
     (case cursor_u32 cursor of
        Inl e \<Rightarrow> Inl e
      | Inr (n, cursor) \<Rightarrow>
          if MAX_NAME_LIST_BYTES < n then Inl ''KEXINIT name-list exceeds 8 KiB''
          else (case cursor_take n cursor of
              Inl e \<Rightarrow> Inl e
            | Inr (bs, cursor) \<Rightarrow>
                if bs = [] then Inr ([], cursor)
                else if \<not> valid_utf8 bs then Inl ''KEXINIT name-list is not ASCII''
                else let names = split_on CHR '','' bs
                  in if MAX_ALGORITHM_NAMES < length names then Inl ''KEXINIT name-list exceeds 128 names''
                     else if list_ex (\<lambda>name. \<not> valid_algorithm_name name) names then
                       Inl ''KEXINIT contains an invalid algorithm name''
                     else Inr (names, cursor)))"

fun cursor_name_lists :: "nat \<Rightarrow> bytes \<Rightarrow> string + string list list \<times> bytes" where
  \<comment> \<open>the loop of \<open>parse_kexinit\<close>\<close>
  "cursor_name_lists 0 cursor = Inr ([], cursor)"
| "cursor_name_lists (Suc n) cursor =
     (case cursor_name_list cursor of
        Inl e \<Rightarrow> Inl e
      | Inr (names, cursor) \<Rightarrow>
          (case cursor_name_lists n cursor of
             Inl e \<Rightarrow> Inl e
           | Inr (name_lists, cursor) \<Rightarrow> Inr (names # name_lists, cursor)))"

definition parse_kexinit_tail :: "string list list \<Rightarrow> bytes \<Rightarrow> string + string list list" where
  \<comment> \<open>the checks of \<open>parse_kexinit\<close> after the lists\<close>
  "parse_kexinit_tail name_lists cursor =
     (case cursor_byte cursor of
        Inl e \<Rightarrow> Inl e
      | Inr (follows, cursor) \<Rightarrow>
          if follows \<notin> {0, 1} then Inl ''invalid KEXINIT boolean''
          else (case cursor_u32 cursor of
              Inl e \<Rightarrow> Inl e
            | Inr (reserved, cursor) \<Rightarrow>
                if reserved \<noteq> 0 then Inl ''invalid KEXINIT reserved field''
                else if cursor \<noteq> [] then Inl ''KEXINIT contains trailing payload bytes''
                else Inr name_lists))"

definition parse_kexinit :: "bytes \<Rightarrow> string + string list list" where
  "parse_kexinit payload =
     (case cursor_byte payload of
        Inl e \<Rightarrow> Inl e
      | Inr (message, cursor) \<Rightarrow>
          if message \<noteq> SSH_MSG_KEXINIT then Inl ''server packet is not KEXINIT''
          else (case cursor_take 16 cursor of
              Inl e \<Rightarrow> Inl e
            | Inr (_, cursor) \<Rightarrow>
                (case cursor_name_lists 10 cursor of
                   Inl e \<Rightarrow> Inl e
                 | Inr (name_lists, cursor) \<Rightarrow> parse_kexinit_tail name_lists cursor)))"

definition packet_payload :: "bytes \<Rightarrow> string + bytes" where
  \<comment> \<open>the padding check of \<open>read_server_kexinit\<close> on the bytes after the length field\<close>
  "packet_payload packet =
     (let padding_length = byte (packet ! 0)
      in if padding_length < 4 \<or> length packet - 1 \<le> padding_length then Inl ''invalid server packet padding''
         else Inr (drop 1 (take (length packet - padding_length) packet)))"

definition read_server_kexinit :: "bytes \<Rightarrow> string + string list list" where
  "read_server_kexinit stream =
     (case read_exact ''server packet length truncated'' 4 stream of
        Inl e \<Rightarrow> Inl e
      | Inr (encoded_length, stream) \<Rightarrow>
          let packet_length = u32_from_be encoded_length
          in if MAX_PACKET_LENGTH_FIELD_VALUE < packet_length then
               Inl ''server packet exceeds 35,000 bytes total''
             else if packet_length < 12 \<or> (packet_length + 4) mod 8 \<noteq> 0 then Inl ''invalid server packet length''
             else (case read_exact ''server packet truncated'' packet_length stream of
                 Inl e \<Rightarrow> Inl e
               | Inr (packet, _) \<Rightarrow>
                   (case packet_payload packet of Inl e \<Rightarrow> Inl e | Inr payload \<Rightarrow> parse_kexinit payload)))"


section \<open>Lemmas\<close>

lemma length_u32_be [simp]: "length (u32_be n) = 4"
  by (simp add: u32_be_def)

lemma list_of_four: "length bs = 4 \<Longrightarrow> \<exists>a b c d. bs = [a, b, c, d]"
  by (auto simp: numeral_eq_Suc length_Suc_conv)

lemma u32_from_be_four: "u32_from_be [a, b, c, d] = ((byte a * 256 + byte b) * 256 + byte c) * 256 + byte d"
  by (simp add: u32_from_be_def be_value_def algebra_simps)

lemma u32_from_be_bound: "length bs = 4 \<Longrightarrow> u32_from_be bs < 4294967296"
  using be_value_bound [of 256 "map byte bs"] by (simp add: u32_from_be_def list_all_iff)

lemma div_65536: "n div 65536 = n div 256 div (256 :: nat)" "n div 16777216 = n div 256 div 256 div (256 :: nat)"
  by (simp_all add: div_mult2_eq [symmetric])

lemma u32_roundtrip: "n < 4294967296 \<Longrightarrow> u32_from_be (u32_be n) = n"
proof -
  assume n: "n < 4294967296"
  let ?m = "n div 256" and ?k = "n div 256 div 256" and ?j = "n div 256 div 256 div 256"
  have "?j < 256" using n by (simp add: div_65536 [symmetric] less_mult_imp_div_less)
  then have "((?j mod 256 * 256 + ?k mod 256) * 256 + ?m mod 256) * 256 + n mod 256 = n"
    by (simp only: mod_less div_mult_mod_eq)
  then show ?thesis by (simp add: u32_be_def u32_from_be_four div_65536)
qed

lemma u32_be_from: "length bs = 4 \<Longrightarrow> u32_be (u32_from_be bs) = bs"
proof -
  assume "length bs = 4"
  then obtain a b c d where bs: "bs = [a, b, c, d]" using list_of_four by blast
  have step: "(m * 256 + byte e) div 256 = m" "(m * 256 + byte e) mod 256 = byte e" for m e
    by simp_all
  have top: "byte a mod 256 = byte a" by simp
  show ?thesis
    unfolding bs u32_from_be_four u32_be_def div_65536 step top by simp
qed

lemma valid_utf8_ascii: "ascii bs \<Longrightarrow> valid_utf8 bs"
proof (induction bs)
  case (Cons c bs)
  then have "utf8_step (c # bs) = (True, 1)"
    by (simp add: utf8_step_def byte_at_def ascii_def)
  with Cons show ?case by (simp add: valid_utf8.simps [of "c # bs"] ascii_def)
qed (simp add: valid_utf8.simps)

lemma read_exact_Inr:
  "read_exact e n stream = Inr (v, rest) \<longleftrightarrow> length v = n \<and> stream = v @ rest"
  by (auto simp: read_exact_def)

lemma cursor_take_Inr [simp]: "cursor_take n cursor = Inr (v, rest) \<longleftrightarrow> length v = n \<and> cursor = v @ rest"
  by (simp add: cursor_take_def read_exact_Inr)

lemma cursor_take_append: "length v = n \<Longrightarrow> cursor_take n (v @ rest) = Inr (v, rest)"
  by simp

lemma cursor_byte_Inr: "cursor_byte cursor = Inr (n, rest) \<longleftrightarrow> (\<exists>b. n = byte b \<and> cursor = b # rest)"
proof -
  have "cursor_byte cursor = Inr (n, rest) \<longleftrightarrow> (\<exists>v. cursor_take 1 cursor = Inr (v, rest) \<and> n = byte (v ! 0))"
    by (auto simp: cursor_byte_def simp del: cursor_take_Inr split: sum.splits)
  then show ?thesis by (auto simp: length_Suc_conv)
qed

lemma cursor_u32_Inr:
  "cursor_u32 cursor = Inr (n, rest) \<longleftrightarrow> n < 4294967296 \<and> cursor = u32_be n @ rest"
proof -
  have "cursor_u32 cursor = Inr (n, rest) \<longleftrightarrow> (\<exists>v. cursor_take 4 cursor = Inr (v, rest) \<and> n = u32_from_be v)"
    by (auto simp: cursor_u32_def simp del: cursor_take_Inr split: sum.splits)
  then show ?thesis
    by (auto simp: u32_from_be_bound u32_be_from u32_roundtrip)
qed

definition name_list_ok :: "string list \<Rightarrow> bool" where
  \<comment> \<open>what the parser accepts as a name-list\<close>
  "name_list_ok names \<longleftrightarrow>
     length (join '','' names) \<le> MAX_NAME_LIST_BYTES \<and> length names \<le> MAX_ALGORITHM_NAMES \<and>
     list_all valid_algorithm_name names"

lemma valid_name_bytes:
  "valid_algorithm_name name \<Longrightarrow>
   name \<noteq> [] \<and> length name \<le> 64 \<and> list_all (\<lambda>b. is_graphic b \<and> b \<noteq> CHR '','') name"
  by (simp add: valid_algorithm_name_def split: if_splits)

lemma join_nonempty: "names \<noteq> [] \<Longrightarrow> list_all valid_algorithm_name names \<Longrightarrow> join '','' names \<noteq> []"
  using valid_name_bytes by (cases "('','', names)" rule: join.cases) auto

lemma set_join: "set (join sep names) \<subseteq> set sep \<union> \<Union> (set ` set names)"
  by (induction sep names rule: join.induct) auto

lemma join_ascii: "list_all valid_algorithm_name names \<Longrightarrow> ascii (join '','' names)"
proof -
  assume ok: "list_all valid_algorithm_name names"
  have "byte c < 128" if "c \<in> set (join '','' names)" for c
  proof -
    from that set_join [of "'','' " names] consider "c = CHR '',''" | n where "n \<in> set names" "c \<in> set n"
      by auto
    then show ?thesis
    proof cases
      case 2
      with ok valid_name_bytes show ?thesis by (fastforce simp: list_all_iff is_graphic_def)
    qed simp
  qed
  then show ?thesis by (simp add: ascii_def list_all_iff)
qed


lemma split_join_names:
  "names \<noteq> [] \<Longrightarrow> list_all valid_algorithm_name names \<Longrightarrow> split_on CHR '','' (join '','' names) = names"
proof -
  assume *: "names \<noteq> []" "list_all valid_algorithm_name names"
  have "CHR '','' \<notin> set n" if "n \<in> set names" for n
    using * that valid_name_bytes by (fastforce simp: list_all_iff)
  then show ?thesis using split_on_join [OF *(1), of "CHR '',''"] by simp
qed

lemma append_name_list_encode: "append_name_list payload names = payload @ append_name_list [] names"
  by (simp add: append_name_list_def Let_def)

lemma foldl_append_name_list:
  "foldl append_name_list payload ls = payload @ concat (map (append_name_list []) ls)"
proof (induction ls arbitrary: payload)
  case (Cons names ls)
  then show ?case by (simp add: append_name_list_encode [of payload names])
qed simp

lemma name_list_length: "name_list_ok names \<Longrightarrow> length (join '','' names) < 4294967296"
  by (simp add: name_list_ok_def MAX_NAME_LIST_BYTES_def)

lemma cursor_name_list_complete:
  assumes ok: "name_list_ok names"
  shows "cursor_name_list (append_name_list [] names @ rest) = Inr (names, rest)"
proof -
  let ?v = "join '','' names"
  have u: "cursor_u32 (u32_be (length ?v) @ ?v @ rest) = Inr (length ?v, ?v @ rest)"
    using name_list_length [OF ok] by (simp add: cursor_u32_Inr)
  have b: "\<not> MAX_NAME_LIST_BYTES < length ?v" "\<not> MAX_ALGORITHM_NAMES < length names"
    and v: "list_all valid_algorithm_name names"
    using ok by (auto simp: name_list_ok_def)
  show ?thesis
  proof (cases "names = []")
    case True
    with u show ?thesis
      by (simp add: cursor_name_list_def append_name_list_def cursor_take_def read_exact_def)
  next
    case False
    with v have "?v \<noteq> []" and "\<not> list_ex (\<lambda>n. \<not> valid_algorithm_name n) names"
      by (auto simp: join_nonempty list_ex_iff list_all_iff)
    with u b show ?thesis
      by (simp add: cursor_name_list_def append_name_list_def Let_def split_join_names [OF False v]
          valid_utf8_ascii [OF join_ascii [OF v]] cursor_take_append)
  qed
qed

lemma cursor_name_list_sound:
  assumes "cursor_name_list cursor = Inr (names, rest)"
  shows "name_list_ok names \<and> cursor = append_name_list [] names @ rest"
proof -
  from assms obtain n c where u: "cursor_u32 cursor = Inr (n, c)" and n: "\<not> MAX_NAME_LIST_BYTES < n"
    by (auto simp: cursor_name_list_def split: sum.splits if_splits)
  from assms u n obtain bs r where t: "cursor_take n c = Inr (bs, r)"
    by (auto simp: cursor_name_list_def simp del: cursor_take_Inr split: sum.splits)
  have shape: "cursor = u32_be n @ bs @ r" "length bs = n"
    using u t by (auto simp: cursor_u32_Inr)
  show ?thesis
  proof (cases "bs = []")
    case True
    with assms u n t have "names = []" "rest = r" by (simp_all add: cursor_name_list_def)
    with True shape show ?thesis by (auto simp: name_list_ok_def append_name_list_def)
  next
    case False
    with assms u n t have r: "rest = r" and names: "names = split_on CHR '','' bs"
      and k: "\<not> MAX_ALGORITHM_NAMES < length names" "\<not> list_ex (\<lambda>n. \<not> valid_algorithm_name n) names"
      by (simp_all add: cursor_name_list_def Let_def split: if_splits)
    have "join '','' names = bs" by (simp add: names join_split_on)
    with shape n k r show ?thesis
      by (auto simp: name_list_ok_def append_name_list_def list_ex_iff list_all_iff)
  qed
qed

lemma cursor_name_lists_complete:
  "list_all name_list_ok ls \<Longrightarrow>
   cursor_name_lists (length ls) (concat (map (append_name_list []) ls) @ rest) = Inr (ls, rest)"
  by (induction ls) (simp_all add: cursor_name_list_complete)

lemma cursor_name_lists_sound:
  "cursor_name_lists n cursor = Inr (ls, rest) \<Longrightarrow>
   length ls = n \<and> list_all name_list_ok ls \<and> cursor = concat (map (append_name_list []) ls) @ rest"
proof (induction n arbitrary: cursor ls)
  case (Suc n)
  from Suc.prems obtain names c ls' where
    "cursor_name_list cursor = Inr (names, c)" "cursor_name_lists n c = Inr (ls', rest)" "ls = names # ls'"
    by (auto split: sum.splits)
  with Suc.IH [of c ls'] cursor_name_list_sound [of cursor names c] show ?case by simp
qed simp

lemma cursor_u32_zero: "cursor_u32 cursor = Inr (0, rest) \<longleftrightarrow> cursor = u32_be 0 @ rest"
  by (simp add: cursor_u32_Inr)

lemma parse_kexinit_tail_Inr:
  "parse_kexinit_tail ls cursor = Inr ls' \<longleftrightarrow>
   ls' = ls \<and> (\<exists>f. byte f \<le> 1 \<and> cursor = f # u32_be 0)"
proof -
  have "parse_kexinit_tail ls cursor = Inr ls' \<longleftrightarrow>
      ls' = ls \<and> (\<exists>n c. cursor_byte cursor = Inr (n, c) \<and> n \<in> {0, 1} \<and> cursor_u32 c = Inr (0, []))"
    by (auto simp: parse_kexinit_tail_def split: sum.splits if_splits)
  also have "\<dots> \<longleftrightarrow> ls' = ls \<and> (\<exists>f. byte f \<le> 1 \<and> cursor = f # u32_be 0)"
    by (auto simp: cursor_byte_Inr cursor_u32_zero le_Suc_eq)
  finally show ?thesis .
qed

definition kexinit_form :: "bytes \<Rightarrow> string list list \<Rightarrow> char \<Rightarrow> bytes" where
  \<comment> \<open>the layout of RFC 4253 section 7.1\<close>
  "kexinit_form cookie ls follows =
     char_of SSH_MSG_KEXINIT # cookie @ concat (map (append_name_list []) ls) @ follows # u32_be 0"

lemma kexinit_payload_form: "kexinit_payload cookie ls = kexinit_form cookie ls (char_of (0 :: nat))"
  by (simp add: kexinit_payload_def kexinit_form_def foldl_append_name_list)

lemma parse_kexinit_iff:
  "parse_kexinit payload = Inr ls \<longleftrightarrow>
   length ls = 10 \<and> list_all name_list_ok ls \<and>
   (\<exists>cookie follows. length cookie = 16 \<and> byte follows \<le> 1 \<and> payload = kexinit_form cookie ls follows)"
  (is "_ \<longleftrightarrow> ?form")
proof
  assume "parse_kexinit payload = Inr ls"
  then obtain c cookie c' ls' c'' where
    b: "cursor_byte payload = Inr (SSH_MSG_KEXINIT, c)" and t: "cursor_take 16 c = Inr (cookie, c')"
    and l: "cursor_name_lists 10 c' = Inr (ls', c'')" and tail: "parse_kexinit_tail ls' c'' = Inr ls"
    by (auto simp: parse_kexinit_def simp del: cursor_take_Inr split: sum.splits if_splits)
  from b have "payload = char_of SSH_MSG_KEXINIT # c"
    unfolding cursor_byte_Inr by (metis char_of_char)
  moreover from t have "length cookie = 16" "c = cookie @ c'" by simp_all
  moreover from tail obtain f where "ls = ls'" "byte f \<le> 1" "c'' = f # u32_be 0"
    by (auto simp: parse_kexinit_tail_Inr)
  ultimately show ?form using cursor_name_lists_sound [OF l] by (auto simp: kexinit_form_def)
next
  assume ?form
  then obtain cookie follows where len: "length ls = 10" and ok: "list_all name_list_ok ls"
    and c: "length cookie = 16" "byte follows \<le> 1" and p: "payload = kexinit_form cookie ls follows"
    by blast
  let ?body = "concat (map (append_name_list []) ls) @ follows # u32_be 0"
  have b: "cursor_byte payload = Inr (SSH_MSG_KEXINIT, cookie @ ?body)"
    by (simp add: cursor_byte_Inr p kexinit_form_def SSH_MSG_KEXINIT_def)
  have l: "cursor_name_lists 10 ?body = Inr (ls, follows # u32_be 0)"
    using cursor_name_lists_complete [OF ok, of "follows # u32_be 0"] by (simp add: len)
  have "parse_kexinit_tail ls (follows # u32_be 0) = Inr ls"
    using c by (auto simp: parse_kexinit_tail_Inr)
  with b l c show "parse_kexinit payload = Inr ls" by (simp add: parse_kexinit_def cursor_take_append)
qed


definition padding_for :: "nat \<Rightarrow> nat" where
  \<comment> \<open>the padding of a payload of the given length\<close>
  "padding_for n = (let p = 8 - (4 + 1 + n) mod 8 in if p < 4 then p + 8 else p)"

lemma padding_bounds:
  "4 \<le> padding_for n \<and> padding_for n \<le> 11 \<and> (4 + 1 + n + padding_for n) mod 8 = 0"
proof -
  have m: "(5 + n) mod 8 < 8" by simp
  then have z: "((5 + n) + (8 - (5 + n) mod 8)) mod 8 = 0" by presburger
  then have "((5 + n) + (8 - (5 + n) mod 8 + 8)) mod 8 = 0" by presburger
  with z m show ?thesis by (auto simp: padding_for_def Let_def add.assoc)
qed

lemma binary_packet_form:
  "binary_packet payload random =
   u32_be (1 + length payload + padding_for (length payload)) @
   char_of (padding_for (length payload)) # payload @ take (padding_for (length payload)) random"
  by (simp add: binary_packet_def padding_for_def Let_def)

lemma read_binary_packet:
  assumes "payload \<noteq> []" and len: "1 + length payload + padding_for (length payload) \<le> MAX_PACKET_LENGTH_FIELD_VALUE"
    and random: "16 \<le> length random"
  shows "read_server_kexinit (binary_packet payload random @ rest) = parse_kexinit payload"
proof -
  define p where "p = padding_for (length payload)"
  define k where "k = 1 + length payload + p"
  let ?packet = "char_of p # payload @ take p random"
  have p: "4 \<le> p" "p \<le> 11" "(4 + 1 + length payload + p) mod 8 = 0"
    using padding_bounds [of "length payload"] by (auto simp: p_def)
  have k: "12 \<le> k" "(k + 4) mod 8 = 0" "\<not> MAX_PACKET_LENGTH_FIELD_VALUE < k"
  proof -
    show mod: "(k + 4) mod 8 = 0" using p(3) by (simp add: k_def ac_simps)
    have "6 \<le> k" using p(1) assms(1) by (cases payload) (simp_all add: k_def)
    with mod show "12 \<le> k" by presburger
    show "\<not> MAX_PACKET_LENGTH_FIELD_VALUE < k" using len by (simp add: k_def p_def)
  qed
  have small: "k < 4294967296" using k(3) by (simp add: MAX_PACKET_LENGTH_FIELD_VALUE_def)
  have size: "length ?packet = k" using random p(2) by (simp add: k_def)
  have e: "binary_packet payload random @ rest = u32_be k @ ?packet @ rest"
    by (simp add: binary_packet_form k_def p_def)
  have r1: "read_exact m 4 (u32_be k @ ?packet @ rest) = Inr (u32_be k, ?packet @ rest)" for m
    by (simp only: read_exact_Inr length_u32_be simp_thms)
  have r2: "read_exact m k (?packet @ rest) = Inr (?packet, rest)" for m
    by (simp only: read_exact_Inr size simp_thms)
  have b: "byte (?packet ! 0) = p" using p(2) by simp
  have "length ?packet - 1 = length payload + p" by (simp only: size) (simp add: k_def)
  moreover have "drop 1 (take (length ?packet - p) ?packet) = payload"
    by (simp only: size) (simp add: k_def)
  ultimately have "packet_payload ?packet = Inr payload"
    unfolding packet_payload_def Let_def b using p(1) assms(1) by simp
  then show ?thesis
    unfolding e read_server_kexinit_def r1 using k small r2 by (simp add: u32_roundtrip Let_def)
qed

lemma client_lists_ok: "list_all name_list_ok client_name_lists \<and> length client_name_lists = 10"
  by code_simp

subsection \<open>Identification\<close>

lemma printable_ascii: "list_all is_printable s \<Longrightarrow> ascii s"
  by (auto simp: ascii_def list_all_iff is_printable_def)

lemma graphic_printable: "list_all is_graphic s \<Longrightarrow> list_all is_printable s"
  by (auto simp: list_all_iff is_graphic_def is_printable_def)

lemma sanitize_text_id:
  assumes "list_all is_printable s" and "length s \<le> MAX_IDENTIFICATION_BYTES"
  shows "sanitize_text s = s"
proof -
  have "filter (\<lambda>c. \<not> is_control c) (map (\<lambda>c. [c]) s) = map (\<lambda>c. [c]) s"
    using assms(1) by (intro filter_True) (auto simp: list_all_iff is_printable_def)
  then show ?thesis
    using assms(2) by (simp add: sanitize_text_def sanitize_chars_def chars_ascii [OF printable_ascii [OF assms(1)]])
qed

definition software_text :: "string \<Rightarrow> string \<Rightarrow> string" where
  \<comment> \<open>the software version with its comment, which is dropped with its space when it is empty\<close>
  "software_text sw comment = (if comment = '' '' then sw else sw @ comment)"

lemma identification_software_Inr:
  assumes printable: "list_all is_printable body" and len: "length body \<le> MAX_IDENTIFICATION_BYTES"
  shows "identification_software body = Inr software \<longleftrightarrow>
    (\<exists>sw comment. body = sw @ comment \<and> sw \<noteq> [] \<and> list_all is_graphic sw \<and>
      (comment = [] \<or> hd comment = CHR '' '') \<and> software = software_text sw comment)"
  (is "_ \<longleftrightarrow> (\<exists>sw comment. ?parts sw comment)")
proof -
  have space: "CHR '' '' \<notin> set sw" if "list_all is_graphic sw" for sw
    using that by (auto simp: list_all_iff is_graphic_def)
  have keep: "sanitize_text t = t" if "list_all is_printable t" "length t \<le> length body" for t
    using that len by (intro sanitize_text_id) simp_all
  show ?thesis
  proof (cases "split_once CHR '' '' body")
    case None
    then have no: "CHR '' '' \<notin> set body" by (simp add: split_once_None)
    have "?parts sw comment \<longleftrightarrow> comment = [] \<and> sw = body \<and> body \<noteq> [] \<and> list_all is_graphic body \<and> software = body"
      for sw comment
    proof -
      have "comment = []" if "body = sw @ comment" "comment = [] \<or> hd comment = CHR '' ''"
        using that no by (cases comment) auto
      then show ?thesis by (auto simp: software_text_def)
    qed
    then show ?thesis
      using None keep [OF printable] by (auto simp: identification_software_def)
  next
    case (Some sc)
    obtain sw c where sc: "sc = (sw, c)" by (cases sc)
    with Some have body: "body = sw @ CHR '' '' # c" and no: "CHR '' '' \<notin> set sw"
      by (auto simp: split_once_Some)
    have c: "sanitize_text c = c" "list_all is_printable sw" "sanitize_text (sw @ CHR '' '' # c) = sw @ CHR '' '' # c"
      "sanitize_text sw = sw"
      using printable keep [of c] keep [of sw] keep [of body] body by (simp_all add: body)
    have "?parts s t \<longleftrightarrow> s = sw \<and> t = CHR '' '' # c \<and> sw \<noteq> [] \<and> list_all is_graphic sw \<and>
        software = software_text sw (CHR '' '' # c)" for s t
    proof -
      have "s = sw \<and> t = CHR '' '' # c" if *: "body = s @ t" "list_all is_graphic s" "t = [] \<or> hd t = CHR '' ''"
      proof -
        from * space [of s] body have "t \<noteq> []" by (metis append_Nil2 in_set_conv_decomp)
        with * obtain d where "t = CHR '' '' # d" by (cases t) auto
        with *(1) space [OF *(2)] have "split_once CHR '' '' body = Some (s, d)" by (simp add: split_once_Some)
        with Some sc \<open>t = CHR '' '' # d\<close> show ?thesis by simp
      qed
      then show ?thesis using body by auto
    qed
    then show ?thesis
      using Some sc c by (auto simp: identification_software_def software_text_def)
  qed
qed

lemma parse_identification_iff:
  "parse_identification line = Inr i \<longleftrightarrow>
   length line \<le> 255 \<and> ssh_protocol i \<in> {''2.0'', ''1.99''} \<and>
   (\<exists>sw comment. line = ''SSH-'' @ ssh_protocol i @ ''-'' @ sw @ comment @ crlf \<and>
      sw \<noteq> [] \<and> list_all is_graphic sw \<and> list_all is_printable comment \<and>
      (comment = [] \<or> hd comment = CHR '' '') \<and> ssh_software i = software_text sw comment)"
proof (cases "length line \<le> 255 \<and> (\<exists>content. line = content @ crlf \<and> list_all is_printable content)")
  case False
  then have "parse_identification line \<noteq> Inr i"
    by (auto simp: parse_identification_def MAX_IDENTIFICATION_BYTES_def strip_suffix_Some
        split: option.splits if_splits)
  moreover have "list_all is_printable (''SSH-'' @ p @ ''-'' @ sw @ comment)"
    if "list_all is_graphic sw" "list_all is_printable comment" "p \<in> {''2.0'', ''1.99''}" for p sw comment
    using that graphic_printable [of sw] by (auto simp: is_printable_def)
  ultimately show ?thesis using False by (metis append.assoc)
next
  case True
  then obtain content where len: "length line \<le> 255" and line: "line = content @ crlf"
    and printable: "list_all is_printable content" by blast
  have nul: "CHR 0x00 \<notin> set content" using printable by (auto simp: list_all_iff is_printable_def)
  have parse: "parse_identification line = (case strip_prefix content ''SSH-'' of
        None \<Rightarrow> Inl ''invalid server identification prefix''
      | Some rest \<Rightarrow> (case split_once CHR ''-'' rest of
            None \<Rightarrow> Inl ''invalid server identification fields''
          | Some (protocol, body) \<Rightarrow>
              if protocol \<noteq> ''2.0'' \<and> protocol \<noteq> ''1.99'' then Inl ''unsupported SSH protocol version''
              else (case identification_software body of
                  Inl e \<Rightarrow> Inl e | Inr software \<Rightarrow> Inr \<lparr>ssh_protocol = protocol, ssh_software = software\<rparr>)))"
    using len nul printable valid_utf8_ascii [OF printable_ascii [OF printable]]
    by (simp add: parse_identification_def MAX_IDENTIFICATION_BYTES_def line)
  have split: "parse_identification line = Inr i \<longleftrightarrow>
      (\<exists>body. content = ''SSH-'' @ ssh_protocol i @ ''-'' @ body \<and> ssh_protocol i \<in> {''2.0'', ''1.99''} \<and>
        identification_software body = Inr (ssh_software i))"
    (is "_ \<longleftrightarrow> ?split")
  proof
    assume "parse_identification line = Inr i"
    then obtain rest p t where "strip_prefix content ''SSH-'' = Some rest" "split_once CHR ''-'' rest = Some (p, t)"
      "p \<in> {''2.0'', ''1.99''}" "identification_software t = Inr (ssh_software i)" "p = ssh_protocol i"
      unfolding parse by (auto split: option.splits sum.splits if_splits)
    then show ?split by (auto simp: strip_prefix_Some split_once_Some)
  next
    assume ?split
    then obtain t where t: "content = ''SSH-'' @ ssh_protocol i @ ''-'' @ t" "ssh_protocol i \<in> {''2.0'', ''1.99''}"
      "identification_software t = Inr (ssh_software i)" by blast
    have "strip_prefix content ''SSH-'' = Some (ssh_protocol i @ ''-'' @ t)" using t(1) by (simp add: strip_prefix_Some)
    moreover have "split_once CHR ''-'' (ssh_protocol i @ ''-'' @ t) = Some (ssh_protocol i, t)"
      using t(2) by (auto simp: split_once_Some)
    ultimately show "parse_identification line = Inr i" unfolding parse using t(2,3) by auto
  qed
  have software: "identification_software t = Inr (ssh_software i) \<longleftrightarrow>
     (\<exists>sw comment. t = sw @ comment \<and> sw \<noteq> [] \<and> list_all is_graphic sw \<and>
      (comment = [] \<or> hd comment = CHR '' '') \<and> ssh_software i = software_text sw comment)"
    if "content = ''SSH-'' @ p @ ''-'' @ t" for p t
    by (rule identification_software_Inr)
      (use that len line printable in \<open>auto simp: MAX_IDENTIFICATION_BYTES_def\<close>)
  have eq: "line = ''SSH-'' @ p @ ''-'' @ sw @ comment @ crlf \<longleftrightarrow> content = ''SSH-'' @ p @ ''-'' @ sw @ comment"
    for p sw comment
  proof -
    have "''SSH-'' @ p @ ''-'' @ sw @ comment @ crlf = (''SSH-'' @ p @ ''-'' @ sw @ comment) @ crlf" by simp
    then show ?thesis unfolding line by (simp only: append_same_eq)
  qed
  have printed: "list_all is_printable comment" if "content = ''SSH-'' @ p @ ''-'' @ sw @ comment" for p sw comment
    using that printable by simp
  show ?thesis
    unfolding split eq using len software printed by (blast intro: append_assoc)
qed

definition ident_state :: "bytes \<Rightarrow> nat \<Rightarrow> bool" where
  \<comment> \<open>the invariant of the loop: what has been read stays within both limits\<close>
  "ident_state line used \<longleftrightarrow>
     used \<le> MAX_PRE_BANNER_BYTES \<and> CHR 0x0a \<notin> set line \<and>
     (length line \<le> MAX_IDENTIFICATION_BYTES \<or> used + length line \<le> MAX_PRE_BANNER_BYTES)"

lemma starts_with_length: "starts_with s p \<Longrightarrow> length p \<le> length s"
  by (auto simp: starts_with_iff)

lemma could_be_short: "starts_with ''SSH-'' line \<Longrightarrow> length line \<le> 4"
  using starts_with_length [of "''SSH-''" line] by simp

lemma ident_byte_More:
  assumes "ident_byte line ls used b = Ident_More line' ls' used'"
  obtains
    (inside) "b \<noteq> CHR 0x0a" "line' = push line b" "ls' = ls" "used' = used"
      "starts_with ''SSH-'' line' \<or> starts_with line' ''SSH-'' \<and> length line' \<le> MAX_IDENTIFICATION_BYTES \<or>
       used + length line' \<le> MAX_PRE_BANNER_BYTES"
  | (line) "b = CHR 0x0a" "line' = []" "ls' = ls + 1" "ls' \<le> MAX_PRE_BANNER_LINES"
      "used' = used + length (push line b)" "used' \<le> MAX_PRE_BANNER_BYTES"
  using assms unfolding ident_byte_def Let_def by (fastforce split: if_splits)

lemma ident_byte_Line: "ident_byte line ls used b = Ident_Line l \<Longrightarrow> b = CHR 0x0a \<and> l = push line b"
  unfolding ident_byte_def Let_def by (simp split: if_splits)

lemma ident_state_step:
  assumes state: "ident_state line used" and step: "ident_byte line ls used b = Ident_More line' ls' used'"
  shows "ident_state line' used' \<and> used' + length line' = used + length line + 1"
  using step
proof (cases rule: ident_byte_More)
  case inside
  then have "length line' \<le> MAX_IDENTIFICATION_BYTES \<or> used + length line' \<le> MAX_PRE_BANNER_BYTES"
    using could_be_short [of line'] by (auto simp: MAX_IDENTIFICATION_BYTES_def)
  with inside state show ?thesis by (auto simp: ident_state_def)
next
  case line
  with state show ?thesis by (simp add: ident_state_def)
qed

lemma read_loop_bounded:
  "ident_state line used \<Longrightarrow> n + used + length line = 4352 \<Longrightarrow>
   map_sum id fst (read_identification_loop line ls used (take n stream)) =
   map_sum id fst (read_identification_loop line ls used stream)"
proof (induction stream arbitrary: n line ls used)
  case (Cons b stream)
  have "used + length line \<le> 4351"
    using Cons.prems(1) by (auto simp: ident_state_def MAX_PRE_BANNER_BYTES_def MAX_IDENTIFICATION_BYTES_def)
  then obtain m where n: "n = Suc m" using Cons.prems(2) by (cases n) auto
  show ?case
  proof (cases "ident_byte line ls used b")
    case (Ident_More line' ls' used')
    have "ident_state line' used'" "m + used' + length line' = 4352"
      using ident_state_step [OF Cons.prems(1) Ident_More] Cons.prems(2) by (auto simp: n)
    from Cons.IH [OF this, of ls'] show ?thesis by (simp add: n Ident_More)
  qed (simp_all add: n split: sum.split)
qed simp

lemma read_loop_sound:
  "read_identification_loop line ls used stream = Inr (i, rest) \<Longrightarrow>
   ls \<le> MAX_PRE_BANNER_LINES \<Longrightarrow> used \<le> MAX_PRE_BANNER_BYTES \<Longrightarrow> CHR 0x0a \<notin> set line \<Longrightarrow>
   \<exists>pre l. line @ stream = pre @ l @ rest \<and> parse_identification l = Inr i \<and>
     ls + length (filter (\<lambda>c. c = CHR 0x0a) pre) \<le> MAX_PRE_BANNER_LINES \<and>
     used + length pre \<le> MAX_PRE_BANNER_BYTES \<and> (pre = [] \<or> last pre = CHR 0x0a)"
proof (induction stream arbitrary: line ls used)
  case (Cons b stream)
  show ?case
  proof (cases "ident_byte line ls used b")
    case (Ident_Refused e)
    with Cons.prems show ?thesis by simp
  next
    case (Ident_Line l)
    then have "l = push line b" by (simp add: ident_byte_Line)
    with Ident_Line Cons.prems have "line @ b # stream = [] @ l @ rest" "parse_identification l = Inr i"
      by (auto simp: push_def split: sum.splits)
    with Cons.prems show ?thesis by (intro exI [of _ "[]"] exI [of _ l]) simp
  next
    case (Ident_More line' ls' used')
    then have run: "read_identification_loop line' ls' used' stream = Inr (i, rest)" using Cons.prems(1) by simp
    from Ident_More show ?thesis
    proof (cases rule: ident_byte_More)
      case inside
      with Cons.IH [OF run] Cons.prems show ?thesis by (simp add: push_def)
    next
      case line
      with Cons.IH [OF run] obtain pre l where
        "stream = pre @ l @ rest" "parse_identification l = Inr i"
        "ls' + length (filter (\<lambda>c. c = CHR 0x0a) pre) \<le> MAX_PRE_BANNER_LINES"
        "used' + length pre \<le> MAX_PRE_BANNER_BYTES" "pre = [] \<or> last pre = CHR 0x0a" by auto
      moreover have "filter (\<lambda>c. c = CHR 0x0a) line = []" using Cons.prems(4) by (auto simp: filter_empty_conv)
      ultimately have "line @ b # stream = (line @ b # pre) @ l @ rest \<and> parse_identification l = Inr i \<and>
        ls + length (filter (\<lambda>c. c = CHR 0x0a) (line @ b # pre)) \<le> MAX_PRE_BANNER_LINES \<and>
        used + length (line @ b # pre) \<le> MAX_PRE_BANNER_BYTES \<and> last (line @ b # pre) = CHR 0x0a"
        using line by auto
      then show ?thesis by blast
    qed
  qed
qed simp

lemma client_packet_read:
  assumes "length cookie = 16" and "length random = 16"
  shows "read_server_kexinit (client_kexinit_packet cookie random @ rest) = Inr client_name_lists \<and>
    length (client_kexinit_packet cookie random) mod 8 = 0 \<and>
    length (client_kexinit_packet cookie random) \<le> 35000"
proof -
  let ?p = "kexinit_payload cookie client_name_lists"
  have size: "length ?p = 530"
  proof -
    have "sum_list (map (length \<circ> append_name_list []) client_name_lists) = 508" by code_simp
    then have "length (concat (map (append_name_list []) client_name_lists)) = 508"
      by (simp add: length_concat comp_def)
    with assms show ?thesis by (simp add: kexinit_payload_form kexinit_form_def)
  qed
  have pad: "padding_for 530 = 9" by (simp add: padding_for_def)
  have "parse_kexinit ?p = Inr client_name_lists"
    unfolding parse_kexinit_iff kexinit_payload_form
    by (intro conjI exI [of _ cookie] exI [of _ "char_of (0 :: nat)"])
      (use client_lists_ok assms in simp_all)
  moreover have "read_server_kexinit (binary_packet ?p random @ rest) = parse_kexinit ?p"
    by (rule read_binary_packet) (use size pad assms in \<open>auto simp: MAX_PACKET_LENGTH_FIELD_VALUE_def\<close>)
  ultimately show ?thesis
    using assms(2) size pad by (simp add: client_kexinit_packet_def binary_packet_form)
qed

section \<open>Properties\<close>

text \<open>
  C30: The KEXINIT reader is exact: it accepts a payload with given name-lists if and only if the payload is
  the RFC 4253 layout of ten lists, each of at most 8 KiB and 128 valid names, with a 16-byte cookie, a
  boolean and a zero reserved field. So encoding and parsing are inverse, and nothing malformed, truncated
  or trailing passes.
\<close>

theorem parse_kexinit_exact:
  "parse_kexinit payload = Inr ls \<longleftrightarrow>
   length ls = 10 \<and> list_all name_list_ok ls \<and>
   (\<exists>cookie follows. length cookie = 16 \<and> byte follows \<le> 1 \<and> payload = kexinit_form cookie ls follows)"
  by (rule parse_kexinit_iff)

text \<open>
  The client's KEXINIT packet is a well-formed binary packet: whatever the random bytes, its size is a
  multiple of 8 within the packet limit, and the reader of the other side, followed by any bytes, gets back
  exactly the advertised name-lists.
\<close>

theorem client_packet_roundtrip:
  assumes "length cookie = 16" and "length random = 16"
  shows "read_server_kexinit (client_kexinit_packet cookie random @ rest) = Inr client_name_lists \<and>
    length (client_kexinit_packet cookie random) mod 8 = 0 \<and>
    length (client_kexinit_packet cookie random) \<le> 35000"
  using assms by (rule client_packet_read)

theorem client_packet_roundtrip_witness:
  "read_server_kexinit (client_kexinit_packet (replicate 16 CHR ''c'') (replicate 16 CHR ''r'') @ ''more'') =
   Inr client_name_lists"
  by (rule client_packet_roundtrip [THEN conjunct1]) simp_all

text \<open>
  What the check concludes from a server's greeting depends on its first 4,352 bytes only (4,096 bytes of
  informational lines, 255 of an identification line, and the byte at which a limit is found exceeded): a
  server that goes on for ever cannot hold the reader, and no longer stream changes its verdict.
\<close>

theorem identification_read_bounded:
  "map_sum id fst (read_identification stream) = map_sum id fst (read_identification (take 4352 stream))"
  unfolding read_identification_def
  by (rule read_loop_bounded [symmetric]) (simp_all add: ident_state_def)

text \<open>
  The identification reader accepts only the RFC 4253 form: the stream starts with at most 50
  newline-terminated informational lines of at most 4,096 bytes together, followed by one line of at most 255
  bytes that is \<open>SSH-\<close>, version 2.0 or 1.99, a dash, a nonempty graphic software version, an optional comment
  after a space, and CRLF; version and software are returned as they stand, and the stream continues right
  after the line.
\<close>

theorem identification_accepts_exact:
  assumes "read_identification stream = Inr (i, rest)"
  shows "\<exists>pre sw comment.
    stream = pre @ ''SSH-'' @ ssh_protocol i @ ''-'' @ sw @ comment @ crlf @ rest \<and>
    length (filter (\<lambda>c. c = CHR 0x0a) pre) \<le> 50 \<and> length pre \<le> 4096 \<and> (pre = [] \<or> last pre = CHR 0x0a) \<and>
    length (''SSH-'' @ ssh_protocol i @ ''-'' @ sw @ comment @ crlf) \<le> 255 \<and>
    ssh_protocol i \<in> {''2.0'', ''1.99''} \<and> sw \<noteq> [] \<and> list_all is_graphic sw \<and>
    list_all is_printable comment \<and> (comment = [] \<or> hd comment = CHR '' '') \<and>
    ssh_software i = software_text sw comment"
proof -
  from assms read_loop_sound [of "[]" 0 0 stream i rest] obtain pre l where
    stream: "stream = pre @ l @ rest" and l: "parse_identification l = Inr i"
    and pre: "length (filter (\<lambda>c. c = CHR 0x0a) pre) \<le> 50" "length pre \<le> 4096" "pre = [] \<or> last pre = CHR 0x0a"
    by (auto simp: read_identification_def MAX_PRE_BANNER_LINES_def MAX_PRE_BANNER_BYTES_def)
  from l obtain sw comment where
    line: "l = ''SSH-'' @ ssh_protocol i @ ''-'' @ sw @ comment @ crlf" "length l \<le> 255"
    and parts: "ssh_protocol i \<in> {''2.0'', ''1.99''}" "sw \<noteq> []" "list_all is_graphic sw"
      "list_all is_printable comment" "comment = [] \<or> hd comment = CHR '' ''"
      "ssh_software i = software_text sw comment"
    unfolding parse_identification_iff by blast
  have "stream = pre @ ''SSH-'' @ ssh_protocol i @ ''-'' @ sw @ comment @ crlf @ rest"
    by (simp only: stream line(1) append_assoc)
  with pre line parts show ?thesis by blast
qed

theorem identification_accepts_exact_witness:
  "\<exists>pre sw comment.
    ''Hello'' @ crlf @ ''SSH-2.0-OpenSSH_9.6 Ubuntu'' @ crlf @ ''more'' =
      pre @ ''SSH-'' @ ''2.0'' @ ''-'' @ sw @ comment @ crlf @ ''more'' \<and>
    software_text sw comment = ''OpenSSH_9.6 Ubuntu''"
proof -
  have "read_identification (''Hello'' @ crlf @ ''SSH-2.0-OpenSSH_9.6 Ubuntu'' @ crlf @ ''more'') =
      Inr (\<lparr>ssh_protocol = ''2.0'', ssh_software = ''OpenSSH_9.6 Ubuntu''\<rparr>, ''more'')"
    by code_simp
  from identification_accepts_exact [OF this] show ?thesis by (simp only: ssh_identification.simps) metis
qed

end
