(* ===== verification/Ssh.thy ===== *)
theory Ssh
  imports Ssh_Wire Keyed_Stage
begin

text \<open>
  SSH posture analysis, \<^verbatim>\<open>crates/surface-core/src/ssh.rs\<close>: the negotiation outcome inferred from the server's
  KEXINIT, the inspection of one endpoint, and the stage that enriches the SSH services found before.
  What one connection does, and which branch of the race against cancellation, deadline and request timeout
  is taken, is an argument.
\<close>

section \<open>Model\<close>

definition select_algorithm :: "string list \<Rightarrow> string list \<Rightarrow> string option" where
  "select_algorithm client server = find (\<lambda>candidate. list_ex (\<lambda>name. name = candidate) server) client"

definition required_algorithms :: "(string \<times> string list \<times> nat) list" where
  "required_algorithms =
     [(''kex'', KEX_ALGORITHMS, 0), (''host_key'', HOST_KEY_ALGORITHMS, 1),
      (''cipher_c2s'', CIPHER_ALGORITHMS, 2), (''cipher_s2c'', CIPHER_ALGORITHMS, 3),
      (''mac_c2s'', MAC_ALGORITHMS, 4), (''mac_s2c'', MAC_ALGORITHMS, 5),
      (''compression_c2s'', COMPRESSION_ALGORITHMS, 6), (''compression_s2c'', COMPRESSION_ALGORITHMS, 7)]"

definition no_selections :: partial_ssh_algorithm_selections where
  "no_selections =
     \<lparr>part_kex = None, part_host_key = None, part_cipher_c2s = None, part_cipher_s2c = None,
      part_mac_c2s = None, part_mac_s2c = None\<rparr>"

definition set_selection ::
    "string \<Rightarrow> string \<Rightarrow> partial_ssh_algorithm_selections \<Rightarrow> partial_ssh_algorithm_selections" where
  "set_selection key selected s =
     (if key = ''kex'' then s\<lparr>part_kex := Some selected\<rparr>
      else if key = ''host_key'' then s\<lparr>part_host_key := Some selected\<rparr>
      else if key = ''cipher_c2s'' then s\<lparr>part_cipher_c2s := Some selected\<rparr>
      else if key = ''cipher_s2c'' then s\<lparr>part_cipher_s2c := Some selected\<rparr>
      else if key = ''mac_c2s'' then s\<lparr>part_mac_c2s := Some selected\<rparr>
      else if key = ''mac_s2c'' then s\<lparr>part_mac_s2c := Some selected\<rparr>
      else s)"

definition select_required ::
    "string list list \<Rightarrow> string option \<times> partial_ssh_algorithm_selections" where
  \<comment> \<open>the loop of \<open>inferred_posture\<close>: the first category without a common algorithm, and the selections\<close>
  "select_required server =
     foldl (\<lambda>(missing, selections) (key, client, index).
         case select_algorithm client (server ! index) of
           Some selected \<Rightarrow> (missing, set_selection key selected selections)
         | None \<Rightarrow> (if missing = None then Some key else missing, selections))
       (None, no_selections) required_algorithms"

definition posture_outcome ::
    "string option \<Rightarrow> partial_ssh_algorithm_selections \<Rightarrow> ssh_posture_outcome" where
  \<comment> \<open>the final \<open>match\<close> of \<open>inferred_posture\<close>\<close>
  "posture_outcome missing s =
     (case (missing, part_kex s, part_host_key s, part_cipher_c2s s, part_cipher_s2c s, part_mac_c2s s,
            part_mac_s2c s) of
        (None, Some kex, Some host_key, Some cipher_c2s, Some cipher_s2c, Some mac_c2s, Some mac_s2c) \<Rightarrow>
          Ssh_Complete \<lparr>sel_kex = kex, sel_host_key = host_key, sel_cipher_c2s = cipher_c2s,
            sel_cipher_s2c = cipher_s2c, sel_mac_c2s = mac_c2s, sel_mac_s2c = mac_s2c\<rparr>
      | _ \<Rightarrow>
          Ssh_Partial s
            (case missing of
               None \<Rightarrow> ''incomplete required algorithm selection''
             | Some missing \<Rightarrow> ''no common required algorithm: '' @ missing))"

definition inferred_posture :: "ssh_identification \<Rightarrow> string list list \<Rightarrow> ssh_posture" where
  "inferred_posture identification server =
     (let (missing, selections) = select_required server
      in \<lparr>ssh_ident = Some identification, ssh_outcome = posture_outcome missing selections\<rparr>)"

record ssh_session =
  shs_connected :: bool
  shs_write :: "bytes \<Rightarrow> bool" \<comment> \<open>whether \<open>write_all\<close> of these bytes succeeds\<close>
  shs_stream :: bytes \<comment> \<open>what the server sends before it closes or fails\<close>
  shs_cookie :: bytes \<comment> \<open>the two random UUIDs\<close>
  shs_padding :: bytes

type_synonym exchange_error = "string \<times> ssh_identification option"

definition inspect_ssh_inner :: "ssh_session \<Rightarrow> exchange_error + ssh_posture" where
  "inspect_ssh_inner ses =
     (if \<not> shs_connected ses then Inl (''TCP connection failed'', None)
      else if \<not> shs_write ses CLIENT_IDENTIFICATION then Inl (''client identification write failed'', None)
      else case read_identification (shs_stream ses) of
        Inl e \<Rightarrow> Inl (e, None)
      | Inr (identification, stream) \<Rightarrow>
          if \<not> shs_write ses (client_kexinit_packet (shs_cookie ses) (shs_padding ses)) then
            Inl (''client KEXINIT write failed'', Some identification)
          else (case read_server_kexinit stream of
              Inl e \<Rightarrow> Inl (e, Some identification)
            | Inr kexinit \<Rightarrow> Inr (inferred_posture identification kexinit)))"

datatype ssh_analysis_state = SshState_Completed | SshState_TimedOut | SshState_Cancelled

record endpoint_analysis =
  ea_address :: socket_addr
  ea_posture :: ssh_posture
  ea_state :: ssh_analysis_state

definition indeterminate_with_details ::
    "socket_addr \<Rightarrow> string \<Rightarrow> ssh_analysis_state \<Rightarrow> ssh_identification option \<Rightarrow> endpoint_analysis" where
  "indeterminate_with_details address reason state identification =
     \<lparr>ea_address = address,
      ea_posture = \<lparr>ssh_ident = identification, ssh_outcome = Ssh_Indeterminate reason\<rparr>,
      ea_state = state\<rparr>"

definition ssh_indeterminate :: "socket_addr \<Rightarrow> string \<Rightarrow> ssh_analysis_state \<Rightarrow> endpoint_analysis" where
  "ssh_indeterminate address reason state = indeterminate_with_details address reason state None"

datatype ssh_race = SshRace_Cancelled | SshRace_Deadline | SshRace_Timeout | SshRace_Session ssh_session

definition inspect_ssh ::
    "(nat \<Rightarrow> socket_addr \<Rightarrow> ssh_race) \<Rightarrow> nat \<Rightarrow> socket_addr \<Rightarrow> endpoint_analysis" where
  "inspect_ssh net request_timeout address =
     (case net request_timeout address of
        SshRace_Cancelled \<Rightarrow> ssh_indeterminate address ''cancelled'' SshState_Cancelled
      | SshRace_Deadline \<Rightarrow> ssh_indeterminate address ''caller deadline exceeded'' SshState_TimedOut
      | SshRace_Timeout \<Rightarrow> ssh_indeterminate address ''request timeout'' SshState_Completed
      | SshRace_Session ses \<Rightarrow>
          (case inspect_ssh_inner ses of
             Inr posture \<Rightarrow> \<lparr>ea_address = address, ea_posture = posture, ea_state = SshState_Completed\<rparr>
           | Inl (reason, identification) \<Rightarrow>
               indeterminate_with_details address reason SshState_Completed identification))"

definition is_ssh_service :: "service_observation \<Rightarrow> bool" where
  "is_ssh_service service \<longleftrightarrow> svc_transport service = Tcp \<and> svc_service service = Svc_Ssh"

definition analysis_state :: "endpoint_analysis list \<Rightarrow> ssh_analysis_state" where
  "analysis_state analyses =
     (if list_ex (\<lambda>a. ea_state a = SshState_Cancelled) analyses then SshState_Cancelled
      else if list_ex (\<lambda>a. ea_state a = SshState_TimedOut) analyses then SshState_TimedOut
      else SshState_Completed)"

definition attach_posture :: "endpoint_analysis list \<Rightarrow> service_observation \<Rightarrow> service_observation" where
  \<comment> \<open>the body of the final loop of \<open>analyze_ssh\<close>\<close>
  "attach_posture analyses service =
     (if is_ssh_service service then
        (case find (\<lambda>a. ea_address a = svc_address service) analyses of
           Some analysis \<Rightarrow> service\<lparr>svc_ssh := Some (ea_posture analysis)\<rparr>
         | None \<Rightarrow> service)
      else service)"

definition clamp :: "nat \<Rightarrow> nat \<Rightarrow> nat \<Rightarrow> nat" where
  "clamp low high n = max low (min high n)"

definition analyze_ssh ::
    "(nat \<Rightarrow> endpoint_analysis list \<Rightarrow> endpoint_analysis list) \<Rightarrow> (nat \<Rightarrow> socket_addr \<Rightarrow> ssh_race) \<Rightarrow>
     service_observation list \<Rightarrow> nat \<Rightarrow> nat \<Rightarrow> service_observation list \<times> ssh_analysis_state" where
  "analyze_ssh arrive net services concurrency request_timeout =
     (let addresses = btree_set (map svc_address (filter is_ssh_service services))
      in if addresses = [] then (services, SshState_Completed)
         else let analyses =
                sort_key ea_address
                  (arrive (clamp 1 16 concurrency) (map (inspect_ssh net request_timeout) addresses))
           in (map (attach_posture analyses) services, analysis_state analyses))"


section \<open>Lemmas\<close>

lemma select_algorithm_Some:
  "select_algorithm client server = Some a \<longleftrightarrow>
   (\<exists>before after. client = before @ a # after \<and> a \<in> set server \<and> set before \<inter> set server = {})"
proof (induction client)
  case (Cons c client)
  show ?case
  proof (cases "c \<in> set server")
    case True
    then have "select_algorithm (c # client) server = Some c"
      by (auto simp: select_algorithm_def list_ex_iff)
    moreover have "c = a" if "c # client = before @ a # after" "set before \<inter> set server = {}" for before after
      using that True by (cases before) auto
    ultimately show ?thesis using True by (metis append_Nil empty_set inf_bot_left option.inject)
  next
    case False
    then have "select_algorithm (c # client) server = select_algorithm client server"
      by (auto simp: select_algorithm_def list_ex_iff)
    moreover have "(\<exists>before after. c # client = before @ a # after \<and> a \<in> set server \<and> set before \<inter> set server = {})
        \<longleftrightarrow> (\<exists>before after. client = before @ a # after \<and> a \<in> set server \<and> set before \<inter> set server = {})"
      (is "?l \<longleftrightarrow> ?r")
    proof
      assume ?l
      then obtain before after where *: "c # client = before @ a # after" "a \<in> set server" "set before \<inter> set server = {}"
        by blast
      with False show ?r by (cases before) auto
    next
      assume ?r
      then obtain before after where "client = before @ a # after" "a \<in> set server" "set before \<inter> set server = {}"
        by blast
      with False have "c # client = (c # before) @ a # after \<and> a \<in> set server \<and> set (c # before) \<inter> set server = {}"
        by auto
      then show ?l by blast
    qed
    ultimately show ?thesis using Cons.IH by simp
  qed
qed (simp add: select_algorithm_def)

lemma select_algorithm_None: "select_algorithm client server = None \<longleftrightarrow> set client \<inter> set server = {}"
  by (auto simp: select_algorithm_def find_None_iff list_ex_iff)

lemma select_algorithm_common: "select_algorithm client server = Some a \<Longrightarrow> a \<in> set client \<and> a \<in> set server"
  by (auto simp: select_algorithm_Some)

definition picks :: "string list list \<Rightarrow> partial_ssh_algorithm_selections" where
  \<comment> \<open>the reference: each selection is the first of the client's names the server offers\<close>
  "picks server =
     \<lparr>part_kex = select_algorithm KEX_ALGORITHMS (server ! 0),
      part_host_key = select_algorithm HOST_KEY_ALGORITHMS (server ! 1),
      part_cipher_c2s = select_algorithm CIPHER_ALGORITHMS (server ! 2),
      part_cipher_s2c = select_algorithm CIPHER_ALGORITHMS (server ! 3),
      part_mac_c2s = select_algorithm MAC_ALGORITHMS (server ! 4),
      part_mac_s2c = select_algorithm MAC_ALGORITHMS (server ! 5)\<rparr>"

definition missing_category :: "string list list \<Rightarrow> string option" where
  "missing_category server =
     map_option fst (find (\<lambda>(key, client, index). set client \<inter> set (server ! index) = {}) required_algorithms)"

lemma missing_loop:
  "fst (foldl (\<lambda>(missing, selections) (key, client, index).
         case select_algorithm client (server ! index) of
           Some selected \<Rightarrow> (missing, set_selection key selected selections)
         | None \<Rightarrow> (if missing = None then Some key else missing, selections)) (m, s) xs) =
   (if m \<noteq> None then m
    else map_option fst (find (\<lambda>(key, client, index). set client \<inter> set (server ! index) = {}) xs))"
proof (induction xs arbitrary: m s)
  case (Cons x xs)
  obtain key client index where x: "x = (key, client, index)" by (cases x)
  show ?case
    by (cases "select_algorithm client (server ! index)")
      (auto simp: x Cons select_algorithm_None [symmetric])
qed simp

lemma select_required_missing: "fst (select_required server) = missing_category server"
  unfolding select_required_def missing_category_def missing_loop by simp

definition select_step :: "string list list \<Rightarrow> partial_ssh_algorithm_selections \<Rightarrow>
    string \<times> string list \<times> nat \<Rightarrow> partial_ssh_algorithm_selections" where
  "select_step server s = (\<lambda>(key, client, index).
     case select_algorithm client (server ! index) of Some a \<Rightarrow> set_selection key a s | None \<Rightarrow> s)"

lemma selection_loop:
  "snd (foldl (\<lambda>(missing, selections) (key, client, index).
         case select_algorithm client (server ! index) of
           Some selected \<Rightarrow> (missing, set_selection key selected selections)
         | None \<Rightarrow> (if missing = None then Some key else missing, selections)) (m, s) xs) =
   foldl (select_step server) s xs"
proof (induction xs arbitrary: m s)
  case (Cons x xs)
  obtain key client index where x: "x = (key, client, index)" by (cases x)
  show ?case
    by (cases "select_algorithm client (server ! index)") (simp_all add: x Cons select_step_def)
qed simp

lemma set_selection_simps [simp]:
  "set_selection ''kex'' a s = s\<lparr>part_kex := Some a\<rparr>"
  "set_selection ''host_key'' a s = s\<lparr>part_host_key := Some a\<rparr>"
  "set_selection ''cipher_c2s'' a s = s\<lparr>part_cipher_c2s := Some a\<rparr>"
  "set_selection ''cipher_s2c'' a s = s\<lparr>part_cipher_s2c := Some a\<rparr>"
  "set_selection ''mac_c2s'' a s = s\<lparr>part_mac_c2s := Some a\<rparr>"
  "set_selection ''mac_s2c'' a s = s\<lparr>part_mac_s2c := Some a\<rparr>"
  "set_selection ''compression_c2s'' a s = s"
  "set_selection ''compression_s2c'' a s = s"
  by (simp_all add: set_selection_def)

lemma select_step_fields:
  "select_step server s (''kex'', c, n) =
     (if select_algorithm c (server ! n) = None then s else s\<lparr>part_kex := select_algorithm c (server ! n)\<rparr>)"
  "select_step server s (''host_key'', c, n) =
     (if select_algorithm c (server ! n) = None then s else s\<lparr>part_host_key := select_algorithm c (server ! n)\<rparr>)"
  "select_step server s (''cipher_c2s'', c, n) =
     (if select_algorithm c (server ! n) = None then s else s\<lparr>part_cipher_c2s := select_algorithm c (server ! n)\<rparr>)"
  "select_step server s (''cipher_s2c'', c, n) =
     (if select_algorithm c (server ! n) = None then s else s\<lparr>part_cipher_s2c := select_algorithm c (server ! n)\<rparr>)"
  "select_step server s (''mac_c2s'', c, n) =
     (if select_algorithm c (server ! n) = None then s else s\<lparr>part_mac_c2s := select_algorithm c (server ! n)\<rparr>)"
  "select_step server s (''mac_s2c'', c, n) =
     (if select_algorithm c (server ! n) = None then s else s\<lparr>part_mac_s2c := select_algorithm c (server ! n)\<rparr>)"
  "select_step server s (''compression_c2s'', c, n) = s"
  "select_step server s (''compression_s2c'', c, n) = s"
  by (simp_all add: select_step_def split: option.split)

lemma select_required_picks: "snd (select_required server) = picks server"
proof -
  have "foldl (select_step server) no_selections required_algorithms = picks server"
    by (simp add: required_algorithms_def select_step_fields no_selections_def)
      (simp add: picks_def)
  then show ?thesis by (simp add: select_required_def selection_loop)
qed


lemma missing_None:
  "missing_category server = None \<Longrightarrow> (key, client, index) \<in> set required_algorithms \<Longrightarrow>
   \<exists>a. select_algorithm client (server ! index) = Some a"
proof -
  assume "missing_category server = None" and mem: "(key, client, index) \<in> set required_algorithms"
  then have "set client \<inter> set (server ! index) \<noteq> {}"
    unfolding missing_category_def by (force simp: find_None_iff)
  then show ?thesis using select_algorithm_None by auto
qed

lemma required_mem:
  "(''kex'', KEX_ALGORITHMS, 0) \<in> set required_algorithms"
  "(''host_key'', HOST_KEY_ALGORITHMS, 1) \<in> set required_algorithms"
  "(''cipher_c2s'', CIPHER_ALGORITHMS, 2) \<in> set required_algorithms"
  "(''cipher_s2c'', CIPHER_ALGORITHMS, 3) \<in> set required_algorithms"
  "(''mac_c2s'', MAC_ALGORITHMS, 4) \<in> set required_algorithms"
  "(''mac_s2c'', MAC_ALGORITHMS, 5) \<in> set required_algorithms"
  unfolding required_algorithms_def by simp_all

lemma posture_outcome_picks:
  "ssh_outcome (inferred_posture i server) = posture_outcome (missing_category server) (picks server)"
  using select_required_missing [of server] select_required_picks [of server]
  by (cases "select_required server") (simp add: inferred_posture_def)

lemma complete_outcome:
  "missing_category server = None \<Longrightarrow>
   \<exists>s. posture_outcome None (picks server) = Ssh_Complete s \<and>
     Some (sel_kex s) = select_algorithm KEX_ALGORITHMS (server ! 0) \<and>
     Some (sel_host_key s) = select_algorithm HOST_KEY_ALGORITHMS (server ! 1) \<and>
     Some (sel_cipher_c2s s) = select_algorithm CIPHER_ALGORITHMS (server ! 2) \<and>
     Some (sel_cipher_s2c s) = select_algorithm CIPHER_ALGORITHMS (server ! 3) \<and>
     Some (sel_mac_c2s s) = select_algorithm MAC_ALGORITHMS (server ! 4) \<and>
     Some (sel_mac_s2c s) = select_algorithm MAC_ALGORITHMS (server ! 5)"
proof -
  assume none: "missing_category server = None"
  note some = required_mem [THEN missing_None [OF none]]
  obtain a b c d e f where
    "select_algorithm KEX_ALGORITHMS (server ! 0) = Some a"
    "select_algorithm HOST_KEY_ALGORITHMS (server ! 1) = Some b"
    "select_algorithm CIPHER_ALGORITHMS (server ! 2) = Some c"
    "select_algorithm CIPHER_ALGORITHMS (server ! 3) = Some d"
    "select_algorithm MAC_ALGORITHMS (server ! 4) = Some e"
    "select_algorithm MAC_ALGORITHMS (server ! 5) = Some f"
    using some by blast
  then show ?thesis by (simp add: posture_outcome_def picks_def)
qed

lemma partial_outcome:
  "posture_outcome (Some key) s = Ssh_Partial s (''no common required algorithm: '' @ key)"
  by (simp add: posture_outcome_def split: option.split)

lemma inspect_ssh_address [simp]: "ea_address (inspect_ssh net t a) = a"
  by (simp add: inspect_ssh_def ssh_indeterminate_def indeterminate_with_details_def
      split: ssh_race.split sum.split prod.split)

interpretation ssh: keyed_stage "inspect_ssh net t" ea_address id for net t
  by unfold_locales simp

lemma find_map_key:
  "a \<in> set xs \<Longrightarrow> (\<And>x. key (f x) = x) \<Longrightarrow> find (\<lambda>y. key y = a) (map f xs) = Some (f a)"
  by (induction xs) auto

lemma inspect_ssh_state:
  "ea_state (inspect_ssh net t a) = SshState_Cancelled \<longleftrightarrow> net t a = SshRace_Cancelled"
  "ea_state (inspect_ssh net t a) = SshState_TimedOut \<longleftrightarrow> net t a = SshRace_Deadline"
  by (simp_all add: inspect_ssh_def ssh_indeterminate_def indeterminate_with_details_def
      split: ssh_race.split sum.split prod.split)

lemma analyze_ssh_sequential:
  assumes "fair_pool arrive"
  shows "analyze_ssh arrive net services n t =
    (map (\<lambda>s. if is_ssh_service s then s\<lparr>svc_ssh := Some (ea_posture (inspect_ssh net t (svc_address s)))\<rparr> else s)
       services,
     analysis_state (map (inspect_ssh net t) (btree_set (map svc_address (filter is_ssh_service services)))))"
proof -
  let ?as = "btree_set (map svc_address (filter is_ssh_service services))"
  have "mset (arrive (clamp 1 16 n) (map (inspect_ssh net t) ?as)) = mset (map (inspect_ssh net t) ?as)"
    by (rule fair_pool_mset [OF assms]) (simp add: clamp_def)
  from ssh.arrival_order_invisible_total [OF this] have
    sorted: "sort_key ea_address (arrive (clamp 1 16 n) (map (inspect_ssh net t) ?as)) = map (inspect_ssh net t) ?as"
    by (simp add: sort_key_id_if_sorted [of id, simplified])
  have attach: "attach_posture (map (inspect_ssh net t) ?as) s =
      (if is_ssh_service s then s\<lparr>svc_ssh := Some (ea_posture (inspect_ssh net t (svc_address s)))\<rparr> else s)"
    if "s \<in> set services" for s
  proof (cases "is_ssh_service s")
    case True
    with that have "svc_address s \<in> set ?as" by auto
    with True show ?thesis by (simp add: attach_posture_def find_map_key)
  qed (simp add: attach_posture_def)
  show ?thesis
  proof (cases "?as = []")
    case True
    then have "filter is_ssh_service services = []" by (metis set_btree_set set_empty map_is_Nil_conv)
    then have "map (\<lambda>s. if is_ssh_service s then s\<lparr>svc_ssh := Some (ea_posture (inspect_ssh net t (svc_address s)))\<rparr> else s)
        services = services"
      by (intro map_idI) (auto simp: filter_empty_conv)
    with True show ?thesis by (simp add: analyze_ssh_def Let_def analysis_state_def)
  next
    case False
    with sorted attach show ?thesis by (simp add: analyze_ssh_def Let_def cong: map_cong)
  qed
qed


section \<open>Properties\<close>

text \<open>
  The inferred negotiation follows RFC 4253: the outcome is complete exactly when every required category,
  compression included, has a common algorithm, and then every selection is the first name of the client's
  list that the server offers; otherwise it is partial, keeps the selections that exist, and names the first
  category without a common algorithm, so the fallback reason of the code is never used.
\<close>

theorem inferred_posture_exact:
  "ssh_ident (inferred_posture i server) = Some i \<and>
   (case missing_category server of
      None \<Rightarrow> \<exists>s. ssh_outcome (inferred_posture i server) = Ssh_Complete s \<and>
        Some (sel_kex s) = select_algorithm KEX_ALGORITHMS (server ! 0) \<and>
        Some (sel_host_key s) = select_algorithm HOST_KEY_ALGORITHMS (server ! 1) \<and>
        Some (sel_cipher_c2s s) = select_algorithm CIPHER_ALGORITHMS (server ! 2) \<and>
        Some (sel_cipher_s2c s) = select_algorithm CIPHER_ALGORITHMS (server ! 3) \<and>
        Some (sel_mac_c2s s) = select_algorithm MAC_ALGORITHMS (server ! 4) \<and>
        Some (sel_mac_s2c s) = select_algorithm MAC_ALGORITHMS (server ! 5)
    | Some key \<Rightarrow> ssh_outcome (inferred_posture i server) =
        Ssh_Partial (picks server) (''no common required algorithm: '' @ key))"
proof -
  have "ssh_ident (inferred_posture i server) = Some i"
    by (cases "select_required server") (simp add: inferred_posture_def)
  then show ?thesis
    using complete_outcome [of server]
    by (auto simp: posture_outcome_picks partial_outcome split: option.split)
qed

text \<open>
  The SSH stage is deterministic and changes nothing else: whatever the concurrency and the order in which
  inspections finish, it returns the same services in the same order, with the posture of its own endpoint
  attached to every TCP SSH service and no other field of any service touched; it reports cancellation, or
  else the deadline, exactly when the inspection of some SSH endpoint saw it.
\<close>

theorem analyze_ssh_deterministic:
  assumes "fair_pool arrive"
  shows "fst (analyze_ssh arrive net services n t) =
      map (\<lambda>s. if is_ssh_service s then s\<lparr>svc_ssh := Some (ea_posture (inspect_ssh net t (svc_address s)))\<rparr> else s)
        services \<and>
    (snd (analyze_ssh arrive net services n t) = SshState_Cancelled \<longleftrightarrow>
      (\<exists>s. s \<in> set services \<and> is_ssh_service s \<and> net t (svc_address s) = SshRace_Cancelled)) \<and>
    (snd (analyze_ssh arrive net services n t) = SshState_TimedOut \<longleftrightarrow>
      (\<nexists>s. s \<in> set services \<and> is_ssh_service s \<and> net t (svc_address s) = SshRace_Cancelled) \<and>
      (\<exists>s. s \<in> set services \<and> is_ssh_service s \<and> net t (svc_address s) = SshRace_Deadline))"
proof -
  have any: "list_ex (\<lambda>a. ea_state a = st) (map (inspect_ssh net t)
        (btree_set (map svc_address (filter is_ssh_service services)))) \<longleftrightarrow>
      (\<exists>s. s \<in> set services \<and> is_ssh_service s \<and> ea_state (inspect_ssh net t (svc_address s)) = st)" for st
    by (auto simp: list_ex_iff)
  show ?thesis
    by (auto simp: analyze_ssh_sequential [OF assms] analysis_state_def any inspect_ssh_state)
qed

definition sample_ssh_session :: ssh_session where
  \<comment> \<open>a server that answers with the packet this program itself would send\<close>
  "sample_ssh_session =
     \<lparr>shs_connected = True, shs_write = (\<lambda>_. True),
      shs_stream = ''SSH-2.0-OpenSSH_9.6'' @ crlf @
        client_kexinit_packet (replicate 16 CHR ''c'') (replicate 16 CHR ''r''),
      shs_cookie = replicate 16 CHR ''d'', shs_padding = replicate 16 CHR ''e''\<rparr>"

definition sample_ssh_service :: service_observation where
  "sample_ssh_service =
     \<lparr>svc_transport = Tcp, svc_address = SocketAddr (V4 1) 22, svc_service = Svc_Ssh,
      svc_confidence = Conf_High, svc_banner = Some ''SSH-2.0-OpenSSH_9.6'', svc_details = [], svc_ssh = None\<rparr>"

theorem analyze_ssh_deterministic_witness:
  "fst (analyze_ssh (\<lambda>n. rev) (\<lambda>t a. SshRace_Timeout) [sample_ssh_service, sample_ssh_service] 9 5000) =
   replicate 2 (sample_ssh_service\<lparr>svc_ssh :=
     Some \<lparr>ssh_ident = None, ssh_outcome = Ssh_Indeterminate ''request timeout''\<rparr>\<rparr>)"
  using analyze_ssh_deterministic [OF fair_pool_rev, THEN conjunct1,
      of "\<lambda>t a. SshRace_Timeout" "[sample_ssh_service, sample_ssh_service]" 9 5000]
  by (simp add: sample_ssh_service_def is_ssh_service_def inspect_ssh_def ssh_indeterminate_def
      indeterminate_with_details_def numeral_eq_Suc)

text \<open>
  C34: A complete posture always has its evidence: it is reported only for an endpoint that was reached, took
  both of the client's messages, sent an accepted identification line and then a KEXINIT packet the exact
  parser accepts, and each algorithm reported as selected was offered by that packet and by the client.
\<close>

theorem complete_posture_evidence:
  assumes "ssh_outcome (ea_posture (inspect_ssh net t a)) = Ssh_Complete s"
  shows "\<exists>ses i stream server.
    net t a = SshRace_Session ses \<and> shs_connected ses \<and>
    shs_write ses CLIENT_IDENTIFICATION \<and>
    shs_write ses (client_kexinit_packet (shs_cookie ses) (shs_padding ses)) \<and>
    read_identification (shs_stream ses) = Inr (i, stream) \<and> read_server_kexinit stream = Inr server \<and>
    ssh_ident (ea_posture (inspect_ssh net t a)) = Some i \<and>
    sel_kex s \<in> set KEX_ALGORITHMS \<inter> set (server ! 0) \<and>
    sel_host_key s \<in> set HOST_KEY_ALGORITHMS \<inter> set (server ! 1) \<and>
    sel_cipher_c2s s \<in> set CIPHER_ALGORITHMS \<inter> set (server ! 2) \<and>
    sel_cipher_s2c s \<in> set CIPHER_ALGORITHMS \<inter> set (server ! 3) \<and>
    sel_mac_c2s s \<in> set MAC_ALGORITHMS \<inter> set (server ! 4) \<and>
    sel_mac_s2c s \<in> set MAC_ALGORITHMS \<inter> set (server ! 5)"
proof -
  from assms obtain ses where net: "net t a = SshRace_Session ses"
    by (auto simp: inspect_ssh_def ssh_indeterminate_def indeterminate_with_details_def split: ssh_race.splits)
  with assms obtain p where p: "inspect_ssh_inner ses = Inr p" "ea_posture (inspect_ssh net t a) = p"
    by (auto simp: inspect_ssh_def indeterminate_with_details_def split: sum.splits)
  then obtain i stream server where run: "shs_connected ses" "shs_write ses CLIENT_IDENTIFICATION"
    "shs_write ses (client_kexinit_packet (shs_cookie ses) (shs_padding ses))"
    "read_identification (shs_stream ses) = Inr (i, stream)" "read_server_kexinit stream = Inr server"
    and post: "p = inferred_posture i server"
    by (auto simp: inspect_ssh_inner_def split: if_splits sum.splits)
  have none: "missing_category server = None"
    using assms p post partial_outcome by (cases "missing_category server") (auto simp: posture_outcome_picks)
  from complete_outcome [OF this] assms p post none
  have "select_algorithm KEX_ALGORITHMS (server ! 0) = Some (sel_kex s)"
    "select_algorithm HOST_KEY_ALGORITHMS (server ! 1) = Some (sel_host_key s)"
    "select_algorithm CIPHER_ALGORITHMS (server ! 2) = Some (sel_cipher_c2s s)"
    "select_algorithm CIPHER_ALGORITHMS (server ! 3) = Some (sel_cipher_s2c s)"
    "select_algorithm MAC_ALGORITHMS (server ! 4) = Some (sel_mac_c2s s)"
    "select_algorithm MAC_ALGORITHMS (server ! 5) = Some (sel_mac_s2c s)"
    by (auto simp: posture_outcome_picks)
  note common = this [THEN select_algorithm_common]
  have "ssh_ident p = Some i" using inferred_posture_exact [of i server] post by simp
  with net run p common show ?thesis by blast
qed

lemma sample_identification:
  "read_identification (''SSH-2.0-OpenSSH_9.6'' @ crlf @ rest) =
   Inr (\<lparr>ssh_protocol = ''2.0'', ssh_software = ''OpenSSH_9.6''\<rparr>, rest)"
  unfolding crlf_def append.simps by code_simp

theorem complete_posture_evidence_witness:
  "\<exists>ses i stream server. SshRace_Session sample_ssh_session = SshRace_Session ses \<and>
     read_identification (shs_stream ses) = Inr (i, stream) \<and> read_server_kexinit stream = Inr server \<and>
     ''curve25519-sha256'' \<in> set KEX_ALGORITHMS \<inter> set (server ! 0)"
proof -
  let ?r = "inspect_ssh (\<lambda>t a. SshRace_Session sample_ssh_session) 9 (SocketAddr (V4 1) 22)"
  have i: "read_identification (shs_stream sample_ssh_session) =
      Inr (\<lparr>ssh_protocol = ''2.0'', ssh_software = ''OpenSSH_9.6''\<rparr>,
        client_kexinit_packet (replicate 16 CHR ''c'') (replicate 16 CHR ''r''))"
    unfolding sample_ssh_session_def ssh_session.simps by (rule sample_identification)
  have k: "read_server_kexinit (client_kexinit_packet (replicate 16 CHR ''c'') (replicate 16 CHR ''r'')) =
      Inr client_name_lists"
    using client_packet_read [of "replicate 16 CHR ''c''" "replicate 16 CHR ''r''" "[]"] by simp
  have "shs_connected sample_ssh_session" "shs_write sample_ssh_session bs" for bs
    by (simp_all add: sample_ssh_session_def)
  with i k have "ea_posture ?r = inferred_posture \<lparr>ssh_protocol = ''2.0'', ssh_software = ''OpenSSH_9.6''\<rparr> client_name_lists"
    by (simp add: inspect_ssh_def inspect_ssh_inner_def)
  moreover have "missing_category client_name_lists = None" by code_simp
  moreover have "posture_outcome None (picks client_name_lists) =
    Ssh_Complete \<lparr>sel_kex = ''curve25519-sha256'', sel_host_key = ''ssh-ed25519'', sel_cipher_c2s = ''aes256-ctr'',
      sel_cipher_s2c = ''aes256-ctr'', sel_mac_c2s = ''hmac-sha2-512'', sel_mac_s2c = ''hmac-sha2-512''\<rparr>"
    by code_simp
  ultimately have "ssh_outcome (ea_posture ?r) =
    Ssh_Complete \<lparr>sel_kex = ''curve25519-sha256'', sel_host_key = ''ssh-ed25519'', sel_cipher_c2s = ''aes256-ctr'',
      sel_cipher_s2c = ''aes256-ctr'', sel_mac_c2s = ''hmac-sha2-512'', sel_mac_s2c = ''hmac-sha2-512''\<rparr>"
    by (simp only: posture_outcome_picks)
  from complete_posture_evidence [OF this] show ?thesis
    by (simp only: ssh_algorithm_selections.simps) blast
qed

end
