(* ===== verification/Engine.thy ===== *)
theory Engine
  imports Lifecycle Ssh
begin

text \<open>
  The orchestration of a scan, \<^verbatim>\<open>crates/surface-core/src/engine.rs\<close>: one definition per stage of
  \<open>run_scan_inner\<close>, in its order, over a run that carries the report, the progress events sent so far and
  whether the function has returned. The environment answers what the stages ask of the world: whether the
  token is cancelled or the deadline past at each point where the code looks, which branch a \<open>select!\<close> takes,
  what the DNS analyses return, and the network and completion orders of the component theories.
\<close>

section \<open>The environment\<close>

datatype check_point =
    Before_Dns | Before_Ports | After_Ports | Before_Services | After_Services
  | Before_Http | After_Http | Before_Tls | After_Tls | At_Finish

datatype 'a poll = Poll_Cancelled | Poll_Elapsed | Poll_Done 'a

record 'u scan_env =
  env_cancelled :: "check_point \<Rightarrow> bool"
  env_expired :: "check_point \<Rightarrow> bool"
  env_baseline :: "normalized_target \<Rightarrow> nat \<Rightarrow> bool \<Rightarrow> bool \<Rightarrow> (string + dns_baseline) poll"
  env_dnssec :: "normalized_target \<Rightarrow> nat \<Rightarrow> bool \<Rightarrow> bool \<Rightarrow> dnssec_observation poll"
  env_axfr :: "authoritative_evidence \<Rightarrow> nat \<Rightarrow> axfr_check"
  env_wildcard :: "normalized_target \<Rightarrow> nat \<Rightarrow> bool \<Rightarrow> bool \<Rightarrow> wildcard_dns_check"
  env_dangling :: "cname_hop list \<Rightarrow> nat \<Rightarrow> bool \<Rightarrow> bool \<Rightarrow> dangling_cname_check"
  env_tcp :: "nat \<Rightarrow> socket_addr \<Rightarrow> probe_result"
  env_udp :: "nat \<Rightarrow> string \<Rightarrow> bytes \<Rightarrow> socket_addr \<Rightarrow> probe_result"
  env_service :: "nat \<Rightarrow> socket_addr \<Rightarrow> probe_race"
  env_ssh :: "nat \<Rightarrow> socket_addr \<Rightarrow> ssh_race"
  env_url_ops :: "'u url_ops"
  env_http_cancelled :: "service_observation \<Rightarrow> bool"
  env_http_client :: "(string \<times> socket_addr) option \<Rightarrow> nat \<Rightarrow> 'u http_client"
  env_x509 :: x509_crate
  env_verifier_builds :: bool
  env_tls :: "nat \<Rightarrow> socket_addr \<Rightarrow> tls_attempt"
  env_port_order :: "nat \<Rightarrow> port_observation list \<Rightarrow> port_observation list"
  env_udp_order :: "nat \<Rightarrow> port_observation list \<Rightarrow> port_observation list"
  env_service_order :: "nat \<Rightarrow> service_observation option list \<Rightarrow> service_observation option list"
  env_ssh_order :: "nat \<Rightarrow> endpoint_analysis list \<Rightarrow> endpoint_analysis list"
  env_http_order :: "nat \<Rightarrow> http_observation option list \<Rightarrow> http_observation option list"
  env_tls_order :: "nat \<Rightarrow> tls_observation option list \<Rightarrow> tls_observation option list"

section \<open>A run\<close>

record scan_run =
  run_report :: scan_report
  run_progress :: "scan_progress list"
  run_authority :: "authoritative_evidence option"
  run_returned :: bool

definition on_report :: "(scan_report \<Rightarrow> scan_report) \<Rightarrow> scan_run \<Rightarrow> scan_run" where
  "on_report f run = run\<lparr>run_report := f (run_report run)\<rparr>"

definition emit :: "scan_progress \<Rightarrow> scan_run \<Rightarrow> scan_run" where
  \<comment> \<open>\<open>progress(event)\<close>\<close>
  "emit event run = run\<lparr>run_progress := push (run_progress run) event\<rparr>"

definition give_back :: "scan_run \<Rightarrow> scan_run" where
  \<comment> \<open>\<open>return report\<close>\<close>
  "give_back run = run\<lparr>run_returned := True\<rparr>"

definition stop_run :: "scan_stage \<Rightarrow> scan_selection \<Rightarrow> scan_error_kind \<Rightarrow> string \<Rightarrow> scan_run \<Rightarrow> scan_run" where
  \<comment> \<open>\<open>lifecycle::terminate(..); return report\<close>\<close>
  "stop_run stage selection kind message run = give_back (on_report (terminate stage selection kind message) run)"

definition and_then :: "(scan_run \<Rightarrow> scan_run) \<Rightarrow> (scan_run \<Rightarrow> scan_run) \<Rightarrow> scan_run \<Rightarrow> scan_run" where
  \<comment> \<open>the next statement, reached only when the function has not returned\<close>
  "and_then first second run = (let run = first run in if run_returned run then run else second run)"

section \<open>Stages\<close>

definition incompatible_address_family :: "scan_report \<Rightarrow> bool" where
  "incompatible_address_family report \<longleftrightarrow>
     (case tgt_explicit_ip (rep_target report) of
        None \<Rightarrow> False
      | Some ip \<Rightarrow>
          cfg_ipv4_only (rep_configuration report) \<and> is_ipv6 ip \<or>
          cfg_ipv6_only (rep_configuration report) \<and> is_ipv4 ip)"

definition scan_addresses :: "scan_report \<Rightarrow> ip_addr list" where
  "scan_addresses report =
     (case rep_dns report of None \<Rightarrow> [] | Some dns \<Rightarrow> btree_set (map rh_ip (dns_resolved_hosts dns)))"

definition no_hostname :: "scan_report \<Rightarrow> bool" where
  \<comment> \<open>\<open>explicit_ip.is_some() || hostname.is_none()\<close>\<close>
  "no_hostname report \<longleftrightarrow> tgt_explicit_ip (rep_target report) \<noteq> None \<or> tgt_hostname (rep_target report) = None"

definition update_dns :: "(dns_observation \<Rightarrow> dns_observation) \<Rightarrow> scan_report \<Rightarrow> scan_report" where
  \<comment> \<open>\<open>if let Some(dns) = report.dns.as_mut()\<close>\<close>
  "update_dns f report = report\<lparr>rep_dns := map_option f (rep_dns report)\<rparr>"

definition stage_error :: "scan_stage \<Rightarrow> scan_error_kind \<Rightarrow> string \<Rightarrow> scan_report \<Rightarrow> scan_report" where
  \<comment> \<open>\<open>report.errors.push(ScanError::new(stage, report.target.hostname.clone(), kind, message, true))\<close>\<close>
  "stage_error stage kind message report =
     add_report_error (new_scan_error stage (tgt_hostname (rep_target report)) kind message True) report"

definition start_run :: "string \<Rightarrow> int \<Rightarrow> normalized_target \<Rightarrow> scan_configuration \<Rightarrow> scan_selection \<Rightarrow> scan_run" where
  "start_run scan_id started_at target configuration selection =
     (let configuration = configuration\<lparr>cfg_authorization_acknowledged := True\<rparr>;
          report = not_started scan_id started_at target configuration;
          report = record_selection_skips selection report
      in \<lparr>run_report = report, run_progress = [], run_authority = None, run_returned = False\<rparr>)"

definition preflight_stage :: "'u scan_env \<Rightarrow> scan_selection \<Rightarrow> scan_run \<Rightarrow> scan_run" where
  "preflight_stage env selection run =
     (if incompatible_address_family (run_report run) then
        stop_run Stage_Preflight selection Err_Configuration
          ''explicit IP conflicts with the selected address family'' run
      else
        let run = on_report (\<lambda>r. r\<lparr>rep_message := ''Scan started.''\<rparr>) run
        in if env_expired env Before_Dns then
             stop_run Stage_Dns selection Err_Timeout ''global timeout expired before DNS analysis'' run
           else emit (Started Stage_Dns) run)"

definition extend_errors :: "scan_error list \<Rightarrow> scan_report \<Rightarrow> scan_report" where
  "extend_errors es report = report\<lparr>rep_errors := rep_errors report @ es\<rparr>"

definition baseline_stage :: "'u scan_env \<Rightarrow> scan_selection \<Rightarrow> scan_run \<Rightarrow> scan_run" where
  "baseline_stage env selection run =
     (let report = run_report run; cfg = rep_configuration report
      in case env_baseline env (rep_target report) (cfg_request_timeout_ms cfg) (cfg_ipv4_only cfg)
             (cfg_ipv6_only cfg) of
           Poll_Cancelled \<Rightarrow>
             stop_run Stage_Dns selection Err_Cancelled ''scan interrupted during DNS analysis'' run
         | Poll_Elapsed \<Rightarrow>
             stop_run Stage_Dns selection Err_Timeout ''global timeout expired during DNS analysis'' run
         | Poll_Done (Inl message) \<Rightarrow> on_report (stage_error Stage_Dns Err_Dns message) run
         | Poll_Done (Inr baseline) \<Rightarrow>
             (on_report (\<lambda>r. (extend_errors (dns_errors (base_observation baseline)) r)
                \<lparr>rep_dns := Some (base_observation baseline)\<rparr>) run)
               \<lparr>run_authority := base_authority baseline\<rparr>)"

definition dnssec_interrupted :: "string \<Rightarrow> scan_report \<Rightarrow> scan_report" where
  "dnssec_interrupted limitation =
     update_dns (\<lambda>dns. dns\<lparr>dns_dnssec := Some (dnssec_default
       \<lparr>dnssec_status := Dnssec_Indeterminate, dnssec_limitations := [limitation]\<rparr>)\<rparr>)"

definition dnssec_stage :: "'u scan_env \<Rightarrow> scan_selection \<Rightarrow> scan_run \<Rightarrow> scan_run" where
  "dnssec_stage env selection run =
     (let report = run_report run; cfg = rep_configuration report
      in if no_hostname report then
           on_report (add_skipped_check ''dnssec_validation'' ''not applicable: target has no hostname'') run
         else case env_dnssec env (rep_target report) (cfg_request_timeout_ms cfg) (cfg_ipv4_only cfg)
             (cfg_ipv6_only cfg) of
           Poll_Cancelled \<Rightarrow>
             stop_run Stage_Dns selection Err_Cancelled ''scan interrupted during DNSSEC validation''
               (on_report (dnssec_interrupted ''scan interrupted during DNSSEC validation'') run)
         | Poll_Elapsed \<Rightarrow>
             stop_run Stage_Dns selection Err_Timeout ''global timeout expired during DNSSEC validation''
               (on_report (dnssec_interrupted ''global timeout expired during DNSSEC validation'') run)
         | Poll_Done observation \<Rightarrow>
             let run =
               (if dnssec_status observation \<in> {Dnssec_Indeterminate, Dnssec_NotApplicable} then
                  on_report (add_skipped_check ''dnssec_validation''
                    (if dnssec_status observation = Dnssec_Indeterminate then
                       ''DNSSEC validation was indeterminate; see DNSSEC errors''
                     else ''no address RRset was selected for DNSSEC validation'')) run
                else run)
             in on_report (update_dns (\<lambda>dns. dns\<lparr>dns_dnssec := Some observation\<rparr>)) run)"

fun axfr_error_kind :: "axfr_outcome \<Rightarrow> scan_error_kind option" where
  "axfr_error_kind Axfr_Incomplete = Some Err_Dns"
| "axfr_error_kind Axfr_LimitExceeded = Some Err_Dns"
| "axfr_error_kind Axfr_Unreachable = Some Err_Network"
| "axfr_error_kind Axfr_Timeout = Some Err_Timeout"
| "axfr_error_kind _ = None"

definition axfr_attempt_error :: "axfr_attempt \<Rightarrow> scan_error option" where
  "axfr_attempt_error attempt =
     map_option (\<lambda>kind. new_scan_error Stage_Dns
         (Some (att_server attempt @ '' ('' @ show_socket (att_endpoint attempt) @ '')'')) kind
         (case att_error attempt of Some e \<Rightarrow> e | None \<Rightarrow> ''AXFR attempt was incomplete'') True)
       (axfr_error_kind (att_outcome attempt))"

definition axfr_stage :: "'u scan_env \<Rightarrow> scan_selection \<Rightarrow> scan_run \<Rightarrow> scan_run" where
  "axfr_stage env selection run =
     (let report = run_report run
      in if no_hostname report then
           on_report (add_skipped_check ''authoritative_axfr'' ''not applicable: target has no hostname'') run
         else case run_authority run of
           None \<Rightarrow>
             on_report (add_skipped_check ''authoritative_axfr''
               ''exact zone origin could not be established from primary-host SOA and matching NS evidence'') run
         | Some authority \<Rightarrow>
             let check = env_axfr env authority (cfg_request_timeout_ms (rep_configuration report));
                 run =
                   (case axc_observation check of
                      None \<Rightarrow> run
                    | Some observation \<Rightarrow>
                        on_report (update_dns (\<lambda>dns. dns\<lparr>dns_authoritative_axfr := Some observation\<rparr>))
                          (if axc_state check = AxfrCheck_Completed then
                             on_report (extend_errors (filter_map axfr_attempt_error (axfr_attempts observation))) run
                           else run))
             in (case axc_state check of
                   AxfrCheck_Completed \<Rightarrow> run
                 | AxfrCheck_Skipped reason \<Rightarrow> on_report (add_skipped_check ''authoritative_axfr'' reason) run
                 | AxfrCheck_TimedOut \<Rightarrow>
                     stop_run Stage_Dns selection Err_Timeout
                       ''global timeout expired during authoritative AXFR checking'' run
                 | AxfrCheck_Cancelled \<Rightarrow>
                     stop_run Stage_Dns selection Err_Cancelled
                       ''scan interrupted during authoritative AXFR checking'' run))"


definition wildcard_stage :: "'u scan_env \<Rightarrow> scan_selection \<Rightarrow> scan_run \<Rightarrow> scan_run" where
  "wildcard_stage env selection run =
     (let report = run_report run; cfg = rep_configuration report
      in if no_hostname report then
           on_report (add_skipped_check ''wildcard_dns'' ''not applicable: target has no hostname'') run
         else if rep_dns report = None then
           on_report (add_skipped_check ''wildcard_dns'' ''baseline DNS observation was unavailable'') run
         else
           let check = env_wildcard env (rep_target report) (cfg_request_timeout_ms cfg) (cfg_ipv4_only cfg)
                 (cfg_ipv6_only cfg);
               status = wild_status (wdc_observation check);
               run = on_report (update_dns (\<lambda>dns. dns\<lparr>dns_wildcard_dns := Some (wdc_observation check)\<rparr>)) run
           in (case wdc_state check of
                 WildCheck_Completed \<Rightarrow>
                   if status = Wild_Indeterminate then
                     on_report (add_skipped_check ''wildcard_dns''
                       ''wildcard DNS detection was indeterminate; see DNS limitations'') run
                   else run
               | WildCheck_TimedOut \<Rightarrow>
                   stop_run Stage_Dns selection Err_Timeout
                     ''global timeout expired during wildcard DNS detection'' run
               | WildCheck_Cancelled \<Rightarrow>
                   stop_run Stage_Dns selection Err_Cancelled
                     ''scan interrupted during wildcard DNS detection'' run))"

definition dangling_stage :: "'u scan_env \<Rightarrow> scan_selection \<Rightarrow> scan_run \<Rightarrow> scan_run" where
  "dangling_stage env selection run =
     (let report = run_report run; cfg = rep_configuration report
      in if no_hostname report then
           on_report (add_skipped_check ''dangling_cname'' ''not applicable: target has no hostname'') run
         else
           let cname_chain = (case rep_dns report of Some dns \<Rightarrow> dns_cname_chain dns | None \<Rightarrow> [])
           in if cname_chain = [] then
                on_report (add_skipped_check ''dangling_cname''
                  ''no primary-target CNAME destination was directly observed'') run
              else
                let check = env_dangling env cname_chain (cfg_request_timeout_ms cfg) (cfg_ipv4_only cfg)
                      (cfg_ipv6_only cfg);
                    indeterminate = list_ex (\<lambda>v. dg_status v = Dangling_Indeterminate) (dcc_observations check);
                    run = on_report (update_dns (\<lambda>dns. dns\<lparr>dns_dangling_cnames := dcc_observations check\<rparr>)) run
                in (case dcc_state check of
                      DanglingCheck_Completed \<Rightarrow>
                        if indeterminate then
                          on_report (add_skipped_check ''dangling_cname''
                            ''CNAME destination status was indeterminate; see DNS limitations'') run
                        else run
                    | DanglingCheck_TimedOut \<Rightarrow>
                        stop_run Stage_Dns selection Err_Timeout
                          ''global timeout expired during CNAME destination checking'' run
                    | DanglingCheck_Cancelled \<Rightarrow>
                        stop_run Stage_Dns selection Err_Cancelled
                          ''scan interrupted during CNAME destination checking'' run))"

definition finish_selected_report ::
    "'u scan_env \<Rightarrow> scan_selection \<Rightarrow> scan_stage option \<Rightarrow> scan_report \<Rightarrow> scan_report" where
  "finish_selected_report env selection unfinished_stage report =
     (if env_cancelled env At_Finish then
        terminate (case unfinished_stage of Some stage \<Rightarrow> stage | None \<Rightarrow> Stage_Findings) selection
          Err_Cancelled ''scan interrupted before findings finalization'' report
      else settle report)"

definition finish_run :: "'u scan_env \<Rightarrow> scan_selection \<Rightarrow> scan_stage option \<Rightarrow> scan_run \<Rightarrow> scan_run" where
  \<comment> \<open>\<open>return finish_selected_report(..)\<close>\<close>
  "finish_run env selection unfinished_stage run =
     give_back (on_report (finish_selected_report env selection unfinished_stage) run)"

definition stop_if ::
    "'u scan_env \<Rightarrow> check_point \<Rightarrow> scan_stage \<Rightarrow> scan_selection \<Rightarrow> string \<Rightarrow> scan_run \<Rightarrow> scan_run" where
  \<comment> \<open>\<open>if Instant::now() >= deadline { terminate(..); return report; }\<close>\<close>
  "stop_if env point stage selection message run =
     (if env_expired env point then stop_run stage selection Err_Timeout message run else run)"

definition stop_if_interrupted ::
    "'u scan_env \<Rightarrow> check_point \<Rightarrow> scan_stage \<Rightarrow> scan_selection \<Rightarrow> string \<Rightarrow> string \<Rightarrow> scan_run \<Rightarrow> scan_run" where
  \<comment> \<open>the same after the test for cancellation\<close>
  "stop_if_interrupted env point stage selection cancel_message timeout_message run =
     (if env_cancelled env point then stop_run stage selection Err_Cancelled cancel_message run
      else stop_if env point stage selection timeout_message run)"

definition addresses_stage :: "'u scan_env \<Rightarrow> scan_selection \<Rightarrow> scan_run \<Rightarrow> scan_run" where
  "addresses_stage env selection run =
     (let addresses = scan_addresses (run_report run);
          run = emit (StageCompleted Stage_Dns (length addresses)) run
      in if addresses = [] then
           finish_run env selection (Some Stage_Ports)
             (on_report (\<lambda>r. r\<lparr>rep_status := Partial,
               rep_message := ''DNS analysis completed, but no primary-host IP addresses were available.''\<rparr>) run)
         else if \<not> sel_ports selection then finish_run env selection None run
         else stop_if env Before_Ports Stage_Ports selection ''global timeout expired before port scanning'' run)"

definition port_key :: "port_observation \<Rightarrow> u16 \<times> transport_protocol" where
  "port_key port = (sa_port (po_address port), po_transport port)"

fun merge_host :: "host_observation list \<Rightarrow> host_observation \<Rightarrow> host_observation list" where
  \<comment> \<open>the loop body of \<open>merge_hosts\<close>\<close>
  "merge_host [] udp_host = [udp_host]"
| "merge_host (host # tcp) udp_host =
     (if host_ip host = host_ip udp_host then
        host\<lparr>host_ports := sort_key port_key (host_ports host @ host_ports udp_host)\<rparr> # tcp
      else host # merge_host tcp udp_host)"

definition merge_hosts :: "host_observation list \<Rightarrow> host_observation list \<Rightarrow> host_observation list" where
  "merge_hosts tcp udp = sort_key host_ip (foldl merge_host tcp udp)"

definition div_ceil :: "nat \<Rightarrow> nat \<Rightarrow> nat" where
  "div_ceil a b = (a + b - 1) div b"

definition probe_hosts :: "'u scan_env \<Rightarrow> scan_report \<Rightarrow> host_observation list" where
  \<comment> \<open>\<open>ports_future\<close>\<close>
  "probe_hosts env report =
     (let cfg = rep_configuration report;
          addresses = scan_addresses report;
          probe_concurrency = max 1 (div_ceil (cfg_concurrency cfg) 2)
      in merge_hosts
           (scan_ports (env_port_order env) (env_tcp env) addresses (cfg_ports cfg) probe_concurrency
             (cfg_connect_timeout_ms cfg))
           (scan_udp_ports (env_udp_order env) (env_udp env) addresses (cfg_udp_ports cfg) probe_concurrency
             (cfg_connect_timeout_ms cfg)))"

definition ports_stage :: "'u scan_env \<Rightarrow> scan_selection \<Rightarrow> scan_run \<Rightarrow> scan_run" where
  "ports_stage env selection run =
     (let run = emit (Started Stage_Ports) run;
          run = on_report (\<lambda>r. r\<lparr>rep_hosts := probe_hosts env r\<rparr>) run;
          run = emit (StageCompleted Stage_Ports (length (rep_hosts (run_report run)))) run
      in stop_if_interrupted env After_Ports Stage_Ports selection
           ''scan interrupted during port scanning'' ''global timeout expired during port scanning'' run)"

definition MAX_ACTIVE_ENDPOINTS :: nat where
  "MAX_ACTIVE_ENDPOINTS = 256"

definition open_endpoint_count :: "scan_report \<Rightarrow> nat" where
  "open_endpoint_count report =
     length (filter (\<lambda>port. po_state port = Open) (concat (map host_ports (rep_hosts report))))"

definition services_entry :: "'u scan_env \<Rightarrow> scan_selection \<Rightarrow> scan_run \<Rightarrow> scan_run" where
  \<comment> \<open>the two tests between the port and the service stage\<close>
  "services_entry env selection run =
     (if \<not> sel_services selection then finish_run env selection None run
      else stop_if env Before_Services Stage_Services selection
        ''global timeout expired before service detection'' run)"

definition services_stage :: "'u scan_env \<Rightarrow> scan_selection \<Rightarrow> scan_run \<Rightarrow> scan_run" where
  "services_stage env selection run =
     (let run =
        (if MAX_ACTIVE_ENDPOINTS < open_endpoint_count (run_report run) then
           on_report (stage_error Stage_Services Err_Other
             ''active protocol probing truncated at 256 endpoints'') run
         else run);
          run = emit (Started Stage_Services) run;
          run = on_report (\<lambda>r. r\<lparr>rep_services :=
            detect_services (env_service_order env) (env_service env) (rep_hosts r)
              (tgt_hostname (rep_target r)) (min 32 (cfg_concurrency (rep_configuration r)))
              (cfg_request_timeout_ms (rep_configuration r))\<rparr>) run
      in stop_if_interrupted env After_Services Stage_Services selection
           ''scan interrupted during service detection'' ''global timeout expired during service detection'' run)"

definition ssh_stage :: "'u scan_env \<Rightarrow> scan_selection \<Rightarrow> scan_run \<Rightarrow> scan_run" where
  "ssh_stage env selection run =
     (let report = run_report run;
          (services, state) = analyze_ssh (env_ssh_order env) (env_ssh env) (rep_services report)
            (min 16 (cfg_concurrency (rep_configuration report))) (cfg_request_timeout_ms (rep_configuration report));
          run = on_report (\<lambda>r. r\<lparr>rep_services := services\<rparr>) run
      in case state of
           SshState_Completed \<Rightarrow>
             emit (StageCompleted Stage_Services (length (rep_services (run_report run)))) run
         | SshState_TimedOut \<Rightarrow>
             stop_run Stage_Services selection Err_Timeout ''global timeout expired during SSH analysis'' run
         | SshState_Cancelled \<Rightarrow>
             stop_run Stage_Services selection Err_Cancelled ''scan interrupted during SSH analysis'' run)"

definition http_work :: "'u scan_env \<Rightarrow> scan_selection \<Rightarrow> scan_run \<Rightarrow> scan_run" where
  \<comment> \<open>the block of the HTTP stage after its first deadline test\<close>
  "http_work env selection run =
     (let run = emit (Started Stage_Http) run;
          run = on_report (\<lambda>r. r\<lparr>rep_http :=
            analyze_http (env_http_order env) (env_url_ops env) (env_http_cancelled env) (env_http_client env)
              (rep_target r) (rep_services r) (min 16 (cfg_concurrency (rep_configuration r)))
              (cfg_request_timeout_ms (rep_configuration r))\<rparr>) run;
          run = emit (StageCompleted Stage_Http (length (rep_http (run_report run)))) run
      in stop_if_interrupted env After_Http Stage_Http selection
           ''scan interrupted during HTTP analysis'' ''global timeout expired during HTTP analysis'' run)"

definition http_stage :: "'u scan_env \<Rightarrow> scan_selection \<Rightarrow> scan_run \<Rightarrow> scan_run" where
  "http_stage env selection run =
     (if sel_http selection then
        and_then
          (stop_if env Before_Http Stage_Http selection ''global timeout expired before HTTP analysis'')
          (http_work env selection) run
      else run)"

definition tls_work :: "'u scan_env \<Rightarrow> scan_selection \<Rightarrow> string \<Rightarrow> scan_run \<Rightarrow> scan_run" where
  \<comment> \<open>the block of the TLS stage after its first deadline test\<close>
  "tls_work env selection server_name run =
     (let run = emit (Started Stage_Tls) run;
          run = on_report (\<lambda>r. r\<lparr>rep_tls :=
            analyze_tls (env_tls_order env) (env_x509 env) (env_verifier_builds env) (env_tls env)
              (rep_services r) server_name (min 16 (cfg_concurrency (rep_configuration r)))
              (cfg_request_timeout_ms (rep_configuration r))\<rparr>) run;
          run = emit (StageCompleted Stage_Tls (length (rep_tls (run_report run)))) run
      in stop_if_interrupted env After_Tls Stage_Tls selection
           ''scan interrupted during TLS analysis'' ''global timeout expired during TLS analysis'' run)"

definition tls_stage :: "'u scan_env \<Rightarrow> scan_selection \<Rightarrow> scan_run \<Rightarrow> scan_run" where
  "tls_stage env selection run =
     (case (sel_tls selection \<and> tgt_explicit_ip (rep_target (run_report run)) = None,
            tgt_hostname (rep_target (run_report run))) of
        (True, Some server_name) \<Rightarrow>
          and_then
            (stop_if env Before_Tls Stage_Tls selection ''global timeout expired before TLS analysis'')
            (tls_work env selection server_name) run
      | _ \<Rightarrow> run)"

definition tls_skip :: "scan_selection \<Rightarrow> scan_run \<Rightarrow> scan_run" where
  "tls_skip selection run =
     (if sel_tls selection \<and> no_hostname (run_report run) then
        on_report (add_skipped_check ''tls''
          ''not applicable: TLS validation requires a hostname for SNI and certificate matching'') run
      else run)"

section \<open>The scan\<close>

definition scan_stages :: "'u scan_env \<Rightarrow> scan_selection \<Rightarrow> (scan_run \<Rightarrow> scan_run) list" where
  \<comment> \<open>the statements of \<open>run_scan_inner\<close> after the report is built\<close>
  "scan_stages env selection =
     [preflight_stage env selection, baseline_stage env selection, dnssec_stage env selection,
      axfr_stage env selection, wildcard_stage env selection, dangling_stage env selection,
      addresses_stage env selection, ports_stage env selection, services_entry env selection,
      services_stage env selection, ssh_stage env selection, http_stage env selection,
      tls_stage env selection, tls_skip selection, finish_run env selection None]"

definition run_scan_inner ::
    "'u scan_env \<Rightarrow> string \<Rightarrow> int \<Rightarrow> normalized_target \<Rightarrow> scan_configuration \<Rightarrow> scan_selection \<Rightarrow> scan_run" where
  "run_scan_inner env scan_id started_at target configuration selection =
     foldl (\<lambda>run stage. if run_returned run then run else stage run)
       (start_run scan_id started_at target configuration selection) (scan_stages env selection)"

definition run_scan_selected ::
    "'u scan_env \<Rightarrow> interruption \<Rightarrow> interruption \<Rightarrow> int \<Rightarrow> int \<Rightarrow> string \<Rightarrow> int \<Rightarrow> normalized_target \<Rightarrow>
     scan_configuration \<Rightarrow> scan_selection \<Rightarrow> scan_report \<times> scan_progress list" where
  \<comment> \<open>\<open>run_scan_selected_until_with_progress\<close>: the report and every progress event\<close>
  "run_scan_selected env before after now finished scan_id started_at target configuration selection =
     (let run = run_scan_inner env scan_id started_at target configuration selection;
          (report, events) = finalize before after now finished (run_report run)
      in (report, run_progress run @ events))"

definition run_scan ::
    "'u scan_env \<Rightarrow> interruption \<Rightarrow> interruption \<Rightarrow> int \<Rightarrow> int \<Rightarrow> string \<Rightarrow> int \<Rightarrow> normalized_target \<Rightarrow>
     scan_configuration \<Rightarrow> scan_report" where
  "run_scan env before after now finished scan_id started_at target configuration =
     fst (run_scan_selected env before after now finished scan_id started_at target configuration selection_all)"


section \<open>Every stage is an operation on the report\<close>

lemma run_simps [simp]:
  "run_report (on_report f run) = f (run_report run)"
  "run_progress (on_report f run) = run_progress run"
  "run_authority (on_report f run) = run_authority run"
  "run_returned (on_report f run) = run_returned run"
  "run_report (emit e run) = run_report run"
  "run_progress (emit e run) = push (run_progress run) e"
  "run_returned (emit e run) = run_returned run"
  "run_report (give_back run) = run_report run"
  "run_progress (give_back run) = run_progress run"
  "run_returned (give_back run)"
  "run_report (stop_run stage sel kind m run) = terminate stage sel kind m (run_report run)"
  "run_progress (stop_run stage sel kind m run) = run_progress run"
  "run_returned (stop_run stage sel kind m run)"
  "run_report (finish_run env sel unfinished run) = finish_selected_report env sel unfinished (run_report run)"
  "run_progress (finish_run env sel unfinished run) = run_progress run"
  "run_returned (finish_run env sel unfinished run)"
  by (simp_all add: on_report_def emit_def give_back_def stop_run_def finish_run_def)

text \<open>
  The contract of a stage: what it does to the report is an operation of the lifecycle, and it only adds
  progress events.
\<close>

locale quiet_step = report_step +
  assumes keeps_conclusions: "conclusions (step r) = conclusions r"

lemma quiet_stepI: "report_step f \<Longrightarrow> (\<And>r. conclusions (f r) = conclusions r) \<Longrightarrow> quiet_step f"
  by (simp add: quiet_step_def quiet_step_axioms_def)

lemma quiet_step_comp: "quiet_step f \<Longrightarrow> quiet_step g \<Longrightarrow> quiet_step (\<lambda>r. g (f r))"
  using report_step_comp [of f g] by (simp add: quiet_step_def quiet_step_axioms_def)

lemma quiet_step_id: "quiet_step (\<lambda>r. r)"
  by (rule quiet_stepI) (simp_all add: report_step_id)

definition advances :: "scan_run \<Rightarrow> scan_run \<Rightarrow> bool" where
  "advances run run' \<longleftrightarrow>
     (\<exists>f. quiet_step f \<and> run_report run' = f (run_report run)) \<and>
     (\<exists>events. run_progress run' = run_progress run @ events) \<and>
     (run_returned run' \<longrightarrow> run_returned run \<or> rep_status (run_report run') \<noteq> NotStarted)"

lemma advances_refl [simp]: "advances run run"
  unfolding advances_def using quiet_step_id by (intro conjI exI [of _ "\<lambda>r. r"] exI [of _ "[]"]) simp_all

lemma advances_trans:
  assumes "advances a b" and "advances b c"
  shows "advances a c"
proof -
  from assms obtain f g where step: "quiet_step f" "quiet_step g"
    and eq: "run_report b = f (run_report a)" "run_report c = g (run_report b)"
    by (auto simp: advances_def)
  with quiet_step_comp [of f g] have "\<exists>h. quiet_step h \<and> run_report c = h (run_report a)" by auto
  moreover have "rep_status (run_report c) = NotStarted \<Longrightarrow> rep_status (run_report b) = NotStarted"
    using report_step.stays_started [OF quiet_step.axioms(1) [OF step(2)]] eq(2) by simp
  moreover have "\<exists>events. run_progress c = run_progress a @ events"
    using assms by (auto simp: advances_def)
  ultimately show ?thesis using assms unfolding advances_def by blast
qed

lemma advances_report: "quiet_step f \<Longrightarrow> advances run (on_report f run)"
  by (auto simp: advances_def)

lemma advances_same:
  "run_report run' = run_report run \<Longrightarrow> \<exists>events. run_progress run' = run_progress run @ events \<Longrightarrow>
   run_returned run' = run_returned run \<Longrightarrow> advances run run'"
  unfolding advances_def using quiet_step_id by auto

lemma advances_emit: "advances run (emit e run)"
  by (rule advances_same) (simp_all add: push_def)

lemma terminate_started: "rep_status (terminate stage sel kind m r) \<noteq> NotStarted"
  by (cases kind) (auto simp: terminate_def terminal_status_def Let_def add_report_error_def)

lemma quiet_ending: "quiet_step (terminate stage sel kind m)"
  by (rule quiet_stepI [OF ending.report_step_axioms]) simp

lemma advances_stop: "advances run (stop_run stage sel kind m run)"
  unfolding advances_def using quiet_ending [of stage sel kind m] terminate_started by auto

locale engine_stage =
  fixes stage :: "scan_run \<Rightarrow> scan_run"
  assumes stage_advances: "advances run (stage run)"
begin

lemma stage_wf: "report_wf (run_report run) \<Longrightarrow> report_wf (run_report (stage run))"
  using stage_advances [of run] unfolding advances_def
  by (metis quiet_step.axioms(1) report_step.keeps_wf)

lemma stage_scan: "same_scan (run_report run) (run_report (stage run))"
  using stage_advances [of run] unfolding advances_def
  by (metis quiet_step.axioms(1) report_step.keeps_scan)

lemma stage_errors: "set (rep_errors (run_report run)) \<subseteq> set (rep_errors (run_report (stage run)))"
  using stage_advances [of run] unfolding advances_def 
  by (metis quiet_step.axioms(1) report_step.errors_grow)

lemma stage_skips: "set (rep_skipped_checks (run_report run)) \<subseteq> set (rep_skipped_checks (run_report (stage run)))"
  using stage_advances [of run] unfolding advances_def 
  by (metis quiet_step.axioms(1) report_step.skips_grow)

lemma stage_progress: "\<exists>events. run_progress (stage run) = run_progress run @ events"
  using stage_advances [of run] by (simp add: advances_def)

lemma stage_returns:
  "run_returned (stage run) \<Longrightarrow> \<not> run_returned run \<Longrightarrow> rep_status (run_report (stage run)) \<noteq> NotStarted"
  using stage_advances [of run] by (simp add: advances_def)

end

lemma quiet_finish: "quiet_step (finish_selected_report env sel unfinished)"
proof (rule quiet_stepI)
  show "report_step (finish_selected_report env sel unfinished)"
    unfolding finish_selected_report_def [abs_def]
    by (intro report_step_If ending.report_step_axioms settling.report_step_axioms)
qed (simp add: finish_selected_report_def)

lemma finish_started: "rep_status (finish_selected_report env sel unfinished r) \<noteq> NotStarted"
  using terminate_started by (simp add: finish_selected_report_def settle_def)

lemma advances_finish: "advances run (finish_run env sel unfinished run)"
  unfolding advances_def using quiet_finish [of env sel unfinished] finish_started by auto

lemma quiet_update_dns: "quiet_step (update_dns f)"
  by (rule quiet_stepI, rule report_step_fields) (simp_all add: update_dns_def same_scan_def conclusions_def)

lemma quiet_extend_errors: "quiet_step (extend_errors es)"
  by unfold_locales (auto simp: extend_errors_def report_wf_def same_scan_def conclusions_def)

lemma quiet_stage_error: "quiet_step (stage_error stage kind m)"
  unfolding stage_error_def [abs_def]
  by unfold_locales (auto simp: add_report_error_def report_wf_def same_scan_def conclusions_def)

lemma quiet_dnssec_interrupted: "quiet_step (dnssec_interrupted m)"
  unfolding dnssec_interrupted_def by (rule quiet_update_dns)

lemma quiet_partial: "quiet_step (\<lambda>r. r\<lparr>rep_status := Partial, rep_message := m\<rparr>)"
  by unfold_locales (simp_all add: report_wf_def same_scan_def conclusions_def)

lemma quiet_skip: "quiet_step (add_skipped_check c m)"
  by (rule quiet_stepI [OF skipping.report_step_axioms]) simp

lemma quiet_writes:
  "quiet_step (\<lambda>r. r\<lparr>rep_message := m\<rparr>)"
  "quiet_step (\<lambda>r. r\<lparr>rep_dns := d\<rparr>)"
  "quiet_step (\<lambda>r. r\<lparr>rep_hosts := hosts r\<rparr>)"
  "quiet_step (\<lambda>r. r\<lparr>rep_services := services r\<rparr>)"
  "quiet_step (\<lambda>r. r\<lparr>rep_http := http r\<rparr>)"
  "quiet_step (\<lambda>r. r\<lparr>rep_tls := tls r\<rparr>)"
  by (rule quiet_stepI, rule report_step_fields; simp add: same_scan_def conclusions_def)+

lemma quiet_baseline: "quiet_step (\<lambda>r. (extend_errors es r)\<lparr>rep_dns := d\<rparr>)"
  by (rule quiet_step_comp [OF quiet_extend_errors quiet_writes(2)])

lemmas engine_steps =
  quiet_writes quiet_partial quiet_baseline quiet_dnssec_interrupted quiet_stage_error quiet_extend_errors
  quiet_update_dns quiet_skip

lemma advances_on_report: "quiet_step f \<Longrightarrow> advances run run' \<Longrightarrow> advances run (on_report f run')"
  using advances_trans advances_report by blast

lemma advances_after:
  "advances run run' \<Longrightarrow> advances run (emit e run')"
  "advances run run' \<Longrightarrow> advances run (stop_run stage sel kind m run')"
  "advances run run' \<Longrightarrow> advances run (finish_run env sel unfinished run')"
  using advances_trans advances_emit advances_stop advances_finish by blast+

lemma advances_stop_if: "advances run run' \<Longrightarrow> advances run (stop_if env point stage sel m run')"
  by (simp add: stop_if_def advances_after)

lemma advances_stop_if_interrupted:
  "advances run run' \<Longrightarrow> advances run (stop_if_interrupted env point stage sel cm tm run')"
  by (simp add: stop_if_interrupted_def advances_after advances_stop_if)

lemmas advance_rules =
  advances_refl advances_after advances_stop_if advances_stop_if_interrupted
  engine_steps [THEN advances_on_report]


lemma advances_if: "(c \<Longrightarrow> advances run a) \<Longrightarrow> (\<not> c \<Longrightarrow> advances run b) \<Longrightarrow> advances run (if c then a else b)"
  by simp

lemma advances_authority: "advances run run' \<Longrightarrow> advances run (run'\<lparr>run_authority := a\<rparr>)"
  using advances_trans [of run run'] advances_same by simp

lemma advances_and_then:
  "engine_stage f \<Longrightarrow> engine_stage g \<Longrightarrow> advances run (and_then f g run)"
  using advances_trans [of run "f run" "g (f run)"] by (simp add: and_then_def Let_def engine_stage_def)

interpretation preflight: engine_stage "preflight_stage env sel" for env sel
  by unfold_locales (simp add: preflight_stage_def Let_def advance_rules)

interpretation baseline: engine_stage "baseline_stage env sel" for env sel
  by unfold_locales
    (simp add: baseline_stage_def Let_def advance_rules advances_authority split: poll.split sum.split)

interpretation dnssec: engine_stage "dnssec_stage env sel" for env sel
  by unfold_locales (simp add: dnssec_stage_def Let_def advance_rules split: poll.split)

interpretation axfr: engine_stage "axfr_stage env sel" for env sel
  by unfold_locales (simp add: axfr_stage_def Let_def advance_rules split: option.split axfr_check_state.split)

interpretation wildcard: engine_stage "wildcard_stage env sel" for env sel
  by unfold_locales (simp add: wildcard_stage_def Let_def advance_rules split: wildcard_check_state.split)

interpretation dangling: engine_stage "dangling_stage env sel" for env sel
  by unfold_locales (simp add: dangling_stage_def Let_def advance_rules split: dangling_check_state.split)

interpretation addresses: engine_stage "addresses_stage env sel" for env sel
  by unfold_locales (simp add: addresses_stage_def Let_def advance_rules)

interpretation ports: engine_stage "ports_stage env sel" for env sel
  by unfold_locales (simp only: ports_stage_def Let_def advance_rules)

interpretation services_entry: engine_stage "services_entry env sel" for env sel
  by unfold_locales (simp add: services_entry_def advance_rules)

interpretation services: engine_stage "services_stage env sel" for env sel
  by unfold_locales (simp add: services_stage_def Let_def advance_rules)

interpretation ssh_analysis: engine_stage "ssh_stage env sel" for env sel
  by unfold_locales
    (simp add: ssh_stage_def Let_def advance_rules split: prod.split ssh_analysis_state.split)

interpretation deadline: engine_stage "stop_if env point stage sel m" for env point stage sel m
  by unfold_locales (simp add: advance_rules)

interpretation http_work: engine_stage "http_work env sel" for env sel
  by unfold_locales (simp only: http_work_def Let_def advance_rules)

interpretation http: engine_stage "http_stage env sel" for env sel
  by unfold_locales
    (simp add: http_stage_def advances_and_then [OF deadline.engine_stage_axioms http_work.engine_stage_axioms])

interpretation tls_work: engine_stage "tls_work env sel name" for env sel name
  by unfold_locales (simp only: tls_work_def Let_def advance_rules)

interpretation tls: engine_stage "tls_stage env sel" for env sel
  by unfold_locales
    (simp add: tls_stage_def advances_and_then [OF deadline.engine_stage_axioms tls_work.engine_stage_axioms]
      split: option.split bool.split)

interpretation tls_skip: engine_stage "tls_skip sel" for sel
  by unfold_locales (simp add: tls_skip_def advance_rules)

interpretation finishing: engine_stage "finish_run env sel unfinished" for env sel unfinished
  by unfold_locales (simp add: advance_rules)


section \<open>The whole run\<close>

lemma scan_stages_contract: "stage \<in> set (scan_stages env sel) \<Longrightarrow> engine_stage stage"
  unfolding scan_stages_def
  using preflight.engine_stage_axioms [of env sel] baseline.engine_stage_axioms [of env sel]
    dnssec.engine_stage_axioms [of env sel] axfr.engine_stage_axioms [of env sel]
    wildcard.engine_stage_axioms [of env sel] dangling.engine_stage_axioms [of env sel]
    addresses.engine_stage_axioms [of env sel] ports.engine_stage_axioms [of env sel]
    services_entry.engine_stage_axioms [of env sel] services.engine_stage_axioms [of env sel]
    ssh_analysis.engine_stage_axioms [of env sel] http.engine_stage_axioms [of env sel]
    tls.engine_stage_axioms [of env sel] tls_skip.engine_stage_axioms [of sel]
    finishing.engine_stage_axioms [of env sel None]
  by auto

abbreviation run_stages :: "(scan_run \<Rightarrow> scan_run) list \<Rightarrow> scan_run \<Rightarrow> scan_run" where
  "run_stages stages run \<equiv> foldl (\<lambda>run stage. if run_returned run then run else stage run) run stages"

lemma run_stages_advance: "(\<And>stage. stage \<in> set stages \<Longrightarrow> engine_stage stage) \<Longrightarrow> advances run (run_stages stages run)"
proof (induction stages arbitrary: run)
  case (Cons stage stages)
  have "advances run (if run_returned run then run else stage run)"
    using Cons.prems by (simp add: engine_stage_def)
  moreover have "advances (if run_returned run then run else stage run)
      (run_stages stages (if run_returned run then run else stage run))"
    by (rule Cons.IH) (simp add: Cons.prems)
  ultimately have "advances run (run_stages stages (if run_returned run then run else stage run))"
    by (rule advances_trans)
  then show ?case by simp
qed simp

lemma run_stages_returned [simp]: "run_returned run \<Longrightarrow> run_stages stages run = run"
  by (induction stages) simp_all

lemma run_stages_invariant:
  assumes "\<And>stage run. stage \<in> set stages \<Longrightarrow> P run \<Longrightarrow> \<not> run_returned run \<Longrightarrow> P (stage run)" and "P run"
  shows "P (run_stages stages run)"
  using assms by (induction stages arbitrary: run) simp_all

lemma run_scan_inner_advances:
  "advances (start_run scan_id started_at target configuration sel)
     (run_scan_inner env scan_id started_at target configuration sel)"
  unfolding run_scan_inner_def by (rule run_stages_advance) (rule scan_stages_contract)

lemma run_scan_inner_returned: "run_returned (run_scan_inner env scan_id started_at target configuration sel)"
proof -
  have "run_returned (run_stages (stages @ [finish_run env sel None]) run)" for stages run
    by simp
  note last = this
  have eq: "scan_stages env sel = butlast (scan_stages env sel) @ [finish_run env sel None]"
    by (simp add: scan_stages_def)
  show ?thesis unfolding run_scan_inner_def by (subst eq) (rule last)
qed

lemma run_scan_inner_started: "rep_status (run_report (run_scan_inner env scan_id started_at target configuration sel)) \<noteq> NotStarted"
  using run_scan_inner_advances [of scan_id started_at target configuration sel env]
    run_scan_inner_returned [of env scan_id started_at target configuration sel]
  by (simp add: advances_def start_run_def Let_def)

lemma report_wf_not_started [simp]: "report_wf (not_started scan_id started_at target configuration)"
  by (simp add: report_wf_def not_started_def)

lemma start_run_report:
  "run_report (start_run scan_id started_at target configuration sel) =
   record_selection_skips sel (not_started scan_id started_at target (configuration\<lparr>cfg_authorization_acknowledged := True\<rparr>))"
  by (simp add: start_run_def Let_def)

lemma run_scan_selected_report:
  "fst (run_scan_selected env before after now finished scan_id started_at target configuration sel) =
   fst (finalize before after now finished (run_report (run_scan_inner env scan_id started_at target configuration sel)))"
  by (simp add: run_scan_selected_def Let_def split: prod.split)

lemma inner_quiet:
  obtains f where "quiet_step f" and
    "run_report (run_scan_inner env scan_id started_at target configuration sel) =
     f (run_report (start_run scan_id started_at target configuration sel))"
  using run_scan_inner_advances [of scan_id started_at target configuration sel env] by (auto simp: advances_def)

lemma record_selection_conclusions: "conclusions (record_selection_skips sel r) = conclusions r"
  unfolding record_selection_skips_def by (rule foldl_keeps, simp split: prod.split)

lemma inner_conclusions:
  "conclusions (run_report (run_scan_inner env scan_id started_at target configuration sel)) = ([], None, None, None)"
proof -
  obtain f where "quiet_step f" and "run_report (run_scan_inner env scan_id started_at target configuration sel) =
     f (run_report (start_run scan_id started_at target configuration sel))"
    by (rule inner_quiet)
  then show ?thesis
    by (simp add: quiet_step.keeps_conclusions start_run_report record_selection_conclusions)
      (simp add: not_started_def conclusions_def)
qed

lemma inner_completed_at:
  "rep_completed_at (run_report (run_scan_inner env scan_id started_at target configuration sel)) = None"
  using inner_conclusions [of env scan_id started_at target configuration sel] by (simp add: conclusions_def)

lemma scan_step:
  "\<exists>f. report_step f \<and>
    fst (run_scan_selected env before after now finished scan_id started_at target configuration sel) =
     f (not_started scan_id started_at target (configuration\<lparr>cfg_authorization_acknowledged := True\<rparr>)) \<and>
    (\<forall>r. set (rep_skipped_checks (record_selection_skips sel r)) \<subseteq> set (rep_skipped_checks (f r)))"
proof -
  obtain g where g: "quiet_step g" "run_report (run_scan_inner env scan_id started_at target configuration sel) =
      g (run_report (start_run scan_id started_at target configuration sel))"
    by (rule inner_quiet)
  let ?h = "\<lambda>r. fst (finalize before after now finished (g r))"
  have h: "report_step ?h"
    by (intro report_step_comp [OF quiet_step.axioms(1) finalizing.report_step_axioms] g(1))
  have "report_step (\<lambda>r. ?h (record_selection_skips sel r))"
    by (rule report_step_comp [OF selecting.report_step_axioms h])
  moreover have "fst (run_scan_selected env before after now finished scan_id started_at target configuration sel) =
        ?h (record_selection_skips sel
          (not_started scan_id started_at target (configuration\<lparr>cfg_authorization_acknowledged := True\<rparr>)))"
    by (simp add: run_scan_selected_report g(2) start_run_report)
  moreover have "set (rep_skipped_checks (record_selection_skips sel r)) \<subseteq>
      set (rep_skipped_checks (?h (record_selection_skips sel r)))" for r
    by (rule report_step.skips_grow [OF h])
  ultimately show ?thesis by (intro exI [of _ "\<lambda>r. ?h (record_selection_skips sel r)"]) simp
qed

lemma scan_started:
  "rep_status (fst (run_scan_selected env before after now finished scan_id started_at target configuration sel)) \<noteq> NotStarted"
  using report_step.stays_started [OF finalizing.report_step_axioms] run_scan_inner_started
  unfolding run_scan_selected_report by blast

section \<open>Properties\<close>

text \<open>
  C4: Whatever the network, the resolver and the clock do, a scan ends with a closed, consistent report on the
  requested target: it is stamped as completed, no longer marked as not started, carries the scan's own
  identity and its configuration with the authorization recorded, skips no check twice, and an interrupted
  report holds a cancellation error, a failed one an unrecoverable error.
\<close>

theorem scan_report_consistent:
  "let r = fst (run_scan_selected env before after now finished scan_id started_at target configuration sel)
   in rep_completed_at r = Some finished \<and> rep_status r \<noteq> NotStarted \<and>
      rep_target r = target \<and> rep_scan_id r = scan_id \<and> rep_started_at r = started_at \<and>
      rep_configuration r = configuration\<lparr>cfg_authorization_acknowledged := True\<rparr> \<and>
      distinct (map skip_check (rep_skipped_checks r)) \<and>
      (rep_status r = Interrupted \<longrightarrow> (\<exists>e \<in> set (rep_errors r). err_kind e = Err_Cancelled)) \<and>
      (rep_status r = Failed \<longrightarrow> (\<exists>e \<in> set (rep_errors r). \<not> err_recoverable e))"
proof -
  let ?r = "fst (run_scan_selected env before after now finished scan_id started_at target configuration sel)"
  let ?start = "not_started scan_id started_at target (configuration\<lparr>cfg_authorization_acknowledged := True\<rparr>)"
  from scan_step [of env before after now finished scan_id started_at target configuration sel]
  obtain f where f: "report_step f" "?r = f ?start" by blast
  have "report_wf ?r" using report_step.keeps_wf [OF f(1), of ?start] f(2) by simp
  moreover have "same_scan ?start ?r" using report_step.keeps_scan [OF f(1), of ?start] f(2) by simp
  moreover have "rep_completed_at ?r = Some finished"
    unfolding run_scan_selected_report by (rule finalize_completed_at) (rule inner_completed_at)
  ultimately show ?thesis
    using scan_started [of env before after now finished scan_id started_at target configuration sel]
    unfolding Let_def report_wf_def same_scan_def by (simp add: not_started_def)
qed


text \<open>An environment for the witnesses: one resolved host, one open port, nothing interrupted.\<close>

definition sample_dns :: dns_observation where
  "sample_dns =
     \<lparr>dns_queried_name = ''example.com'', dns_records = [Rec_A 1], dns_cname_chain = [], dns_dangling_cnames = [],
      dns_resolved_hosts = [ResolvedHost (Some ''example.com'') (V4 1) Src_ARecord],
      dns_mail = \<lparr>mail_mx_present = False, mail_spf = \<lparr>spf_records = [], spf_terminal_policy = None\<rparr>,
        mail_dmarc = [], mail_mta_sts = [], mail_mta_sts_policy_available = None, mail_tls_rpt = []\<rparr>,
      dns_dnssec = None, dns_authoritative_axfr = None, dns_wildcard_dns = None, dns_errors = []\<rparr>"

definition sample_env :: "string scan_env" where
  "sample_env =
     \<lparr>env_cancelled = (\<lambda>_. False), env_expired = (\<lambda>_. False),
      env_baseline = (\<lambda>_ _ _ _. Poll_Done (Inr \<lparr>base_observation = sample_dns, base_authority = None\<rparr>)),
      env_dnssec = (\<lambda>_ _ _ _. Poll_Done (dnssec_default\<lparr>dnssec_status := Dnssec_Insecure\<rparr>)),
      env_axfr = (\<lambda>_ _. \<lparr>axc_observation = None, axc_state = AxfrCheck_Skipped ''no endpoint''\<rparr>),
      env_wildcard = (\<lambda>_ _ _ _. \<lparr>wdc_observation = wildcard_default\<lparr>wild_status := Wild_NotDetected\<rparr>,
        wdc_state = WildCheck_Completed\<rparr>),
      env_dangling = (\<lambda>_ _ _ _. \<lparr>dcc_observations = [], dcc_state = DanglingCheck_Completed\<rparr>),
      env_tcp = (\<lambda>_ a. if sa_port a = 22 then ProbeSucceeded None else ProbeElapsed None),
      env_udp = (\<lambda>_ _ _ _. ProbeElapsed None), env_service = (\<lambda>_ _. Race_Elapsed),
      env_ssh = (\<lambda>_ _. SshRace_Timeout), env_url_ops = sample_url_ops, env_http_cancelled = (\<lambda>_. False),
      env_http_client = (\<lambda>_ _. sample_client \<lparr>rsp_status = 200, rsp_version = ''HTTP/1.1'', rsp_headers = [],
        rsp_chunks = []\<rparr>),
      env_x509 = sample_x509_crate, env_verifier_builds = True, env_tls = sample_tls_net,
      env_port_order = (\<lambda>_. rev), env_udp_order = (\<lambda>_. rev), env_service_order = (\<lambda>_. rev),
      env_ssh_order = (\<lambda>_. rev), env_http_order = (\<lambda>_. rev), env_tls_order = (\<lambda>_. rev)\<rparr>"

definition calm :: interruption where
  "calm = \<lparr>int_cancelled = False, int_expired = False\<rparr>"

definition sample_target :: normalized_target where
  "sample_target = (ip_target ''192.0.2.1'' (V4 3221225985))
     \<lparr>tgt_hostname := Some ''example.com'', tgt_explicit_ip := None\<rparr>"

lemma preflight_run:
  assumes "incompatible_address_family (run_report (start_run scan_id started_at target configuration sel))"
  shows "run_scan_inner env scan_id started_at target configuration sel =
    stop_run Stage_Preflight sel Err_Configuration ''explicit IP conflicts with the selected address family''
      (start_run scan_id started_at target configuration sel)"
proof -
  have "\<not> run_returned (start_run scan_id started_at target configuration sel)"
    by (simp add: start_run_def Let_def)
  with assms have "run_stages (preflight_stage env sel # stages) (start_run scan_id started_at target configuration sel) =
      stop_run Stage_Preflight sel Err_Configuration ''explicit IP conflicts with the selected address family''
        (start_run scan_id started_at target configuration sel)" for stages
    by (simp add: preflight_stage_def)
  then show ?thesis unfolding run_scan_inner_def scan_stages_def .
qed

lemma start_run_fields:
  "rep_target (run_report (start_run scan_id started_at target configuration sel)) = target"
  "rep_configuration (run_report (start_run scan_id started_at target configuration sel)) =
     configuration\<lparr>cfg_authorization_acknowledged := True\<rparr>"
  "rep_status (run_report (start_run scan_id started_at target configuration sel)) = NotStarted"
  "observed (run_report (start_run scan_id started_at target configuration sel)) = (None, [], [], [], [])"
  "conclusions (run_report (start_run scan_id started_at target configuration sel)) = ([], None, None, None)"
  "run_progress (start_run scan_id started_at target configuration sel) = []"
  "rep_errors (run_report (start_run scan_id started_at target configuration sel)) = []"
proof -
  let ?r = "not_started scan_id started_at target (configuration\<lparr>cfg_authorization_acknowledged := True\<rparr>)"
  show "rep_target (run_report (start_run scan_id started_at target configuration sel)) = target"
    "rep_configuration (run_report (start_run scan_id started_at target configuration sel)) =
     configuration\<lparr>cfg_authorization_acknowledged := True\<rparr>"
    by (simp_all only: start_run_report selecting.target_kept selecting.configuration_kept)
      (simp_all add: not_started_def)
  show "rep_status (run_report (start_run scan_id started_at target configuration sel)) = NotStarted"
    "rep_errors (run_report (start_run scan_id started_at target configuration sel)) = []"
    by (simp_all add: start_run_report) (simp_all add: not_started_def)
  show "observed (run_report (start_run scan_id started_at target configuration sel)) = (None, [], [], [], [])"
    by (simp add: start_run_report) (simp add: not_started_def observed_def)
  show "conclusions (run_report (start_run scan_id started_at target configuration sel)) = ([], None, None, None)"
    by (simp add: start_run_report record_selection_conclusions) (simp add: not_started_def conclusions_def)
  show "run_progress (start_run scan_id started_at target configuration sel) = []"
    by (simp add: start_run_def Let_def)
qed

text \<open>
  A target given as an address of the excluded family is refused before anything is contacted: the result
  is the same for every environment, it has failed with one unrecoverable configuration error, holds no
  observation, finding or score, and no progress event is sent.
\<close>

theorem preflight_conflict_no_contact:
  assumes "tgt_explicit_ip target = Some ip"
    and "cfg_ipv4_only configuration \<and> is_ipv6 ip \<or> cfg_ipv6_only configuration \<and> is_ipv4 ip"
  shows "run_scan_selected env before after now finished scan_id started_at target configuration sel =
      run_scan_selected env' before' after' now' finished scan_id started_at target configuration sel \<and>
    (let r = fst (run_scan_selected env before after now finished scan_id started_at target configuration sel)
     in rep_status r = Failed \<and> observed r = (None, [], [], [], []) \<and>
        conclusions r = ([], None, None, Some finished) \<and>
        rep_errors r = [new_scan_error Stage_Preflight (tgt_hostname target) Err_Configuration
          ''explicit IP conflicts with the selected address family'' False]) \<and>
    snd (run_scan_selected env before after now finished scan_id started_at target configuration sel) = []"
proof -
  let ?s = "start_run scan_id started_at target configuration sel"
  let ?m = "''explicit IP conflicts with the selected address family''"
  let ?r = "terminate Stage_Preflight sel Err_Configuration ?m (run_report ?s)"
  have "incompatible_address_family (run_report ?s)"
    using assms by (auto simp: incompatible_address_family_def start_run_fields)
  note run = preflight_run [OF this]
  have t: "rep_status ?r = Failed \<and> rep_message ?r = ?m \<and>
      rep_errors ?r = [new_scan_error Stage_Preflight (tgt_hostname target) Err_Configuration ?m False]"
    using terminate_fields [of "run_report ?s" Err_Configuration Stage_Preflight sel ?m]
    by (simp add: start_run_fields terminal_status_def)
  have c: "conclusions ?r = ([], None, None, None)" "observed ?r = (None, [], [], [], [])"
    by (simp_all add: start_run_fields)
  have "rep_completed_at ?r = None" "preflight_failed ?r"
    using t c by (simp_all add: preflight_failed_def conclusions_def)
  then have sel: "run_scan_selected e b a n finished scan_id started_at target configuration sel =
      (?r\<lparr>rep_completed_at := Some finished\<rparr>, [])" for e :: "'z scan_env" and b a n
    by (simp add: run_scan_selected_def run finalize_preflight start_run_fields)
  show ?thesis using t c by (simp add: sel observed_def conclusions_def)
qed

theorem preflight_conflict_no_contact_witness:
  "rep_status (fst (run_scan_selected sample_env calm calm 1 2 ''id'' 0 (ip_target ''192.0.2.1'' (V4 3221225985))
     (sample_configuration\<lparr>cfg_ipv6_only := True\<rparr>) selection_all)) = Failed"
proof -
  have "tgt_explicit_ip (ip_target ''192.0.2.1'' (V4 3221225985)) = Some (V4 3221225985)"
    "cfg_ipv4_only (sample_configuration\<lparr>cfg_ipv6_only := True\<rparr>) \<and> is_ipv6 (V4 3221225985) \<or>
     cfg_ipv6_only (sample_configuration\<lparr>cfg_ipv6_only := True\<rparr>) \<and> is_ipv4 (V4 3221225985)"
    by (simp_all add: ip_target_def)
  from preflight_conflict_no_contact [OF this, of sample_env calm calm 1 2 "''id''" 0 selection_all sample_env calm calm 1]
  show ?thesis by (simp add: Let_def)
qed

theorem scan_report_consistent_witness:
  "\<exists>e \<in> set (rep_errors (fst (run_scan_selected sample_env calm calm 1 2 ''id'' 0
       (ip_target ''192.0.2.1'' (V4 3221225985)) (sample_configuration\<lparr>cfg_ipv6_only := True\<rparr>) selection_all))).
     \<not> err_recoverable e"
proof -
  let ?t = "ip_target ''192.0.2.1'' (V4 3221225985)" and ?c = "sample_configuration\<lparr>cfg_ipv6_only := True\<rparr>"
  have conflict: "incompatible_address_family (run_report (start_run ''id'' 0 ?t ?c selection_all))"
    by (simp add: incompatible_address_family_def start_run_fields ip_target_def)
  have "rep_status (fst (run_scan_selected sample_env calm calm 1 2 ''id'' 0 ?t ?c selection_all)) = Failed"
    unfolding run_scan_selected_report preflight_run [OF conflict]
    by (simp add: finalize_def terminate_def terminal_status_def start_run_fields add_report_error_def list_ex_iff)
  then show ?thesis
    using scan_report_consistent [of sample_env calm calm 1 2 "''id''" 0 ?t ?c selection_all]
    by (simp add: Let_def)
qed

end
