(* ===== verification/Engine_Props.thy ===== *)
theory Engine_Props
  imports Engine
begin

text \<open>
  Properties of whole scans: where every observation comes from, what unselected stages leave behind, and
  the order of progress events. They are proved stage by stage with assertions that hold while the run goes
  on and one that holds wherever it returns.
\<close>

section \<open>Assertions on runs\<close>

definition leads :: "(scan_run \<Rightarrow> bool) \<Rightarrow> (scan_run \<Rightarrow> scan_run) list \<Rightarrow> (scan_run \<Rightarrow> bool) \<Rightarrow> bool" where
  \<comment> \<open>a run that satisfies the first assertion ends, wherever it returns, with the second\<close>
  "leads P stages R \<longleftrightarrow> (\<forall>run. \<not> run_returned run \<longrightarrow> P run \<longrightarrow> R (run_stages stages run))"

lemma leads_Nil: "(\<And>run. P run \<Longrightarrow> R run) \<Longrightarrow> leads P [] R"
  by (simp add: leads_def)

lemma leads_Cons:
  assumes "\<And>run. P run \<Longrightarrow> \<not> run_returned run \<Longrightarrow> run_returned (stage run) \<Longrightarrow> R (stage run)"
    and "\<And>run. P run \<Longrightarrow> \<not> run_returned run \<Longrightarrow> \<not> run_returned (stage run) \<Longrightarrow> Q (stage run)"
    and "leads Q stages R"
  shows "leads P (stage # stages) R"
  unfolding leads_def
proof (intro allI impI)
  fix run assume run: "\<not> run_returned run" "P run"
  show "R (run_stages (stage # stages) run)"
  proof (cases "run_returned (stage run)")
    case True
    with assms(1) run show ?thesis by simp
  next
    case False
    with assms(2) run have "Q (stage run)" by blast
    with assms(3) False run show ?thesis by (simp add: leads_def)
  qed
qed

lemma leads_same:
  \<comment> \<open>a stage that keeps an assertion which is all the result needs\<close>
  assumes "\<And>run. P run \<Longrightarrow> P (stage run)" and "\<And>run. P run \<Longrightarrow> R run" and "leads P stages R"
  shows "leads P (stage # stages) R"
  using assms by (intro leads_Cons [where Q = P]) blast+

section \<open>Frames\<close>

definition active :: "scan_report \<Rightarrow> host_observation list \<times> service_observation list \<times>
    http_observation list \<times> tls_observation list" where
  "active r = (rep_hosts r, rep_services r, rep_http r, rep_tls r)"

lemma observed_active: "observed r = (rep_dns r, active r)"
  by (simp add: observed_def active_def)

lemma terminate_frame [simp]:
  "rep_dns (terminate stage sel kind m r) = rep_dns r"
  "active (terminate stage sel kind m r) = active r"
  using terminate_keeps(1) [of stage sel kind m r] by (simp_all only: observed_active prod.inject)

lemma settle_frame [simp]: "rep_dns (settle r) = rep_dns r" "active (settle r) = active r"
  using settle_keeps(1) [of r] by (simp_all only: observed_active prod.inject)

lemma skip_frame [simp]:
  "rep_dns (add_skipped_check c m r) = rep_dns r"
  "active (add_skipped_check c m r) = active r"
  using skip_observed [of c m r] by (simp_all only: observed_active prod.inject)

lemma selection_skips_frame [simp]:
  "rep_dns (record_selection_skips sel r) = rep_dns r"
  "active (record_selection_skips sel r) = active r"
  using selection_skips_observed [of sel r] by (simp_all only: observed_active prod.inject)

lemma finish_frame [simp]:
  "rep_dns (finish_selected_report env sel unfinished r) = rep_dns r"
  "active (finish_selected_report env sel unfinished r) = active r"
  by (simp_all add: finish_selected_report_def)

lemma active_updates [simp]:
  "active (r\<lparr>rep_message := m\<rparr>) = active r"
  "active (r\<lparr>rep_status := s\<rparr>) = active r"
  "active (r\<lparr>rep_dns := d\<rparr>) = active r"
  "active (r\<lparr>rep_errors := es\<rparr>) = active r"
  by (simp_all add: active_def)

lemma report_edits [simp]:
  "active (update_dns f r) = active r"
  "active (extend_errors es r) = active r"
  "active (stage_error stage kind m r) = active r"
  "active (dnssec_interrupted m r) = active r"
  "rep_dns (extend_errors es r) = rep_dns r"
  "rep_dns (stage_error stage kind m r) = rep_dns r"
  "rep_dns (update_dns f r) = map_option f (rep_dns r)"
  by (simp_all add: update_dns_def extend_errors_def stage_error_def add_report_error_def
      dnssec_interrupted_def active_def)

lemma stop_if_frame [simp]:
  "active (run_report (stop_if env p stage sel m run)) = active (run_report run)"
  "rep_dns (run_report (stop_if env p stage sel m run)) = rep_dns (run_report run)"
  "run_progress (stop_if env p stage sel m run) = run_progress run"
  by (simp_all add: stop_if_def)

lemma stop_if_interrupted_frame [simp]:
  "active (run_report (stop_if_interrupted env p stage sel cm tm run)) = active (run_report run)"
  "rep_dns (run_report (stop_if_interrupted env p stage sel cm tm run)) = rep_dns (run_report run)"
  "run_progress (stop_if_interrupted env p stage sel cm tm run) = run_progress run"
  by (simp_all add: stop_if_interrupted_def)

lemma dns_stage_active [simp]:
  "active (run_report (preflight_stage env sel run)) = active (run_report run)"
  "active (run_report (baseline_stage env sel run)) = active (run_report run)"
  "active (run_report (dnssec_stage env sel run)) = active (run_report run)"
  "active (run_report (axfr_stage env sel run)) = active (run_report run)"
  "active (run_report (wildcard_stage env sel run)) = active (run_report run)"
  "active (run_report (dangling_stage env sel run)) = active (run_report run)"
  "active (run_report (addresses_stage env sel run)) = active (run_report run)"
  "active (run_report (services_entry env sel run)) = active (run_report run)"
  "active (run_report (tls_skip sel run)) = active (run_report run)"
  by (simp_all add: preflight_stage_def baseline_stage_def dnssec_stage_def axfr_stage_def wildcard_stage_def
      dangling_stage_def addresses_stage_def services_entry_def tls_skip_def Let_def
      split: poll.split sum.split option.split axfr_check_state.split wildcard_check_state.split
        dangling_check_state.split)

lemma dns_stage_progress [simp]:
  "run_progress (baseline_stage env sel run) = run_progress run"
  "run_progress (dnssec_stage env sel run) = run_progress run"
  "run_progress (axfr_stage env sel run) = run_progress run"
  "run_progress (wildcard_stage env sel run) = run_progress run"
  "run_progress (dangling_stage env sel run) = run_progress run"
  "run_progress (services_entry env sel run) = run_progress run"
  "run_progress (tls_skip sel run) = run_progress run"
  by (simp_all add: baseline_stage_def dnssec_stage_def axfr_stage_def wildcard_stage_def
      dangling_stage_def services_entry_def tls_skip_def Let_def
      split: poll.split sum.split option.split axfr_check_state.split wildcard_check_state.split
        dangling_check_state.split)

lemma active_stage_dns [simp]:
  "rep_dns (run_report (ports_stage env sel run)) = rep_dns (run_report run)"
  "rep_dns (run_report (services_entry env sel run)) = rep_dns (run_report run)"
  "rep_dns (run_report (services_stage env sel run)) = rep_dns (run_report run)"
  "rep_dns (run_report (ssh_stage env sel run)) = rep_dns (run_report run)"
  "rep_dns (run_report (http_stage env sel run)) = rep_dns (run_report run)"
  "rep_dns (run_report (tls_stage env sel run)) = rep_dns (run_report run)"
  "rep_dns (run_report (tls_skip sel run)) = rep_dns (run_report run)"
  by (simp_all add: ports_stage_def services_entry_def services_stage_def ssh_stage_def http_stage_def
      http_work_def tls_stage_def tls_work_def tls_skip_def and_then_def Let_def
      split: prod.split ssh_analysis_state.split option.split bool.split)


section \<open>Progress events\<close>

fun event_key :: "scan_progress \<Rightarrow> nat" where
  "event_key (Started stage) = 2 * stage_rank stage"
| "event_key (StageCompleted stage n) = Suc (2 * stage_rank stage)"

definition trace_ok :: "scan_progress list \<Rightarrow> bool" where
  \<comment> \<open>events come in the order of the stages, each at most once, a completion after the start of its stage\<close>
  "trace_ok events \<longleftrightarrow>
     sorted_wrt (\<lambda>a b. event_key a < event_key b) events \<and>
     (\<forall>stage n. StageCompleted stage n \<in> set events \<longrightarrow> Started stage \<in> set events)"

definition trace_below :: "nat \<Rightarrow> scan_run \<Rightarrow> bool" where
  "trace_below k run \<longleftrightarrow> trace_ok (run_progress run) \<and> (\<forall>e \<in> set (run_progress run). event_key e < k)"

definition trace_open :: "scan_stage \<Rightarrow> scan_run \<Rightarrow> bool" where
  \<comment> \<open>the given stage has started and nothing later happened\<close>
  "trace_open stage run \<longleftrightarrow>
     trace_below (Suc (2 * stage_rank stage)) run \<and> Started stage \<in> set (run_progress run)"

lemma trace_below_mono: "trace_below k run \<Longrightarrow> k \<le> l \<Longrightarrow> trace_below l run"
  by (fastforce simp: trace_below_def)

lemma trace_open_below: "trace_open stage run \<Longrightarrow> 2 * stage_rank stage < k \<Longrightarrow> trace_below k run"
  unfolding trace_open_def by (auto intro: trace_below_mono)

lemma trace_start:
  "trace_below (2 * stage_rank stage) run \<Longrightarrow> trace_open stage (emit (Started stage) run)"
  by (fastforce simp: trace_open_def trace_below_def trace_ok_def push_def sorted_wrt_append)

lemma trace_complete:
  "trace_open stage run \<Longrightarrow> trace_below (2 * Suc (stage_rank stage)) (emit (StageCompleted stage n) run)"
  by (fastforce simp: trace_open_def trace_below_def trace_ok_def push_def sorted_wrt_append)

lemma trace_cong:
  "run_progress run' = run_progress run \<Longrightarrow> trace_below k run' = trace_below k run"
  "run_progress run' = run_progress run \<Longrightarrow> trace_open stage run' = trace_open stage run"
  by (simp_all add: trace_below_def trace_open_def)

lemma trace_keeps [simp]:
  "trace_below k (on_report f run) = trace_below k run"
  "trace_open stage (on_report f run) = trace_open stage run"
  "trace_below k (stop_run st sel kind m run) = trace_below k run"
  "trace_below k (stop_if env p st sel m run) = trace_below k run"
  "trace_below k (stop_if_interrupted env p st sel cm tm run) = trace_below k run"
  "trace_below k (finish_run env sel unfinished run) = trace_below k run"
  "trace_open stage (stop_run st sel kind m run) = trace_open stage run"
  "trace_open stage (stop_if_interrupted env p st sel cm tm run) = trace_open stage run"
  by (simp_all cong: trace_cong add: trace_cong [of "on_report f run" run]
      trace_cong [of "stop_run st sel kind m run" run] trace_cong [of "stop_if env p st sel m run" run]
      trace_cong [of "stop_if_interrupted env p st sel cm tm run" run]
      trace_cong [of "finish_run env sel unfinished run" run])

lemma preflight_trace:
  "run_progress run = [] \<Longrightarrow> trace_below 12 (preflight_stage env sel run) \<and>
     (\<not> run_returned (preflight_stage env sel run) \<longrightarrow> trace_open Stage_Dns (preflight_stage env sel run))"
  by (auto simp: preflight_stage_def Let_def trace_below_def trace_open_def trace_ok_def push_def)

lemma addresses_trace: "trace_open Stage_Dns run \<Longrightarrow> trace_below 4 (addresses_stage env sel run)"
  using trace_complete [of Stage_Dns run] by (simp add: addresses_stage_def Let_def)

lemma ports_trace: "trace_below 4 run \<Longrightarrow> trace_below 6 (ports_stage env sel run)"
  using trace_complete [of Stage_Ports] trace_start [of Stage_Ports run]
  by (simp add: ports_stage_def Let_def del: run_simps)

lemma services_trace: "trace_below 6 run \<Longrightarrow> trace_open Stage_Services (services_stage env sel run)"
  using trace_start [of Stage_Services]
  by (simp add: services_stage_def Let_def)

lemma ssh_trace: "trace_open Stage_Services run \<Longrightarrow> trace_below 8 (ssh_stage env sel run)"
  using trace_complete [of Stage_Services] trace_open_below [of Stage_Services _ 8]
  by (simp add: ssh_stage_def Let_def split: prod.split ssh_analysis_state.split)

lemma http_work_trace: "trace_below 8 run \<Longrightarrow> trace_below 10 (http_work env sel run)"
  using trace_complete [of Stage_Http] trace_start [of Stage_Http run]
  by (simp add: http_work_def Let_def del: run_simps)

lemma http_trace: "trace_below 8 run \<Longrightarrow> trace_below 10 (http_stage env sel run)"
  using trace_below_mono [of 8 _ 10]
  by (simp add: http_stage_def and_then_def Let_def http_work_trace)

lemma tls_work_trace: "trace_below 10 run \<Longrightarrow> trace_below 12 (tls_work env sel name run)"
  using trace_complete [of Stage_Tls] trace_start [of Stage_Tls run]
  by (simp add: tls_work_def Let_def del: run_simps)

lemma tls_trace: "trace_below 10 run \<Longrightarrow> trace_below 12 (tls_stage env sel run)"
  using trace_below_mono [of 10 _ 12]
  by (simp add: tls_stage_def and_then_def Let_def tls_work_trace split: option.split bool.split)

lemma dns_stage_trace [simp]:
  "trace_open st (baseline_stage env sel run) = trace_open st run"
  "trace_open st (dnssec_stage env sel run) = trace_open st run"
  "trace_open st (axfr_stage env sel run) = trace_open st run"
  "trace_open st (wildcard_stage env sel run) = trace_open st run"
  "trace_open st (dangling_stage env sel run) = trace_open st run"
  "trace_below k (services_entry env sel run) = trace_below k run"
  "trace_below k (tls_skip sel run) = trace_below k run"
  by (rule trace_cong; simp)+

lemma inner_trace: "trace_below 12 (run_scan_inner env scan_id started_at target configuration sel)"
proof -
  note below = trace_below_mono [where l = 12]
  have "leads (\<lambda>run. run_progress run = []) (scan_stages env sel) (trace_below 12)"
    unfolding scan_stages_def
    apply (rule leads_Cons [where Q = "trace_open Stage_Dns"], use preflight_trace in blast, use preflight_trace in blast)
    apply (rule leads_same, simp, use trace_open_below [of Stage_Dns _ 12] in simp)+
    apply (rule leads_Cons [where Q = "trace_below 4"], use addresses_trace below [of 4] in fastforce, use addresses_trace in blast)
    apply (rule leads_Cons [where Q = "trace_below 6"], use ports_trace below [of 6] in fastforce, use ports_trace in blast)
    apply (rule leads_same, simp, use below [of 6] in simp)
    apply (rule leads_Cons [where Q = "trace_open Stage_Services"],
        use services_trace trace_open_below [of Stage_Services _ 12] in fastforce, use services_trace in blast)
    apply (rule leads_Cons [where Q = "trace_below 8"], use ssh_trace below [of 8] in fastforce, use ssh_trace in blast)
    apply (rule leads_Cons [where Q = "trace_below 10"], use http_trace below [of 10] in fastforce, use http_trace in blast)
    apply (rule leads_Cons [where Q = "trace_below 12"], use tls_trace in blast, use tls_trace in blast)
    apply (rule leads_same, simp, simp)
    apply (rule leads_same, simp, simp)
    apply (rule leads_Nil)
    apply simp
    done
  then show ?thesis
    by (simp add: leads_def run_scan_inner_def start_run_fields) (simp add: start_run_def Let_def)
qed


section \<open>Selection\<close>

fun event_stage :: "scan_progress \<Rightarrow> scan_stage" where
  "event_stage (Started stage) = stage"
| "event_stage (StageCompleted stage n) = stage"

definition selected_only :: "scan_selection \<Rightarrow> scan_run \<Rightarrow> bool" where
  \<comment> \<open>observations and events come from selected stages\<close>
  "selected_only sel run \<longleftrightarrow>
     (case active (run_report run) of (hosts, services, http, tls) \<Rightarrow>
        (sel_ports sel \<or> hosts = []) \<and> (sel_services sel \<or> services = []) \<and>
        (sel_http sel \<or> http = []) \<and> (sel_tls sel \<or> tls = [])) \<and>
     (\<forall>e \<in> set (run_progress run). stage_selected sel (event_stage e))"

lemma stage_selected_simps [simp]:
  "stage_selected sel Stage_Preflight"
  "stage_selected sel Stage_Dns"
  "stage_selected sel Stage_Ports = sel_ports sel"
  "stage_selected sel Stage_Services = sel_services sel"
  "stage_selected sel Stage_Http = sel_http sel"
  "stage_selected sel Stage_Tls = sel_tls sel"
  "stage_selected sel Stage_Findings"
  by (simp_all add: stage_selected_def)

lemma selected_frame:
  "active (run_report run') = active (run_report run) \<Longrightarrow> run_progress run' = run_progress run \<Longrightarrow>
   selected_only sel run' = selected_only sel run"
  by (simp add: selected_only_def)

lemma selected_frames [simp]:
  "selected_only s (baseline_stage env sel run) = selected_only s run"
  "selected_only s (dnssec_stage env sel run) = selected_only s run"
  "selected_only s (axfr_stage env sel run) = selected_only s run"
  "selected_only s (wildcard_stage env sel run) = selected_only s run"
  "selected_only s (dangling_stage env sel run) = selected_only s run"
  "selected_only s (services_entry env sel run) = selected_only s run"
  "selected_only s (tls_skip sel run) = selected_only s run"
  "selected_only s (finish_run env sel unfinished run) = selected_only s run"
  "selected_only s (stop_if env p st sel m run) = selected_only s run"
  "selected_only s (stop_if_interrupted env p st sel cm tm run) = selected_only s run"
  by (rule selected_frame; simp)+

lemma selected_emit:
  "selected_only s run \<Longrightarrow> stage_selected s (event_stage e) \<Longrightarrow> selected_only s (emit e run)"
  by (simp add: selected_only_def)

lemma preflight_selected: "selected_only sel run \<Longrightarrow> selected_only sel (preflight_stage env sel run)"
  by (auto simp: selected_only_def preflight_stage_def Let_def)

lemma addresses_selected:
  "selected_only sel run \<Longrightarrow> selected_only sel (addresses_stage env sel run) \<and>
     (\<not> run_returned (addresses_stage env sel run) \<longrightarrow> sel_ports sel)"
  by (auto simp: selected_only_def addresses_stage_def Let_def)

lemma active_writes [simp]:
  "active (r\<lparr>rep_hosts := hs\<rparr>) = (hs, snd (active r))"
  "active (r\<lparr>rep_services := ss\<rparr>) = (rep_hosts r, ss, rep_http r, rep_tls r)"
  "active (r\<lparr>rep_http := ho\<rparr>) = (rep_hosts r, rep_services r, ho, rep_tls r)"
  "active (r\<lparr>rep_tls := ts\<rparr>) = (rep_hosts r, rep_services r, rep_http r, ts)"
  by (simp_all add: active_def)

lemma stage_error_fields [simp]:
  "rep_hosts (stage_error st kind m r) = rep_hosts r"
  "rep_services (stage_error st kind m r) = rep_services r"
  "rep_http (stage_error st kind m r) = rep_http r"
  "rep_tls (stage_error st kind m r) = rep_tls r"
  "rep_target (stage_error st kind m r) = rep_target r"
  "rep_configuration (stage_error st kind m r) = rep_configuration r"
  by (simp_all add: stage_error_def add_report_error_def)

lemma ports_active:
  "active (run_report (ports_stage env sel run)) =
   (probe_hosts env (run_report run), snd (active (run_report run)))"
  by (simp add: ports_stage_def Let_def)

lemma services_active:
  "\<exists>ss. active (run_report (services_stage env sel run)) =
     (rep_hosts (run_report run), ss, rep_http (run_report run), rep_tls (run_report run)) \<and>
   ss = detect_services (env_service_order env) (env_service env) (rep_hosts (run_report run))
     (tgt_hostname (rep_target (run_report run))) (min 32 (cfg_concurrency (rep_configuration (run_report run))))
     (cfg_request_timeout_ms (rep_configuration (run_report run)))"
  by (simp add: services_stage_def Let_def)

lemma ssh_active:
  "active (run_report (ssh_stage env sel run)) =
   (rep_hosts (run_report run),
    fst (analyze_ssh (env_ssh_order env) (env_ssh env) (rep_services (run_report run))
      (min 16 (cfg_concurrency (rep_configuration (run_report run))))
      (cfg_request_timeout_ms (rep_configuration (run_report run)))),
    rep_http (run_report run), rep_tls (run_report run))"
  by (simp add: ssh_stage_def Let_def split: prod.split ssh_analysis_state.split)

lemma stop_if_report [simp]:
  "rep_hosts (run_report (stop_if env p st sel m run)) = rep_hosts (run_report run)"
  "rep_services (run_report (stop_if env p st sel m run)) = rep_services (run_report run)"
  "rep_http (run_report (stop_if env p st sel m run)) = rep_http (run_report run)"
  "rep_tls (run_report (stop_if env p st sel m run)) = rep_tls (run_report run)"
  "rep_target (run_report (stop_if env p st sel m run)) = rep_target (run_report run)"
  "rep_configuration (run_report (stop_if env p st sel m run)) = rep_configuration (run_report run)"
  using stop_if_frame(1) [of env p st sel m run] deadline.stage_scan [of run env p st sel m]
  by (simp_all add: active_def same_scan_def)

lemma http_active:
  "active (run_report (http_stage env sel run)) = active (run_report run) \<or>
   sel_http sel \<and> active (run_report (http_stage env sel run)) =
     (rep_hosts (run_report run), rep_services (run_report run),
      analyze_http (env_http_order env) (env_url_ops env) (env_http_cancelled env) (env_http_client env)
        (rep_target (run_report run)) (rep_services (run_report run))
        (min 16 (cfg_concurrency (rep_configuration (run_report run))))
        (cfg_request_timeout_ms (rep_configuration (run_report run))), rep_tls (run_report run))"
  by (simp add: http_stage_def http_work_def and_then_def Let_def)

lemma tls_active:
  "active (run_report (tls_stage env sel run)) = active (run_report run) \<or>
   sel_tls sel \<and> (\<exists>name. active (run_report (tls_stage env sel run)) =
     (rep_hosts (run_report run), rep_services (run_report run), rep_http (run_report run),
      analyze_tls (env_tls_order env) (env_x509 env) (env_verifier_builds env) (env_tls env)
        (rep_services (run_report run)) name
        (min 16 (cfg_concurrency (rep_configuration (run_report run))))
        (cfg_request_timeout_ms (rep_configuration (run_report run)))))"
  by (simp add: tls_stage_def tls_work_def and_then_def Let_def split: option.split bool.split) blast


lemma active_stage_events:
  "e \<in> set (run_progress (ports_stage env sel run)) \<Longrightarrow> e \<in> set (run_progress run) \<or> event_stage e = Stage_Ports"
  "e \<in> set (run_progress (services_stage env sel run)) \<Longrightarrow> e \<in> set (run_progress run) \<or> event_stage e = Stage_Services"
  "e \<in> set (run_progress (ssh_stage env sel run)) \<Longrightarrow> e \<in> set (run_progress run) \<or> event_stage e = Stage_Services"
  "e \<in> set (run_progress (http_stage env sel run)) \<Longrightarrow>
     e \<in> set (run_progress run) \<or> sel_http sel \<and> event_stage e = Stage_Http"
  "e \<in> set (run_progress (tls_stage env sel run)) \<Longrightarrow>
     e \<in> set (run_progress run) \<or> sel_tls sel \<and> event_stage e = Stage_Tls"
  by (auto simp: ports_stage_def services_stage_def ssh_stage_def http_stage_def http_work_def tls_stage_def
      tls_work_def and_then_def Let_def
      split: if_splits prod.splits ssh_analysis_state.splits option.splits bool.splits)

lemma selected_act:
  "active (run_report run) = (hosts, services, http, tls) \<Longrightarrow>
   selected_only sel run \<longleftrightarrow>
     (sel_ports sel \<or> hosts = []) \<and> (sel_services sel \<or> services = []) \<and>
     (sel_http sel \<or> http = []) \<and> (sel_tls sel \<or> tls = []) \<and>
     (\<forall>e \<in> set (run_progress run). stage_selected sel (event_stage e))"
  by (simp add: selected_only_def)

lemma selected_fields:
  "selected_only sel run \<longleftrightarrow>
     (sel_ports sel \<or> rep_hosts (run_report run) = []) \<and> (sel_services sel \<or> rep_services (run_report run) = []) \<and>
     (sel_http sel \<or> rep_http (run_report run) = []) \<and> (sel_tls sel \<or> rep_tls (run_report run) = []) \<and>
     (\<forall>e \<in> set (run_progress run). stage_selected sel (event_stage e))"
  by (simp add: selected_only_def active_def)

lemma ports_selected: "selected_only sel run \<Longrightarrow> sel_ports sel \<Longrightarrow> selected_only sel (ports_stage env sel run)"
  using ports_active [of env sel run] active_stage_events(1) [of _ env sel run]
  by (fastforce simp: selected_only_def active_def)

lemma services_selected:
  "selected_only sel run \<Longrightarrow> sel_services sel \<Longrightarrow> selected_only sel (services_stage env sel run)"
  using services_active [of env sel run] active_stage_events(2) [of _ env sel run]
  by (fastforce simp: selected_act selected_fields [of sel run])

lemma ssh_selected: "selected_only sel run \<Longrightarrow> sel_services sel \<Longrightarrow> selected_only sel (ssh_stage env sel run)"
  using ssh_active [of env sel run] active_stage_events(3) [of _ env sel run]
  by (fastforce simp: selected_act selected_fields [of sel run])

lemma http_selected: "selected_only sel run \<Longrightarrow> selected_only sel (http_stage env sel run)"
  using http_active [of env sel run] active_stage_events(4) [of _ env sel run]
  by (fastforce simp: selected_only_def active_def)

lemma tls_selected: "selected_only sel run \<Longrightarrow> selected_only sel (tls_stage env sel run)"
  using tls_active [of env sel run] active_stage_events(5) [of _ env sel run]
  by (fastforce simp: selected_only_def active_def)

lemma services_entry_selected: "\<not> run_returned (services_entry env sel run) \<Longrightarrow> sel_services sel"
  by (cases "sel_services sel") (simp_all add: services_entry_def)

lemma start_run_active: "active (run_report (start_run scan_id started_at target configuration sel)) = ([], [], [], [])"
  using start_run_fields(4) [of scan_id started_at target configuration sel] by (simp add: observed_active)

lemma inner_selected: "selected_only sel (run_scan_inner env scan_id started_at target configuration sel)"
proof -
  let ?P = "selected_only sel"
  have "leads ?P (scan_stages env sel) ?P"
    unfolding scan_stages_def
    apply (rule leads_same, erule preflight_selected, assumption)
    apply (rule leads_same, simp, assumption)+
    apply (rule leads_Cons [where Q = "\<lambda>run. ?P run \<and> sel_ports sel"], use addresses_selected in blast,
        use addresses_selected in blast)
    apply (rule leads_same, use ports_selected in blast, simp)
    apply (rule leads_Cons [where Q = "\<lambda>run. ?P run \<and> sel_services sel"], simp,
        use services_entry_selected in fastforce)
    apply (rule leads_same, use services_selected in blast, simp)
    apply (rule leads_same, use ssh_selected in blast, simp)
    apply (rule leads_same, use http_selected in blast, simp)
    apply (rule leads_same, use tls_selected in blast, simp)
    apply (rule leads_same, simp, simp)
    apply (rule leads_same, simp, simp)
    apply (rule leads_Nil)
    apply simp
    done
  moreover have "?P (start_run scan_id started_at target configuration sel)"
    by (simp add: selected_only_def start_run_active start_run_fields)
  ultimately show ?thesis
    by (simp add: leads_def run_scan_inner_def) (simp add: start_run_def Let_def)
qed


section \<open>Provenance\<close>

definition fair_env :: "'u scan_env \<Rightarrow> bool" where
  "fair_env env \<longleftrightarrow>
     fair_pool (env_port_order env) \<and> fair_pool (env_udp_order env) \<and> fair_pool (env_service_order env) \<and>
     fair_pool (env_ssh_order env) \<and> fair_pool (env_http_order env) \<and> fair_pool (env_tls_order env)"

definition port_in_scope :: "scan_configuration \<Rightarrow> ip_addr \<Rightarrow> port_observation \<Rightarrow> bool" where
  "port_in_scope cfg ip p \<longleftrightarrow>
     sa_ip (po_address p) = ip \<and>
     sa_port (po_address p) \<in> set (case po_transport p of Tcp \<Rightarrow> cfg_ports cfg | Udp \<Rightarrow> cfg_udp_ports cfg)"

definition host_in_scope :: "scan_configuration \<Rightarrow> ip_addr set \<Rightarrow> host_observation \<Rightarrow> bool" where
  "host_in_scope cfg ips h \<longleftrightarrow> host_ip h \<in> ips \<and> (\<forall>p \<in> set (host_ports h). port_in_scope cfg (host_ip h) p)"

definition provenance :: "scan_configuration \<Rightarrow> ip_addr set \<Rightarrow> host_observation list \<times> service_observation list \<times>
    http_observation list \<times> tls_observation list \<Rightarrow> bool" where
  \<comment> \<open>hosts are resolved addresses with configured ports, services are TCP ports observed open or
      UDP ports observed open or open-filtered, and HTTP and TLS observations are of TCP services\<close>
  "provenance cfg ips act \<longleftrightarrow>
     (case act of (hosts, services, http, tls) \<Rightarrow>
        (\<forall>h \<in> set hosts. host_in_scope cfg ips h) \<and>
        (\<forall>s \<in> set services. probed_port hosts s) \<and>
        (\<forall>y \<in> set http. \<exists>s \<in> set services. svc_transport s = Tcp \<and> svc_address s = ho_address y) \<and>
        (\<forall>y \<in> set tls. \<exists>s \<in> set services. svc_transport s = Tcp \<and> svc_address s = to_address y))"

lemma group_by_host_scope:
  assumes "h \<in> set (group_by_host addresses observations)"
    and "\<And>p. p \<in> set observations \<Longrightarrow>
      sa_port (po_address p) \<in> set (case po_transport p of Tcp \<Rightarrow> cfg_ports cfg | Udp \<Rightarrow> cfg_udp_ports cfg)"
  shows "host_in_scope cfg (set addresses) h"
proof -
  from assms(1) obtain ip where ip: "ip \<in> set addresses"
    "h = \<lparr>host_ip = ip, host_ports = filter (\<lambda>po. sa_ip (po_address po) = ip) observations\<rparr>"
    unfolding group_by_host_def by auto
  have "port_in_scope cfg ip p" if "p \<in> set observations" "sa_ip (po_address p) = ip" for p
    unfolding port_in_scope_def using assms(2) [OF that(1)] that(2) by blast
  with ip show ?thesis by (simp add: host_in_scope_def)
qed

lemma scan_ports_scope:
  assumes "fair_pool arrive" and "h \<in> set (scan_ports arrive net addresses (cfg_ports cfg) n t)"
  shows "host_in_scope cfg (set addresses) h"
proof (rule group_by_host_scope [OF assms(2) [unfolded scan_ports_def Let_def]])
  fix p
  assume "p \<in> set (sort_key po_address (arrive (max n 1) (map (connect net t) (attempts addresses (cfg_ports cfg)))))"
  then obtain a where "p = connect net t a" "sa_port a \<in> set (cfg_ports cfg)"
    using fair_pool_set [OF assms(1), of "max n 1"] by (auto simp: set_attempts)
  then show "sa_port (po_address p) \<in> set (case po_transport p of Tcp \<Rightarrow> cfg_ports cfg | Udp \<Rightarrow> cfg_udp_ports cfg)"
    by simp
qed

lemma scan_udp_ports_scope:
  assumes "fair_pool arrive" and "h \<in> set (scan_udp_ports arrive net addresses (cfg_udp_ports cfg) n t)"
  shows "host_in_scope cfg (set addresses) h"
proof (rule group_by_host_scope [OF assms(2) [unfolded scan_udp_ports_def Let_def]])
  fix p
  assume "p \<in> set (sort_key po_address (arrive (max n 1) (map (probe_udp net t) (attempts addresses (cfg_udp_ports cfg)))))"
  then obtain a where "p = probe_udp net t a" "sa_port a \<in> set (cfg_udp_ports cfg)"
    using fair_pool_set [OF assms(1), of "max n 1"] by (auto simp: set_attempts)
  then show "sa_port (po_address p) \<in> set (case po_transport p of Tcp \<Rightarrow> cfg_ports cfg | Udp \<Rightarrow> cfg_udp_ports cfg)"
    by simp
qed

lemma merged_in_scope:
  "host_in_scope cfg ips h \<Longrightarrow> host_in_scope cfg ips u \<Longrightarrow> host_ip h = host_ip u \<Longrightarrow>
   host_in_scope cfg ips (h\<lparr>host_ports := sort_key port_key (host_ports h @ host_ports u)\<rparr>)"
  unfolding host_in_scope_def by (simp add: ball_Un)

lemma merge_host_scope:
  "\<forall>h \<in> set tcp. host_in_scope cfg ips h \<Longrightarrow> host_in_scope cfg ips u \<Longrightarrow>
   \<forall>h \<in> set (merge_host tcp u). host_in_scope cfg ips h"
proof (induction tcp)
  case (Cons h tcp)
  then show ?case using merged_in_scope [of cfg ips h u] by simp
qed simp

lemma merge_hosts_scope:
  assumes "\<forall>h \<in> set tcp. host_in_scope cfg ips h" and "\<forall>u \<in> set udp. host_in_scope cfg ips u"
  shows "\<forall>h \<in> set (merge_hosts tcp udp). host_in_scope cfg ips h"
proof -
  have "\<forall>h \<in> set (foldl merge_host tcp udp). host_in_scope cfg ips h"
    using assms
  proof (induction udp arbitrary: tcp)
    case (Cons u udp)
    from merge_host_scope [OF Cons.prems(1), of u] Cons.prems(2)
    have "\<forall>h \<in> set (merge_host tcp u). host_in_scope cfg ips h" by simp
    from Cons.IH [OF this] Cons.prems(2) show ?case by simp
  qed simp
  then show ?thesis by (simp add: merge_hosts_def)
qed

lemma probe_hosts_scope:
  assumes "fair_env env"
  shows "\<forall>h \<in> set (probe_hosts env r). host_in_scope (rep_configuration r) (set (scan_addresses r)) h"
proof -
  have fair: "fair_pool (env_port_order env)" "fair_pool (env_udp_order env)"
    using assms by (simp_all add: fair_env_def)
  show ?thesis
    unfolding probe_hosts_def Let_def
    by (intro merge_hosts_scope ballI) (erule scan_ports_scope [OF fair(1)] scan_udp_ports_scope [OF fair(2)])+
qed

lemma detect_services_probed:
  assumes "fair_pool arrive" and "y \<in> set (detect_services arrive net hosts hostname n t)"
  shows "probed_port hosts y"
proof -
  have "set (arrive (max n 1) xs) = set xs" for xs
    by (rule fair_pool_set [OF assms(1)]) simp
  with assms(2) have "y \<in> set (services_in_order net hosts hostname t)"
    by (auto simp: detect_services_def services_in_order_def Let_def set_filter_map)
  then show ?thesis by (rule services_in_order_probed)
qed

lemma analyze_http_source:
  assumes "fair_pool arrive" and "y \<in> set (analyze_http arrive ops cancelled cc target services n t)"
  shows "\<exists>s \<in> set services. svc_transport s = Tcp \<and> svc_address s = ho_address y"
proof -
  have "set (arrive (min 16 (max 1 n)) xs) = set xs" for xs
    by (rule fair_pool_set [OF assms(1)]) simp
  with assms(2) obtain s where "s \<in> set services" "http_candidate s"
    "inspect_http ops cancelled cc target t s = Some y"
    by (auto simp: analyze_http_def set_filter_map)
  then show ?thesis by (auto simp: inspect_http_def http_candidate_def split: if_splits)
qed

lemma analyze_tls_source:
  assumes "fair_pool arrive" and "y \<in> set (analyze_tls arrive xc builds net services name n t)"
  shows "\<exists>s \<in> set services. svc_transport s = Tcp \<and> svc_address s = to_address y"
proof -
  have "set (arrive (min 16 (max 1 n)) xs) = set xs" for xs
    by (rule fair_pool_set [OF assms(1)]) simp
  with assms(2) obtain s where "s \<in> set services" "is_implicit_tls_candidate s"
    "inspect_tls xc net name t (svc_address s) = Some y"
    by (auto simp: analyze_tls_def set_filter_map split: if_splits)
  then show ?thesis using inspect_tls_address by (fastforce simp: is_implicit_tls_candidate_def Let_def)
qed

lemma analyze_ssh_probed:
  assumes "fair_pool arrive"
  shows "(\<forall>s \<in> set services. probed_port hosts s) \<Longrightarrow>
    \<forall>s \<in> set (fst (analyze_ssh arrive net services n t)). probed_port hosts s"
  by (auto simp: analyze_ssh_sequential [OF assms] probed_port_def)


definition run_prov :: "scan_run \<Rightarrow> bool" where
  "run_prov run \<longleftrightarrow>
     provenance (rep_configuration (run_report run)) (set (scan_addresses (run_report run))) (active (run_report run))"

definition idle :: "scan_run \<Rightarrow> bool" where
  "idle run \<longleftrightarrow> active (run_report run) = ([], [], [], [])"

lemma idle_prov: "idle run \<Longrightarrow> run_prov run"
  by (simp add: idle_def run_prov_def provenance_def)

lemma idle_frames [simp]:
  "idle (preflight_stage env sel run) = idle run"
  "idle (baseline_stage env sel run) = idle run"
  "idle (dnssec_stage env sel run) = idle run"
  "idle (axfr_stage env sel run) = idle run"
  "idle (wildcard_stage env sel run) = idle run"
  "idle (dangling_stage env sel run) = idle run"
  "idle (addresses_stage env sel run) = idle run"
  by (simp_all add: idle_def)

lemma run_prov_step:
  \<comment> \<open>a stage that keeps the DNS observation: only the active observations matter\<close>
  assumes "engine_stage stage" and "rep_dns (run_report (stage run)) = rep_dns (run_report run)"
  shows "run_prov (stage run) \<longleftrightarrow>
    provenance (rep_configuration (run_report run)) (set (scan_addresses (run_report run)))
      (active (run_report (stage run)))"
proof -
  have "rep_configuration (run_report (stage run)) = rep_configuration (run_report run)"
    using engine_stage.stage_scan [OF assms(1), of run] by (simp add: same_scan_def)
  then show ?thesis using assms(2) by (simp add: run_prov_def scan_addresses_def)
qed

lemmas run_prov_stages =
  run_prov_step [OF ports.engine_stage_axioms active_stage_dns(1)]
  run_prov_step [OF services_entry.engine_stage_axioms active_stage_dns(2)]
  run_prov_step [OF services.engine_stage_axioms active_stage_dns(3)]
  run_prov_step [OF ssh_analysis.engine_stage_axioms active_stage_dns(4)]
  run_prov_step [OF http.engine_stage_axioms active_stage_dns(5)]
  run_prov_step [OF tls.engine_stage_axioms active_stage_dns(6)]
  run_prov_step [OF tls_skip.engine_stage_axioms active_stage_dns(7)]

lemma finish_prov: "run_prov (finish_run env sel unfinished run) = run_prov run"
  by (subst run_prov_step [OF finishing.engine_stage_axioms]) (simp_all add: run_prov_def)

definition hosts_only :: "scan_run \<Rightarrow> bool" where
  "hosts_only run \<longleftrightarrow> run_prov run \<and> snd (active (run_report run)) = ([], [], [])"

definition services_only :: "scan_run \<Rightarrow> bool" where
  "services_only run \<longleftrightarrow> run_prov run \<and> snd (snd (active (run_report run))) = ([], [])"

definition no_tls_yet :: "scan_run \<Rightarrow> bool" where
  "no_tls_yet run \<longleftrightarrow> run_prov run \<and> snd (snd (snd (active (run_report run)))) = []"

lemma ports_prov: "fair_env env \<Longrightarrow> idle run \<Longrightarrow> hosts_only (ports_stage env sel run)"
  using probe_hosts_scope [of env "run_report run"]
  by (simp add: hosts_only_def run_prov_stages ports_active idle_def provenance_def)

lemma services_entry_prov: "hosts_only (services_entry env sel run) = hosts_only run"
  by (simp add: hosts_only_def run_prov_stages) (simp add: run_prov_def)

lemma services_prov:
  assumes fair: "fair_env env" and run: "hosts_only run"
  shows "services_only (services_stage env sel run)"
proof -
  obtain ss where ss: "active (run_report (services_stage env sel run)) =
      (rep_hosts (run_report run), ss, rep_http (run_report run), rep_tls (run_report run))"
    "\<And>s. s \<in> set ss \<Longrightarrow> probed_port (rep_hosts (run_report run)) s"
    using services_active [of env sel run] detect_services_probed fair
    unfolding fair_env_def by metis
  show ?thesis
    unfolding services_only_def run_prov_stages ss(1)
    using run ss(2) by (simp add: hosts_only_def run_prov_def provenance_def active_def)
qed

lemma ssh_prov:
  assumes fair: "fair_env env" and run: "services_only run"
  shows "services_only (ssh_stage env sel run)"
proof -
  have "fair_pool (env_ssh_order env)" using fair by (simp add: fair_env_def)
  moreover have "\<forall>s \<in> set (rep_services (run_report run)). probed_port (rep_hosts (run_report run)) s"
    using run by (simp add: services_only_def run_prov_def provenance_def active_def)
  ultimately have "\<forall>s \<in> set (fst (analyze_ssh (env_ssh_order env) (env_ssh env) (rep_services (run_report run)) n t)).
      probed_port (rep_hosts (run_report run)) s" for n t
    by (rule analyze_ssh_probed)
  with run show ?thesis
    unfolding services_only_def run_prov_stages ssh_active
    by (simp add: run_prov_def provenance_def active_def)
qed

lemma http_prov:
  assumes fair: "fair_env env" and run: "services_only run"
  shows "no_tls_yet (http_stage env sel run)"
proof -
  have pool: "fair_pool (env_http_order env)" using fair by (simp add: fair_env_def)
  have "\<exists>ys. active (run_report (http_stage env sel run)) =
      (rep_hosts (run_report run), rep_services (run_report run), ys, rep_tls (run_report run)) \<and>
    (ys = rep_http (run_report run) \<or>
      (\<forall>y \<in> set ys. \<exists>s \<in> set (rep_services (run_report run)). svc_transport s = Tcp \<and> svc_address s = ho_address y))"
  proof (cases "active (run_report (http_stage env sel run)) = active (run_report run)")
    case True
    then show ?thesis by (intro exI [of _ "rep_http (run_report run)"]) (simp add: active_def)
  next
    case False
    with http_active [of env sel run] show ?thesis using analyze_http_source [OF pool] by metis
  qed
  then obtain ys where eq: "active (run_report (http_stage env sel run)) =
      (rep_hosts (run_report run), rep_services (run_report run), ys, rep_tls (run_report run))"
    and ys: "ys = rep_http (run_report run) \<or>
      (\<forall>y \<in> set ys. \<exists>s \<in> set (rep_services (run_report run)). svc_transport s = Tcp \<and> svc_address s = ho_address y)"
    by blast
  show ?thesis
    unfolding no_tls_yet_def run_prov_stages eq
    using run ys by (auto simp: services_only_def run_prov_def provenance_def active_def)
qed

lemma tls_prov:
  assumes fair: "fair_env env" and run: "no_tls_yet run"
  shows "run_prov (tls_stage env sel run)"
proof -
  have pool: "fair_pool (env_tls_order env)" using fair by (simp add: fair_env_def)
  have "\<exists>ys. active (run_report (tls_stage env sel run)) =
      (rep_hosts (run_report run), rep_services (run_report run), rep_http (run_report run), ys) \<and>
    (ys = rep_tls (run_report run) \<or>
      (\<forall>y \<in> set ys. \<exists>s \<in> set (rep_services (run_report run)). svc_transport s = Tcp \<and> svc_address s = to_address y))"
  proof (cases "active (run_report (tls_stage env sel run)) = active (run_report run)")
    case True
    then show ?thesis by (intro exI [of _ "rep_tls (run_report run)"]) (simp add: active_def)
  next
    case False
    with tls_active [of env sel run] show ?thesis using analyze_tls_source [OF pool] by metis
  qed
  then obtain ys where eq: "active (run_report (tls_stage env sel run)) =
      (rep_hosts (run_report run), rep_services (run_report run), rep_http (run_report run), ys)"
    and ys: "ys = rep_tls (run_report run) \<or>
      (\<forall>y \<in> set ys. \<exists>s \<in> set (rep_services (run_report run)). svc_transport s = Tcp \<and> svc_address s = to_address y)"
    by blast
  show ?thesis
    unfolding run_prov_stages eq
    using run ys by (auto simp: no_tls_yet_def run_prov_def provenance_def active_def)
qed

lemma inner_prov:
  assumes "fair_env env"
  shows "run_prov (run_scan_inner env scan_id started_at target configuration sel)"
proof -
  have weaker: "hosts_only run \<Longrightarrow> run_prov run" "services_only run \<Longrightarrow> run_prov run" "no_tls_yet run \<Longrightarrow> run_prov run"
    for run by (simp_all add: hosts_only_def services_only_def no_tls_yet_def)
  have "leads idle (scan_stages env sel) run_prov"
    unfolding scan_stages_def
    apply (rule leads_same, simp, erule idle_prov)+
    apply (rule leads_Cons [where Q = hosts_only], use ports_prov [OF assms] weaker in blast,
        use ports_prov [OF assms] in blast)
    apply (rule leads_same, simp add: services_entry_prov, erule weaker)
    apply (rule leads_Cons [where Q = services_only], use services_prov [OF assms] weaker in blast,
        use services_prov [OF assms] in blast)
    apply (rule leads_same, erule ssh_prov [OF assms], erule weaker)
    apply (rule leads_Cons [where Q = no_tls_yet], use http_prov [OF assms] weaker in blast,
        use http_prov [OF assms] in blast)
    apply (rule leads_Cons [where Q = run_prov], use tls_prov [OF assms] in blast, use tls_prov [OF assms] in blast)
    apply (rule leads_same, simp add: run_prov_stages, simp add: run_prov_def, assumption)
    apply (rule leads_same, simp add: finish_prov, assumption)
    apply (rule leads_Nil)
    apply assumption
    done
  moreover have "idle (start_run scan_id started_at target configuration sel)"
    by (simp add: idle_def start_run_active)
  ultimately show ?thesis
    by (simp add: leads_def run_scan_inner_def) (simp add: start_run_def Let_def)
qed


section \<open>Completion\<close>

definition stage_done :: "scan_stage \<Rightarrow> scan_progress list \<Rightarrow> bool" where
  "stage_done stage events \<longleftrightarrow> (\<exists>n. StageCompleted stage n \<in> set events)"

definition cut_short :: "scan_run \<Rightarrow> bool" where
  "cut_short run \<longleftrightarrow> rep_status (run_report run) \<in> {Interrupted, Failed, Partial}"

definition all_done :: "scan_selection \<Rightarrow> normalized_target \<Rightarrow> scan_progress list \<Rightarrow> bool" where
  \<comment> \<open>DNS and every selected stage completed; TLS is only possible for a target with a host name\<close>
  "all_done sel target events \<longleftrightarrow>
     stage_done Stage_Dns events \<and> (sel_ports sel \<longrightarrow> stage_done Stage_Ports events) \<and>
     (sel_services sel \<longrightarrow> stage_done Stage_Services events) \<and> (sel_http sel \<longrightarrow> stage_done Stage_Http events) \<and>
     (sel_tls sel \<and> tgt_explicit_ip target = None \<and> tgt_hostname target \<noteq> None \<longrightarrow> stage_done Stage_Tls events)"

lemma stage_done_append: "stage_done st events \<Longrightarrow> stage_done st (events @ events')"
  by (auto simp: stage_done_def)

lemma stage_done_push [simp]: "stage_done st (push events (StageCompleted st' n)) \<longleftrightarrow> st' = st \<or> stage_done st events"
  by (auto simp: stage_done_def)

lemma engine_stage_done:
  "engine_stage stage \<Longrightarrow> stage_done st (run_progress run) \<Longrightarrow> stage_done st (run_progress (stage run))"
  using engine_stage.stage_progress [of stage run] stage_done_append by metis

lemma engine_stage_target: "engine_stage stage \<Longrightarrow> rep_target (run_report (stage run)) = rep_target (run_report run)"
  using engine_stage.stage_scan [of stage run] by (simp add: same_scan_def)

lemma terminate_cut: "rep_status (terminate stage sel kind m r) \<in> {Interrupted, Failed, Partial}"
  by (cases kind) (auto simp: terminate_def terminal_status_def Let_def add_report_error_def)

lemma stop_cut [simp]: "cut_short (stop_run stage sel kind m run)"
  using terminate_cut by (simp add: cut_short_def)

lemma stop_if_cut: "run_returned (stop_if env p st sel m run) \<Longrightarrow> \<not> run_returned run \<Longrightarrow> cut_short (stop_if env p st sel m run)"
  by (simp add: stop_if_def split: if_splits)

lemma stop_if_interrupted_cut:
  "run_returned (stop_if_interrupted env p st sel cm tm run) \<Longrightarrow> \<not> run_returned run \<Longrightarrow>
   cut_short (stop_if_interrupted env p st sel cm tm run)"
  by (simp add: stop_if_interrupted_def stop_if_cut split: if_splits)

lemma dns_stage_cut:
  "run_returned (preflight_stage env sel run) \<Longrightarrow> \<not> run_returned run \<Longrightarrow> cut_short (preflight_stage env sel run)"
  "run_returned (baseline_stage env sel run) \<Longrightarrow> \<not> run_returned run \<Longrightarrow> cut_short (baseline_stage env sel run)"
  "run_returned (dnssec_stage env sel run) \<Longrightarrow> \<not> run_returned run \<Longrightarrow> cut_short (dnssec_stage env sel run)"
  "run_returned (axfr_stage env sel run) \<Longrightarrow> \<not> run_returned run \<Longrightarrow> cut_short (axfr_stage env sel run)"
  "run_returned (wildcard_stage env sel run) \<Longrightarrow> \<not> run_returned run \<Longrightarrow> cut_short (wildcard_stage env sel run)"
  "run_returned (dangling_stage env sel run) \<Longrightarrow> \<not> run_returned run \<Longrightarrow> cut_short (dangling_stage env sel run)"
  by (auto simp: preflight_stage_def baseline_stage_def dnssec_stage_def axfr_stage_def wildcard_stage_def
      dangling_stage_def Let_def
      split: if_splits poll.splits sum.splits option.splits axfr_check_state.splits wildcard_check_state.splits
        dangling_check_state.splits)

lemma addresses_done:
  "\<not> run_returned run \<Longrightarrow>
   stage_done Stage_Dns (run_progress (addresses_stage env sel run)) \<and>
   (run_returned (addresses_stage env sel run) \<longrightarrow>
      cut_short (addresses_stage env sel run) \<or> \<not> sel_ports sel)"
proof -
  assume run: "\<not> run_returned run"
  have partial: "cut_short (finish_run env sel unfinished (on_report (\<lambda>r. r\<lparr>rep_status := Partial, rep_message := m\<rparr>) run'))"
    for unfinished m run'
    using terminate_cut by (simp add: cut_short_def finish_selected_report_def settle_def)
  show ?thesis
    using run partial by (auto simp: addresses_stage_def Let_def intro: stop_if_cut)
qed

lemma ports_done:
  "\<not> run_returned run \<Longrightarrow>
   stage_done Stage_Ports (run_progress (ports_stage env sel run)) \<and>
   (run_returned (ports_stage env sel run) \<longrightarrow> cut_short (ports_stage env sel run))"
  by (auto simp: ports_stage_def Let_def intro: stop_if_interrupted_cut)

lemma services_entry_done:
  "\<not> run_returned run \<Longrightarrow> run_returned (services_entry env sel run) \<Longrightarrow>
   cut_short (services_entry env sel run) \<or> \<not> sel_services sel"
  by (auto simp: services_entry_def intro: stop_if_cut)

lemma services_cut:
  "\<not> run_returned run \<Longrightarrow> run_returned (services_stage env sel run) \<Longrightarrow> cut_short (services_stage env sel run)"
  by (auto simp: services_stage_def Let_def intro: stop_if_interrupted_cut)

lemma ssh_done:
  "\<not> run_returned run \<Longrightarrow>
   (if run_returned (ssh_stage env sel run) then cut_short (ssh_stage env sel run)
    else stage_done Stage_Services (run_progress (ssh_stage env sel run)))"
  by (simp add: ssh_stage_def Let_def split: prod.split ssh_analysis_state.split)

lemma http_done:
  "\<not> run_returned run \<Longrightarrow>
   (if run_returned (http_stage env sel run) then cut_short (http_stage env sel run)
    else sel_http sel \<longrightarrow> stage_done Stage_Http (run_progress (http_stage env sel run)))"
  by (auto simp: http_stage_def http_work_def and_then_def Let_def intro: stop_if_cut stop_if_interrupted_cut)

lemma tls_done:
  "\<not> run_returned run \<Longrightarrow>
   (if run_returned (tls_stage env sel run) then cut_short (tls_stage env sel run)
    else sel_tls sel \<and> tgt_explicit_ip (rep_target (run_report run)) = None \<and>
       tgt_hostname (rep_target (run_report run)) \<noteq> None \<longrightarrow>
       stage_done Stage_Tls (run_progress (tls_stage env sel run)))"
  by (auto simp: tls_stage_def tls_work_def and_then_def Let_def split: option.splits bool.splits
      intro: stop_if_cut stop_if_interrupted_cut)

definition done_or_cut :: "scan_selection \<Rightarrow> normalized_target \<Rightarrow> scan_run \<Rightarrow> bool" where
  "done_or_cut sel target run \<longleftrightarrow> cut_short run \<or> all_done sel target (run_progress run)"

definition dones :: "normalized_target \<Rightarrow> scan_stage list \<Rightarrow> scan_run \<Rightarrow> bool" where
  \<comment> \<open>the assertion while the run goes on: these stages have completed\<close>
  "dones target stages run \<longleftrightarrow>
     rep_target (run_report run) = target \<and> (\<forall>st \<in> set stages. stage_done st (run_progress run))"

lemma dones_step: "engine_stage stage \<Longrightarrow> dones target sts run \<Longrightarrow> dones target sts (stage run)"
  using engine_stage_done [of stage _ run] engine_stage_target [of stage run] by (simp add: dones_def)

lemma dones_Cons: "dones target (st # sts) run \<longleftrightarrow> stage_done st (run_progress run) \<and> dones target sts run"
  by (auto simp: dones_def)

lemma inner_done:
  assumes closed: "selection_closed sel"
  shows "done_or_cut sel target (run_scan_inner env scan_id started_at target configuration sel)"
proof -
  let ?R = "done_or_cut sel target"
  let ?D = "dones target"
  let ?last = "[tls_skip sel, finish_run env sel None]"
  have cut: "cut_short run \<Longrightarrow> ?R run" for run by (simp add: done_or_cut_def)
  have "leads (\<lambda>run. all_done sel target (run_progress run)) ?last ?R"
    by (intro leads_same [OF _ _ leads_same [OF _ _ leads_Nil]]) (simp_all add: done_or_cut_def)
  then have "leads (\<lambda>run. ?D [Stage_Services, Stage_Ports, Stage_Dns] run \<and>
      (sel_http sel \<longrightarrow> stage_done Stage_Http (run_progress run))) (tls_stage env sel # ?last) ?R"
  proof (rule leads_Cons [rotated 2])
    fix run assume run: "?D [Stage_Services, Stage_Ports, Stage_Dns] run \<and>
        (sel_http sel \<longrightarrow> stage_done Stage_Http (run_progress run))" "\<not> run_returned run"
    note tls = tls_done [OF run(2), of env sel] engine_stage_done [OF tls.engine_stage_axioms [of env sel], of _ run]
    show "run_returned (tls_stage env sel run) \<Longrightarrow> ?R (tls_stage env sel run)"
      using tls cut by simp
    show "\<not> run_returned (tls_stage env sel run) \<Longrightarrow> all_done sel target (run_progress (tls_stage env sel run))"
      using tls run by (simp add: all_done_def dones_def)
  qed
  then have "leads (?D [Stage_Services, Stage_Ports, Stage_Dns]) (http_stage env sel # tls_stage env sel # ?last) ?R"
  proof (rule leads_Cons [rotated 2])
    fix run assume run: "?D [Stage_Services, Stage_Ports, Stage_Dns] run" "\<not> run_returned run"
    note http = http_done [OF run(2), of env sel] dones_step [OF http.engine_stage_axioms [of env sel] run(1)]
    show "run_returned (http_stage env sel run) \<Longrightarrow> ?R (http_stage env sel run)"
      using http cut by simp
    show "\<not> run_returned (http_stage env sel run) \<Longrightarrow>
        ?D [Stage_Services, Stage_Ports, Stage_Dns] (http_stage env sel run) \<and>
        (sel_http sel \<longrightarrow> stage_done Stage_Http (run_progress (http_stage env sel run)))"
      using http by simp
  qed
  then have "leads (?D [Stage_Ports, Stage_Dns]) (ssh_stage env sel # http_stage env sel # tls_stage env sel # ?last) ?R"
  proof (rule leads_Cons [rotated 2])
    fix run assume run: "?D [Stage_Ports, Stage_Dns] run" "\<not> run_returned run"
    note ssh = ssh_done [OF run(2), of env sel] dones_step [OF ssh_analysis.engine_stage_axioms [of env sel] run(1)]
    show "run_returned (ssh_stage env sel run) \<Longrightarrow> ?R (ssh_stage env sel run)"
      using ssh cut by simp
    show "\<not> run_returned (ssh_stage env sel run) \<Longrightarrow>
        ?D [Stage_Services, Stage_Ports, Stage_Dns] (ssh_stage env sel run)"
      using ssh by (simp add: dones_Cons)
  qed
  then have "leads (?D [Stage_Ports, Stage_Dns])
      (services_stage env sel # ssh_stage env sel # http_stage env sel # tls_stage env sel # ?last) ?R"
    by (rule leads_Cons [rotated 2])
      (use cut services_cut dones_step [OF services.engine_stage_axioms] in blast)+
  then have "leads (?D [Stage_Ports, Stage_Dns]) (services_entry env sel # services_stage env sel #
      ssh_stage env sel # http_stage env sel # tls_stage env sel # ?last) ?R"
  proof (rule leads_Cons [rotated 2])
    fix run assume run: "?D [Stage_Ports, Stage_Dns] run" "\<not> run_returned run"
    note entry = dones_step [OF services_entry.engine_stage_axioms [of env sel] run(1)]
    show "run_returned (services_entry env sel run) \<Longrightarrow> ?R (services_entry env sel run)"
      using services_entry_done [OF run(2), of env sel] cut entry closed
      by (auto simp: done_or_cut_def all_done_def dones_def selection_closed_def)
    show "?D [Stage_Ports, Stage_Dns] (services_entry env sel run)" by (rule entry)
  qed
  then have "leads (?D [Stage_Dns]) (ports_stage env sel # services_entry env sel # services_stage env sel #
      ssh_stage env sel # http_stage env sel # tls_stage env sel # ?last) ?R"
  proof (rule leads_Cons [rotated 2])
    fix run assume run: "?D [Stage_Dns] run" "\<not> run_returned run"
    note ports = ports_done [OF run(2), of env sel] dones_step [OF ports.engine_stage_axioms [of env sel] run(1)]
    show "run_returned (ports_stage env sel run) \<Longrightarrow> ?R (ports_stage env sel run)"
      using ports cut by simp
    show "?D [Stage_Ports, Stage_Dns] (ports_stage env sel run)"
      using ports by (simp add: dones_Cons)
  qed
  then have active: "leads (?D []) (addresses_stage env sel # ports_stage env sel # services_entry env sel #
      services_stage env sel # ssh_stage env sel # http_stage env sel # tls_stage env sel # ?last) ?R"
  proof (rule leads_Cons [rotated 2])
    fix run assume run: "?D [] run" "\<not> run_returned run"
    note addresses = addresses_done [OF run(2), of env sel] dones_step [OF addresses.engine_stage_axioms [of env sel] run(1)]
    show "run_returned (addresses_stage env sel run) \<Longrightarrow> ?R (addresses_stage env sel run)"
      using addresses cut closed by (auto simp: done_or_cut_def all_done_def selection_closed_def)
    show "?D [Stage_Dns] (addresses_stage env sel run)"
      using addresses by (simp add: dones_Cons)
  qed
  have step: "leads (?D []) (stage # stages) ?R"
    if "engine_stage stage" and "leads (?D []) stages ?R"
      and "\<And>run. run_returned (stage run) \<Longrightarrow> \<not> run_returned run \<Longrightarrow> cut_short (stage run)" for stage stages
    by (rule leads_Cons [OF _ _ that(2)]) (use that(1,3) cut dones_step in blast)+
  have "leads (?D []) (scan_stages env sel) ?R"
    unfolding scan_stages_def
    by (intro step active preflight.engine_stage_axioms baseline.engine_stage_axioms dnssec.engine_stage_axioms
        axfr.engine_stage_axioms wildcard.engine_stage_axioms dangling.engine_stage_axioms)
      (erule (1) dns_stage_cut)+
  moreover have "?D [] (start_run scan_id started_at target configuration sel)"
    by (simp add: dones_def start_run_fields)
  ultimately show ?thesis
    by (simp add: leads_def run_scan_inner_def) (simp add: start_run_def Let_def)
qed

section \<open>Properties\<close>

lemma finalize_keeps:
  "observed (fst (finalize before after now finished r)) = observed r"
  by (cases "rep_completed_at r = None"; cases "preflight_failed r")
    (simp_all add: finalize_open finalize_closed finalize_preflight closing_observed Let_def)

lemma finalize_events:
  "snd (finalize before after now finished r) = [] \<or>
   (\<exists>n. snd (finalize before after now finished r) = [Started Stage_Findings, StageCompleted Stage_Findings n])"
  by (cases "rep_completed_at r = None"; cases "preflight_failed r")
    (simp_all add: finalize_open finalize_closed finalize_preflight Let_def)

lemma run_scan_selected_progress:
  "snd (run_scan_selected env before after now finished scan_id started_at target configuration sel) =
   run_progress (run_scan_inner env scan_id started_at target configuration sel) @
   snd (finalize before after now finished (run_report (run_scan_inner env scan_id started_at target configuration sel)))"
  by (simp add: run_scan_selected_def Let_def split: prod.split)

lemma trace_findings:
  assumes "trace_below 12 run"
  shows "trace_ok (run_progress run @ [Started Stage_Findings, StageCompleted Stage_Findings n])"
proof -
  have "trace_open Stage_Findings (emit (Started Stage_Findings) run)"
    by (rule trace_start) (simp add: assms)
  from trace_complete [OF this, of n] show ?thesis by (simp add: trace_below_def push_def)
qed

text \<open>
  C33: Progress is reported in order: whatever happens during a scan, the events follow the order of the stages,
  no stage is started or completed twice, and a completion comes only after the start of its stage.
\<close>

theorem progress_ordered:
  "trace_ok (snd (run_scan_selected env before after now finished scan_id started_at target configuration sel))"
  using inner_trace [of env scan_id started_at target configuration sel]
    trace_findings [of "run_scan_inner env scan_id started_at target configuration sel"]
    finalize_events [of before after now finished
      "run_report (run_scan_inner env scan_id started_at target configuration sel)"]
  unfolding run_scan_selected_progress by (auto simp: trace_below_def)

fun stage_check :: "scan_stage \<Rightarrow> string" where
  "stage_check Stage_Ports = ''ports''"
| "stage_check Stage_Services = ''services''"
| "stage_check Stage_Http = ''http''"
| "stage_check Stage_Tls = ''tls''"
| "stage_check _ = ''dns''"

definition stage_silent :: "scan_stage \<Rightarrow> scan_report \<Rightarrow> bool" where
  "stage_silent stage r \<longleftrightarrow>
     (case stage of
        Stage_Ports \<Rightarrow> rep_hosts r = []
      | Stage_Services \<Rightarrow> rep_services r = []
      | Stage_Http \<Rightarrow> rep_http r = []
      | Stage_Tls \<Rightarrow> rep_tls r = []
      | _ \<Rightarrow> True)"

lemma selection_skip_recorded:
  assumes "\<not> stage_selected sel stage" and "rep_skipped_checks r = []"
  shows "\<lparr>skip_check = stage_check stage, skip_reason = ''excluded by --only''\<rparr> \<in>
    set (rep_skipped_checks (record_selection_skips sel r))"
proof -
  let ?xs = "[(''ports'', sel_ports sel), (''services'', sel_services sel), (''http'', sel_http sel), (''tls'', sel_tls sel)]"
  have "distinct (map fst ?xs)" by simp
  from skips_foldl [OF this, of Not "''excluded by --only''" r] assms(2)
  have "rep_skipped_checks (record_selection_skips sel r) =
      map (\<lambda>c. \<lparr>skip_check = c, skip_reason = ''excluded by --only''\<rparr>) (map fst (filter (Not \<circ> snd) ?xs))"
    by (simp add: record_selection_skips_def skip_names_def)
  then show ?thesis using assms(1) by (cases stage) auto
qed

text \<open>
  C31: A stage that was not selected does nothing: a finished scan holds no observation of it, sent no progress
  event for it, and lists its check as skipped because of the selection.
\<close>

theorem unselected_stage_silent:
  assumes "\<not> stage_selected sel stage"
  shows "case run_scan_selected env before after now finished scan_id started_at target configuration sel of
    (r, events) \<Rightarrow>
      stage_silent stage r \<and> stage \<notin> set (map event_stage events) \<and>
      \<lparr>skip_check = stage_check stage, skip_reason = ''excluded by --only''\<rparr> \<in> set (rep_skipped_checks r)"
proof -
  let ?run = "run_scan_inner env scan_id started_at target configuration sel"
  let ?s = "run_scan_selected env before after now finished scan_id started_at target configuration sel"
  let ?start = "not_started scan_id started_at target (configuration\<lparr>cfg_authorization_acknowledged := True\<rparr>)"
  have obs: "active (fst ?s) = active (run_report ?run)"
    using finalize_keeps by (simp add: run_scan_selected_report observed_active)
  have "stage_silent stage (fst ?s)"
    using inner_selected [of sel env scan_id started_at target configuration] obs assms
    by (cases stage) (auto simp: stage_silent_def selected_only_def active_def)
  moreover have "event_stage e \<noteq> stage" if "e \<in> set (snd ?s)" for e
  proof -
    have "stage_selected sel (event_stage e)"
      using that inner_selected [of sel env scan_id started_at target configuration]
        finalize_events [of before after now finished "run_report ?run"]
      by (auto simp: run_scan_selected_progress selected_only_def)
    with assms show ?thesis by auto
  qed
  moreover have "\<lparr>skip_check = stage_check stage, skip_reason = ''excluded by --only''\<rparr> \<in> set (rep_skipped_checks (fst ?s))"
  proof -
    have "rep_skipped_checks ?start = []" by (simp add: not_started_def)
    from selection_skip_recorded [OF assms this] show ?thesis
      using scan_step [of env before after now finished scan_id started_at target configuration sel] by force
  qed
  ultimately show ?thesis by (cases ?s) auto
qed

theorem unselected_stage_silent_witness:
  "case run_scan_selected sample_env calm calm 1 2 ''id'' 0 sample_target sample_configuration
      (selection_only [Stage_Http]) of
    (r, events) \<Rightarrow> rep_tls r = [] \<and> Stage_Tls \<notin> set (map event_stage events)"
proof -
  have "\<not> stage_selected (selection_only [Stage_Http]) Stage_Tls"
    by (simp add: selection_only_def Let_def)
  from unselected_stage_silent [OF this, of sample_env calm calm 1 2 "''id''" 0 sample_target sample_configuration]
  show ?thesis by (auto simp: stage_silent_def split: prod.splits)
qed

text \<open>
  C1: A scan reports nothing outside its scope, in whatever order concurrent work finishes: every host is an
  address the target's name resolved to and every port of it one of the configured ports, every service is a TCP
  port such a host was observed to have open or a UDP port it was observed to have open or open-filtered, and every
  HTTP or TLS observation is of the address of a TCP service found.
\<close>

theorem observations_in_scope:
  assumes "fair_env env"
  shows "let r = fst (run_scan_selected env before after now finished scan_id started_at target configuration sel)
    in provenance configuration (set (scan_addresses r)) (active r)"
proof -
  let ?run = "run_scan_inner env scan_id started_at target configuration sel"
  let ?r = "fst (run_scan_selected env before after now finished scan_id started_at target configuration sel)"
  have obs: "active ?r = active (run_report ?run)" "rep_dns ?r = rep_dns (run_report ?run)"
    using finalize_keeps by (simp_all add: run_scan_selected_report observed_active)
  obtain f where "quiet_step f" "run_report ?run = f (run_report (start_run scan_id started_at target configuration sel))"
    by (rule inner_quiet)
  then have "rep_configuration (run_report ?run) = configuration\<lparr>cfg_authorization_acknowledged := True\<rparr>"
    using report_step.configuration_kept [OF quiet_step.axioms(1)] by (simp add: start_run_fields)
  moreover have "host_in_scope (configuration\<lparr>cfg_authorization_acknowledged := True\<rparr>) = host_in_scope configuration"
    by (intro ext) (simp add: host_in_scope_def port_in_scope_def cong: transport_protocol.case_cong)
  ultimately show ?thesis
    using inner_prov [OF assms, of scan_id started_at target configuration sel] obs
    by (simp add: run_prov_def provenance_def scan_addresses_def)
qed

theorem observations_in_scope_witness:
  "let r = fst (run_scan_selected sample_env calm calm 1 2 ''id'' 0 sample_target sample_configuration selection_all)
   in provenance sample_configuration (set (scan_addresses r)) (active r)"
  by (rule observations_in_scope) (simp add: fair_env_def sample_env_def)



text \<open>
  C3: A scan reported as completed is complete, for a selection that contains the prerequisites of each of its stages: DNS
  and every selected stage announced its completion, except that TLS, which needs a name to verify, need not have when the
  target has no host name or is an address.
\<close>

theorem completed_scan_complete:
  assumes "selection_closed sel"
    and "rep_status (fst (run_scan_selected env before after now finished scan_id started_at target configuration sel))
      = Completed"
  shows "all_done sel target
    (snd (run_scan_selected env before after now finished scan_id started_at target configuration sel))"
proof -
  let ?run = "run_scan_inner env scan_id started_at target configuration sel"
  have "rep_status (run_report ?run) \<notin> {Interrupted, Failed, Partial}"
  proof (cases "preflight_failed (run_report ?run)")
    case True
    with assms(2) show ?thesis
      by (simp add: run_scan_selected_report finalize_preflight inner_completed_at)
  next
    case False
    with assms(2) finalize_outcome [OF inner_completed_at False, of before after now finished]
    show ?thesis by (simp add: run_scan_selected_report)
  qed
  then have "all_done sel target (run_progress ?run)"
    using inner_done [OF assms(1), of target env scan_id started_at configuration]
    by (simp add: done_or_cut_def cut_short_def)
  then show ?thesis
    by (auto simp: all_done_def run_scan_selected_progress intro: stage_done_append)
qed


theorem completed_scan_complete_witness:
  "all_done (selection_only []) sample_target
    (snd (run_scan_selected sample_env calm calm 1 2 ''id'' 0 sample_target sample_configuration (selection_only [])))"
proof -
  have "rep_status (fst (run_scan_selected sample_env calm calm 1 2 ''id'' 0 sample_target sample_configuration
      (selection_only []))) = Completed"
    by code_simp
  then show ?thesis by (intro completed_scan_complete) simp_all
qed

end
