(* ===== verification/Cli_Output.thy ===== *)
theory Cli_Output
  imports Rust_Str
begin

text \<open>
  Output files of the command line, \<^verbatim>\<open>crates/surface-cli/src/main.rs\<close>: the format a file name asks for, the
  file name made of a target, and the default HTML file, which is created under the first free numbered
  name. Paths are UTF-8 strings with \<open>/\<close> between components. The file system is the state: a map from paths
  to contents, with errors other than an existing file decided by the environment.
\<close>

section \<open>Errors and exit codes\<close>

record app_error =
  app_message :: string
  app_exit_code :: nat

definition EXIT_INVALID_INPUT :: nat where "EXIT_INVALID_INPUT = 1"
definition EXIT_HIGH_FINDINGS :: nat where "EXIT_HIGH_FINDINGS = 2"
definition EXIT_SCAN_FAILED :: nat where "EXIT_SCAN_FAILED = 3"

definition app_error_new :: "string \<Rightarrow> nat \<Rightarrow> app_error" where
  "app_error_new message exit_code = \<lparr>app_message = message, app_exit_code = exit_code\<rparr>"

section \<open>Paths\<close>

fun drop_trailing :: "string \<Rightarrow> string" where
  \<comment> \<open>on the reversed path: separators and dot components after the last name\<close>
  "drop_trailing (c # d # r) =
     (if c = CHR ''/'' then drop_trailing (d # r)
      else if c = CHR ''.'' \<and> d = CHR ''/'' then drop_trailing r
      else c # d # r)"
| "drop_trailing [c] = (if c = CHR ''/'' then [] else [c])"
| "drop_trailing [] = []"

definition path_trimmed :: "string \<Rightarrow> string" where
  "path_trimmed path = rev (drop_trailing (rev path))"

definition path_file_name :: "string \<Rightarrow> string option" where
  \<comment> \<open>\<open>Path::file_name\<close>\<close>
  "path_file_name path =
     (let name = last (split_on CHR ''/'' (path_trimmed path))
      in if name \<in> {'''', ''.'', ''..''} then None else Some name)"

definition split_last_dot :: "string \<Rightarrow> (string \<times> string) option" where
  "split_last_dot name =
     (case split_once CHR ''.'' (rev name) of
        None \<Rightarrow> None
      | Some (after, before) \<Rightarrow> if before = [] then None else Some (rev before, rev after))"

definition path_extension :: "string \<Rightarrow> string option" where
  \<comment> \<open>\<open>Path::extension\<close>: a leading dot does not start one\<close>
  "path_extension path =
     (case path_file_name path of
        None \<Rightarrow> None
      | Some name \<Rightarrow> map_option snd (split_last_dot name))"

definition path_with_extension :: "string \<Rightarrow> string \<Rightarrow> string" where
  \<comment> \<open>\<open>Path::with_extension\<close>\<close>
  "path_with_extension path extension =
     (case path_file_name path of
        None \<Rightarrow> path
      | Some name \<Rightarrow>
          let stem = (case split_last_dot name of Some (stem, _) \<Rightarrow> stem | None \<Rightarrow> name);
              parent = take (length (path_trimmed path) - length name) (path_trimmed path)
          in parent @ stem @ (if extension = [] then [] else ''.'' @ extension))"

definition path_join :: "string \<Rightarrow> string \<Rightarrow> string" where
  \<comment> \<open>\<open>Path::join\<close>\<close>
  "path_join directory name =
     (if starts_with name ''/'' then name
      else if directory = [] \<or> ends_with directory ''/'' then directory @ name
      else directory @ ''/'' @ name)"

section \<open>Formats\<close>

datatype report_format = Format_Json | Format_Html | Format_Sarif | Format_CyclonedxJson

datatype output_command = Output_Scan | Output_Diff | Output_HistoryShow

record output_spec =
  os_path :: string
  os_format :: report_format
  os_warn_unrecognized :: bool

definition output_spec_of :: "string \<Rightarrow> output_spec" where
  \<comment> \<open>the function \<open>output_spec\<close>\<close>
  "output_spec_of path =
     (let file_name = (case path_file_name path of Some name \<Rightarrow> to_ascii_lowercase name | None \<Rightarrow> []);
          spec = (\<lambda>path format warn. \<lparr>os_path = path, os_format = format, os_warn_unrecognized = warn\<rparr>)
      in if ends_with file_name ''.sarif.json'' then spec path Format_Sarif False
         else if ends_with file_name ''.cdx.json'' \<or> ends_with file_name ''.cyclonedx.json'' \<or>
                 ends_with file_name ''.cyclonedx'' then spec path Format_CyclonedxJson False
         else (case map_option to_ascii_lowercase (path_extension path) of
             None \<Rightarrow> spec (path_with_extension path ''html'') Format_Html False
           | Some extension \<Rightarrow>
               if extension \<in> {''html'', ''htm''} then spec path Format_Html False
               else if extension = ''json'' then spec path Format_Json False
               else if extension = ''sarif'' then spec path Format_Sarif False
               else if extension = [] then spec (path_with_extension path ''html'') Format_Html False
               else spec path Format_Html True))"

fun output_format_name :: "report_format \<Rightarrow> string" where
  "output_format_name Format_Json = ''JSON''"
| "output_format_name Format_Html = ''HTML''"
| "output_format_name Format_Sarif = ''SARIF''"
| "output_format_name Format_CyclonedxJson = ''CycloneDX''"

definition ensure_diff_output_format :: "report_format \<Rightarrow> app_error + unit" where
  "ensure_diff_output_format format =
     (if format \<in> {Format_Sarif, Format_CyclonedxJson} then
        Inl (app_error_new (''diff does not support '' @ output_format_name format @ '' output'') EXIT_INVALID_INPUT)
      else Inr ())"

fun first_format_error :: "output_spec list \<Rightarrow> app_error option" where
  \<comment> \<open>the loop of \<open>build_output_specs\<close>\<close>
  "first_format_error [] = None"
| "first_format_error (spec # specs) =
     (case ensure_diff_output_format (os_format spec) of Inl e \<Rightarrow> Some e | Inr _ \<Rightarrow> first_format_error specs)"

definition build_output_specs :: "string list \<Rightarrow> output_command \<Rightarrow> app_error + output_spec list" where
  "build_output_specs paths command =
     (let specs = map output_spec_of paths
      in if command = Output_Diff then
           (case first_format_error specs of Some e \<Rightarrow> Inl e | None \<Rightarrow> Inr specs)
         else Inr specs)"

definition unrecognized_extension_warning :: "output_spec \<Rightarrow> string option" where
  "unrecognized_extension_warning output =
     (if os_warn_unrecognized output then
        Some (''surface: unrecognized output extension for '' @ [CHR 0x27] @ os_path output @ [CHR 0x27] @
          ''; writing HTML'')
      else None)"

section \<open>File names of targets\<close>

definition is_filename_char :: "char \<Rightarrow> bool" where
  "is_filename_char c \<longleftrightarrow> is_ascii_alphanumeric c \<or> c \<in> {CHR ''-'', CHR ''_'', CHR ''.''}"

definition is_windows_reserved_name :: "string \<Rightarrow> bool" where
  "is_windows_reserved_name value =
     (let upper = to_ascii_uppercase (hd (split_on CHR ''.'' value))
      in upper \<in> {''CON'', ''PRN'', ''AUX'', ''NUL''} \<or>
         length upper = 4 \<and> (starts_with upper ''COM'' \<or> starts_with upper ''LPT'') \<and>
         is_ascii_digit (upper ! 3) \<and> upper ! 3 \<noteq> CHR ''0'')"

definition filename_char :: "string \<Rightarrow> char" where
  \<comment> \<open>the closure over the characters: what is not allowed becomes a dash\<close>
  "filename_char g = (case g of [c] \<Rightarrow> if is_filename_char c then c else CHR ''-'' | _ \<Rightarrow> CHR ''-'')"

definition trim_filename :: "string \<Rightarrow> string" where
  \<comment> \<open>\<open>trim_matches\<close> of dots and spaces\<close>
  "trim_filename s =
     (let drop = dropWhile (\<lambda>c. c \<in> {CHR ''.'', CHR '' ''}) in rev (drop (rev (drop s))))"

definition safe_filename_component :: "string \<Rightarrow> string" where
  "safe_filename_component value =
     (let safe = trim_filename (map filename_char (chars value));
          safe = (if safe = [] then ''target'' else safe)
      in if is_windows_reserved_name safe then safe @ ''-target'' else safe)"

section \<open>Writing\<close>

type_synonym files = "string \<rightharpoonup> string"

record file_faults =
  ff_create :: "string \<Rightarrow> string option" \<comment> \<open>an error of \<open>open\<close> other than an existing file\<close>
  ff_write :: "string \<Rightarrow> string option" \<comment> \<open>an error of writing or flushing\<close>

definition default_html_path_for_suffix :: "string \<Rightarrow> string \<Rightarrow> string \<Rightarrow> nat \<Rightarrow> string" where
  "default_html_path_for_suffix directory stem date suffix =
     (let suffix = (if suffix = 0 then [] else ''-'' @ show_nat (suffix + 1))
      in path_join directory (stem @ ''-'' @ date @ suffix @ ''.html''))"

definition write_default_at ::
    "file_faults \<Rightarrow> string \<Rightarrow> string \<Rightarrow> files \<Rightarrow> (app_error + string) \<times> files" where
  \<comment> \<open>one round of the loop once the file does not exist\<close>
  "write_default_at faults path rendered files =
     (case ff_create faults path of
        Some error \<Rightarrow>
          (Inl (app_error_new (''could not create '' @ [CHR 0x27] @ path @ [CHR 0x27] @ '': '' @ error)
             EXIT_SCAN_FAILED), files)
      | None \<Rightarrow>
          (case ff_write faults path of
             Some error \<Rightarrow>
               (Inl (app_error_new (''could not write '' @ [CHR 0x27] @ path @ [CHR 0x27] @ '': '' @ error)
                  EXIT_SCAN_FAILED), files(path := None))
           | None \<Rightarrow> (Inr path, files(path \<mapsto> rendered))))"

partial_function (option) write_default_from ::
    "file_faults \<Rightarrow> (nat \<Rightarrow> string) \<Rightarrow> nat \<Rightarrow> string \<Rightarrow> files \<Rightarrow> ((app_error + string) \<times> files) option" where
  \<comment> \<open>\<open>for suffix in 0..\<close>; not returning is \<open>None\<close>\<close>
  "write_default_from faults path_for suffix rendered files =
     (if path_for suffix \<in> dom files \<and> ff_create faults (path_for suffix) = None then
        write_default_from faults path_for (Suc suffix) rendered files
      else Some (write_default_at faults (path_for suffix) rendered files))"

definition write_default_html_file_at ::
    "file_faults \<Rightarrow> string \<Rightarrow> string \<Rightarrow> string \<Rightarrow> string \<Rightarrow> files \<Rightarrow> ((app_error + string) \<times> files) option" where
  "write_default_html_file_at faults directory stem date rendered files =
     write_default_from faults (default_html_path_for_suffix directory stem date) 0 rendered files"

section \<open>The default file\<close>

lemma path_join_append: "a \<noteq> [] \<Longrightarrow> path_join d (a @ b) = path_join d a @ b"
  by (cases a) (simp_all add: path_join_def starts_with_def)

lemma default_path_inj: "inj (default_html_path_for_suffix directory stem date)"
proof (rule injI)
  fix m n
  let ?suffix = "\<lambda>k. if k = 0 then [] else ''-'' @ show_nat (k + 1)"
  have path: "default_html_path_for_suffix directory stem date k =
      path_join directory (stem @ ''-'' @ date) @ ?suffix k @ ''.html''" for k
    using path_join_append [of "stem @ ''-'' @ date" directory "?suffix k @ ''.html''"]
    by (simp add: default_html_path_for_suffix_def Let_def)
  assume "default_html_path_for_suffix directory stem date m = default_html_path_for_suffix directory stem date n"
  then have "?suffix m = ?suffix n" unfolding path by simp
  then show "m = n" by (auto split: if_splits)
qed

lemma write_default_from_Suc:
  "path_for suffix \<in> dom files \<Longrightarrow> ff_create faults (path_for suffix) = None \<Longrightarrow>
   write_default_from faults path_for suffix rendered files =
   write_default_from faults path_for (Suc suffix) rendered files"
  by (subst write_default_from.simps) simp

lemma write_default_from_skip:
  assumes "\<And>i. suffix \<le> i \<Longrightarrow> i < n \<Longrightarrow> path_for i \<in> dom files \<and> ff_create faults (path_for i) = None"
    and "suffix \<le> n"
  shows "write_default_from faults path_for suffix rendered files =
    write_default_from faults path_for n rendered files"
  using assms
proof (induction "n - suffix" arbitrary: suffix)
  case (Suc k)
  then have "suffix < n" by simp
  with Suc have "write_default_from faults path_for suffix rendered files =
      write_default_from faults path_for (Suc suffix) rendered files"
    by (intro write_default_from_Suc) auto
  also have "\<dots> = write_default_from faults path_for n rendered files"
    using Suc \<open>suffix < n\<close> by (intro Suc.hyps) auto
  finally show ?case .
qed simp

lemma write_default_returns:
  assumes "finite (dom files)" and "inj path_for"
  shows "\<exists>n. write_default_from faults path_for 0 rendered files =
      Some (write_default_at faults (path_for n) rendered files) \<and>
    (path_for n \<notin> dom files \<or> ff_create faults (path_for n) \<noteq> None) \<and>
    (\<forall>i < n. path_for i \<in> dom files)"
proof -
  let ?stops = "\<lambda>n. \<not> (path_for n \<in> dom files \<and> ff_create faults (path_for n) = None)"
  have "infinite (range path_for)" using assms(2) by (simp add: finite_image_iff)
  then obtain m where "path_for m \<notin> dom files" using assms(1) by (metis finite_subset image_subsetI)
  then have ex: "?stops m" by simp
  define n where "n = (LEAST n. ?stops n)"
  have stops: "?stops n" unfolding n_def using ex by (rule LeastI)
  have before: "path_for i \<in> dom files \<and> ff_create faults (path_for i) = None" if "i < n" for i
    using not_less_Least [of i ?stops] that unfolding n_def by blast
  have "write_default_from faults path_for 0 rendered files = write_default_from faults path_for n rendered files"
    by (rule write_default_from_skip) (use before in auto)
  also have "\<dots> = Some (write_default_at faults (path_for n) rendered files)"
    using stops by (subst write_default_from.simps) auto
  finally show ?thesis using stops before by blast
qed

section \<open>Formats and names\<close>

lemma first_format_error_None:
  "first_format_error specs = None \<longleftrightarrow> (\<forall>spec \<in> set specs. os_format spec \<in> {Format_Json, Format_Html})"
proof (induction specs)
  case (Cons spec specs)
  then show ?case by (cases "os_format spec") (simp_all add: ensure_diff_output_format_def)
qed simp

lemma diff_formats:
  "build_output_specs paths Output_Diff = Inr specs \<Longrightarrow>
   spec \<in> set specs \<Longrightarrow> os_format spec \<in> {Format_Json, Format_Html}"
  by (auto simp: build_output_specs_def Let_def first_format_error_None split: option.splits)

lemma filename_char_allowed: "is_filename_char (filename_char g)"
  by (auto simp: filename_char_def is_filename_char_def split: list.split)

lemma set_trim_filename: "set (trim_filename s) \<subseteq> set s"
  by (auto simp: trim_filename_def Let_def simp del: insert_iff dest!: set_dropWhileD)

lemma safe_filename_chars:
  "list_all is_filename_char (safe_filename_component value) \<and> safe_filename_component value \<noteq> []"
proof -
  have "list_all is_filename_char (trim_filename (map filename_char (chars value)))"
    using set_trim_filename filename_char_allowed by (fastforce simp: list_all_iff)
  moreover have "list_all is_filename_char ''target''" "list_all is_filename_char ''-target''"
    by code_simp+
  ultimately show ?thesis by (simp add: safe_filename_component_def Let_def)
qed

lemma reserved_kept_by_suffix:
  \<comment> \<open>the suffix does not help a name whose reserved part is followed by a dot\<close>
  assumes "is_windows_reserved_name safe" and "CHR ''.'' \<in> set safe"
  shows "is_windows_reserved_name (safe @ ''-target'')"
proof -
  obtain p r where p: "safe = p @ CHR ''.'' # r" "CHR ''.'' \<notin> set p"
    using assms(2) split_list_first by metis
  then have "hd (split_on CHR ''.'' (safe @ ''-target'')) = hd (split_on CHR ''.'' safe)"
    by (simp add: split_on_append)
  with assms(1) show ?thesis by (simp add: is_windows_reserved_name_def)
qed

end
