(* ===== verification/Network_Prefix.thy ===== *)
theory Network_Prefix
  imports Net
begin

text \<open>
  Address arithmetic of the intelligence sources: the network prefixes of
  \<^verbatim>\<open>crates/surface-core/src/intelligence.rs\<close>, the public-destination policy of \<^verbatim>\<open>intelligence/http.rs\<close>, the
  choice of the longest prefix, and the bound on JSON nesting. A prefix keeps the address as it was
  written, its host bits included; the code masks both sides when it compares.
\<close>

unbundle bit_operations_syntax

section \<open>Prefixes\<close>

definition prefix_mask :: "nat \<Rightarrow> 'a::len word" where
  \<comment> \<open>\<open>if length == 0 { 0 } else { MAX << (bits - length) }\<close>\<close>
  "prefix_mask n = (if n = 0 then 0 else push_bit (LENGTH('a) - n) (- 1))"

record net_prefix =
  pfx_network :: ip_addr
  pfx_length :: nat

definition prefix_contains :: "net_prefix \<Rightarrow> ip_addr \<Rightarrow> bool" where
  "prefix_contains p address =
     (case (pfx_network p, address) of
        (V4 network, V4 address) \<Rightarrow>
          let m = prefix_mask (pfx_length p) in network AND m = address AND m
      | (V6 network, V6 address) \<Rightarrow>
          let m = prefix_mask (pfx_length p) in network AND m = address AND m
      | _ \<Rightarrow> False)"

definition canonical_prefix :: "net_prefix \<Rightarrow> string" where
  "canonical_prefix p =
     (case pfx_network p of
        V4 network \<Rightarrow> show_ipv4 (network AND prefix_mask (pfx_length p)) @ ''/'' @ show_nat (pfx_length p)
      | V6 network \<Rightarrow> show_ipv6 (network AND prefix_mask (pfx_length p)) @ ''/'' @ show_nat (pfx_length p))"

definition address_bits :: "ip_addr \<Rightarrow> nat" where
  "address_bits address = (if is_ipv4 address then 32 else 128)"

definition parse_prefix :: "string \<Rightarrow> string + net_prefix" where
  "parse_prefix value =
     (case split_once CHR ''/'' value of
        None \<Rightarrow> Inl ''network prefix is invalid''
      | Some (address, bits) \<Rightarrow>
          (case parse_ip address of
             None \<Rightarrow> Inl ''network prefix is invalid''
           | Some address \<Rightarrow>
               (case parse_uint 255 bits of
                  None \<Rightarrow> Inl ''network prefix is invalid''
                | Some bits \<Rightarrow>
                    if address_bits address < bits then Inl ''network prefix is invalid''
                    else Inr \<lparr>pfx_network = address, pfx_length = bits\<rparr>)))"

fun coherent_range :: "ip_addr \<Rightarrow> ip_addr \<Rightarrow> ip_addr \<Rightarrow> bool" where
  "coherent_range (V4 start) (V4 finish) (V4 address) \<longleftrightarrow> start \<le> address \<and> address \<le> finish"
| "coherent_range (V6 start) (V6 finish) (V6 address) \<longleftrightarrow> start \<le> address \<and> address \<le> finish"
| "coherent_range _ _ _ \<longleftrightarrow> False"

fun max_by_key :: "('a \<Rightarrow> 'k::linorder) \<Rightarrow> 'a list \<Rightarrow> 'a option" where
  \<comment> \<open>\<open>Iterator::max_by_key\<close>: of several maximal elements the last\<close>
  "max_by_key f [] = None"
| "max_by_key f (x # xs) =
     (case max_by_key f xs of None \<Rightarrow> Some x | Some y \<Rightarrow> if f x \<le> f y then Some y else Some x)"

section \<open>The public-destination policy\<close>

definition contains_word :: "'a::len word \<Rightarrow> 'a word \<Rightarrow> nat \<Rightarrow> bool" where
  \<comment> \<open>\<open>contains_v4\<close> and \<open>contains_v6\<close>\<close>
  "contains_word address network n =
     (let m = push_bit (LENGTH('a) - n) (- 1) in address AND m = network AND m)"

definition v4_addr :: "nat list \<Rightarrow> 32 word" where
  "v4_addr os = of_nat (be_value 256 os)"

definition v6_addr :: "nat list \<Rightarrow> 128 word" where
  "v6_addr gs = of_nat (be_value 65536 gs)"

definition v4_special :: "(nat list \<times> nat) list" where
  "v4_special =
     [([0, 0, 0, 0], 8), ([10, 0, 0, 0], 8), ([100, 64, 0, 0], 10), ([127, 0, 0, 0], 8),
      ([169, 254, 0, 0], 16), ([172, 16, 0, 0], 12), ([192, 0, 0, 0], 24), ([192, 0, 2, 0], 24),
      ([192, 31, 196, 0], 24), ([192, 52, 193, 0], 24), ([192, 88, 99, 0], 24), ([192, 168, 0, 0], 16),
      ([192, 175, 48, 0], 24), ([198, 18, 0, 0], 15), ([198, 51, 100, 0], 24), ([203, 0, 113, 0], 24),
      ([224, 0, 0, 0], 4), ([240, 0, 0, 0], 4)]"

definition ipv4_is_public :: "32 word \<Rightarrow> bool" where
  "ipv4_is_public address = (\<not> list_ex (\<lambda>(network, n). contains_word address (v4_addr network) n) v4_special)"

definition v6_special :: "(nat list \<times> nat) list" where
  "v6_special =
     [([0x2001, 0, 0, 0, 0, 0, 0, 0], 23), ([0x2001, 0x0db8, 0, 0, 0, 0, 0, 0], 32),
      ([0x2002, 0, 0, 0, 0, 0, 0, 0], 16), ([0x2620, 0x004f, 0x8000, 0, 0, 0, 0, 0], 48),
      ([0x3fff, 0, 0, 0, 0, 0, 0, 0], 20)]"

definition ipv6_is_public :: "128 word \<Rightarrow> bool" where
  "ipv6_is_public address \<longleftrightarrow>
     drop_bit 125 address = 1 \<and>
     \<not> list_ex (\<lambda>(network, n). contains_word address (v6_addr network) n) v6_special"

definition ipv6_is_nat64 :: "128 word \<Rightarrow> bool" where
  "ipv6_is_nat64 address \<longleftrightarrow>
     contains_word address (v6_addr [0x0064, 0xff9b, 0, 0, 0, 0, 0, 0]) 96 \<or>
     contains_word address (v6_addr [0x0064, 0xff9b, 1, 0, 0, 0, 0, 0]) 48"

definition is_ipv4_mapped :: "128 word \<Rightarrow> bool" where
  \<comment> \<open>\<open>to_ipv4_mapped().is_some()\<close>\<close>
  "is_ipv4_mapped address \<longleftrightarrow> take 6 (segments address) = [0, 0, 0, 0, 0, 0xffff]"

fun is_public_destination :: "ip_addr \<Rightarrow> bool" where
  "is_public_destination (V4 address) = ipv4_is_public address"
| "is_public_destination (V6 address) \<longleftrightarrow>
     \<not> is_ipv4_mapped address \<and> \<not> ipv6_is_nat64 address \<and> ipv6_is_public address"

section \<open>JSON nesting\<close>

definition MAX_JSON_DEPTH :: nat where
  "MAX_JSON_DEPTH = 32"

record json_scan =
  js_depth :: nat
  js_in_string :: bool
  js_escaped :: bool

definition json_scan_byte :: "json_scan \<Rightarrow> char \<Rightarrow> json_scan option" where
  \<comment> \<open>one round of the loop of \<open>validate_json_depth\<close>; \<open>None\<close> is its \<open>Err\<close>\<close>
  "json_scan_byte s c =
     (if js_in_string s then
        if js_escaped s then Some (s\<lparr>js_escaped := False\<rparr>)
        else if c = CHR 0x5C then Some (s\<lparr>js_escaped := True\<rparr>)
        else if c = CHR 0x22 then Some (s\<lparr>js_in_string := False\<rparr>)
        else Some s
      else if c = CHR 0x22 then Some (s\<lparr>js_in_string := True\<rparr>)
      else if c \<in> set ''{['' then
        (let d = js_depth s + 1 in if MAX_JSON_DEPTH < d then None else Some (s\<lparr>js_depth := d\<rparr>))
      else if c \<in> set ''}]'' then Some (s\<lparr>js_depth := js_depth s - 1\<rparr>)
      else Some s)"

fun json_scan_from :: "json_scan \<Rightarrow> bytes \<Rightarrow> unit option" where
  "json_scan_from s [] = Some ()"
| "json_scan_from s (c # cs) = (case json_scan_byte s c of None \<Rightarrow> None | Some s \<Rightarrow> json_scan_from s cs)"

definition validate_json_depth :: "bytes \<Rightarrow> unit option" where
  "validate_json_depth body = json_scan_from \<lparr>js_depth = 0, js_in_string = False, js_escaped = False\<rparr> body"

section \<open>Prefixes as intervals\<close>

lemma masked_eq_iff:
  fixes a b :: "'a::len word"
  shows "a AND push_bit k (- 1) = b AND push_bit k (- 1) \<longleftrightarrow> unat a div 2 ^ k = unat b div 2 ^ k"
proof -
  have "a AND push_bit k (- 1) = b AND push_bit k (- 1) \<longleftrightarrow> drop_bit k a = drop_bit k b"
  proof
    assume *: "a AND push_bit k (- 1) = b AND push_bit k (- 1)"
    show "drop_bit k a = drop_bit k b"
    proof (rule bit_eqI)
      fix n
      from * have "bit (a AND push_bit k (- 1)) (k + n) = bit (b AND push_bit k (- 1)) (k + n)" by simp
      then show "bit (drop_bit k a) n = bit (drop_bit k b) n"
        by (auto simp: bit_simps dest: bit_imp_le_length)
    qed
  next
    assume *: "drop_bit k a = drop_bit k b"
    show "a AND push_bit k (- 1) = b AND push_bit k (- 1)"
    proof (rule bit_eqI)
      fix n
      from * have "bit (drop_bit k a) (n - k) = bit (drop_bit k b) (n - k)" by simp
      then show "bit (a AND push_bit k (- 1)) n = bit (b AND push_bit k (- 1)) n"
        by (auto simp: bit_simps)
    qed
  qed
  also have "\<dots> \<longleftrightarrow> unat a div 2 ^ k = unat b div 2 ^ k"
    by (simp only: word_unat_eq_iff unat_drop_bit_eq drop_bit_eq_div [where 'a = nat])
  finally show ?thesis .
qed

lemma prefix_mask_eq_iff:
  fixes a b :: "'a::len word"
  shows "a AND prefix_mask n = b AND prefix_mask n \<longleftrightarrow>
    unat a div 2 ^ (LENGTH('a) - n) = unat b div 2 ^ (LENGTH('a) - n)"
proof (cases "n = 0")
  case True
  have "unat w div 2 ^ LENGTH('a) = 0" for w :: "'a word" by (rule div_less) (rule unsigned_less)
  with True show ?thesis by (simp add: prefix_mask_def)
next
  case False
  then show ?thesis unfolding prefix_mask_def by (simp only: if_False masked_eq_iff)
qed

lemma contains_word_iff:
  fixes a b :: "'a::len word"
  shows "contains_word a b n \<longleftrightarrow> unat a div 2 ^ (LENGTH('a) - n) = unat b div 2 ^ (LENGTH('a) - n)"
  unfolding contains_word_def Let_def masked_eq_iff ..

text \<open>The reference: the addresses of a prefix are an aligned block of consecutive numbers of its family.\<close>

fun addr_num :: "ip_addr \<Rightarrow> nat" where
  "addr_num (V4 a) = unat a"
| "addr_num (V6 a) = unat a"

definition block_size :: "net_prefix \<Rightarrow> nat" where
  "block_size p = 2 ^ (address_bits (pfx_network p) - pfx_length p)"

definition block_start :: "net_prefix \<Rightarrow> nat" where
  "block_start p = addr_num (pfx_network p) div block_size p * block_size p"

definition in_block :: "net_prefix \<Rightarrow> ip_addr \<Rightarrow> bool" where
  "in_block p a \<longleftrightarrow>
     is_ipv4 a = is_ipv4 (pfx_network p) \<and>
     block_start p \<le> addr_num a \<and> addr_num a < block_start p + block_size p"

lemma div_eq_interval: "0 < m \<Longrightarrow> y div m = x div m \<longleftrightarrow> y div m * m \<le> x \<and> x < y div m * m + m" for m :: nat
proof
  assume m: "0 < m" and *: "y div m = x div m"
  show "y div m * m \<le> x \<and> x < y div m * m + m"
    unfolding * using m by (metis div_times_less_eq_dividend dividend_less_div_times add.commute)
next
  assume m: "0 < m" and *: "y div m * m \<le> x \<and> x < y div m * m + m"
  then show "y div m = x div m"
    by (intro div_nat_eqI [symmetric]) (simp_all add: algebra_simps)
qed

lemma prefix_contains_in_block: "prefix_contains p a \<longleftrightarrow> in_block p a"
  by (cases "pfx_network p"; cases a)
    (simp_all add: prefix_contains_def in_block_def prefix_mask_eq_iff Let_def block_start_def block_size_def
      address_bits_def div_eq_interval)

lemma parse_prefix_bits: "parse_prefix v = Inr p \<Longrightarrow> pfx_length p \<le> address_bits (pfx_network p)"
  by (auto simp: parse_prefix_def split: option.splits prod.splits if_splits)

lemma max_by_key_None: "max_by_key f xs = None \<longleftrightarrow> xs = []"
  by (cases xs) (auto split: option.splits)

lemma max_by_key_Some:
  "max_by_key f xs = Some x \<Longrightarrow> x \<in> set xs \<and> (\<forall>y \<in> set xs. f y \<le> f x)"
proof (induction xs arbitrary: x)
  case (Cons z zs)
  then show ?case
    by (cases "max_by_key f zs") (fastforce simp: max_by_key_None split: if_splits)+
qed simp

lemma coherent_range_iff:
  "coherent_range a b c \<longleftrightarrow> is_ipv4 a = is_ipv4 c \<and> is_ipv4 b = is_ipv4 c \<and> a \<le> c \<and> c \<le> b"
  by (cases a; cases b; cases c) (auto simp: less_eq_ip_addr_def word_le_nat_alt)

section \<open>Public destinations\<close>

lemma contains_word_range:
  fixes a :: "'a::len word"
  assumes "lo < 2 ^ LENGTH('a)" and "lo mod 2 ^ (LENGTH('a) - n) = 0"
  shows "contains_word a (of_nat lo) n \<longleftrightarrow> lo \<le> unat a \<and> unat a \<le> lo + (2 ^ (LENGTH('a) - n) - 1)"
proof -
  let ?m = "2 ^ (LENGTH('a) - n) :: nat"
  have "unat (of_nat lo :: 'a word) = lo" using assms(1) by (simp add: unsigned_of_nat take_bit_nat_eq_self)
  moreover have "lo div ?m * ?m = lo" using assms(2) by (simp add: mod_eq_0_iff_dvd)
  moreover have "0 < ?m" by simp
  then have "unat a < lo + ?m \<longleftrightarrow> unat a \<le> lo + (?m - 1)" by linarith
  ultimately have "lo div ?m = unat a div ?m \<longleftrightarrow> lo \<le> unat a \<and> unat a \<le> lo + (?m - 1)"
    by (simp add: div_eq_interval)
  then show ?thesis using \<open>unat (of_nat lo) = lo\<close> by (auto simp: contains_word_iff)
qed

text \<open>The ranges as a reader of the registry writes them, first and last address.\<close>

definition v4_reserved :: "(nat list \<times> nat list) list" where
  "v4_reserved =
     [([0, 0, 0, 0], [0, 255, 255, 255]), ([10, 0, 0, 0], [10, 255, 255, 255]),
      ([100, 64, 0, 0], [100, 127, 255, 255]), ([127, 0, 0, 0], [127, 255, 255, 255]),
      ([169, 254, 0, 0], [169, 254, 255, 255]), ([172, 16, 0, 0], [172, 31, 255, 255]),
      ([192, 0, 0, 0], [192, 0, 0, 255]), ([192, 0, 2, 0], [192, 0, 2, 255]),
      ([192, 31, 196, 0], [192, 31, 196, 255]), ([192, 52, 193, 0], [192, 52, 193, 255]),
      ([192, 88, 99, 0], [192, 88, 99, 255]), ([192, 168, 0, 0], [192, 168, 255, 255]),
      ([192, 175, 48, 0], [192, 175, 48, 255]), ([198, 18, 0, 0], [198, 19, 255, 255]),
      ([198, 51, 100, 0], [198, 51, 100, 255]), ([203, 0, 113, 0], [203, 0, 113, 255]),
      ([224, 0, 0, 0], [239, 255, 255, 255]), ([240, 0, 0, 0], [255, 255, 255, 255])]"

definition v6_reserved :: "(nat list \<times> nat list) list" where
  \<comment> \<open>what is taken out of 2000::/3\<close>
  "v6_reserved =
     [([0x2001, 0, 0, 0, 0, 0, 0, 0], [0x2001, 0x01ff, 0xffff, 0xffff, 0xffff, 0xffff, 0xffff, 0xffff]),
      ([0x2001, 0x0db8, 0, 0, 0, 0, 0, 0], [0x2001, 0x0db8, 0xffff, 0xffff, 0xffff, 0xffff, 0xffff, 0xffff]),
      ([0x2002, 0, 0, 0, 0, 0, 0, 0], [0x2002, 0xffff, 0xffff, 0xffff, 0xffff, 0xffff, 0xffff, 0xffff]),
      ([0x2620, 0x4f, 0x8000, 0, 0, 0, 0, 0], [0x2620, 0x4f, 0x8000, 0xffff, 0xffff, 0xffff, 0xffff, 0xffff]),
      ([0x3fff, 0, 0, 0, 0, 0, 0, 0], [0x3fff, 0x0fff, 0xffff, 0xffff, 0xffff, 0xffff, 0xffff, 0xffff])]"

definition in_ranges :: "nat \<Rightarrow> (nat list \<times> nat list) list \<Rightarrow> nat \<Rightarrow> bool" where
  "in_ranges base ranges n = list_ex (\<lambda>(lo, hi). be_value base lo \<le> n \<and> n \<le> be_value base hi) ranges"

lemma contains_v4_range:
  "be_value 256 os < 2 ^ 32 \<Longrightarrow> be_value 256 os mod 2 ^ (32 - n) = 0 \<Longrightarrow>
   contains_word a (v4_addr os) n \<longleftrightarrow>
     be_value 256 os \<le> unat a \<and> unat a \<le> be_value 256 os + (2 ^ (32 - n) - 1)"
  using contains_word_range [of "be_value 256 os" n a] by (simp add: v4_addr_def)

lemma contains_v6_range:
  "be_value 65536 gs < 2 ^ 128 \<Longrightarrow> be_value 65536 gs mod 2 ^ (128 - n) = 0 \<Longrightarrow>
   contains_word a (v6_addr gs) n \<longleftrightarrow>
     be_value 65536 gs \<le> unat a \<and> unat a \<le> be_value 65536 gs + (2 ^ (128 - n) - 1)"
  using contains_word_range [of "be_value 65536 gs" n a] by (simp add: v6_addr_def)

definition same_ranges :: "nat \<Rightarrow> nat \<Rightarrow> (nat list \<times> nat) list \<Rightarrow> (nat list \<times> nat list) list \<Rightarrow> bool" where
  "same_ranges base bits special reserved =
     list_all2 (\<lambda>(network, n) (lo, hi). be_value base network < 2 ^ bits \<and>
         be_value base network mod 2 ^ (bits - n) = 0 \<and> network = lo \<and>
         be_value base hi = be_value base lo + (2 ^ (bits - n) - 1)) special reserved"

lemma v4_special_ranges:
  assumes "same_ranges 256 32 special reserved"
  shows "list_ex (\<lambda>(network, n). contains_word a (v4_addr network) n) special \<longleftrightarrow> in_ranges 256 reserved (unat a)"
  using assms unfolding same_ranges_def in_ranges_def
  by (induction rule: list_all2_induct) (auto simp: contains_v4_range)

lemma v6_special_ranges:
  assumes "same_ranges 65536 128 special reserved"
  shows "list_ex (\<lambda>(network, n). contains_word a (v6_addr network) n) special \<longleftrightarrow> in_ranges 65536 reserved (unat a)"
  using assms unfolding same_ranges_def in_ranges_def
  by (induction rule: list_all2_induct) (auto simp: contains_v6_range)

lemma ipv4_is_public_iff: "ipv4_is_public a \<longleftrightarrow> \<not> in_ranges 256 v4_reserved (unat a)"
proof -
  have "same_ranges 256 32 v4_special v4_reserved" by code_simp
  then show ?thesis by (simp add: ipv4_is_public_def v4_special_ranges)
qed

lemma ipv6_is_public_iff:
  "ipv6_is_public a \<longleftrightarrow> 2 ^ 125 \<le> unat a \<and> unat a < 2 ^ 126 \<and> \<not> in_ranges 65536 v6_reserved (unat a)"
proof -
  have "drop_bit 125 a = 1 \<longleftrightarrow> unat a div 2 ^ 125 = 1"
    by (simp only: word_unat_eq_iff unat_drop_bit_eq drop_bit_eq_div [where 'a = nat] unsigned_1)
  also have "\<dots> \<longleftrightarrow> 2 ^ 125 \<le> unat a \<and> unat a < 2 ^ 126"
    using div_eq_interval [of "2 ^ 125" "2 ^ 125" "unat a"] by (simp add: eq_commute)
  finally have unicast: "drop_bit 125 a = 1 \<longleftrightarrow> 2 ^ 125 \<le> unat a \<and> unat a < 2 ^ 126" .
  have "same_ranges 65536 128 v6_special v6_reserved" by code_simp
  then show ?thesis unfolding ipv6_is_public_def unicast by (simp add: v6_special_ranges)
qed

lemma mapped_small: "is_ipv4_mapped a \<Longrightarrow> unat a < 2 ^ 112"
proof -
  assume "is_ipv4_mapped a"
  then have "unat a div 65536 ^ 7 mod 65536 = 0" by (simp add: is_ipv4_mapped_def segments_def)
  moreover have "unat a < 65536 ^ 7 * 65536" using unsigned_less [of a] by simp
  then have "unat a div 65536 ^ 7 < 65536" by (simp only: div_less_iff_less_mult)
  ultimately have "unat a div 65536 ^ 7 = 0" by simp
  then show ?thesis by (simp add: div_eq_0_iff)
qed

lemma nat64_small: "ipv6_is_nat64 a \<Longrightarrow> unat a < 2 ^ 125"
  by (auto simp: ipv6_is_nat64_def contains_v6_range be_value_def)

lemma is_public_destination_iff:
  "is_public_destination address \<longleftrightarrow>
     (case address of
        V4 a \<Rightarrow> \<not> in_ranges 256 v4_reserved (unat a)
      | V6 a \<Rightarrow> 2 ^ 125 \<le> unat a \<and> unat a < 2 ^ 126 \<and> \<not> in_ranges 65536 v6_reserved (unat a))"
proof (cases address)
  case (V6 a)
  have "(2::nat) ^ 112 \<le> 2 ^ 125" by simp
  then have "\<not> is_ipv4_mapped a \<and> \<not> ipv6_is_nat64 a" if "2 ^ 125 \<le> unat a"
    using that mapped_small [of a] nat64_small [of a] by (meson leD le_trans)
  then show ?thesis by (auto simp: V6 ipv6_is_public_iff)
qed (simp add: ipv4_is_public_iff)

section \<open>Nesting of balanced text\<close>

text \<open>
  The reference for the nesting check: text balanced in brackets outside string literals, with its depth.
  Every JSON text is such text.
\<close>

fun string_body :: "string \<Rightarrow> bool" where
  \<comment> \<open>what may stand between two quotes: no bare quote, every backslash escapes a character\<close>
  "string_body [] = True"
| "string_body (c # cs) =
     (if c = CHR 0x22 then False
      else if c = CHR 0x5C then (case cs of [] \<Rightarrow> False | _ # r \<Rightarrow> string_body r)
      else string_body cs)"

inductive balanced :: "nat \<Rightarrow> string \<Rightarrow> bool" where
  balanced_Nil: "balanced 0 []"
| balanced_plain: "c \<notin> set ''{}[]'' \<Longrightarrow> c \<noteq> CHR 0x22 \<Longrightarrow> balanced d s \<Longrightarrow> balanced d (c # s)"
| balanced_string: "string_body b \<Longrightarrow> balanced d s \<Longrightarrow> balanced d (CHR 0x22 # b @ CHR 0x22 # s)"
| balanced_bracket:
    "(l, r) \<in> {(CHR ''{'', CHR ''}''), (CHR ''['', CHR '']'')} \<Longrightarrow> balanced d s \<Longrightarrow> balanced e t \<Longrightarrow>
     balanced (max (Suc d) e) (l # s @ r # t)"

abbreviation between :: "nat \<Rightarrow> json_scan" where
  "between k \<equiv> \<lparr>js_depth = k, js_in_string = False, js_escaped = False\<rparr>"

lemma scan_string:
  "string_body b \<Longrightarrow>
   json_scan_from \<lparr>js_depth = k, js_in_string = True, js_escaped = False\<rparr> (b @ CHR 0x22 # s) =
   json_scan_from (between k) s"
  by (induction b rule: string_body.induct) (auto simp: json_scan_byte_def split: if_splits list.splits)

lemma scan_balanced:
  assumes "balanced d s" and "k \<le> MAX_JSON_DEPTH"
  shows "json_scan_from (between k) (s @ rest) =
    (if k + d \<le> MAX_JSON_DEPTH then json_scan_from (between k) rest else None)"
  using assms
proof (induction arbitrary: k rest)
  case (balanced_bracket l r d s e t)
  show ?case
  proof (cases "k < MAX_JSON_DEPTH")
    case True
    have l: "json_scan_byte (between k) l = Some (between (Suc k))"
      and r: "json_scan_byte (between (Suc k)) r = Some (between k)"
      using balanced_bracket.hyps(1) True by (auto simp: json_scan_byte_def)
    have "json_scan_from (between k) (l # s @ r # t @ rest) =
        (if Suc k + d \<le> MAX_JSON_DEPTH then json_scan_from (between (Suc k)) (r # t @ rest) else None)"
      using balanced_bracket.IH(1) [of "Suc k" "r # t @ rest"] True by (simp add: l)
    also have "json_scan_from (between (Suc k)) (r # t @ rest) =
        (if k + e \<le> MAX_JSON_DEPTH then json_scan_from (between k) rest else None)"
      using balanced_bracket.IH(2) [of k rest] balanced_bracket.prems by (simp add: r)
    finally show ?thesis by (auto simp: max_def)
  next
    case False
    with balanced_bracket show ?thesis by (auto simp: json_scan_byte_def)
  qed
qed (auto simp: json_scan_byte_def scan_string)

lemma validate_json_depth_iff:
  "balanced d s \<Longrightarrow> validate_json_depth s = Some () \<longleftrightarrow> d \<le> MAX_JSON_DEPTH"
  using scan_balanced [of d s 0 "[]"] by (simp add: validate_json_depth_def)

end
