(* ===== verification/Intel_Http.thy ===== *)
theory Intel_Http
  imports Network_Prefix
begin

text \<open>
  The destination-pinned HTTP reads under the intelligence sources,
  \<^verbatim>\<open>crates/surface-core/src/intelligence/http.rs\<close>, with the production policy (the fixture policy exists in
  test builds only). The URL crate, the resolver, the client builder and the response stream are arguments;
  a \<open>select!\<close> over cancellation, deadline and timeout is a datatype of its branches.

  The locale \<open>client_source\<close> is what the sources rely on: whatever clients they obtain are safe, as long as
  they start from a cache of safe clients.
\<close>

section \<open>Model\<close>

datatype fetch_error =
    Fetch_Cancelled | Fetch_Deadline | Fetch_Timeout | Fetch_Resolution | Fetch_Destination
  | Fetch_Request | Fetch_Http u16 | Fetch_TooLarge

definition MAX_DNS_ADDRESSES :: nat where
  "MAX_DNS_ADDRESSES = 8"

record pinned_client =
  \<comment> \<open>what \<open>build_client\<close> gives the builder: HTTPS only, no redirects and no proxy are fixed\<close>
  pc_hostname :: string
  pc_addresses :: "socket_addr list"
  pc_timeout :: nat

record pinned_clients =
  pcs_request_timeout :: nat
  pcs_clients :: "(string \<times> pinned_client) list"

definition new_clients :: "nat \<Rightarrow> pinned_clients" where
  "new_clients request_timeout = \<lparr>pcs_request_timeout = request_timeout, pcs_clients = []\<rparr>"

datatype resolution =
    Res_Cancelled | Res_Deadline | Res_Timeout | Res_Failed | Res_Addresses "socket_addr list"

record http_response_stream =
  hrs_success :: bool
  hrs_status :: u16
  hrs_chunks :: "(bool + bytes) list" \<comment> \<open>an error carries whether it is a timeout\<close>

datatype fetch_poll =
    Poll_Cancelled | Poll_Deadline | Poll_Timeout
  | Poll_Sent "bool + http_response_stream" \<comment> \<open>the outcome of \<open>send\<close>\<close>

record 'u intel_urls =
  \<comment> \<open>the operations of \<open>Url\<close> the sources call\<close>
  iu_parse :: "string \<Rightarrow> 'u option"
  iu_scheme :: "'u \<Rightarrow> string"
  iu_username :: "'u \<Rightarrow> string"
  iu_password :: "'u \<Rightarrow> string option"
  iu_host_str :: "'u \<Rightarrow> string option"
  iu_port :: "'u \<Rightarrow> u16 option"
  iu_path :: "'u \<Rightarrow> string"
  iu_query :: "'u \<Rightarrow> string option"
  iu_fragment :: "'u \<Rightarrow> string option"
  iu_query_pairs :: "'u \<Rightarrow> (string \<times> string) list"
  iu_push_segments :: "'u \<Rightarrow> string list \<Rightarrow> 'u option" \<comment> \<open>\<open>path_segments_mut\<close>, \<open>pop_if_empty\<close>, \<open>push\<close> each\<close>
  iu_append_pairs :: "'u \<Rightarrow> (string \<times> string) list \<Rightarrow> 'u" \<comment> \<open>\<open>query_pairs_mut\<close>, \<open>append_pair\<close> each\<close>

record 'u intel_net =
  in_urls :: "'u intel_urls"
  in_resolve :: "'u \<Rightarrow> resolution"
  in_builds :: "pinned_client \<Rightarrow> bool"
  in_get :: "pinned_client \<Rightarrow> 'u \<Rightarrow> string option \<Rightarrow> fetch_poll"

definition validated_destinations :: "socket_addr list \<Rightarrow> fetch_error + socket_addr list" where
  "validated_destinations addresses =
     (let ips = btree_set (map sa_ip addresses)
      in if ips = [] \<or> MAX_DNS_ADDRESSES < length ips then Inl Fetch_Resolution
         else if list_ex (\<lambda>ip. \<not> is_public_destination ip) ips then Inl Fetch_Destination
         else Inr (map (\<lambda>ip. SocketAddr ip 0) ips))"

definition build_client ::
    "'u intel_net \<Rightarrow> string \<Rightarrow> socket_addr list \<Rightarrow> nat \<Rightarrow> fetch_error + pinned_client" where
  "build_client net hostname addresses request_timeout =
     (let client = \<lparr>pc_hostname = hostname, pc_addresses = addresses, pc_timeout = request_timeout\<rparr>
      in if in_builds net client then Inr client else Inl Fetch_Request)"

definition client_for ::
    "'u intel_net \<Rightarrow> 'u \<Rightarrow> pinned_clients \<Rightarrow> (fetch_error + pinned_client) \<times> pinned_clients" where
  "client_for net url cs =
     (case iu_host_str (in_urls net) url of
        None \<Rightarrow> (Inl Fetch_Request, cs)
      | Some hostname \<Rightarrow>
          (case map_of (pcs_clients cs) hostname of
             Some client \<Rightarrow> (Inr client, cs)
           | None \<Rightarrow>
               (case in_resolve net url of
                  Res_Cancelled \<Rightarrow> (Inl Fetch_Cancelled, cs)
                | Res_Deadline \<Rightarrow> (Inl Fetch_Deadline, cs)
                | Res_Timeout \<Rightarrow> (Inl Fetch_Timeout, cs)
                | Res_Failed \<Rightarrow> (Inl Fetch_Resolution, cs)
                | Res_Addresses addresses \<Rightarrow>
                    (case validated_destinations addresses of
                       Inl e \<Rightarrow> (Inl e, cs)
                     | Inr addresses \<Rightarrow>
                         (case build_client net hostname addresses (pcs_request_timeout cs) of
                            Inl e \<Rightarrow> (Inl e, cs)
                          | Inr client \<Rightarrow>
                              (Inr client, cs\<lparr>pcs_clients := btm_insert hostname client (pcs_clients cs)\<rparr>))))))"

fun collect_chunks :: "nat \<Rightarrow> bytes \<Rightarrow> (bool + bytes) list \<Rightarrow> fetch_error + bytes" where
  \<comment> \<open>the \<open>while\<close> loop over the body stream\<close>
  "collect_chunks maximum body [] = Inr body"
| "collect_chunks maximum body (Inl timed_out # chunks) =
     Inl (if timed_out then Fetch_Timeout else Fetch_Request)"
| "collect_chunks maximum body (Inr chunk # chunks) =
     (if maximum < length body + length chunk then Inl Fetch_TooLarge
      else collect_chunks maximum (body @ chunk) chunks)"

definition get_bounded_with_bearer ::
    "'u intel_net \<Rightarrow> pinned_client \<Rightarrow> 'u \<Rightarrow> nat \<Rightarrow> string option \<Rightarrow> fetch_error + bytes" where
  "get_bounded_with_bearer net client url maximum_bytes bearer =
     (let bearer = (case bearer of Some b \<Rightarrow> if trim b \<noteq> [] then Some b else None | None \<Rightarrow> None)
      in case in_get net client url bearer of
           Poll_Cancelled \<Rightarrow> Inl Fetch_Cancelled
         | Poll_Deadline \<Rightarrow> Inl Fetch_Deadline
         | Poll_Timeout \<Rightarrow> Inl Fetch_Timeout
         | Poll_Sent (Inl timed_out) \<Rightarrow> Inl (if timed_out then Fetch_Timeout else Fetch_Request)
         | Poll_Sent (Inr response) \<Rightarrow>
             if \<not> hrs_success response then Inl (Fetch_Http (hrs_status response))
             else collect_chunks maximum_bytes [] (hrs_chunks response))"

definition get_bounded :: "'u intel_net \<Rightarrow> pinned_client \<Rightarrow> 'u \<Rightarrow> nat \<Rightarrow> fetch_error + bytes" where
  "get_bounded net client url maximum_bytes = get_bounded_with_bearer net client url maximum_bytes None"

section \<open>The contract of a source of clients\<close>

locale client_source =
  fixes obtain_client :: "'u \<Rightarrow> 's \<Rightarrow> ('e + 'c) \<times> 's"
    and safe :: "'c \<Rightarrow> bool"
    and safe_cache :: "'s \<Rightarrow> bool"
  assumes obtain_keeps: "safe_cache s \<Longrightarrow> safe_cache (snd (obtain_client u s))"
    and obtain_safe: "safe_cache s \<Longrightarrow> fst (obtain_client u s) = Inr c \<Longrightarrow> safe c"
begin

lemma obtained:
  "safe_cache s \<Longrightarrow> obtain_client u s = (r, s') \<Longrightarrow> safe_cache s' \<and> (\<forall>c. r = Inr c \<longrightarrow> safe c)"
  using obtain_keeps [of s u] obtain_safe [of s u] by simp

end

section \<open>Clients are pinned to public addresses\<close>

definition publicly_pinned :: "pinned_client \<Rightarrow> bool" where
  "publicly_pinned c \<longleftrightarrow>
     pc_addresses c \<noteq> [] \<and> length (pc_addresses c) \<le> MAX_DNS_ADDRESSES \<and>
     (\<forall>a \<in> set (pc_addresses c). is_public_destination (sa_ip a))"

definition pinned_cache :: "pinned_clients \<Rightarrow> bool" where
  "pinned_cache cs \<longleftrightarrow>
     btm_wf (pcs_clients cs) \<and>
     (\<forall>(hostname, c) \<in> set (pcs_clients cs). publicly_pinned c \<and> pc_hostname c = hostname)"

lemma new_clients_pinned [simp]: "pinned_cache (new_clients t)"
  by (simp add: pinned_cache_def new_clients_def btm_wf_def)

lemma validated_destinations_public:
  "validated_destinations addresses = Inr validated \<Longrightarrow>
   validated \<noteq> [] \<and> length validated \<le> MAX_DNS_ADDRESSES \<and>
   sa_ip ` set validated = sa_ip ` set addresses \<and> (\<forall>a \<in> set validated. is_public_destination (sa_ip a))"
  by (force simp: validated_destinations_def Let_def list_ex_iff image_image split: if_splits)

lemma client_for_new:
  assumes "client_for net url cs = (Inr c, cs')" and "iu_host_str (in_urls net) url = Some hostname"
    and "map_of (pcs_clients cs) hostname = None"
  shows "publicly_pinned c \<and> pc_hostname c = hostname \<and>
    cs' = cs\<lparr>pcs_clients := btm_insert hostname c (pcs_clients cs)\<rparr>"
  using assms
  by (auto simp: client_for_def build_client_def publicly_pinned_def Let_def
    dest!: validated_destinations_public split: resolution.splits sum.splits if_splits)

lemma client_for_failed: "client_for net url cs = (Inl e, cs') \<Longrightarrow> cs' = cs"
  by (auto simp: client_for_def split: option.splits resolution.splits sum.splits)

lemma client_for_pinned:
  assumes cache: "pinned_cache cs" and eq: "client_for net url cs = (r, cs')"
  shows "pinned_cache cs' \<and> (\<forall>c. r = Inr c \<longrightarrow> publicly_pinned c \<and> iu_host_str (in_urls net) url = Some (pc_hostname c))"
proof (cases r)
  case (Inl e)
  with eq have "cs' = cs" by (auto intro: client_for_failed)
  with cache Inl show ?thesis by simp
next
  case (Inr c)
  then obtain hostname where host: "iu_host_str (in_urls net) url = Some hostname"
    using eq by (cases "iu_host_str (in_urls net) url") (simp_all add: client_for_def)
  show ?thesis
  proof (cases "map_of (pcs_clients cs) hostname")
    case None
    have new: "publicly_pinned c \<and> pc_hostname c = hostname \<and>
        cs' = cs\<lparr>pcs_clients := btm_insert hostname c (pcs_clients cs)\<rparr>"
      using client_for_new [OF _ host None] eq Inr by blast
    have "set (btm_insert hostname c m) \<subseteq> insert (hostname, c) (set m)" for m
      by (induction hostname c m rule: btm_insert.induct) auto
    with new cache show ?thesis
      by (fastforce simp: pinned_cache_def btm_wf_insert Inr host)
  next
    case (Some c')
    with eq host Inr have "c' = c" "cs' = cs" by (simp_all add: client_for_def)
    with Some cache show ?thesis
      using map_of_SomeD [OF Some] by (auto simp: pinned_cache_def Inr host)
  qed
qed

interpretation pinned: client_source "client_for net" publicly_pinned pinned_cache
  for net :: "'u intel_net"
  by unfold_locales (metis client_for_pinned prod.collapse)+

section \<open>Bodies are bounded\<close>

lemma collect_chunks_bounded:
  "collect_chunks maximum body chunks = Inr result \<Longrightarrow> length body \<le> maximum \<Longrightarrow> length result \<le> maximum"
  by (induction maximum body chunks rule: collect_chunks.induct) (auto split: if_splits)

lemma collect_chunks_exact:
  "collect_chunks maximum body chunks = Inr result \<Longrightarrow>
   \<exists>parts. chunks = map Inr parts \<and> result = body @ concat parts"
proof (induction maximum body chunks arbitrary: result rule: collect_chunks.induct)
  case (3 maximum body chunk chunks)
  then obtain parts where "chunks = map Inr parts" "result = (body @ chunk) @ concat parts"
    by (auto split: if_splits)
  then show ?case by (intro exI [of _ "chunk # parts"]) simp
qed auto

lemma get_bounded_length:
  "get_bounded_with_bearer net client url maximum bearer = Inr body \<Longrightarrow> length body \<le> maximum"
  by (auto simp: get_bounded_with_bearer_def Let_def
    dest: collect_chunks_bounded split: fetch_poll.splits sum.splits if_splits)

end
