(* ===== verification/Intel_Evidence.thy ===== *)
theory Intel_Evidence
  imports Report Intel_Http Keyed_Stage
begin

text \<open>
  What the two address-keyed intelligence sources share (\<^verbatim>\<open>crates/surface-core/src/intelligence.rs\<close>): the
  addresses that may be asked about, the skip record that is overwritten rather than repeated, and the
  contract of the function that writes a source's evidence into the report. The contract is the locale
  \<open>evidence_writer\<close>; \<^verbatim>\<open>Rdap\<close> and \<^verbatim>\<open>Bgp\<close> interpret it with their own writers.
\<close>

section \<open>Model\<close>

definition set_insert :: "'a::linorder \<Rightarrow> 'a list \<Rightarrow> 'a list" where
  \<comment> \<open>\<open>BTreeSet::insert\<close>\<close>
  "set_insert x s = btree_set (x # s)"

fun dedup_by_key :: "('a \<Rightarrow> 'k) \<Rightarrow> 'a list \<Rightarrow> 'a list" where
  \<comment> \<open>\<open>Vec::dedup_by_key\<close>: of consecutive elements with the same key the first stays\<close>
  "dedup_by_key f (x # y # xs) =
     (if f x = f y then dedup_by_key f (x # xs) else x # dedup_by_key f (y # xs))"
| "dedup_by_key f xs = xs"

definition eligible_primary_addresses :: "scan_report \<Rightarrow> nat \<Rightarrow> ip_addr list \<times> bool" where
  "eligible_primary_addresses report maximum =
     (let hosts = (case rep_dns report of Some dns \<Rightarrow> dns_resolved_hosts dns | None \<Rightarrow> []);
          addresses = btree_set (filter is_public_destination (map rh_ip hosts))
      in (take maximum addresses, maximum < length addresses))"

fun overwrite_reason :: "string \<Rightarrow> string \<Rightarrow> skipped_check list \<Rightarrow> skipped_check list" where
  \<comment> \<open>\<open>iter_mut().find(..)\<close> and the assignment to what it found\<close>
  "overwrite_reason check reason [] = []"
| "overwrite_reason check reason (s # ss) =
     (if skip_check s = check then s\<lparr>skip_reason := reason\<rparr> # ss
      else s # overwrite_reason check reason ss)"

definition replace_skip :: "string \<Rightarrow> string \<Rightarrow> scan_report \<Rightarrow> scan_report" where
  "replace_skip check reason report =
     (if list_ex (\<lambda>s. skip_check s = check) (rep_skipped_checks report) then
        report\<lparr>rep_skipped_checks := overwrite_reason check reason (rep_skipped_checks report)\<rparr>
      else report\<lparr>rep_skipped_checks :=
        push (rep_skipped_checks report) \<lparr>skip_check = check, skip_reason = reason\<rparr>\<rparr>)"

definition empty_intelligence :: intelligence_observation where
  \<comment> \<open>\<open>IntelligenceObservation { complete: true, ..default() }\<close>\<close>
  "empty_intelligence =
     \<lparr>int_subdomains = [], int_dkim = [], int_networks = [], int_cve_candidates = [],
      int_bundle_version = None, int_related_domains = None, int_certificate_transparency = None,
      int_network_registrations = [], int_bgp_routes = [], int_complete = True, int_errors = []\<rparr>"

definition intelligence_of :: "scan_report \<Rightarrow> intelligence_observation" where
  \<comment> \<open>\<open>report.intelligence.get_or_insert_with(..)\<close>\<close>
  "intelligence_of report = (case rep_intelligence report of Some i \<Rightarrow> i | None \<Rightarrow> empty_intelligence)"

definition mark_intelligence_partial :: "scan_report \<Rightarrow> scan_report" where
  \<comment> \<open>\<open>mark_bgp_partial\<close>, \<open>mark_network_registration_partial\<close> and \<open>mark_intelligence_partial\<close> are the same code\<close>
  "mark_intelligence_partial report =
     (if rep_status report = Completed then
        report\<lparr>rep_status := Partial, rep_message := ''Scan completed with incomplete intelligence.''\<rparr>
      else report)"

definition mark_intelligence_interrupted :: "scan_report \<Rightarrow> scan_report" where
  \<comment> \<open>the branch \<open>Some(Cancelled)\<close> of the two writers\<close>
  "mark_intelligence_interrupted report =
     (if rep_status report \<noteq> Failed then
        report\<lparr>rep_status := Interrupted, rep_message := ''Scan interrupted.''\<rparr>
      else report)"

section \<open>Lemmas on lists\<close>

lemma set_set_insert [simp]: "set (set_insert x s) = insert x (set s)"
  by (simp add: set_insert_def)

lemma set_insert_nonempty [simp]: "set_insert x s \<noteq> []"
  by (simp add: set_insert_def)

lemma set_insert_commute: "set_insert x (set_insert y s) = set_insert y (set_insert x s)"
  by (auto simp: set_insert_def btree_set_eq_iff)

lemma sort_key_again [simp]: "sort_key f (sort_key f xs) = sort_key f xs"
  by (rule sort_key_id_if_sorted) simp

lemma sort_key_Nil_iff [simp]: "sort_key f xs = [] \<longleftrightarrow> xs = []"
  by (metis set_empty set_sort)

lemma dedup_by_key_hd: "xs \<noteq> [] \<Longrightarrow> dedup_by_key f xs \<noteq> [] \<and> hd (dedup_by_key f xs) = hd xs"
  by (induction f xs rule: dedup_by_key.induct) auto

lemma dedup_by_key_subset: "set (dedup_by_key f xs) \<subseteq> set xs"
  by (induction f xs rule: dedup_by_key.induct) auto

lemma dedup_by_key_keys: "f ` set (dedup_by_key f xs) = f ` set xs"
  by (induction f xs rule: dedup_by_key.induct) auto

lemma dedup_by_key_sorted:
  "sorted (map f xs) \<Longrightarrow> sorted_wrt (<) (map f (dedup_by_key f xs))" for f :: "'a \<Rightarrow> 'k::linorder"
proof (induction f xs rule: dedup_by_key.induct)
  case (1 f x y xs)
  show ?case
  proof (cases "f x = f y")
    case False
    with 1 have IH: "sorted_wrt (<) (map f (dedup_by_key f (y # xs)))" by simp
    have "f x < f z" if "z \<in> set (dedup_by_key f (y # xs))" for z
    proof -
      from that have "z \<in> set (y # xs)" by (rule subsetD [OF dedup_by_key_subset])
      then have "f y \<le> f z" using 1(3) by auto
      moreover have "f x < f y" using 1(3) False by auto
      ultimately show ?thesis by simp
    qed
    with IH False show ?thesis by simp
  qed (use 1 in simp)
qed simp_all

lemma sorted_wrt_less_distinct: "sorted_wrt (<) (map f xs) \<Longrightarrow> distinct (map f xs)"
  for f :: "'a \<Rightarrow> 'k::linorder"
  by (simp add: strict_sorted_iff)

lemma dedup_by_key_distinct: "distinct (map f xs) \<Longrightarrow> dedup_by_key f xs = xs"
  by (induction f xs rule: dedup_by_key.induct) auto

lemma eligible_addresses:
  assumes "eligible_primary_addresses report maximum = (addresses, truncated)"
  shows "distinct addresses \<and> sorted addresses \<and> length addresses \<le> maximum \<and>
    (\<forall>a \<in> set addresses. is_public_destination a \<and>
      (\<exists>dns. rep_dns report = Some dns \<and> a \<in> rh_ip ` set (dns_resolved_hosts dns)))"
  using assms
  by (auto simp: eligible_primary_addresses_def Let_def sorted_wrt_take dest!: in_set_takeD split: option.splits)

section \<open>The contract of a writer\<close>

definition evidence_in :: "(intelligence_observation \<Rightarrow> 'o list) \<Rightarrow> scan_report \<Rightarrow> 'o list" where
  "evidence_in evidence report = (case rep_intelligence report of Some i \<Rightarrow> evidence i | None \<Rightarrow> [])"

definition intelligence_complete :: "scan_report \<Rightarrow> bool" where
  "intelligence_complete report = (case rep_intelligence report of Some i \<Rightarrow> int_complete i | None \<Rightarrow> True)"

definition completion_honest :: "scan_report \<Rightarrow> bool" where
  \<comment> \<open>a report that has left \<open>NotStarted\<close> and, with incomplete intelligence, is not \<open>Completed\<close>\<close>
  "completion_honest report \<longleftrightarrow>
     rep_status report \<noteq> NotStarted \<and> (rep_status report = Completed \<longrightarrow> intelligence_complete report)"

locale evidence_writer =
  fixes finish :: "scan_report \<Rightarrow> 'o list \<Rightarrow> string list \<Rightarrow> 's option \<Rightarrow> scan_report"
    and evidence :: "intelligence_observation \<Rightarrow> 'o list"
    and key :: "'o \<Rightarrow> ip_addr"
    and cancelled :: 's
  assumes finish_sorted: "finish r (sort_key key obs) fs stop = finish r obs fs stop"
    and finish_evidence: "evidence_in evidence (finish r obs fs stop) =
      (if obs = [] \<and> fs = [] \<and> stop = None then evidence_in evidence r
       else dedup_by_key key (sort_key key (evidence_in evidence r @ sort_key key obs)))"
    and finish_complete: "intelligence_complete (finish r obs fs stop) \<longleftrightarrow>
      intelligence_complete r \<and> fs = [] \<and> stop = None"
    and finish_status: "rep_status (finish r obs fs stop) =
      (if stop = Some cancelled then (if rep_status r \<noteq> Failed then Interrupted else Failed)
       else if stop = None \<and> fs = [] then rep_status r
       else if rep_status r = Completed then Partial else rep_status r)"
begin

lemma finish_perm:
  assumes "mset obs = mset obs'" and "distinct (map key obs)"
  shows "finish r obs fs stop = finish r obs' fs stop"
proof -
  have "sort_key key obs = sort_key key obs'"
    using assms by (intro sort_key_perm) (simp_all add: distinct_map)
  then show ?thesis using finish_sorted [of r obs] finish_sorted [of r obs'] by simp
qed

lemma finish_honest: "completion_honest r \<Longrightarrow> completion_honest (finish r obs fs stop)"
  by (auto simp: completion_honest_def finish_complete finish_status split: if_splits)

lemma finish_keys:
  "key ` set (evidence_in evidence (finish r obs fs stop)) = key ` set (evidence_in evidence r) \<union> key ` set obs"
  by (auto simp: finish_evidence dedup_by_key_keys)

lemma finish_canonical:
  "sorted_wrt (<) (map key (evidence_in evidence r)) \<Longrightarrow>
   sorted_wrt (<) (map key (evidence_in evidence (finish r obs fs stop)))"
  by (simp add: finish_evidence dedup_by_key_sorted)

lemma finish_members:
  "o' \<in> set (evidence_in evidence (finish r obs fs stop)) \<Longrightarrow>
   o' \<in> set (evidence_in evidence r) \<or> o' \<in> set obs"
  by (auto simp: finish_evidence dest!: subsetD [OF dedup_by_key_subset] split: if_splits)

end

text \<open>
  The loops over completed lookups share a shape: an arrival adds at most the observation it carries, and
  the loop goes on or stops.
\<close>

locale arrival_loop =
  fixes collect :: "'a list \<Rightarrow> 'o list \<Rightarrow> string list \<Rightarrow> 'o list \<times> string list \<times> 's option"
    and observe :: "'a \<Rightarrow> 'o option"
  assumes collect_Nil: "collect [] obs fs = (obs, fs, None)"
    and collect_Cons: "\<exists>obs' fs'. set obs' \<subseteq> set obs \<union> set_option (observe a) \<and>
      (collect (a # as) obs fs = collect as obs' fs' \<or> (\<exists>stop. collect (a # as) obs fs = (obs', fs', stop)))"
begin

lemma collected_members:
  "collect as obs fs = (obs', fs', stop) \<Longrightarrow> set obs' \<subseteq> set obs \<union> set (filter_map observe as)"
proof (induction as arbitrary: obs fs)
  case (Cons a as)
  obtain obs1 fs1 where one: "set obs1 \<subseteq> set obs \<union> set_option (observe a)"
    and step: "collect (a # as) obs fs = collect as obs1 fs1 \<or> (\<exists>stop. collect (a # as) obs fs = (obs1, fs1, stop))"
    using collect_Cons by blast
  from step have "set obs' \<subseteq> set obs1 \<union> set (filter_map observe as)"
  proof
    assume "collect (a # as) obs fs = collect as obs1 fs1"
    with Cons.prems have "collect as obs1 fs1 = (obs', fs', stop)" by simp
    then show ?thesis by (rule Cons.IH)
  qed (use Cons.prems in auto)
  with one show ?case by (cases "observe a") auto
qed (simp add: collect_Nil)

end

lemma replace_skip_frame [simp]:
  "rep_intelligence (replace_skip c x r) = rep_intelligence r"
  "rep_status (replace_skip c x r) = rep_status r"
  by (simp_all add: replace_skip_def)

lemma mark_partial_frame [simp]:
  "rep_intelligence (mark_intelligence_partial r) = rep_intelligence r"
  "rep_intelligence (mark_intelligence_interrupted r) = rep_intelligence r"
  by (simp_all add: mark_intelligence_partial_def mark_intelligence_interrupted_def)

lemma mark_partial_status:
  "rep_status (mark_intelligence_partial r) = (if rep_status r = Completed then Partial else rep_status r)"
  "rep_status (mark_intelligence_interrupted r) = (if rep_status r \<noteq> Failed then Interrupted else Failed)"
  by (simp_all add: mark_intelligence_partial_def mark_intelligence_interrupted_def)

lemma empty_intelligence_simps [simp]:
  "int_complete empty_intelligence" "int_network_registrations empty_intelligence = []"
  "int_bgp_routes empty_intelligence = []"
  by (simp_all add: empty_intelligence_def)

lemma evidence_skip_frame [simp]:
  "evidence_in evidence (replace_skip c x r) = evidence_in evidence r"
  "intelligence_complete (replace_skip c x r) = intelligence_complete r"
  "completion_honest (replace_skip c x r) = completion_honest r"
  by (simp_all add: evidence_in_def intelligence_complete_def completion_honest_def)

end
