(* ===== verification/Rdap.thy ===== *)
theory Rdap
  imports Intel_Evidence
begin

text \<open>
  Network registrations, \<open>analyze_network_registrations\<close> of \<^verbatim>\<open>crates/surface-core/src/intelligence.rs\<close>: the
  IANA bootstrap files, the choice of an approved registry endpoint for every eligible address, the RDAP
  request and its validated response. Deserialization by serde is an argument (\<open>rdap_json\<close>); what the code
  checks of the decoded values is modelled. The order in which the lookups complete is the argument \<open>arrive\<close>.
\<close>

section \<open>Model\<close>

record allowed_rdap_base =
  ab_scheme :: string
  ab_host :: string
  ab_port :: "u16 option"
  ab_base_path :: string
  ab_registry :: string

definition OFFICIAL_RDAP_BASES :: "allowed_rdap_base list" where
  "OFFICIAL_RDAP_BASES =
     [\<lparr>ab_scheme = ''https'', ab_host = ''rdap.arin.net'', ab_port = None, ab_base_path = ''/registry/'',
       ab_registry = ''ARIN''\<rparr>,
      \<lparr>ab_scheme = ''https'', ab_host = ''rdap.db.ripe.net'', ab_port = None, ab_base_path = ''/'',
       ab_registry = ''RIPE NCC''\<rparr>,
      \<lparr>ab_scheme = ''https'', ab_host = ''rdap.apnic.net'', ab_port = None, ab_base_path = ''/'',
       ab_registry = ''APNIC''\<rparr>,
      \<lparr>ab_scheme = ''https'', ab_host = ''rdap.lacnic.net'', ab_port = None, ab_base_path = ''/rdap/'',
       ab_registry = ''LACNIC''\<rparr>,
      \<lparr>ab_scheme = ''https'', ab_host = ''rdap.afrinic.net'', ab_port = None, ab_base_path = ''/rdap/'',
       ab_registry = ''AFRINIC''\<rparr>]"

record rdap_config =
  rc_ipv4_bootstrap :: string
  rc_ipv6_bootstrap :: string
  rc_allowed_bases :: "allowed_rdap_base list"

definition PRODUCTION_RDAP_CONFIG :: rdap_config where
  "PRODUCTION_RDAP_CONFIG =
     \<lparr>rc_ipv4_bootstrap = ''https://data.iana.org/rdap/ipv4.json'',
      rc_ipv6_bootstrap = ''https://data.iana.org/rdap/ipv6.json'',
      rc_allowed_bases = OFFICIAL_RDAP_BASES\<rparr>"

definition MAX_RDAP_ADDRESSES :: nat where "MAX_RDAP_ADDRESSES = 8"
definition MAX_RDAP_CONCURRENCY :: nat where "MAX_RDAP_CONCURRENCY = 4"
definition MAX_BOOTSTRAP_BYTES :: nat where "MAX_BOOTSTRAP_BYTES = 64 * 1024"
definition MAX_RDAP_RESPONSE_BYTES :: nat where "MAX_RDAP_RESPONSE_BYTES = 256 * 1024"
definition MAX_BOOTSTRAP_SERVICES :: nat where "MAX_BOOTSTRAP_SERVICES = 64"
definition MAX_BOOTSTRAP_PREFIXES :: nat where "MAX_BOOTSTRAP_PREFIXES = 1024"
definition MAX_BOOTSTRAP_ALTERNATES :: nat where "MAX_BOOTSTRAP_ALTERNATES = 8"
definition MAX_BOOTSTRAP_STRING_BYTES :: nat where "MAX_BOOTSTRAP_STRING_BYTES = 512"
definition MAX_RDAP_STATUSES :: nat where "MAX_RDAP_STATUSES = 16"
definition MAX_RDAP_STATUS_BYTES :: nat where "MAX_RDAP_STATUS_BYTES = 64"
definition MAX_RDAP_HANDLE_BYTES :: nat where "MAX_RDAP_HANDLE_BYTES = 256"
definition MAX_RDAP_NAME_BYTES :: nat where "MAX_RDAP_NAME_BYTES = 256"
definition MAX_RDAP_TYPE_BYTES :: nat where "MAX_RDAP_TYPE_BYTES = 128"
definition MAX_RDAP_COUNTRY_BYTES :: nat where "MAX_RDAP_COUNTRY_BYTES = 2"

record rdap_network_response =
  rn_object_class_name :: "string option"
  rn_handle :: "string option"
  rn_name :: "string option"
  rn_network_type :: "string option"
  rn_start_address :: "string option"
  rn_end_address :: "string option"
  rn_country :: "string option"
  rn_status :: "string list"

record rdap_json =
  rj_bootstrap :: "bytes \<Rightarrow> (string list \<times> string list) list option"
  rj_network :: "bytes \<Rightarrow> rdap_network_response option"

record 'u approved_base =
  ap_url :: 'u
  ap_policy :: allowed_rdap_base

record 'u bootstrap_entry =
  bo_prefix :: net_prefix
  bo_endpoint :: "'u approved_base option"

datatype rdap_stop = Rdap_Cancelled | Rdap_Deadline

fun bootstrap_fetch_reason :: "fetch_error \<Rightarrow> string" where
  "bootstrap_fetch_reason Fetch_Timeout = ''bootstrap request timed out''"
| "bootstrap_fetch_reason Fetch_Resolution = ''bootstrap hostname resolution failed''"
| "bootstrap_fetch_reason Fetch_Destination = ''bootstrap destination was not public''"
| "bootstrap_fetch_reason Fetch_Request = ''bootstrap request failed''"
| "bootstrap_fetch_reason (Fetch_Http _) = ''bootstrap service returned an HTTP error''"
| "bootstrap_fetch_reason Fetch_TooLarge = ''bootstrap response exceeded 64 KiB''"
| "bootstrap_fetch_reason Fetch_Cancelled = ''scan interrupted''"
| "bootstrap_fetch_reason Fetch_Deadline = ''global timeout expired''"

fun rdap_fetch_reason :: "fetch_error \<Rightarrow> string" where
  "rdap_fetch_reason Fetch_Timeout = ''RDAP request timed out''"
| "rdap_fetch_reason Fetch_Resolution = ''RDAP hostname resolution failed''"
| "rdap_fetch_reason Fetch_Destination = ''RDAP destination was not public''"
| "rdap_fetch_reason Fetch_Request = ''RDAP request failed''"
| "rdap_fetch_reason (Fetch_Http _) = ''RDAP service returned an HTTP error''"
| "rdap_fetch_reason Fetch_TooLarge = ''RDAP response exceeded 256 KiB''"
| "rdap_fetch_reason Fetch_Cancelled = ''scan interrupted''"
| "rdap_fetch_reason Fetch_Deadline = ''global timeout expired''"

definition url_matches_policy :: "'u intel_urls \<Rightarrow> 'u \<Rightarrow> allowed_rdap_base \<Rightarrow> string \<Rightarrow> bool" where
  "url_matches_policy urls url policy path \<longleftrightarrow>
     iu_scheme urls url = ab_scheme policy \<and> iu_username urls url = [] \<and> iu_password urls url = None \<and>
     iu_host_str urls url = Some (ab_host policy) \<and> iu_port urls url = ab_port policy \<and>
     iu_path urls url = path \<and> iu_query urls url = None \<and> iu_fragment urls url = None"

definition approved_rdap_base ::
    "'u intel_urls \<Rightarrow> string \<Rightarrow> allowed_rdap_base list \<Rightarrow> 'u approved_base option" where
  "approved_rdap_base urls value allowed_bases =
     (case iu_parse urls value of
        None \<Rightarrow> None
      | Some url \<Rightarrow>
          map_option (\<lambda>policy. \<lparr>ap_url = url, ap_policy = policy\<rparr>)
            (find (\<lambda>policy. url_matches_policy urls url policy (ab_base_path policy)) allowed_bases))"

fun find_map :: "('a \<Rightarrow> 'b option) \<Rightarrow> 'a list \<Rightarrow> 'b option" where
  \<comment> \<open>\<open>Iterator::find_map\<close>\<close>
  "find_map f [] = None"
| "find_map f (x # xs) = (case f x of Some y \<Rightarrow> Some y | None \<Rightarrow> find_map f xs)"

fun bootstrap_prefixes ::
    "bool \<Rightarrow> 'u approved_base option \<Rightarrow> string list \<Rightarrow> string + 'u bootstrap_entry list" where
  \<comment> \<open>the inner loop of \<open>parse_bootstrap\<close>\<close>
  "bootstrap_prefixes ipv6 endpoint [] = Inr []"
| "bootstrap_prefixes ipv6 endpoint (value # rest) =
     (case parse_prefix value of
        Inl _ \<Rightarrow> Inl ''bootstrap response was invalid''
      | Inr prefix \<Rightarrow>
          if is_ipv6 (pfx_network prefix) \<noteq> ipv6 then Inl ''bootstrap response mixed address families''
          else (case bootstrap_prefixes ipv6 endpoint rest of
              Inl e \<Rightarrow> Inl e
            | Inr entries \<Rightarrow> Inr (\<lparr>bo_prefix = prefix, bo_endpoint = endpoint\<rparr> # entries)))"

fun bootstrap_services ::
    "'u intel_urls \<Rightarrow> bool \<Rightarrow> allowed_rdap_base list \<Rightarrow> nat \<Rightarrow> (string list \<times> string list) list \<Rightarrow>
     string + 'u bootstrap_entry list" where
  \<comment> \<open>the outer loop of \<open>parse_bootstrap\<close>, with the running \<open>prefix_count\<close>\<close>
  "bootstrap_services urls ipv6 bases seen [] = Inr []"
| "bootstrap_services urls ipv6 bases seen ((prefixes, alternates) # services) =
     (let seen = seen + length prefixes
      in if MAX_BOOTSTRAP_PREFIXES < seen \<or> MAX_BOOTSTRAP_ALTERNATES < length alternates \<or>
            list_ex (\<lambda>value. MAX_BOOTSTRAP_STRING_BYTES < length value) (prefixes @ alternates)
         then Inl ''bootstrap response exceeded retained field limits''
         else (case bootstrap_prefixes ipv6
                 (find_map (\<lambda>value. approved_rdap_base urls value bases) alternates) prefixes of
             Inl e \<Rightarrow> Inl e
           | Inr entries \<Rightarrow>
               (case bootstrap_services urls ipv6 bases seen services of
                  Inl e \<Rightarrow> Inl e
                | Inr later \<Rightarrow> Inr (entries @ later))))"

definition parse_bootstrap ::
    "'u intel_urls \<Rightarrow> rdap_json \<Rightarrow> bytes \<Rightarrow> bool \<Rightarrow> allowed_rdap_base list \<Rightarrow> string + 'u bootstrap_entry list" where
  "parse_bootstrap urls json body ipv6 allowed_bases =
     (if validate_json_depth body = None then Inl ''bootstrap JSON exceeded nesting limit''
      else (case rj_bootstrap json body of
          None \<Rightarrow> Inl ''bootstrap response was invalid''
        | Some services \<Rightarrow>
            if MAX_BOOTSTRAP_SERVICES < length services then
              Inl ''bootstrap response exceeded service limit''
            else bootstrap_services urls ipv6 allowed_bases 0 services))"

definition longest_bootstrap_endpoint ::
    "ip_addr \<Rightarrow> 'u bootstrap_entry list \<Rightarrow> 'u approved_base option" where
  "longest_bootstrap_endpoint address entries =
     (case max_by_key (\<lambda>entry. pfx_length (bo_prefix entry))
         (filter (\<lambda>entry. prefix_contains (bo_prefix entry) address) entries) of
        None \<Rightarrow> None
      | Some entry \<Rightarrow> bo_endpoint entry)"

definition construct_rdap_url :: "'u intel_urls \<Rightarrow> 'u approved_base \<Rightarrow> ip_addr \<Rightarrow> string + 'u" where
  "construct_rdap_url urls endpoint address =
     (if \<not> url_matches_policy urls (ap_url endpoint) (ap_policy endpoint) (ab_base_path (ap_policy endpoint)) then
        Inl ''RDAP base endpoint failed validation''
      else (case iu_push_segments urls (ap_url endpoint) [''ip'', show_ip address] of
          None \<Rightarrow> Inl ''RDAP base endpoint failed validation''
        | Some url \<Rightarrow>
            if \<not> url_matches_policy urls url (ap_policy endpoint)
                 (ab_base_path (ap_policy endpoint) @ ''ip/'' @ show_ip address) then
              Inl ''constructed RDAP endpoint failed validation''
            else Inr url))"

definition oversized_field :: "string option \<Rightarrow> nat \<Rightarrow> bool" where
  \<comment> \<open>\<open>validate_optional_field\<close> returns its error\<close>
  "oversized_field value maximum =
     (case value of Some v \<Rightarrow> v = [] \<or> maximum < length v | None \<Rightarrow> False)"

definition is_ascii_alphabetic :: "char \<Rightarrow> bool" where
  "is_ascii_alphabetic c \<longleftrightarrow> is_ascii_uppercase c \<or> is_ascii_lowercase c"

definition rdap_range ::
    "string option \<Rightarrow> string option \<Rightarrow> ip_addr \<Rightarrow> string + ip_addr option \<times> ip_addr option" where
  \<comment> \<open>the \<open>match\<close> on the two range ends\<close>
  "rdap_range start_text end_text address =
     (case (start_text, end_text) of
        (None, None) \<Rightarrow> Inr (None, None)
      | (Some s, Some e) \<Rightarrow>
          (case parse_ip s of
             None \<Rightarrow> Inl ''RDAP response contained an invalid range''
           | Some start \<Rightarrow>
               (case parse_ip e of
                  None \<Rightarrow> Inl ''RDAP response contained an invalid range''
                | Some finish \<Rightarrow>
                    if \<not> coherent_range start finish address then
                      Inl ''RDAP response range did not contain the queried address''
                    else Inr (Some start, Some finish)))
      | _ \<Rightarrow> Inl ''RDAP response contained an incomplete range'')"

definition parse_rdap_response ::
    "rdap_json \<Rightarrow> bytes \<Rightarrow> ip_addr \<Rightarrow> string \<Rightarrow> string + network_registration_observation" where
  "parse_rdap_response json body address registry =
     (if validate_json_depth body = None then Inl ''RDAP JSON exceeded nesting limit''
      else (case rj_network json body of
          None \<Rightarrow> Inl ''RDAP response was invalid''
        | Some r \<Rightarrow>
            if rn_object_class_name r \<noteq> Some ''ip network'' then
              Inl ''RDAP response was not an IP network object''
            else if oversized_field (rn_handle r) MAX_RDAP_HANDLE_BYTES \<or>
                    oversized_field (rn_name r) MAX_RDAP_NAME_BYTES \<or>
                    oversized_field (rn_network_type r) MAX_RDAP_TYPE_BYTES \<or>
                    oversized_field (rn_country r) MAX_RDAP_COUNTRY_BYTES then
              Inl ''RDAP response exceeded retained string limits''
            else if (case rn_country r of
                Some country \<Rightarrow> length country \<noteq> 2 \<or> \<not> list_all is_ascii_alphabetic country
              | None \<Rightarrow> False) then
              Inl ''RDAP response contained an invalid registration country''
            else if MAX_RDAP_STATUSES < length (rn_status r) \<or>
                    list_ex (\<lambda>status. status = [] \<or> MAX_RDAP_STATUS_BYTES < length status) (rn_status r) then
              Inl ''RDAP response exceeded retained status limits''
            else (case rdap_range (rn_start_address r) (rn_end_address r) address of
                Inl e \<Rightarrow> Inl e
              | Inr (start, finish) \<Rightarrow>
                  Inr \<lparr>nr_address = address, nr_source = ''RDAP'', nr_registry = registry,
                       nr_handle = rn_handle r, nr_name = rn_name r, nr_network_type = rn_network_type r,
                       nr_start_address = start, nr_end_address = finish,
                       nr_registration_country = rn_country r,
                       nr_statuses = btree_set (rn_status r)\<rparr>)))"

section \<open>Writing the evidence\<close>

definition record_network_registration_skip :: "scan_report \<Rightarrow> string \<Rightarrow> scan_report" where
  "record_network_registration_skip report reason = replace_skip ''network_registration'' reason report"

definition finish_network_registrations ::
    "scan_report \<Rightarrow> network_registration_observation list \<Rightarrow> string list \<Rightarrow> rdap_stop option \<Rightarrow> scan_report" where
  "finish_network_registrations report observations failures stop =
     (let observations = sort_key nr_address observations;
          report =
            (if observations \<noteq> [] \<or> failures \<noteq> [] \<or> stop \<noteq> None then
               let i = intelligence_of report
               in report\<lparr>rep_intelligence := Some (i\<lparr>
                    int_network_registrations :=
                      dedup_by_key nr_address (sort_key nr_address (int_network_registrations i @ observations)),
                    int_complete := int_complete i \<and> failures = [] \<and> stop = None\<rparr>)\<rparr>
             else report)
      in case stop of
           Some Rdap_Cancelled \<Rightarrow>
             record_network_registration_skip (mark_intelligence_interrupted report) ''scan interrupted''
         | Some Rdap_Deadline \<Rightarrow>
             record_network_registration_skip (mark_intelligence_partial report) ''global timeout expired''
         | None \<Rightarrow>
             if failures \<noteq> [] then
               record_network_registration_skip (mark_intelligence_partial report)
                 (''network registration lookup incomplete: '' @ join ''; '' failures)
             else report)"

section \<open>The lookups\<close>

record 'u rdap_request =
  rq_address :: ip_addr
  rq_registry :: string
  rq_url :: 'u
  rq_client :: pinned_client

record 'u rdap_state =
  rs_failures :: "string list"
  rs_ipv4 :: "'u bootstrap_entry list option"
  rs_ipv6 :: "'u bootstrap_entry list option"
  rs_clients :: pinned_clients

definition rdap_failure :: "string \<Rightarrow> 'u rdap_state \<Rightarrow> 'u rdap_state" where
  \<comment> \<open>\<open>failures.insert\<close>\<close>
  "rdap_failure reason st = st\<lparr>rs_failures := set_insert reason (rs_failures st)\<rparr>"

definition fetch_bootstrap ::
    "'u intel_net \<Rightarrow> 'u \<Rightarrow> pinned_clients \<Rightarrow> (fetch_error + bytes) \<times> pinned_clients" where
  \<comment> \<open>the \<open>async\<close> block of the bootstrap loop\<close>
  "fetch_bootstrap net url clients =
     (case client_for net url clients of
        (Inl e, clients) \<Rightarrow> (Inl e, clients)
      | (Inr client, clients) \<Rightarrow> (get_bounded net client url MAX_BOOTSTRAP_BYTES, clients))"

definition bootstrap_round ::
    "'u intel_net \<Rightarrow> rdap_json \<Rightarrow> allowed_rdap_base list \<Rightarrow> ip_addr list \<Rightarrow> bool \<Rightarrow> string \<Rightarrow>
     'u rdap_state \<Rightarrow> (rdap_stop \<times> string list) + 'u rdap_state" where
  \<comment> \<open>one round of the bootstrap loop; \<open>Inl\<close> the early return, with the failures so far\<close>
  "bootstrap_round net json bases addresses ipv6 endpoint st =
     (if \<not> list_ex (\<lambda>address. is_ipv6 address = ipv6) addresses then Inr st
      else (case iu_parse (in_urls net) endpoint of
          None \<Rightarrow> Inr (rdap_failure ''bootstrap endpoint was invalid'' st)
        | Some url \<Rightarrow>
            (case fetch_bootstrap net url (rs_clients st) of (fetched, clients) \<Rightarrow>
               let st = st\<lparr>rs_clients := clients\<rparr>
               in case fetched of
                    Inl Fetch_Cancelled \<Rightarrow> Inl (Rdap_Cancelled, rs_failures st)
                  | Inl Fetch_Deadline \<Rightarrow> Inl (Rdap_Deadline, rs_failures st)
                  | Inl error \<Rightarrow> Inr (rdap_failure (bootstrap_fetch_reason error) st)
                  | Inr body \<Rightarrow>
                      (case parse_bootstrap (in_urls net) json body ipv6 bases of
                         Inr entries \<Rightarrow>
                           Inr (if ipv6 then st\<lparr>rs_ipv6 := Some entries\<rparr> else st\<lparr>rs_ipv4 := Some entries\<rparr>)
                       | Inl reason \<Rightarrow> Inr (rdap_failure reason st)))))"

definition prepare_request ::
    "'u intel_net \<Rightarrow> ip_addr \<Rightarrow> 'u rdap_state \<Rightarrow>
     (rdap_stop \<times> string list) + 'u rdap_request option \<times> 'u rdap_state" where
  \<comment> \<open>one round of the loop over the addresses\<close>
  "prepare_request net address st =
     (case (if is_ipv4 address then rs_ipv4 st else rs_ipv6 st) of
        None \<Rightarrow> Inr (None, rdap_failure ''bootstrap data unavailable for an address family'' st)
      | Some entries \<Rightarrow>
          (case longest_bootstrap_endpoint address entries of
             None \<Rightarrow> Inr (None, rdap_failure ''bootstrap had no approved authoritative endpoint'' st)
           | Some endpoint \<Rightarrow>
               (case construct_rdap_url (in_urls net) endpoint address of
                  Inl reason \<Rightarrow> Inr (None, rdap_failure reason st)
                | Inr url \<Rightarrow>
                    (case client_for net url (rs_clients st) of (obtained, clients) \<Rightarrow>
                       let st = st\<lparr>rs_clients := clients\<rparr>
                       in case obtained of
                            Inr client \<Rightarrow>
                              Inr (Some \<lparr>rq_address = address, rq_registry = ab_registry (ap_policy endpoint),
                                rq_url = url, rq_client = client\<rparr>, st)
                          | Inl Fetch_Cancelled \<Rightarrow> Inl (Rdap_Cancelled, rs_failures st)
                          | Inl Fetch_Deadline \<Rightarrow> Inl (Rdap_Deadline, rs_failures st)
                          | Inl error \<Rightarrow> Inr (None, rdap_failure (rdap_fetch_reason error) st)))))"

fun prepare_requests ::
    "'u intel_net \<Rightarrow> ip_addr list \<Rightarrow> 'u rdap_state \<Rightarrow>
     (rdap_stop \<times> string list) + 'u rdap_request list \<times> 'u rdap_state" where
  "prepare_requests net [] st = Inr ([], st)"
| "prepare_requests net (address # addresses) st =
     (case prepare_request net address st of
        Inl stop \<Rightarrow> Inl stop
      | Inr (request, st) \<Rightarrow>
          (case prepare_requests net addresses st of
             Inl stop \<Rightarrow> Inl stop
           | Inr (requests, st) \<Rightarrow>
               Inr (case request of Some r \<Rightarrow> r # requests | None \<Rightarrow> requests, st)))"

definition rdap_prepare ::
    "'u intel_net \<Rightarrow> rdap_json \<Rightarrow> rdap_config \<Rightarrow> nat \<Rightarrow> ip_addr list \<Rightarrow> bool \<Rightarrow>
     (rdap_stop \<times> string list) + 'u rdap_request list \<times> 'u rdap_state" where
  \<comment> \<open>everything up to the concurrent lookups\<close>
  "rdap_prepare net json config request_timeout addresses truncated =
     (let st = \<lparr>rs_failures = (if truncated then [''address limit reached''] else []),
                rs_ipv4 = None, rs_ipv6 = None, rs_clients = new_clients request_timeout\<rparr>;
          bases = rc_allowed_bases config
      in case bootstrap_round net json bases addresses False (rc_ipv4_bootstrap config) st of
           Inl stop \<Rightarrow> Inl stop
         | Inr st \<Rightarrow>
             (case bootstrap_round net json bases addresses True (rc_ipv6_bootstrap config) st of
                Inl stop \<Rightarrow> Inl stop
              | Inr st \<Rightarrow> prepare_requests net addresses st))"

type_synonym rdap_arrival = "ip_addr \<times> string \<times> (fetch_error + bytes)"

definition rdap_lookup :: "'u intel_net \<Rightarrow> 'u rdap_request \<Rightarrow> rdap_arrival" where
  "rdap_lookup net rq =
     (rq_address rq, rq_registry rq, get_bounded net (rq_client rq) (rq_url rq) MAX_RDAP_RESPONSE_BYTES)"

fun rdap_collect ::
    "rdap_json \<Rightarrow> rdap_arrival list \<Rightarrow> network_registration_observation list \<Rightarrow> string list \<Rightarrow>
     network_registration_observation list \<times> string list \<times> rdap_stop option" where
  \<comment> \<open>the \<open>while\<close> loop over what arrives\<close>
  "rdap_collect json [] observations failures = (observations, failures, None)"
| "rdap_collect json ((address, registry, response) # arrived) observations failures =
     (case response of
        Inr body \<Rightarrow>
          (case parse_rdap_response json body address registry of
             Inr observation \<Rightarrow> rdap_collect json arrived (push observations observation) failures
           | Inl reason \<Rightarrow> rdap_collect json arrived observations (set_insert reason failures))
      | Inl Fetch_Cancelled \<Rightarrow> (observations, failures, Some Rdap_Cancelled)
      | Inl Fetch_Deadline \<Rightarrow> (observations, failures, Some Rdap_Deadline)
      | Inl error \<Rightarrow> rdap_collect json arrived observations (set_insert (rdap_fetch_reason error) failures))"

definition analyze_network_registrations ::
    "(nat \<Rightarrow> rdap_arrival list \<Rightarrow> rdap_arrival list) \<Rightarrow> 'u intel_net \<Rightarrow> rdap_json \<Rightarrow> rdap_config \<Rightarrow> nat \<Rightarrow>
     scan_report \<Rightarrow> scan_report" where
  \<comment> \<open>\<open>analyze_network_registrations_with\<close>\<close>
  "analyze_network_registrations arrive net json config request_timeout report =
     (case eligible_primary_addresses report MAX_RDAP_ADDRESSES of (addresses, truncated) \<Rightarrow>
        if addresses = [] then
          record_network_registration_skip report ''no eligible external address in primary DNS results''
        else (case rdap_prepare net json config request_timeout addresses truncated of
            Inl (stop, failures) \<Rightarrow> finish_network_registrations report [] failures (Some stop)
          | Inr (requests, st) \<Rightarrow>
              (case rdap_collect json (arrive MAX_RDAP_CONCURRENCY (map (rdap_lookup net) requests)) []
                  (rs_failures st) of (observations, failures, stop) \<Rightarrow>
                 finish_network_registrations report observations failures stop)))"

section \<open>The writer keeps its contract\<close>

lemma finish_network_registrations_frame:
  "rep_intelligence (finish_network_registrations r obs fs stop) =
    (if obs = [] \<and> fs = [] \<and> stop = None then rep_intelligence r
     else Some ((intelligence_of r)\<lparr>
       int_network_registrations := dedup_by_key nr_address
         (sort_key nr_address (int_network_registrations (intelligence_of r) @ sort_key nr_address obs)),
       int_complete := int_complete (intelligence_of r) \<and> fs = [] \<and> stop = None\<rparr>))"
  by (auto simp: finish_network_registrations_def record_network_registration_skip_def Let_def
    split: option.split rdap_stop.split)

interpretation registrations: evidence_writer finish_network_registrations int_network_registrations nr_address
  Rdap_Cancelled
proof
  show "finish_network_registrations r (sort_key nr_address obs) fs stop =
      finish_network_registrations r obs fs stop" for r obs fs stop
    by (simp add: finish_network_registrations_def)
  show "evidence_in int_network_registrations (finish_network_registrations r obs fs stop) =
      (if obs = [] \<and> fs = [] \<and> stop = None then evidence_in int_network_registrations r
       else dedup_by_key nr_address
         (sort_key nr_address (evidence_in int_network_registrations r @ sort_key nr_address obs)))" for r obs fs stop
    by (auto simp: evidence_in_def finish_network_registrations_frame intelligence_of_def split: option.split)
  show "intelligence_complete (finish_network_registrations r obs fs stop) \<longleftrightarrow>
      intelligence_complete r \<and> fs = [] \<and> stop = None" for r obs fs stop
    by (auto simp: intelligence_complete_def finish_network_registrations_frame intelligence_of_def
      split: option.split)
  show "rep_status (finish_network_registrations r obs fs stop) =
      (if stop = Some Rdap_Cancelled then (if rep_status r \<noteq> Failed then Interrupted else Failed)
       else if stop = None \<and> fs = [] then rep_status r
       else if rep_status r = Completed then Partial else rep_status r)" for r obs fs stop
    by (auto simp: finish_network_registrations_def record_network_registration_skip_def Let_def
      mark_partial_status split: option.split rdap_stop.split)
qed

section \<open>Only approved requests\<close>

definition approved_endpoint :: "allowed_rdap_base list \<Rightarrow> 'u approved_base \<Rightarrow> bool" where
  "approved_endpoint bases ep \<longleftrightarrow> ap_policy ep \<in> set bases"

definition entries_approved :: "allowed_rdap_base list \<Rightarrow> 'u bootstrap_entry list \<Rightarrow> bool" where
  "entries_approved bases entries \<longleftrightarrow>
     (\<forall>entry \<in> set entries. \<forall>ep. bo_endpoint entry = Some ep \<longrightarrow> approved_endpoint bases ep)"

definition state_approved :: "allowed_rdap_base list \<Rightarrow> 'u rdap_state \<Rightarrow> bool" where
  "state_approved bases st \<longleftrightarrow>
     pinned_cache (rs_clients st) \<and>
     (\<forall>entries. rs_ipv4 st = Some entries \<longrightarrow> entries_approved bases entries) \<and>
     (\<forall>entries. rs_ipv6 st = Some entries \<longrightarrow> entries_approved bases entries)"

definition request_approved :: "'u intel_net \<Rightarrow> allowed_rdap_base list \<Rightarrow> 'u rdap_request \<Rightarrow> bool" where
  \<comment> \<open>the request goes to an approved registry, names the address and nothing else, and its client is pinned\<close>
  "request_approved net bases rq \<longleftrightarrow>
     (\<exists>policy \<in> set bases. rq_registry rq = ab_registry policy \<and>
        url_matches_policy (in_urls net) (rq_url rq) policy
          (ab_base_path policy @ ''ip/'' @ show_ip (rq_address rq)) \<and>
        pc_hostname (rq_client rq) = ab_host policy) \<and>
     publicly_pinned (rq_client rq)"

lemma rdap_failure_approved [simp]: "state_approved bases (rdap_failure reason st) = state_approved bases st"
  by (simp add: state_approved_def rdap_failure_def)

lemma find_map_Some: "find_map f xs = Some y \<Longrightarrow> \<exists>x \<in> set xs. f x = Some y"
  by (induction xs) (auto split: option.splits)

lemma approved_rdap_base_policy: "approved_rdap_base urls value bases = Some ep \<Longrightarrow> approved_endpoint bases ep"
  by (auto simp: approved_rdap_base_def approved_endpoint_def find_Some_iff split: option.splits)

lemma bootstrap_prefixes_endpoint:
  "bootstrap_prefixes ipv6 endpoint values = Inr entries \<Longrightarrow> \<forall>entry \<in> set entries. bo_endpoint entry = endpoint"
  by (induction ipv6 endpoint "values" arbitrary: entries rule: bootstrap_prefixes.induct)
    (auto split: sum.splits if_splits)

lemma bootstrap_services_approved:
  "bootstrap_services urls ipv6 bases seen services = Inr entries \<Longrightarrow> entries_approved bases entries"
proof (induction urls ipv6 bases seen services arbitrary: entries rule: bootstrap_services.induct)
  case (2 urls ipv6 bases seen prefixes alternates services)
  let ?endpoint = "find_map (\<lambda>value. approved_rdap_base urls value bases) alternates"
  from 2(2) obtain entries1 entries2 where
    first: "bootstrap_prefixes ipv6 ?endpoint prefixes = Inr entries1" and
    rest: "bootstrap_services urls ipv6 bases (seen + length prefixes) services = Inr entries2" and
    entries: "entries = entries1 @ entries2"
    by (auto simp: Let_def split: if_splits sum.splits)
  have "approved_endpoint bases ep" if "?endpoint = Some ep" for ep
    using find_map_Some [OF that] approved_rdap_base_policy by blast
  then have "entries_approved bases entries1"
    using bootstrap_prefixes_endpoint [OF first] by (simp add: entries_approved_def)
  moreover have "entries_approved bases entries2"
    using 2(1) [OF refl _ first rest] 2(2) by (auto simp: Let_def split: if_splits)
  ultimately show ?case by (auto simp: entries entries_approved_def)
qed (simp add: entries_approved_def)

lemma parse_bootstrap_approved:
  "parse_bootstrap urls json body ipv6 bases = Inr entries \<Longrightarrow> entries_approved bases entries"
  by (auto simp: parse_bootstrap_def intro: bootstrap_services_approved split: if_splits option.splits)

lemma fetch_bootstrap_pinned:
  "fetch_bootstrap net url clients = (fetched, clients') \<Longrightarrow> pinned_cache clients \<Longrightarrow> pinned_cache clients'"
  by (auto simp: fetch_bootstrap_def dest: client_for_pinned split: prod.splits sum.splits)

lemma bootstrap_round_approved:
  assumes "bootstrap_round net json bases addresses ipv6 endpoint st = Inr st'"
    and "state_approved bases st"
  shows "state_approved bases st'"
proof -
  have "state_approved bases (st\<lparr>rs_clients := clients\<rparr>)"
    if "fetch_bootstrap net url (rs_clients st) = (fetched, clients)" for url fetched clients
    using fetch_bootstrap_pinned [OF that] assms(2) by (simp add: state_approved_def)
  note step = this
  have stored: "state_approved bases (s\<lparr>rs_ipv6 := Some entries\<rparr>)" "state_approved bases (s\<lparr>rs_ipv4 := Some entries\<rparr>)"
    if "state_approved bases s" "entries_approved bases entries" for s :: "'a rdap_state" and entries
    using that by (simp_all add: state_approved_def)
  show ?thesis
    using assms unfolding bootstrap_round_def Let_def
    by (auto dest!: step parse_bootstrap_approved intro: stored split: if_splits option.splits prod.splits sum.splits fetch_error.splits)
qed

lemma longest_bootstrap_endpoint_entry:
  "longest_bootstrap_endpoint address entries = Some ep \<Longrightarrow>
   \<exists>entry \<in> set entries. bo_endpoint entry = Some ep \<and> prefix_contains (bo_prefix entry) address \<and>
     (\<forall>other \<in> set entries. prefix_contains (bo_prefix other) address \<longrightarrow>
        pfx_length (bo_prefix other) \<le> pfx_length (bo_prefix entry))"
  unfolding longest_bootstrap_endpoint_def
  by (auto split: option.splits dest!: max_by_key_Some)

lemma construct_rdap_url_policy:
  "construct_rdap_url urls ep address = Inr url \<Longrightarrow>
   url_matches_policy urls url (ap_policy ep) (ab_base_path (ap_policy ep) @ ''ip/'' @ show_ip address)"
  by (auto simp: construct_rdap_url_def split: if_splits option.splits)

lemma prepare_request_approved:
  assumes "prepare_request net address st = Inr (request, st')" and "state_approved bases st"
  shows "state_approved bases st' \<and>
    (\<forall>rq. request = Some rq \<longrightarrow> rq_address rq = address \<and> request_approved net bases rq)"
proof -
  let ?entries = "if is_ipv4 address then rs_ipv4 st else rs_ipv6 st"
  have entries: "entries_approved bases entries" if "?entries = Some entries" for entries
    using that assms(2) by (auto simp: state_approved_def split: if_splits)
  show ?thesis
  proof (cases "\<exists>entries ep url. ?entries = Some entries \<and> longest_bootstrap_endpoint address entries = Some ep \<and>
      construct_rdap_url (in_urls net) ep address = Inr url")
    case False
    then show ?thesis
      using assms unfolding prepare_request_def
      by (auto split: option.splits sum.splits)
  next
    case True
    then obtain entries ep url where *: "?entries = Some entries"
      "longest_bootstrap_endpoint address entries = Some ep" "construct_rdap_url (in_urls net) ep address = Inr url"
      by blast
    obtain obtained clients where client: "client_for net url (rs_clients st) = (obtained, clients)" by fastforce
    have pinned: "pinned_cache clients \<and> (\<forall>c. obtained = Inr c \<longrightarrow>
        publicly_pinned c \<and> iu_host_str (in_urls net) url = Some (pc_hostname c))"
      using client_for_pinned [OF _ client] assms(2) by (simp add: state_approved_def)
    have st: "state_approved bases (st\<lparr>rs_clients := clients\<rparr>)"
      using pinned assms(2) by (simp add: state_approved_def)
    have policy: "ap_policy ep \<in> set bases"
      using longest_bootstrap_endpoint_entry [OF *(2)] entries [OF *(1)]
      by (auto simp: entries_approved_def approved_endpoint_def)
    have url: "url_matches_policy (in_urls net) url (ap_policy ep)
        (ab_base_path (ap_policy ep) @ ''ip/'' @ show_ip address)"
      using *(3) by (rule construct_rdap_url_policy)
    show ?thesis
    proof (cases obtained)
      case (Inl e)
      with assms(1) st * client show ?thesis
        by (cases e) (auto simp: prepare_request_def)
    next
      case (Inr c)
      have "request = Some \<lparr>rq_address = address, rq_registry = ab_registry (ap_policy ep), rq_url = url,
          rq_client = c\<rparr>" "st' = st\<lparr>rs_clients := clients\<rparr>"
        using assms(1) * client Inr by (auto simp: prepare_request_def)
      moreover have "pc_hostname c = ab_host (ap_policy ep)"
        using pinned url Inr by (simp add: url_matches_policy_def)
      ultimately show ?thesis using st policy url pinned Inr by (auto simp: request_approved_def)
    qed
  qed
qed

lemma prepare_requests_approved:
  "prepare_requests net addresses st = Inr (requests, st') \<Longrightarrow> state_approved bases st \<Longrightarrow>
   (\<forall>rq \<in> set requests. request_approved net bases rq) \<and> rq_address ` set requests \<subseteq> set addresses"
proof (induction net addresses st arbitrary: requests st' rule: prepare_requests.induct)
  case (2 net address addresses st)
  then obtain request s rest where
    first: "prepare_request net address st = Inr (request, s)" and
    rest: "prepare_requests net addresses s = Inr (rest, st')" and
    requests: "requests = (case request of Some r \<Rightarrow> r # rest | None \<Rightarrow> rest)"
    by (auto split: sum.splits prod.splits)
  note approved = prepare_request_approved [OF first 2(3)]
  then have IH: "(\<forall>rq \<in> set rest. request_approved net bases rq) \<and> rq_address ` set rest \<subseteq> set addresses"
    using 2(1) [OF first refl rest] by simp
  show ?case using approved IH by (cases request) (auto simp: requests)
qed simp

lemma rdap_prepare_approved:
  assumes "rdap_prepare net json config request_timeout addresses truncated = Inr (requests, st)"
  shows "(\<forall>rq \<in> set requests. request_approved net (rc_allowed_bases config) rq) \<and>
    rq_address ` set requests \<subseteq> set addresses"
proof -
  let ?bases = "rc_allowed_bases config"
  let ?st0 = "\<lparr>rs_failures = (if truncated then [''address limit reached''] else []),
      rs_ipv4 = None, rs_ipv6 = None, rs_clients = new_clients request_timeout\<rparr>"
  obtain st1 st2 where
    one: "bootstrap_round net json ?bases addresses False (rc_ipv4_bootstrap config) ?st0 = Inr st1" and
    two: "bootstrap_round net json ?bases addresses True (rc_ipv6_bootstrap config) st1 = Inr st2" and
    requests: "prepare_requests net addresses st2 = Inr (requests, st)"
    using assms unfolding rdap_prepare_def Let_def by (auto split: sum.splits)
  have "state_approved ?bases ?st0" by (simp add: state_approved_def)
  from bootstrap_round_approved [OF two bootstrap_round_approved [OF one this]]
  show ?thesis by (rule prepare_requests_approved [OF requests])
qed

section \<open>Collected evidence\<close>

definition range_covers :: "network_registration_observation \<Rightarrow> bool" where
  "range_covers o' \<longleftrightarrow>
     (case (nr_start_address o', nr_end_address o') of
        (Some s, Some e) \<Rightarrow> coherent_range s e (nr_address o') | (None, None) \<Rightarrow> True | _ \<Rightarrow> False)"

lemma parse_rdap_response_covers:
  "parse_rdap_response json body address registry = Inr o' \<Longrightarrow>
   nr_address o' = address \<and> nr_registry o' = registry \<and> range_covers o'"
  unfolding parse_rdap_response_def rdap_range_def range_covers_def
  by (auto split: if_splits option.splits sum.splits prod.splits)

definition arrival_observation :: "rdap_json \<Rightarrow> rdap_arrival \<Rightarrow> network_registration_observation option" where
  "arrival_observation json a =
     (case a of (address, registry, response) \<Rightarrow>
        (case response of
           Inr body \<Rightarrow>
             (case parse_rdap_response json body address registry of Inr o' \<Rightarrow> Some o' | Inl _ \<Rightarrow> None)
         | Inl _ \<Rightarrow> None))"

definition arrival_failure :: "rdap_json \<Rightarrow> rdap_arrival \<Rightarrow> string option" where
  "arrival_failure json a =
     (case a of (address, registry, response) \<Rightarrow>
        (case response of
           Inr body \<Rightarrow>
             (case parse_rdap_response json body address registry of Inr _ \<Rightarrow> None | Inl reason \<Rightarrow> Some reason)
         | Inl e \<Rightarrow> Some (rdap_fetch_reason e)))"

definition arrival_stops :: "rdap_arrival \<Rightarrow> bool" where
  "arrival_stops a \<longleftrightarrow> snd (snd a) \<in> {Inl Fetch_Cancelled, Inl Fetch_Deadline}"

lemma arrival_observation_simps [simp]:
  "arrival_observation json (address, registry, Inl e) = None"
  "parse_rdap_response json body address registry = Inr o' \<Longrightarrow>
   arrival_observation json (address, registry, Inr body) = Some o'"
  "parse_rdap_response json body address registry = Inl reason \<Longrightarrow>
   arrival_observation json (address, registry, Inr body) = None"
  by (simp_all add: arrival_observation_def)

interpretation rdap_loop: arrival_loop "rdap_collect json" "arrival_observation json" for json
proof
  show "\<exists>obs' fs'. set obs' \<subseteq> set obs \<union> set_option (arrival_observation json a) \<and>
      (rdap_collect json (a # as) obs fs = rdap_collect json as obs' fs' \<or>
       (\<exists>stop. rdap_collect json (a # as) obs fs = (obs', fs', stop)))" for a as obs fs
  proof (cases a)
    case (fields address registry response)
    show ?thesis
    proof (cases response)
      case (Inl e)
      have "set obs \<subseteq> set obs \<union> set_option (arrival_observation json a)" by simp
      then show ?thesis
        by (intro exI [of _ obs] exI [of _ "case e of Fetch_Cancelled \<Rightarrow> fs | Fetch_Deadline \<Rightarrow> fs
            | _ \<Rightarrow> set_insert (rdap_fetch_reason e) fs"] conjI) (simp_all add: fields Inl split: fetch_error.split)
    next
      case (Inr body)
      show ?thesis
      proof (cases "parse_rdap_response json body address registry")
        case (Inl reason)
        then show ?thesis
          by (intro exI [of _ obs] exI [of _ "set_insert reason fs"]) (simp add: fields Inr)
      next
        case (Inr o')
        then show ?thesis
          by (intro exI [of _ "push obs o'"] exI [of _ fs]) (simp add: fields \<open>response = Inr body\<close>)
      qed
    qed
  qed
qed simp

lemma rdap_collect_all:
  assumes "list_all (\<lambda>a. \<not> arrival_stops a) arrived" and "sorted failures" and "distinct failures"
  shows "rdap_collect json arrived observations failures =
    (observations @ filter_map (arrival_observation json) arrived,
     btree_set (failures @ filter_map (arrival_failure json) arrived), None)"
  using assms
proof (induction json arrived observations failures rule: rdap_collect.induct)
  case (1 json observations failures)
  then show ?case by (simp add: btree_set_id)
next
  case (2 json address registry response arrived observations failures)
  have insert: "sorted (set_insert x failures)" "distinct (set_insert x failures)" for x :: string
    by (simp_all add: set_insert_def)
  have again: "btree_set (set_insert x failures @ xs) = btree_set (failures @ x # xs)" for x xs
    by (simp add: btree_set_eq_iff)
  show ?case
  proof (cases response)
    case (Inl e)
    with 2 insert show ?thesis
      by (cases e) (simp_all add: arrival_observation_def arrival_failure_def arrival_stops_def again)
  next
    case (Inr body)
    with 2 insert show ?thesis
      by (cases "parse_rdap_response json body address registry")
        (simp_all add: arrival_observation_def arrival_failure_def arrival_stops_def again push_def)
  qed
qed

lemma prepare_requests_distinct:
  "prepare_requests net addresses st = Inr (requests, st') \<Longrightarrow> distinct addresses \<Longrightarrow> state_approved bases st \<Longrightarrow>
   distinct (map rq_address requests)"
proof (induction net addresses st arbitrary: requests st' rule: prepare_requests.induct)
  case (2 net address addresses st)
  then obtain request s rest where
    first: "prepare_request net address st = Inr (request, s)" and
    rest: "prepare_requests net addresses s = Inr (rest, st')" and
    requests: "requests = (case request of Some r \<Rightarrow> r # rest | None \<Rightarrow> rest)"
    by (auto split: sum.splits prod.splits)
  note approved = prepare_request_approved [OF first 2(4)]
  then have s: "state_approved bases s" by simp
  have "distinct (map rq_address rest)" using 2(1) [OF first refl rest _ s] 2(3) by simp
  moreover have "rq_address ` set rest \<subseteq> set addresses" using prepare_requests_approved [OF rest s] by simp
  ultimately show ?case using approved 2(3) by (cases request) (auto simp: requests)
qed simp

lemma rdap_prepare_distinct:
  assumes "rdap_prepare net json config request_timeout addresses truncated = Inr (requests, st)"
    and "distinct addresses"
  shows "distinct (map rq_address requests) \<and> sorted (rs_failures st) \<and> distinct (rs_failures st)"
proof -
  let ?bases = "rc_allowed_bases config"
  let ?st0 = "\<lparr>rs_failures = (if truncated then [''address limit reached''] else []),
      rs_ipv4 = None, rs_ipv6 = None, rs_clients = new_clients request_timeout\<rparr>"
  obtain st1 st2 where
    one: "bootstrap_round net json ?bases addresses False (rc_ipv4_bootstrap config) ?st0 = Inr st1" and
    two: "bootstrap_round net json ?bases addresses True (rc_ipv6_bootstrap config) st1 = Inr st2" and
    requests: "prepare_requests net addresses st2 = Inr (requests, st)"
    using assms unfolding rdap_prepare_def Let_def by (auto split: sum.splits)
  let ?canonical = "\<lambda>s :: 'a rdap_state. sorted (rs_failures s) \<and> distinct (rs_failures s)"
  have fail: "?canonical (rdap_failure x s)" for x s by (simp add: rdap_failure_def set_insert_def)
  have round: "?canonical s'" if "bootstrap_round net json ?bases addresses ipv6 ep s = Inr s'" "?canonical s"
    for ipv6 ep s s'
    using that unfolding bootstrap_round_def Let_def
    by (auto simp: fail split: if_splits option.splits prod.splits sum.splits fetch_error.splits)
  have prepare: "?canonical s'" if "prepare_request net a s = Inr (rq, s')" "?canonical s" for a s s' rq
    using that unfolding prepare_request_def Let_def
    by (auto simp: fail split: option.splits prod.splits sum.splits fetch_error.splits)
  have prepares: "?canonical s'" if "prepare_requests net as s = Inr (rqs, s')" "?canonical s" for as s s' rqs
    using that
  proof (induction as arbitrary: s rqs)
    case (Cons a as)
    then obtain rq s1 rqs1 where "prepare_request net a s = Inr (rq, s1)" "prepare_requests net as s1 = Inr (rqs1, s')"
      by (auto split: sum.splits prod.splits)
    then show ?case using Cons.IH prepare Cons.prems(2) by blast
  qed simp
  have "state_approved ?bases ?st0" by (simp add: state_approved_def)
  from bootstrap_round_approved [OF two bootstrap_round_approved [OF one this]]
  have "distinct (map rq_address requests)" using prepare_requests_distinct [OF requests assms(2)] by simp
  moreover have "?canonical ?st0" by simp
  then have "?canonical st" using prepares [OF requests round [OF two round [OF one]]] by blast
  ultimately show ?thesis by simp
qed

lemma arrival_observation_keys:
  "set (map nr_address (filter_map (arrival_observation json) arrived)) \<subseteq> fst ` set arrived \<and>
   (distinct (map fst arrived) \<longrightarrow> distinct (map nr_address (filter_map (arrival_observation json) arrived)))"
proof (induction arrived)
  case (Cons a arrived)
  have "nr_address o' = fst a" if "arrival_observation json a = Some o'" for o'
    using that parse_rdap_response_covers
    by (fastforce simp: arrival_observation_def split: prod.splits sum.splits)
  with Cons show ?case by (auto split: option.splits)
qed simp

lemma registrations_order_free:
  fixes net :: "'u intel_net"
  assumes arrive: "fair_pool arrive" "fair_pool arrive'"
    and running: "\<And>client url. get_bounded net client url MAX_RDAP_RESPONSE_BYTES \<notin>
      {Inl Fetch_Cancelled, Inl Fetch_Deadline}"
  shows "analyze_network_registrations arrive net json config request_timeout report =
    analyze_network_registrations arrive' net json config request_timeout report"
proof -
  obtain addresses truncated where eligible:
    "eligible_primary_addresses report MAX_RDAP_ADDRESSES = (addresses, truncated)" by fastforce
  then have addresses: "distinct addresses" using eligible_addresses by blast
  show ?thesis
  proof (cases "rdap_prepare net json config request_timeout addresses truncated")
    case (Inl stop)
    then show ?thesis by (simp add: analyze_network_registrations_def eligible)
  next
    case (Inr prepared)
    then obtain requests st where prepared: "rdap_prepare net json config request_timeout addresses truncated = Inr (requests, st)"
      by (cases prepared) simp
    let ?lookups = "map (rdap_lookup net) requests"
    note canonical = rdap_prepare_distinct [OF prepared addresses]
    have collect: "rdap_collect json (pool MAX_RDAP_CONCURRENCY ?lookups) [] (rs_failures st) =
        (filter_map (arrival_observation json) (pool MAX_RDAP_CONCURRENCY ?lookups),
         btree_set (rs_failures st @ filter_map (arrival_failure json) ?lookups), None)"
      if "fair_pool pool" for pool
    proof -
      have pool: "set (pool MAX_RDAP_CONCURRENCY ?lookups) = set ?lookups"
        using that by (rule fair_pool_set) (simp add: MAX_RDAP_CONCURRENCY_def)
      then have "list_all (\<lambda>a. \<not> arrival_stops a) (pool MAX_RDAP_CONCURRENCY ?lookups)"
        using running by (auto simp: list_all_iff arrival_stops_def rdap_lookup_def)
      moreover have "set (filter_map (arrival_failure json) (pool MAX_RDAP_CONCURRENCY ?lookups)) =
          set (filter_map (arrival_failure json) ?lookups)"
        using pool by (auto simp: set_filter_map simp del: set_map)
      ultimately show ?thesis
        using canonical by (simp add: rdap_collect_all btree_set_eq_iff)
    qed
    have "mset (arrive MAX_RDAP_CONCURRENCY ?lookups) = mset (arrive' MAX_RDAP_CONCURRENCY ?lookups)"
      using arrive by (simp add: fair_pool_mset MAX_RDAP_CONCURRENCY_def)
    then have "mset (filter_map (arrival_observation json) (arrive MAX_RDAP_CONCURRENCY ?lookups)) =
        mset (filter_map (arrival_observation json) (arrive' MAX_RDAP_CONCURRENCY ?lookups))"
      by (rule mset_filter_map)
    moreover have "distinct (map fst (arrive MAX_RDAP_CONCURRENCY ?lookups))"
    proof -
      have "mset (map fst (arrive MAX_RDAP_CONCURRENCY ?lookups)) = mset (map rq_address requests)"
        using fair_pool_mset [OF arrive(1), of MAX_RDAP_CONCURRENCY ?lookups]
        by (simp add: MAX_RDAP_CONCURRENCY_def rdap_lookup_def comp_def multiset.map_comp)
      then show ?thesis using canonical mset_eq_imp_distinct_iff by blast
    qed
    then have "distinct (map nr_address (filter_map (arrival_observation json) (arrive MAX_RDAP_CONCURRENCY ?lookups)))"
      using arrival_observation_keys by blast
    ultimately have "finish_network_registrations report
        (filter_map (arrival_observation json) (arrive MAX_RDAP_CONCURRENCY ?lookups)) fs stop =
      finish_network_registrations report
        (filter_map (arrival_observation json) (arrive' MAX_RDAP_CONCURRENCY ?lookups)) fs stop" for fs stop
      by (rule registrations.finish_perm)
    then show ?thesis
      by (simp add: analyze_network_registrations_def eligible prepared collect [OF arrive(1)] collect [OF arrive(2)])
  qed
qed

section \<open>What the analysis leaves in the report\<close>

definition sound_registration :: "scan_report \<Rightarrow> allowed_rdap_base list \<Rightarrow> network_registration_observation \<Rightarrow> bool" where
  \<comment> \<open>a registration of a public address of the primary target, by an approved registry, with no range or one over it\<close>
  "sound_registration report bases o' \<longleftrightarrow>
     is_public_destination (nr_address o') \<and>
     (\<exists>dns. rep_dns report = Some dns \<and> nr_address o' \<in> rh_ip ` set (dns_resolved_hosts dns)) \<and>
     nr_registry o' \<in> ab_registry ` set bases \<and> range_covers o'"

lemma registrations_sound:
  assumes "fair_pool arrive"
    and "o' \<in> set (evidence_in int_network_registrations
      (analyze_network_registrations arrive net json config request_timeout report))"
  shows "o' \<in> set (evidence_in int_network_registrations report) \<or>
    sound_registration report (rc_allowed_bases config) o'"
proof -
  obtain addresses truncated where eligible:
    "eligible_primary_addresses report MAX_RDAP_ADDRESSES = (addresses, truncated)" by fastforce
  show ?thesis
  proof (cases "addresses = []")
    case True
    with assms(2) eligible show ?thesis
      by (simp add: analyze_network_registrations_def record_network_registration_skip_def)
  next
    case False
    show ?thesis
    proof (cases "rdap_prepare net json config request_timeout addresses truncated")
      case (Inl stop)
      with assms(2) eligible False show ?thesis
        by (cases stop) (auto simp: analyze_network_registrations_def dest!: registrations.finish_members)
    next
      case (Inr prepared)
      then obtain requests st where prepared:
        "rdap_prepare net json config request_timeout addresses truncated = Inr (requests, st)"
        by (cases prepared) simp
      let ?arrived = "arrive MAX_RDAP_CONCURRENCY (map (rdap_lookup net) requests)"
      obtain obs fs stop where collect: "rdap_collect json ?arrived [] (rs_failures st) = (obs, fs, stop)"
        by (metis prod_cases3)
      then have "o' \<in> set (evidence_in int_network_registrations report) \<or> o' \<in> set obs"
        using assms(2) eligible False prepared
        by (auto simp: analyze_network_registrations_def dest!: registrations.finish_members)
      moreover have "sound_registration report (rc_allowed_bases config) o'" if "o' \<in> set obs"
      proof -
        have "o' \<in> set (filter_map (arrival_observation json) ?arrived)"
          using rdap_loop.collected_members [OF collect] that by auto
        then obtain a where "a \<in> set ?arrived" and a: "arrival_observation json a = Some o'"
          by (auto simp: set_filter_map)
        then obtain rq where rq: "rq \<in> set requests" and "a = rdap_lookup net rq"
          using fair_pool_set [OF assms(1), of MAX_RDAP_CONCURRENCY] by (auto simp: MAX_RDAP_CONCURRENCY_def)
        with a obtain body where
          "parse_rdap_response json body (rq_address rq) (rq_registry rq) = Inr o'"
          by (auto simp: arrival_observation_def rdap_lookup_def split: sum.splits)
        note covers = parse_rdap_response_covers [OF this]
        have "rq_registry rq \<in> ab_registry ` set (rc_allowed_bases config)" "rq_address rq \<in> set addresses"
          using rdap_prepare_approved [OF prepared] rq by (auto simp: request_approved_def)
        then show ?thesis
          using covers eligible_addresses [OF eligible] by (auto simp: sound_registration_def)
      qed
      ultimately show ?thesis by blast
    qed
  qed
qed

lemma analyze_network_registrations_honest:
  "completion_honest report \<Longrightarrow>
   completion_honest (analyze_network_registrations arrive net json config request_timeout report)"
  unfolding analyze_network_registrations_def record_network_registration_skip_def
  by (auto intro: registrations.finish_honest split: prod.split sum.split)

end
