(* ===== verification/Bgp.thy ===== *)
theory Bgp
  imports Intel_Evidence
begin

text \<open>
  Routed prefixes and origins, \<open>analyze_bgp_routes\<close> of \<^verbatim>\<open>crates/surface-core/src/intelligence.rs\<close>: one
  RIPEstat request per eligible address through one pinned client, the validated response, and the report.
  The decoder of the response envelope is an argument (\<open>envelope\<close>), as is the order of completion.
\<close>

section \<open>Model\<close>

definition MAX_BGP_ADDRESSES :: nat where "MAX_BGP_ADDRESSES = 8"
definition MAX_BGP_CONCURRENCY :: nat where "MAX_BGP_CONCURRENCY = 4"
definition MAX_BGP_RESPONSE_BYTES :: nat where "MAX_BGP_RESPONSE_BYTES = 128 * 1024"
definition MAX_BGP_ORIGIN_ASNS :: nat where "MAX_BGP_ORIGIN_ASNS = 4"

definition RIPESTAT_SOURCE :: string where
  "RIPESTAT_SOURCE = ''RIPE RIS via RIPEstat''"

definition RIPESTAT_OBSERVER_LIMITATION :: string where
  "RIPESTAT_OBSERVER_LIMITATION =
     ''RIPE RIS is observer-dependent and network-info uses eight-hour data dumps''"

record bgp_config =
  bc_endpoint :: string
  bc_scheme :: string
  bc_host :: string
  bc_port :: "u16 option"
  bc_path :: string

definition PRODUCTION_BGP_CONFIG :: bgp_config where
  "PRODUCTION_BGP_CONFIG =
     \<lparr>bc_endpoint = ''https://stat.ripe.net/data/network-info/data.json'', bc_scheme = ''https'',
      bc_host = ''stat.ripe.net'', bc_port = None, bc_path = ''/data/network-info/data.json''\<rparr>"

record ripe_stat_envelope =
  rse_status :: string
  rse_status_code :: u16
  rse_data_call_name :: string
  rse_data_call_status :: string
  rse_version :: string
  rse_asns :: "string list"
  rse_prefix :: string

datatype bgp_stop = Bgp_Cancelled | Bgp_Deadline

definition bgp_url_matches_policy :: "'u intel_urls \<Rightarrow> 'u \<Rightarrow> bgp_config \<Rightarrow> bool \<Rightarrow> bool" where
  "bgp_url_matches_policy urls url config query \<longleftrightarrow>
     iu_scheme urls url = bc_scheme config \<and> iu_username urls url = [] \<and> iu_password urls url = None \<and>
     iu_host_str urls url = Some (bc_host config) \<and> iu_port urls url = bc_port config \<and>
     iu_path urls url = bc_path config \<and> iu_fragment urls url = None \<and>
     query = (iu_query urls url \<noteq> None)"

definition construct_bgp_url :: "'u intel_urls \<Rightarrow> bgp_config \<Rightarrow> ip_addr \<Rightarrow> string + 'u" where
  "construct_bgp_url urls config address =
     (case iu_parse urls (bc_endpoint config) of
        None \<Rightarrow> Inl ''RIPEstat endpoint was invalid''
      | Some url \<Rightarrow>
          if \<not> bgp_url_matches_policy urls url config False then Inl ''RIPEstat endpoint failed validation''
          else
            let url = iu_append_pairs urls url [(''resource'', show_ip address)]
            in if \<not> bgp_url_matches_policy urls url config True \<or>
                  iu_query_pairs urls url \<noteq> [(''resource'', show_ip address)]
               then Inl ''constructed RIPEstat endpoint failed validation''
               else Inr url)"

definition parse_origin_asn :: "string \<Rightarrow> 32 word option" where
  \<comment> \<open>the closure over \<open>asns\<close>; every error of it has the same text\<close>
  "parse_origin_asn value =
     (if value = [] \<or> \<not> list_all is_ascii_digit value then None
      else (case parse_uint (2 ^ 32 - 1) value of
          None \<Rightarrow> None
        | Some asn \<Rightarrow> if asn = 0 \<or> value \<noteq> show_nat asn then None else Some (of_nat asn)))"

fun collect_options :: "'a option list \<Rightarrow> 'a list option" where
  \<comment> \<open>\<open>collect::<Result<Vec<_>, _>>\<close>\<close>
  "collect_options [] = Some []"
| "collect_options (None # xs) = None"
| "collect_options (Some x # xs) = map_option (Cons x) (collect_options xs)"

definition valid_ripe_version :: "string \<Rightarrow> bool" where
  "valid_ripe_version version =
     (case split_once CHR ''.'' version of
        Some (major, minor) \<Rightarrow> major = ''1'' \<and> parse_uint 65535 minor \<noteq> None
      | None \<Rightarrow> False)"

definition bgp_observation ::
    "ip_addr \<Rightarrow> string option \<Rightarrow> 32 word list \<Rightarrow> bool \<Rightarrow> string list \<Rightarrow> bgp_route_observation" where
  "bgp_observation address prefix origins complete limitations =
     \<lparr>bgp_address = address, bgp_prefix = prefix, bgp_origin_asns = origins, bgp_source = RIPESTAT_SOURCE,
      bgp_complete = complete, bgp_limitations = limitations\<rparr>"

definition attribute_route :: "ip_addr \<Rightarrow> string \<Rightarrow> 32 word list \<Rightarrow> string + bgp_route_observation" where
  \<comment> \<open>the part of \<open>parse_bgp_response\<close> after the origins\<close>
  "attribute_route address prefix_text origins =
     (let limitations = [RIPESTAT_OBSERVER_LIMITATION]
      in if prefix_text = [] then
           (if origins = [] then Inr (bgp_observation address None [] True limitations)
            else Inr (bgp_observation address None [] False (push limitations
              ''RIPEstat returned origin ASNs without a routed prefix; attribution was discarded'')))
         else (case parse_prefix prefix_text of
             Inl _ \<Rightarrow> Inl ''RIPEstat response contained an invalid routed prefix''
           | Inr prefix \<Rightarrow>
               if \<not> prefix_contains prefix address then
                 Inl ''RIPEstat routed prefix did not contain the queried address''
               else
                 let canonical = Some (canonical_prefix prefix)
                 in if origins = [] then
                      Inr (bgp_observation address canonical [] False (push limitations
                        ''RIPEstat returned a routed prefix without origin ASNs; attribution is indeterminate''))
                    else
                      let limitations =
                            (if 1 < length origins then push limitations
                               ''multiple origin ASNs were observed; no canonical origin was selected''
                             else limitations)
                      in if MAX_BGP_ORIGIN_ASNS < length origins then
                           Inr (bgp_observation address canonical (take MAX_BGP_ORIGIN_ASNS origins) False
                             (push limitations
                               ''origin ASN limit reached; four sorted origins were retained''))
                         else Inr (bgp_observation address canonical origins True limitations)))"

definition parse_bgp_response ::
    "(bytes \<Rightarrow> ripe_stat_envelope option) \<Rightarrow> bytes \<Rightarrow> ip_addr \<Rightarrow> string + bgp_route_observation" where
  "parse_bgp_response envelope body address =
     (if validate_json_depth body = None then Inl ''RIPEstat JSON exceeded nesting limit''
      else (case envelope body of
          None \<Rightarrow> Inl ''RIPEstat response was invalid''
        | Some response \<Rightarrow>
            if rse_status response \<noteq> ''ok'' \<or> rse_status_code response \<noteq> 200 \<or>
               rse_data_call_name response \<noteq> ''network-info'' \<or>
               rse_data_call_status response \<noteq> ''supported'' \<or>
               \<not> valid_ripe_version (rse_version response)
            then Inl ''RIPEstat response envelope was not successful''
            else (case collect_options (map parse_origin_asn (rse_asns response)) of
                None \<Rightarrow> Inl ''RIPEstat response contained an invalid origin ASN''
              | Some origins \<Rightarrow>
                  attribute_route address (rse_prefix response) (btree_set origins))))"

fun bgp_fetch_reason :: "fetch_error \<Rightarrow> string" where
  "bgp_fetch_reason Fetch_Timeout = ''RIPEstat request timed out''"
| "bgp_fetch_reason Fetch_Resolution = ''RIPEstat hostname resolution failed''"
| "bgp_fetch_reason Fetch_Destination = ''RIPEstat destination was not public''"
| "bgp_fetch_reason Fetch_Request = ''RIPEstat request failed''"
| "bgp_fetch_reason (Fetch_Http _) = ''RIPEstat service returned an HTTP error''"
| "bgp_fetch_reason Fetch_TooLarge = ''RIPEstat response exceeded 128 KiB''"
| "bgp_fetch_reason Fetch_Cancelled = ''scan interrupted''"
| "bgp_fetch_reason Fetch_Deadline = ''global timeout expired''"

definition record_bgp_skip :: "scan_report \<Rightarrow> string \<Rightarrow> scan_report" where
  "record_bgp_skip report reason = replace_skip ''bgp_origin'' reason report"

definition finish_bgp_routes ::
    "scan_report \<Rightarrow> bgp_route_observation list \<Rightarrow> string list \<Rightarrow> bgp_stop option \<Rightarrow> scan_report" where
  "finish_bgp_routes report observations failures stop =
     (let observations = sort_key bgp_address observations;
          report =
            (if observations \<noteq> [] \<or> failures \<noteq> [] \<or> stop \<noteq> None then
               let i = intelligence_of report
               in report\<lparr>rep_intelligence := Some (i\<lparr>
                    int_bgp_routes := dedup_by_key bgp_address (sort_key bgp_address (int_bgp_routes i @ observations)),
                    int_complete := int_complete i \<and> failures = [] \<and> stop = None\<rparr>)\<rparr>
             else report)
      in case stop of
           Some Bgp_Cancelled \<Rightarrow>
             record_bgp_skip (mark_intelligence_interrupted report) ''scan interrupted''
         | Some Bgp_Deadline \<Rightarrow>
             record_bgp_skip (mark_intelligence_partial report) ''global timeout expired''
         | None \<Rightarrow>
             if failures \<noteq> [] then
               record_bgp_skip (mark_intelligence_partial report)
                 (''BGP origin lookup incomplete: '' @ join ''; '' failures)
             else report)"

fun bgp_requests ::
    "'u intel_urls \<Rightarrow> bgp_config \<Rightarrow> ip_addr list \<Rightarrow> string list \<Rightarrow> (ip_addr \<times> 'u) list \<times> string list" where
  \<comment> \<open>the loop that constructs the URLs, with the failures\<close>
  "bgp_requests urls config [] failures = ([], failures)"
| "bgp_requests urls config (address # addresses) failures =
     (case construct_bgp_url urls config address of
        Inr url \<Rightarrow>
          (case bgp_requests urls config addresses failures of (requests, failures) \<Rightarrow>
             ((address, url) # requests, failures))
      | Inl reason \<Rightarrow> bgp_requests urls config addresses (set_insert reason failures))"

type_synonym bgp_arrival = "ip_addr \<times> (fetch_error + bytes)"

definition incomplete_bgp_reason :: string where
  "incomplete_bgp_reason = ''RIPEstat returned incomplete BGP evidence''"

fun bgp_collect ::
    "(bytes \<Rightarrow> ripe_stat_envelope option) \<Rightarrow> bgp_arrival list \<Rightarrow> bgp_route_observation list \<Rightarrow> string list \<Rightarrow>
     bgp_route_observation list \<times> string list \<times> bgp_stop option" where
  "bgp_collect envelope [] observations failures = (observations, failures, None)"
| "bgp_collect envelope ((address, response) # arrived) observations failures =
     (case response of
        Inr body \<Rightarrow>
          (case parse_bgp_response envelope body address of
             Inr observation \<Rightarrow>
               bgp_collect envelope arrived (push observations observation)
                 (if \<not> bgp_complete observation then set_insert incomplete_bgp_reason failures else failures)
           | Inl reason \<Rightarrow> bgp_collect envelope arrived observations (set_insert reason failures))
      | Inl Fetch_Cancelled \<Rightarrow> (observations, failures, Some Bgp_Cancelled)
      | Inl Fetch_Deadline \<Rightarrow> (observations, failures, Some Bgp_Deadline)
      | Inl error \<Rightarrow> bgp_collect envelope arrived observations (set_insert (bgp_fetch_reason error) failures))"

definition analyze_bgp_routes ::
    "(nat \<Rightarrow> bgp_arrival list \<Rightarrow> bgp_arrival list) \<Rightarrow> 'u intel_net \<Rightarrow> (bytes \<Rightarrow> ripe_stat_envelope option) \<Rightarrow>
     bgp_config \<Rightarrow> nat \<Rightarrow> scan_report \<Rightarrow> scan_report" where
  \<comment> \<open>\<open>analyze_bgp_routes_with\<close>\<close>
  "analyze_bgp_routes arrive net envelope config request_timeout report =
     (case eligible_primary_addresses report MAX_BGP_ADDRESSES of (addresses, truncated) \<Rightarrow>
        if addresses = [] then
          record_bgp_skip report ''no eligible external address in primary DNS results''
        else (case bgp_requests (in_urls net) config addresses
                (if truncated then [''address limit reached''] else []) of
            ([], failures) \<Rightarrow> finish_bgp_routes report [] failures None
          | ((first, first_url) # others, failures) \<Rightarrow>
              (case fst (client_for net first_url (new_clients request_timeout)) of
                 Inl Fetch_Cancelled \<Rightarrow> finish_bgp_routes report [] failures (Some Bgp_Cancelled)
               | Inl Fetch_Deadline \<Rightarrow> finish_bgp_routes report [] failures (Some Bgp_Deadline)
               | Inl error \<Rightarrow>
                   finish_bgp_routes report [] (set_insert (bgp_fetch_reason error) failures) None
               | Inr client \<Rightarrow>
                   let lookups = map (\<lambda>(address, url).
                         (address, get_bounded net client url MAX_BGP_RESPONSE_BYTES)) ((first, first_url) # others)
                   in case bgp_collect envelope (arrive MAX_BGP_CONCURRENCY lookups) [] failures of
                        (observations, failures, stop) \<Rightarrow> finish_bgp_routes report observations failures stop)))"

section \<open>The writer keeps its contract\<close>

lemma finish_bgp_routes_frame:
  "rep_intelligence (finish_bgp_routes r obs fs stop) =
    (if obs = [] \<and> fs = [] \<and> stop = None then rep_intelligence r
     else Some ((intelligence_of r)\<lparr>
       int_bgp_routes := dedup_by_key bgp_address
         (sort_key bgp_address (int_bgp_routes (intelligence_of r) @ sort_key bgp_address obs)),
       int_complete := int_complete (intelligence_of r) \<and> fs = [] \<and> stop = None\<rparr>))"
  by (auto simp: finish_bgp_routes_def record_bgp_skip_def Let_def split: option.split bgp_stop.split)

interpretation routes: evidence_writer finish_bgp_routes int_bgp_routes bgp_address Bgp_Cancelled
proof
  show "finish_bgp_routes r (sort_key bgp_address obs) fs stop = finish_bgp_routes r obs fs stop" for r obs fs stop
    by (simp add: finish_bgp_routes_def)
  show "evidence_in int_bgp_routes (finish_bgp_routes r obs fs stop) =
      (if obs = [] \<and> fs = [] \<and> stop = None then evidence_in int_bgp_routes r
       else dedup_by_key bgp_address
         (sort_key bgp_address (evidence_in int_bgp_routes r @ sort_key bgp_address obs)))" for r obs fs stop
    by (auto simp: evidence_in_def finish_bgp_routes_frame intelligence_of_def split: option.split)
  show "intelligence_complete (finish_bgp_routes r obs fs stop) \<longleftrightarrow>
      intelligence_complete r \<and> fs = [] \<and> stop = None" for r obs fs stop
    by (auto simp: intelligence_complete_def finish_bgp_routes_frame intelligence_of_def split: option.split)
  show "rep_status (finish_bgp_routes r obs fs stop) =
      (if stop = Some Bgp_Cancelled then (if rep_status r \<noteq> Failed then Interrupted else Failed)
       else if stop = None \<and> fs = [] then rep_status r
       else if rep_status r = Completed then Partial else rep_status r)" for r obs fs stop
    by (auto simp: finish_bgp_routes_def record_bgp_skip_def Let_def mark_partial_status
      split: option.split bgp_stop.split)
qed

lemma analyze_bgp_routes_honest:
  "completion_honest report \<Longrightarrow>
   completion_honest (analyze_bgp_routes arrive net envelope config request_timeout report)"
  unfolding analyze_bgp_routes_def record_bgp_skip_def Let_def
  by (auto intro: routes.finish_honest split: prod.split sum.split list.split fetch_error.split)

section \<open>Attribution\<close>

definition sound_route :: "bgp_route_observation \<Rightarrow> bool" where
  \<comment> \<open>origins need a covering prefix, and several prefixes' worth of doubt is recorded\<close>
  "sound_route o' \<longleftrightarrow>
     (bgp_prefix o' = None \<longrightarrow> bgp_origin_asns o' = []) \<and>
     (\<forall>text. bgp_prefix o' = Some text \<longrightarrow>
        (\<exists>p. text = canonical_prefix p \<and> in_block p (bgp_address o') \<and> pfx_length p \<le> address_bits (pfx_network p))) \<and>
     sorted_wrt (<) (bgp_origin_asns o') \<and> length (bgp_origin_asns o') \<le> MAX_BGP_ORIGIN_ASNS \<and>
     (bgp_complete o' \<longrightarrow> (bgp_prefix o' = None \<longleftrightarrow> bgp_origin_asns o' = []))"

lemma attribute_route_sound:
  assumes "attribute_route address text origins = Inr o'" and "sorted_wrt (<) origins"
  shows "bgp_address o' = address \<and> sound_route o'"
proof (cases "text = []")
  case True
  with assms show ?thesis
    by (auto simp: attribute_route_def bgp_observation_def sound_route_def Let_def split: if_splits)
next
  case False
  then obtain p where p: "parse_prefix text = Inr p" "in_block p address"
    using assms(1) by (auto simp: attribute_route_def prefix_contains_in_block Let_def split: sum.splits if_splits)
  have witness: "\<exists>q. canonical_prefix p = canonical_prefix q \<and> in_block q address \<and>
      pfx_length q \<le> address_bits (pfx_network q)"
    using p parse_prefix_bits by blast
  from False p assms show ?thesis
    by (auto simp: attribute_route_def bgp_observation_def sound_route_def prefix_contains_in_block Let_def witness
      sorted_wrt_take split: if_splits)
qed

lemma btree_set_strict: "sorted_wrt (<) (btree_set xs)"
  by (simp add: strict_sorted_iff)

lemma parse_bgp_response_sound:
  "parse_bgp_response envelope body address = Inr o' \<Longrightarrow> bgp_address o' = address \<and> sound_route o'"
  unfolding parse_bgp_response_def
  by (auto dest: attribute_route_sound simp: btree_set_strict split: if_splits option.splits)

section \<open>Collected routes\<close>

definition bgp_arrival_observation ::
    "(bytes \<Rightarrow> ripe_stat_envelope option) \<Rightarrow> bgp_arrival \<Rightarrow> bgp_route_observation option" where
  "bgp_arrival_observation envelope a =
     (case snd a of
        Inr body \<Rightarrow> (case parse_bgp_response envelope body (fst a) of Inr o' \<Rightarrow> Some o' | Inl _ \<Rightarrow> None)
      | Inl _ \<Rightarrow> None)"

interpretation bgp_loop: arrival_loop "bgp_collect envelope" "bgp_arrival_observation envelope" for envelope
proof
  show "\<exists>obs' fs'. set obs' \<subseteq> set obs \<union> set_option (bgp_arrival_observation envelope a) \<and>
      (bgp_collect envelope (a # as) obs fs = bgp_collect envelope as obs' fs' \<or>
       (\<exists>stop. bgp_collect envelope (a # as) obs fs = (obs', fs', stop)))" for a as obs fs
  proof (cases a)
    case (Pair address response)
    show ?thesis
    proof (cases response)
      case (Inl e)
      have "set obs \<subseteq> set obs \<union> set_option (bgp_arrival_observation envelope a)" by simp
      then show ?thesis
        by (intro exI [of _ obs] exI [of _ "case e of Fetch_Cancelled \<Rightarrow> fs | Fetch_Deadline \<Rightarrow> fs
            | _ \<Rightarrow> set_insert (bgp_fetch_reason e) fs"] conjI) (simp_all add: Pair Inl split: fetch_error.split)
    next
      case (Inr body)
      show ?thesis
      proof (cases "parse_bgp_response envelope body address")
        case (Inl reason)
        then show ?thesis
          by (intro exI [of _ obs] exI [of _ "set_insert reason fs"])
            (simp add: Pair Inr bgp_arrival_observation_def)
      next
        case (Inr o')
        then show ?thesis
          by (intro exI [of _ "push obs o'"]
              exI [of _ "if \<not> bgp_complete o' then set_insert incomplete_bgp_reason fs else fs"])
            (simp add: Pair \<open>response = Inr body\<close> bgp_arrival_observation_def)
      qed
    qed
  qed
qed simp

definition bgp_url_for :: "'u intel_urls \<Rightarrow> bgp_config \<Rightarrow> ip_addr \<Rightarrow> 'u \<Rightarrow> bool" where
  \<comment> \<open>the endpoint of the configuration with the address as the only parameter\<close>
  "bgp_url_for urls config address url \<longleftrightarrow>
     bgp_url_matches_policy urls url config True \<and> iu_query_pairs urls url = [(''resource'', show_ip address)]"

lemma bgp_requests_policy:
  "bgp_requests urls config addresses failures = (requests, failures') \<Longrightarrow>
   (\<forall>(address, url) \<in> set requests. address \<in> set addresses \<and> bgp_url_for urls config address url)"
proof (induction urls config addresses failures arbitrary: requests rule: bgp_requests.induct)
  case (2 urls config address addresses failures)
  show ?case
  proof (cases "construct_bgp_url urls config address")
    case (Inl reason)
    with 2 show ?thesis by fastforce
  next
    case (Inr url)
    then have "bgp_url_for urls config address url"
      by (auto simp: construct_bgp_url_def bgp_url_for_def Let_def split: option.splits if_splits)
    moreover obtain rest where "bgp_requests urls config addresses failures = (rest, failures')"
      "requests = (address, url) # rest"
      using 2(3) Inr by (auto split: prod.splits)
    ultimately show ?thesis using 2(1,2) Inr by fastforce
  qed
qed simp

lemma routes_sound:
  assumes "fair_pool arrive"
    and "o' \<in> set (evidence_in int_bgp_routes (analyze_bgp_routes arrive net envelope config request_timeout report))"
  shows "o' \<in> set (evidence_in int_bgp_routes report) \<or>
    sound_route o' \<and> is_public_destination (bgp_address o') \<and>
    (\<exists>dns. rep_dns report = Some dns \<and> bgp_address o' \<in> rh_ip ` set (dns_resolved_hosts dns))"
proof -
  obtain addresses truncated where eligible:
    "eligible_primary_addresses report MAX_BGP_ADDRESSES = (addresses, truncated)" by fastforce
  obtain requests failures where requests: "bgp_requests (in_urls net) config addresses
      (if truncated then [''address limit reached''] else []) = (requests, failures)" by fastforce
  let ?client = "fst (client_for net (snd (hd requests)) (new_clients request_timeout))"
  show ?thesis
  proof (cases "addresses \<noteq> [] \<and> requests \<noteq> [] \<and> (\<exists>client. ?client = Inr client)")
    case False
    with assms(2) eligible requests show ?thesis
      by (cases requests)
        (auto simp: analyze_bgp_routes_def record_bgp_skip_def dest!: routes.finish_members
          split: if_splits sum.splits fetch_error.splits)
  next
    case True
    then obtain client first first_url others where
      cons: "addresses \<noteq> []" "requests = (first, first_url) # others" "?client = Inr client"
      by (cases requests) auto
    let ?lookup = "\<lambda>(address, url). (address, get_bounded net client url MAX_BGP_RESPONSE_BYTES)"
    let ?arrived = "arrive MAX_BGP_CONCURRENCY (map ?lookup requests)"
    obtain obs fs stop where collect: "bgp_collect envelope ?arrived [] failures = (obs, fs, stop)"
      by (metis prod_cases3)
    have "o' \<in> set (evidence_in int_bgp_routes (finish_bgp_routes report obs fs stop))"
      using assms(2) eligible requests cons collect by (simp add: analyze_bgp_routes_def Let_def)
    moreover have "sound_route o' \<and> bgp_address o' \<in> set addresses" if "o' \<in> set obs"
    proof -
      have "o' \<in> set (filter_map (bgp_arrival_observation envelope) ?arrived)"
        using bgp_loop.collected_members [OF collect] that by auto
      then obtain a where "a \<in> set ?arrived" and a: "bgp_arrival_observation envelope a = Some o'"
        by (auto simp: set_filter_map)
      then have "a \<in> set (map ?lookup requests)"
        using fair_pool_set [OF assms(1), of MAX_BGP_CONCURRENCY] by (simp add: MAX_BGP_CONCURRENCY_def)
      then have "fst a \<in> set addresses" using bgp_requests_policy [OF requests] by auto
      moreover obtain body where "parse_bgp_response envelope body (fst a) = Inr o'"
        using a by (auto simp: bgp_arrival_observation_def split: sum.splits)
      ultimately show ?thesis using parse_bgp_response_sound by metis
    qed
    ultimately show ?thesis
      using eligible_addresses [OF eligible] by (auto dest: routes.finish_members)
  qed
qed

end
