(* ===== verification/Supplied_Intel.thy ===== *)
theory Supplied_Intel
  imports Target Intel_Evidence Lifecycle
begin

text \<open>
  The intelligence the user supplies inputs for, \<open>analyze_intelligence\<close> and \<open>parse_bundle\<close> of
  \<^verbatim>\<open>crates/surface-core/src/intelligence.rs\<close>: child domains to resolve, DKIM selectors to look up, and an
  offline bundle to correlate with the report. The DNS analysis of a child domain, the TXT lookup, the
  decoder of the bundle and SHA-256 are arguments; the questions about cancellation and the deadline are
  answered separately at every place they are asked.
\<close>

section \<open>The bundle\<close>

definition MAX_SUBDOMAINS :: nat where "MAX_SUBDOMAINS = 32"
definition MAX_SELECTORS :: nat where "MAX_SELECTORS = 32"
definition MAX_BUNDLE_ENTRIES :: nat where "MAX_BUNDLE_ENTRIES = 100000"

record network_entry =
  ne_prefix :: string
  ne_asn :: "32 word option"
  ne_organization :: "string option"
  ne_country :: "string option"

record vulnerability_entry =
  ve_product :: string
  ve_version :: string
  ve_cve_id :: string
  ve_severity :: string
  ve_advisory_url :: string

record intelligence_bundle =
  ib_schema_version :: string
  ib_source :: string
  ib_source_timestamp :: int
  ib_networks :: "network_entry list"
  ib_vulnerabilities :: "vulnerability_entry list"

definition bounded_field :: "string option \<Rightarrow> nat \<Rightarrow> string + unit" where
  "bounded_field value maximum =
     (case value of
        Some v \<Rightarrow> if maximum < length v then Inl ''intelligence field is oversized'' else Inr ()
      | None \<Rightarrow> Inr ())"

definition valid_cve :: "string \<Rightarrow> bool" where
  "valid_cve value \<longleftrightarrow>
     starts_with value ''CVE-'' \<and> list_all (\<lambda>b. is_ascii_alphanumeric b \<or> b = CHR ''-'') value"

fun check_all :: "('a \<Rightarrow> string + unit) \<Rightarrow> 'a list \<Rightarrow> string + unit" where
  \<comment> \<open>a \<open>for\<close> loop whose body returns at the first error\<close>
  "check_all check [] = Inr ()"
| "check_all check (x # xs) = (case check x of Inl e \<Rightarrow> Inl e | Inr _ \<Rightarrow> check_all check xs)"

definition check_network :: "network_entry \<Rightarrow> string + unit" where
  "check_network entry =
     (case parse_prefix (ne_prefix entry) of
        Inl e \<Rightarrow> Inl e
      | Inr _ \<Rightarrow>
          (case bounded_field (ne_organization entry) 512 of
             Inl e \<Rightarrow> Inl e
           | Inr _ \<Rightarrow> bounded_field (ne_country entry) 8))"

definition check_vulnerability :: "vulnerability_entry \<Rightarrow> string + unit" where
  "check_vulnerability entry =
     (if \<not> valid_cve (ve_cve_id entry) \<or> \<not> starts_with (ve_advisory_url entry) ''https://'' then
        Inl ''intelligence bundle contains an invalid advisory''
      else if list_ex (\<lambda>value. value = [] \<or> 1024 < length value)
          [ve_product entry, ve_version entry, ve_severity entry, ve_advisory_url entry] then
        Inl ''intelligence bundle contains invalid text''
      else Inr ())"

definition parse_bundle :: "(bytes \<Rightarrow> string + intelligence_bundle) \<Rightarrow> bytes \<Rightarrow> string + intelligence_bundle" where
  "parse_bundle decode json =
     (if 16 * 1024 * 1024 < length json then Inl ''intelligence bundle exceeds 16 MiB''
      else (case decode json of
          Inl error \<Rightarrow> Inl (''invalid intelligence bundle: '' @ error)
        | Inr bundle \<Rightarrow>
            if ib_schema_version bundle \<noteq> ''1.0'' then Inl ''unsupported intelligence bundle schema''
            else if MAX_BUNDLE_ENTRIES < length (ib_networks bundle) + length (ib_vulnerabilities bundle) then
              Inl ''intelligence bundle has too many entries''
            else (case check_all check_network (ib_networks bundle) of
                Inl e \<Rightarrow> Inl e
              | Inr _ \<Rightarrow>
                  (case check_all check_vulnerability (ib_vulnerabilities bundle) of
                     Inl e \<Rightarrow> Inl e
                   | Inr _ \<Rightarrow>
                       Inr (bundle\<lparr>
                         ib_networks := sort_key ne_prefix (ib_networks bundle),
                         ib_vulnerabilities :=
                           sort_key (\<lambda>v. (ve_cve_id v, ve_product v, ve_version v)) (ib_vulnerabilities bundle)\<rparr>)))))"

section \<open>Correlation\<close>

definition best_network :: "network_entry list \<Rightarrow> ip_addr \<Rightarrow> (network_entry \<times> net_prefix) option" where
  \<comment> \<open>\<open>best\<close> of \<open>correlate_networks\<close>\<close>
  "best_network networks address =
     max_by_key (\<lambda>(_, prefix). pfx_length prefix)
       (filter (\<lambda>(_, prefix). prefix_contains prefix address)
         (filter_map (\<lambda>entry. case parse_prefix (ne_prefix entry) of
             Inl _ \<Rightarrow> None | Inr prefix \<Rightarrow> Some (entry, prefix)) networks))"

definition correlate_networks :: "scan_report \<Rightarrow> intelligence_bundle \<Rightarrow> network_metadata list" where
  "correlate_networks report bundle =
     sort_key nm_address (filter_map
       (\<lambda>address. map_option (\<lambda>(entry, _).
           \<lparr>nm_address = address, nm_prefix = ne_prefix entry, nm_asn = ne_asn entry,
            nm_organization = ne_organization entry, nm_country = ne_country entry\<rparr>)
         (best_network (ib_networks bundle) address))
       (map host_ip (rep_hosts report)))"

definition first_word :: "string \<Rightarrow> string option" where
  \<comment> \<open>\<open>split_whitespace().next()\<close>\<close>
  "first_word s =
     (case takeWhile (\<lambda>g. \<not> is_whitespace g) (dropWhile is_whitespace (chars s)) of
        [] \<Rightarrow> None
      | gs \<Rightarrow> Some (concat gs))"

definition openssh_version :: "service_observation \<Rightarrow> string option" where
  \<comment> \<open>the version \<open>correlate_cves\<close> inserts for a service\<close>
  "openssh_version service =
     (case svc_banner service of
        None \<Rightarrow> None
      | Some banner \<Rightarrow>
          map_option (\<lambda>rest.
              map (\<lambda>c. if c = CHR ''p'' then CHR ''.'' else c)
                (case first_word rest of Some w \<Rightarrow> w | None \<Rightarrow> rest))
            (strip_prefix banner ''SSH-2.0-OpenSSH_''))"

definition correlate_cves :: "scan_report \<Rightarrow> intelligence_bundle \<Rightarrow> cve_candidate list" where
  "correlate_cves report bundle =
     (let products = btree_set (map (\<lambda>version. (''openssh'', version))
            (filter_map openssh_version (rep_services report)))
      in sort_key (\<lambda>c. (cve_id c, cve_product c)) (map
           (\<lambda>entry. \<lparr>cve_id = ve_cve_id entry, cve_product = ve_product entry, cve_version = ve_version entry,
              cve_severity = ve_severity entry, cve_advisory_url = ve_advisory_url entry,
              cve_source = ib_source bundle, cve_confidence = ''candidate''\<rparr>)
           (filter (\<lambda>entry. (to_ascii_lowercase (ve_product entry), ve_version entry) \<in> set products)
             (ib_vulnerabilities bundle))))"

section \<open>DKIM\<close>

definition hex_text :: "u8 list \<Rightarrow> string" where
  \<comment> \<open>the function \<open>hex\<close>\<close>
  "hex_text bytes = concat (map (\<lambda>b. [hex_digit (unat b div 16), hex_digit (unat b mod 16)]) bytes)"

definition dkim_tags :: "string \<Rightarrow> (string \<times> string) list" where
  "dkim_tags joined = btm_of_list (filter_map (\<lambda>part. split_once CHR ''='' (trim part)) (split_on CHR '';'' joined))"

definition parse_dkim :: "(string \<Rightarrow> u8 list) \<Rightarrow> string \<Rightarrow> string list \<Rightarrow> dkim_observation" where
  "parse_dkim sha256 selector records =
     (let joined = (case records of r # _ \<Rightarrow> r | [] \<Rightarrow> []);
          tags = dkim_tags joined;
          key = map_of tags ''p''
      in \<lparr>dkim_selector = selector, dkim_records = length records, dkim_version = map_of tags ''v'',
          dkim_key_type = map_of tags ''k'',
          dkim_public_key_fingerprint =
            (case key of
               Some value \<Rightarrow> if value \<noteq> [] then Some (''sha256:'' @ hex_text (sha256 value)) else None
             | None \<Rightarrow> None),
          dkim_revoked = (key = Some []),
          dkim_malformed = (1 < length records \<or>
            joined \<noteq> [] \<and> (map_of tags ''v'' \<noteq> Some ''DKIM1'' \<or> key = None))\<rparr>)"

definition validate_selector :: "string \<Rightarrow> string + unit" where
  "validate_selector value =
     (if value = [] \<or> 63 < length value \<or>
         \<not> list_all (\<lambda>b. is_ascii_alphanumeric b \<or> b \<in> {CHR ''-'', CHR ''_''}) value
      then Inl ''invalid DKIM selector'' else Inr ())"

section \<open>The analysis\<close>

datatype 'a awaited = Await_Cancelled | Await_Deadline | Await_Ready "string + 'a"

record supplied_world =
  sw_stop :: "bool \<Rightarrow> nat \<Rightarrow> interruption" \<comment> \<open>at round n of the loop over selectors (True) or child domains\<close>
  sw_dns :: "normalized_target \<Rightarrow> dns_observation awaited"
  sw_txt :: "nat \<Rightarrow> string \<Rightarrow> string list awaited"
  sw_sha256 :: "string \<Rightarrow> u8 list"

definition record_intelligence_stop :: "string \<Rightarrow> intelligence_observation \<Rightarrow> intelligence_observation" where
  "record_intelligence_stop reason i =
     i\<lparr>int_complete := False,
       int_errors := (if \<not> list_ex (\<lambda>error. error = reason) (int_errors i)
         then push (int_errors i) reason else int_errors i)\<rparr>"

definition stop_reason :: "interruption \<Rightarrow> string option" where
  \<comment> \<open>\<open>stop_supplied_intelligence\<close> records this reason and returns true\<close>
  "stop_reason q =
     (if int_cancelled q then Some ''intelligence collection was cancelled''
      else if int_expired q then Some ''intelligence collection deadline elapsed''
      else None)"

definition supplied_name :: "url_crate \<Rightarrow> string \<Rightarrow> string list \<Rightarrow> string \<Rightarrow> string + string" where
  \<comment> \<open>the checks of a supplied child domain\<close>
  "supplied_name uc primary names input =
     (case normalize_target uc input of
        Inl _ \<Rightarrow> Inl ''invalid supplied subdomain''
      | Inr target \<Rightarrow>
          (case tgt_hostname target of
             None \<Rightarrow> Inl ''supplied subdomain must be a hostname''
           | Some name \<Rightarrow>
               if name = primary \<or> \<not> ends_with name (''.'' @ primary) \<or> name \<in> set names then
                 Inl ''supplied subdomain is outside the primary domain or duplicated''
               else Inr name))"

fun supplied_subdomains ::
    "url_crate \<Rightarrow> supplied_world \<Rightarrow> string \<Rightarrow> nat \<Rightarrow> string list \<Rightarrow> string list \<Rightarrow>
     intelligence_observation \<Rightarrow> string + intelligence_observation" where
  \<comment> \<open>the loop over the child domains; \<open>Inr\<close> also where it breaks\<close>
  "supplied_subdomains uc w primary n names [] i = Inr i"
| "supplied_subdomains uc w primary n names (input # inputs) i =
     (case stop_reason (sw_stop w False n) of
        Some reason \<Rightarrow> Inr (record_intelligence_stop reason i)
      | None \<Rightarrow>
          (case supplied_name uc primary names input of
             Inl e \<Rightarrow> Inl e
           | Inr name \<Rightarrow>
               (case normalize_target uc name of
                  Inl _ \<Rightarrow> Inl ''invalid supplied subdomain''
                | Inr dns_target \<Rightarrow>
                    (case sw_dns w dns_target of
                       Await_Cancelled \<Rightarrow>
                         Inr (record_intelligence_stop ''intelligence collection was cancelled'' i)
                     | Await_Deadline \<Rightarrow>
                         Inr (record_intelligence_stop ''intelligence collection deadline elapsed'' i)
                     | Await_Ready (Inr dns) \<Rightarrow>
                         supplied_subdomains uc w primary (Suc n) (name # names) inputs
                           (i\<lparr>int_subdomains := push (int_subdomains i)
                               \<lparr>sub_name = name, sub_dns = Some dns, sub_error = None\<rparr>\<rparr>)
                     | Await_Ready (Inl error) \<Rightarrow>
                         supplied_subdomains uc w primary (Suc n) (name # names) inputs
                           (i\<lparr>int_complete := False, int_subdomains := push (int_subdomains i)
                               \<lparr>sub_name = name, sub_dns = None, sub_error = Some error\<rparr>\<rparr>)))))"

definition record_dkim_result ::
    "(string \<Rightarrow> u8 list) \<Rightarrow> string \<Rightarrow> string + string list \<Rightarrow> intelligence_observation \<Rightarrow> intelligence_observation" where
  "record_dkim_result sha256 selector result i =
     (case result of
        Inr records \<Rightarrow> i\<lparr>int_dkim := push (int_dkim i) (parse_dkim sha256 selector records)\<rparr>
      | Inl error \<Rightarrow>
          i\<lparr>int_complete := False,
            int_errors := push (int_errors i) (''DKIM selector '' @ selector @ '': '' @ error),
            int_dkim := push (int_dkim i) (parse_dkim sha256 selector [])\<rparr>)"

fun supplied_selectors ::
    "supplied_world \<Rightarrow> string \<Rightarrow> nat \<Rightarrow> string list \<Rightarrow> intelligence_observation \<Rightarrow>
     string + intelligence_observation" where
  "supplied_selectors w primary n [] i = Inr i"
| "supplied_selectors w primary n (selector # selectors) i =
     (case stop_reason (sw_stop w True n) of
        Some reason \<Rightarrow> Inr (record_intelligence_stop reason i)
      | None \<Rightarrow>
          (case validate_selector selector of
             Inl e \<Rightarrow> Inl e
           | Inr _ \<Rightarrow>
               (case sw_txt w n (selector @ ''._domainkey.'' @ primary) of
                  Await_Cancelled \<Rightarrow>
                    Inr (record_intelligence_stop ''intelligence collection was cancelled'' i)
                | Await_Deadline \<Rightarrow>
                    Inr (record_intelligence_stop ''intelligence collection deadline elapsed'' i)
                | Await_Ready result \<Rightarrow>
                    supplied_selectors w primary (Suc n) selectors
                      (record_dkim_result (sw_sha256 w) selector result i))))"

definition analyze_intelligence ::
    "url_crate \<Rightarrow> supplied_world \<Rightarrow> scan_report \<Rightarrow> string list \<Rightarrow> string list \<Rightarrow> intelligence_bundle option \<Rightarrow>
     string + intelligence_observation" where
  "analyze_intelligence uc w report subdomains selectors bundle =
     (case tgt_hostname (rep_target report) of
        None \<Rightarrow> Inl ''intelligence inputs require a domain target''
      | Some primary \<Rightarrow>
          if MAX_SUBDOMAINS < length subdomains \<or> MAX_SELECTORS < length selectors then
            Inl ''too many supplied intelligence inputs''
          else
            let i = empty_intelligence\<lparr>int_bundle_version := map_option ib_schema_version bundle\<rparr>
            in case supplied_subdomains uc w primary 0 [] subdomains i of
                 Inl e \<Rightarrow> Inl e
               | Inr i \<Rightarrow>
                   (case supplied_selectors w primary 0 selectors i of
                      Inl e \<Rightarrow> Inl e
                    | Inr i \<Rightarrow>
                        let i = (case bundle of
                               Some bundle \<Rightarrow>
                                 if int_complete i then
                                   i\<lparr>int_networks := correlate_networks report bundle,
                                     int_cve_candidates := correlate_cves report bundle\<rparr>
                                 else i
                             | None \<Rightarrow> i)
                        in Inr (i\<lparr>int_subdomains := sort_key sub_name (int_subdomains i),
                                  int_dkim := sort_key dkim_selector (int_dkim i)\<rparr>)))"

section \<open>Lemmas\<close>

lemma check_all_Inr: "check_all check xs = Inr u \<longleftrightarrow> (\<forall>x \<in> set xs. check x = Inr ())"
  by (induction xs) (auto split: sum.splits)

definition bundle_wf :: "intelligence_bundle \<Rightarrow> bool" where
  \<comment> \<open>what the rest of the program may rely on in an accepted bundle\<close>
  "bundle_wf b \<longleftrightarrow>
     ib_schema_version b = ''1.0'' \<and>
     length (ib_networks b) + length (ib_vulnerabilities b) \<le> MAX_BUNDLE_ENTRIES \<and>
     sorted (map ne_prefix (ib_networks b)) \<and>
     sorted (map (\<lambda>v. (ve_cve_id v, ve_product v, ve_version v)) (ib_vulnerabilities b)) \<and>
     (\<forall>n \<in> set (ib_networks b). \<exists>p. parse_prefix (ne_prefix n) = Inr p) \<and>
     (\<forall>v \<in> set (ib_vulnerabilities b). valid_cve (ve_cve_id v) \<and> starts_with (ve_advisory_url v) ''https://'' \<and>
        (\<forall>t \<in> {ve_product v, ve_version v, ve_severity v, ve_advisory_url v}. t \<noteq> [] \<and> length t \<le> 1024))"

lemma check_network_Inr: "check_network entry = Inr u \<Longrightarrow> \<exists>p. parse_prefix (ne_prefix entry) = Inr p"
  by (auto simp: check_network_def split: sum.splits)

lemma check_vulnerability_Inr:
  "check_vulnerability v = Inr u \<Longrightarrow>
   valid_cve (ve_cve_id v) \<and> starts_with (ve_advisory_url v) ''https://'' \<and>
   (\<forall>t \<in> {ve_product v, ve_version v, ve_severity v, ve_advisory_url v}. t \<noteq> [] \<and> length t \<le> 1024)"
  by (auto simp: check_vulnerability_def split: if_splits)

lemma parse_bundle_wf:
  assumes "parse_bundle decode json = Inr b"
  shows "bundle_wf b"
proof -
  obtain raw where raw: "ib_schema_version raw = ''1.0''"
      "length (ib_networks raw) + length (ib_vulnerabilities raw) \<le> MAX_BUNDLE_ENTRIES"
      "check_all check_network (ib_networks raw) = Inr ()"
      "check_all check_vulnerability (ib_vulnerabilities raw) = Inr ()"
    and b: "b = raw\<lparr>ib_networks := sort_key ne_prefix (ib_networks raw),
      ib_vulnerabilities := sort_key (\<lambda>v. (ve_cve_id v, ve_product v, ve_version v)) (ib_vulnerabilities raw)\<rparr>"
    using assms by (auto simp: parse_bundle_def split: if_splits sum.splits)
  have "\<forall>n \<in> set (ib_networks raw). \<exists>p. parse_prefix (ne_prefix n) = Inr p"
    using raw(3) check_network_Inr unfolding check_all_Inr by blast
  moreover have "\<forall>v \<in> set (ib_vulnerabilities raw). valid_cve (ve_cve_id v) \<and>
      starts_with (ve_advisory_url v) ''https://'' \<and>
      (\<forall>t \<in> {ve_product v, ve_version v, ve_severity v, ve_advisory_url v}. t \<noteq> [] \<and> length t \<le> 1024)"
    using raw(4) check_vulnerability_Inr unfolding check_all_Inr by blast
  ultimately show ?thesis using raw(1,2) by (simp add: b bundle_wf_def)
qed

lemma set_network_candidates:
  "(entry, prefix) \<in> set (filter (\<lambda>(_, prefix). prefix_contains prefix address)
      (filter_map (\<lambda>entry. case parse_prefix (ne_prefix entry) of
          Inl _ \<Rightarrow> None | Inr prefix \<Rightarrow> Some (entry, prefix)) networks)) \<longleftrightarrow>
   entry \<in> set networks \<and> parse_prefix (ne_prefix entry) = Inr prefix \<and> in_block prefix address"
proof -
  have "(case parse_prefix (ne_prefix x) of Inl _ \<Rightarrow> None | Inr prefix \<Rightarrow> Some (x, prefix)) = Some (entry, prefix) \<longleftrightarrow>
      x = entry \<and> parse_prefix (ne_prefix entry) = Inr prefix" for x
    by (cases "parse_prefix (ne_prefix x)") auto
  then show ?thesis by (auto simp: set_filter_map prefix_contains_in_block)
qed

lemma best_network_longest:
  assumes "best_network networks address = Some (entry, prefix)"
  shows "entry \<in> set networks \<and> parse_prefix (ne_prefix entry) = Inr prefix \<and> in_block prefix address \<and>
   (\<forall>other \<in> set networks. \<forall>q. parse_prefix (ne_prefix other) = Inr q \<and> in_block q address \<longrightarrow>
      pfx_length q \<le> pfx_length prefix)"
  using max_by_key_Some [OF assms [unfolded best_network_def]] set_network_candidates by fastforce

lemma best_network_None:
  "best_network networks address = None \<longleftrightarrow>
   (\<forall>entry \<in> set networks. \<forall>p. parse_prefix (ne_prefix entry) = Inr p \<longrightarrow> \<not> in_block p address)"
proof -
  have "best_network networks address = None \<longleftrightarrow>
      (\<forall>entry prefix. \<not> (entry \<in> set networks \<and> parse_prefix (ne_prefix entry) = Inr prefix \<and> in_block prefix address))"
    unfolding best_network_def max_by_key_None set_network_candidates [symmetric]
    by (simp only: set_empty [symmetric] set_eq_iff empty_iff split_paired_all) simp
  then show ?thesis by blast
qed

lemma record_intelligence_stop_incomplete [simp]:
  "int_complete (record_intelligence_stop reason i) = False"
  "int_subdomains (record_intelligence_stop reason i) = int_subdomains i"
  "int_dkim (record_intelligence_stop reason i) = int_dkim i"
  by (simp_all add: record_intelligence_stop_def)

lemma supplied_name_scope:
  "supplied_name uc primary names input = Inr name \<Longrightarrow>
   name \<noteq> primary \<and> ends_with name (''.'' @ primary) \<and> name \<notin> set names"
  by (auto simp: supplied_name_def split: sum.splits option.splits if_splits)

definition child_of :: "string \<Rightarrow> string \<Rightarrow> bool" where
  "child_of primary name \<longleftrightarrow> (\<exists>label. name = label @ ''.'' @ primary)"

lemma ends_with_iff: "ends_with s p \<longleftrightarrow> (\<exists>r. s = r @ p)"
  by (auto simp: ends_with_def starts_with_iff) (metis rev_append rev_rev_ident)+

lemma supplied_subdomains_spec:
  assumes "supplied_subdomains uc w primary n names inputs i = Inr i'"
    and "set (map sub_name (int_subdomains i)) = set names" and "distinct (map sub_name (int_subdomains i))"
    and "\<forall>s \<in> set (int_subdomains i). child_of primary (sub_name s)"
    and "int_complete i \<longrightarrow> (\<forall>s \<in> set (int_subdomains i). sub_dns s \<noteq> None) \<and> int_errors i = []"
  shows "distinct (map sub_name (int_subdomains i')) \<and>
    (\<forall>s \<in> set (int_subdomains i'). child_of primary (sub_name s)) \<and>
    (int_complete i' \<longrightarrow> int_complete i \<and> length (int_subdomains i') = length (int_subdomains i) + length inputs \<and>
       (\<forall>s \<in> set (int_subdomains i'). sub_dns s \<noteq> None) \<and> int_errors i' = [])"
  using assms
proof (induction uc w primary n names inputs i rule: supplied_subdomains.induct)
  case (2 uc w primary n names input inputs i)
  show ?case
  proof (cases "stop_reason (sw_stop w False n)")
    case (Some reason)
    with 2 show ?thesis by auto
  next
    case None
    with 2(3) obtain name dns_target where name: "supplied_name uc primary names input = Inr name"
      and dns_target: "normalize_target uc name = Inr dns_target"
      by (auto split: sum.splits)
    have child: "child_of primary name" "name \<notin> set names"
      using supplied_name_scope [OF name] by (auto simp: child_of_def ends_with_iff)
    show ?thesis
    proof (cases "sw_dns w dns_target")
      case (Await_Ready result)
      show ?thesis
      proof (cases result)
        case (Inl error)
        let ?i = "i\<lparr>int_complete := False, int_subdomains := push (int_subdomains i)
            \<lparr>sub_name = name, sub_dns = None, sub_error = Some error\<rparr>\<rparr>"
        have "supplied_subdomains uc w primary (Suc n) (name # names) inputs ?i = Inr i'"
          using 2(3) None name dns_target Await_Ready Inl by simp
        with 2(1) [OF None name dns_target Await_Ready Inl] 2(4-7) child show ?thesis
          by (auto simp: push_def)
      next
        case (Inr dns)
        let ?i = "i\<lparr>int_subdomains := push (int_subdomains i)
            \<lparr>sub_name = name, sub_dns = Some dns, sub_error = None\<rparr>\<rparr>"
        have "supplied_subdomains uc w primary (Suc n) (name # names) inputs ?i = Inr i'"
          using 2(3) None name dns_target Await_Ready Inr by simp
        with 2(2) [OF None name dns_target Await_Ready Inr] 2(4-7) child show ?thesis
          by (auto simp: push_def)
      qed
    qed (use 2 None name dns_target in auto)
  qed
qed auto

lemma supplied_selectors_spec:
  assumes "supplied_selectors w primary n selectors i = Inr i'"
  shows "int_subdomains i' = int_subdomains i \<and>
    (int_complete i' \<longrightarrow> int_complete i \<and> int_errors i' = int_errors i \<and>
       map dkim_selector (int_dkim i') = map dkim_selector (int_dkim i) @ selectors)"
  using assms
proof (induction w primary n selectors i rule: supplied_selectors.induct)
  case (2 w primary n selector selectors i)
  then show ?case
    by (auto simp: record_dkim_result_def parse_dkim_def Let_def push_def
      split: option.splits sum.splits awaited.splits)
qed simp

end
