(* ===== verification/Passive_Intel.thy ===== *)
theory Passive_Intel
  imports Target Intel_Evidence
begin

text \<open>
  The passive sources of \<^verbatim>\<open>crates/surface-core/src/intelligence.rs\<close>: host names of Certificate Transparency
  logs, read page by page and resolved once each, and domains that share the target's nameserver pair. The
  decoders of the two services' responses, the resolver and the network are arguments.
\<close>

section \<open>Model: certificate transparency\<close>

definition MAX_CT_PAGES :: nat where "MAX_CT_PAGES = 3"
definition MAX_CT_CANDIDATES :: nat where "MAX_CT_CANDIDATES = 1000"
definition MAX_CT_DNS_CONCURRENCY :: nat where "MAX_CT_DNS_CONCURRENCY = 16"
definition MAX_CT_RESPONSE_BYTES :: nat where "MAX_CT_RESPONSE_BYTES = 1048576"

definition CERTSPOTTER_ENDPOINT :: string where
  "CERTSPOTTER_ENDPOINT = ''https://api.certspotter.com/v1/issuances''"

record cert_spotter_issuance =
  csi_id :: string
  csi_dns_names :: "string list"

fun certificate_transparency_fetch_error :: "fetch_error \<Rightarrow> string" where
  "certificate_transparency_fetch_error Fetch_Cancelled = ''certificate transparency request was cancelled''"
| "certificate_transparency_fetch_error Fetch_Deadline = ''certificate transparency deadline elapsed''"
| "certificate_transparency_fetch_error Fetch_Timeout = ''certificate transparency request timed out''"
| "certificate_transparency_fetch_error Fetch_Resolution =
     ''certificate transparency host resolution failed''"
| "certificate_transparency_fetch_error Fetch_Destination =
     ''certificate transparency resolved to a non-public destination''"
| "certificate_transparency_fetch_error Fetch_Request = ''certificate transparency request failed''"
| "certificate_transparency_fetch_error (Fetch_Http status) =
     ''certificate transparency service returned HTTP '' @ show_nat (unat status)"
| "certificate_transparency_fetch_error Fetch_TooLarge =
     ''certificate transparency response exceeded 1 MiB''"

definition fetch_certspotter_page ::
    "'u intel_net \<Rightarrow> (bytes \<Rightarrow> cert_spotter_issuance list option) \<Rightarrow> string \<Rightarrow> string \<Rightarrow> string option \<Rightarrow>
     string option \<Rightarrow> pinned_clients \<Rightarrow> (string + cert_spotter_issuance list) \<times> pinned_clients" where
  "fetch_certspotter_page net decode endpoint domain api_key after clients =
     (case iu_parse (in_urls net) endpoint of
        None \<Rightarrow> (Inl ''invalid CertSpotter endpoint'', clients)
      | Some url \<Rightarrow>
          let url = iu_append_pairs (in_urls net) url
                ([(''domain'', domain), (''include_subdomains'', ''true''), (''match_wildcards'', ''true''),
                  (''expand'', ''dns_names'')]
                 @ (case after of Some a \<Rightarrow> [(''after'', a)] | None \<Rightarrow> []))
          in case client_for net url clients of
               (Inl e, clients) \<Rightarrow> (Inl (certificate_transparency_fetch_error e), clients)
             | (Inr client, clients) \<Rightarrow>
                 (case get_bounded_with_bearer net client url MAX_CT_RESPONSE_BYTES api_key of
                    Inl e \<Rightarrow> Inl (certificate_transparency_fetch_error e)
                  | Inr body \<Rightarrow>
                      (case decode body of
                         None \<Rightarrow> Inl ''certificate transparency response was invalid''
                       | Some page \<Rightarrow> Inr page), clients))"

record ct_pages_state =
  cp_issuances :: "cert_spotter_issuance list"
  cp_after :: "string option"
  cp_complete :: bool
  cp_pages_fetched :: nat
  cp_errors :: "string list"
  cp_clients :: pinned_clients

fun ct_read_pages ::
    "(string option \<Rightarrow> pinned_clients \<Rightarrow> (string + cert_spotter_issuance list) \<times> pinned_clients) \<Rightarrow> nat \<Rightarrow>
     ct_pages_state \<Rightarrow> string + ct_pages_state" where
  \<comment> \<open>the loop over the pages, with the number of rounds left\<close>
  "ct_read_pages fetch 0 st = Inr st"
| "ct_read_pages fetch (Suc rounds) st =
     (case fetch (cp_after st) (cp_clients st) of (fetched, clients) \<Rightarrow>
        let st = st\<lparr>cp_clients := clients\<rparr>
        in case fetched of
             Inl error \<Rightarrow>
               if cp_issuances st \<noteq> [] then Inr (st\<lparr>cp_errors := push (cp_errors st) error\<rparr>) else Inl error
           | Inr page \<Rightarrow>
               if page = [] then
                 Inr (st\<lparr>cp_pages_fetched := cp_pages_fetched st + 1, cp_complete := True\<rparr>)
               else if csi_id (last page) = [] then
                 (let error = ''certificate transparency response lacked a pagination ID''
                  in if cp_issuances st = [] then Inl error
                     else Inr (st\<lparr>cp_errors := push (cp_errors st) error\<rparr>))
               else ct_read_pages fetch rounds
                 (st\<lparr>cp_pages_fetched := cp_pages_fetched st + 1, cp_after := Some (csi_id (last page)),
                     cp_issuances := cp_issuances st @ page\<rparr>))"

definition ct_name :: "url_crate \<Rightarrow> string \<Rightarrow> string \<Rightarrow> (string \<times> bool) option" where
  \<comment> \<open>the key a certificate name is counted under, with its wildcard flag; \<open>None\<close> is \<open>continue\<close>\<close>
  "ct_name uc primary raw_name =
     (let raw_name = to_ascii_lowercase (trim_end_matches CHR ''.'' (trim raw_name));
          (wildcard, bare_name) =
            (case strip_prefix raw_name ''*.'' of Some name \<Rightarrow> (True, name) | None \<Rightarrow> (False, raw_name))
      in case normalize_target uc bare_name of
           Inl _ \<Rightarrow> None
         | Inr target \<Rightarrow>
             (case tgt_hostname target of
                None \<Rightarrow> None
              | Some name \<Rightarrow>
                  if \<not> wildcard \<and> name = primary \<or> name \<noteq> primary \<and> \<not> ends_with name (''.'' @ primary) then None
                  else Some (if wildcard then ''*.'' @ name else name, wildcard)))"

definition count_key :: "('k::linorder \<times> nat) list \<Rightarrow> 'k \<Rightarrow> ('k \<times> nat) list" where
  \<comment> \<open>\<open>*counts.entry(key).or_default() += 1\<close>\<close>
  "count_key counts k = btm_insert k ((case map_of counts k of Some n \<Rightarrow> n | None \<Rightarrow> 0) + 1) counts"

definition ct_counts :: "url_crate \<Rightarrow> string \<Rightarrow> cert_spotter_issuance list \<Rightarrow> ((string \<times> bool) \<times> nat) list" where
  "ct_counts uc primary issuances =
     foldl count_key [] (filter_map (ct_name uc primary) (concat (map csi_dns_names issuances)))"

definition ct_candidates_of ::
    "url_crate \<Rightarrow> string \<Rightarrow> cert_spotter_issuance list \<Rightarrow> certificate_transparency_candidate list \<times> bool" where
  \<comment> \<open>the function \<open>ct_candidates\<close>\<close>
  "ct_candidates_of uc primary issuances =
     (let counts = ct_counts uc primary issuances
      in (map (\<lambda>((name, wildcard), issuance_count).
            \<lparr>ctc_name = name, ctc_wildcard = wildcard, ctc_issuance_count = issuance_count,
             ctc_dns_status = Ct_NotChecked\<rparr>) (take MAX_CT_CANDIDATES counts),
          MAX_CT_CANDIDATES < length counts))"

definition analyze_certificate_transparency_at ::
    "url_crate \<Rightarrow> 'u intel_net \<Rightarrow> (bytes \<Rightarrow> cert_spotter_issuance list option) \<Rightarrow> scan_report \<Rightarrow> string option \<Rightarrow>
     string \<Rightarrow> pinned_clients \<Rightarrow> string + certificate_transparency_observation" where
  "analyze_certificate_transparency_at uc net decode report api_key endpoint clients =
     (case tgt_hostname (rep_target report) of
        None \<Rightarrow> Inl ''certificate transparency discovery requires a hostname target''
      | Some primary \<Rightarrow>
          (case ct_read_pages (fetch_certspotter_page net decode endpoint primary api_key) MAX_CT_PAGES
              \<lparr>cp_issuances = [], cp_after = None, cp_complete = False, cp_pages_fetched = 0, cp_errors = [],
               cp_clients = clients\<rparr> of
             Inl error \<Rightarrow> Inl error
           | Inr st \<Rightarrow>
               (case ct_candidates_of uc primary (cp_issuances st) of (candidates, candidates_truncated) \<Rightarrow>
                  let errors = cp_errors st;
                      errors = (if \<not> cp_complete st \<and> errors = [] then push errors
                          (''certificate transparency pagination stopped after '' @ show_nat MAX_CT_PAGES @ '' pages'')
                        else errors);
                      errors = (if candidates_truncated then push errors
                          (''certificate transparency candidates were truncated at '' @ show_nat MAX_CT_CANDIDATES
                           @ '' names'') else errors)
                  in Inr \<lparr>ct_source = ''CertSpotter'', ct_candidates = candidates,
                       ct_issuance_count = length (cp_issuances st), ct_pages_fetched = cp_pages_fetched st,
                       ct_complete = (cp_complete st \<and> \<not> candidates_truncated), ct_errors = errors\<rparr>)))"

datatype ct_dns_lookup_result = CtLookup_Address | CtLookup_NoAddress | CtLookup_NxDomain | CtLookup_Failed

datatype dns_response_code = Rc_NxDomain | Rc_NoError | Rc_Other

datatype ip_lookup =
    Lookup_Addresses "ip_addr list" | Lookup_NoRecords dns_response_code | Lookup_Error

datatype ct_lookup_poll = CtPoll_Cancelled | CtPoll_Elapsed | CtPoll_Answered ip_lookup

fun ct_lookup_result :: "ip_lookup \<Rightarrow> ct_dns_lookup_result" where
  \<comment> \<open>the closure \<open>verify_ct_candidates\<close> passes down\<close>
  "ct_lookup_result (Lookup_Addresses addresses) =
     (if addresses \<noteq> [] then CtLookup_Address else CtLookup_NoAddress)"
| "ct_lookup_result (Lookup_NoRecords Rc_NxDomain) = CtLookup_NxDomain"
| "ct_lookup_result (Lookup_NoRecords Rc_NoError) = CtLookup_NoAddress"
| "ct_lookup_result (Lookup_NoRecords Rc_Other) = CtLookup_Failed"
| "ct_lookup_result Lookup_Error = CtLookup_Failed"

fun ct_polled_result :: "ct_lookup_poll \<Rightarrow> ct_dns_lookup_result" where
  "ct_polled_result CtPoll_Cancelled = CtLookup_Failed"
| "ct_polled_result CtPoll_Elapsed = CtLookup_Failed"
| "ct_polled_result (CtPoll_Answered answer) = ct_lookup_result answer"

fun ct_status_of :: "ct_dns_lookup_result \<Rightarrow> certificate_transparency_dns_status" where
  "ct_status_of CtLookup_Address = Ct_Resolved"
| "ct_status_of CtLookup_NoAddress = Ct_NoAddress"
| "ct_status_of CtLookup_NxDomain = Ct_NxDomain"
| "ct_status_of CtLookup_Failed = Ct_Indeterminate"

definition verify_ct_candidates_with ::
    "(nat \<Rightarrow> (nat \<times> ct_dns_lookup_result) list \<Rightarrow> (nat \<times> ct_dns_lookup_result) list) \<Rightarrow>
     (string \<Rightarrow> ct_lookup_poll) \<Rightarrow> certificate_transparency_candidate list \<Rightarrow>
     certificate_transparency_candidate list \<times> bool" where
  "verify_ct_candidates_with arrive lookup candidates =
     (let results = arrive MAX_CT_DNS_CONCURRENCY
            (map (\<lambda>(index, candidate). (index, ct_polled_result (lookup (ctc_name candidate))))
              (filter (\<lambda>(_, candidate). \<not> ctc_wildcard candidate) (enumerate 0 candidates)))
      in (foldl (\<lambda>cs (index, result). cs[index := (cs ! index)\<lparr>ctc_dns_status := ct_status_of result\<rparr>])
            candidates results,
          list_all (\<lambda>(_, result). result \<noteq> CtLookup_Failed) results))"

definition verify_ct_candidates ::
    "(nat \<Rightarrow> (nat \<times> ct_dns_lookup_result) list \<Rightarrow> (nat \<times> ct_dns_lookup_result) list) \<Rightarrow>
     (string \<Rightarrow> ct_lookup_poll) option \<Rightarrow> certificate_transparency_candidate list \<Rightarrow>
     certificate_transparency_candidate list \<times> bool" where
  \<comment> \<open>the resolver is \<open>None\<close> when it could not be built\<close>
  "verify_ct_candidates arrive resolver candidates =
     (if list_all ctc_wildcard candidates then (candidates, True)
      else (case resolver of
          None \<Rightarrow> (map (\<lambda>c. if \<not> ctc_wildcard c then c\<lparr>ctc_dns_status := Ct_Indeterminate\<rparr> else c) candidates, False)
        | Some lookup \<Rightarrow> verify_ct_candidates_with arrive lookup candidates))"

definition analyze_certificate_transparency ::
    "url_crate \<Rightarrow> 'u intel_net \<Rightarrow> (bytes \<Rightarrow> cert_spotter_issuance list option) \<Rightarrow>
     (nat \<Rightarrow> (nat \<times> ct_dns_lookup_result) list \<Rightarrow> (nat \<times> ct_dns_lookup_result) list) \<Rightarrow>
     (string \<Rightarrow> ct_lookup_poll) option \<Rightarrow> scan_report \<Rightarrow> string option \<Rightarrow> nat \<Rightarrow>
     string + certificate_transparency_observation" where
  "analyze_certificate_transparency uc net decode arrive resolver report api_key request_timeout =
     (case analyze_certificate_transparency_at uc net decode report api_key CERTSPOTTER_ENDPOINT
         (new_clients request_timeout) of
        Inl e \<Rightarrow> Inl e
      | Inr observation \<Rightarrow>
          (case verify_ct_candidates arrive resolver (ct_candidates observation) of (candidates, verified) \<Rightarrow>
             let observation = observation\<lparr>ct_candidates := candidates\<rparr>
             in Inr (if \<not> verified then observation\<lparr>ct_complete := False,
                  ct_errors := push (ct_errors observation)
                    ''certificate transparency DNS verification was incomplete''\<rparr>
                else observation)))"

section \<open>Model: related domains\<close>

definition MAX_RELATED_DOMAINS :: nat where "MAX_RELATED_DOMAINS = 300"
definition MAX_REVERSE_NS_RESPONSE_BYTES :: nat where "MAX_REVERSE_NS_RESPONSE_BYTES = 1048576"

definition REVERSE_NS_ENDPOINT :: string where
  "REVERSE_NS_ENDPOINT = ''https://reverse-ns.whoisxmlapi.com/api/v1''"

fun reverse_ns_fetch_error :: "fetch_error \<Rightarrow> string" where
  "reverse_ns_fetch_error Fetch_Cancelled = ''reverse-NS request was cancelled''"
| "reverse_ns_fetch_error Fetch_Deadline = ''reverse-NS deadline elapsed''"
| "reverse_ns_fetch_error Fetch_Timeout = ''reverse-NS request timed out''"
| "reverse_ns_fetch_error Fetch_Resolution = ''reverse-NS host resolution failed''"
| "reverse_ns_fetch_error Fetch_Destination = ''reverse-NS resolved to a non-public destination''"
| "reverse_ns_fetch_error Fetch_Request = ''reverse-NS request failed''"
| "reverse_ns_fetch_error (Fetch_Http status) = ''reverse-NS service returned HTTP '' @ show_nat (unat status)"
| "reverse_ns_fetch_error Fetch_TooLarge = ''reverse-NS response exceeded 1 MiB''"

definition reverse_ns_url :: "'u intel_urls \<Rightarrow> string \<Rightarrow> string \<Rightarrow> string \<Rightarrow> string + 'u" where
  "reverse_ns_url urls endpoint api_key nameserver =
     (case iu_parse urls endpoint of
        None \<Rightarrow> Inl ''invalid reverse-NS endpoint''
      | Some url \<Rightarrow>
          Inr (iu_append_pairs urls url [(''apiKey'', api_key), (''ns'', nameserver), (''outputFormat'', ''JSON'')]))"

definition fetch_reverse_ns ::
    "url_crate \<Rightarrow> 'u intel_net \<Rightarrow> (bytes \<Rightarrow> string list option) \<Rightarrow> pinned_client \<Rightarrow> 'u \<Rightarrow>
     string + string list \<times> bool" where
  \<comment> \<open>the decoder gives the names of the entries\<close>
  "fetch_reverse_ns uc net decode client url =
     (case get_bounded net client url MAX_REVERSE_NS_RESPONSE_BYTES of
        Inl e \<Rightarrow> Inl (reverse_ns_fetch_error e)
      | Inr body \<Rightarrow>
          (case decode body of
             None \<Rightarrow> Inl ''reverse-NS response was invalid''
           | Some result \<Rightarrow>
               Inr (btree_set (filter_map
                      (\<lambda>name. case normalize_target uc name of Inr target \<Rightarrow> tgt_hostname target | Inl _ \<Rightarrow> None)
                      (take MAX_RELATED_DOMAINS result)),
                    MAX_RELATED_DOMAINS \<le> length result)))"

definition related_candidates ::
    "string \<Rightarrow> string list \<Rightarrow> string list \<Rightarrow> string list \<Rightarrow> related_domain_candidate list" where
  "related_candidates primary nameservers left right =
     map (\<lambda>name. \<lparr>rdc_name = name, rdc_matched_nameservers = nameservers, rdc_confidence = ''medium'',
            rdc_evidence = [''Exact nameserver-pair match in passive reverse-NS data'',
              ''Shared DNS infrastructure does not prove common ownership'']\<rparr>)
       (take MAX_RELATED_DOMAINS (filter (\<lambda>name. name \<noteq> primary) (filter (\<lambda>name. name \<in> set right) left)))"

definition identify_nameserver_provider :: "string list \<Rightarrow> string option" where
  "identify_nameserver_provider nameservers =
     map_option snd (find (\<lambda>(suffix, _).
         list_all (\<lambda>ns. ns = suffix \<or> ends_with ns (''.'' @ suffix)) nameservers)
       [(''cloudflare.com'', ''Cloudflare''), (''domaincontrol.com'', ''GoDaddy''),
        (''googledomains.com'', ''Google Cloud DNS''), (''dns-parking.com'', ''Hostinger'')])"

definition observed_nameservers :: "scan_report \<Rightarrow> string list" where
  \<comment> \<open>\<open>nameservers\<close> of \<open>analyze_related_domains_at\<close>\<close>
  "observed_nameservers report =
     btree_set (filter_map
       (\<lambda>record. case record of Rec_Ns name \<Rightarrow> Some (to_ascii_lowercase name) | _ \<Rightarrow> None)
       (case rep_dns report of Some dns \<Rightarrow> dns_records dns | None \<Rightarrow> []))"

definition join_reverse_ns ::
    "string \<Rightarrow> string list \<Rightarrow> string + string list \<times> bool \<Rightarrow> string + string list \<times> bool \<Rightarrow>
     related_domains_observation" where
  \<comment> \<open>the observation \<open>analyze_related_domains_at\<close> makes of the two answers\<close>
  "join_reverse_ns primary nameservers left right =
     (let observation = \<lparr>rdo_nameservers = nameservers, rdo_provider = identify_nameserver_provider nameservers,
            rdo_candidates = [], rdo_complete = True, rdo_errors = []\<rparr>
      in case (left, right) of
           (Inr (left, left_truncated), Inr (right, right_truncated)) \<Rightarrow>
             let observation =
                   (if left_truncated \<or> right_truncated then
                      observation\<lparr>rdo_complete := False, rdo_errors := push (rdo_errors observation)
                        ''reverse-NS results were truncated at 300 domains per nameserver''\<rparr>
                    else observation)
             in observation\<lparr>rdo_candidates := related_candidates primary nameservers left right\<rparr>
         | _ \<Rightarrow>
             observation\<lparr>rdo_complete := False,
               rdo_errors := (case left of Inl e \<Rightarrow> [e] | Inr _ \<Rightarrow> []) @ (case right of Inl e \<Rightarrow> [e] | Inr _ \<Rightarrow> [])\<rparr>)"

definition analyze_related_domains ::
    "url_crate \<Rightarrow> 'u intel_net \<Rightarrow> (bytes \<Rightarrow> string list option) \<Rightarrow> scan_report \<Rightarrow> string \<Rightarrow> nat \<Rightarrow>
     string + related_domains_observation" where
  \<comment> \<open>with \<open>analyze_related_domains_at\<close>\<close>
  "analyze_related_domains uc net decode report api_key request_timeout =
     (if trim api_key = [] then Inl ''SURFACE_WHOISXML_API_KEY is empty''
      else (case tgt_hostname (rep_target report) of
          None \<Rightarrow> Inl ''related-domain discovery requires a hostname target''
        | Some primary \<Rightarrow>
            (case observed_nameservers report of
               [first, second] \<Rightarrow>
                 (case reverse_ns_url (in_urls net) REVERSE_NS_ENDPOINT api_key first of
                    Inl e \<Rightarrow> Inl e
                  | Inr left_url \<Rightarrow>
                      (case reverse_ns_url (in_urls net) REVERSE_NS_ENDPOINT api_key second of
                         Inl e \<Rightarrow> Inl e
                       | Inr right_url \<Rightarrow>
                           (case fst (client_for net left_url (new_clients request_timeout)) of
                              Inl e \<Rightarrow> Inl (reverse_ns_fetch_error e)
                            | Inr client \<Rightarrow>
                                Inr (join_reverse_ns primary [first, second]
                                  (fetch_reverse_ns uc net decode client left_url)
                                  (fetch_reverse_ns uc net decode client right_url)))))
             | _ \<Rightarrow> Inl ''related-domain discovery requires exactly two observed nameservers'')))"

section \<open>Counting names\<close>

lemma count_keys:
  "btm_wf (foldl count_key [] ks) \<and>
   map_of (foldl count_key [] ks) k = (if k \<in> set ks then Some (count_list ks k) else None)"
proof (induction ks arbitrary: k rule: rev_induct)
  case Nil
  then show ?case by (simp add: btm_wf_def)
next
  case (snoc x ks)
  from snoc [of x] snoc [of k] show ?case
    by (auto simp: count_key_def btm_wf_insert map_of_btm_insert count_notin)
qed

lemma ct_name_scope:
  "ct_name uc primary raw = Some (name, wildcard) \<Longrightarrow>
   (\<exists>host. name = (if wildcard then ''*.'' @ host else host) \<and>
      (host = primary \<and> wildcard \<or> ends_with host (''.'' @ primary)))"
  unfolding ct_name_def Let_def
  by (auto split: option.splits prod.splits sum.splits if_splits)

definition candidate_key :: "certificate_transparency_candidate \<Rightarrow> string \<times> bool" where
  "candidate_key c = (ctc_name c, ctc_wildcard c)"

lemma ct_candidates_keys:
  "map candidate_key (fst (ct_candidates_of uc primary issuances)) =
   take MAX_CT_CANDIDATES (map fst (ct_counts uc primary issuances))"
  by (simp add: ct_candidates_of_def Let_def take_map comp_def candidate_key_def case_prod_beta)

definition certificate_names :: "url_crate \<Rightarrow> string \<Rightarrow> cert_spotter_issuance list \<Rightarrow> (string \<times> bool) list" where
  "certificate_names uc primary issuances =
     filter_map (ct_name uc primary) (concat (map csi_dns_names issuances))"

lemma ct_candidates_spec:
  assumes "ct_candidates_of uc primary issuances = (candidates, truncated)"
  shows "sorted_wrt (<) (map candidate_key candidates) \<and> length candidates \<le> MAX_CT_CANDIDATES \<and>
    (\<forall>c \<in> set candidates. candidate_key c \<in> set (certificate_names uc primary issuances) \<and>
       ctc_issuance_count c = count_list (certificate_names uc primary issuances) (candidate_key c) \<and>
       ctc_dns_status c = Ct_NotChecked) \<and>
    (\<not> truncated \<longrightarrow> candidate_key ` set candidates = set (certificate_names uc primary issuances))"
proof -
  let ?names = "certificate_names uc primary issuances"
  let ?counts = "ct_counts uc primary issuances"
  have counts: "btm_wf ?counts" "map_of ?counts k = (if k \<in> set ?names then Some (count_list ?names k) else None)" for k
    unfolding ct_counts_def certificate_names_def
    by (rule count_keys [THEN conjunct1], rule count_keys [THEN conjunct2])
  have keys: "map candidate_key candidates = take MAX_CT_CANDIDATES (map fst ?counts)"
    using ct_candidates_keys [of uc primary issuances] assms by simp
  have "sorted_wrt (<) (map fst ?counts)" using counts(1) by (simp add: btm_wf_def strict_sorted_iff)
  then have sorted: "sorted_wrt (<) (map candidate_key candidates)" by (simp add: keys sorted_wrt_take)
  have "length candidates = length (map candidate_key candidates)" by simp
  then have len: "length candidates \<le> MAX_CT_CANDIDATES" unfolding keys by simp
  have member: "candidate_key c \<in> set ?names \<and> ctc_issuance_count c = count_list ?names (candidate_key c) \<and>
      ctc_dns_status c = Ct_NotChecked" if "c \<in> set candidates" for c
  proof -
    from that assms obtain k where k: "k \<in> set ?counts" "c = (\<lambda>((name, wildcard), n). \<lparr>ctc_name = name,
        ctc_wildcard = wildcard, ctc_issuance_count = n, ctc_dns_status = Ct_NotChecked\<rparr>) k"
      by (fastforce simp: ct_candidates_of_def Let_def dest: in_set_takeD)
    obtain name wildcard n where "k = ((name, wildcard), n)" by (metis prod.collapse)
    with k have c: "c = \<lparr>ctc_name = name, ctc_wildcard = wildcard,
        ctc_issuance_count = n, ctc_dns_status = Ct_NotChecked\<rparr>" and "((name, wildcard), n) \<in> set ?counts"
      by simp_all
    then have "map_of ?counts (candidate_key c) = Some n"
      using counts(1) by (simp add: btm_wf_def candidate_key_def)
    then show ?thesis using counts(2) by (simp add: c split: if_splits)
  qed
  have "candidate_key ` set candidates = set ?names" if "\<not> truncated"
  proof -
    from that assms have "length ?counts \<le> MAX_CT_CANDIDATES" by (auto simp: ct_candidates_of_def Let_def)
    then have "candidate_key ` set candidates = fst ` set ?counts"
      using arg_cong [OF keys, of set] by simp
    also have "\<dots> = dom (map_of ?counts)" by (simp add: dom_map_of_conv_image_fst)
    also have "\<dots> = set ?names" using counts(2) by (auto simp: dom_def split: if_splits)
    finally show ?thesis .
  qed
  with sorted len member show ?thesis by blast
qed

section \<open>Resolving the candidates\<close>

definition resolved_candidate ::
    "(string \<Rightarrow> ct_lookup_poll) \<Rightarrow> certificate_transparency_candidate \<Rightarrow> certificate_transparency_candidate" where
  \<comment> \<open>what a candidate becomes when nothing interferes\<close>
  "resolved_candidate lookup c =
     (if ctc_wildcard c then c
      else c\<lparr>ctc_dns_status := ct_status_of (ct_polled_result (lookup (ctc_name c)))\<rparr>)"

lemma foldl_updates_nth:
  assumes "distinct (map fst rs)" and "i < length cs"
  shows "foldl (\<lambda>cs (index, r). cs[index := f r (cs ! index)]) cs rs ! i =
    (case map_of rs i of Some r \<Rightarrow> f r (cs ! i) | None \<Rightarrow> cs ! i)"
  using assms
proof (induction rs arbitrary: cs)
  case (Cons a rs)
  obtain j r where a: "a = (j, r)" by (cases a)
  show ?case
  proof (cases "i = j")
    case True
    with Cons.prems a have "map_of rs i = None" by (auto simp: map_of_eq_None_iff)
    with Cons True a show ?thesis by simp
  next
    case False
    with Cons a show ?thesis by (auto split: option.split)
  qed
qed simp

lemma foldl_updates_length:
  "length (foldl (\<lambda>cs (index, r). cs[index := f r (cs ! index)]) cs rs) = length cs"
  by (induction rs arbitrary: cs) auto

lemma verify_with_exact:
  assumes arrive: "fair_pool arrive"
  shows "verify_ct_candidates_with arrive lookup candidates =
    (map (resolved_candidate lookup) candidates,
     list_all (\<lambda>c. ctc_wildcard c \<or> ct_polled_result (lookup (ctc_name c)) \<noteq> CtLookup_Failed) candidates)"
proof -
  let ?result = "\<lambda>c. ct_polled_result (lookup (ctc_name c))"
  let ?sent = "map (\<lambda>(index, candidate). (index, ?result candidate))
      (filter (\<lambda>(_, candidate). \<not> ctc_wildcard candidate) (enumerate 0 candidates))"
  let ?arrived = "arrive MAX_CT_DNS_CONCURRENCY ?sent"
  have perm: "mset ?arrived = mset ?sent"
    using arrive by (simp add: fair_pool_mset MAX_CT_DNS_CONCURRENCY_def)
  have "distinct (map fst (filter P (enumerate 0 candidates)))" for P
    by (simp add: distinct_map_filter)
  then have sent: "distinct (map fst ?sent)" by (simp add: comp_def case_prod_beta)
  have "mset (map fst ?arrived) = mset (map fst ?sent)" by (simp only: mset_map perm)
  with sent have arrived: "distinct (map fst ?arrived)" using mset_eq_imp_distinct_iff by blast
  have sets: "set ?arrived = set ?sent" using perm by (rule mset_eq_setD)
  have maps: "map_of ?arrived = map_of ?sent"
    using map_of_inject_set [OF arrived sent] sets by simp
  have sent_iff: "map_of ?sent i =
      (if ctc_wildcard (candidates ! i) then None else Some (?result (candidates ! i)))"
    if "i < length candidates" for i
  proof (cases "ctc_wildcard (candidates ! i)")
    case True
    then have "i \<notin> fst ` set ?sent" by (auto simp: in_set_enumerate_eq)
    with True show ?thesis by (simp add: map_of_eq_None_iff)
  next
    case False
    then have "(i, ?result (candidates ! i)) \<in> set ?sent"
      using that by (force simp: in_set_enumerate_eq)
    with False sent show ?thesis by simp
  qed
  have "foldl (\<lambda>cs (index, result). cs[index := (cs ! index)\<lparr>ctc_dns_status := ct_status_of result\<rparr>])
      candidates ?arrived = map (resolved_candidate lookup) candidates" (is "?final = _")
  proof (rule nth_equalityI)
    show "length ?final = length (map (resolved_candidate lookup) candidates)"
      by (simp add: foldl_updates_length [where f = "\<lambda>r c. c\<lparr>ctc_dns_status := ct_status_of r\<rparr>"])
    fix i assume "i < length ?final"
    then have i: "i < length candidates"
      by (simp add: foldl_updates_length [where f = "\<lambda>r c. c\<lparr>ctc_dns_status := ct_status_of r\<rparr>"])
    show "?final ! i = map (resolved_candidate lookup) candidates ! i"
      using foldl_updates_nth [OF arrived i, of "\<lambda>r c. c\<lparr>ctc_dns_status := ct_status_of r\<rparr>"]
      by (simp add: maps sent_iff [OF i] i resolved_candidate_def)
  qed
  moreover have "list_all (\<lambda>(_, result). result \<noteq> CtLookup_Failed) ?arrived \<longleftrightarrow>
      list_all (\<lambda>c. ctc_wildcard c \<or> ?result c \<noteq> CtLookup_Failed) candidates"
  proof -
    have "list_all (\<lambda>(_, result). result \<noteq> CtLookup_Failed) ?arrived \<longleftrightarrow>
        (\<forall>(_, result) \<in> set ?sent. result \<noteq> CtLookup_Failed)"
      by (simp only: list_all_iff sets)
    also have "\<dots> \<longleftrightarrow> (\<forall>i < length candidates. ctc_wildcard (candidates ! i) \<or> ?result (candidates ! i) \<noteq> CtLookup_Failed)"
      by (force simp: in_set_enumerate_eq)
    finally show ?thesis by (simp add: list_all_length)
  qed
  ultimately show ?thesis by (simp add: verify_ct_candidates_with_def Let_def)
qed

section \<open>Related domains\<close>

lemma related_candidates_sound:
  "c \<in> set (related_candidates primary nameservers left right) \<Longrightarrow>
   rdc_name c \<in> set left \<and> rdc_name c \<in> set right \<and> rdc_name c \<noteq> primary \<and> rdc_matched_nameservers c = nameservers"
  by (auto simp: related_candidates_def dest!: in_set_takeD)

end
