(* ===== verification/Cli_Scan.thy ===== *)
theory Cli_Scan
  imports Cli_Output Ports Engine Rdap Bgp Supplied_Intel Passive_Intel
begin

text \<open>
  The scan command, \<open>run_scan_command\<close> of \<^verbatim>\<open>crates/surface-cli/src/main.rs\<close>: the arguments become a
  configuration and a selection, the engine runs without finalisation, the intelligence sources add to its
  report, and only then is the report finalised, stored, written and turned into an exit code. The parser of
  the command line (clap), environment variables, the storage, the renderers and the file system are part of
  the world; the answers about cancellation are given for each place that asks.
\<close>

section \<open>Arguments\<close>

datatype scan_part = Part_Dns | Part_Ports | Part_Services | Part_Http | Part_Tls | Part_Intelligence

record scan_args =
  arg_target :: string
  arg_ports :: string
  arg_udp_ports :: string
  arg_concurrency :: nat
  arg_connect_timeout :: nat \<comment> \<open>durations in milliseconds\<close>
  arg_request_timeout :: nat
  arg_global_timeout :: nat
  arg_output :: "string list"
  arg_ipv4_only :: bool
  arg_ipv6_only :: bool
  arg_database :: "string option"
  arg_persist :: bool
  arg_subdomains :: "string list"
  arg_dkim_selectors :: "string list"
  arg_intelligence_bundle :: "string option"
  arg_only :: "scan_part list"

definition MAX_U64 :: nat where
  "MAX_U64 = 2 ^ 64 - 1"

definition parse_duration :: "string \<Rightarrow> string + nat" where
  \<comment> \<open>the value parser of the timeouts, in milliseconds\<close>
  "parse_duration value =
     (case (case strip_suffix value ''ms'' of
              Some number \<Rightarrow> Some (number, 1)
            | None \<Rightarrow>
                (case strip_suffix value ''s'' of
                   Some number \<Rightarrow> Some (number, 1000)
                 | None \<Rightarrow>
                     (case strip_suffix value ''m'' of Some number \<Rightarrow> Some (number, 60000) | None \<Rightarrow> None))) of
        None \<Rightarrow> Inl ''duration must end in ms, s, or m''
      | Some (number, multiplier) \<Rightarrow>
          (case parse_uint MAX_U64 number of
             None \<Rightarrow> Inl ''duration must contain a positive integer''
           | Some amount \<Rightarrow>
               if MAX_U64 < amount * multiplier \<or> amount * multiplier = 0 then
                 Inl ''duration must be positive and within range''
               else Inr (amount * multiplier)))"

definition parse_i64 :: "string \<Rightarrow> int option" where
  \<comment> \<open>\<open>str::parse::<i64>\<close>\<close>
  "parse_i64 s =
     (case s of
        c # digits \<Rightarrow>
          if c = CHR ''-'' then
            (if digits = [] \<or> \<not> list_all is_ascii_digit digits \<or> 2 ^ 63 < digits_val digits then None
             else Some (- int (digits_val digits)))
          else map_option int (parse_uint (2 ^ 63 - 1) s)
      | [] \<Rightarrow> None)"

definition parse_retention_duration :: "string \<Rightarrow> string + int" where
  \<comment> \<open>the value parser of \<open>--older-than\<close>, in seconds\<close>
  "parse_retention_duration value =
     (case strip_suffix value ''d'' of
        None \<Rightarrow> Inl ''retention duration must end in d''
      | Some number \<Rightarrow>
          (case parse_i64 number of
             None \<Rightarrow> Inl ''retention duration must contain a positive integer''
           | Some days \<Rightarrow>
               if days * 86400 < - (2 ^ 63) \<or> 2 ^ 63 - 1 < days * 86400 \<or> days \<le> 0 then
                 Inl ''retention duration must be positive and within range''
               else Inr (days * 86400)))"

definition duration_millis :: "nat \<Rightarrow> app_error + nat" where
  "duration_millis duration =
     (if MAX_U64 < duration then Inl (app_error_new ''duration is too large'' EXIT_INVALID_INPUT) else Inr duration)"

fun part_stage :: "scan_part \<Rightarrow> scan_stage option" where
  "part_stage Part_Dns = None"
| "part_stage Part_Intelligence = None"
| "part_stage Part_Ports = Some Stage_Ports"
| "part_stage Part_Services = Some Stage_Services"
| "part_stage Part_Http = Some Stage_Http"
| "part_stage Part_Tls = Some Stage_Tls"

definition command_selection :: "scan_part list \<Rightarrow> scan_selection" where
  "command_selection only =
     (if only = [] then selection_all else selection_only (filter_map part_stage only))"

definition intelligence_selected :: "scan_part list \<Rightarrow> bool" where
  "intelligence_selected only \<longleftrightarrow> only = [] \<or> Part_Intelligence \<in> set only"

definition command_configuration :: "scan_args \<Rightarrow> normalized_target \<Rightarrow> app_error + scan_configuration" where
  \<comment> \<open>the checks between the target and the scan, in order\<close>
  "command_configuration args target =
     (if (case tgt_explicit_ip target of
            Some ip \<Rightarrow> arg_ipv4_only args \<and> is_ipv6 ip \<or> arg_ipv6_only args \<and> is_ipv4 ip | None \<Rightarrow> False) then
        Inl (app_error_new ''explicit IP conflicts with the selected address family'' EXIT_INVALID_INPUT)
      else if arg_concurrency args = 0 \<or> 4096 < arg_concurrency args then
        Inl (app_error_new ''concurrency must be between 1 and 4096'' EXIT_INVALID_INPUT)
      else (case parse_ports (arg_ports args) of
          Inl e \<Rightarrow> Inl (app_error_new (show_port_spec_error e) EXIT_INVALID_INPUT)
        | Inr ports \<Rightarrow>
            (case parse_udp_ports (arg_udp_ports args) of
               Inl e \<Rightarrow> Inl (app_error_new (show_port_spec_error e) EXIT_INVALID_INPUT)
             | Inr udp_ports \<Rightarrow>
                 (case (duration_millis (arg_connect_timeout args), duration_millis (arg_request_timeout args),
                        duration_millis (arg_global_timeout args)) of
                    (Inr connect_ms, Inr request_ms, Inr global_ms) \<Rightarrow>
                      Inr \<lparr>cfg_ports = as_slice ports, cfg_udp_ports = as_slice udp_ports,
                           cfg_concurrency = arg_concurrency args, cfg_connect_timeout_ms = connect_ms,
                           cfg_request_timeout_ms = request_ms, cfg_global_timeout_ms = global_ms,
                           cfg_ipv4_only = arg_ipv4_only args, cfg_ipv6_only = arg_ipv6_only args,
                           cfg_authorization_acknowledged = True\<rparr>
                  | (Inl e, _, _) \<Rightarrow> Inl e
                  | (_, Inl e, _) \<Rightarrow> Inl e
                  | (_, _, Inl e) \<Rightarrow> Inl e))))"

section \<open>Marks on the report\<close>

definition mark_intelligence_source_error :: "string \<Rightarrow> string \<Rightarrow> scan_report \<Rightarrow> scan_report" where
  "mark_intelligence_source_error check reason report =
     (let i = intelligence_of report;
          error = check @ '': '' @ reason;
          i = i\<lparr>int_complete := False,
                int_errors := (if error \<notin> set (int_errors i) then push (int_errors i) error else int_errors i)\<rparr>
      in mark_intelligence_partial (add_skipped_check check reason (report\<lparr>rep_intelligence := Some i\<rparr>)))"

definition mark_intelligence_stopped :: "bool \<Rightarrow> (string \<times> bool) list \<Rightarrow> scan_report \<Rightarrow> scan_report" where
  "mark_intelligence_stopped cancelled checks report =
     (let report =
            (if cancelled then report\<lparr>rep_status := Interrupted\<rparr>
             else if rep_status report \<noteq> Interrupted then report\<lparr>rep_status := Partial\<rparr>
             else report);
          reason = (if cancelled then ''scan interrupted'' else ''global timeout expired'');
          report = report\<lparr>rep_message := reason\<rparr>
      in foldl (\<lambda>r (check, applicable). if applicable then add_skipped_check check reason r else r) report checks)"

definition push_skip :: "string \<Rightarrow> string \<Rightarrow> scan_report \<Rightarrow> scan_report" where
  "push_skip check reason report =
     report\<lparr>rep_skipped_checks := push (rep_skipped_checks report) \<lparr>skip_check = check, skip_reason = reason\<rparr>\<rparr>"

definition record_intelligence_skips :: "scan_args \<Rightarrow> bool \<Rightarrow> bool \<Rightarrow> scan_report \<Rightarrow> scan_report" where
  "record_intelligence_skips args selected related_configured report =
     (if \<not> selected then push_skip ''intelligence'' ''excluded by --only'' report
      else
        let report = (if arg_subdomains args = [] then
              push_skip ''subdomain_dns'' ''no child domains supplied'' report else report);
            report = (if arg_dkim_selectors args = [] then
              push_skip ''dkim'' ''no selectors supplied'' report else report);
            report = (if arg_intelligence_bundle args = None then
              push_skip ''offline_cve_correlation'' ''no intelligence bundle supplied''
                (push_skip ''offline_network_metadata'' ''no intelligence bundle supplied'' report) else report)
        in if \<not> related_configured then
             push_skip ''related_domains'' ''SURFACE_WHOISXML_API_KEY is not configured'' report
           else report)"

definition merge_certificate_transparency ::
    "string + certificate_transparency_observation \<Rightarrow> scan_report \<Rightarrow> scan_report" where
  "merge_certificate_transparency result report =
     (case result of
        Inl reason \<Rightarrow> mark_intelligence_source_error ''certificate_transparency'' reason report
      | Inr observation \<Rightarrow>
          let i = intelligence_of report; complete = ct_complete observation;
              report = report\<lparr>rep_intelligence := Some (i\<lparr>int_complete := int_complete i \<and> complete,
                int_certificate_transparency := Some observation\<rparr>)\<rparr>
          in if \<not> complete then mark_intelligence_partial report else report)"

definition merge_related_domains :: "string + related_domains_observation \<Rightarrow> scan_report \<Rightarrow> scan_report" where
  "merge_related_domains result report =
     (case result of
        Inl reason \<Rightarrow> mark_intelligence_source_error ''related_domains'' reason report
      | Inr related \<Rightarrow>
          let i = intelligence_of report; complete = rdo_complete related;
              report = report\<lparr>rep_intelligence := Some (i\<lparr>int_complete := int_complete i \<and> complete,
                int_related_domains := Some related\<rparr>)\<rparr>
          in if \<not> complete then mark_intelligence_partial report else report)"

section \<open>The world of the command\<close>

datatype explicit_poll = Explicit_Cancelled | Explicit_Deadline | Explicit_Finished

record ('u, 'v) cli_world =
  cw_urls :: url_crate
  cw_env :: "'u scan_env"
  cw_scan_id :: string
  cw_started_at :: int
  cw_reverse_ns_key :: "string option"
  cw_certspotter_key :: "string option"
  cw_explicit :: explicit_poll
  cw_explicit_cancelled :: bool
  cw_read_bundle :: "string \<Rightarrow> app_error + bytes"
  cw_decode_bundle :: "bytes \<Rightarrow> string + intelligence_bundle"
  cw_supplied :: supplied_world
  cw_net :: "'v intel_net"
  cw_rdap_json :: rdap_json
  cw_rdap_order :: "nat \<Rightarrow> rdap_arrival list \<Rightarrow> rdap_arrival list"
  cw_ripe_json :: "bytes \<Rightarrow> ripe_stat_envelope option"
  cw_bgp_order :: "nat \<Rightarrow> bgp_arrival list \<Rightarrow> bgp_arrival list"
  cw_issuances_json :: "bytes \<Rightarrow> cert_spotter_issuance list option"
  cw_ct_order :: "nat \<Rightarrow> (nat \<times> ct_dns_lookup_result) list \<Rightarrow> (nat \<times> ct_dns_lookup_result) list"
  cw_resolver :: "(string \<Rightarrow> ct_lookup_poll) option"
  cw_reverse_json :: "bytes \<Rightarrow> string list option"
  cw_cancelled_late :: bool
  cw_before :: interruption
  cw_after :: interruption
  cw_now :: int
  cw_finished :: int

definition nonblank :: "string option \<Rightarrow> string option" where
  \<comment> \<open>\<open>.filter(|value| !value.trim().is_empty())\<close>\<close>
  "nonblank value = (case value of Some v \<Rightarrow> if trim v \<noteq> [] then Some v else None | None \<Rightarrow> None)"

section \<open>The steps after the engine\<close>

definition finish_explicit ::
    "('u, 'v) cli_world \<Rightarrow> scan_args \<Rightarrow> scan_report \<Rightarrow> app_error + intelligence_observation" where
  \<comment> \<open>the block under the timeout\<close>
  "finish_explicit w args report =
     (case (case arg_intelligence_bundle args of
              None \<Rightarrow> Inr None
            | Some path \<Rightarrow>
                (case cw_read_bundle w path of
                   Inl e \<Rightarrow> Inl e
                 | Inr bytes \<Rightarrow>
                     (case parse_bundle (cw_decode_bundle w) bytes of
                        Inl e \<Rightarrow> Inl (app_error_new e EXIT_INVALID_INPUT)
                      | Inr bundle \<Rightarrow> Inr (Some bundle)))) of
        Inl e \<Rightarrow> Inl e
      | Inr bundle \<Rightarrow>
          (case analyze_intelligence (cw_urls w) (cw_supplied w) report (arg_subdomains args)
              (arg_dkim_selectors args) bundle of
             Inl e \<Rightarrow> Inl (app_error_new e EXIT_INVALID_INPUT)
           | Inr observation \<Rightarrow> Inr observation))"

definition explicit_step :: "('u, 'v) cli_world \<Rightarrow> scan_args \<Rightarrow> scan_report \<Rightarrow> app_error + scan_report" where
  "explicit_step w args report =
     (if intelligence_selected (arg_only args) \<and>
         (arg_subdomains args \<noteq> [] \<or> arg_dkim_selectors args \<noteq> [] \<or> arg_intelligence_bundle args \<noteq> None) then
        (case cw_explicit w of
           Explicit_Finished \<Rightarrow>
             (case finish_explicit w args report of
                Inl e \<Rightarrow> Inl e
              | Inr observation \<Rightarrow>
                  let report = (if \<not> int_complete observation then mark_intelligence_partial report else report)
                  in Inr (report\<lparr>rep_intelligence := Some observation\<rparr>))
         | _ \<Rightarrow>
             Inr (mark_intelligence_stopped (cw_explicit_cancelled w)
               [(''subdomain_dns'', arg_subdomains args \<noteq> []), (''dkim'', arg_dkim_selectors args \<noteq> []),
                (''offline_network_metadata'', arg_intelligence_bundle args \<noteq> None),
                (''offline_cve_correlation'', arg_intelligence_bundle args \<noteq> None)] report))
      else Inr report)"

definition network_step :: "('u, 'v) cli_world \<Rightarrow> scan_args \<Rightarrow> scan_report \<Rightarrow> scan_report" where
  "network_step w args report =
     (if intelligence_selected (arg_only args) then
        analyze_bgp_routes (cw_bgp_order w) (cw_net w) (cw_ripe_json w) PRODUCTION_BGP_CONFIG
          (arg_request_timeout args)
          (analyze_network_registrations (cw_rdap_order w) (cw_net w) (cw_rdap_json w) PRODUCTION_RDAP_CONFIG
            (arg_request_timeout args) report)
      else report)"

definition reverse_ns_api_key :: "('u, 'v) cli_world \<Rightarrow> scan_args \<Rightarrow> string option" where
  "reverse_ns_api_key w args =
     (if intelligence_selected (arg_only args) then nonblank (cw_reverse_ns_key w) else None)"

definition ct_applicable :: "scan_args \<Rightarrow> scan_report \<Rightarrow> bool" where
  "ct_applicable args report \<longleftrightarrow>
     intelligence_selected (arg_only args) \<and> tgt_hostname (rep_target report) \<noteq> None"

definition passive_step :: "('u, 'v) cli_world \<Rightarrow> scan_args \<Rightarrow> scan_report \<Rightarrow> scan_report" where
  \<comment> \<open>both sources look at the report as it was before either is merged; \<open>passive_results\<close> is never \<open>None\<close>\<close>
  "passive_step w args report =
     (let merged =
            (if ct_applicable args report then
               merge_certificate_transparency
                 (analyze_certificate_transparency (cw_urls w) (cw_net w) (cw_issuances_json w) (cw_ct_order w)
                   (cw_resolver w) report (nonblank (cw_certspotter_key w)) (arg_request_timeout args)) report
             else report)
      in case reverse_ns_api_key w args of
           Some api_key \<Rightarrow>
             merge_related_domains
               (analyze_related_domains (cw_urls w) (cw_net w) (cw_reverse_json w) report api_key
                 (arg_request_timeout args)) merged
         | None \<Rightarrow> merged)"

definition closing_step :: "('u, 'v) cli_world \<Rightarrow> scan_args \<Rightarrow> scan_report \<Rightarrow> scan_report" where
  "closing_step w args report =
     (let applicable = ct_applicable args report;
          report = (if cw_cancelled_late w then
              report\<lparr>rep_status := Interrupted, rep_message := ''scan interrupted''\<rparr> else report);
          report = (if intelligence_selected (arg_only args) \<and> \<not> applicable then
              push_skip ''certificate_transparency''
                ''certificate transparency discovery requires a hostname target'' report else report);
          report = record_intelligence_skips args (intelligence_selected (arg_only args))
            (reverse_ns_api_key w args \<noteq> None) report
      in fst (finalize (cw_before w) (cw_after w) (cw_now w) (cw_finished w) report))"

definition scan_command_report :: "('u, 'v) cli_world \<Rightarrow> scan_args \<Rightarrow> app_error + scan_report" where
  \<comment> \<open>\<open>run_scan_command\<close> up to the finalised report\<close>
  "scan_command_report w args =
     (case normalize_target (cw_urls w) (arg_target args) of
        Inl e \<Rightarrow> Inl (app_error_new (target_message e) EXIT_INVALID_INPUT)
      | Inr target \<Rightarrow>
          (case command_configuration args target of
             Inl e \<Rightarrow> Inl e
           | Inr configuration \<Rightarrow>
               let report = run_report (run_scan_inner (cw_env w) (cw_scan_id w) (cw_started_at w) target
                     configuration (command_selection (arg_only args)))
               in case explicit_step w args report of
                    Inl e \<Rightarrow> Inl e
                  | Inr report \<Rightarrow> Inr (closing_step w args (passive_step w args (network_step w args report)))))"

section \<open>Storing, writing, exiting\<close>

definition report_exit_error :: "scan_report \<Rightarrow> app_error option" where
  "report_exit_error report =
     (if rep_status report \<noteq> Completed then
        Some (app_error_new ''scan incomplete; inspect the partial report'' EXIT_SCAN_FAILED)
      else if list_ex (\<lambda>finding. Sev_High \<le> fnd_severity finding) (rep_findings report) then
        Some (app_error_new ''scan completed with high-severity findings'' EXIT_HIGH_FINDINGS)
      else None)"

record output_world =
  ow_persist :: "string \<Rightarrow> scan_report \<Rightarrow> app_error option" \<comment> \<open>\<open>open_storage\<close> and \<open>persist_report\<close>\<close>
  ow_render :: "scan_report \<Rightarrow> report_format \<Rightarrow> app_error + string"
  ow_html :: "scan_report \<Rightarrow> string"
  ow_date :: string
  ow_write :: "string \<Rightarrow> string option" \<comment> \<open>an error of \<open>write_output_file\<close>\<close>
  ow_faults :: file_faults

fun render_outputs :: "output_world \<Rightarrow> scan_report \<Rightarrow> output_spec list \<Rightarrow> app_error + string list" where
  "render_outputs ow report [] = Inr []"
| "render_outputs ow report (spec # specs) =
     (case ow_render ow report (os_format spec) of
        Inl e \<Rightarrow> Inl e
      | Inr text \<Rightarrow> map_sum id (Cons text) (render_outputs ow report specs))"

fun write_outputs :: "output_world \<Rightarrow> (output_spec \<times> string) list \<Rightarrow> files \<Rightarrow> app_error option \<times> files" where
  "write_outputs ow [] files = (None, files)"
| "write_outputs ow ((spec, text) # outputs) files =
     (case ow_write ow (os_path spec) of
        Some error \<Rightarrow>
          (Some (app_error_new (''could not write '' @ [CHR 0x27] @ os_path spec @ [CHR 0x27] @ '': '' @ error)
             EXIT_SCAN_FAILED), files)
      | None \<Rightarrow> write_outputs ow outputs (files(os_path spec \<mapsto> text)))"

definition deliver_report ::
    "output_world \<Rightarrow> scan_args \<Rightarrow> output_spec list \<Rightarrow> scan_report \<Rightarrow> files \<Rightarrow> (app_error option \<times> files) option" where
  \<comment> \<open>\<open>run_scan_command\<close> after \<open>finalize_report\<close>: the error it returns, and the files\<close>
  "deliver_report ow args specs report files =
     (case (if arg_persist args then
              (case arg_database args of
                 None \<Rightarrow> Some (app_error_new ''--database is required with --persist'' EXIT_INVALID_INPUT)
               | Some database \<Rightarrow> ow_persist ow database report)
            else None) of
        Some e \<Rightarrow> Some (Some e, files)
      | None \<Rightarrow>
          (case render_outputs ow report specs of
             Inl e \<Rightarrow> Some (Some e, files)
           | Inr rendered \<Rightarrow>
               if specs = [] then
                 (case write_default_html_file_at (ow_faults ow) ''.''
                     (safe_filename_component (identity (rep_target report))) (ow_date ow) (ow_html ow report) files of
                    None \<Rightarrow> None
                  | Some (Inl e, files) \<Rightarrow> Some (Some e, files)
                  | Some (Inr _, files) \<Rightarrow> Some (report_exit_error report, files))
               else
                 (case write_outputs ow (zip specs rendered) files of
                    (Some e, files) \<Rightarrow> Some (Some e, files)
                  | (None, files) \<Rightarrow> Some (report_exit_error report, files))))"

definition run_scan_command ::
    "('u, 'v) cli_world \<Rightarrow> output_world \<Rightarrow> scan_args \<Rightarrow> files \<Rightarrow>
     (scan_report option \<times> app_error option \<times> files) option" where
  \<comment> \<open>the report, when there is one, the error returned and the files afterwards\<close>
  "run_scan_command w ow args files =
     (case build_output_specs (arg_output args) Output_Scan of
        Inl e \<Rightarrow> Some (None, Some e, files)
      | Inr specs \<Rightarrow>
          (case scan_command_report w args of
             Inl e \<Rightarrow> Some (None, Some e, files)
           | Inr report \<Rightarrow> map_option (\<lambda>(e, files). (Some report, e, files)) (deliver_report ow args specs report files)))"

definition exit_code :: "app_error option \<Rightarrow> nat" where
  \<comment> \<open>the end of \<open>main\<close>\<close>
  "exit_code result = (case result of None \<Rightarrow> 0 | Some e \<Rightarrow> app_exit_code e)"

section \<open>Completion is honest\<close>

text \<open>
  The steps between the engine and the finalisation owe each other that a report with incomplete
  intelligence is not \<open>Completed\<close>; each of them interprets the locale.
\<close>

locale intelligence_step =
  fixes step :: "scan_report \<Rightarrow> scan_report"
  assumes step_honest: "completion_honest r \<Longrightarrow> completion_honest (step r)"

lemma skip_honest [simp]: "completion_honest (add_skipped_check c m r) = completion_honest r"
  by (simp add: completion_honest_def intelligence_complete_def add_skipped_check_def)

lemma push_skip_honest [simp]: "completion_honest (push_skip c m r) = completion_honest r"
  by (simp add: completion_honest_def intelligence_complete_def push_skip_def)

lemma skips_honest [simp]: "completion_honest (record_intelligence_skips args sel rel r) = completion_honest r"
  by (simp add: record_intelligence_skips_def Let_def)

lemma partial_honest:
  "rep_status r \<noteq> NotStarted \<Longrightarrow> completion_honest (mark_intelligence_partial r)"
  by (simp add: completion_honest_def mark_partial_status)

lemma source_error_honest:
  assumes "completion_honest r"
  shows "completion_honest (mark_intelligence_source_error check reason r)"
proof -
  have started: "rep_status (add_skipped_check check reason (r\<lparr>rep_intelligence := Some i\<rparr>)) \<noteq> NotStarted" for i
    using assms by (simp add: completion_honest_def add_skipped_check_def)
  show ?thesis
    unfolding mark_intelligence_source_error_def Let_def by (rule partial_honest [OF started])
qed

lemma stopped_honest: "completion_honest r \<Longrightarrow> completion_honest (mark_intelligence_stopped cancelled checks r)"
proof -
  have skips: "completion_honest (foldl (\<lambda>r (check, applicable).
        if applicable then add_skipped_check check reason r else r) s checks) = completion_honest s" for reason s
  proof (induction checks arbitrary: s)
    case (Cons c checks)
    then show ?case by (cases c) (simp only: foldl_Cons prod.case skip_honest split: if_split, simp)
  qed simp
  assume "completion_honest r"
  then show ?thesis
    unfolding mark_intelligence_stopped_def Let_def skips by (auto simp: completion_honest_def)
qed

lemma merge_honest:
  assumes "completion_honest r"
    and that: "complete \<longrightarrow> int_complete (f (intelligence_of r)) = int_complete (intelligence_of r)"
  shows "completion_honest (if \<not> complete
      then mark_intelligence_partial (r\<lparr>rep_intelligence := Some (f (intelligence_of r))\<rparr>)
      else r\<lparr>rep_intelligence := Some (f (intelligence_of r))\<rparr>)"
proof (cases complete)
  case True
  with that assms show ?thesis
    by (auto simp: completion_honest_def intelligence_complete_def intelligence_of_def split: option.splits)
next
  case False
  with assms show ?thesis by (simp add: partial_honest completion_honest_def [of r])
qed

lemma merge_ct_honest: "completion_honest r \<Longrightarrow> completion_honest (merge_certificate_transparency result r)"
proof (cases result)
  case (Inr observation)
  assume "completion_honest r"
  then show ?thesis
    using merge_honest [of r "ct_complete observation" "\<lambda>i. i\<lparr>int_complete := int_complete i \<and> ct_complete observation,
      int_certificate_transparency := Some observation\<rparr>"]
    by (simp add: merge_certificate_transparency_def Inr Let_def)
qed (simp add: merge_certificate_transparency_def source_error_honest)

lemma merge_related_honest: "completion_honest r \<Longrightarrow> completion_honest (merge_related_domains result r)"
proof (cases result)
  case (Inr observation)
  assume "completion_honest r"
  then show ?thesis
    using merge_honest [of r "rdo_complete observation" "\<lambda>i. i\<lparr>int_complete := int_complete i \<and> rdo_complete observation,
      int_related_domains := Some observation\<rparr>"]
    by (simp add: merge_related_domains_def Inr Let_def)
qed (simp add: merge_related_domains_def source_error_honest)

interpretation network: intelligence_step "network_step w args" for w args
  by unfold_locales
    (simp add: network_step_def analyze_bgp_routes_honest analyze_network_registrations_honest)

interpretation passive_sources: intelligence_step "passive_step w args" for w args
  by unfold_locales
    (simp add: passive_step_def Let_def merge_ct_honest merge_related_honest split: option.split)

lemma explicit_step_honest:
  assumes "explicit_step w args r = Inr s" and "completion_honest r"
  shows "completion_honest s"
proof -
  have started: "rep_status r \<noteq> NotStarted" using assms(2) by (simp add: completion_honest_def)
  have complete: "completion_honest (r\<lparr>rep_intelligence := Some observation\<rparr>)" if "int_complete observation" for observation
    using that assms(2) by (simp add: completion_honest_def intelligence_complete_def)
  have "completion_honest (mark_intelligence_partial r\<lparr>rep_intelligence := Some observation\<rparr>)" for observation
    using started by (simp add: completion_honest_def mark_partial_status)
  with complete show ?thesis
    using assms stopped_honest [OF assms(2)]
    by (auto simp: explicit_step_def Let_def split: if_splits explicit_poll.splits sum.splits)
qed

lemma finalize_intelligence: "rep_intelligence (fst (finalize before after now finished r)) = rep_intelligence r"
proof -
  have settle: "rep_intelligence (settle s) = rep_intelligence s" for s
    by (simp add: settle_def)
  have check: "rep_intelligence (check_interruption i stage sel cm tm s) = rep_intelligence s" for i stage sel cm tm s
  proof -
    have "conclusions (check_interruption i stage sel cm tm s) = conclusions s" by simp
    then show ?thesis by (simp only: conclusions_def prod.inject)
  qed
  show ?thesis by (simp add: finalize_def Let_def settle check)
qed

lemma finalize_status_kept:
  "rep_status (fst (finalize before after now finished r)) = Completed \<Longrightarrow> rep_status r \<in> {Completed, NotStarted}"
proof (cases "rep_completed_at r = None \<and> \<not> preflight_failed r")
  case True
  assume "rep_status (fst (finalize before after now finished r)) = Completed"
  with True finalize_outcome have "rep_status r \<notin> {Interrupted, Failed, Partial}" by blast
  then show ?thesis by (cases "rep_status r") simp_all
next
  case False
  assume "rep_status (fst (finalize before after now finished r)) = Completed"
  moreover have "fst (finalize before after now finished r) = r \<or>
      fst (finalize before after now finished r) = r\<lparr>rep_completed_at := Some finished\<rparr>"
    using False by (auto simp: finalize_def preflight_failed_def list_ex_iff)
  ultimately show ?thesis by auto
qed

lemma finalize_honest:
  assumes "completion_honest r"
    and "rep_status (fst (finalize before after now finished r)) = Completed"
  shows "intelligence_complete (fst (finalize before after now finished r))"
proof -
  have "rep_status r = Completed" using finalize_status_kept [OF assms(2)] assms(1) by (auto simp: completion_honest_def)
  with assms(1) show ?thesis by (simp add: completion_honest_def intelligence_complete_def finalize_intelligence)
qed

lemma engine_honest:
  "completion_honest (run_report (run_scan_inner env scan_id started_at target configuration sel))"
  using inner_conclusions [of env scan_id started_at target configuration sel]
    run_scan_inner_started [of env scan_id started_at target configuration sel]
  by (simp add: completion_honest_def intelligence_complete_def conclusions_def)

lemma closing_honest:
  assumes "completion_honest r" and "rep_status (closing_step w args r) = Completed"
  shows "intelligence_complete (closing_step w args r)"
proof -
  have "completion_honest (if cw_cancelled_late w
      then r\<lparr>rep_status := Interrupted, rep_message := ''scan interrupted''\<rparr> else r)"
    using assms(1) by (simp add: completion_honest_def)
  then show ?thesis
    using assms(2) unfolding closing_step_def Let_def by (intro finalize_honest) simp_all
qed

lemma scan_command_report_honest:
  assumes "scan_command_report w args = Inr report" and "rep_status report = Completed"
  shows "intelligence_complete report"
proof -
  obtain target configuration r where
    "explicit_step w args (run_report (run_scan_inner (cw_env w) (cw_scan_id w) (cw_started_at w) target
      configuration (command_selection (arg_only args)))) = Inr r"
    and report: "report = closing_step w args (passive_step w args (network_step w args r))"
    using assms(1) by (auto simp: scan_command_report_def Let_def split: sum.splits)
  then have "completion_honest r" by (intro explicit_step_honest [OF _ engine_honest])
  then show ?thesis
    using assms(2) unfolding report
    by (intro closing_honest passive_sources.step_honest network.step_honest)
qed

lemma deliver_report_success:
  "deliver_report ow args specs report files = Some (None, files') \<Longrightarrow> report_exit_error report = None"
  by (auto simp: deliver_report_def split: option.splits sum.splits prod.splits if_splits)

lemma report_exit_success:
  "report_exit_error report = None \<longleftrightarrow>
   rep_status report = Completed \<and> (\<forall>f \<in> set (rep_findings report). fnd_severity f < Sev_High)"
  unfolding report_exit_error_def list_ex_iff not_le [symmetric] by simp

lemma command_success:
  assumes "run_scan_command w ow args files = Some (report, None, files')"
  shows "\<exists>r. report = Some r \<and> rep_status r = Completed \<and> intelligence_complete r \<and>
    (\<forall>f \<in> set (rep_findings r). fnd_severity f < Sev_High)"
proof -
  obtain specs r where "scan_command_report w args = Inr r" and "report = Some r"
    and "deliver_report ow args specs r files = Some (None, files')"
    using assms by (auto simp: run_scan_command_def split: sum.splits)
  moreover from this have "report_exit_error r = None" by (blast dest: deliver_report_success)
  ultimately show ?thesis using scan_command_report_honest report_exit_success by blast
qed

lemma report_exit_code:
  "exit_code (report_exit_error report) =
    (if rep_status report \<noteq> Completed then EXIT_SCAN_FAILED
     else if \<exists>f \<in> set (rep_findings report). Sev_High \<le> fnd_severity f then EXIT_HIGH_FINDINGS else 0)"
  by (auto simp: exit_code_def report_exit_error_def app_error_new_def list_ex_iff)

end
