(* ===== verification/Intel_Props.thy ===== *)
theory Intel_Props
  imports Rdap Bgp Supplied_Intel Passive_Intel Engine "HOL-Library.Code_Target_Nat"
begin

text \<open>
  What the network intelligence of \<^verbatim>\<open>crates/surface-core/src/intelligence.rs\<close> may contact and what it may
  conclude. The registration and route lookups are shown to depend on the network only through an explicit
  set of URLs and clients: two networks that agree there give the same report.
\<close>

section \<open>Networks that agree on the allowed contacts\<close>

definition agree_on :: "('u \<Rightarrow> bool) \<Rightarrow> 'u intel_net \<Rightarrow> 'u intel_net \<Rightarrow> bool" where
  \<comment> \<open>same URL operations and builder; same answers for allowed URLs asked through a pinned client of their host\<close>
  "agree_on allowed net net' \<longleftrightarrow>
     in_urls net' = in_urls net \<and> in_builds net' = in_builds net \<and>
     (\<forall>url. allowed url \<longrightarrow> in_resolve net' url = in_resolve net url) \<and>
     (\<forall>url client. allowed url \<and> publicly_pinned client \<and> iu_host_str (in_urls net) url = Some (pc_hostname client) \<longrightarrow>
        in_get net' client url None = in_get net client url None)"

lemma agree_urls: "agree_on allowed net net' \<Longrightarrow> in_urls net' = in_urls net"
  by (simp add: agree_on_def)

lemma agree_client_for:
  assumes "agree_on allowed net net'" and "allowed url"
  shows "client_for net' url cs = client_for net url cs"
proof -
  have "build_client net' = build_client net" "in_resolve net' url = in_resolve net url" "in_urls net' = in_urls net"
    using assms by (auto simp: agree_on_def build_client_def fun_eq_iff)
  then show ?thesis by (simp only: client_for_def)
qed

lemma agree_get_bounded:
  assumes "agree_on allowed net net'" and "allowed url" and "publicly_pinned client"
    and "iu_host_str (in_urls net) url = Some (pc_hostname client)"
  shows "get_bounded net' client url maximum = get_bounded net client url maximum"
  using assms by (simp add: agree_on_def get_bounded_def get_bounded_with_bearer_def)

definition resolved_public :: "scan_report \<Rightarrow> ip_addr \<Rightarrow> bool" where
  "resolved_public report address \<longleftrightarrow>
     is_public_destination address \<and>
     (\<exists>dns. rep_dns report = Some dns \<and> address \<in> rh_ip ` set (dns_resolved_hosts dns))"

section \<open>Registrations\<close>

definition rdap_allowed :: "'u intel_urls \<Rightarrow> rdap_config \<Rightarrow> scan_report \<Rightarrow> 'u \<Rightarrow> bool" where
  \<comment> \<open>a bootstrap file, or the record of a resolved public address at an approved registry\<close>
  "rdap_allowed urls config report url \<longleftrightarrow>
     iu_parse urls (rc_ipv4_bootstrap config) = Some url \<or> iu_parse urls (rc_ipv6_bootstrap config) = Some url \<or>
     (\<exists>policy \<in> set (rc_allowed_bases config). \<exists>address. resolved_public report address \<and>
        url_matches_policy urls url policy (ab_base_path policy @ ''ip/'' @ show_ip address))"

lemma agree_fetch_bootstrap:
  assumes "agree_on allowed net net'" and "allowed url" and "pinned_cache clients"
  shows "fetch_bootstrap net' url clients = fetch_bootstrap net url clients"
proof -
  obtain r cs where eq: "client_for net url clients = (r, cs)" by fastforce
  show ?thesis
  proof (cases r)
    case (Inr client)
    with client_for_pinned [OF assms(3) eq] have
      "publicly_pinned client" "iu_host_str (in_urls net) url = Some (pc_hostname client)" by simp_all
    from agree_get_bounded [OF assms(1,2) this] eq Inr agree_client_for [OF assms(1,2)] show ?thesis
      by (simp add: fetch_bootstrap_def)
  next
    case (Inl e)
    with eq agree_client_for [OF assms(1,2), of clients] show ?thesis by (simp add: fetch_bootstrap_def)
  qed
qed

lemma agree_bootstrap_round:
  assumes "agree_on allowed net net'" and "state_approved bases st"
    and "\<And>url. iu_parse (in_urls net) endpoint = Some url \<Longrightarrow> allowed url"
  shows "bootstrap_round net' json bases addresses ipv6 endpoint st =
    bootstrap_round net json bases addresses ipv6 endpoint st"
proof (cases "iu_parse (in_urls net) endpoint")
  case (Some url)
  have "fetch_bootstrap net' url (rs_clients st) = fetch_bootstrap net url (rs_clients st)"
    using assms Some by (intro agree_fetch_bootstrap [OF assms(1)]) (auto simp: state_approved_def)
  then show ?thesis unfolding bootstrap_round_def agree_urls [OF assms(1)] Some by (simp only: option.case)
qed (use agree_urls [OF assms(1)] in \<open>simp add: bootstrap_round_def\<close>)

lemma agree_prepare_request:
  assumes "agree_on allowed net net'" and "state_approved bases st"
    and "\<And>policy url. policy \<in> set bases \<Longrightarrow>
      url_matches_policy (in_urls net) url policy (ab_base_path policy @ ''ip/'' @ show_ip address) \<Longrightarrow> allowed url"
  shows "prepare_request net' address st = prepare_request net address st"
proof -
  let ?entries = "if is_ipv4 address then rs_ipv4 st else rs_ipv6 st"
  have "client_for net' url cs = client_for net url cs"
    if "?entries = Some entries" "longest_bootstrap_endpoint address entries = Some ep"
      "construct_rdap_url (in_urls net) ep address = Inr url" for entries ep url cs
  proof -
    have "entries_approved bases entries" using that(1) assms(2) by (auto simp: state_approved_def split: if_splits)
    then have "ap_policy ep \<in> set bases"
      using longest_bootstrap_endpoint_entry [OF that(2)] by (auto simp: entries_approved_def approved_endpoint_def)
    from assms(3) [OF this construct_rdap_url_policy [OF that(3)]] show ?thesis
      by (rule agree_client_for [OF assms(1)])
  qed
  then show ?thesis
    unfolding prepare_request_def agree_urls [OF assms(1)]
    by (auto split: option.split sum.split)
qed

lemma agree_prepare_requests:
  assumes "agree_on allowed net net'"
    and "\<And>policy address url. policy \<in> set bases \<Longrightarrow> address \<in> set addresses \<Longrightarrow>
      url_matches_policy (in_urls net) url policy (ab_base_path policy @ ''ip/'' @ show_ip address) \<Longrightarrow> allowed url"
    and "state_approved bases st"
  shows "prepare_requests net' addresses st = prepare_requests net addresses st"
  using assms(2,3)
proof (induction addresses arbitrary: st)
  case (Cons address addresses)
  have first: "prepare_request net' address st = prepare_request net address st"
    using Cons.prems by (intro agree_prepare_request [OF assms(1)]) auto
  show ?case
  proof (cases "prepare_request net address st")
    case (Inr p)
    then obtain request s where p: "prepare_request net address st = Inr (request, s)" by (cases p) simp
    from prepare_request_approved [OF this Cons.prems(2)] have "state_approved bases s" by blast
    with Cons have "prepare_requests net' addresses s = prepare_requests net addresses s" by auto
    with first p show ?thesis by simp
  qed (use first in simp)
qed simp

lemma agree_rdap_prepare:
  fixes net :: "'u intel_net"
  assumes agree: "agree_on (rdap_allowed (in_urls net) config report) net net'"
    and eligible: "\<And>address. address \<in> set addresses \<Longrightarrow> resolved_public report address"
  shows "rdap_prepare net' json config request_timeout addresses truncated =
    rdap_prepare net json config request_timeout addresses truncated"
proof -
  let ?bases = "rc_allowed_bases config"
  have files: "rdap_allowed (in_urls net) config report url"
    if "iu_parse (in_urls net) (rc_ipv4_bootstrap config) = Some url \<or>
      iu_parse (in_urls net) (rc_ipv6_bootstrap config) = Some url" for url
    using that unfolding rdap_allowed_def by blast
  have records: "rdap_allowed (in_urls net) config report url"
    if "policy \<in> set ?bases" "address \<in> set addresses"
      "url_matches_policy (in_urls net) url policy (ab_base_path policy @ ''ip/'' @ show_ip address)" for policy address url
    using that eligible unfolding rdap_allowed_def by blast
  have round: "bootstrap_round net' json ?bases addresses ipv6 endpoint st =
      bootstrap_round net json ?bases addresses ipv6 endpoint st"
    if "state_approved ?bases st" "endpoint \<in> {rc_ipv4_bootstrap config, rc_ipv6_bootstrap config}" for ipv6 endpoint st
    by (rule agree_bootstrap_round [OF agree that(1)]) (use that(2) files in auto)
  define st0 :: "'u rdap_state" where "st0 = \<lparr>rs_failures = (if truncated then [''address limit reached''] else []),
      rs_ipv4 = None, rs_ipv6 = None, rs_clients = new_clients request_timeout\<rparr>"
  have st0: "state_approved ?bases st0" by (simp add: state_approved_def st0_def)
  show ?thesis
  proof (cases "bootstrap_round net json ?bases addresses False (rc_ipv4_bootstrap config) st0")
    case (Inr st1)
    note st1 = bootstrap_round_approved [OF Inr st0]
    show ?thesis
    proof (cases "bootstrap_round net json ?bases addresses True (rc_ipv6_bootstrap config) st1")
      case (Inr st2)
      note st2 = bootstrap_round_approved [OF Inr st1]
      have "prepare_requests net' addresses st2 = prepare_requests net addresses st2"
        by (rule agree_prepare_requests [OF agree records st2])
      with Inr \<open>bootstrap_round net json ?bases addresses False (rc_ipv4_bootstrap config) st0 = Inr st1\<close> round [OF st0] round [OF st1] show ?thesis
        unfolding rdap_prepare_def Let_def st0_def [symmetric] by simp
    qed (use Inr round [OF st0] round [OF st1] in \<open>simp add: rdap_prepare_def Let_def st0_def [symmetric]\<close>)
  qed (use round [OF st0] in \<open>simp add: rdap_prepare_def Let_def st0_def [symmetric]\<close>)
qed

lemma request_allowed:
  assumes "request_approved net (rc_allowed_bases config) rq" and "resolved_public report (rq_address rq)"
  shows "rdap_allowed (in_urls net) config report (rq_url rq)"
    and "publicly_pinned (rq_client rq)"
    and "iu_host_str (in_urls net) (rq_url rq) = Some (pc_hostname (rq_client rq))"
proof -
  show "publicly_pinned (rq_client rq)" using assms(1) by (simp add: request_approved_def)
  show "iu_host_str (in_urls net) (rq_url rq) = Some (pc_hostname (rq_client rq))"
    using assms(1) by (auto simp: request_approved_def url_matches_policy_def)
  show "rdap_allowed (in_urls net) config report (rq_url rq)"
    using assms unfolding request_approved_def rdap_allowed_def by blast
qed

lemma agree_registrations:
  fixes net :: "'u intel_net"
  assumes agree: "agree_on (rdap_allowed (in_urls net) config report) net net'"
  shows "analyze_network_registrations arrive net' json config request_timeout report =
    analyze_network_registrations arrive net json config request_timeout report"
proof -
  obtain addresses truncated where eligible: "eligible_primary_addresses report MAX_RDAP_ADDRESSES = (addresses, truncated)"
    by fastforce
  have public: "resolved_public report address" if "address \<in> set addresses" for address
    using eligible_addresses [OF eligible] that by (auto simp: resolved_public_def)
  have prepare: "rdap_prepare net' json config request_timeout addresses truncated =
      rdap_prepare net json config request_timeout addresses truncated"
    by (rule agree_rdap_prepare [OF agree public])
  have "map (rdap_lookup net') requests = map (rdap_lookup net) requests"
    if "rdap_prepare net json config request_timeout addresses truncated = Inr (requests, st)" for requests st
  proof (rule map_cong [OF refl])
    fix rq assume "rq \<in> set requests"
    then have rq: "request_approved net (rc_allowed_bases config) rq" "resolved_public report (rq_address rq)"
      using rdap_prepare_approved [OF that] public by auto
    show "rdap_lookup net' rq = rdap_lookup net rq"
      using agree_get_bounded [OF agree request_allowed [OF rq]] by (simp add: rdap_lookup_def)
  qed
  then show ?thesis
    unfolding analyze_network_registrations_def eligible prod.case prepare
    by (auto split: sum.split prod.split simp del: map_eq_conv)
qed

section \<open>Routes\<close>

definition bgp_allowed :: "'u intel_urls \<Rightarrow> bgp_config \<Rightarrow> scan_report \<Rightarrow> 'u \<Rightarrow> bool" where
  "bgp_allowed urls config report url \<longleftrightarrow>
     (\<exists>address. resolved_public report address \<and> bgp_url_for urls config address url)"

lemma agree_routes:
  fixes net :: "'u intel_net"
  assumes agree: "agree_on (bgp_allowed (in_urls net) config report) net net'"
  shows "analyze_bgp_routes arrive net' envelope config request_timeout report =
    analyze_bgp_routes arrive net envelope config request_timeout report"
proof -
  obtain addresses truncated where eligible: "eligible_primary_addresses report MAX_BGP_ADDRESSES = (addresses, truncated)"
    by fastforce
  obtain requests failures where requests: "bgp_requests (in_urls net) config addresses
      (if truncated then [''address limit reached''] else []) = (requests, failures)" by fastforce
  have policy: "bgp_url_for (in_urls net) config address url" "bgp_allowed (in_urls net) config report url"
    if "(address, url) \<in> set requests" for address url
    using bgp_requests_policy [OF requests] that eligible_addresses [OF eligible]
    unfolding bgp_allowed_def resolved_public_def by blast+
  show ?thesis
  proof (cases requests)
    case Nil
    with requests show ?thesis
      unfolding analyze_bgp_routes_def eligible agree_urls [OF agree] by simp
  next
    case (Cons p others)
    obtain first first_url where p: "p = (first, first_url)" by fastforce
    let ?cs = "new_clients request_timeout"
    obtain r cs where client: "client_for net first_url ?cs = (r, cs)" by fastforce
    have first: "client_for net' first_url ?cs = (r, cs)"
      using agree_client_for [OF agree] policy(2) [of first first_url] client Cons p by simp
    have lookups: "map (\<lambda>(address, url). (address, get_bounded net' c url MAX_BGP_RESPONSE_BYTES)) requests =
        map (\<lambda>(address, url). (address, get_bounded net c url MAX_BGP_RESPONSE_BYTES)) requests" if "r = Inr c" for c
    proof (rule map_cong [OF refl])
      fix q assume q: "q \<in> set requests"
      obtain address url where q_eq: "q = (address, url)" by fastforce
      have pinned: "publicly_pinned c" "iu_host_str (in_urls net) first_url = Some (pc_hostname c)"
        using client_for_pinned [OF new_clients_pinned client] that by simp_all
      moreover have "iu_host_str (in_urls net) url = iu_host_str (in_urls net) first_url"
        using policy(1) [of address url] policy(1) [of first first_url] q Cons
        by (simp add: q_eq p bgp_url_for_def bgp_url_matches_policy_def)
      ultimately have "get_bounded net' c url MAX_BGP_RESPONSE_BYTES = get_bounded net c url MAX_BGP_RESPONSE_BYTES"
        using agree_get_bounded [OF agree policy(2)] q q_eq by simp
      then show "(\<lambda>(address, url). (address, get_bounded net' c url MAX_BGP_RESPONSE_BYTES)) q =
          (\<lambda>(address, url). (address, get_bounded net c url MAX_BGP_RESPONSE_BYTES)) q"
        by (simp add: q_eq)
    qed
    show ?thesis
    proof (cases r)
      case (Inl e)
      then show ?thesis
        unfolding analyze_bgp_routes_def eligible agree_urls [OF agree] prod.case requests Cons p list.case
          first client fst_conv by simp
    next
      case (Inr c)
      show ?thesis
        unfolding analyze_bgp_routes_def eligible agree_urls [OF agree] prod.case requests Cons p list.case
          first client fst_conv Inr sum.case Let_def lookups [OF Inr, unfolded Cons p] by (rule refl)
    qed
  qed
qed

section \<open>The network steps\<close>

text \<open>A crate of plain HTTPS addresses, as host, path and query pairs, for the witnesses.\<close>

type_synonym plain_url = "string \<times> string \<times> (string \<times> string) list"

definition parse_plain :: "string \<Rightarrow> plain_url option" where
  "parse_plain s =
     map_option (\<lambda>rest. (takeWhile (\<lambda>c. c \<noteq> CHR ''/'') rest, dropWhile (\<lambda>c. c \<noteq> CHR ''/'') rest, []))
       (strip_prefix s ''https://'')"

definition plain_urls :: "plain_url intel_urls" where
  "plain_urls =
     \<lparr>iu_parse = parse_plain, iu_scheme = (\<lambda>_. ''https''), iu_username = (\<lambda>_. []), iu_password = (\<lambda>_. None),
      iu_host_str = (\<lambda>(host, _). Some host), iu_port = (\<lambda>_. None), iu_path = (\<lambda>(_, path, _). path),
      iu_query = (\<lambda>(_, _, pairs). if pairs = [] then None else Some (concat (map (\<lambda>(k, v). k @ ''='' @ v) pairs))),
      iu_fragment = (\<lambda>_. None), iu_query_pairs = (\<lambda>(_, _, pairs). pairs),
      iu_push_segments = (\<lambda>(host, path, pairs) segments.
        Some (host, (if ends_with path ''/'' then butlast path else path) @ concat (map (\<lambda>s. ''/'' @ s) segments), pairs)),
      iu_append_pairs = (\<lambda>(host, path, pairs) more_pairs. (host, path, pairs @ more_pairs))\<rparr>"

definition answering :: "bytes \<Rightarrow> fetch_poll" where
  "answering body = Poll_Sent (Inr \<lparr>hrs_success = True, hrs_status = 200, hrs_chunks = [Inr body]\<rparr>)"

definition plain_net :: "plain_url intel_net" where
  "plain_net =
     \<lparr>in_urls = plain_urls,
      in_resolve = (\<lambda>_. Res_Addresses [SocketAddr (V4 0x08080808) 0]),
      in_builds = (\<lambda>_. True), in_get = (\<lambda>_ _ _. answering [])\<rparr>"

definition other_net :: "plain_url intel_net" where
  \<comment> \<open>differs everywhere but at the two bootstrap files, the five registries and RIPEstat\<close>
  "other_net = plain_net
     \<lparr>in_get := (\<lambda>c (host, rest) bearer.
        if host \<in> set (''data.iana.org'' # ''stat.ripe.net'' # map ab_host OFFICIAL_RDAP_BASES)
        then answering [] else Poll_Timeout),
      in_resolve := (\<lambda>(host, rest).
        if host \<in> set (''data.iana.org'' # ''stat.ripe.net'' # map ab_host OFFICIAL_RDAP_BASES)
        then Res_Addresses [SocketAddr (V4 0x08080808) 0] else Res_Failed)\<rparr>"

lemma approved_host:
  assumes "rdap_allowed plain_urls PRODUCTION_RDAP_CONFIG report url \<or> bgp_allowed plain_urls PRODUCTION_BGP_CONFIG report url"
  shows "fst url \<in> set (''data.iana.org'' # ''stat.ripe.net'' # map ab_host OFFICIAL_RDAP_BASES)"
proof -
  have files: "parse_plain (rc_ipv4_bootstrap PRODUCTION_RDAP_CONFIG) = Some (''data.iana.org'', ''/rdap/ipv4.json'', [])"
    "parse_plain (rc_ipv6_bootstrap PRODUCTION_RDAP_CONFIG) = Some (''data.iana.org'', ''/rdap/ipv6.json'', [])"
    by code_simp+
  have "iu_host_str plain_urls url = Some (fst url)" by (cases url) (simp add: plain_urls_def)
  moreover have "iu_parse plain_urls = parse_plain" by (simp add: plain_urls_def)
  moreover have "rc_allowed_bases PRODUCTION_RDAP_CONFIG = OFFICIAL_RDAP_BASES" "bc_host PRODUCTION_BGP_CONFIG = ''stat.ripe.net''"
    by (simp_all add: PRODUCTION_RDAP_CONFIG_def PRODUCTION_BGP_CONFIG_def)
  ultimately show ?thesis
    using assms files unfolding rdap_allowed_def bgp_allowed_def bgp_url_for_def bgp_url_matches_policy_def url_matches_policy_def
    by auto
qed

lemma nets_agree:
  assumes "\<And>url. allowed url \<Longrightarrow> fst url \<in> set (''data.iana.org'' # ''stat.ripe.net'' # map ab_host OFFICIAL_RDAP_BASES)"
  shows "agree_on allowed plain_net other_net"
  using assms unfolding agree_on_def other_net_def plain_net_def
  by (auto simp del: list.set split: prod.splits)

lemma is_public_destination_code [code]:
  \<comment> \<open>by intervals of numbers, which evaluate quickly\<close>
  "is_public_destination address \<longleftrightarrow>
     (case address of
        V4 a \<Rightarrow> \<not> in_ranges 256 v4_reserved (unat a)
      | V6 a \<Rightarrow> 2 ^ 125 \<le> unat a \<and> unat a < 2 ^ 126 \<and> \<not> in_ranges 65536 v6_reserved (unat a))"
  by (rule is_public_destination_iff)

text \<open>A report on a public address, with JSON decoders that know one registry and one route.\<close>

definition public_report :: scan_report where
  "public_report = sample_report\<lparr>rep_status := Completed, rep_dns := Some (sample_dns
     \<lparr>dns_resolved_hosts := [ResolvedHost (Some ''example.com'') (V4 0x08080808) Src_ARecord]\<rparr>)\<rparr>"

definition plain_rdap_json :: rdap_json where
  "plain_rdap_json =
     \<lparr>rj_bootstrap = (\<lambda>_. Some [([''8.0.0.0/9'', ''8.0.0.0/8''], [''https://rdap.arin.net/registry/''])]),
      rj_network = (\<lambda>_. Some \<lparr>rn_object_class_name = Some ''ip network'', rn_handle = None, rn_name = Some ''NET'',
        rn_network_type = None, rn_start_address = Some ''8.8.8.0'', rn_end_address = Some ''8.8.8.255'',
        rn_country = None, rn_status = [''active'']\<rparr>)\<rparr>"

definition plain_route :: "bytes \<Rightarrow> ripe_stat_envelope option" where
  "plain_route = (\<lambda>_. Some \<lparr>rse_status = ''ok'', rse_status_code = 200, rse_data_call_name = ''network-info'',
     rse_data_call_status = ''supported'', rse_version = ''1.1'', rse_asns = [''15169''], rse_prefix = ''8.8.8.0/24''\<rparr>)"

text \<open>
  C35: Every network registration in the report after the lookups was there before or is of a public address the
  primary target resolved to, names an approved registry, and carries either no range or one that contains the
  address. This holds for every network, every JSON decoder and every order in which responses arrive.
\<close>

theorem registration_evidence_sound:
  assumes "fair_pool arrive"
    and "o' \<in> set (evidence_in int_network_registrations
      (analyze_network_registrations arrive net json config request_timeout report))"
  shows "o' \<in> set (evidence_in int_network_registrations report) \<or>
    sound_registration report (rc_allowed_bases config) o'"
  using assms by (rule registrations_sound)

theorem registration_evidence_sound_witness:
  "sound_registration public_report OFFICIAL_RDAP_BASES (hd (evidence_in int_network_registrations
     (analyze_network_registrations (\<lambda>_. rev) plain_net plain_rdap_json PRODUCTION_RDAP_CONFIG 5000 public_report)))"
proof -
  let ?found = "evidence_in int_network_registrations
    (analyze_network_registrations (\<lambda>_. rev) plain_net plain_rdap_json PRODUCTION_RDAP_CONFIG 5000 public_report)"
  have "?found \<noteq> []" "evidence_in int_network_registrations public_report = []" by code_simp+
  moreover have "fair_pool (\<lambda>_. rev)" by (simp add: fair_pool_def)
  moreover have "rc_allowed_bases PRODUCTION_RDAP_CONFIG = OFFICIAL_RDAP_BASES" by (simp add: PRODUCTION_RDAP_CONFIG_def)
  ultimately show ?thesis using registration_evidence_sound [of "\<lambda>_. rev" "hd ?found"] hd_in_set by fastforce
qed

text \<open>
  Every route in the report after the lookups was there before or is of a public address the primary target
  resolved to; its prefix, when there is one, is the canonical text of a prefix over that address; its origins
  are distinct, in order and at most four, there are none without a prefix, and it is only called complete when
  prefix and origins come together.
\<close>

theorem route_evidence_sound:
  assumes "fair_pool arrive"
    and "o' \<in> set (evidence_in int_bgp_routes (analyze_bgp_routes arrive net envelope config request_timeout report))"
  shows "o' \<in> set (evidence_in int_bgp_routes report) \<or> sound_route o' \<and> resolved_public report (bgp_address o')"
  using routes_sound [OF assms] by (simp add: resolved_public_def)

theorem route_evidence_sound_witness:
  "sound_route (hd (evidence_in int_bgp_routes
     (analyze_bgp_routes (\<lambda>_. rev) plain_net plain_route PRODUCTION_BGP_CONFIG 5000 public_report)))"
proof -
  let ?found = "evidence_in int_bgp_routes
    (analyze_bgp_routes (\<lambda>_. rev) plain_net plain_route PRODUCTION_BGP_CONFIG 5000 public_report)"
  have "?found \<noteq> []" "evidence_in int_bgp_routes public_report = []" by code_simp+
  moreover have "fair_pool (\<lambda>_. rev)" by (simp add: fair_pool_def)
  ultimately show ?thesis using route_evidence_sound [of "\<lambda>_. rev" "hd ?found"] hd_in_set by fastforce
qed

section \<open>Certificate transparency\<close>

text \<open>
  The candidates taken from certificate issuances are exactly the distinct in-scope names they carry, in
  order and each with the number of times it occurs, unchecked, and at most a thousand; when the limit cut
  nothing off, none is missing.
\<close>

theorem ct_candidates_exact:
  assumes "ct_candidates_of uc primary issuances = (candidates, truncated)"
  shows "sorted_wrt (<) (map candidate_key candidates) \<and> length candidates \<le> MAX_CT_CANDIDATES \<and>
    (\<forall>c \<in> set candidates. candidate_key c \<in> set (certificate_names uc primary issuances) \<and>
       ctc_issuance_count c = count_list (certificate_names uc primary issuances) (candidate_key c) \<and>
       ctc_dns_status c = Ct_NotChecked) \<and>
    (\<not> truncated \<longrightarrow> candidate_key ` set candidates = set (certificate_names uc primary issuances))"
  using assms by (rule ct_candidates_spec)

theorem ct_candidates_exact_witness:
  "let issuances = [\<lparr>csi_id = ''1'', csi_dns_names = [''*.b.c'', ''A.b.c.'', ''b.c'', ''x.org'']\<rparr>,
       \<lparr>csi_id = ''2'', csi_dns_names = [''a.b.c'']\<rparr>];
     candidates = fst (ct_candidates_of sample_url_crate ''b.c'' issuances)
   in candidates = [\<lparr>ctc_name = ''*.b.c'', ctc_wildcard = True, ctc_issuance_count = 1, ctc_dns_status = Ct_NotChecked\<rparr>,
        \<lparr>ctc_name = ''a.b.c'', ctc_wildcard = False, ctc_issuance_count = 2, ctc_dns_status = Ct_NotChecked\<rparr>] \<and>
      candidate_key ` set candidates = set (certificate_names sample_url_crate ''b.c'' issuances)"
proof -
  let ?issuances = "[\<lparr>csi_id = ''1'', csi_dns_names = [''*.b.c'', ''A.b.c.'', ''b.c'', ''x.org'']\<rparr>,
       \<lparr>csi_id = ''2'', csi_dns_names = [''a.b.c'']\<rparr>]"
  have eq: "ct_candidates_of sample_url_crate ''b.c'' ?issuances =
      ([\<lparr>ctc_name = ''*.b.c'', ctc_wildcard = True, ctc_issuance_count = 1, ctc_dns_status = Ct_NotChecked\<rparr>,
        \<lparr>ctc_name = ''a.b.c'', ctc_wildcard = False, ctc_issuance_count = 2, ctc_dns_status = Ct_NotChecked\<rparr>], False)"
    by code_simp
  show ?thesis using ct_candidates_exact [OF eq] unfolding Let_def eq fst_conv by blast
qed

text \<open>
  Concurrent verification of the candidates refines the sequential one: whatever order the sixteen lookups in
  flight finish in, each candidate gets the status of its own answer, wildcards stay unchecked, no candidate is
  added, lost or moved, and the result is called complete exactly when every lookup was answered.
\<close>

theorem ct_verification_refines:
  assumes "fair_pool arrive"
  shows "verify_ct_candidates_with arrive lookup candidates =
    (map (resolved_candidate lookup) candidates,
     list_all (\<lambda>c. ctc_wildcard c \<or> ct_polled_result (lookup (ctc_name c)) \<noteq> CtLookup_Failed) candidates)"
  using assms by (rule verify_with_exact)

theorem ct_verification_refines_witness:
  "snd (verify_ct_candidates_with (\<lambda>_. rev) (\<lambda>name. if name = ''a.b.c'' then CtPoll_Elapsed
      else CtPoll_Answered (Lookup_NoRecords Rc_NxDomain))
    [\<lparr>ctc_name = ''a.b.c'', ctc_wildcard = False, ctc_issuance_count = 1, ctc_dns_status = Ct_NotChecked\<rparr>,
     \<lparr>ctc_name = ''d.b.c'', ctc_wildcard = False, ctc_issuance_count = 1, ctc_dns_status = Ct_NotChecked\<rparr>]) = False"
proof -
  have "fair_pool (\<lambda>_. rev)" by (simp add: fair_pool_def)
  from ct_verification_refines [OF this] show ?thesis by simp
qed

section \<open>Address policy and correlation\<close>

text \<open>
  C36: The masks of the public-destination policy decide exactly membership in intervals: an IPv4 address is a
  public destination when it is outside the special-purpose blocks, an IPv6 address when it is in 2000::/3 and
  outside the exceptions; mapped and NAT64 addresses are never public.
\<close>

theorem public_destination_exact:
  "is_public_destination address \<longleftrightarrow>
     (case address of
        V4 a \<Rightarrow> \<not> in_ranges 256 v4_reserved (unat a)
      | V6 a \<Rightarrow> 2 ^ 125 \<le> unat a \<and> unat a < 2 ^ 126 \<and> \<not> in_ranges 65536 v6_reserved (unat a))"
  by (rule is_public_destination_iff)

text \<open>
  On text whose brackets are balanced outside its string literals, as those of every JSON document are, the
  single pass over the bytes accepts exactly the documents nested at most 32 deep; brackets and escaped quotes
  inside strings do not count.
\<close>

theorem json_depth_exact:
  assumes "balanced d s"
  shows "validate_json_depth s = Some () \<longleftrightarrow> d \<le> MAX_JSON_DEPTH"
  using assms by (rule validate_json_depth_iff)

theorem json_depth_exact_witness: "validate_json_depth (''['' @ [CHR 0x22, CHR ''['', CHR 0x22] @ '']'') = Some ()"
proof -
  have "balanced 0 (CHR 0x22 # ''['' @ CHR 0x22 # [])" by (rule balanced_string [OF _ balanced_Nil]) simp
  then have "balanced (max (Suc 0) 0) (CHR ''['' # (CHR 0x22 # ''['' @ CHR 0x22 # []) @ CHR '']'' # [])"
    by (intro balanced_bracket balanced_Nil) auto
  from json_depth_exact [OF this] show ?thesis by (simp add: MAX_JSON_DEPTH_def)
qed

lemma correlate_networks_entry:
  assumes "nm \<in> set (correlate_networks report bundle)"
  obtains entry prefix where "best_network (ib_networks bundle) (nm_address nm) = Some (entry, prefix)"
    and "nm_address nm \<in> host_ip ` set (rep_hosts report)" and "nm_prefix nm = ne_prefix entry" "nm_asn nm = ne_asn entry"
proof -
  from assms obtain address where "address \<in> host_ip ` set (rep_hosts report)" and
    "map_option (\<lambda>(entry, _). \<lparr>nm_address = address, nm_prefix = ne_prefix entry, nm_asn = ne_asn entry,
       nm_organization = ne_organization entry, nm_country = ne_country entry\<rparr>)
       (best_network (ib_networks bundle) address) = Some nm"
    by (auto simp: correlate_networks_def set_filter_map)
  then show thesis using that by (auto split: prod.splits)
qed

text \<open>
  Every network attributed to a scanned host comes from an entry of the offline bundle whose block contains
  the host's address, and no other block of the bundle that contains it is smaller.
\<close>

theorem network_metadata_longest:
  assumes "nm \<in> set (correlate_networks report bundle)"
  shows "\<exists>entry \<in> set (ib_networks bundle). \<exists>prefix.
    nm_prefix nm = ne_prefix entry \<and> nm_asn nm = ne_asn entry \<and> parse_prefix (ne_prefix entry) = Inr prefix \<and>
    nm_address nm \<in> host_ip ` set (rep_hosts report) \<and> in_block prefix (nm_address nm) \<and>
    (\<forall>other \<in> set (ib_networks bundle). \<forall>q. parse_prefix (ne_prefix other) = Inr q \<and> in_block q (nm_address nm) \<longrightarrow>
       pfx_length q \<le> pfx_length prefix)"
proof -
  from assms obtain entry prefix where best: "best_network (ib_networks bundle) (nm_address nm) = Some (entry, prefix)"
    and "nm_address nm \<in> host_ip ` set (rep_hosts report)" "nm_prefix nm = ne_prefix entry" "nm_asn nm = ne_asn entry"
    by (rule correlate_networks_entry)
  with best_network_longest [OF best] show ?thesis by blast
qed

definition sample_bundle :: intelligence_bundle where
  "sample_bundle =
     \<lparr>ib_schema_version = ''1.0'', ib_source = ''s'', ib_source_timestamp = 0, ib_networks =
        [\<lparr>ne_prefix = ''8.8.8.0/24'', ne_asn = Some 15169, ne_organization = None, ne_country = None\<rparr>,
         \<lparr>ne_prefix = ''8.0.0.0/9'', ne_asn = Some 3356, ne_organization = None, ne_country = None\<rparr>],
      ib_vulnerabilities = []\<rparr>"

definition scanned_report :: scan_report where
  "scanned_report = public_report\<lparr>rep_hosts := [\<lparr>host_ip = V4 0x08080808, host_ports = []\<rparr>]\<rparr>"

theorem network_metadata_longest_witness:
  "let nm = hd (correlate_networks scanned_report sample_bundle) in nm_prefix nm = ''8.8.8.0/24'' \<and>
     (\<exists>entry \<in> set (ib_networks sample_bundle). nm_prefix nm = ne_prefix entry \<and> nm_asn nm = ne_asn entry)"
proof -
  let ?nm = "hd (correlate_networks scanned_report sample_bundle)"
  have "correlate_networks scanned_report sample_bundle \<noteq> []" and prefix: "nm_prefix ?nm = ''8.8.8.0/24''"
    by code_simp+
  then have "?nm \<in> set (correlate_networks scanned_report sample_bundle)" by (intro hd_in_set)
  from network_metadata_longest [OF this] prefix show ?thesis unfolding Let_def by blast
qed

end
