(* ===== verification/Cli_Props.thy ===== *)
theory Cli_Props
  imports Cli_Scan Intel_Props
begin

text \<open>
  What the scan command of \<^verbatim>\<open>crates/surface-cli/src/main.rs\<close> promises: a successful exit means a complete
  scan without high findings, the network lookups ask only approved places, and the default report is written
  to a fresh file.
\<close>

section \<open>Network lookups\<close>

lemma agree_on_weaken: "agree_on allowed net net' \<Longrightarrow> (\<And>url. allowed' url \<Longrightarrow> allowed url) \<Longrightarrow> agree_on allowed' net net'"
  unfolding agree_on_def by blast

lemma finish_registrations_dns [simp]: "rep_dns (finish_network_registrations r obs fs stop) = rep_dns r"
  by (auto simp: finish_network_registrations_def record_network_registration_skip_def replace_skip_def
    mark_intelligence_partial_def mark_intelligence_interrupted_def Let_def split: option.split rdap_stop.split)

lemma registrations_dns [simp]:
  "rep_dns (analyze_network_registrations arrive net json config request_timeout r) = rep_dns r"
  by (auto simp: analyze_network_registrations_def record_network_registration_skip_def replace_skip_def
    split: prod.split sum.split)

text \<open>
  C6: The network lookups of a scan depend on the network only through HTTPS requests, sent by clients pinned to
  public addresses, to the two IANA bootstrap files, to the record of a resolved public address at an approved
  registry, and to the RIPEstat endpoint with such an address as its only parameter: two networks that agree on
  these give the same report, whatever else they answer.
\<close>

theorem network_step_confined:
  assumes "agree_on (\<lambda>url. rdap_allowed (in_urls (cw_net w)) PRODUCTION_RDAP_CONFIG report url \<or>
      bgp_allowed (in_urls (cw_net w)) PRODUCTION_BGP_CONFIG report url) (cw_net w) net'"
  shows "network_step (w\<lparr>cw_net := net'\<rparr>) args report = network_step w args report"
proof -
  let ?r = "analyze_network_registrations (cw_rdap_order w) (cw_net w) (cw_rdap_json w) PRODUCTION_RDAP_CONFIG
    (arg_request_timeout args) report"
  have "agree_on (rdap_allowed (in_urls (cw_net w)) PRODUCTION_RDAP_CONFIG report) (cw_net w) net'"
    by (rule agree_on_weaken [OF assms]) simp
  note registrations = agree_registrations [OF this]
  have "bgp_allowed (in_urls (cw_net w)) PRODUCTION_BGP_CONFIG ?r =
      bgp_allowed (in_urls (cw_net w)) PRODUCTION_BGP_CONFIG report"
    by (simp add: bgp_allowed_def resolved_public_def fun_eq_iff)
  then have "agree_on (bgp_allowed (in_urls (cw_net w)) PRODUCTION_BGP_CONFIG ?r) (cw_net w) net'"
    using agree_on_weaken [OF assms] by simp
  note routes = agree_routes [OF this]
  show ?thesis by (simp add: network_step_def registrations routes)
qed

section \<open>Success\<close>

text \<open>
  C2: When the scan command succeeds, which is its exit code 0, the report it stored and wrote is of a completed
  scan, holds no high or critical finding, and no intelligence source left it incomplete.
\<close>

theorem successful_command:
  assumes "run_scan_command w ow args files = Some (report, None, files')"
  shows "\<exists>r. report = Some r \<and> rep_status r = Completed \<and> intelligence_complete r \<and>
    (\<forall>f \<in> set (rep_findings r). fnd_severity f < Sev_High)"
  using assms by (rule command_success)

section \<open>The default report\<close>

text \<open>
  Without an output option and without I/O errors, writing the report ends, however many reports of the day
  exist: it creates the first file of the numbered sequence that does not exist, and overwrites none.
\<close>

theorem default_report_fresh:
  fixes directory stem date :: string
  defines "path \<equiv> default_html_path_for_suffix directory stem date"
  assumes "finite (dom files)" and "ff_create faults = (\<lambda>_. None)" and "ff_write faults = (\<lambda>_. None)"
  shows "\<exists>n. write_default_html_file_at faults directory stem date rendered files =
      Some (Inr (path n), files(path n \<mapsto> rendered)) \<and> path n \<notin> dom files \<and> (\<forall>i < n. path i \<in> dom files)"
proof -
  obtain n where "write_default_from faults path 0 rendered files = Some (write_default_at faults (path n) rendered files)"
    and "path n \<notin> dom files \<or> ff_create faults (path n) \<noteq> None" and "\<forall>i < n. path i \<in> dom files"
    using write_default_returns [OF assms(2) default_path_inj] unfolding path_def by blast
  then show ?thesis
    using assms(3,4) unfolding write_default_html_file_at_def path_def [symmetric]
    by (intro exI [of _ n]) (simp add: write_default_at_def)
qed

lemma safe_base_reserved:
  assumes "is_windows_reserved_name s"
  shows "is_windows_reserved_name (s @ ''-target'') \<longleftrightarrow> CHR ''.'' \<in> set s"
proof
  assume "is_windows_reserved_name (s @ ''-target'')"
  show "CHR ''.'' \<in> set s"
  proof (rule ccontr)
    assume no_dot: "CHR ''.'' \<notin> set s"
    then have "split_on CHR ''.'' (s @ ''-target'') = [s @ ''-target'']" by (intro split_on_id) simp
    with \<open>is_windows_reserved_name (s @ ''-target'')\<close> have "length (to_ascii_uppercase (s @ ''-target'')) \<in> {3, 4}"
      by (auto simp: is_windows_reserved_name_def Let_def)
    then show False by (simp add: to_ascii_uppercase_def)
  qed
qed (rule reserved_kept_by_suffix [OF assms])

text \<open>
  C40: The stem of the default report is a name Windows reserves exactly when the sanitised target is reserved and
  has a dot: the suffix meant to avoid such names goes to the end and leaves the part before the first dot alone.
\<close>

theorem reserved_stem_kept:
  "is_windows_reserved_name (safe_filename_component value) \<longleftrightarrow>
     (let safe = trim_filename (map filename_char (chars value));
          safe = (if safe = [] then ''target'' else safe)
      in is_windows_reserved_name safe \<and> CHR ''.'' \<in> set safe)"
  using safe_base_reserved by (simp add: safe_filename_component_def Let_def)

section \<open>Witnesses\<close>

definition sample_args :: scan_args where
  "sample_args =
     \<lparr>arg_target = ''a-b.c'', arg_ports = ''22,443'', arg_udp_ports = ''53'', arg_concurrency = 64,
      arg_connect_timeout = 1500, arg_request_timeout = 5000, arg_global_timeout = 60000, arg_output = [''r.json''],
      arg_ipv4_only = False, arg_ipv6_only = False, arg_database = None, arg_persist = False, arg_subdomains = [],
      arg_dkim_selectors = [], arg_intelligence_bundle = None, arg_only = [Part_Dns]\<rparr>"

definition sample_world :: "(string, plain_url) cli_world" where
  "sample_world =
     \<lparr>cw_urls = sample_url_crate, cw_env = sample_env, cw_scan_id = ''id'', cw_started_at = 0, cw_reverse_ns_key = None,
      cw_certspotter_key = None, cw_explicit = Explicit_Finished, cw_explicit_cancelled = False,
      cw_read_bundle = (\<lambda>_. Inr []), cw_decode_bundle = (\<lambda>_. Inl ''no bundle''),
      cw_supplied = \<lparr>sw_stop = (\<lambda>_ _. calm), sw_dns = (\<lambda>_. Await_Deadline), sw_txt = (\<lambda>_ _. Await_Deadline),
        sw_sha256 = (\<lambda>_. [])\<rparr>,
      cw_net = plain_net, cw_rdap_json = plain_rdap_json, cw_rdap_order = (\<lambda>_. rev), cw_ripe_json = plain_route,
      cw_bgp_order = (\<lambda>_. rev), cw_issuances_json = (\<lambda>_. Some []), cw_ct_order = (\<lambda>_. rev), cw_resolver = None,
      cw_reverse_json = (\<lambda>_. None), cw_cancelled_late = False, cw_before = calm, cw_after = calm, cw_now = 1,
      cw_finished = 2\<rparr>"

definition sample_output :: output_world where
  "sample_output =
     \<lparr>ow_persist = (\<lambda>_ _. None), ow_render = (\<lambda>_ _. Inr ''{}''), ow_html = (\<lambda>_. ''html''), ow_date = ''2025-01-01'',
      ow_write = (\<lambda>_. None), ow_faults = \<lparr>ff_create = (\<lambda>_. None), ff_write = (\<lambda>_. None)\<rparr>\<rparr>"

theorem successful_command_witness:
  "\<exists>r files'. run_scan_command sample_world sample_output sample_args Map.empty = Some (Some r, None, files') \<and>
     rep_status r = Completed \<and> intelligence_complete r"
proof -
  have "case run_scan_command sample_world sample_output sample_args Map.empty of
      Some (report, error, files) \<Rightarrow> error = None | None \<Rightarrow> False"
    by code_simp
  then obtain report files' where run:
    "run_scan_command sample_world sample_output sample_args Map.empty = Some (report, None, files')"
    by (auto split: option.splits)
  from successful_command [OF this] run show ?thesis by blast
qed

theorem network_step_confined_witness:
  "network_step (sample_world\<lparr>cw_net := other_net\<rparr>) (sample_args\<lparr>arg_only := []\<rparr>) public_report =
   network_step sample_world (sample_args\<lparr>arg_only := []\<rparr>) public_report"
proof (rule network_step_confined)
  have net: "cw_net sample_world = plain_net" "in_urls plain_net = plain_urls" by (simp_all add: sample_world_def plain_net_def)
  show "agree_on (\<lambda>url. rdap_allowed (in_urls (cw_net sample_world)) PRODUCTION_RDAP_CONFIG public_report url \<or>
      bgp_allowed (in_urls (cw_net sample_world)) PRODUCTION_BGP_CONFIG public_report url) (cw_net sample_world) other_net"
    unfolding net by (rule nets_agree) (rule approved_host)
qed

theorem default_report_fresh_witness:
  "\<exists>n. write_default_html_file_at \<lparr>ff_create = (\<lambda>_. None), ff_write = (\<lambda>_. None)\<rparr> ''.'' ''a'' ''d'' ''x'' [''./a-d.html'' \<mapsto> ''old''] =
     Some (Inr (default_html_path_for_suffix ''.'' ''a'' ''d'' n),
       [''./a-d.html'' \<mapsto> ''old'', default_html_path_for_suffix ''.'' ''a'' ''d'' n \<mapsto> ''x''])"
  using default_report_fresh [of "[''./a-d.html'' \<mapsto> ''old'']" "\<lparr>ff_create = (\<lambda>_. None), ff_write = (\<lambda>_. None)\<rparr>" "''.''" "''a''" "''d''" "''x''"]
  by auto

end
