(* ===== verification/Dns_Wire.thy ===== *)
theory Dns_Wire
  imports Dns Utf8_Lossy
begin

text \<open>
  What \<^verbatim>\<open>crates/surface-core/src/dns.rs\<close> sees of the \<^verbatim>\<open>hickory\<close> crates (records, response codes, lookup errors)
  and its functions on single records and errors. A domain \<open>Name\<close> is a value of an ordered type \<open>'n\<close>, so that
  equality on it is that of the crate; its text, its scope test and its parser are parameters.
\<close>

section \<open>Records and errors\<close>

datatype record_type = Rt_A | Rt_Aaaa | Rt_Cname | Rt_Ns | Rt_Mx | Rt_Txt | Rt_Caa | Rt_Soa | Rt_Nsec | Rt_Nsec3 | Rt_Other

fun show_record_type :: "record_type \<Rightarrow> string" where
  \<comment> \<open>\<open>Display\<close> of the types the code queries\<close>
  "show_record_type Rt_A = ''A''"
| "show_record_type Rt_Aaaa = ''AAAA''"
| "show_record_type Rt_Cname = ''CNAME''"
| "show_record_type Rt_Ns = ''NS''"
| "show_record_type Rt_Mx = ''MX''"
| "show_record_type Rt_Txt = ''TXT''"
| "show_record_type Rt_Caa = ''CAA''"
| "show_record_type Rt_Soa = ''SOA''"
| "show_record_type Rt_Nsec = ''NSEC''"
| "show_record_type Rt_Nsec3 = ''NSEC3''"
| "show_record_type Rt_Other = []" \<comment> \<open>never queried\<close>

datatype 'n rdata =
    RData_A "32 word"
  | RData_Aaaa "128 word"
  | RData_Cname 'n
  | RData_Ns 'n
  | RData_Mx u16 'n
  | RData_Txt "bytes list"
  | RData_Caa u8 bool string bytes \<comment> \<open>reserved flags, issuer critical, tag, value\<close>
  | RData_Soa "32 word" \<comment> \<open>serial\<close>
  | RData_Nsec
  | RData_Nsec3
  | RData_Other

fun rdata_type :: "'n rdata \<Rightarrow> record_type" where
  "rdata_type (RData_A _) = Rt_A"
| "rdata_type (RData_Aaaa _) = Rt_Aaaa"
| "rdata_type (RData_Cname _) = Rt_Cname"
| "rdata_type (RData_Ns _) = Rt_Ns"
| "rdata_type (RData_Mx _ _) = Rt_Mx"
| "rdata_type (RData_Txt _) = Rt_Txt"
| "rdata_type (RData_Caa _ _ _ _) = Rt_Caa"
| "rdata_type (RData_Soa _) = Rt_Soa"
| "rdata_type RData_Nsec = Rt_Nsec"
| "rdata_type RData_Nsec3 = Rt_Nsec3"
| "rdata_type RData_Other = Rt_Other"

record 'n rr =
  rr_name :: 'n
  rr_data :: "'n rdata"
  rr_proof :: dnssec_proof

datatype response_code = Rcode_NoError | Rcode_NXDomain | Rcode_ServFail | Rcode_Refused | Rcode_NotAuth | Rcode_Other string

fun show_response_code :: "response_code \<Rightarrow> string" where
  \<comment> \<open>\<open>Debug\<close>; of another code its text\<close>
  "show_response_code Rcode_NoError = ''NoError''"
| "show_response_code Rcode_NXDomain = ''NXDomain''"
| "show_response_code Rcode_ServFail = ''ServFail''"
| "show_response_code Rcode_Refused = ''Refused''"
| "show_response_code Rcode_NotAuth = ''NotAuth''"
| "show_response_code (Rcode_Other s) = s"

datatype 'n net_error =
    Net_NoRecordsFound response_code "'n rr list option" \<comment> \<open>with the authorities, when there are any\<close>
  | Net_Nsec response_code "'n rr list" dnssec_proof
  | Net_ResponseCode response_code
  | Net_Timeout
  | Net_Io
  | Net_NoConnections
  | Net_Other string

record 'n name_crate =
  nc_from_ascii :: "string \<Rightarrow> 'n option"
  nc_text :: "'n \<Rightarrow> string" \<comment> \<open>\<open>to_string\<close>\<close>
  nc_zone_of :: "'n \<Rightarrow> 'n \<Rightarrow> bool"
  nc_lowercase :: "string \<Rightarrow> string" \<comment> \<open>\<open>str::to_lowercase\<close>\<close>
  nc_error_text :: "'n net_error \<Rightarrow> string"

section \<open>Single records\<close>

definition trim_name :: "'n name_crate \<Rightarrow> string \<Rightarrow> string" where
  "trim_name nc value = nc_lowercase nc (trim_end_matches CHR ''.'' value)"

definition name_text :: "'n name_crate \<Rightarrow> 'n \<Rightarrow> string" where
  \<comment> \<open>\<open>trim_name(name.to_string())\<close>\<close>
  "name_text nc n = trim_name nc (nc_text nc n)"

definition txt_value :: "bytes list \<Rightarrow> string" where
  "txt_value parts = capped (from_utf8_lossy (concat parts))"

unbundle bit_operations_syntax

fun convert_record :: "'n name_crate \<Rightarrow> 'n rdata \<Rightarrow> dns_record option" where
  "convert_record nc (RData_A v) = Some (Rec_A v)"
| "convert_record nc (RData_Aaaa v) = Some (Rec_Aaaa v)"
| "convert_record nc (RData_Cname v) = Some (Rec_Cname (name_text nc v))"
| "convert_record nc (RData_Ns v) = Some (Rec_Ns (name_text nc v))"
| "convert_record nc (RData_Mx preference exchange) = Some (Rec_Mx preference (name_text nc exchange))"
| "convert_record nc (RData_Txt parts) = Some (Rec_Txt (txt_value parts))"
| "convert_record nc (RData_Caa reserved critical tag val) =
     Some (Rec_Caa (reserved OR push_bit 7 (of_bool critical)) tag (capped (from_utf8_lossy val)))"
| "convert_record nc _ = None"

section \<open>Authority\<close>

fun is_soa :: "'n rdata \<Rightarrow> bool" where
  "is_soa (RData_Soa _) = True"
| "is_soa _ = False"

definition MAX_AXFR_NAMESERVERS :: nat where "MAX_AXFR_NAMESERVERS = 4"

definition exact_soa_zone :: "'n::linorder name_crate \<Rightarrow> 'n \<Rightarrow> 'n rr list \<Rightarrow> 'n option" where
  "exact_soa_zone nc queried_name records =
     (case btree_set (map rr_name (filter (\<lambda>r. is_soa (rr_data r) \<and> nc_zone_of nc (rr_name r) queried_name) records)) of
        [zone] \<Rightarrow> Some zone
      | _ \<Rightarrow> None)"

definition evidenced_nameservers :: "'n name_crate \<Rightarrow> 'n \<Rightarrow> 'n rr list \<Rightarrow> string list" where
  "evidenced_nameservers nc zone records =
     take MAX_AXFR_NAMESERVERS (btree_set (filter_map
       (\<lambda>r. case rr_data r of RData_Ns nameserver \<Rightarrow> Some (name_text nc nameserver) | _ \<Rightarrow> None)
       (filter (\<lambda>r. rr_name r = zone) records)))"

datatype 'n timed_lookup = Lookup_Elapsed | Lookup_Result "'n net_error + 'n rr list"

definition authoritative_evidence_of ::
    "'n::linorder name_crate \<Rightarrow> ('n \<Rightarrow> record_type \<Rightarrow> 'n timed_lookup) \<Rightarrow> string \<Rightarrow> ('n \<times> string list) option" where
  \<comment> \<open>the function \<open>authoritative_evidence\<close>: zone and nameservers\<close>
  "authoritative_evidence_of nc resolve hostname =
     (case nc_from_ascii nc (hostname @ ''.'') of
        None \<Rightarrow> None
      | Some queried_name \<Rightarrow>
          (case (case resolve queried_name Rt_Soa of
                   Lookup_Elapsed \<Rightarrow> None
                 | Lookup_Result (Inr answers) \<Rightarrow> exact_soa_zone nc queried_name answers
                 | Lookup_Result (Inl (Net_NoRecordsFound _ (Some authorities))) \<Rightarrow>
                     exact_soa_zone nc queried_name authorities
                 | Lookup_Result (Inl _) \<Rightarrow> None) of
             None \<Rightarrow> None
           | Some zone \<Rightarrow>
               (case resolve zone Rt_Ns of
                  Lookup_Result (Inr answers) \<Rightarrow>
                    let nameservers = evidenced_nameservers nc zone answers
                    in if nameservers \<noteq> [] then Some (zone, nameservers) else None
                | _ \<Rightarrow> None)))"

section \<open>Negative answers\<close>

definition authenticated_negative_authorities :: "'n rr list \<Rightarrow> bool" where
  "authenticated_negative_authorities records =
     (let relevant = filter (\<lambda>r. rdata_type (rr_data r) \<in> {Rt_Soa, Rt_Nsec, Rt_Nsec3}) records
      in relevant \<noteq> [] \<and> list_all (\<lambda>r. rr_proof r \<in> {Proof_Secure, Proof_Insecure}) relevant)"

fun wildcard_negative_response :: "'n net_error \<Rightarrow> bool" where
  "wildcard_negative_response (Net_NoRecordsFound rc authorities) \<longleftrightarrow>
     rc \<in> {Rcode_NXDomain, Rcode_NoError} \<and>
     (case authorities of Some a \<Rightarrow> authenticated_negative_authorities a | None \<Rightarrow> False)"
| "wildcard_negative_response (Net_Nsec rc authorities proof) \<longleftrightarrow>
     rc \<in> {Rcode_NXDomain, Rcode_NoError} \<and> proof \<in> {Proof_Secure, Proof_Insecure} \<and>
     authenticated_negative_authorities authorities"
| "wildcard_negative_response _ \<longleftrightarrow> False"

fun wildcard_error_summary :: "'n net_error \<Rightarrow> string" where
  "wildcard_error_summary (Net_ResponseCode Rcode_ServFail) = ''returned SERVFAIL''"
| "wildcard_error_summary (Net_NoRecordsFound _ _) = ''returned an unauthenticated negative answer''"
| "wildcard_error_summary (Net_Nsec _ _ _) = ''returned an unauthenticated negative answer''"
| "wildcard_error_summary Net_Timeout = ''reached the resolver timeout''"
| "wildcard_error_summary Net_Io = ''failed at the DNS transport layer''"
| "wildcard_error_summary Net_NoConnections = ''failed at the DNS transport layer''"
| "wildcard_error_summary _ = ''failed without a conclusive answer''"

definition dangling_negative_outcome :: "'n net_error \<Rightarrow> dangling_query_outcome option" where
  "dangling_negative_outcome error =
     (case (case error of
              Net_NoRecordsFound rc authorities \<Rightarrow>
                (case authorities of
                   Some a \<Rightarrow> if authenticated_negative_authorities a then Some rc else None
                 | None \<Rightarrow> None)
            | Net_Nsec rc authorities proof \<Rightarrow>
                if proof \<in> {Proof_Secure, Proof_Insecure} \<and> authenticated_negative_authorities authorities
                then Some rc else None
            | _ \<Rightarrow> None) of
        Some Rcode_NXDomain \<Rightarrow> Some Query_NxDomain
      | Some Rcode_NoError \<Rightarrow> Some Query_NoAddress
      | _ \<Rightarrow> None)"

fun dnssec_status_from_lookup_error :: "'n net_error \<Rightarrow> dnssec_status option" where
  "dnssec_status_from_lookup_error (Net_Nsec _ _ proof) = Some (dnssec_status_from_proof proof)"
| "dnssec_status_from_lookup_error (Net_NoRecordsFound _ authorities) =
     map_option (\<lambda>rs. dnssec_status_from_proofs (map rr_proof rs)) authorities"
| "dnssec_status_from_lookup_error _ = None"

section \<open>Lemmas\<close>

lemma negative_outcomes_agree:
  \<comment> \<open>the two readings of a negative answer accept the same errors\<close>
  "wildcard_negative_response error \<longleftrightarrow> dangling_negative_outcome error \<noteq> None"
  by (cases error) (auto simp: dangling_negative_outcome_def split: option.splits response_code.splits if_splits)

lemma negative_outcome_sound:
  "dangling_negative_outcome error = Some outcome \<Longrightarrow> outcome = Query_NxDomain \<or> outcome = Query_NoAddress"
  by (auto simp: dangling_negative_outcome_def split: option.splits response_code.splits)

lemma exact_soa_zone_Some:
  assumes "exact_soa_zone nc queried_name records = Some zone"
  shows "nc_zone_of nc zone queried_name \<and>
    (\<forall>r \<in> set records. is_soa (rr_data r) \<and> nc_zone_of nc (rr_name r) queried_name \<longrightarrow> rr_name r = zone)"
proof -
  let ?names = "map rr_name (filter (\<lambda>r. is_soa (rr_data r) \<and> nc_zone_of nc (rr_name r) queried_name) records)"
  have "btree_set ?names = [zone]" using assms by (auto simp: exact_soa_zone_def split: list.splits)
  then have names: "set ?names = {zone}" using set_btree_set [of ?names] by simp
  then have "zone \<in> set ?names" by simp
  then have "nc_zone_of nc zone queried_name" by auto
  moreover have "rr_name r = zone"
    if "r \<in> set records" "is_soa (rr_data r)" "nc_zone_of nc (rr_name r) queried_name" for r
  proof -
    have "rr_name r \<in> set ?names" using that by simp
    with names show ?thesis by blast
  qed
  ultimately show ?thesis by blast
qed

lemma capped_length: "length (capped v) \<le> MAX_TXT_BYTES"
  using capped_longest_prefix [of v] by (simp add: MAX_TXT_BYTES_def)

lemma convert_record_bounded:
  "convert_record nc d = Some (Rec_Txt v) \<or> convert_record nc d = Some (Rec_Caa f t v) \<Longrightarrow> length v \<le> MAX_TXT_BYTES"
  by (cases d) (auto simp: txt_value_def capped_length)

end
