(* ===== verification/Axfr.thy ===== *)
theory Axfr
  imports Dns_Wire Lifecycle
begin

text \<open>
  The zone-transfer check of \<^verbatim>\<open>crates/surface-core/src/dns.rs\<close>: the endpoints it tries and one attempt, as a state
  machine over the framed messages of the TCP stream. The connection, the encoder and the message decoder of the
  \<^verbatim>\<open>hickory\<close> crates are parameters; what the stream yields at each poll is a function of the poll's number.
\<close>

section \<open>The transfer\<close>

definition MAX_AXFR_IPS_PER_NAMESERVER :: nat where "MAX_AXFR_IPS_PER_NAMESERVER = 2"
definition MAX_AXFR_ENDPOINTS :: nat where "MAX_AXFR_ENDPOINTS = 8"
definition MAX_AXFR_BYTES :: nat where "MAX_AXFR_BYTES = 2 * 1024 * 1024"
definition MAX_AXFR_RECORDS :: nat where "MAX_AXFR_RECORDS = 4096"
definition MAX_AXFR_MESSAGES :: nat where "MAX_AXFR_MESSAGES = 64"

record ('n, 'q) axfr_response =
  \<comment> \<open>\<open>DnsResponse\<close>, as far as it is read\<close>
  xr_id :: u16
  xr_is_query :: bool \<comment> \<open>the opcode is \<open>Query\<close>\<close>
  xr_code :: response_code
  xr_queries :: "'q list"
  xr_answers :: "'n rr list"
  xr_authoritative :: bool
  xr_truncation :: bool

record ('n, 'q) axfr_request =
  \<comment> \<open>what is fixed for an attempt: the zone, the request and the decoder\<close>
  xq_zone :: 'n
  xq_id :: u16
  xq_queries :: "'q list"
  xq_decode :: "bytes \<Rightarrow> ('n, 'q) axfr_response option"

record axfr_transfer =
  xt_attempt :: axfr_attempt
  xt_first_soa_serial :: "32 word option"
  xt_soa_count :: nat
  xt_first_answer_seen :: bool
  xt_closing_soa_seen :: bool
  xt_authoritative :: bool
  xt_truncated :: bool

definition axfr_incomplete :: "string \<Rightarrow> axfr_attempt \<Rightarrow> axfr_attempt" where
  "axfr_incomplete error attempt = attempt\<lparr>att_outcome := Axfr_Incomplete, att_error := Some error\<rparr>"

definition axfr_answer :: "'n \<Rightarrow> axfr_transfer \<Rightarrow> 'n rr \<Rightarrow> axfr_transfer" where
  \<comment> \<open>one answer before the closing SOA\<close>
  "axfr_answer zone st r =
     (let st = (if \<not> xt_first_answer_seen st then
            (case rr_data r of
               RData_Soa serial \<Rightarrow>
                 if rr_name r = zone then st\<lparr>xt_first_answer_seen := True, xt_first_soa_serial := Some serial\<rparr>
                 else st\<lparr>xt_first_answer_seen := True\<rparr>
             | _ \<Rightarrow> st\<lparr>xt_first_answer_seen := True\<rparr>)
            else st)
      in case rr_data r of
           RData_Soa serial \<Rightarrow>
             let st = st\<lparr>xt_soa_count := xt_soa_count st + 1\<rparr>
             in if 2 \<le> xt_soa_count st \<and> rr_name r = zone \<and> xt_first_soa_serial st = Some serial
                then st\<lparr>xt_closing_soa_seen := True\<rparr> else st
         | _ \<Rightarrow> st)"

fun axfr_answers :: "'n \<Rightarrow> axfr_transfer \<Rightarrow> 'n rr list \<Rightarrow> axfr_transfer" where
  \<comment> \<open>the loop over the answers of a message\<close>
  "axfr_answers zone st [] = st"
| "axfr_answers zone st (r # rs) =
     (if xt_closing_soa_seen st then
        st\<lparr>xt_attempt := axfr_incomplete ''AXFR contained a record after the closing SOA'' (xt_attempt st)\<rparr>
      else axfr_answers zone (axfr_answer zone st r) rs)"

datatype axfr_next = Axfr_Stop axfr_attempt | Axfr_More axfr_transfer | Axfr_Drain axfr_attempt

definition axfr_exceeded :: "nat \<Rightarrow> nat \<Rightarrow> nat \<Rightarrow> string option" where
  "axfr_exceeded messages bytes records =
     (if MAX_AXFR_MESSAGES < messages then Some (''AXFR exceeded the '' @ show_nat MAX_AXFR_MESSAGES @ ''-message limit'')
      else if MAX_AXFR_BYTES < bytes then Some (''AXFR exceeded the '' @ show_nat MAX_AXFR_BYTES @ ''-byte limit'')
      else if MAX_AXFR_RECORDS < records then Some (''AXFR exceeded the '' @ show_nat MAX_AXFR_RECORDS @ ''-record limit'')
      else None)"

definition axfr_incomplete_text :: string where
  "axfr_incomplete_text = ''AXFR ended without a complete authoritative SOA-delimited transfer''"

definition axfr_message :: "('n, 'q) axfr_request \<Rightarrow> axfr_transfer \<Rightarrow> bytes \<Rightarrow> axfr_next" where
  \<comment> \<open>one round of the loop once the stream has yielded a message\<close>
  "axfr_message rq st bytes =
     (let attempt = xt_attempt st
      in if xt_closing_soa_seen st then
           Axfr_Stop (axfr_incomplete ''AXFR contained a message after the closing SOA'' attempt)
         else (case xq_decode rq bytes of
             None \<Rightarrow> Axfr_Stop (axfr_incomplete ''AXFR response framing was invalid or incomplete'' attempt)
           | Some response \<Rightarrow>
               if xr_id response \<noteq> xq_id rq then
                 Axfr_Stop (axfr_incomplete ''AXFR response used an unexpected DNS message ID'' attempt)
               else if \<not> xr_is_query response then
                 Axfr_Stop (axfr_incomplete ''AXFR response used an unexpected DNS opcode'' attempt)
               else if xr_queries response \<noteq> xq_queries rq \<and>
                   (att_messages attempt = 0 \<or> xr_code response \<noteq> Rcode_NoError \<or> xr_queries response \<noteq> []) then
                 Axfr_Stop (axfr_incomplete ''AXFR response did not contain an allowed AXFR question section'' attempt)
               else
                 let next_messages = att_messages attempt + 1;
                     next_bytes = att_bytes attempt + length bytes;
                     next_records = att_records attempt + length (xr_answers response)
                 in case axfr_exceeded next_messages next_bytes next_records of
                      Some error \<Rightarrow> Axfr_Stop (attempt\<lparr>att_outcome := Axfr_LimitExceeded, att_error := Some error\<rparr>)
                    | None \<Rightarrow>
                        let attempt = attempt\<lparr>att_messages := next_messages, att_bytes := next_bytes,
                              att_records := next_records\<rparr>;
                            code = show_response_code (xr_code response)
                        in if att_response_code attempt \<noteq> None \<and> att_response_code attempt \<noteq> Some code then
                             Axfr_Stop (axfr_incomplete ''AXFR response code changed during the transfer'' attempt)
                           else
                             let attempt = attempt\<lparr>att_response_code := Some code\<rparr>
                             in case xr_code response of
                                  Rcode_Refused \<Rightarrow> Axfr_Stop (attempt\<lparr>att_outcome := Axfr_Refused\<rparr>)
                                | Rcode_NotAuth \<Rightarrow> Axfr_Stop (attempt\<lparr>att_outcome := Axfr_NotAuthoritative\<rparr>)
                                | Rcode_NoError \<Rightarrow>
                                    let st = axfr_answers (xq_zone rq)
                                          (st\<lparr>xt_attempt := attempt,
                                              xt_authoritative := xt_authoritative st \<and> xr_authoritative response,
                                              xt_truncated := xt_truncated st \<or> xr_truncation response\<rparr>)
                                          (xr_answers response)
                                    in if att_outcome (xt_attempt st) = Axfr_Incomplete then Axfr_Stop (xt_attempt st)
                                       else if xt_closing_soa_seen st \<and> (\<not> xt_authoritative st \<or> xt_truncated st) then
                                         Axfr_Stop (axfr_incomplete axfr_incomplete_text (xt_attempt st))
                                       else if xt_closing_soa_seen st then Axfr_Drain (xt_attempt st)
                                       else Axfr_More st
                                | _ \<Rightarrow> Axfr_Stop (axfr_incomplete
                                    (''authoritative endpoint returned DNS response code '' @ code) attempt)))"

section \<open>The stream\<close>

datatype axfr_event = Stream_Cancelled | Stream_Elapsed | Stream_Closed | Stream_Failed | Stream_Message bytes

definition axfr_cancelled :: "axfr_attempt \<Rightarrow> axfr_attempt" where
  "axfr_cancelled attempt =
     attempt\<lparr>att_outcome := Axfr_Cancelled, att_error := Some ''AXFR endpoint attempt was cancelled''\<rparr>"

fun axfr_drain :: "axfr_event \<Rightarrow> axfr_attempt \<Rightarrow> axfr_attempt" where
  \<comment> \<open>the short wait after the closing SOA\<close>
  "axfr_drain Stream_Cancelled attempt = axfr_cancelled attempt"
| "axfr_drain (Stream_Message _) attempt =
     axfr_incomplete ''AXFR contained a message after the closing SOA'' attempt"
| "axfr_drain Stream_Failed attempt =
     axfr_incomplete ''AXFR response framing was invalid or incomplete'' attempt"
| "axfr_drain Stream_Closed attempt = attempt\<lparr>att_outcome := Axfr_Allowed\<rparr>"
| "axfr_drain Stream_Elapsed attempt = attempt\<lparr>att_outcome := Axfr_Allowed\<rparr>"

lemma axfr_answer_frame [simp]:
  "xt_attempt (axfr_answer zone st r) = xt_attempt st"
  "xt_authoritative (axfr_answer zone st r) = xt_authoritative st"
  "xt_truncated (axfr_answer zone st r) = xt_truncated st"
  by (cases "rr_data r"; simp add: axfr_answer_def Let_def)+

lemma axfr_answers_frame [simp]:
  "att_messages (xt_attempt (axfr_answers zone st rs)) = att_messages (xt_attempt st)"
  "att_bytes (xt_attempt (axfr_answers zone st rs)) = att_bytes (xt_attempt st)"
  "att_records (xt_attempt (axfr_answers zone st rs)) = att_records (xt_attempt st)"
  "xt_authoritative (axfr_answers zone st rs) = xt_authoritative st"
  "xt_truncated (axfr_answers zone st rs) = xt_truncated st"
  "att_server (xt_attempt (axfr_answers zone st rs)) = att_server (xt_attempt st)"
  "att_endpoint (xt_attempt (axfr_answers zone st rs)) = att_endpoint (xt_attempt st)"
  by (induction zone st rs rule: axfr_answers.induct; simp add: axfr_incomplete_def)+

lemma axfr_message_More_messages:
  "axfr_message rq st bytes = Axfr_More st' \<Longrightarrow>
   att_messages (xt_attempt st') = att_messages (xt_attempt st) + 1 \<and> att_messages (xt_attempt st') \<le> MAX_AXFR_MESSAGES"
  by (auto simp: axfr_message_def axfr_exceeded_def Let_def
    split: if_splits option.splits response_code.splits)

function axfr_loop :: "('n, 'q) axfr_request \<Rightarrow> bool \<Rightarrow> (nat \<Rightarrow> axfr_event) \<Rightarrow> nat \<Rightarrow> axfr_transfer \<Rightarrow> axfr_attempt" where
  \<comment> \<open>the loop, from poll \<open>n\<close> on; the flag tells whether the endpoint's deadline comes before the request's timeout\<close>
  "axfr_loop rq deadline_first stream n st =
     (case stream n of
        Stream_Cancelled \<Rightarrow> axfr_cancelled (xt_attempt st)
      | Stream_Elapsed \<Rightarrow>
          (xt_attempt st)\<lparr>att_outcome := Axfr_Timeout,
            att_error := Some (if deadline_first then ''AXFR endpoint deadline expired'' else ''AXFR request timed out'')\<rparr>
      | Stream_Failed \<Rightarrow> axfr_incomplete ''AXFR response framing was invalid or incomplete'' (xt_attempt st)
      | Stream_Closed \<Rightarrow>
          if 0 < att_messages (xt_attempt st) \<and> xt_closing_soa_seen st \<and> xt_authoritative st \<and> \<not> xt_truncated st
          then (xt_attempt st)\<lparr>att_outcome := Axfr_Allowed\<rparr>
          else axfr_incomplete axfr_incomplete_text (xt_attempt st)
      | Stream_Message bytes \<Rightarrow>
          (case axfr_message rq st bytes of
             Axfr_Stop attempt \<Rightarrow> attempt
           | Axfr_Drain attempt \<Rightarrow> axfr_drain (stream (Suc n)) attempt
           | Axfr_More st \<Rightarrow> axfr_loop rq deadline_first stream (Suc n) st))"
  by pat_completeness auto
termination
  by (relation "measure (\<lambda>(_, _, _, _, st). MAX_AXFR_MESSAGES - att_messages (xt_attempt st))")
    (auto dest!: axfr_message_More_messages)

declare axfr_loop.simps [simp del]

datatype axfr_connect = Connect_Cancelled | Connect_Elapsed | Connect_Failed | Connected

record ('n, 'q) axfr_endpoint_world =
  ew_connect :: axfr_connect
  ew_encodes :: bool
  ew_sends :: bool
  ew_request_id :: u16
  ew_queries :: "'n \<Rightarrow> 'q list"
  ew_decode :: "bytes \<Rightarrow> ('n, 'q) axfr_response option"
  ew_deadline_first :: bool
  ew_stream :: "nat \<Rightarrow> axfr_event"

definition check_axfr_endpoint ::
    "('n, 'q) axfr_endpoint_world \<Rightarrow> string \<Rightarrow> socket_addr \<Rightarrow> 'n \<Rightarrow> axfr_attempt" where
  "check_axfr_endpoint w server endpoint zone =
     (let attempt = \<lparr>att_server = server, att_endpoint = endpoint, att_outcome = Axfr_Unreachable,
            att_response_code = None, att_messages = 0, att_records = 0, att_bytes = 0, att_error = None\<rparr>
      in case ew_connect w of
           Connect_Cancelled \<Rightarrow> axfr_cancelled attempt
         | Connect_Failed \<Rightarrow> attempt\<lparr>att_error := Some ''TCP connection to authoritative endpoint failed''\<rparr>
         | Connect_Elapsed \<Rightarrow> attempt\<lparr>att_outcome := Axfr_Timeout,
             att_error := Some ''AXFR endpoint deadline expired during TCP connection''\<rparr>
         | Connected \<Rightarrow>
             if \<not> ew_encodes w then axfr_incomplete ''AXFR request could not be encoded'' attempt
             else if \<not> ew_sends w then attempt\<lparr>att_error := Some ''AXFR request could not be sent''\<rparr>
             else axfr_loop \<lparr>xq_zone = zone, xq_id = ew_request_id w, xq_queries = ew_queries w zone, xq_decode = ew_decode w\<rparr>
               (ew_deadline_first w) (ew_stream w) 0
               \<lparr>xt_attempt = attempt, xt_first_soa_serial = None, xt_soa_count = 0, xt_first_answer_seen = False,
                xt_closing_soa_seen = False, xt_authoritative = True, xt_truncated = False\<rparr>)"

section \<open>The endpoints\<close>

fun insert_endpoints :: "(socket_addr \<times> string) list \<Rightarrow> string \<Rightarrow> ip_addr list \<Rightarrow> (socket_addr \<times> string) list" where
  \<comment> \<open>the loop of \<open>add_axfr_endpoints\<close>\<close>
  "insert_endpoints endpoints nameserver [] = endpoints"
| "insert_endpoints endpoints nameserver (ip # ips) =
     (if MAX_AXFR_ENDPOINTS \<le> length endpoints then endpoints
      else insert_endpoints
        (if map_of endpoints (SocketAddr ip 53) = None then btm_insert (SocketAddr ip 53) nameserver endpoints
         else endpoints) nameserver ips)"

definition add_axfr_endpoints :: "(socket_addr \<times> string) list \<Rightarrow> string \<Rightarrow> ip_addr list \<Rightarrow> (socket_addr \<times> string) list" where
  "add_axfr_endpoints endpoints nameserver addresses =
     insert_endpoints endpoints nameserver (take MAX_AXFR_IPS_PER_NAMESERVER (btree_set addresses))"

datatype ns_lookup = Ns_Cancelled | Ns_Unanswered bool | Ns_Addresses "ip_addr list"
  \<comment> \<open>unanswered: a failure or a timeout, and whether the deadline has passed by then\<close>

record ('n, 'q) axfr_world =
  xw_start :: interruption
  xw_resolver :: bool
  xw_lookup :: "nat \<Rightarrow> string \<Rightarrow> ns_lookup"
  xw_endpoint :: "nat \<Rightarrow> socket_addr \<Rightarrow> ('n, 'q) axfr_endpoint_world"
  xw_expired :: "nat \<Rightarrow> bool" \<comment> \<open>after attempt n\<close>

fun collect_endpoints ::
    "(nat \<Rightarrow> string \<Rightarrow> ns_lookup) \<Rightarrow> nat \<Rightarrow> (socket_addr \<times> string) list \<Rightarrow> string list \<Rightarrow>
     axfr_check_state + (socket_addr \<times> string) list" where
  \<comment> \<open>the loop over the nameservers; \<open>Inl\<close> is an early return\<close>
  "collect_endpoints lookup n endpoints [] = Inr endpoints"
| "collect_endpoints lookup n endpoints (nameserver # nameservers) =
     (case lookup n nameserver of
        Ns_Cancelled \<Rightarrow> Inl AxfrCheck_Cancelled
      | Ns_Unanswered expired \<Rightarrow>
          if expired then Inl AxfrCheck_TimedOut
          else collect_endpoints lookup (Suc n) endpoints nameservers
      | Ns_Addresses addresses \<Rightarrow>
          collect_endpoints lookup (Suc n) (add_axfr_endpoints endpoints nameserver addresses) nameservers)"

fun attempt_endpoints ::
    "('n, 'q) axfr_world \<Rightarrow> 'n \<Rightarrow> nat \<Rightarrow> (socket_addr \<times> string) list \<Rightarrow> axfr_attempt list \<Rightarrow>
     axfr_attempt list \<times> axfr_check_state" where
  \<comment> \<open>the loop over the endpoints, with the attempts so far\<close>
  "attempt_endpoints w zone n [] made = (made, AxfrCheck_Completed)"
| "attempt_endpoints w zone n ((endpoint, server) # endpoints) made =
     (let attempt = check_axfr_endpoint (xw_endpoint w n endpoint) server endpoint zone;
          made = push made attempt
      in if att_outcome attempt = Axfr_Cancelled then (made, AxfrCheck_Cancelled)
         else if xw_expired w n then (made, AxfrCheck_TimedOut)
         else attempt_endpoints w zone (Suc n) endpoints made)"

definition unresolved_nameservers :: string where
  "unresolved_nameservers = ''authoritative NS endpoints could not be resolved from observed NS hostnames''"

definition analyze_authoritative_axfr ::
    "'n name_crate \<Rightarrow> ('n, 'q) axfr_world \<Rightarrow> 'n \<times> string list \<Rightarrow> axfr_check" where
  "analyze_authoritative_axfr nc w evidence =
     (case evidence of (zone, nameservers) \<Rightarrow>
        if int_cancelled (xw_start w) then \<lparr>axc_observation = None, axc_state = AxfrCheck_Cancelled\<rparr>
        else if int_expired (xw_start w) then \<lparr>axc_observation = None, axc_state = AxfrCheck_TimedOut\<rparr>
        else
          let nameservers = take MAX_AXFR_NAMESERVERS nameservers
          in if \<not> xw_resolver w then
               \<lparr>axc_observation = None, axc_state = AxfrCheck_Skipped unresolved_nameservers\<rparr>
             else (case collect_endpoints (xw_lookup w) 0 [] nameservers of
                 Inl state \<Rightarrow> \<lparr>axc_observation = None, axc_state = state\<rparr>
               | Inr endpoints \<Rightarrow>
                   if endpoints = [] then
                     \<lparr>axc_observation = None, axc_state = AxfrCheck_Skipped unresolved_nameservers\<rparr>
                   else (case attempt_endpoints w zone 0 (take MAX_AXFR_ENDPOINTS endpoints) [] of
                       (made, state) \<Rightarrow>
                         \<lparr>axc_observation = Some \<lparr>axfr_zone = name_text nc zone, axfr_nameservers = nameservers,
                            axfr_attempts = made, axfr_limits = axfr_limits_default,
                            axfr_transferred_records_retained = False, axfr_transferred_owner_names_retained = False,
                            axfr_transferred_owner_names_scanned = False\<rparr>,
                          axc_state = state\<rparr>)))"

section \<open>An allowed transfer is a complete one\<close>

definition opening_serial :: "'n \<Rightarrow> 'n rr list \<Rightarrow> 32 word option" where
  \<comment> \<open>the serial of the SOA the answers open with\<close>
  "opening_serial zone answers =
     (case answers of
        [] \<Rightarrow> None
      | r # _ \<Rightarrow> (case rr_data r of RData_Soa serial \<Rightarrow> if rr_name r = zone then Some serial else None | _ \<Rightarrow> None))"

definition closes :: "'n \<Rightarrow> 'n rr list \<Rightarrow> 'n rr \<Rightarrow> bool" where
  "closes zone answers r \<longleftrightarrow>
     (\<exists>serial. opening_serial zone answers = Some serial \<and> rr_name r = zone \<and> rr_data r = RData_Soa serial)"

definition soa_delimited :: "'n \<Rightarrow> 'n rr list \<Rightarrow> bool" where
  \<comment> \<open>the answers open with the zone's SOA, end with the same one, and it does not occur in between\<close>
  "soa_delimited zone answers \<longleftrightarrow>
     (\<exists>body r. answers = body @ [r] \<and> body \<noteq> [] \<and> closes zone body r \<and> (\<forall>r' \<in> set (tl body). \<not> closes zone body r'))"

definition reads :: "'n \<Rightarrow> 'n rr list \<Rightarrow> axfr_transfer \<Rightarrow> bool" where
  \<comment> \<open>the state after these answers\<close>
  "reads zone answers st \<longleftrightarrow>
     (xt_first_answer_seen st \<longleftrightarrow> answers \<noteq> []) \<and> xt_first_soa_serial st = opening_serial zone answers \<and>
     xt_soa_count st = length (filter (\<lambda>r. is_soa (rr_data r)) answers) \<and>
     (if xt_closing_soa_seen st then soa_delimited zone answers
      else \<forall>r \<in> set (tl answers). \<not> closes zone answers r)"

lemma is_soa_iff: "is_soa d \<longleftrightarrow> (\<exists>serial. d = RData_Soa serial)"
  by (cases d) simp_all

lemma opening_serial_append [simp]: "answers \<noteq> [] \<Longrightarrow> opening_serial zone (answers @ rs) = opening_serial zone answers"
  by (cases answers) (simp_all add: opening_serial_def)

lemma closes_append [simp]: "answers \<noteq> [] \<Longrightarrow> closes zone (answers @ rs) = closes zone answers"
  by (simp add: closes_def fun_eq_iff)

lemma opening_soa: "opening_serial zone answers = Some serial \<Longrightarrow> 1 \<le> length (filter (\<lambda>r. is_soa (rr_data r)) answers)"
  by (cases answers) (auto simp: opening_serial_def split: rdata.splits if_splits)

lemma axfr_answer_first:
  assumes "\<not> xt_first_answer_seen st" and "xt_soa_count st = 0" and "xt_first_soa_serial st = None"
  shows "xt_first_answer_seen (axfr_answer zone st r) \<and>
    xt_first_soa_serial (axfr_answer zone st r) = opening_serial zone [r] \<and>
    xt_soa_count (axfr_answer zone st r) = (if is_soa (rr_data r) then 1 else 0) \<and>
    xt_closing_soa_seen (axfr_answer zone st r) = xt_closing_soa_seen st"
  using assms by (cases "rr_data r") (simp_all add: axfr_answer_def Let_def opening_serial_def)

lemma axfr_answer_later:
  assumes "xt_first_answer_seen st" and "\<not> xt_closing_soa_seen st"
  shows "xt_first_answer_seen (axfr_answer zone st r) \<and>
    xt_first_soa_serial (axfr_answer zone st r) = xt_first_soa_serial st \<and>
    xt_soa_count (axfr_answer zone st r) = xt_soa_count st + (if is_soa (rr_data r) then 1 else 0) \<and>
    (xt_closing_soa_seen (axfr_answer zone st r) \<longleftrightarrow>
      1 \<le> xt_soa_count st \<and> (\<exists>serial. xt_first_soa_serial st = Some serial \<and> rr_name r = zone \<and> rr_data r = RData_Soa serial))"
  using assms by (cases "rr_data r") (auto simp: axfr_answer_def Let_def)

lemma reads_answer:
  assumes "reads zone answers st" and "\<not> xt_closing_soa_seen st"
  shows "reads zone (answers @ [r]) (axfr_answer zone st r)"
    and "answers = [] \<Longrightarrow> \<not> xt_closing_soa_seen (axfr_answer zone st r)"
    and "answers \<noteq> [] \<Longrightarrow> xt_closing_soa_seen (axfr_answer zone st r) \<longleftrightarrow> closes zone answers r"
proof -
  have count: "xt_soa_count st = length (filter (\<lambda>r. is_soa (rr_data r)) answers)"
    and serial: "xt_first_soa_serial st = opening_serial zone answers"
    and seen: "xt_first_answer_seen st \<longleftrightarrow> answers \<noteq> []"
    and before: "\<forall>r \<in> set (tl answers). \<not> closes zone answers r"
    using assms by (simp_all add: reads_def)
  show first: "\<not> xt_closing_soa_seen (axfr_answer zone st r)" if "answers = []"
    using axfr_answer_first [of st zone r] assms(2) that count serial seen by (simp add: opening_serial_def)
  show later: "xt_closing_soa_seen (axfr_answer zone st r) \<longleftrightarrow> closes zone answers r" if "answers \<noteq> []"
    using axfr_answer_later [of st zone r] assms(2) that count serial seen opening_soa [of zone answers]
    by (auto simp: closes_def)
  show "reads zone (answers @ [r]) (axfr_answer zone st r)"
  proof (cases "answers = []")
    case True
    with axfr_answer_first [of st zone r] count serial seen first [OF True] show ?thesis
      by (simp add: reads_def opening_serial_def [of zone "[]"])
  next
    case False
    with axfr_answer_later [of st zone r] assms(2) count serial seen have
      "xt_first_answer_seen (axfr_answer zone st r)"
      "xt_first_soa_serial (axfr_answer zone st r) = opening_serial zone (answers @ [r])"
      "xt_soa_count (axfr_answer zone st r) = length (filter (\<lambda>r. is_soa (rr_data r)) (answers @ [r]))"
      by simp_all
    moreover have "soa_delimited zone (answers @ [r])" if "closes zone answers r"
      using that False before unfolding soa_delimited_def by blast
    moreover have "\<forall>r' \<in> set (tl (answers @ [r])). \<not> closes zone (answers @ [r]) r'" if "\<not> closes zone answers r"
      using that False before by auto
    ultimately show ?thesis using later [OF False] by (simp add: reads_def)
  qed
qed

lemma reads_answers:
  assumes "reads zone answers st" and "\<not> xt_closing_soa_seen st \<or> rs = []"
    and "att_outcome (xt_attempt st) \<noteq> Axfr_Incomplete"
    and "att_outcome (xt_attempt (axfr_answers zone st rs)) \<noteq> Axfr_Incomplete"
  shows "reads zone (answers @ rs) (axfr_answers zone st rs) \<and> xt_attempt (axfr_answers zone st rs) = xt_attempt st"
  using assms
proof (induction rs arbitrary: answers st)
  case (Cons r rs)
  let ?s = "axfr_answer zone st r"
  have "\<not> xt_closing_soa_seen st" using Cons.prems(2) by simp
  note step = reads_answer [OF Cons.prems(1) this, of r]
  have "att_outcome (xt_attempt (axfr_answers zone ?s rs)) \<noteq> Axfr_Incomplete"
    using Cons.prems(4) \<open>\<not> xt_closing_soa_seen st\<close> by simp
  moreover from this have "\<not> xt_closing_soa_seen ?s \<or> rs = []"
    by (cases rs) (auto simp: axfr_incomplete_def)
  ultimately show ?case
    using Cons.IH [OF step(1)] Cons.prems(3) \<open>\<not> xt_closing_soa_seen st\<close> by simp
qed simp

definition response_accepted :: "('n, 'q) axfr_request \<Rightarrow> bool \<Rightarrow> ('n, 'q) axfr_response \<Rightarrow> bool" where
  \<comment> \<open>a successful answer to the request; only a later message may omit the question\<close>
  "response_accepted rq later r \<longleftrightarrow>
     xr_id r = xq_id rq \<and> xr_is_query r \<and> xr_code r = Rcode_NoError \<and>
     (xr_queries r = xq_queries rq \<or> later \<and> xr_queries r = [])"

definition answers_of :: "('n, 'q) axfr_response list \<Rightarrow> 'n rr list" where
  "answers_of rs = concat (map xr_answers rs)"

definition accepted_messages :: "('n, 'q) axfr_request \<Rightarrow> bytes list \<Rightarrow> ('n, 'q) axfr_response list \<Rightarrow> bool" where
  \<comment> \<open>the messages decode to these responses, all acceptable and within the limits\<close>
  "accepted_messages rq ms rs \<longleftrightarrow>
     map (xq_decode rq) ms = map Some rs \<and> (\<forall>i < length rs. response_accepted rq (0 < i) (rs ! i)) \<and>
     length ms \<le> MAX_AXFR_MESSAGES \<and> sum_list (map length ms) \<le> MAX_AXFR_BYTES \<and>
     length (answers_of rs) \<le> MAX_AXFR_RECORDS"

definition counted :: "bytes list \<Rightarrow> ('n, 'q) axfr_response list \<Rightarrow> axfr_attempt \<Rightarrow> bool" where
  "counted ms rs attempt \<longleftrightarrow>
     att_messages attempt = length ms \<and> att_bytes attempt = sum_list (map length ms) \<and>
     att_records attempt = length (answers_of rs) \<and>
     att_response_code attempt = (if ms = [] then None else Some (show_response_code Rcode_NoError))"

definition transferring :: "('n, 'q) axfr_request \<Rightarrow> bytes list \<Rightarrow> ('n, 'q) axfr_response list \<Rightarrow> axfr_transfer \<Rightarrow> bool" where
  \<comment> \<open>the state of the loop after these messages\<close>
  "transferring rq ms rs st \<longleftrightarrow>
     accepted_messages rq ms rs \<and> counted ms rs (xt_attempt st) \<and> att_outcome (xt_attempt st) = Axfr_Unreachable \<and>
     \<not> xt_closing_soa_seen st \<and> reads (xq_zone rq) (answers_of rs) st \<and>
     (xt_authoritative st \<longleftrightarrow> (\<forall>r \<in> set rs. xr_authoritative r)) \<and>
     (xt_truncated st \<longleftrightarrow> (\<exists>r \<in> set rs. xr_truncation r))"

definition complete_transfer :: "('n, 'q) axfr_request \<Rightarrow> bytes list \<Rightarrow> ('n, 'q) axfr_response list \<Rightarrow> bool" where
  "complete_transfer rq ms rs \<longleftrightarrow>
     accepted_messages rq ms rs \<and> soa_delimited (xq_zone rq) (answers_of rs) \<and>
     (\<forall>r \<in> set rs. xr_authoritative r \<and> \<not> xr_truncation r) \<and> xr_answers (last rs) \<noteq> []"

lemma answers_of_snoc [simp]: "answers_of (rs @ [r]) = answers_of rs @ xr_answers r"
  by (simp add: answers_of_def)

lemma accepted_snoc:
  assumes "accepted_messages rq ms rs" and "xq_decode rq m = Some r" and "response_accepted rq (ms \<noteq> []) r"
    and "axfr_exceeded (length ms + 1) (sum_list (map length ms) + length m)
      (length (answers_of rs) + length (xr_answers r)) = None"
  shows "accepted_messages rq (ms @ [m]) (rs @ [r])"
proof -
  have "length ms = length rs" using assms(1) by (auto simp: accepted_messages_def dest: map_eq_imp_length_eq)
  then have "ms \<noteq> [] \<longleftrightarrow> 0 < length rs" by (cases ms; cases rs) simp_all
  then have "response_accepted rq (0 < length rs) r" using assms(3) by (simp only:)
  with assms \<open>length ms = length rs\<close> show ?thesis
    by (auto simp: accepted_messages_def nth_append axfr_exceeded_def less_Suc_eq split: if_splits)
qed

definition next_transfer ::
    "('n, 'q) axfr_request \<Rightarrow> bytes list \<Rightarrow> ('n, 'q) axfr_response list \<Rightarrow> axfr_transfer \<Rightarrow> bytes \<Rightarrow>
     ('n, 'q) axfr_response \<Rightarrow> axfr_transfer" where
  \<comment> \<open>the state once the answers of an acceptable message have been read\<close>
  "next_transfer rq ms rs st m r =
     axfr_answers (xq_zone rq)
       (st\<lparr>xt_attempt := (xt_attempt st)\<lparr>att_messages := length ms + 1, att_bytes := sum_list (map length ms) + length m,
             att_records := length (answers_of rs) + length (xr_answers r),
             att_response_code := Some (show_response_code Rcode_NoError)\<rparr>,
           xt_authoritative := xt_authoritative st \<and> xr_authoritative r,
           xt_truncated := xt_truncated st \<or> xr_truncation r\<rparr>) (xr_answers r)"

definition within_limits :: "bytes list \<Rightarrow> ('n, 'q) axfr_response list \<Rightarrow> bytes \<Rightarrow> ('n, 'q) axfr_response \<Rightarrow> bool" where
  "within_limits ms rs m r \<longleftrightarrow>
     axfr_exceeded (length ms + 1) (sum_list (map length ms) + length m) (length (answers_of rs) + length (xr_answers r)) = None"

lemma axfr_message_eq:
  assumes "transferring rq ms rs st" and "xq_decode rq m = Some r" and "response_accepted rq (ms \<noteq> []) r"
    and "within_limits ms rs m r"
  defines "s \<equiv> next_transfer rq ms rs st m r"
  shows "axfr_message rq st m =
      (if att_outcome (xt_attempt s) = Axfr_Incomplete then Axfr_Stop (xt_attempt s)
       else if xt_closing_soa_seen s \<and> (\<not> xt_authoritative s \<or> xt_truncated s)
       then Axfr_Stop (axfr_incomplete axfr_incomplete_text (xt_attempt s))
       else if xt_closing_soa_seen s then Axfr_Drain (xt_attempt s) else Axfr_More s)"
proof -
  have counts: "att_messages (xt_attempt st) = length ms" "att_bytes (xt_attempt st) = sum_list (map length ms)"
    "att_records (xt_attempt st) = length (answers_of rs)" and closing: "\<not> xt_closing_soa_seen st"
    and unchanged: "att_response_code (xt_attempt st) = None \<or>
      att_response_code (xt_attempt st) = Some (show_response_code Rcode_NoError)"
    using assms(1) by (auto simp: transferring_def counted_def)
  show ?thesis
    using assms(2-4) unchanged
    by (auto simp: axfr_message_def Let_def closing counts s_def next_transfer_def within_limits_def response_accepted_def)
qed

lemma axfr_message_continues:
  \<comment> \<open>a message that does not end the attempt is acceptable and within the limits\<close>
  assumes "transferring rq ms rs st"
    and "axfr_message rq st m = Axfr_More st' \<or> axfr_message rq st m = Axfr_Drain att"
  obtains r where "xq_decode rq m = Some r" and "response_accepted rq (ms \<noteq> []) r" and "within_limits ms rs m r"
proof -
  have counts: "att_messages (xt_attempt st) = length ms" "att_bytes (xt_attempt st) = sum_list (map length ms)"
    "att_records (xt_attempt st) = length (answers_of rs)" and closing: "\<not> xt_closing_soa_seen st"
    using assms(1) by (simp_all add: transferring_def counted_def)
  from assms(2) closing obtain r where r: "xq_decode rq m = Some r"
    by (cases "xq_decode rq m") (auto simp: axfr_message_def Let_def)
  note unfold = axfr_message_def Let_def closing counts r
  from assms(2) have header: "xr_id r = xq_id rq" "xr_is_query r"
    "xr_queries r = xq_queries rq \<or> ms \<noteq> [] \<and> xr_code r = Rcode_NoError \<and> xr_queries r = []"
    by (auto simp: unfold split: if_splits)
  with assms(2) have limits: "within_limits ms rs m r"
    by (auto simp: unfold within_limits_def split: if_splits option.splits)
  with assms(2) header have "xr_code r = Rcode_NoError"
    by (auto simp: unfold within_limits_def split: if_splits response_code.splits)
  with header have "response_accepted rq (ms \<noteq> []) r" by (auto simp: response_accepted_def)
  from that [OF r this limits] show thesis .
qed

lemma next_transfer_flags [simp]:
  "xt_authoritative (next_transfer rq ms rs st m r) \<longleftrightarrow> xt_authoritative st \<and> xr_authoritative r"
  "xt_truncated (next_transfer rq ms rs st m r) \<longleftrightarrow> xt_truncated st \<or> xr_truncation r"
  by (simp_all add: next_transfer_def)

lemma next_transfer_reads:
  assumes "transferring rq ms rs st" and "att_outcome (xt_attempt (next_transfer rq ms rs st m r)) \<noteq> Axfr_Incomplete"
  shows "reads (xq_zone rq) (answers_of (rs @ [r])) (next_transfer rq ms rs st m r)"
    and "counted (ms @ [m]) (rs @ [r]) (xt_attempt (next_transfer rq ms rs st m r))"
    and "att_outcome (xt_attempt (next_transfer rq ms rs st m r)) = Axfr_Unreachable"
proof -
  let ?st = "st\<lparr>xt_attempt := (xt_attempt st)\<lparr>att_messages := length ms + 1, att_bytes := sum_list (map length ms) + length m,
        att_records := length (answers_of rs) + length (xr_answers r),
        att_response_code := Some (show_response_code Rcode_NoError)\<rparr>,
      xt_authoritative := xt_authoritative st \<and> xr_authoritative r,
      xt_truncated := xt_truncated st \<or> xr_truncation r\<rparr>"
  have "reads (xq_zone rq) (answers_of rs) ?st" using assms(1) by (simp add: transferring_def reads_def)
  from reads_answers [OF this, of "xr_answers r"] assms have
    "reads (xq_zone rq) (answers_of (rs @ [r])) (next_transfer rq ms rs st m r)"
    "xt_attempt (next_transfer rq ms rs st m r) = xt_attempt ?st"
    by (simp_all add: transferring_def next_transfer_def)
  with assms(1) show "reads (xq_zone rq) (answers_of (rs @ [r])) (next_transfer rq ms rs st m r)"
    "counted (ms @ [m]) (rs @ [r]) (xt_attempt (next_transfer rq ms rs st m r))"
    "att_outcome (xt_attempt (next_transfer rq ms rs st m r)) = Axfr_Unreachable"
    by (auto simp: transferring_def counted_def)
qed

lemma transferring_next:
  assumes "transferring rq ms rs st" and "xq_decode rq m = Some r" and "response_accepted rq (ms \<noteq> []) r"
    and "within_limits ms rs m r" and "att_outcome (xt_attempt (next_transfer rq ms rs st m r)) \<noteq> Axfr_Incomplete"
  shows "\<not> xt_closing_soa_seen (next_transfer rq ms rs st m r) \<Longrightarrow>
      transferring rq (ms @ [m]) (rs @ [r]) (next_transfer rq ms rs st m r)"
    and "xt_closing_soa_seen (next_transfer rq ms rs st m r) \<Longrightarrow> xt_authoritative st \<and> xr_authoritative r \<Longrightarrow>
      \<not> (xt_truncated st \<or> xr_truncation r) \<Longrightarrow> complete_transfer rq (ms @ [m]) (rs @ [r])"
proof -
  note reads = next_transfer_reads [OF assms(1,5)]
  have accepted: "accepted_messages rq (ms @ [m]) (rs @ [r])"
    using assms by (intro accepted_snoc) (auto simp: transferring_def within_limits_def)
  show "transferring rq (ms @ [m]) (rs @ [r]) (next_transfer rq ms rs st m r)"
    if "\<not> xt_closing_soa_seen (next_transfer rq ms rs st m r)"
    using assms(1) accepted reads that by (auto simp: transferring_def)
  show "complete_transfer rq (ms @ [m]) (rs @ [r])"
    if "xt_closing_soa_seen (next_transfer rq ms rs st m r)" "xt_authoritative st \<and> xr_authoritative r"
      "\<not> (xt_truncated st \<or> xr_truncation r)"
  proof -
    have "xr_answers r \<noteq> []" using assms(1) that(1) by (auto simp: next_transfer_def transferring_def)
    then show ?thesis
      using assms(1) accepted reads(1) that by (auto simp: complete_transfer_def transferring_def reads_def)
  qed
qed

lemma transferring_step:
  assumes "transferring rq ms rs st" and "axfr_message rq st m = Axfr_More st'"
  shows "\<exists>r. transferring rq (ms @ [m]) (rs @ [r]) st'"
proof -
  obtain r where r: "xq_decode rq m = Some r" "response_accepted rq (ms \<noteq> []) r" "within_limits ms rs m r"
    using axfr_message_continues [OF assms(1) disjI1 [OF assms(2)]] by metis
  from transferring_next(1) [OF assms(1) r] axfr_message_eq [OF assms(1) r] assms(2) show ?thesis
    by (auto split: if_splits)
qed

lemma transferring_drain:
  assumes "transferring rq ms rs st" and "axfr_message rq st m = Axfr_Drain att"
  shows "\<exists>r. complete_transfer rq (ms @ [m]) (rs @ [r]) \<and> counted (ms @ [m]) (rs @ [r]) att"
proof -
  obtain r where r: "xq_decode rq m = Some r" "response_accepted rq (ms \<noteq> []) r" "within_limits ms rs m r"
    using axfr_message_continues [OF assms(1) disjI2 [OF assms(2)]] by metis
  from transferring_next(2) [OF assms(1) r] next_transfer_reads(2) [OF assms(1)] axfr_message_eq [OF assms(1) r] assms(2)
  show ?thesis by (auto split: if_splits)
qed

lemma axfr_message_Stop:
  "axfr_message rq st m = Axfr_Stop attempt \<Longrightarrow>
   att_outcome attempt \<in> {Axfr_Incomplete, Axfr_LimitExceeded, Axfr_Refused, Axfr_NotAuthoritative}"
  by (auto simp: axfr_message_def axfr_incomplete_def Let_def
    split: if_splits option.splits response_code.splits)

lemma axfr_loop_allowed:
  assumes "transferring rq ms rs st" and "att_outcome (axfr_loop rq first stream n st) = Axfr_Allowed"
  shows "\<exists>ms' rs'. (\<forall>i < length ms'. stream (n + i) = Stream_Message (ms' ! i)) \<and>
    stream (n + length ms') \<in> {Stream_Closed, Stream_Elapsed} \<and> complete_transfer rq (ms @ ms') rs' \<and>
    counted (ms @ ms') rs' (axfr_loop rq first stream n st)"
  using assms
proof (induction rq first stream n st arbitrary: ms rs rule: axfr_loop.induct)
  case (1 rq first stream n st)
  note loop = axfr_loop.simps [of rq first stream n st]
  have unclosed: "\<not> xt_closing_soa_seen st" using 1(2) by (simp add: transferring_def)
  with 1(3) obtain m where m: "stream n = Stream_Message m"
    by (cases "stream n") (simp_all add: loop axfr_cancelled_def axfr_incomplete_def)
  show ?case
  proof (cases "axfr_message rq st m")
    case (Axfr_Stop attempt)
    then have "att_outcome attempt \<noteq> Axfr_Allowed" by (auto dest: axfr_message_Stop)
    with Axfr_Stop m 1(3) show ?thesis by (simp add: loop)
  next
    case (Axfr_More st')
    from transferring_step [OF 1(2) this] obtain r where r: "transferring rq (ms @ [m]) (rs @ [r]) st'" by blast
    have result: "axfr_loop rq first stream n st = axfr_loop rq first stream (Suc n) st'"
      using m Axfr_More by (simp add: loop)
    from 1(1) [OF m Axfr_More r] 1(3) result obtain ms' rs' where
      ms': "\<forall>i < length ms'. stream (Suc n + i) = Stream_Message (ms' ! i)"
      "stream (Suc n + length ms') \<in> {Stream_Closed, Stream_Elapsed}"
      "complete_transfer rq (ms @ m # ms') rs'" "counted (ms @ m # ms') rs' (axfr_loop rq first stream n st)"
      by auto
    moreover have "\<forall>i < length (m # ms'). stream (n + i) = Stream_Message ((m # ms') ! i)"
      using m ms'(1) by (auto simp: less_Suc_eq_0_disj)
    ultimately show ?thesis by (intro exI [of _ "m # ms'"] exI [of _ rs']) simp
  next
    case (Axfr_Drain attempt)
    from transferring_drain [OF 1(2) this] obtain r where
      r: "complete_transfer rq (ms @ [m]) (rs @ [r])" "counted (ms @ [m]) (rs @ [r]) attempt" by blast
    have result: "axfr_loop rq first stream n st = axfr_drain (stream (Suc n)) attempt"
      using m Axfr_Drain by (simp add: loop)
    then have "stream (Suc n) \<in> {Stream_Closed, Stream_Elapsed}"
      "axfr_loop rq first stream n st = attempt\<lparr>att_outcome := Axfr_Allowed\<rparr>"
      using 1(3) by (cases "stream (Suc n)"; simp add: axfr_cancelled_def axfr_incomplete_def)+
    then show ?thesis
      using m r by (intro exI [of _ "[m]"] exI [of _ "rs @ [r]"]) (simp add: counted_def)
  qed
qed

section \<open>A complete transfer is allowed\<close>

lemma closing_stays: "xt_closing_soa_seen st \<Longrightarrow> xt_closing_soa_seen (axfr_answers zone st rs)"
  by (cases rs) simp_all

lemma axfr_answers_append:
  "\<not> xt_closing_soa_seen (axfr_answers zone st xs) \<Longrightarrow>
   axfr_answers zone st (xs @ ys) = axfr_answers zone (axfr_answers zone st xs) ys"
proof (induction xs arbitrary: st)
  case (Cons x xs)
  then have "\<not> xt_closing_soa_seen st" using closing_stays by metis
  with Cons show ?case by simp
qed simp

lemma axfr_answers_open:
  assumes "reads zone answers st" and "\<not> xt_closing_soa_seen st"
    and "\<forall>r \<in> set (tl (answers @ rs)). \<not> closes zone (answers @ rs) r"
  shows "reads zone (answers @ rs) (axfr_answers zone st rs) \<and> \<not> xt_closing_soa_seen (axfr_answers zone st rs) \<and>
    xt_attempt (axfr_answers zone st rs) = xt_attempt st"
  using assms
proof (induction rs arbitrary: answers st)
  case (Cons r rs)
  let ?s = "axfr_answer zone st r"
  note step = reads_answer [OF Cons.prems(1,2), of r]
  have "\<not> xt_closing_soa_seen ?s"
  proof (cases "answers = []")
    case False
    then have "\<not> closes zone answers r" using Cons.prems(3) by simp
    with step(3) False show ?thesis by simp
  qed (rule step(2))
  then show ?case using Cons.IH [OF step(1)] Cons.prems(2,3) by simp
qed simp

lemma axfr_answers_close:
  assumes "reads zone answers st" and "\<not> xt_closing_soa_seen st"
    and "soa_delimited zone (answers @ rs)" and "rs \<noteq> []"
  shows "xt_closing_soa_seen (axfr_answers zone st rs) \<and> xt_attempt (axfr_answers zone st rs) = xt_attempt st"
proof -
  obtain xs r where rs: "rs = xs @ [r]" using assms(4) by (metis rev_exhaust)
  have body: "answers @ xs \<noteq> []" "closes zone (answers @ xs) r" "\<forall>r' \<in> set (tl (answers @ xs)). \<not> closes zone (answers @ xs) r'"
    using assms(3) by (auto simp: soa_delimited_def rs)
  note before = axfr_answers_open [OF assms(1,2) body(3)]
  from reads_answer(3) [of zone "answers @ xs" "axfr_answers zone st xs" r] before body
  have "xt_closing_soa_seen (axfr_answer zone (axfr_answers zone st xs) r)" by blast
  with before show ?thesis by (simp add: rs axfr_answers_append)
qed

lemma next_transfer_open:
  assumes "transferring rq ms rs st"
    and "\<forall>a \<in> set (tl (answers_of (rs @ [r]))). \<not> closes (xq_zone rq) (answers_of (rs @ [r])) a"
  shows "\<not> xt_closing_soa_seen (next_transfer rq ms rs st m r) \<and>
    att_outcome (xt_attempt (next_transfer rq ms rs st m r)) = Axfr_Unreachable"
proof -
  have "reads (xq_zone rq) (answers_of rs) (st\<lparr>xt_attempt := a, xt_authoritative := b, xt_truncated := c\<rparr>)" for a b c
    using assms(1) by (simp add: transferring_def reads_def)
  from axfr_answers_open [OF this, where rs = "xr_answers r"] assms show ?thesis
    by (simp add: next_transfer_def transferring_def)
qed

lemma next_transfer_close:
  assumes "transferring rq ms rs st" and "soa_delimited (xq_zone rq) (answers_of (rs @ [r]))" and "xr_answers r \<noteq> []"
  shows "xt_closing_soa_seen (next_transfer rq ms rs st m r) \<and>
    att_outcome (xt_attempt (next_transfer rq ms rs st m r)) = Axfr_Unreachable"
proof -
  have "reads (xq_zone rq) (answers_of rs) (st\<lparr>xt_attempt := a, xt_authoritative := b, xt_truncated := c\<rparr>)" for a b c
    using assms(1) by (simp add: transferring_def reads_def)
  from axfr_answers_close [OF this, where rs = "xr_answers r"] assms show ?thesis
    by (simp add: next_transfer_def transferring_def)
qed

lemma complete_transfer_next:
  assumes "complete_transfer rq (ms @ m # ms') (rs @ r # rs')" and "length ms = length rs"
  shows "xq_decode rq m = Some r" and "response_accepted rq (ms \<noteq> []) r" and "within_limits ms rs m r"
    and "xr_authoritative r" and "\<not> xr_truncation r"
    and "ms' \<noteq> [] \<Longrightarrow> \<forall>a \<in> set (tl (answers_of (rs @ [r]))). \<not> closes (xq_zone rq) (answers_of (rs @ [r])) a"
proof -
  have decode: "map (xq_decode rq) (ms @ m # ms') = map Some (rs @ r # rs')"
    and accepted: "\<forall>i < length (rs @ r # rs'). response_accepted rq (0 < i) ((rs @ r # rs') ! i)"
    and limits: "length (ms @ m # ms') \<le> MAX_AXFR_MESSAGES" "sum_list (map length (ms @ m # ms')) \<le> MAX_AXFR_BYTES"
      "length (answers_of (rs @ r # rs')) \<le> MAX_AXFR_RECORDS"
    and delimited: "soa_delimited (xq_zone rq) (answers_of (rs @ r # rs'))" and last: "xr_answers (last (rs @ r # rs')) \<noteq> []"
    using assms(1) by (simp_all add: complete_transfer_def accepted_messages_def)
  show "xq_decode rq m = Some r" using decode assms(2) by (simp add: append_eq_append_conv)
  have "ms \<noteq> [] \<longleftrightarrow> 0 < length rs" using assms(2) by (cases ms; cases rs) simp_all
  moreover have "response_accepted rq (0 < length rs) r" using accepted [rule_format, of "length rs"] by simp
  ultimately show "response_accepted rq (ms \<noteq> []) r" by (simp only:)
  show "within_limits ms rs m r" using limits by (simp add: within_limits_def axfr_exceeded_def answers_of_def)
  show "xr_authoritative r" "\<not> xr_truncation r" using assms(1) by (auto simp: complete_transfer_def)
  show "\<forall>a \<in> set (tl (answers_of (rs @ [r]))). \<not> closes (xq_zone rq) (answers_of (rs @ [r])) a" if "ms' \<noteq> []"
  proof (cases "answers_of (rs @ [r]) = []")
    case False
    obtain body a where body: "answers_of (rs @ r # rs') = body @ [a]" "\<forall>r' \<in> set (tl body). \<not> closes (xq_zone rq) body r'"
      using delimited by (auto simp: soa_delimited_def)
    have "length ms' = length rs'" using decode assms(2) by (auto dest: map_eq_imp_length_eq)
    with that obtain qs q where rs': "rs' = qs @ [q]" by (metis length_0_conv rev_exhaust)
    with last obtain as' b where "xr_answers q = as' @ [b]" by (metis last_append last_snoc list.distinct(1) rev_exhaust last.simps append_is_Nil_conv)
    with body(1) have "body = answers_of (rs @ [r]) @ (answers_of qs @ as')"
      by (simp add: answers_of_def rs')
    then obtain ys where ys: "body = answers_of (rs @ [r]) @ ys" by blast
    then have "closes (xq_zone rq) body = closes (xq_zone rq) (answers_of (rs @ [r]))"
      using closes_append [OF False] by (simp only:)
    moreover have "set (tl (answers_of (rs @ [r]))) \<subseteq> set (tl body)"
      using False by (cases "answers_of (rs @ [r])") (auto simp: ys)
    ultimately show ?thesis using body(2) by auto
  qed simp
qed

lemma axfr_loop_complete:
  assumes "transferring rq ms rs st" and "complete_transfer rq (ms @ m # ms') (rs @ r # rs')" and "length ms = length rs"
    and "\<forall>i < length (m # ms'). stream (n + i) = Stream_Message ((m # ms') ! i)"
    and "stream (n + length (m # ms')) \<in> {Stream_Closed, Stream_Elapsed}"
  shows "att_outcome (axfr_loop rq first stream n st) = Axfr_Allowed"
  using assms
proof (induction ms' arbitrary: ms rs st m r rs' n)
  case Nil
  note next_ok = complete_transfer_next [OF Nil(2,3)]
  have "rs' = []" using Nil(2,3) by (auto simp: complete_transfer_def accepted_messages_def dest: map_eq_imp_length_eq)
  then have closed: "xt_closing_soa_seen (next_transfer rq ms rs st m r) \<and>
      att_outcome (xt_attempt (next_transfer rq ms rs st m r)) = Axfr_Unreachable"
    using Nil(2) by (intro next_transfer_close [OF Nil(1)]) (simp_all add: complete_transfer_def)
  have flags: "xt_authoritative st" "\<not> xt_truncated st"
    using Nil(1,2) by (auto simp: transferring_def complete_transfer_def)
  have "axfr_message rq st m = Axfr_Drain (xt_attempt (next_transfer rq ms rs st m r))"
    using axfr_message_eq [OF Nil(1) next_ok(1-3)] closed flags next_ok(4,5) by simp
  moreover have "stream n = Stream_Message m" "stream (Suc n) \<in> {Stream_Closed, Stream_Elapsed}"
    using Nil(4,5) by auto
  ultimately show ?case by (subst axfr_loop.simps) auto
next
  case (Cons m' ms')
  note next_ok = complete_transfer_next [OF Cons(3,4)]
  let ?s = "next_transfer rq ms rs st m r"
  have "\<not> xt_closing_soa_seen ?s \<and> att_outcome (xt_attempt ?s) = Axfr_Unreachable"
    by (rule next_transfer_open [OF Cons(2) next_ok(6)]) simp
  then have message: "axfr_message rq st m = Axfr_More ?s" "transferring rq (ms @ [m]) (rs @ [r]) ?s"
    using axfr_message_eq [OF Cons(2) next_ok(1-3)] transferring_next(1) [OF Cons(2) next_ok(1-3)] by simp_all
  have "length (m' # ms') = length rs'"
    using Cons(3,4) by (auto simp: complete_transfer_def accepted_messages_def dest: map_eq_imp_length_eq)
  then obtain r' rs'' where rs': "rs' = r' # rs''" by (cases rs') auto
  have later: "stream (Suc n + i) = Stream_Message ((m' # ms') ! i)" if "i < length (m' # ms')" for i
    using Cons(5) [rule_format, of "Suc i"] that by simp
  have "att_outcome (axfr_loop rq first stream (Suc n) ?s) = Axfr_Allowed"
    using Cons(3,4,6) later rs' by (intro Cons.IH [OF message(2)]) auto
  moreover have "stream n = Stream_Message m" using Cons(5) [rule_format, of 0] by simp
  ultimately show ?case using message(1) by (subst axfr_loop.simps) simp
qed

definition request_of :: "('n, 'q) axfr_endpoint_world \<Rightarrow> 'n \<Rightarrow> ('n, 'q) axfr_request" where
  "request_of w zone =
     \<lparr>xq_zone = zone, xq_id = ew_request_id w, xq_queries = ew_queries w zone, xq_decode = ew_decode w\<rparr>"

lemma transferring_start:
  assumes "att_messages attempt = 0" and "att_bytes attempt = 0" and "att_records attempt = 0"
    and "att_response_code attempt = None" and "att_outcome attempt = Axfr_Unreachable"
  shows "transferring rq [] [] \<lparr>xt_attempt = attempt, xt_first_soa_serial = None, xt_soa_count = 0,
    xt_first_answer_seen = False, xt_closing_soa_seen = False, xt_authoritative = True, xt_truncated = False\<rparr>"
  using assms
  by (simp add: transferring_def accepted_messages_def counted_def answers_of_def reads_def opening_serial_def)

lemma complete_transfer_nonempty: "complete_transfer rq ms rs \<Longrightarrow> \<exists>m ms' r rs'. ms = m # ms' \<and> rs = r # rs'"
  by (cases ms; cases rs) (auto simp: complete_transfer_def accepted_messages_def soa_delimited_def answers_of_def)

text \<open>
  C22: A zone transfer is reported as allowed exactly when the endpoint was reached, the request was sent, and the
  stream delivered a complete transfer and then nothing more: every message answers this request with success and
  authority, untruncated and within the limits on messages, bytes and records, and the answers run from the zone's
  SOA to the next occurrence of the same SOA, which is the last record of the last message.
\<close>

theorem axfr_allowed_exact:
  "att_outcome (check_axfr_endpoint w server endpoint zone) = Axfr_Allowed \<longleftrightarrow>
     ew_connect w = Connected \<and> ew_encodes w \<and> ew_sends w \<and>
     (\<exists>ms rs. complete_transfer (request_of w zone) ms rs \<and>
        map (ew_stream w) [0..<length ms] = map Stream_Message ms \<and>
        ew_stream w (length ms) \<in> {Stream_Closed, Stream_Elapsed})"
proof (cases "ew_connect w = Connected \<and> ew_encodes w \<and> ew_sends w")
  case False
  then show ?thesis
    by (cases "ew_connect w") (auto simp: check_axfr_endpoint_def axfr_cancelled_def axfr_incomplete_def Let_def)
next
  case True
  define attempt where "attempt = \<lparr>att_server = server, att_endpoint = endpoint, att_outcome = Axfr_Unreachable,
    att_response_code = None, att_messages = 0, att_records = 0, att_bytes = 0, att_error = None\<rparr>"
  define st where "st = \<lparr>xt_attempt = attempt, xt_first_soa_serial = None, xt_soa_count = 0,
    xt_first_answer_seen = False, xt_closing_soa_seen = False, xt_authoritative = True, xt_truncated = False\<rparr>"
  have start: "transferring (request_of w zone) [] [] st"
    unfolding st_def by (rule transferring_start) (simp_all add: attempt_def)
  have check: "check_axfr_endpoint w server endpoint zone =
      axfr_loop (request_of w zone) (ew_deadline_first w) (ew_stream w) 0 st"
    using True by (simp add: check_axfr_endpoint_def request_of_def st_def attempt_def Let_def)
  have stream: "map (ew_stream w) [0..<length ms] = map Stream_Message ms \<longleftrightarrow>
      (\<forall>i < length ms. ew_stream w i = Stream_Message (ms ! i))" for ms
    by (subst list_eq_iff_nth_eq) simp
  show ?thesis
  proof
    assume "att_outcome (check_axfr_endpoint w server endpoint zone) = Axfr_Allowed"
    from axfr_loop_allowed [OF start this [unfolded check]] True show "ew_connect w = Connected \<and> ew_encodes w \<and> ew_sends w \<and>
       (\<exists>ms rs. complete_transfer (request_of w zone) ms rs \<and>
        map (ew_stream w) [0..<length ms] = map Stream_Message ms \<and>
        ew_stream w (length ms) \<in> {Stream_Closed, Stream_Elapsed})"
      unfolding stream by auto
  next
    assume "ew_connect w = Connected \<and> ew_encodes w \<and> ew_sends w \<and>
       (\<exists>ms rs. complete_transfer (request_of w zone) ms rs \<and>
        map (ew_stream w) [0..<length ms] = map Stream_Message ms \<and>
        ew_stream w (length ms) \<in> {Stream_Closed, Stream_Elapsed})"
    then obtain ms rs where ms: "complete_transfer (request_of w zone) ms rs"
      "\<forall>i < length ms. ew_stream w i = Stream_Message (ms ! i)" "ew_stream w (length ms) \<in> {Stream_Closed, Stream_Elapsed}"
      unfolding stream by blast
    from complete_transfer_nonempty [OF ms(1)] obtain m ms' r rs' where eq: "ms = m # ms'" "rs = r # rs'" by blast
    from axfr_loop_complete [OF start, of m ms' r rs' "ew_stream w" 0] ms show
      "att_outcome (check_axfr_endpoint w server endpoint zone) = Axfr_Allowed"
      by (simp add: check eq)
  qed
qed

section \<open>The limits the observation states\<close>

definition tried_at :: "axfr_attempt \<Rightarrow> socket_addr \<times> string" where
  "tried_at attempt = (att_endpoint attempt, att_server attempt)"

definition within :: "axfr_limits \<Rightarrow> axfr_attempt \<Rightarrow> bool" where
  "within limits attempt \<longleftrightarrow>
     att_messages attempt \<le> lim_messages limits \<and> att_bytes attempt \<le> lim_bytes limits \<and>
     att_records attempt \<le> lim_records limits"

lemma within_incomplete [simp]:
  "within limits (axfr_incomplete error attempt) = within limits attempt"
  "within limits (axfr_cancelled attempt) = within limits attempt"
  by (simp_all add: within_def axfr_incomplete_def axfr_cancelled_def)

lemma within_exceeded:
  "axfr_exceeded (att_messages a) (att_bytes a) (att_records a) = None \<longleftrightarrow> within axfr_limits_default a"
  by (auto simp: axfr_exceeded_def within_def axfr_limits_default_def MAX_AXFR_MESSAGES_def MAX_AXFR_BYTES_def
    MAX_AXFR_RECORDS_def)

lemma axfr_message_counts:
  "axfr_message rq st m = Axfr_Stop a \<or> axfr_message rq st m = Axfr_Drain a \<or>
     (\<exists>st'. axfr_message rq st m = Axfr_More st' \<and> a = xt_attempt st') \<Longrightarrow>
   tried_at a = tried_at (xt_attempt st) \<and>
   (att_messages a = att_messages (xt_attempt st) \<and> att_bytes a = att_bytes (xt_attempt st) \<and>
      att_records a = att_records (xt_attempt st) \<or>
    axfr_exceeded (att_messages a) (att_bytes a) (att_records a) = None)"
  by (elim disjE exE conjE)
    (auto simp: axfr_message_def tried_at_def axfr_incomplete_def Let_def split: if_splits option.splits response_code.splits)

definition attempt_ok :: "socket_addr \<times> string \<Rightarrow> axfr_attempt \<Rightarrow> bool" where
  "attempt_ok place attempt \<longleftrightarrow> tried_at attempt = place \<and> within axfr_limits_default attempt"

lemma attempt_ok_simps [simp]:
  "attempt_ok place (axfr_incomplete error attempt) = attempt_ok place attempt"
  "attempt_ok place (axfr_cancelled attempt) = attempt_ok place attempt"
  "attempt_ok place (attempt\<lparr>att_outcome := outcome\<rparr>) = attempt_ok place attempt"
  by (simp_all add: attempt_ok_def tried_at_def within_def axfr_incomplete_def axfr_cancelled_def)

lemma axfr_message_ok:
  assumes "axfr_message rq st m = Axfr_Stop a \<or> axfr_message rq st m = Axfr_Drain a \<or>
     (\<exists>st'. axfr_message rq st m = Axfr_More st' \<and> a = xt_attempt st')"
    and "attempt_ok place (xt_attempt st)"
  shows "attempt_ok place a"
  using axfr_message_counts [OF assms(1)] assms(2)
  by (auto simp: attempt_ok_def within_exceeded) (simp add: within_def)

lemma axfr_drain_ok [simp]: "attempt_ok place (axfr_drain event attempt) = attempt_ok place attempt"
  by (cases event) simp_all

lemma axfr_loop_ok:
  "attempt_ok place (xt_attempt st) \<Longrightarrow> attempt_ok place (axfr_loop rq first stream n st)"
proof (induction rq first stream n st rule: axfr_loop.induct)
  case (1 rq first stream n st)
  show ?case
  proof (cases "stream n")
    case (Stream_Message m)
    show ?thesis
    proof (cases "axfr_message rq st m")
      case (Axfr_More st')
      then have "attempt_ok place (xt_attempt st')" using axfr_message_ok [of rq st m] 1(2) by blast
      from 1(1) [OF Stream_Message Axfr_More this] Stream_Message Axfr_More show ?thesis
        by (subst axfr_loop.simps) simp
    qed (use 1(2) Stream_Message axfr_message_ok [of rq st m] in
      \<open>simp_all add: axfr_loop.simps [of rq first stream n st]\<close>)
  next
    case Stream_Elapsed
    with 1(2) show ?thesis
      by (simp add: axfr_loop.simps [of rq first stream n st] attempt_ok_def within_def tried_at_def)
  qed (use 1(2) in \<open>simp_all add: axfr_loop.simps [of rq first stream n st]\<close>)
qed

lemma check_axfr_endpoint_ok: "attempt_ok (endpoint, server) (check_axfr_endpoint w server endpoint zone)"
  unfolding check_axfr_endpoint_def Let_def
  by (auto intro!: axfr_loop_ok split: axfr_connect.split) (simp_all add: attempt_ok_def tried_at_def within_def)

lemma attempt_endpoints_ok:
  "attempt_endpoints w zone n endpoints made = (made', state) \<Longrightarrow>
   \<exists>k. map tried_at made' = map tried_at made @ take k endpoints \<and>
     (list_all (within axfr_limits_default) made \<longrightarrow> list_all (within axfr_limits_default) made')"
proof (induction w zone n endpoints made rule: attempt_endpoints.induct)
  case (2 w zone n endpoint server endpoints made)
  define attempt where "attempt = check_axfr_endpoint (xw_endpoint w n endpoint) server endpoint zone"
  have ok: "tried_at attempt = (endpoint, server)" "within axfr_limits_default attempt"
    using check_axfr_endpoint_ok [of endpoint server "xw_endpoint w n endpoint" zone]
    by (simp_all add: attempt_ok_def attempt_def)
  show ?case
  proof (cases "att_outcome attempt = Axfr_Cancelled \<or> xw_expired w n")
    case True
    with 2(2) have "made' = push made attempt" by (auto simp: attempt_def Let_def split: if_splits)
    then show ?thesis using ok by (intro exI [of _ 1]) (simp add: push_def)
  next
    case False
    then have "attempt_endpoints w zone (Suc n) endpoints (push made attempt) = (made', state)"
      using 2(2) by (simp add: attempt_def Let_def)
    from 2(1) [OF attempt_def refl _ _ this] False obtain k where
      "map tried_at made' = map tried_at (push made attempt) @ take k endpoints"
      "list_all (within axfr_limits_default) (push made attempt) \<longrightarrow> list_all (within axfr_limits_default) made'"
      by (auto simp: attempt_def)
    then show ?thesis using ok by (intro exI [of _ "Suc k"]) (simp add: push_def)
  qed
qed (intro exI [of _ 0], simp)

definition endpoints_ok :: "string list \<Rightarrow> (socket_addr \<times> string) list \<Rightarrow> bool" where
  "endpoints_ok nameservers endpoints \<longleftrightarrow>
     btm_wf endpoints \<and> (\<forall>(endpoint, server) \<in> set endpoints. sa_port endpoint = 53 \<and> server \<in> set nameservers)"

definition endpoints_of :: "string \<Rightarrow> (socket_addr \<times> string) list \<Rightarrow> nat" where
  \<comment> \<open>the number of endpoints attributed to a server\<close>
  "endpoints_of server endpoints = length (filter (\<lambda>e. snd e = server) endpoints)"

lemma endpoints_of_btm_insert:
  "map_of m k = None \<Longrightarrow> endpoints_of s (btm_insert k v m) = endpoints_of s m + (if v = s then 1 else 0)"
  by (induction k v m rule: btm_insert.induct) (auto simp: endpoints_of_def split: if_splits)

lemma insert_endpoints_of:
  "endpoints_of s (insert_endpoints endpoints nameserver ips) \<le>
     endpoints_of s endpoints + (if nameserver = s then length ips else 0)"
proof (induction endpoints nameserver ips rule: insert_endpoints.induct)
  case (2 endpoints nameserver ip ips)
  then show ?case by (auto simp: endpoints_of_btm_insert split: if_splits)
qed simp

lemma collect_endpoints_of:
  "collect_endpoints lookup n endpoints names = Inr endpoints' \<Longrightarrow>
     endpoints_of s endpoints' \<le> endpoints_of s endpoints + MAX_AXFR_IPS_PER_NAMESERVER * count_list names s"
proof (induction lookup n endpoints names rule: collect_endpoints.induct)
  case (2 lookup n endpoints nameserver names)
  show ?case
  proof (cases "lookup n nameserver")
    case (Ns_Addresses addresses)
    have "endpoints_of s (add_axfr_endpoints endpoints nameserver addresses) \<le>
        endpoints_of s endpoints + (if nameserver = s then MAX_AXFR_IPS_PER_NAMESERVER else 0)"
      unfolding add_axfr_endpoints_def by (rule order_trans [OF insert_endpoints_of]) simp
    with 2 Ns_Addresses show ?thesis by (force split: if_splits)
  next
    case (Ns_Unanswered expired)
    with 2 have "endpoints_of s endpoints' \<le> endpoints_of s endpoints + MAX_AXFR_IPS_PER_NAMESERVER * count_list names s"
      by (auto split: if_splits)
    then show ?thesis by (cases "nameserver = s") simp_all
  qed (use 2 in simp)
qed simp

lemma insert_endpoints_ok:
  "endpoints_ok nameservers endpoints \<Longrightarrow> nameserver \<in> set nameservers \<Longrightarrow>
   endpoints_ok nameservers (insert_endpoints endpoints nameserver ips)"
proof (induction endpoints nameserver ips rule: insert_endpoints.induct)
  case (2 endpoints nameserver ip ips)
  have "set (btm_insert (SocketAddr ip 53) nameserver m) \<subseteq> insert (SocketAddr ip 53, nameserver) (set m)" for m
    by (induction "SocketAddr ip 53" nameserver m rule: btm_insert.induct) auto
  then have "endpoints_ok nameservers (btm_insert (SocketAddr ip 53) nameserver endpoints)"
    using 2(2,3) by (fastforce simp: endpoints_ok_def btm_wf_insert)
  with 2 show ?case by simp
qed simp

lemma collect_endpoints_ok:
  "collect_endpoints lookup n endpoints names = Inr endpoints' \<Longrightarrow> endpoints_ok nameservers endpoints \<Longrightarrow>
   set names \<subseteq> set nameservers \<Longrightarrow> endpoints_ok nameservers endpoints'"
proof (induction lookup n endpoints names rule: collect_endpoints.induct)
  case (2 lookup n endpoints nameserver names)
  then show ?case
    by (cases "lookup n nameserver")
      (auto simp: add_axfr_endpoints_def intro: insert_endpoints_ok split: if_splits)
qed simp

text \<open>
  C26: The limits an AXFR observation states are those that hold of it: at most four nameservers, at most two addresses for
  each time a nameserver is listed, and eight distinct endpoints, all on port 53 and attributed to a listed server; every
  attempt, however it ended, processed at most the stated number of messages, bytes and records.
\<close>

theorem axfr_observation_bounded:
  assumes "axc_observation (analyze_authoritative_axfr nc w evidence) = Some obs"
  defines "limits \<equiv> axfr_limits obs"
  shows "length (axfr_nameservers obs) \<le> lim_nameservers limits \<and>
    length (axfr_attempts obs) \<le> lim_endpoints limits \<and>
    (\<forall>server. length (filter (\<lambda>a. att_server a = server) (axfr_attempts obs)) \<le>
      lim_ips_per_nameserver limits * count_list (axfr_nameservers obs) server) \<and>
    distinct (map att_endpoint (axfr_attempts obs)) \<and> list_all (within limits) (axfr_attempts obs) \<and>
    list_all (\<lambda>a. sa_port (att_endpoint a) = 53 \<and> att_server a \<in> set (axfr_nameservers obs)) (axfr_attempts obs)"
proof -
  obtain zone names where evidence: "evidence = (zone, names)" by fastforce
  let ?names = "take MAX_AXFR_NAMESERVERS names"
  from assms(1) obtain endpoints made state where
    collect: "collect_endpoints (xw_lookup w) 0 [] ?names = Inr endpoints" and
    tries: "attempt_endpoints w zone 0 (take MAX_AXFR_ENDPOINTS endpoints) [] = (made, state)" and
    obs: "axfr_attempts obs = made" "axfr_nameservers obs = ?names" "axfr_limits obs = axfr_limits_default"
    by (auto simp: analyze_authoritative_axfr_def evidence Let_def split: if_splits sum.splits prod.splits)
  have ok: "endpoints_ok ?names endpoints"
    by (rule collect_endpoints_ok [OF collect]) (simp_all add: endpoints_ok_def btm_wf_def)
  obtain k where made: "map tried_at made = take k (take MAX_AXFR_ENDPOINTS endpoints)" "list_all (within axfr_limits_default) made"
    using attempt_endpoints_ok [OF tries] by auto
  have "length made = length (map tried_at made)" by simp
  then have "length made \<le> MAX_AXFR_ENDPOINTS" unfolding made(1) by simp
  moreover have "map att_endpoint made = map fst (map tried_at made)" by (simp add: tried_at_def)
  then have "distinct (map att_endpoint made)"
    unfolding made(1) using ok by (simp add: endpoints_ok_def btm_wf_def take_map [symmetric] distinct_take)
  moreover have "(att_endpoint a, att_server a) \<in> set endpoints" if "a \<in> set made" for a
  proof -
    from that have "tried_at a \<in> set (map tried_at made)" by simp
    then show ?thesis unfolding made(1) by (auto simp: tried_at_def dest: in_set_takeD)
  qed
  then have "list_all (\<lambda>a. sa_port (att_endpoint a) = 53 \<and> att_server a \<in> set ?names) made"
    using ok by (fastforce simp: list_all_iff endpoints_ok_def)
  moreover have "length (filter (\<lambda>a. att_server a = server) made) \<le> MAX_AXFR_IPS_PER_NAMESERVER * count_list ?names server" for server
  proof -
    have "length (filter (\<lambda>a. att_server a = server) made) = endpoints_of server (map tried_at made)"
      by (simp add: endpoints_of_def filter_map o_def tried_at_def)
    also have "\<dots> \<le> endpoints_of server endpoints"
    proof -
      have "endpoints_of server endpoints = endpoints_of server (take n endpoints) + endpoints_of server (drop n endpoints)" for n
        unfolding endpoints_of_def by (metis append_take_drop_id filter_append length_append)
      then have "endpoints_of server (take n endpoints) \<le> endpoints_of server endpoints" for n by (metis le_add1)
      then show ?thesis unfolding made(1) by (simp add: take_take)
    qed
    also have "\<dots> \<le> MAX_AXFR_IPS_PER_NAMESERVER * count_list ?names server"
      using collect_endpoints_of [OF collect, of server] by (simp add: endpoints_of_def)
    finally show ?thesis .
  qed
  ultimately show ?thesis
    using made(2) by (simp add: limits_def obs axfr_limits_default_def MAX_AXFR_ENDPOINTS_def MAX_AXFR_NAMESERVERS_def
        MAX_AXFR_IPS_PER_NAMESERVER_def)
qed

text \<open>A zone of two messages, for the witness: names are their texts, a message is decoded by its first byte.\<close>

definition plain_names :: "string name_crate" where
  "plain_names =
     \<lparr>nc_from_ascii = Some, nc_text = (\<lambda>n. n), nc_zone_of = (\<lambda>zone name. ends_with name zone),
      nc_lowercase = to_ascii_lowercase, nc_error_text = (\<lambda>_. ''error'')\<rparr>"

definition zone_soa :: "string rr" where
  "zone_soa = \<lparr>rr_name = ''b.c.'', rr_data = RData_Soa 7, rr_proof = Proof_Insecure\<rparr>"

definition sample_transfer :: "(string, nat) axfr_endpoint_world" where
  "sample_transfer =
     \<lparr>ew_connect = Connected, ew_encodes = True, ew_sends = True, ew_request_id = 9, ew_queries = (\<lambda>_. [1]),
      ew_decode = (\<lambda>m. Some \<lparr>xr_id = 9, xr_is_query = True, xr_code = Rcode_NoError, xr_queries = [1],
        xr_answers = (if m = ''a'' then [zone_soa, zone_soa\<lparr>rr_data := RData_Other\<rparr>] else [zone_soa]),
        xr_authoritative = True, xr_truncation = False\<rparr>),
      ew_deadline_first = False,
      ew_stream = (\<lambda>n. if n = 0 then Stream_Message ''a'' else if n = 1 then Stream_Message ''b'' else Stream_Closed)\<rparr>"

definition sample_axfr_world :: "(string, nat) axfr_world" where
  "sample_axfr_world =
     \<lparr>xw_start = \<lparr>int_cancelled = False, int_expired = False\<rparr>, xw_resolver = True,
      xw_lookup = (\<lambda>_ _. Ns_Addresses [V4 2, V4 1, V4 3]), xw_endpoint = (\<lambda>_ _. sample_transfer), xw_expired = (\<lambda>_. False)\<rparr>"

theorem axfr_observation_bounded_witness:
  "let obs = the (axc_observation (analyze_authoritative_axfr plain_names sample_axfr_world (''b.c.'', [''ns.b.c''])))
   in map att_outcome (axfr_attempts obs) = [Axfr_Allowed, Axfr_Allowed] \<and>
      list_all (within (axfr_limits obs)) (axfr_attempts obs)"
proof -
  let ?check = "axc_observation (analyze_authoritative_axfr plain_names sample_axfr_world (''b.c.'', [''ns.b.c'']))"
  have "?check \<noteq> None" and outcomes: "map att_outcome (axfr_attempts (the ?check)) = [Axfr_Allowed, Axfr_Allowed]"
    by code_simp+
  then have "?check = Some (the ?check)" by simp
  from axfr_observation_bounded [OF this] outcomes show ?thesis unfolding Let_def by blast
qed

end
