(* ===== verification/Dns_Probe.thy ===== *)
theory Dns_Probe
  imports Dns_Wire Lifecycle "HOL-Library.Option_ord"
begin

text \<open>
  The resolver-driven analyses of \<^verbatim>\<open>crates/surface-core/src/dns.rs\<close>: the baseline collection, DNSSEC validation,
  wildcard probing and the check of CNAME destinations. The resolver of the \<^verbatim>\<open>hickory\<close> crates is a parameter: a
  function from name and type to what the awaited lookup yields, with the branches of \<open>select!\<close> and the timeouts.
\<close>

section \<open>Baseline\<close>

definition MAX_DNS_RECORDS :: nat where "MAX_DNS_RECORDS = 512"
definition MAX_RESOLVED_HOSTS :: nat where "MAX_RESOLVED_HOSTS = 16"
definition MAX_SPECIAL_TXT_RECORDS :: nat where "MAX_SPECIAL_TXT_RECORDS = 32"

fun source_rank :: "address_source \<Rightarrow> nat" where
  "source_rank Src_Explicit = 0"
| "source_rank Src_ARecord = 1"
| "source_rank Src_AaaaRecord = 2"

definition host_key :: "resolved_host \<Rightarrow> string option \<times> ip_addr \<times> nat" where
  "host_key h = (rh_hostname h, rh_ip h, source_rank (rh_source h))"

lemma host_key_inj: "host_key a = host_key b \<longleftrightarrow> a = b"
  by (cases "rh_source a"; cases "rh_source b"; cases a; cases b) (simp_all add: host_key_def)

instantiation resolved_host :: linorder
begin

definition less_eq_resolved_host :: "resolved_host \<Rightarrow> resolved_host \<Rightarrow> bool" where
  "a \<le> b \<longleftrightarrow> host_key a \<le> host_key b"

definition less_resolved_host :: "resolved_host \<Rightarrow> resolved_host \<Rightarrow> bool" where
  "a < b \<longleftrightarrow> host_key a < host_key b"

instance
  by intro_classes (auto simp: less_eq_resolved_host_def less_resolved_host_def host_key_inj [symmetric])

end

record lookup_state =
  lk_records :: "dns_record list"
  lk_hosts :: "resolved_host list" \<comment> \<open>a \<open>BTreeSet\<close>, as what was inserted\<close>
  lk_cnames :: "cname_hop list" \<comment> \<open>likewise\<close>
  lk_errors :: "scan_error list"

definition lookup_record :: "'n name_crate \<Rightarrow> lookup_state \<Rightarrow> 'n rr \<Rightarrow> lookup_state" where
  \<comment> \<open>one answer of \<open>lookup\<close>\<close>
  "lookup_record nc st r =
     (let owner = name_text nc (rr_name r);
          st = (case rr_data r of
              RData_A v \<Rightarrow> st\<lparr>lk_hosts := push (lk_hosts st) (ResolvedHost (Some owner) (V4 v) Src_ARecord)\<rparr>
            | RData_Aaaa v \<Rightarrow> st\<lparr>lk_hosts := push (lk_hosts st) (ResolvedHost (Some owner) (V6 v) Src_AaaaRecord)\<rparr>
            | RData_Cname v \<Rightarrow> st\<lparr>lk_cnames := push (lk_cnames st) (CnameHop owner (name_text nc v))\<rparr>
            | _ \<Rightarrow> st)
      in case convert_record nc (rr_data r) of
           Some record \<Rightarrow> st\<lparr>lk_records := push (lk_records st) record\<rparr>
         | None \<Rightarrow> st)"

record 'n baseline_world =
  bw_init :: "string option" \<comment> \<open>the error of initialising or building the resolver\<close>
  bw_lookup :: "string \<Rightarrow> record_type \<Rightarrow> 'n timed_lookup"
  bw_no_records :: "'n net_error \<Rightarrow> bool" \<comment> \<open>\<open>is_no_records_found\<close> or \<open>is_nx_domain\<close>\<close>
  bw_authority :: "'n \<Rightarrow> record_type \<Rightarrow> 'n timed_lookup"
  bw_mta_sts :: "string \<Rightarrow> bool option" \<comment> \<open>whether fetching the policy URL succeeded, when it was answered\<close>
  bw_record_key :: "dns_record \<Rightarrow> string" \<comment> \<open>the \<open>Debug\<close> text\<close>

definition dns_lookup :: "'n name_crate \<Rightarrow> 'n baseline_world \<Rightarrow> string \<Rightarrow> record_type \<Rightarrow> lookup_state \<Rightarrow> lookup_state" where
  \<comment> \<open>the function \<open>lookup\<close>\<close>
  "dns_lookup nc w name rt st =
     (case bw_lookup w name rt of
        Lookup_Result (Inr answers) \<Rightarrow> foldl (lookup_record nc) st answers
      | Lookup_Result (Inl error) \<Rightarrow>
          if bw_no_records w error then st
          else st\<lparr>lk_errors := push (lk_errors st) (new_scan_error Stage_Dns (Some name) Err_Dns
            (show_record_type rt @ '' lookup failed: '' @ nc_error_text nc error) True)\<rparr>
      | Lookup_Elapsed \<Rightarrow>
          st\<lparr>lk_errors := push (lk_errors st) (new_scan_error Stage_Dns (Some name) Err_Timeout
            (show_record_type rt @ '' lookup timed out'') True)\<rparr>)"

definition baseline_query_types :: "record_type list" where
  "baseline_query_types = [Rt_A, Rt_Aaaa, Rt_Cname, Rt_Ns, Rt_Mx, Rt_Txt, Rt_Caa]"

definition lookup_txt_values :: "(string \<Rightarrow> record_type \<Rightarrow> 'n timed_lookup) \<Rightarrow> string \<Rightarrow> string list \<Rightarrow> string list" where
  "lookup_txt_values resolve name values =
     (case resolve name Rt_Txt of
        Lookup_Result (Inr answers) \<Rightarrow>
          take MAX_SPECIAL_TXT_RECORDS (sort (values @ filter_map
            (\<lambda>r. case rr_data r of RData_Txt parts \<Rightarrow> Some (txt_value parts) | _ \<Rightarrow> None) answers))
      | _ \<Rightarrow> values)"

definition lookup_txt :: "string option \<Rightarrow> (string \<Rightarrow> record_type \<Rightarrow> 'n timed_lookup) \<Rightarrow> string \<Rightarrow> string + string list" where
  "lookup_txt init resolve name =
     (case init of Some e \<Rightarrow> Inl e | None \<Rightarrow> Inr (lookup_txt_values resolve name []))"

fun dedup_consecutive :: "'a list \<Rightarrow> 'a list" where
  \<comment> \<open>\<open>Vec::dedup\<close>\<close>
  "dedup_consecutive (x # y # xs) = (if x = y then dedup_consecutive (y # xs) else x # dedup_consecutive (y # xs))"
| "dedup_consecutive xs = xs"

definition analyze_dns_baseline_for_scan ::
    "'n::linorder name_crate \<Rightarrow> 'n baseline_world \<Rightarrow> normalized_target \<Rightarrow> bool \<Rightarrow> bool \<Rightarrow> bool \<Rightarrow> string + dns_baseline" where
  "analyze_dns_baseline_for_scan nc w target ipv4_only ipv6_only fetch_mta_sts_policy =
     (case tgt_explicit_ip target of
        Some ip \<Rightarrow>
          Inr \<lparr>base_observation = explicit_ip_observation (tgt_hostname target) ip, base_authority = None\<rparr>
      | None \<Rightarrow>
          (case tgt_hostname target of
             None \<Rightarrow> Inl ''target has no hostname''
           | Some hostname \<Rightarrow>
               (case bw_init w of
                  Some e \<Rightarrow> Inl e
                | None \<Rightarrow>
                    let st = foldl (\<lambda>st rt. if ipv4_only \<and> rt = Rt_Aaaa \<or> ipv6_only \<and> rt = Rt_A then st
                            else dns_lookup nc w hostname rt st)
                          \<lparr>lk_records = [], lk_hosts = [], lk_cnames = [], lk_errors = []\<rparr> baseline_query_types;
                        st = (if MAX_DNS_RECORDS < length (lk_records st) then
                            st\<lparr>lk_records := take MAX_DNS_RECORDS (lk_records st),
                               lk_errors := push (lk_errors st) (new_scan_error Stage_Dns (Some hostname) Err_Other
                                 (''DNS records truncated at '' @ show_nat MAX_DNS_RECORDS) True)\<rparr>
                            else st);
                        dmarc_records = lookup_txt_values (bw_lookup w) (''_dmarc.'' @ hostname) [];
                        mta_sts = lookup_txt_values (bw_lookup w) (''_mta-sts.'' @ hostname) [];
                        tls_rpt = lookup_txt_values (bw_lookup w) (''_smtp._tls.'' @ hostname) [];
                        authority = authoritative_evidence_of nc (bw_authority w) hostname;
                        records = dedup_consecutive (sort_key (bw_record_key w) (lk_records st));
                        mail = interpret_mail records dmarc_records mta_sts tls_rpt;
                        mail = (if fetch_mta_sts_policy \<and> mail_mta_sts mail \<noteq> []
                            then mail\<lparr>mail_mta_sts_policy_available := bw_mta_sts w hostname\<rparr> else mail)
                    in Inr \<lparr>base_observation =
                         \<lparr>dns_queried_name = hostname, dns_records = records,
                          dns_cname_chain = ordered_cname_chain hostname (lk_cnames st), dns_dangling_cnames = [],
                          dns_resolved_hosts = take MAX_RESOLVED_HOSTS (btree_set (lk_hosts st)), dns_mail = mail,
                          dns_dnssec = None, dns_authoritative_axfr = None, dns_wildcard_dns = None,
                          dns_errors = lk_errors st\<rparr>,
                       base_authority = map_option
                         (\<lambda>(zone, nameservers). \<lparr>ev_zone = nc_text nc zone, ev_nameservers = nameservers\<rparr>) authority\<rparr>)))"

section \<open>DNSSEC\<close>

fun resolver_type :: "dnssec_record_type \<Rightarrow> record_type" where
  "resolver_type DnssecRt_A = Rt_A"
| "resolver_type DnssecRt_Aaaa = Rt_Aaaa"

definition dnssec_not_applicable :: "string \<Rightarrow> dnssec_observation" where
  "dnssec_not_applicable limitation =
     dnssec_default\<lparr>dnssec_status := Dnssec_NotApplicable, dnssec_limitations := [limitation]\<rparr>"

definition dnssec_round ::
    "'n name_crate \<Rightarrow> (string \<Rightarrow> record_type \<Rightarrow> 'n timed_lookup) \<Rightarrow> string \<Rightarrow> dnssec_observation \<Rightarrow>
     dnssec_record_type \<Rightarrow> dnssec_observation" where
  \<comment> \<open>one query of the loop over the record types\<close>
  "dnssec_round nc resolve hostname i rt =
     (let subject = hostname @ '' '' @ dnssec_record_type_str rt;
          (status, error) =
            (case resolve hostname (resolver_type rt) of
               Lookup_Result (Inr answers) \<Rightarrow>
                 let status = dnssec_status_from_proofs (map rr_proof answers)
                 in (status, if status = Dnssec_Indeterminate
                             then Some (subject @ '' validation returned no conclusive DNSSEC proof'') else None)
             | Lookup_Result (Inl error) \<Rightarrow>
                 let status = (case dnssec_status_from_lookup_error error of Some s \<Rightarrow> s | None \<Rightarrow> Dnssec_Indeterminate)
                 in (status, if status = Dnssec_Indeterminate
                             then Some (capped (subject @ '' validation failed: '' @ nc_error_text nc error)) else None)
             | Lookup_Elapsed \<Rightarrow> (Dnssec_Indeterminate, Some (subject @ '' validation timed out'')))
      in i\<lparr>dnssec_errors := (case error of Some e \<Rightarrow> push (dnssec_errors i) e | None \<Rightarrow> dnssec_errors i),
           dnssec_checked_rrsets := push (dnssec_checked_rrsets i)
             \<lparr>rrset_name = hostname, rrset_record_type = rt, rrset_status = status\<rparr>\<rparr>)"

definition analyze_dnssec ::
    "'n name_crate \<Rightarrow> string option \<Rightarrow> (string \<Rightarrow> record_type \<Rightarrow> 'n timed_lookup) \<Rightarrow> normalized_target \<Rightarrow>
     bool \<Rightarrow> bool \<Rightarrow> dnssec_observation" where
  "analyze_dnssec nc init resolve target ipv4_only ipv6_only =
     (case (tgt_explicit_ip target, tgt_hostname target) of
        (None, Some hostname) \<Rightarrow>
          if ipv4_only \<and> ipv6_only then
            dnssec_not_applicable ''No address RRset is selected when both address-family filters are enabled.''
          else
            let types = (if ipv4_only then [DnssecRt_A] else if ipv6_only then [DnssecRt_Aaaa]
                         else [DnssecRt_A, DnssecRt_Aaaa]);
                i = dnssec_default\<lparr>dnssec_limitations :=
                  [''Validation uses Hickory Resolver's built-in trust anchors and covers only selected primary-host A/AAAA RRsets.'']\<rparr>
            in (case init of
                  Some e \<Rightarrow> i\<lparr>dnssec_errors := [capped e]\<rparr>
                | None \<Rightarrow>
                    let i = foldl (dnssec_round nc resolve hostname) i types
                    in i\<lparr>dnssec_status := aggregate_dnssec_status (map rrset_status (dnssec_checked_rrsets i))\<rparr>)
      | _ \<Rightarrow> dnssec_not_applicable ''DNSSEC validation applies only to hostname targets.'')"

definition analyze_dns ::
    "'n::linorder name_crate \<Rightarrow> 'n baseline_world \<Rightarrow> string option \<Rightarrow> (string \<Rightarrow> record_type \<Rightarrow> 'n timed_lookup) \<Rightarrow>
     normalized_target \<Rightarrow> bool \<Rightarrow> bool \<Rightarrow> string + dns_observation" where
  "analyze_dns nc w validating_init validating target ipv4_only ipv6_only =
     map_sum id (\<lambda>baseline. let i = base_observation baseline
         in if dns_dnssec i = None
            then i\<lparr>dns_dnssec := Some (analyze_dnssec nc validating_init validating target ipv4_only ipv6_only)\<rparr> else i)
       (analyze_dns_baseline_for_scan nc w target ipv4_only ipv6_only True)"

section \<open>Wildcard probes\<close>

fun wild_rank :: "wildcard_record_type \<Rightarrow> nat" where
  "wild_rank WildRt_A = 0"
| "wild_rank WildRt_Aaaa = 1"
| "wild_rank WildRt_Cname = 2"

lemma wild_rank_inj: "wild_rank a = wild_rank b \<longleftrightarrow> a = b"
  by (cases a; cases b) simp_all

instantiation wildcard_record_type :: linorder
begin

definition less_eq_wildcard_record_type :: "wildcard_record_type \<Rightarrow> wildcard_record_type \<Rightarrow> bool" where
  "a \<le> b \<longleftrightarrow> wild_rank a \<le> wild_rank b"

definition less_wildcard_record_type :: "wildcard_record_type \<Rightarrow> wildcard_record_type \<Rightarrow> bool" where
  "a < b \<longleftrightarrow> wild_rank a < wild_rank b"

instance
  by intro_classes (auto simp: less_eq_wildcard_record_type_def less_wildcard_record_type_def wild_rank_inj [symmetric])

end

record wildcard_probe =
  wp_fingerprints :: "string list" \<comment> \<open>a \<open>BTreeSet\<close>\<close>
  wp_answer_types :: "wildcard_record_type list" \<comment> \<open>likewise\<close>
  wp_all_negative :: bool
  wp_conclusive :: bool
  wp_limited :: bool

definition wildcard_probe_default :: wildcard_probe where
  "wildcard_probe_default =
     \<lparr>wp_fingerprints = [], wp_answer_types = [], wp_all_negative = True, wp_conclusive = True, wp_limited = False\<rparr>"

definition push_wildcard_message :: "string list \<Rightarrow> string \<Rightarrow> string list" where
  "push_wildcard_message messages message =
     (if length messages < MAX_SPECIAL_TXT_RECORDS then push messages (capped message) else messages)"

definition wildcard_fingerprint :: "'n name_crate \<Rightarrow> 'n rdata \<Rightarrow> (wildcard_record_type \<times> string) option" where
  \<comment> \<open>the normalised text of a supported answer\<close>
  "wildcard_fingerprint nc data =
     (case data of
        RData_A v \<Rightarrow> Some (WildRt_A, ''A:'' @ show_ipv4 v)
      | RData_Aaaa v \<Rightarrow> Some (WildRt_Aaaa, ''AAAA:'' @ show_ipv6 v)
      | RData_Cname v \<Rightarrow> Some (WildRt_Cname, ''CNAME:'' @ to_ascii_lowercase (name_text nc v))
      | _ \<Rightarrow> None)"

fun append_answers :: "'n name_crate \<Rightarrow> nat \<Rightarrow> 'n rr list \<Rightarrow> wildcard_probe \<Rightarrow> wildcard_probe" where
  \<comment> \<open>the loop of \<open>append_wildcard_answers\<close>, with \<open>retained_bytes\<close>\<close>
  "append_answers nc retained [] pr = pr"
| "append_answers nc retained (r # rs) pr =
     (case wildcard_fingerprint nc (rr_data r) of
        None \<Rightarrow> append_answers nc retained rs pr
      | Some (rt, normalized) \<Rightarrow>
          if normalized \<in> set (wp_fingerprints pr) then append_answers nc retained rs pr
          else if MAX_DNS_RECORDS \<le> length (wp_fingerprints pr) \<or> MAX_TXT_BYTES < retained + length normalized then
            pr\<lparr>wp_limited := True, wp_conclusive := False\<rparr>
          else append_answers nc (retained + length normalized) rs
            (pr\<lparr>wp_answer_types := btree_set (rt # wp_answer_types pr),
                   wp_fingerprints := btree_set (normalized # wp_fingerprints pr)\<rparr>))"

definition append_wildcard_answers :: "'n name_crate \<Rightarrow> 'n rr list \<Rightarrow> wildcard_probe \<Rightarrow> wildcard_probe" where
  "append_wildcard_answers nc records pr =
     append_answers nc (sum_list (map length (wp_fingerprints pr))) records pr"

datatype 'n probe_poll = Probe_Cancelled | Probe_Deadline | Probe_RequestTimeout | Probe_Result "'n net_error + 'n rr list"

record 'n probe_world =
  pw_start :: "nat \<Rightarrow> interruption" \<comment> \<open>before probe or observation n\<close>
  pw_before :: "nat \<Rightarrow> record_type \<Rightarrow> interruption" \<comment> \<open>at the start of a lookup\<close>
  pw_poll :: "nat \<Rightarrow> string \<Rightarrow> record_type \<Rightarrow> 'n probe_poll"

definition inconclusive :: "wildcard_probe \<Rightarrow> wildcard_probe" where
  "inconclusive pr = pr\<lparr>wp_conclusive := False, wp_all_negative := False\<rparr>"

definition wildcard_lookup ::
    "'n name_crate \<Rightarrow> 'n probe_world \<Rightarrow> string \<Rightarrow> record_type \<Rightarrow> nat \<Rightarrow> wildcard_probe \<Rightarrow> string list \<Rightarrow>
     wildcard_check_state option \<times> wildcard_probe \<times> string list" where
  \<comment> \<open>the early return, if any, with the probe and the errors\<close>
  "wildcard_lookup nc w probe_name rt probe_index pr errors =
     (let stopped = pr\<lparr>wp_conclusive := False\<rparr>;
          say = (\<lambda>what. push_wildcard_message errors
            (''Probe '' @ show_nat (probe_index + 1) @ '' '' @ show_record_type rt @ '' lookup '' @ what))
      in if int_cancelled (pw_before w probe_index rt) then (Some WildCheck_Cancelled, stopped, errors)
         else if int_expired (pw_before w probe_index rt) then (Some WildCheck_TimedOut, stopped, errors)
         else (case pw_poll w probe_index probe_name rt of
             Probe_Cancelled \<Rightarrow> (Some WildCheck_Cancelled, stopped, errors)
           | Probe_Deadline \<Rightarrow> (Some WildCheck_TimedOut, stopped, errors)
           | Probe_RequestTimeout \<Rightarrow> (None, inconclusive pr, say ''reached the request timeout.'')
           | Probe_Result (Inr answers) \<Rightarrow>
               let appended = append_wildcard_answers nc answers pr
               in if length (wp_fingerprints appended) = length (wp_fingerprints pr)
                  then (None, inconclusive appended, say ''returned no supported answer records.'')
                  else (None, appended\<lparr>wp_all_negative := False\<rparr>, errors)
           | Probe_Result (Inl error) \<Rightarrow>
               if wildcard_negative_response error then (None, pr, errors)
               else (None, inconclusive pr, say (wildcard_error_summary error @ ''.''))))"

fun probe_types ::
    "'n name_crate \<Rightarrow> 'n probe_world \<Rightarrow> string \<Rightarrow> nat \<Rightarrow> record_type list \<Rightarrow> wildcard_probe \<Rightarrow> string list \<Rightarrow>
     wildcard_check_state option \<times> wildcard_probe \<times> string list" where
  \<comment> \<open>the inner loop, over the query types\<close>
  "probe_types nc w probe_name probe_index [] pr errors = (None, pr, errors)"
| "probe_types nc w probe_name probe_index (rt # rts) pr errors =
     (case wildcard_lookup nc w probe_name rt probe_index pr errors of
        (Some state, pr, errors) \<Rightarrow> (Some state, pr, errors)
      | (None, pr, errors) \<Rightarrow> probe_types nc w probe_name probe_index rts pr errors)"

fun take_fingerprints :: "nat \<Rightarrow> string list \<Rightarrow> string list" where
  \<comment> \<open>\<open>take_while\<close> with \<open>retained_bytes\<close>\<close>
  "take_fingerprints retained [] = []"
| "take_fingerprints retained (f # fs) =
     (if MAX_TXT_BYTES < retained + length f then [] else f # take_fingerprints (retained + length f) fs)"

definition wildcard_status_of :: "wildcard_probe list \<Rightarrow> wildcard_dns_status" where
  "wildcard_status_of probes =
     (if length probes = 2 \<and> list_all (\<lambda>p. wp_conclusive p \<and> \<not> wp_limited p) probes then
        (if list_all wp_all_negative probes then Wild_NotDetected
         else if wp_fingerprints (hd probes) \<noteq> [] \<and> wp_fingerprints (hd probes) = wp_fingerprints (hd (tl probes))
         then Wild_Detected else Wild_Indeterminate)
      else Wild_Indeterminate)"

definition finish_wildcard_observation ::
    "(string \<Rightarrow> string) \<Rightarrow> wildcard_dns_observation \<Rightarrow> wildcard_probe list \<Rightarrow> wildcard_dns_observation" where
  \<comment> \<open>over the lower-case hexadecimal SHA-256 digest\<close>
  "finish_wildcard_observation sha256 i probes =
     (let status = wildcard_status_of probes;
          limitations = (if list_ex wp_limited probes then
              push_wildcard_message (wild_limitations i) (''Wildcard answers exceeded the '' @ show_nat MAX_DNS_RECORDS @
                ''-record or '' @ show_nat MAX_TXT_BYTES @ ''-byte DNS bound.'')
              else wild_limitations i);
          limitations = (if status = Wild_Indeterminate then push_wildcard_message limitations
              ''Mixed, rotating, incomplete, or errored probe answers are not classified as wildcard DNS.'' else limitations);
          hashed = btree_set (map (\<lambda>v. ''sha256:'' @ sha256 v) (btree_set (concat (map wp_fingerprints probes))));
          fingerprints = take_fingerprints 0 (take MAX_DNS_RECORDS hashed);
          limitations = (if length fingerprints < length hashed then push_wildcard_message limitations
              (''Wildcard fingerprint summary was truncated at the '' @ show_nat MAX_DNS_RECORDS @ ''-record or '' @
               show_nat MAX_TXT_BYTES @ ''-byte DNS bound.'') else limitations)
      in i\<lparr>wild_status := status, wild_answer_types := btree_set (concat (map wp_answer_types probes)),
           wild_answer_fingerprints := fingerprints, wild_errors := take MAX_SPECIAL_TXT_RECORDS (wild_errors i),
           wild_limitations := take MAX_SPECIAL_TXT_RECORDS limitations\<rparr>)"

definition wildcard_query_types :: "bool \<Rightarrow> bool \<Rightarrow> record_type list" where
  "wildcard_query_types ipv4_only ipv6_only =
     (if ipv4_only \<and> ipv6_only then [Rt_Cname] else if ipv4_only then [Rt_A, Rt_Cname]
      else if ipv6_only then [Rt_Aaaa, Rt_Cname] else [Rt_A, Rt_Aaaa, Rt_Cname])"

fun wildcard_probes ::
    "'n name_crate \<Rightarrow> 'n probe_world \<Rightarrow> (string \<Rightarrow> string) \<Rightarrow> record_type list \<Rightarrow> nat \<Rightarrow> string list \<Rightarrow>
     wildcard_dns_observation \<Rightarrow> wildcard_probe list \<Rightarrow> wildcard_dns_check" where
  \<comment> \<open>the outer loop, from probe \<open>n\<close> on\<close>
  "wildcard_probes nc w sha256 types n [] i probes =
     \<lparr>wdc_observation = finish_wildcard_observation sha256 i probes, wdc_state = WildCheck_Completed\<rparr>"
| "wildcard_probes nc w sha256 types n (name # names) i probes =
     (if int_cancelled (pw_start w n) then
        \<lparr>wdc_observation = finish_wildcard_observation sha256 i probes, wdc_state = WildCheck_Cancelled\<rparr>
      else if int_expired (pw_start w n) then
        \<lparr>wdc_observation = finish_wildcard_observation sha256 i probes, wdc_state = WildCheck_TimedOut\<rparr>
      else
        let i = i\<lparr>wild_probes_attempted := wild_probes_attempted i + 1\<rparr>
        in case probe_types nc w name n types wildcard_probe_default (wild_errors i) of
             (stopped, pr, errors) \<Rightarrow>
               let i = i\<lparr>wild_errors := errors\<rparr>; probes = push probes pr
               in case stopped of
                    Some state \<Rightarrow>
                      \<lparr>wdc_observation = finish_wildcard_observation sha256 i probes, wdc_state = state\<rparr>
                  | None \<Rightarrow> wildcard_probes nc w sha256 types (Suc n) names i probes)"

definition downstream_limitation :: string where
  "downstream_limitation = ''Random probe answers were not scanned or used as downstream targets.''"

definition analyze_wildcard_dns_with_resolver ::
    "'n name_crate \<Rightarrow> 'n probe_world \<Rightarrow> (string \<Rightarrow> string) \<Rightarrow> string list \<Rightarrow> bool \<Rightarrow> bool \<Rightarrow> wildcard_dns_check" where
  "analyze_wildcard_dns_with_resolver nc w sha256 probe_names ipv4_only ipv6_only =
     wildcard_probes nc w sha256 (wildcard_query_types ipv4_only ipv6_only) 0 probe_names
       (wildcard_default\<lparr>wild_limitations :=
          [''Detection uses exactly two random UUID-v4 child names and selected A/AAAA plus CNAME lookups.'',
           downstream_limitation]\<rparr>) []"

definition wildcard_resolver_failure :: "string \<Rightarrow> wildcard_dns_observation" where
  "wildcard_resolver_failure message =
     wildcard_default\<lparr>wild_errors := [message], wild_limitations :=
       [''Wildcard DNS status is indeterminate because no probes completed.'', downstream_limitation]\<rparr>"

definition wildcard_probe_names :: "string \<times> string \<Rightarrow> string \<Rightarrow> string list" where
  \<comment> \<open>over the two random identifiers\<close>
  "wildcard_probe_names ids hostname =
     (let hostname = trim_end_matches CHR ''.'' hostname
      in [fst ids @ ''.'' @ hostname @ ''.'', snd ids @ ''.'' @ hostname @ ''.''])"

datatype resolver_setup = Setup_NotInitialised | Setup_NotBuilt | Setup_Ready

definition analyze_wildcard_dns ::
    "'n name_crate \<Rightarrow> resolver_setup \<Rightarrow> 'n probe_world \<Rightarrow> (string \<Rightarrow> string) \<Rightarrow> string \<times> string \<Rightarrow> normalized_target \<Rightarrow>
     bool \<Rightarrow> bool \<Rightarrow> wildcard_dns_check" where
  "analyze_wildcard_dns nc setup w sha256 ids target ipv4_only ipv6_only =
     (case (tgt_hostname target, tgt_explicit_ip target) of
        (Some hostname, None) \<Rightarrow>
          (case setup of
             Setup_NotInitialised \<Rightarrow>
               \<lparr>wdc_observation = wildcard_resolver_failure ''Could not initialize the wildcard DNS resolver.'',
                wdc_state = WildCheck_Completed\<rparr>
           | Setup_NotBuilt \<Rightarrow>
               \<lparr>wdc_observation = wildcard_resolver_failure ''Could not build the wildcard DNS resolver.'',
                wdc_state = WildCheck_Completed\<rparr>
           | Setup_Ready \<Rightarrow>
               analyze_wildcard_dns_with_resolver nc w sha256 (wildcard_probe_names ids hostname) ipv4_only ipv6_only)
      | _ \<Rightarrow>
          \<lparr>wdc_observation = wildcard_default\<lparr>wild_status := Wild_NotApplicable, wild_limitations :=
             [''Wildcard DNS detection applies only to hostname targets.'', downstream_limitation]\<rparr>,
           wdc_state = WildCheck_Completed\<rparr>)"

section \<open>What a wildcard status rests on\<close>

definition record_fingerprints :: "'n name_crate \<Rightarrow> 'n rr list \<Rightarrow> string set" where
  "record_fingerprints nc answers = {f. \<exists>r \<in> set answers. \<exists>rt. wildcard_fingerprint nc (rr_data r) = Some (rt, f)}"

definition answer_set :: "'n name_crate \<Rightarrow> 'n probe_world \<Rightarrow> nat \<Rightarrow> string \<Rightarrow> record_type list \<Rightarrow> string set" where
  \<comment> \<open>the normalised answers to all queries of a probe, unbounded\<close>
  "answer_set nc w n name types =
     (\<Union>rt \<in> set types. case pw_poll w n name rt of Probe_Result (Inr answers) \<Rightarrow> record_fingerprints nc answers | _ \<Rightarrow> {})"

lemma record_fingerprints_simps [simp]:
  "record_fingerprints nc [] = {}"
  "record_fingerprints nc (r # rs) =
     (case wildcard_fingerprint nc (rr_data r) of None \<Rightarrow> {} | Some (rt, f) \<Rightarrow> {f}) \<union> record_fingerprints nc rs"
  by (auto simp: record_fingerprints_def split: option.splits)

lemma append_answers_frame:
  "\<not> wp_limited (append_answers nc k rs p) \<Longrightarrow>
     \<not> wp_limited p \<and> wp_conclusive (append_answers nc k rs p) = wp_conclusive p \<and>
     set (wp_fingerprints (append_answers nc k rs p)) = set (wp_fingerprints p) \<union> record_fingerprints nc rs"
proof (induction rs arbitrary: k p)
  case (Cons r rs)
  show ?case
  proof (cases "wildcard_fingerprint nc (rr_data r)")
    case None
    with Cons show ?thesis by simp
  next
    case (Some tf)
    obtain t f where tf: "tf = (t, f)" by (cases tf)
    show ?thesis
    proof (cases "f \<in> set (wp_fingerprints p)")
      case True
      with Some tf Cons.prems have "append_answers nc k (r # rs) p = append_answers nc k rs p" by simp
      with Cons.IH [of k p] Cons.prems True Some tf show ?thesis by auto
    next
      case False
      let ?p = "p\<lparr>wp_answer_types := btree_set (t # wp_answer_types p), wp_fingerprints := btree_set (f # wp_fingerprints p)\<rparr>"
      from False Some tf Cons.prems have "append_answers nc k (r # rs) p = append_answers nc (k + length f) rs ?p"
        by (simp split: if_splits)
      with Cons.IH [of "k + length f" ?p] Cons.prems Some tf show ?thesis by auto
    qed
  qed
qed simp

lemma inconclusive_simps [simp]:
  "\<not> wp_conclusive (inconclusive p)"
  by (simp add: inconclusive_def)

lemma append_answers_repeated:
  "record_fingerprints nc rs \<subseteq> set (wp_fingerprints p) \<Longrightarrow> append_answers nc k rs p = p"
  by (induction rs arbitrary: k) (auto split: option.splits)

lemma wildcard_lookup_growth:
  assumes "wildcard_lookup nc w name rt n p errors = (st, p', errors')" "wp_conclusive p'"
    and "pw_poll w n name rt = Probe_Result (Inr answers)"
  shows "\<not> record_fingerprints nc answers \<subseteq> set (wp_fingerprints p)"
  using assms append_answers_repeated [of nc answers p]
  by (auto simp: wildcard_lookup_def Let_def append_wildcard_answers_def split: if_splits)

lemma wildcard_lookup_conclusive:
  assumes run: "wildcard_lookup nc w name rt n p errors = (st, p', errors')"
    and ok: "wp_conclusive p'" "\<not> wp_limited p'"
  shows "st = None \<and> wp_conclusive p \<and> \<not> wp_limited p \<and>
    (\<exists>r. pw_poll w n name rt = Probe_Result r \<and>
      (case r of
         Inl e \<Rightarrow> wildcard_negative_response e \<and> p' = p
       | Inr answers \<Rightarrow> \<not> wp_all_negative p' \<and>
           set (wp_fingerprints p') = set (wp_fingerprints p) \<union> record_fingerprints nc answers))"
proof (cases "pw_poll w n name rt")
  case (Probe_Result r)
  have go: "\<not> int_cancelled (pw_before w n rt)" "\<not> int_expired (pw_before w n rt)"
    using run ok by (auto simp: wildcard_lookup_def Let_def split: if_splits)
  show ?thesis
  proof (cases r)
    case (Inl e)
    with run ok go Probe_Result show ?thesis
      by (auto simp: wildcard_lookup_def Let_def split: if_splits)
  next
    case (Inr answers)
    let ?a = "append_wildcard_answers nc answers p"
    have run': "st = None" "p' = ?a\<lparr>wp_all_negative := False\<rparr>"
      using run ok go Probe_Result Inr by (auto simp: wildcard_lookup_def Let_def split: if_splits)
    with ok have "\<not> wp_limited ?a" "wp_conclusive ?a" by simp_all
    with append_answers_frame [of nc _ answers p] run' Inr Probe_Result show ?thesis
      by (auto simp: append_wildcard_answers_def)
  qed
qed (use run ok in \<open>auto simp: wildcard_lookup_def Let_def split: if_splits\<close>)

lemma probe_types_conclusive:
  "probe_types nc w name n types p errors = (st, p', errors') \<Longrightarrow> wp_conclusive p' \<Longrightarrow> \<not> wp_limited p' \<Longrightarrow>
     wp_conclusive p \<and> \<not> wp_limited p \<and>
     set (wp_fingerprints p') = set (wp_fingerprints p) \<union> answer_set nc w n name types \<and>
     (wp_all_negative p' \<longrightarrow> wp_all_negative p \<and>
       (\<forall>rt \<in> set types. \<exists>e. pw_poll w n name rt = Probe_Result (Inl e) \<and> wildcard_negative_response e))"
proof (induction types arbitrary: p errors)
  case Nil
  then show ?case by (simp add: answer_set_def)
next
  case (Cons rt rts)
  obtain st1 p1 e1 where one: "wildcard_lookup nc w name rt n p errors = (st1, p1, e1)"
    by (cases "wildcard_lookup nc w name rt n p errors") auto
  show ?case
  proof (cases st1)
    case (Some s)
    with Cons.prems one have "p1 = p'" by simp
    with wildcard_lookup_conclusive [OF one] Cons.prems Some show ?thesis by simp
  next
    case None
    with Cons.prems(1) one have rest: "probe_types nc w name n rts p1 e1 = (st, p', errors')" by simp
    note tail = Cons.IH [OF rest Cons.prems(2,3)]
    then have "wp_conclusive p1" "\<not> wp_limited p1" by simp_all
    then obtain r where r: "pw_poll w n name rt = Probe_Result r" "wp_conclusive p" "\<not> wp_limited p"
        "case r of Inl e \<Rightarrow> wildcard_negative_response e \<and> p1 = p
         | Inr answers \<Rightarrow> \<not> wp_all_negative p1 \<and>
             set (wp_fingerprints p1) = set (wp_fingerprints p) \<union> record_fingerprints nc answers"
      using wildcard_lookup_conclusive [OF one] by blast
    from r tail show ?thesis
      by (cases r) (auto simp: answer_set_def)
  qed
qed

lemma probe_types_growth:
  "probe_types nc w name n types p errors = (st, p', errors') \<Longrightarrow> wp_conclusive p' \<Longrightarrow> \<not> wp_limited p' \<Longrightarrow>
     types = pre @ rt # post \<Longrightarrow> pw_poll w n name rt = Probe_Result (Inr answers) \<Longrightarrow>
     \<not> record_fingerprints nc answers \<subseteq> set (wp_fingerprints p) \<union> answer_set nc w n name pre"
proof (induction types arbitrary: pre p errors)
  case (Cons rt1 rts)
  obtain st1 p1 e1 where one: "wildcard_lookup nc w name rt1 n p errors = (st1, p1, e1)"
    by (cases "wildcard_lookup nc w name rt1 n p errors") auto
  have all: "st1 = None \<and> wp_conclusive p1 \<and> \<not> wp_limited p1"
  proof (cases st1)
    case (Some s)
    with Cons.prems(1) one have "p1 = p'" by simp
    with wildcard_lookup_conclusive [OF one] Cons.prems(2,3) Some show ?thesis by simp
  next
    case None
    with Cons.prems(1) one have "probe_types nc w name n rts p1 e1 = (st, p', errors')" by simp
    from probe_types_conclusive [OF this Cons.prems(2,3)] None show ?thesis by simp
  qed
  with Cons.prems(1) one have rest: "probe_types nc w name n rts p1 e1 = (st, p', errors')" by simp
  show ?case
  proof (cases pre)
    case Nil
    with Cons.prems(4,5) all wildcard_lookup_growth [OF one, of answers] show ?thesis by (simp add: answer_set_def)
  next
    case (Cons rt2 pre')
    with Cons.prems(4) have "rt2 = rt1" "rts = pre' @ rt # post" by simp_all
    from Cons.IH [OF rest Cons.prems(2,3) this(2) Cons.prems(5)]
    have "\<not> record_fingerprints nc answers \<subseteq> set (wp_fingerprints p1) \<union> answer_set nc w n name pre'" .
    moreover have "set (wp_fingerprints p) \<union> answer_set nc w n name [rt1] \<subseteq> set (wp_fingerprints p1)"
    proof -
      from wildcard_lookup_conclusive [OF one] all obtain r where "pw_poll w n name rt1 = Probe_Result r"
          "case r of Inl e \<Rightarrow> wildcard_negative_response e \<and> p1 = p
           | Inr answers \<Rightarrow> \<not> wp_all_negative p1 \<and> set (wp_fingerprints p1) = set (wp_fingerprints p) \<union> record_fingerprints nc answers"
        by blast
      then show ?thesis by (cases r) (auto simp: answer_set_def)
    qed
    moreover have "answer_set nc w n name pre = answer_set nc w n name [rt1] \<union> answer_set nc w n name pre'"
      by (simp add: answer_set_def Cons \<open>rt2 = rt1\<close>)
    ultimately show ?thesis by blast
  qed
qed simp

lemma finish_wildcard_status [simp]:
  "wild_status (finish_wildcard_observation sha i ps) = wildcard_status_of ps"
  by (simp add: finish_wildcard_observation_def Let_def)

lemma wildcard_status_of_conclusive:
  assumes "wildcard_status_of ps \<noteq> Wild_Indeterminate"
  shows "\<exists>p q. ps = [p, q] \<and> wp_conclusive p \<and> \<not> wp_limited p \<and> wp_conclusive q \<and> \<not> wp_limited q"
proof -
  from assms have "length ps = 2" and all: "list_all (\<lambda>p. wp_conclusive p \<and> \<not> wp_limited p) ps"
    by (auto simp: wildcard_status_of_def split: if_splits)
  then obtain p q where "ps = [p, q]" by (auto simp: length_Suc_conv numeral_2_eq_2)
  with all show ?thesis by simp
qed

lemma probe_default_simps [simp]:
  "wp_fingerprints wildcard_probe_default = []" "wp_all_negative wildcard_probe_default"
  by (simp_all add: wildcard_probe_default_def)

definition probe_reading :: "'n name_crate \<Rightarrow> 'n probe_world \<Rightarrow> nat \<Rightarrow> string \<Rightarrow> record_type list \<Rightarrow> wildcard_probe \<Rightarrow> bool" where
  "probe_reading nc w n name types p \<longleftrightarrow>
     set (wp_fingerprints p) = answer_set nc w n name types \<and>
     (wp_all_negative p \<longrightarrow>
       (\<forall>rt \<in> set types. \<exists>e. pw_poll w n name rt = Probe_Result (Inl e) \<and> wildcard_negative_response e)) \<and>
     (\<forall>pre rt post answers. types = pre @ rt # post \<and> pw_poll w n name rt = Probe_Result (Inr answers) \<longrightarrow>
       \<not> record_fingerprints nc answers \<subseteq> answer_set nc w n name pre)"

lemma probe_types_reading:
  "probe_types nc w name n types wildcard_probe_default errors = (st, p, errors') \<Longrightarrow> wp_conclusive p \<Longrightarrow>
     \<not> wp_limited p \<Longrightarrow> probe_reading nc w n name types p"
  using probe_types_conclusive [of nc w name n types wildcard_probe_default errors st p errors']
    probe_types_growth [of nc w name n types wildcard_probe_default errors st p errors']
  by (auto simp: probe_reading_def)

lemma wildcard_probes_pair:
  assumes "wild_status (wdc_observation (wildcard_probes nc w sha types 0 [a, b] i [])) = s" "s \<noteq> Wild_Indeterminate"
  shows "\<exists>p q. s = wildcard_status_of [p, q] \<and> probe_reading nc w 0 a types p \<and> probe_reading nc w 1 b types q"
proof -
  have short: "wildcard_status_of [] = Wild_Indeterminate" "wildcard_status_of [p] = Wild_Indeterminate" for p
    by (simp_all add: wildcard_status_of_def)
  obtain st1 p e1 where one: "probe_types nc w a 0 types wildcard_probe_default (wild_errors i) = (st1, p, e1)"
    by (cases "probe_types nc w a 0 types wildcard_probe_default (wild_errors i)") auto
  obtain st2 q e2 where two: "probe_types nc w b 1 types wildcard_probe_default e1 = (st2, q, e2)"
    by (cases "probe_types nc w b 1 types wildcard_probe_default e1") auto
  have s: "s = wildcard_status_of [p, q]" using assms one two
    by (auto simp: Let_def push_def short split: if_splits option.splits)
  moreover have "wp_conclusive p \<and> \<not> wp_limited p \<and> wp_conclusive q \<and> \<not> wp_limited q"
    using wildcard_status_of_conclusive [of "[p, q]"] s assms(2) by auto
  ultimately show ?thesis
    using probe_types_reading [OF one] probe_types_reading [OF two] by blast
qed

lemma wildcard_conclusive:
  assumes "wild_status (wdc_observation (analyze_wildcard_dns_with_resolver nc w sha [a, b] v4 v6)) = s"
    and "s \<noteq> Wild_Indeterminate"
  shows "\<exists>p q. s = wildcard_status_of [p, q] \<and> probe_reading nc w 0 a (wildcard_query_types v4 v6) p \<and>
    probe_reading nc w 1 b (wildcard_query_types v4 v6) q"
  by (rule wildcard_probes_pair [OF assms(1) [unfolded analyze_wildcard_dns_with_resolver_def] assms(2)])

lemma wildcard_detected_lemma:
  assumes "wild_status (wdc_observation (analyze_wildcard_dns_with_resolver nc w sha [a, b] v4 v6)) = Wild_Detected"
  shows "answer_set nc w 0 a (wildcard_query_types v4 v6) = answer_set nc w 1 b (wildcard_query_types v4 v6) \<and>
    answer_set nc w 0 a (wildcard_query_types v4 v6) \<noteq> {}"
proof -
  obtain p q where pq: "Wild_Detected = wildcard_status_of [p, q]"
      "probe_reading nc w 0 a (wildcard_query_types v4 v6) p" "probe_reading nc w 1 b (wildcard_query_types v4 v6) q"
    using wildcard_conclusive [OF assms wildcard_dns_status.distinct(3)] by blast
  from pq(1) have "wp_fingerprints p \<noteq> []" "wp_fingerprints p = wp_fingerprints q"
    by (auto simp: wildcard_status_of_def split: if_splits)
  with pq(2,3) show ?thesis by (metis probe_reading_def set_empty)
qed

lemma wildcard_not_detected_lemma:
  assumes "wild_status (wdc_observation (analyze_wildcard_dns_with_resolver nc w sha [a, b] v4 v6)) = Wild_NotDetected"
    and "rt \<in> set (wildcard_query_types v4 v6)" "(n, name) \<in> {(0, a), (1, b)}"
  shows "\<exists>e. pw_poll w n name rt = Probe_Result (Inl e) \<and> wildcard_negative_response e"
proof -
  obtain p q where pq: "Wild_NotDetected = wildcard_status_of [p, q]"
      "probe_reading nc w 0 a (wildcard_query_types v4 v6) p" "probe_reading nc w 1 b (wildcard_query_types v4 v6) q"
    using wildcard_conclusive [OF assms(1) wildcard_dns_status.distinct(7)] by blast
  from pq(1) have "wp_all_negative p" "wp_all_negative q"
    by (auto simp: wildcard_status_of_def split: if_splits)
  with pq(2,3) assms(2,3) show ?thesis by (auto simp: probe_reading_def)
qed

section \<open>CNAME destinations\<close>

definition dangling_cname_observation_of :: "cname_hop \<Rightarrow> dangling_cname_observation" where
  \<comment> \<open>the function \<open>dangling_cname_observation\<close>\<close>
  "dangling_cname_observation_of hop =
     \<lparr>dg_source_alias = hop_from hop, dg_canonical_target = hop_to hop, dg_status = Dangling_Indeterminate,
      dg_evidence = [], dg_errors = [],
      dg_limitations =
        [''Only selected A/AAAA lookups were performed; ownership, claimability, and takeover feasibility were not tested.'',
         ''Destination addresses were not scanned or used as downstream targets.'']\<rparr>"

definition say_error :: "string \<Rightarrow> dangling_cname_observation \<Rightarrow> dangling_cname_observation" where
  "say_error message i = i\<lparr>dg_errors := push_dangling_message (dg_errors i) message\<rparr>"

definition say_evidence :: "string \<Rightarrow> dangling_cname_observation \<Rightarrow> dangling_cname_observation" where
  "say_evidence message i = i\<lparr>dg_evidence := push_dangling_message (dg_evidence i) message\<rparr>"

definition say_limitation :: "string \<Rightarrow> dangling_cname_observation \<Rightarrow> dangling_cname_observation" where
  "say_limitation message i = i\<lparr>dg_limitations := push_dangling_message (dg_limitations i) message\<rparr>"

definition mark_dangling_resolver_failure ::
    "dangling_cname_observation list \<Rightarrow> string \<Rightarrow> dangling_cname_observation list" where
  "mark_dangling_resolver_failure observations message = map (say_error message) observations"

fun has_address :: "record_type \<Rightarrow> 'n rr list \<Rightarrow> bool" where
  "has_address Rt_A answers = list_ex (\<lambda>r. rdata_type (rr_data r) = Rt_A) answers"
| "has_address Rt_Aaaa answers = list_ex (\<lambda>r. rdata_type (rr_data r) = Rt_Aaaa) answers"
| "has_address _ answers = False"

fun negative_description :: "dangling_query_outcome \<Rightarrow> string" where
  "negative_description Query_NxDomain = ''conclusive authenticated NXDOMAIN''"
| "negative_description Query_NoAddress = ''authenticated NOERROR/NODATA with SOA/NSEC/NSEC3 evidence''"
| "negative_description _ = ''an indeterminate negative answer''"

definition dangling_answer ::
    "record_type \<Rightarrow> 'n net_error + 'n rr list \<Rightarrow> dangling_cname_observation \<Rightarrow>
     dangling_query_outcome \<times> dangling_cname_observation" where
  \<comment> \<open>the closing \<open>match\<close> of \<open>dangling_cname_lookup\<close>\<close>
  "dangling_answer rt result i =
     (let ty = show_record_type rt
      in case result of
           Inr answers \<Rightarrow>
             if has_address rt answers then (Query_Address, say_evidence (ty @ '' returned an address answer.'') i)
             else (Query_Indeterminate,
               say_error (ty @ '' returned no selected address or authenticated negative evidence.'') i)
         | Inl error \<Rightarrow>
             (case dangling_negative_outcome error of
                Some outcome \<Rightarrow> (outcome, say_evidence (ty @ '' returned '' @ negative_description outcome @ ''.'') i)
              | None \<Rightarrow>
                  (Query_Indeterminate, say_error (ty @ '' lookup '' @ wildcard_error_summary error @ ''.'') i)))"

definition dangling_cname_lookup ::
    "'n probe_world \<Rightarrow> nat \<Rightarrow> string \<Rightarrow> record_type \<Rightarrow> dangling_cname_observation \<Rightarrow>
     (dangling_check_state + dangling_query_outcome) \<times> dangling_cname_observation" where
  \<comment> \<open>for observation \<open>n\<close>\<close>
  "dangling_cname_lookup w n target rt i =
     (if int_cancelled (pw_before w n rt) then (Inl DanglingCheck_Cancelled, i)
      else if int_expired (pw_before w n rt) then (Inl DanglingCheck_TimedOut, i)
      else (case pw_poll w n target rt of
          Probe_Cancelled \<Rightarrow> (Inl DanglingCheck_Cancelled, i)
        | Probe_Deadline \<Rightarrow> (Inl DanglingCheck_TimedOut, i)
        | Probe_RequestTimeout \<Rightarrow>
            (Inr Query_Indeterminate, say_error (show_record_type rt @ '' lookup reached the request timeout.'') i)
        | Probe_Result result \<Rightarrow> (case dangling_answer rt result i of (outcome, i) \<Rightarrow> (Inr outcome, i))))"

fun dangling_queries ::
    "'n probe_world \<Rightarrow> nat \<Rightarrow> string \<Rightarrow> record_type list \<Rightarrow> dangling_query_outcome list \<Rightarrow> dangling_cname_observation \<Rightarrow>
     (dangling_check_state + dangling_query_outcome list) \<times> dangling_cname_observation" where
  \<comment> \<open>the inner loop, over the query types\<close>
  "dangling_queries w n target [] outcomes i = (Inr outcomes, i)"
| "dangling_queries w n target (rt # rts) outcomes i =
     (case dangling_cname_lookup w n target rt i of
        (Inl state, i) \<Rightarrow> (Inl state, i)
      | (Inr outcome, i) \<Rightarrow> dangling_queries w n target rts (push outcomes outcome) i)"

fun stopped_message :: "dangling_check_state \<Rightarrow> string" where
  "stopped_message DanglingCheck_Cancelled = ''CNAME destination checking was cancelled.''"
| "stopped_message DanglingCheck_TimedOut = ''The caller deadline expired during CNAME destination checking.''"
| "stopped_message DanglingCheck_Completed = ''CNAME destination checking stopped before completion.''"

definition copy_classification ::
    "dangling_cname_observation \<Rightarrow> dangling_cname_observation \<Rightarrow> dangling_cname_observation" where
  "copy_classification classified i =
     i\<lparr>dg_status := dg_status classified, dg_evidence := dg_evidence classified, dg_errors := dg_errors classified,
       dg_limitations := dg_limitations classified\<rparr>"

fun dangling_loop ::
    "'n probe_world \<Rightarrow> record_type list \<Rightarrow> nat list \<Rightarrow> (string \<times> nat) list \<Rightarrow> dangling_cname_observation list \<Rightarrow>
     dangling_cname_check" where
  \<comment> \<open>the loop over the indices, with \<open>classified_targets\<close> as its insertions\<close>
  "dangling_loop w types [] classified_targets observations =
     \<lparr>dcc_observations = observations, dcc_state = DanglingCheck_Completed\<rparr>"
| "dangling_loop w types (n # ns) classified_targets observations =
     (let target = dg_canonical_target (observations ! n);
          normalized_target = to_ascii_lowercase target
      in case map_of classified_targets normalized_target of
           Some k \<Rightarrow>
             dangling_loop w types ns classified_targets
               (observations[n := copy_classification (observations ! k) (observations ! n)])
         | None \<Rightarrow>
             if MAX_CNAME_CHAIN_HOPS \<le> length classified_targets then
               dangling_loop w types ns classified_targets
                 (observations[n := say_limitation (''CNAME destination checking is limited to '' @
                   show_nat MAX_CNAME_CHAIN_HOPS @ '' unique targets.'') (observations ! n)])
             else (case dangling_queries w n target types [] (observations ! n) of
                 (Inl state, i) \<Rightarrow>
                   (let observations = observations[n := i]
                    in \<lparr>dcc_observations = take n observations @
                          map (say_limitation (stopped_message state)) (drop n observations),
                        dcc_state = state\<rparr>)
               | (Inr outcomes, i) \<Rightarrow>
                   dangling_loop w types ns ((normalized_target, n) # classified_targets)
                     (observations[n := i\<lparr>dg_status := classify_dangling_outcomes outcomes\<rparr>])))"

definition analyze_dangling_cnames_with_resolver ::
    "'n probe_world \<Rightarrow> dangling_cname_observation list \<Rightarrow> record_type list \<Rightarrow> dangling_cname_check" where
  "analyze_dangling_cnames_with_resolver w observations query_types =
     dangling_loop w query_types [0..<length observations] [] observations"

definition dangling_query_types :: "bool \<Rightarrow> bool \<Rightarrow> record_type list" where
  \<comment> \<open>when not both filters are set\<close>
  "dangling_query_types ipv4_only ipv6_only =
     (if ipv4_only then [Rt_A] else if ipv6_only then [Rt_Aaaa] else [Rt_A, Rt_Aaaa])"

definition analyze_dangling_cnames ::
    "resolver_setup \<Rightarrow> 'n probe_world \<Rightarrow> cname_hop list \<Rightarrow> bool \<Rightarrow> bool \<Rightarrow> dangling_cname_check" where
  "analyze_dangling_cnames setup w cname_chain ipv4_only ipv6_only =
     (let observations = map dangling_cname_observation_of (take MAX_CNAME_CHAIN_HOPS cname_chain);
          completed = (\<lambda>is. \<lparr>dcc_observations = is, dcc_state = DanglingCheck_Completed\<rparr>)
      in if observations = [] then completed observations
         else if ipv4_only \<and> ipv6_only then
           completed (map (say_limitation ''No address record type was selected.'') observations)
         else
           (case setup of
              Setup_NotInitialised \<Rightarrow> completed (mark_dangling_resolver_failure observations
                ''Could not initialize the CNAME destination resolver.'')
            | Setup_NotBuilt \<Rightarrow> completed (mark_dangling_resolver_failure observations
                ''Could not build the CNAME destination resolver.'')
            | Setup_Ready \<Rightarrow>
                analyze_dangling_cnames_with_resolver w observations (dangling_query_types ipv4_only ipv6_only)))"

section \<open>What a destination status rests on\<close>

definition negative_answer :: "'n probe_world \<Rightarrow> nat \<Rightarrow> string \<Rightarrow> record_type \<Rightarrow> dangling_query_outcome \<Rightarrow> bool" where
  "negative_answer w n target rt q \<longleftrightarrow>
     (\<exists>e. pw_poll w n target rt = Probe_Result (Inl e) \<and> dangling_negative_outcome e = Some q)"

definition address_answer :: "'n probe_world \<Rightarrow> nat \<Rightarrow> string \<Rightarrow> record_type \<Rightarrow> bool" where
  "address_answer w n target rt \<longleftrightarrow>
     (\<exists>answers. pw_poll w n target rt = Probe_Result (Inr answers) \<and> has_address rt answers)"

fun outcome_backed :: "'n probe_world \<Rightarrow> nat \<Rightarrow> string \<Rightarrow> record_type \<Rightarrow> dangling_query_outcome \<Rightarrow> bool" where
  "outcome_backed w n target rt Query_Address \<longleftrightarrow> address_answer w n target rt"
| "outcome_backed w n target rt Query_NxDomain \<longleftrightarrow> negative_answer w n target rt Query_NxDomain"
| "outcome_backed w n target rt Query_NoAddress \<longleftrightarrow> negative_answer w n target rt Query_NoAddress"
| "outcome_backed w n target rt Query_Indeterminate \<longleftrightarrow> True"

fun status_backed :: "'n probe_world \<Rightarrow> record_type list \<Rightarrow> nat \<Rightarrow> string \<Rightarrow> dangling_cname_status \<Rightarrow> bool" where
  "status_backed w types n target Dangling_Resolved \<longleftrightarrow> (\<exists>rt \<in> set types. address_answer w n target rt)"
| "status_backed w types n target Dangling_NxDomain \<longleftrightarrow> (\<forall>rt \<in> set types. negative_answer w n target rt Query_NxDomain)"
| "status_backed w types n target Dangling_NoAddress \<longleftrightarrow> (\<forall>rt \<in> set types. negative_answer w n target rt Query_NoAddress)"
| "status_backed w types n target Dangling_Indeterminate \<longleftrightarrow> True"

lemmas say_defs = say_error_def say_evidence_def say_limitation_def copy_classification_def

lemma say_target [simp]:
  "dg_canonical_target (say_error m i) = dg_canonical_target i" "dg_status (say_error m i) = dg_status i"
  "dg_canonical_target (say_evidence m i) = dg_canonical_target i" "dg_status (say_evidence m i) = dg_status i"
  "dg_canonical_target (say_limitation m i) = dg_canonical_target i" "dg_status (say_limitation m i) = dg_status i"
  "dg_canonical_target (copy_classification c i) = dg_canonical_target i" "dg_status (copy_classification c i) = dg_status c"
  by (simp_all add: say_defs)

lemma negative_backed:
  assumes "pw_poll w n target rt = Probe_Result (Inl e)" "dangling_negative_outcome e = Some q"
  shows "outcome_backed w n target rt q"
  using negative_outcome_sound [OF assms(2)] assms by (auto simp: negative_answer_def)

lemma dangling_lookup_step:
  assumes "dangling_cname_lookup w n target rt i = (result, i')"
  shows "dg_canonical_target i' = dg_canonical_target i \<and> dg_status i' = dg_status i \<and>
    (\<forall>q. result = Inr q \<longrightarrow> outcome_backed w n target rt q)"
  using assms
  by (auto simp: dangling_cname_lookup_def dangling_answer_def Let_def negative_answer_def address_answer_def
      split: if_splits probe_poll.splits sum.splits option.splits intro: negative_backed)

lemma dangling_queries_run:
  "dangling_queries w n target types outcomes i = (result, i') \<Longrightarrow>
     dg_canonical_target i' = dg_canonical_target i \<and> dg_status i' = dg_status i \<and>
     (\<forall>qs. result = Inr qs \<longrightarrow> (\<exists>os. qs = outcomes @ os \<and> list_all2 (outcome_backed w n target) types os))"
proof (induction types arbitrary: outcomes i)
  case (Cons rt rts)
  obtain r j where one: "dangling_cname_lookup w n target rt i = (r, j)" by (cases "dangling_cname_lookup w n target rt i")
  note step = dangling_lookup_step [OF one]
  show ?case
  proof (cases r)
    case (Inl s)
    with Cons.prems one step show ?thesis by auto
  next
    case (Inr q)
    with Cons.prems one have "dangling_queries w n target rts (outcomes @ [q]) j = (result, i')" by (simp add: push_def)
    from Cons.IH [OF this] step Inr show ?thesis
      by (fastforce intro: list_all2_Cons [THEN iffD2])
  qed
qed auto

lemma classified_backed:
  assumes "list_all2 (outcome_backed w n target) types os"
  shows "status_backed w types n target (classify_dangling_outcomes os)"
proof -
  have all: "\<forall>rt \<in> set types. outcome_backed w n target rt q" if "list_all (\<lambda>p. p = q) os" for q
    using assms that by (induction rule: list_all2_induct) auto
  have "\<exists>rt \<in> set types. address_answer w n target rt" if "Query_Address \<in> set os"
    using assms that by (induction rule: list_all2_induct) auto
  with all [of Query_NxDomain] all [of Query_NoAddress] show ?thesis
    by (auto simp: classify_dangling_outcomes_def)
qed

definition statuses_backed ::
    "'n probe_world \<Rightarrow> record_type list \<Rightarrow> string list \<Rightarrow> dangling_cname_observation list \<Rightarrow> bool" where
  "statuses_backed w types ts observations \<longleftrightarrow>
     map dg_canonical_target observations = ts \<and>
     (\<forall>n < length ts. \<exists>k < length ts. to_ascii_lowercase (ts ! k) = to_ascii_lowercase (ts ! n) \<and>
        status_backed w types k (ts ! k) (dg_status (observations ! n)))"

definition targets_recorded :: "string list \<Rightarrow> (string \<times> nat) list \<Rightarrow> bool" where
  "targets_recorded ts cs \<longleftrightarrow> (\<forall>(t, k) \<in> set cs. k < length ts \<and> to_ascii_lowercase (ts ! k) = t)"

lemma statuses_backed_update:
  assumes "statuses_backed w types ts is" "n < length ts" "dg_canonical_target i = ts ! n"
    and "k < length ts" "to_ascii_lowercase (ts ! k) = to_ascii_lowercase (ts ! n)" "status_backed w types k (ts ! k) (dg_status i)"
  shows "statuses_backed w types ts (is[n := i])"
proof -
  have len: "length is = length ts" using assms(1) by (auto simp: statuses_backed_def)
  have "map dg_canonical_target (is[n := i]) = ts"
    using assms(1,2,3) by (simp add: statuses_backed_def map_update)
  moreover have "\<exists>k < length ts. to_ascii_lowercase (ts ! k) = to_ascii_lowercase (ts ! m) \<and>
      status_backed w types k (ts ! k) (dg_status (is[n := i] ! m))" if "m < length ts" for m
    using assms that len by (cases "m = n") (auto simp: statuses_backed_def)
  ultimately show ?thesis by (auto simp: statuses_backed_def)
qed

lemma statuses_backed_stop:
  assumes ok: "statuses_backed w types ts is"
  shows "statuses_backed w types ts (take n is @ map (say_limitation m) (drop n is))"
proof -
  let ?js = "take n is @ map (say_limitation m) (drop n is)"
  have "map dg_canonical_target ?js = map dg_canonical_target (take n is @ drop n is)"
    "map dg_status ?js = map dg_status (take n is @ drop n is)"
    by (simp_all only: map_append map_map o_def say_target)
  then have eq: "map dg_canonical_target ?js = ts" "map dg_status ?js = map dg_status is"
    using ok by (simp_all only: append_take_drop_id statuses_backed_def)
  then have "length ?js = length ts" "length is = length ts" by (metis length_map)+
  then have "dg_status (?js ! k) = dg_status (is ! k)" if "k < length ts" for k
    using that eq(2) by (metis nth_map)
  with ok eq(1) show ?thesis by (auto simp: statuses_backed_def)
qed

lemma statuses_backed_nth:
  assumes "statuses_backed w types ts is" "n < length ts"
  shows "dg_canonical_target (is ! n) = ts ! n"
    and "\<exists>k < length ts. to_ascii_lowercase (ts ! k) = to_ascii_lowercase (ts ! n) \<and>
      status_backed w types k (ts ! k) (dg_status (is ! n))"
  using assms by (auto simp: statuses_backed_def)

lemma dangling_loop_backed:
  "statuses_backed w types ts is \<Longrightarrow> targets_recorded ts cs \<Longrightarrow> \<forall>n \<in> set ns. n < length ts \<Longrightarrow>
     statuses_backed w types ts (dcc_observations (dangling_loop w types ns cs is))"
proof (induction ns arbitrary: cs "is")
  case (Cons n ns)
  have n: "n < length ts" and ns: "\<forall>n \<in> set ns. n < length ts" using Cons.prems(3) by simp_all
  note at_n = statuses_backed_nth [OF Cons.prems(1) n]
  let ?t = "to_ascii_lowercase (ts ! n)"
  show ?case
  proof (cases "map_of cs ?t")
    case (Some k)
    then have k: "k < length ts" "to_ascii_lowercase (ts ! k) = ?t"
      using Cons.prems(2) by (auto simp: targets_recorded_def dest!: map_of_SomeD)
    from statuses_backed_nth(2) [OF Cons.prems(1) k(1)] k(2)
    obtain j where j: "j < length ts" "to_ascii_lowercase (ts ! j) = ?t" "status_backed w types j (ts ! j) (dg_status (is ! k))"
      by auto
    have "statuses_backed w types ts (is[n := copy_classification (is ! k) (is ! n)])"
      by (rule statuses_backed_update [OF Cons.prems(1) n _ j(1,2)]) (simp_all add: at_n j(3))
    from Cons.IH [OF this Cons.prems(2) ns] Some show ?thesis by (simp add: at_n Let_def)
  next
    case None
    show ?thesis
    proof (cases "MAX_CNAME_CHAIN_HOPS \<le> length cs")
      case True
      have "statuses_backed w types ts (is[n := say_limitation m (is ! n)])" for m
        using at_n(2) by (elim exE conjE) (rule statuses_backed_update [OF Cons.prems(1) n], simp_all add: at_n(1))
      from Cons.IH [OF this Cons.prems(2) ns] None True show ?thesis by (simp add: at_n Let_def)
    next
      case False
      obtain result i where run: "dangling_queries w n (ts ! n) types [] (is ! n) = (result, i)"
        by (cases "dangling_queries w n (ts ! n) types [] (is ! n)")
      note queries = dangling_queries_run [OF run]
      show ?thesis
      proof (cases result)
        case (Inl state)
        have "statuses_backed w types ts (is[n := i])"
          using at_n(2) by (elim exE conjE) (rule statuses_backed_update [OF Cons.prems(1) n], simp_all add: at_n(1) queries)
        note statuses_backed_stop [OF this, where n = n]
        with None False run Inl show ?thesis by (simp add: at_n Let_def)
      next
        case (Inr outcomes)
        with queries have "status_backed w types n (ts ! n) (classify_dangling_outcomes outcomes)"
          using classified_backed by auto
        then have "statuses_backed w types ts (is[n := i\<lparr>dg_status := classify_dangling_outcomes outcomes\<rparr>])"
          by (intro statuses_backed_update [OF Cons.prems(1) n _ n]) (simp_all add: at_n(1) queries)
        moreover have "targets_recorded ts ((?t, n) # cs)" using Cons.prems(2) n by (simp add: targets_recorded_def)
        ultimately show ?thesis using Cons.IH [OF _ _ ns] None False run Inr by (simp add: at_n Let_def)
      qed
    qed
  qed
qed simp

lemma statuses_backed_fresh:
  "\<forall>i \<in> set is. dg_status i = Dangling_Indeterminate \<Longrightarrow> statuses_backed w types (map dg_canonical_target is) is"
  by (auto simp: statuses_backed_def)

lemma analyze_dangling_backed:
  "statuses_backed w (dangling_query_types v4 v6) (map hop_to (take MAX_CNAME_CHAIN_HOPS hops))
     (dcc_observations (analyze_dangling_cnames setup w hops v4 v6))"
proof -
  let ?os = "map dangling_cname_observation_of (take MAX_CNAME_CHAIN_HOPS hops)"
  let ?ts = "map hop_to (take MAX_CNAME_CHAIN_HOPS hops)"
  have ts: "map dg_canonical_target ?os = ?ts" by (simp add: dangling_cname_observation_of_def)
  have fresh: "statuses_backed w types ?ts (map f ?os)"
    if "\<And>i. dg_status (f i) = dg_status i" "\<And>i. dg_canonical_target (f i) = dg_canonical_target i" for f types
    using statuses_backed_fresh [of "map f ?os" w types] that by (simp add: dangling_cname_observation_of_def o_def)
  have "statuses_backed w types ?ts (dcc_observations (dangling_loop w types [0..<length ?os] [] ?os))" for types
    using dangling_loop_backed [OF fresh [of id, simplified]] by (simp add: targets_recorded_def)
  then show ?thesis
    using fresh [of id] fresh [of "say_limitation _"] fresh [of "say_error _"]
    by (auto simp: analyze_dangling_cnames_def analyze_dangling_cnames_with_resolver_def mark_dangling_resolver_failure_def
        Let_def split: resolver_setup.splits)
qed


section \<open>Properties\<close>

text \<open>
  C23: A wildcard status of detected is reported only when the two random children were answered identically: the normalised
  answers of all selected queries of the first probe and those of the second are one and the same non-empty set (a refinement
  of the documented contract, to which the bounded fingerprint sets, the early stops and the error cases are no exception).
\<close>

theorem wildcard_detected_identical:
  assumes "wild_status (wdc_observation (analyze_wildcard_dns_with_resolver nc w sha [a, b] v4 v6)) = Wild_Detected"
  shows "\<exists>answers. answers \<noteq> {} \<and> answer_set nc w 0 a (wildcard_query_types v4 v6) = answers \<and>
    answer_set nc w 1 b (wildcard_query_types v4 v6) = answers"
  using wildcard_detected_lemma [OF assms] by metis

definition sample_names :: "string name_crate" where
  "sample_names = \<lparr>nc_from_ascii = Some, nc_text = (\<lambda>n. n), nc_zone_of = (=), nc_lowercase = to_ascii_lowercase,
     nc_error_text = (\<lambda>_. ''error'')\<rparr>"

definition sample_negative :: "string net_error" where
  "sample_negative = Net_NoRecordsFound Rcode_NXDomain (Some [\<lparr>rr_name = ''test'', rr_data = RData_Soa 1, rr_proof = Proof_Secure\<rparr>])"

definition quiet_world :: "(nat \<Rightarrow> string \<Rightarrow> record_type \<Rightarrow> string probe_poll) \<Rightarrow> string probe_world" where
  "quiet_world poll = \<lparr>pw_start = (\<lambda>_. \<lparr>int_cancelled = False, int_expired = False\<rparr>),
     pw_before = (\<lambda>_ _. \<lparr>int_cancelled = False, int_expired = False\<rparr>), pw_poll = poll\<rparr>"

definition wild_world :: "string probe_world" where
  "wild_world = quiet_world (\<lambda>_ name rt.
     if rt = Rt_A then Probe_Result (Inr [\<lparr>rr_name = name, rr_data = RData_A 7, rr_proof = Proof_Insecure\<rparr>])
     else Probe_Result (Inl sample_negative))"

lemma wildcard_detected_identical_witness:
  "\<exists>answers. answers \<noteq> {} \<and> answer_set sample_names wild_world 0 ''x.test.'' (wildcard_query_types False False) = answers \<and>
    answer_set sample_names wild_world 1 ''y.test.'' (wildcard_query_types False False) = answers"
proof -
  have "wild_status (wdc_observation (analyze_wildcard_dns_with_resolver sample_names wild_world (\<lambda>s. s)
      [''x.test.'', ''y.test.''] False False)) = Wild_Detected" by code_simp
  from wildcard_detected_identical [OF this] show ?thesis .
qed

text \<open>
  C25: A wildcard status of not detected is reported only on evidence: every selected query of both random children was
  answered by an authenticated negative response.
\<close>

theorem wildcard_not_detected_authenticated:
  assumes "wild_status (wdc_observation (analyze_wildcard_dns_with_resolver nc w sha [a, b] v4 v6)) = Wild_NotDetected"
    and "rt \<in> set (wildcard_query_types v4 v6)" "(n, name) \<in> {(0, a), (1, b)}"
  shows "\<exists>e. pw_poll w n name rt = Probe_Result (Inl e) \<and> wildcard_negative_response e"
  by (rule wildcard_not_detected_lemma [OF assms])

definition empty_world :: "string probe_world" where
  "empty_world = quiet_world (\<lambda>_ _ _. Probe_Result (Inl sample_negative))"

lemma wildcard_not_detected_authenticated_witness:
  "\<exists>e. pw_poll empty_world 1 ''y.test.'' Rt_A = Probe_Result (Inl e) \<and> wildcard_negative_response e"
proof -
  have "wild_status (wdc_observation (analyze_wildcard_dns_with_resolver sample_names empty_world (\<lambda>s. s)
      [''x.test.'', ''y.test.''] False False)) = Wild_NotDetected" by code_simp
  from wildcard_not_detected_authenticated [OF this, of Rt_A 1 "''y.test.''"] show ?thesis
    by (simp add: wildcard_query_types_def)
qed

definition alias_world :: "string probe_world" where
  "alias_world = quiet_world (\<lambda>_ name rt.
     let cname = \<lparr>rr_name = name, rr_data = RData_Cname ''edge.test.'', rr_proof = Proof_Insecure\<rparr>;
         a = \<lparr>rr_name = ''edge.test.'', rr_data = RData_A 7, rr_proof = Proof_Insecure\<rparr>
     in Probe_Result (Inr (if rt = Rt_A then [cname, a] else [cname])))"

text \<open>
  C27: An alias hides a wildcard: whatever else the world answers, when the CNAME query of a random child returns only records
  that the address queries of that child had already returned, as it does when the A answer holds the alias it followed, the
  repeated records count as no supported answer and the status is indeterminate. In the sample both children are answered by
  the same non-empty set, which the documented rule detects.
\<close>

theorem wildcard_alias_missed:
  assumes "(n, name) \<in> {(0, a), (1, b)}" "pw_poll w n name Rt_Cname = Probe_Result (Inr aliases)"
    and "record_fingerprints nc aliases \<subseteq> answer_set nc w n name (butlast (wildcard_query_types v4 v6))"
  shows "wild_status (wdc_observation (analyze_wildcard_dns_with_resolver nc w sha [a, b] v4 v6)) = Wild_Indeterminate"
proof (rule ccontr)
  let ?types = "wildcard_query_types v4 v6"
  assume "wild_status (wdc_observation (analyze_wildcard_dns_with_resolver nc w sha [a, b] v4 v6)) \<noteq> Wild_Indeterminate"
  then obtain p q where "probe_reading nc w 0 a ?types p" "probe_reading nc w 1 b ?types q"
    using wildcard_conclusive [OF refl] by metis
  then obtain r where "probe_reading nc w n name ?types r" using assms(1) by auto
  moreover have "?types = butlast ?types @ Rt_Cname # []" by (simp add: wildcard_query_types_def)
  ultimately show False using assms(2,3) unfolding probe_reading_def by blast
qed

lemma wildcard_alias_missed_witness:
  "\<exists>answers. answers \<noteq> {} \<and> answer_set sample_names alias_world 0 ''x.test.'' (wildcard_query_types True False) = answers \<and>
    answer_set sample_names alias_world 1 ''y.test.'' (wildcard_query_types True False) = answers \<and>
    wild_status (wdc_observation (analyze_wildcard_dns_with_resolver sample_names alias_world (\<lambda>s. s)
      [''x.test.'', ''y.test.''] True False)) = Wild_Indeterminate"
proof -
  let ?cname = "''CNAME:'' @ to_ascii_lowercase (name_text sample_names ''edge.test.'')"
  have answer: "pw_poll alias_world 0 ''x.test.'' Rt_Cname =
      Probe_Result (Inr [\<lparr>rr_name = ''x.test.'', rr_data = RData_Cname ''edge.test.'', rr_proof = Proof_Insecure\<rparr>])"
    by (simp add: alias_world_def quiet_world_def Let_def)
  have "wild_status (wdc_observation (analyze_wildcard_dns_with_resolver sample_names alias_world (\<lambda>s. s)
      [''x.test.'', ''y.test.''] True False)) = Wild_Indeterminate"
    by (rule wildcard_alias_missed [OF _ answer])
      (auto simp: answer_set_def wildcard_query_types_def alias_world_def quiet_world_def Let_def wildcard_fingerprint_def)
  moreover have "answer_set sample_names alias_world n name (wildcard_query_types True False) = {?cname, ''A:'' @ show_ipv4 7}" for n name
    by (auto simp: answer_set_def wildcard_query_types_def alias_world_def quiet_world_def Let_def wildcard_fingerprint_def)
  ultimately show ?thesis by simp
qed

text \<open>
  C24: An alias destination is reported as nonexistent only on evidence: for the destination of that edge, or of one whose
  destination is the same up to letter case, every selected address query was answered by an authenticated NXDOMAIN.
\<close>

theorem dangling_nxdomain_authenticated:
  assumes "check = analyze_dangling_cnames setup w hops v4 v6" "n < length (dcc_observations check)"
    and "dg_status (dcc_observations check ! n) = Dangling_NxDomain"
  shows "\<exists>k < length hops. to_ascii_lowercase (hop_to (hops ! k)) = to_ascii_lowercase (dg_canonical_target (dcc_observations check ! n)) \<and>
    (\<forall>rt \<in> set (dangling_query_types v4 v6).
       \<exists>e. pw_poll w k (hop_to (hops ! k)) rt = Probe_Result (Inl e) \<and> dangling_negative_outcome e = Some Query_NxDomain)"
proof -
  let ?ts = "map hop_to (take MAX_CNAME_CHAIN_HOPS hops)"
  have ok: "statuses_backed w (dangling_query_types v4 v6) ?ts (dcc_observations check)"
    using analyze_dangling_backed assms(1) by simp
  then have n: "n < length ?ts" using assms(2) by (metis length_map statuses_backed_def)
  from statuses_backed_nth [OF ok n] assms(3) obtain k where "k < length ?ts"
      "to_ascii_lowercase (?ts ! k) = to_ascii_lowercase (dg_canonical_target (dcc_observations check ! n))"
      "\<forall>rt \<in> set (dangling_query_types v4 v6). negative_answer w k (?ts ! k) rt Query_NxDomain"
    by auto
  then show ?thesis by (intro exI [of _ k]) (simp add: negative_answer_def)
qed

definition sample_hops :: "cname_hop list" where
  "sample_hops = [CnameHop ''a.test'' ''Gone.test'', CnameHop ''b.test'' ''gone.test'']"

lemma dangling_nxdomain_authenticated_witness:
  "\<exists>k < length sample_hops. to_ascii_lowercase (hop_to (sample_hops ! k)) = ''gone.test'' \<and>
    (\<forall>rt \<in> set (dangling_query_types True False).
       \<exists>e. pw_poll empty_world k (hop_to (sample_hops ! k)) rt = Probe_Result (Inl e) \<and>
         dangling_negative_outcome e = Some Query_NxDomain)"
proof -
  let ?check = "analyze_dangling_cnames Setup_Ready empty_world sample_hops True False"
  have run: "1 < length (dcc_observations ?check) \<and> dg_status (dcc_observations ?check ! 1) = Dangling_NxDomain \<and>
      to_ascii_lowercase (dg_canonical_target (dcc_observations ?check ! 1)) = ''gone.test''" by code_simp
  from dangling_nxdomain_authenticated [OF refl, of 1 Setup_Ready empty_world sample_hops True False] run
  show ?thesis by simp
qed

end
