(* ===== verification/Render_Text.thy ===== *)
theory Render_Text
  imports Report
begin

text \<open>
  The text helpers of \<^verbatim>\<open>crates/surface-report/src/lib.rs\<close> and the projections of \<^verbatim>\<open>projection.rs\<close> that its renderers share.
  Two readings of rendered text are given for the properties of the renderers: the control bytes it has, and the
  tags an HTML tokenizer finds in it.
\<close>

section \<open>Text\<close>

definition SSH_DISPLAY_CHARS :: nat where
  "SSH_DISPLAY_CHARS = 255"

definition bounded_ssh_value :: "string option \<Rightarrow> string" where
  "bounded_ssh_value val =
     concat (take SSH_DISPLAY_CHARS (chars (case val of Some v \<Rightarrow> v | None \<Rightarrow> ''unknown'')))"

definition clean_terminal :: "string \<Rightarrow> string" where
  "clean_terminal val = concat (map (\<lambda>c. if is_control c then '' '' else c) (chars val))"

definition replace_char :: "char \<Rightarrow> string \<Rightarrow> string \<Rightarrow> string" where
  \<comment> \<open>\<open>str::replace\<close> of an ASCII character\<close>
  "replace_char c new s = concat (map (\<lambda>d. if d = c then new else [d]) s)"

definition escape_html :: "string \<Rightarrow> string" where
  "escape_html val =
     replace_char (CHR 39) ''&#39;'' (replace_char (CHR 34) ''&quot;'' (replace_char (CHR ''>'') ''&gt;''
       (replace_char (CHR ''<'') ''&lt;'' (replace_char (CHR ''&'') ''&amp;''
         (concat (filter (\<lambda>c. \<not> is_control c) (chars val)))))))"

definition newline :: string where "newline = [CHR 10]"

text \<open>The characters of the templates outside of ASCII, in UTF-8.\<close>

definition em_dash :: string where "em_dash = map char_of [226, 128, 148 :: nat]"
definition right_arrow :: string where "right_arrow = map char_of [226, 134, 146 :: nat]"
definition middle_dot :: string where "middle_dot = map char_of [194, 183 :: nat]"

fun bool_str :: "bool \<Rightarrow> string" where
  "bool_str True = ''true''"
| "bool_str False = ''false''"

definition unknown_or :: "string \<Rightarrow> ('a \<Rightarrow> string) \<Rightarrow> 'a option \<Rightarrow> string" where
  \<comment> \<open>\<open>map_or_else\<close> with a fixed text\<close>
  "unknown_or text f val = (case val of Some v \<Rightarrow> f v | None \<Rightarrow> text)"

definition option_bool :: "bool option \<Rightarrow> string" where
  "option_bool val = (case val of Some b \<Rightarrow> if b then ''present'' else ''not found'' | None \<Rightarrow> ''unknown'')"

fun hsts_label :: "hsts_state \<Rightarrow> string" where
  "hsts_label Hsts_Present = ''present''"
| "hsts_label Hsts_Missing = ''missing''"
| "hsts_label Hsts_NotApplicable = ''not applicable''"

definition option_yes_no :: "bool option \<Rightarrow> string" where
  "option_yes_no val = (case val of Some b \<Rightarrow> if b then ''yes'' else ''no'' | None \<Rightarrow> ''unknown'')"

fun severity_class :: "severity \<Rightarrow> string" where
  "severity_class Sev_Info = ''info''"
| "severity_class Sev_Low = ''low''"
| "severity_class Sev_Medium = ''medium''"
| "severity_class Sev_High = ''high''"
| "severity_class Sev_Critical = ''critical''"

text \<open>The derived \<open>Debug\<close> texts.\<close>

fun status_debug :: "scan_status \<Rightarrow> string" where
  "status_debug NotStarted = ''NotStarted''"
| "status_debug Completed = ''Completed''"
| "status_debug Partial = ''Partial''"
| "status_debug Interrupted = ''Interrupted''"
| "status_debug Failed = ''Failed''"

fun severity_debug :: "severity \<Rightarrow> string" where
  "severity_debug Sev_Info = ''Info''"
| "severity_debug Sev_Low = ''Low''"
| "severity_debug Sev_Medium = ''Medium''"
| "severity_debug Sev_High = ''High''"
| "severity_debug Sev_Critical = ''Critical''"

fun score_class_debug :: "score_classification \<Rightarrow> string" where
  "score_class_debug Score_Favorable = ''Favorable''"
| "score_class_debug Score_Review = ''Review''"
| "score_class_debug Score_Elevated = ''Elevated''"
| "score_class_debug Score_Critical = ''Critical''"

fun category_debug :: "finding_category \<Rightarrow> string" where
  "category_debug Cat_Network = ''Network''"
| "category_debug Cat_Http = ''Http''"
| "category_debug Cat_Tls = ''Tls''"
| "category_debug Cat_Mail = ''Mail''"

fun finding_confidence_debug :: "finding_confidence \<Rightarrow> string" where
  "finding_confidence_debug FConf_Low = ''Low''"
| "finding_confidence_debug FConf_Medium = ''Medium''"
| "finding_confidence_debug FConf_High = ''High''"

fun confidence_debug :: "detection_confidence \<Rightarrow> string" where
  "confidence_debug Conf_Low = ''Low''"
| "confidence_debug Conf_Medium = ''Medium''"
| "confidence_debug Conf_High = ''High''"

fun source_debug :: "address_source \<Rightarrow> string" where
  "source_debug Src_Explicit = ''Explicit''"
| "source_debug Src_ARecord = ''ARecord''"
| "source_debug Src_AaaaRecord = ''AaaaRecord''"

fun stage_debug :: "scan_stage \<Rightarrow> string" where
  "stage_debug Stage_Preflight = ''Preflight''"
| "stage_debug Stage_Dns = ''Dns''"
| "stage_debug Stage_Ports = ''Ports''"
| "stage_debug Stage_Services = ''Services''"
| "stage_debug Stage_Http = ''Http''"
| "stage_debug Stage_Tls = ''Tls''"
| "stage_debug Stage_Findings = ''Findings''"

fun error_kind_debug :: "scan_error_kind \<Rightarrow> string" where
  "error_kind_debug Err_Configuration = ''Configuration''"
| "error_kind_debug Err_Dns = ''Dns''"
| "error_kind_debug Err_Timeout = ''Timeout''"
| "error_kind_debug Err_Network = ''Network''"
| "error_kind_debug Err_Http = ''Http''"
| "error_kind_debug Err_Tls = ''Tls''"
| "error_kind_debug Err_Cancelled = ''Cancelled''"
| "error_kind_debug Err_Authorization = ''Authorization''"
| "error_kind_debug Err_Other = ''Other''"

section \<open>Projections\<close>

record port_projection =
  pp_number :: u16
  pp_transport :: string
  pp_state :: string
  pp_service :: string

definition project_port :: "scan_report \<Rightarrow> port_observation \<Rightarrow> port_projection option" where
  \<comment> \<open>one port of \<open>projection::ports\<close>\<close>
  "project_port r port =
     (let service = find (\<lambda>s. svc_address s = po_address port \<and> svc_transport s = po_transport port) (rep_services r)
      in if po_state port \<noteq> Open \<and> \<not> (po_state port = OpenFiltered \<and> service \<noteq> None) then None
         else Some \<lparr>pp_number = sa_port (po_address port), pp_transport = transport_as_str (po_transport port),
           pp_state = (if po_state port = Open then ''open'' else ''open|filtered''),
           pp_service = (case service of Some s \<Rightarrow> service_kind_str (svc_service s) | None \<Rightarrow> ''unknown'')\<rparr>)"

definition project_ports :: "scan_report \<Rightarrow> host_observation \<Rightarrow> port_projection list" where
  "project_ports r host = filter_map (project_port r) (host_ports host)"

record lifecycle_projection =
  lp_status :: string
  lp_successful :: bool
  lp_partial :: bool
  lp_errors :: nat
  lp_score_incomplete :: bool

fun status_name :: "scan_status \<Rightarrow> string" where
  "status_name NotStarted = ''not_started''"
| "status_name Completed = ''completed''"
| "status_name Partial = ''partial''"
| "status_name Interrupted = ''interrupted''"
| "status_name Failed = ''failed''"

definition project_lifecycle :: "scan_report \<Rightarrow> lifecycle_projection" where
  "project_lifecycle r =
     \<lparr>lp_status = status_name (rep_status r), lp_successful = (rep_status r = Completed),
      lp_partial = (rep_status r = Partial), lp_errors = length (rep_errors r),
      lp_score_incomplete = (case rep_exposure_score r of Some s \<Rightarrow> score_incomplete s | None \<Rightarrow> False)\<rparr>"

record ssh_projection =
  sp_protocol :: "string option"
  sp_software :: "string option"
  sp_status :: string
  sp_selections :: partial_ssh_algorithm_selections
  sp_reason :: "string option"

definition selections_ref :: "ssh_algorithm_selections \<Rightarrow> partial_ssh_algorithm_selections" where
  "selections_ref s =
     \<lparr>part_kex = Some (sel_kex s), part_host_key = Some (sel_host_key s), part_cipher_c2s = Some (sel_cipher_c2s s),
      part_cipher_s2c = Some (sel_cipher_s2c s), part_mac_c2s = Some (sel_mac_c2s s), part_mac_s2c = Some (sel_mac_s2c s)\<rparr>"

definition selections_default :: partial_ssh_algorithm_selections where
  "selections_default =
     \<lparr>part_kex = None, part_host_key = None, part_cipher_c2s = None, part_cipher_s2c = None, part_mac_c2s = None,
      part_mac_s2c = None\<rparr>"

fun project_outcome :: "ssh_posture_outcome \<Rightarrow> string \<times> partial_ssh_algorithm_selections \<times> string option" where
  "project_outcome (Ssh_Complete s) = (''complete'', selections_ref s, None)"
| "project_outcome (Ssh_Partial s reason) = (''partial'', s, Some reason)"
| "project_outcome (Ssh_Indeterminate reason) = (''indeterminate'', selections_default, Some reason)"

definition project_ssh :: "service_observation \<Rightarrow> ssh_projection option" where
  "project_ssh service =
     map_option (\<lambda>posture. case project_outcome (ssh_outcome posture) of (status, selections, reason) \<Rightarrow>
         \<lparr>sp_protocol = map_option ssh_protocol (ssh_ident posture),
          sp_software = map_option ssh_software (ssh_ident posture),
          sp_status = status, sp_selections = selections, sp_reason = reason\<rparr>) (svc_ssh service)"

section \<open>Control characters\<close>

definition only_newlines :: "string \<Rightarrow> bool" where
  \<comment> \<open>the one control character of the text is the line feed\<close>
  "only_newlines s \<longleftrightarrow> (\<forall>g \<in> set (chars s). is_control g \<longrightarrow> g = [CHR 10])"

definition template_char :: "char \<Rightarrow> bool" where
  "template_char c \<longleftrightarrow> \<not> is_continuation c \<and> byte c \<noteq> 194 \<and> (\<not> is_ascii_control c \<or> c = CHR 10)"

definition safe_group :: "string \<Rightarrow> bool" where
  "safe_group g \<longleftrightarrow> (is_control g \<longrightarrow> g = [CHR 10])"

lemma is_control_continuation: "is_continuation c \<Longrightarrow> \<not> is_control (c # s)"
  by (cases "c # s" rule: is_control.cases) (auto simp: is_continuation_def)

lemma only_newlines_Nil [simp]: "only_newlines []"
  by (simp add: only_newlines_def)

lemma only_newlines_Cons:
  "only_newlines (c # s) \<longleftrightarrow> safe_group (c # takeWhile is_continuation s) \<and> only_newlines s"
proof (cases s)
  case (Cons d t)
  show ?thesis
  proof (cases "is_continuation d")
    case True
    with Cons show ?thesis by (auto simp: only_newlines_def safe_group_def is_control_continuation)
  next
    case False
    with Cons show ?thesis by (auto simp: only_newlines_def safe_group_def)
  qed
qed (auto simp: only_newlines_def safe_group_def)

lemma safe_template: "template_char c \<Longrightarrow> safe_group (c # s)"
  by (cases "c # s" rule: is_control.cases) (auto simp: safe_group_def template_char_def is_ascii_control_def)

lemma only_newlines_template: "list_all template_char a \<Longrightarrow> only_newlines (a @ b) \<longleftrightarrow> only_newlines b"
  by (induction a) (simp_all add: only_newlines_Cons safe_template)

lemma takeWhile_stop: "b = [] \<or> \<not> P (hd b) \<Longrightarrow> takeWhile P (s @ b) = takeWhile P s"
  by (induction s) (auto, cases b, auto)

lemma only_newlines_append:
  "only_newlines a \<Longrightarrow> only_newlines b \<Longrightarrow> b = [] \<or> \<not> is_continuation (hd b) \<Longrightarrow> only_newlines (a @ b)"
  by (induction a) (simp_all add: only_newlines_Cons takeWhile_stop)

lemma blanked_groups:
  "char_groups gs \<Longrightarrow> char_groups (map (\<lambda>c. if is_control c then '' '' else c) gs)"
  by (induction gs) (auto simp: char_groups_Cons is_continuation_def)

lemma clean_terminal_controls: "g \<in> set (chars (clean_terminal v)) \<Longrightarrow> \<not> is_control g"
  using chars_concat [OF blanked_groups [OF char_groups_chars [of v]]]
  by (auto simp: clean_terminal_def split: if_splits)

lemma clean_terminal_only: "only_newlines (clean_terminal v)"
  using clean_terminal_controls by (simp add: only_newlines_def)

section \<open>Tags\<close>

fun html_scan :: "string option \<Rightarrow> string \<Rightarrow> string list \<times> string option" where
  \<comment> \<open>the tags of a text with the open tag at its end, from inside or outside of a tag\<close>
  "html_scan st [] = ([], st)"
| "html_scan None (c # s) = html_scan (if c = CHR ''<'' then Some [] else None) s"
| "html_scan (Some tag) (c # s) =
     (if c = CHR ''>'' then (case html_scan None s of (ts, st) \<Rightarrow> (tag # ts, st))
      else html_scan (Some (tag @ [c])) s)"

definition html_tags :: "string \<Rightarrow> string list" where
  "html_tags s = fst (html_scan None s)"

definition tag_closed :: "string \<Rightarrow> bool" where
  "tag_closed s \<longleftrightarrow> snd (html_scan None s) = None"

definition tags_in :: "string set \<Rightarrow> string \<Rightarrow> bool" where
  "tags_in T s \<longleftrightarrow> tag_closed s \<and> set (html_tags s) \<subseteq> T"

lemma html_scan_append:
  "html_scan st (a @ b) =
     (case html_scan st a of (ts, st') \<Rightarrow> (case html_scan st' b of (us, st'') \<Rightarrow> (ts @ us, st'')))"
  by (induction st a rule: html_scan.induct) (auto split: prod.splits)

lemma tags_in_Nil [simp]: "tags_in T []"
  by (simp add: tags_in_def tag_closed_def html_tags_def)

lemma tags_in_append: "tags_in T a \<Longrightarrow> tags_in T b \<Longrightarrow> tags_in T (a @ b)"
  by (auto simp: tags_in_def tag_closed_def html_tags_def html_scan_append split: prod.splits)

lemma tags_in_concat: "(\<And>s. s \<in> set xs \<Longrightarrow> tags_in T s) \<Longrightarrow> tags_in T (concat xs)"
  by (induction xs) (simp_all add: tags_in_append)

lemma html_scan_plain: "CHR ''<'' \<notin> set s \<Longrightarrow> html_scan None s = ([], None)"
  by (induction s) auto

lemma tags_in_plain: "CHR ''<'' \<notin> set s \<Longrightarrow> tags_in T s"
  by (simp add: tags_in_def tag_closed_def html_tags_def html_scan_plain)

definition markup_char :: "char \<Rightarrow> bool" where
  "markup_char c \<longleftrightarrow> c \<in> {CHR ''<'', CHR ''>'', CHR 34, CHR 39}"

lemma set_replace_char: "set (replace_char c new s) \<subseteq> (set s - {c}) \<union> set new"
  by (auto simp: replace_char_def split: if_splits)

lemma escape_html_plain: "\<forall>c \<in> set (escape_html v). \<not> markup_char c"
  unfolding escape_html_def
  by (fastforce simp: markup_char_def dest!: subsetD [OF set_replace_char])

lemma escape_html_tags [simp]: "tags_in T (escape_html v)"
  using escape_html_plain [of v] by (intro tags_in_plain) (auto simp: markup_char_def)

lemma tags_in_if: "tags_in T a \<Longrightarrow> tags_in T b \<Longrightarrow> tags_in T (if P then a else b)"
  by simp

definition tags_check :: "string list \<Rightarrow> string \<Rightarrow> bool" where
  "tags_check ts s \<longleftrightarrow> (case html_scan None s of (us, st) \<Rightarrow> st = None \<and> list_all (\<lambda>u. List.member ts u) us)"

lemma tags_checkI: "tags_check ts s \<Longrightarrow> tags_in (set ts) s"
  by (auto simp: tags_check_def tags_in_def tag_closed_def html_tags_def list_all_iff split: prod.splits)

lemmas tags_in_rules = tags_in_append tags_in_if escape_html_tags tags_in_Nil

section \<open>Lines\<close>

definition template :: "string \<Rightarrow> bool" where
  "template s \<longleftrightarrow> list_all template_char s"

definition line_text :: "string \<Rightarrow> bool" where
  "line_text s \<longleftrightarrow> only_newlines s \<and> (s = [] \<or> \<not> is_continuation (hd s))"

lemma template_append: "template (a @ b) \<longleftrightarrow> template a \<and> template b"
  by (simp add: template_def)

lemma template_line_text: "template s \<Longrightarrow> line_text s"
  using only_newlines_template [of s "[]"] by (cases s) (auto simp: template_def line_text_def template_char_def)

lemma line_text_append: "line_text a \<Longrightarrow> line_text b \<Longrightarrow> line_text (a @ b)"
  by (auto simp: line_text_def only_newlines_append hd_append)

lemma line_text_template: "template a \<Longrightarrow> a \<noteq> [] \<Longrightarrow> only_newlines b \<Longrightarrow> line_text (a @ b)"
  by (cases a) (auto simp: line_text_def template_def only_newlines_Cons safe_template only_newlines_template template_char_def)

lemma only_template: "template a \<Longrightarrow> only_newlines b \<Longrightarrow> only_newlines (a @ b)"
  by (simp add: template_def only_newlines_template)

lemma only_clean: "line_text b \<Longrightarrow> only_newlines (clean_terminal v @ b)"
  by (auto simp: line_text_def clean_terminal_only intro: only_newlines_append)

lemma line_text_only: "line_text b \<Longrightarrow> only_newlines b"
  by (simp add: line_text_def)

lemma line_text_Nil: "line_text []"
  by (simp add: line_text_def)

lemma line_text_concat: "(\<And>x. x \<in> set xs \<Longrightarrow> line_text x) \<Longrightarrow> line_text (concat xs)"
  by (induction xs) (auto simp: line_text_Nil intro: line_text_append)

lemma line_text_map: "(\<And>x. line_text (f x)) \<Longrightarrow> line_text (concat (map f xs))"
  by (rule line_text_concat) auto

lemma line_text_if: "(P \<Longrightarrow> line_text a) \<Longrightarrow> (\<not> P \<Longrightarrow> line_text b) \<Longrightarrow> line_text (if P then a else b)"
  by simp

lemma template_digits: "template (show_nat n)"
proof -
  have "template_char c" if "c \<in> set (show_nat n)" for c
    using show_nat_digits [of n] that
    by (auto simp: template_char_def is_ascii_digit_def is_continuation_def is_ascii_control_def list_all_iff)
  then show ?thesis by (simp add: template_def list_all_iff)
qed

lemma template_Cons: "template (c # s) \<longleftrightarrow> template_char c \<and> template s"
  by (simp add: template_def)

lemma template_hex_digit: "n < 16 \<Longrightarrow> template_char (hex_digit n)"
proof -
  have "list_all (\<lambda>n. template_char (hex_digit n)) [0..<16]" by code_simp
  then show "n < 16 \<Longrightarrow> template_char (hex_digit n)" by (simp add: list_all_iff)
qed

lemma template_hex: "template (show_hex n)"
proof (induction n rule: show_hex.induct)
  case (1 n)
  show ?case
    by (subst show_hex.simps) (use 1 in \<open>auto simp: template_append template_def template_hex_digit\<close>)
qed

lemma template_join: "template sep \<Longrightarrow> list_all template xs \<Longrightarrow> template (join sep xs)"
  by (induction sep xs rule: join.induct) (auto simp: template_append, simp add: template_def)

lemma template_punctuation: "template '':''" "template ''.''" "template ''::''" "template ''::ffff:''" "template ''[''" "template '']:''" "template ''-''"
  by code_simp+

lemma template_ipv4: "template (show_ipv4 a)"
  by (auto simp: show_ipv4_def list_all_iff template_digits intro!: template_join template_punctuation)

lemma template_ipv6: "template (show_ipv6 a)"
proof -
  have hex: "template (join '':'' (map show_hex ns))" for ns
    by (auto simp: list_all_iff template_hex intro!: template_join template_punctuation)
  show ?thesis
    by (auto simp: show_ipv6_def Let_def template_append template_ipv4 hex template_punctuation [unfolded template_Cons]
        template_Cons split: prod.split)
qed

lemma template_ip: "template (show_ip a)"
  by (cases a) (simp_all add: template_ipv4 template_ipv6)

lemma template_socket: "template (show_socket s)"
  using template_punctuation
  by (auto simp: show_socket_def template_append template_ipv4 template_ipv6 template_digits template_Cons
      split: ip_addr.split)

lemma template_int: "template (show_int i)"
  using template_punctuation by (simp add: show_int_def template_digits template_Cons)

lemma template_unknown_or: "template t \<Longrightarrow> (\<And>x. template (f x)) \<Longrightarrow> template (unknown_or t f v)"
  by (cases v) (simp_all add: unknown_or_def)

lemma template_if: "template a \<Longrightarrow> template b \<Longrightarrow> template (if P then a else b)"
  by simp

lemma template_option_bool: "template (option_bool v)"
  by (cases v; cases "the v"; simp only: option_bool_def option.case option.sel if_True if_False; code_simp)

lemma template_option_yes_no: "template (option_yes_no v)"
  by (cases v; cases "the v"; simp only: option_yes_no_def option.case option.sel if_True if_False; code_simp)

lemma template_hsts: "template (hsts_label h)"
  by (cases h; simp only: hsts_label.simps; code_simp)

lemma template_status: "template (status_debug s)"
  by (cases s; simp only: status_debug.simps; code_simp)

lemma template_severity: "template (severity_debug s)"
  by (cases s; simp only: severity_debug.simps; code_simp)

lemma template_score_class: "template (score_class_debug c)"
  by (cases c; simp only: score_class_debug.simps; code_simp)

lemma template_bool: "template (bool_str b)"
  by (cases b; simp only: bool_str.simps; code_simp)

lemma template_transport: "template (transport_as_str t)"
  by (cases t; simp only: transport_as_str.simps; code_simp)

lemmas template_labels = template_option_bool template_option_yes_no template_hsts template_status template_severity
  template_score_class template_bool template_transport

lemma template_service: "template (service_kind_str k)"
  by (cases k; simp only: service_kind_str.simps; code_simp)

lemma template_chars:
  "list_all template_char
    [CHR '' '', CHR 39, CHR ''.'', CHR ''5'', CHR ''<'', CHR ''C'', CHR ''J'', CHR ''Q'', CHR ''X'', CHR ''_'',
     CHR ''f'', CHR ''m'', CHR ''t'', CHR ''{'', CHR ''!'', CHR ''('', CHR ''/'', CHR ''6'', CHR ''='',
     CHR ''D'', CHR ''K'', CHR ''R'', CHR ''Y'', CHR ''`'', CHR ''g'', CHR ''n'', CHR ''u'', CHR ''|'', CHR 34,
     CHR '')'', CHR ''0'', CHR ''7'', CHR ''>'', CHR ''E'', CHR ''L'', CHR ''S'', CHR ''Z'', CHR ''a'',
     CHR ''h'', CHR ''o'', CHR ''v'', CHR ''}'', CHR ''#'', CHR ''*'', CHR ''1'', CHR ''8'', CHR ''?'',
     CHR ''F'', CHR ''M'', CHR ''T'', CHR ''['', CHR ''b'', CHR ''i'', CHR ''p'', CHR ''w'', CHR ''~'',
     CHR ''$'', CHR ''+'', CHR ''2'', CHR ''9'', CHR ''@'', CHR ''G'', CHR ''N'', CHR ''U'', CHR 92, CHR ''c'',
     CHR ''j'', CHR ''q'', CHR ''x'', CHR 10, CHR ''%'', CHR '','', CHR ''3'', CHR '':'', CHR ''A'', CHR ''H'',
     CHR ''O'', CHR ''V'', CHR '']'', CHR ''d'', CHR ''k'', CHR ''r'', CHR ''y'', CHR ''&'', CHR ''-'',
     CHR ''4'', CHR '';'', CHR ''B'', CHR ''I'', CHR ''P'', CHR ''W'', CHR ''^'', CHR ''e'', CHR ''l'',
     CHR ''s'', CHR ''z'']"
  by code_simp

lemma template_Nil: "template []"
  by (simp add: template_def)

lemma list_neq_Nil: "x # xs \<noteq> []" "newline \<noteq> []"
  by (simp_all add: newline_def)

lemma template_newline: "template newline"
  by code_simp

lemmas template_literal = not_False_eq_True template_Nil template_Cons template_newline list_neq_Nil
  template_chars [unfolded list.pred_inject simp_thms]

text \<open>Rules that take a line apart, piece by piece.\<close>

lemma only_Nil: "only_newlines []"
  by simp

lemma only_map: "(\<And>x. line_text (f x)) \<Longrightarrow> line_text b \<Longrightarrow> only_newlines (concat (map f xs) @ b)"
  by (intro line_text_only line_text_append line_text_map)

lemma line_map: "(\<And>x. line_text (f x)) \<Longrightarrow> line_text b \<Longrightarrow> line_text (concat (map f xs) @ b)"
  by (intro line_text_append line_text_map)

lemma only_if: "line_text x \<Longrightarrow> line_text y \<Longrightarrow> line_text b \<Longrightarrow> only_newlines ((if P then x else y) @ b)"
  by (intro line_text_only line_text_append) simp_all

lemma line_if: "line_text x \<Longrightarrow> line_text y \<Longrightarrow> line_text b \<Longrightarrow> line_text ((if P then x else y) @ b)"
  by (intro line_text_append) simp_all

lemma line_option: "(\<And>x. line_text (f x)) \<Longrightarrow> line_text (case v of Some x \<Rightarrow> f x | None \<Rightarrow> [])"
  by (cases v) (simp_all add: line_text_Nil)

lemma only_option: "(\<And>x. line_text (f x)) \<Longrightarrow> line_text b \<Longrightarrow> only_newlines ((case v of Some x \<Rightarrow> f x | None \<Rightarrow> []) @ b)"
  by (intro line_text_only line_text_append line_option)

lemma only_dash: "line_text b \<Longrightarrow> only_newlines (em_dash @ b)"
proof -
  have "only_newlines em_dash" unfolding only_newlines_def by code_simp
  then show "line_text b \<Longrightarrow> only_newlines (em_dash @ b)" by (auto simp: line_text_def intro: only_newlines_append)
qed

lemma only_dot: "line_text b \<Longrightarrow> only_newlines (middle_dot @ b)"
proof -
  have "only_newlines middle_dot" unfolding only_newlines_def by code_simp
  then show "line_text b \<Longrightarrow> only_newlines (middle_dot @ b)" by (auto simp: line_text_def intro: only_newlines_append)
qed

lemmas line_rules = only_Nil line_text_Nil only_clean only_map only_option only_dash only_dot line_map
  template_digits template_ip template_socket template_int template_labels template_service

end
