(* ===== verification/Json.thy ===== *)
theory Json
  imports Render_Text
begin

text \<open>
  \<open>Value\<close> of the \<open>serde_json\<close> crate, whose objects are \<open>BTreeMap\<close>s, and the serialisation the derive attributes of
  \<^verbatim>\<open>crates/surface-core\<close> give the types that the report crate embeds in its own documents: variants by their
  snake-case name, structures as objects of their fields. The text of a document is a parameter of its users.
\<close>

datatype json =
    J_Null | J_Bool bool | J_Number int | J_String string | J_Array "json list" | J_Object "(string \<times> json) list"

definition json_object :: "(string \<times> json) list \<Rightarrow> json" where
  "json_object entries = J_Object (btm_of_list entries)"

fun json_option :: "('a \<Rightarrow> json) \<Rightarrow> 'a option \<Rightarrow> json" where
  "json_option f None = J_Null"
| "json_option f (Some x) = f x"

definition json_list :: "('a \<Rightarrow> json) \<Rightarrow> 'a list \<Rightarrow> json" where
  "json_list f xs = J_Array (map f xs)"

abbreviation json_text :: "string option \<Rightarrow> json" where
  "json_text \<equiv> json_option J_String"

abbreviation json_flag :: "bool option \<Rightarrow> json" where
  "json_flag \<equiv> json_option J_Bool"

abbreviation json_nat :: "nat \<Rightarrow> json" where
  "json_nat n \<equiv> J_Number (int n)"

abbreviation json_word :: "u16 \<Rightarrow> json" where
  "json_word n \<equiv> J_Number (uint n)"

section \<open>Variants\<close>

fun error_kind_name :: "scan_error_kind \<Rightarrow> string" where
  "error_kind_name Err_Configuration = ''configuration''"
| "error_kind_name Err_Dns = ''dns''"
| "error_kind_name Err_Timeout = ''timeout''"
| "error_kind_name Err_Network = ''network''"
| "error_kind_name Err_Http = ''http''"
| "error_kind_name Err_Tls = ''tls''"
| "error_kind_name Err_Cancelled = ''cancelled''"
| "error_kind_name Err_Authorization = ''authorization''"
| "error_kind_name Err_Other = ''other''"

fun severity_name :: "severity \<Rightarrow> string" where
  "severity_name Sev_Info = ''info''"
| "severity_name Sev_Low = ''low''"
| "severity_name Sev_Medium = ''medium''"
| "severity_name Sev_High = ''high''"
| "severity_name Sev_Critical = ''critical''"

fun category_name :: "finding_category \<Rightarrow> string" where
  "category_name Cat_Network = ''network''"
| "category_name Cat_Http = ''http''"
| "category_name Cat_Tls = ''tls''"
| "category_name Cat_Mail = ''mail''"

fun finding_confidence_name :: "finding_confidence \<Rightarrow> string" where
  "finding_confidence_name FConf_Low = ''low''"
| "finding_confidence_name FConf_Medium = ''medium''"
| "finding_confidence_name FConf_High = ''high''"

fun confidence_name :: "detection_confidence \<Rightarrow> string" where
  "confidence_name Conf_Low = ''low''"
| "confidence_name Conf_Medium = ''medium''"
| "confidence_name Conf_High = ''high''"

fun score_class_name :: "score_classification \<Rightarrow> string" where
  "score_class_name Score_Favorable = ''favorable''"
| "score_class_name Score_Review = ''review''"
| "score_class_name Score_Elevated = ''elevated''"
| "score_class_name Score_Critical = ''critical''"

fun port_state_name :: "port_state \<Rightarrow> string" where
  "port_state_name Open = ''open''"
| "port_state_name Closed = ''closed''"
| "port_state_name OpenFiltered = ''open_filtered''"
| "port_state_name TimedOut = ''timed_out''"
| "port_state_name Unreachable = ''unreachable''"
| "port_state_name PortError = ''error''"
| "port_state_name Cancelled = ''cancelled''"

fun service_kind_name :: "service_kind \<Rightarrow> string" where
  \<comment> \<open>the variant in snake case; only these have a name of more than one word\<close>
  "service_kind_name Svc_StunTurn = ''stun_turn''"
| "service_kind_name Svc_MinecraftJava = ''minecraft_java''"
| "service_kind_name Svc_MinecraftBedrock = ''minecraft_bedrock''"
| "service_kind_name Svc_SourceEngine = ''source_engine''"
| "service_kind_name k = to_ascii_lowercase (service_kind_str k)"

section \<open>Structures\<close>

definition json_selections :: "ssh_algorithm_selections \<Rightarrow> json" where
  "json_selections s = json_object
     [(''kex'', J_String (sel_kex s)), (''host_key'', J_String (sel_host_key s)),
      (''cipher_c2s'', J_String (sel_cipher_c2s s)), (''cipher_s2c'', J_String (sel_cipher_s2c s)),
      (''mac_c2s'', J_String (sel_mac_c2s s)), (''mac_s2c'', J_String (sel_mac_s2c s))]"

definition json_partial_selections :: "partial_ssh_algorithm_selections \<Rightarrow> json" where
  "json_partial_selections s = json_object
     [(''kex'', json_text (part_kex s)), (''host_key'', json_text (part_host_key s)),
      (''cipher_c2s'', json_text (part_cipher_c2s s)), (''cipher_s2c'', json_text (part_cipher_s2c s)),
      (''mac_c2s'', json_text (part_mac_c2s s)), (''mac_s2c'', json_text (part_mac_s2c s))]"

fun json_outcome :: "ssh_posture_outcome \<Rightarrow> json" where
  \<comment> \<open>internally tagged by \<open>status\<close>\<close>
  "json_outcome (Ssh_Complete s) = json_object [(''status'', J_String ''complete''), (''selections'', json_selections s)]"
| "json_outcome (Ssh_Partial s reason) = json_object
     [(''status'', J_String ''partial''), (''selections'', json_partial_selections s), (''reason'', J_String reason)]"
| "json_outcome (Ssh_Indeterminate reason) = json_object [(''status'', J_String ''indeterminate''), (''reason'', J_String reason)]"

definition json_identification :: "ssh_identification \<Rightarrow> json" where
  "json_identification i = json_object [(''protocol'', J_String (ssh_protocol i)), (''software'', J_String (ssh_software i))]"

definition json_posture :: "ssh_posture \<Rightarrow> json" where
  "json_posture p = json_object
     [(''identification'', json_option json_identification (ssh_ident p)), (''outcome'', json_outcome (ssh_outcome p))]"

definition json_cookie :: "cookie_observation \<Rightarrow> json" where
  "json_cookie c = json_object
     [(''name'', J_String (ck_name c)), (''secure'', J_Bool (ck_secure c)), (''http_only'', J_Bool (ck_http_only c)),
      (''same_site'', json_text (ck_same_site c)), (''domain'', json_text (ck_domain c)), (''path'', json_text (ck_path c))]"

definition json_redirect :: "redirect_observation \<Rightarrow> json" where
  "json_redirect r = json_object
     [(''from'', J_String (rd_from r)), (''status'', json_word (rd_status r)), (''to'', J_String (rd_to r))]"

definition json_string_map :: "(string \<times> string) list \<Rightarrow> json" where
  \<comment> \<open>a \<open>BTreeMap<String, String>\<close>\<close>
  "json_string_map m = json_object (map (\<lambda>(k, v). (k, J_String v)) m)"

definition json_evidence :: "evidence \<Rightarrow> json" where
  "json_evidence e = json_object [(''location'', J_String (evd_location e)), (''observed'', J_String (evd_observed e))]"

definition json_deduction :: "score_deduction \<Rightarrow> json" where
  "json_deduction d = json_object
     [(''id'', J_String (ded_id d)), (''points'', json_nat (ded_points d)), (''reason'', J_String (ded_reason d)),
      (''finding_ids'', json_list J_String (ded_finding_ids d)), (''target'', json_text (ded_target d))]"

definition json_score :: "exposure_score \<Rightarrow> json" where
  "json_score s = json_object
     [(''model_version'', J_String (score_model_version s)), (''value'', json_nat (score_value s)),
      (''classification'', J_String (score_class_name (score_class s))),
      (''deductions'', json_list json_deduction (score_deductions s)), (''incomplete'', J_Bool (score_incomplete s)),
      (''limitations'', json_list J_String (score_limitations s))]"

record serde =
  \<comment> \<open>serialisations that are not read by the code below\<close>
  sd_to_string :: "json \<Rightarrow> string" \<comment> \<open>the compact text\<close>
  sd_dns_record :: "dns_record \<Rightarrow> string" \<comment> \<open>likewise of a record\<close>
  sd_finding :: "finding \<Rightarrow> string" \<comment> \<open>and of a finding\<close>
  sd_mail :: "mail_observation \<Rightarrow> json"
  sd_intelligence :: "intelligence_observation \<Rightarrow> json"

lemma json_object_eq: "json_object a = json_object b \<longleftrightarrow> map_of (rev a) = map_of (rev b)"
proof
  assume "map_of (rev a) = map_of (rev b)"
  then have "btm_of_list a = btm_of_list b" by (intro btm_ext) (simp_all add: map_of_btm_of_list)
  then show "json_object a = json_object b" by (simp add: json_object_def)
qed (auto simp: json_object_def simp flip: map_of_btm_of_list)

end
