(* ===== verification/Diff.thy ===== *)
theory Diff
  imports Json
begin

text \<open>
  The comparison of two reports, \<^verbatim>\<open>crates/surface-report/src/diff.rs\<close>: keyed maps of what a report says, the changes
  between two of them, and the terminal and HTML renderings of a comparison.
\<close>

section \<open>Data\<close>

definition DIFF_SCHEMA_VERSION :: string where "DIFF_SCHEMA_VERSION = ''1.0''"

record scan_reference =
  ref_scan_id :: string
  ref_schema_version :: string
  ref_scanner_version :: string
  ref_target :: string

record diff_summary =
  ds_added :: nat
  ds_removed :: nat
  ds_changed :: nat

record change =
  ch_category :: string
  ch_key :: string
  ch_old_value :: "json option"
  ch_new_value :: "json option"
  ch_target :: string
  ch_significance :: string
  ch_confidence :: string
  ch_evidence :: string

record scan_diff =
  df_schema_version :: string
  df_old_scan :: scan_reference
  df_new_scan :: scan_reference
  df_summary :: diff_summary
  df_network :: "change list"
  df_services :: "change list"
  df_certificates :: "change list"
  df_dns :: "change list"
  df_findings :: "change list"
  df_score :: "change option"
  df_completeness :: "change list"
  df_warnings :: "string list"

section \<open>Comparing keyed values\<close>

definition change_of :: "string \<Rightarrow> string \<Rightarrow> json option \<Rightarrow> json option \<Rightarrow> string \<Rightarrow> string \<Rightarrow> change" where
  \<comment> \<open>the function \<open>change\<close>\<close>
  "change_of category key old_value new_value target significance =
     \<lparr>ch_category = category, ch_key = key, ch_old_value = old_value, ch_new_value = new_value, ch_target = target,
      ch_significance = significance, ch_confidence = ''high'', ch_evidence = key\<rparr>"

definition compare_maps ::
    "string \<Rightarrow> (string \<times> json) list \<Rightarrow> (string \<times> json) list \<Rightarrow> string \<Rightarrow> string \<Rightarrow> change list" where
  "compare_maps category old new target significance =
     filter_map (\<lambda>key. let old_value = map_of old key; new_value = map_of new key
         in if old_value \<noteq> new_value then Some (change_of category key old_value new_value target significance) else None)
       (btree_set (map fst old @ map fst new))"

definition compare_sets :: "string \<Rightarrow> string list \<Rightarrow> string list \<Rightarrow> string \<Rightarrow> string \<Rightarrow> change list" where
  "compare_sets category old new target significance =
     map (\<lambda>key. change_of category key (Some (J_String key)) None target significance) (filter (\<lambda>k. k \<notin> set new) old) @
     map (\<lambda>key. change_of category key None (Some (J_String key)) target significance) (filter (\<lambda>k. k \<notin> set old) new)"

definition sort_changes :: "change list \<Rightarrow> change list" where
  "sort_changes = sort_key (\<lambda>c. (ch_category c, ch_key c))"

definition schema_family :: "string \<Rightarrow> string + string" where
  "schema_family version =
     (if version \<in> {''0.1.0'', ''0.1.1'', ''0.1.2'', ''0.2.0'', ''0.3.0''} then Inr ''legacy-ssh-map''
      else if version = ''0.4.0'' then Inr ''typed-ssh''
      else Inl (''unsupported report schema version '' @ [CHR 39] @ version @ [CHR 39]))"

definition reference :: "scan_report \<Rightarrow> string \<Rightarrow> scan_reference" where
  "reference report target =
     \<lparr>ref_scan_id = rep_scan_id report, ref_schema_version = rep_schema_version report,
      ref_scanner_version = rep_scanner_version report, ref_target = target\<rparr>"

section \<open>What a report says\<close>

fun transport_debug :: "transport_protocol \<Rightarrow> string" where
  "transport_debug Tcp = ''Tcp''"
| "transport_debug Udp = ''Udp''"

definition endpoint_key :: "transport_protocol \<Rightarrow> socket_addr \<Rightarrow> string" where
  "endpoint_key transport address = to_ascii_lowercase (transport_debug transport @ '':'' @ show_socket address)"

definition ip_set :: "scan_report \<Rightarrow> string list" where
  "ip_set report = btree_set (map (\<lambda>h. show_ip (host_ip h)) (rep_hosts report))"

definition port_map :: "scan_report \<Rightarrow> (string \<times> json) list" where
  "port_map report =
     btm_of_list (map (\<lambda>p. (endpoint_key (po_transport p) (po_address p), J_String (port_state_name (po_state p))))
       (concat (map host_ports (rep_hosts report))))"

definition service_map :: "scan_report \<Rightarrow> (string \<times> json) list" where
  "service_map report =
     btm_of_list (map (\<lambda>s. (endpoint_key (svc_transport s) (svc_address s), json_object
       [(''transport'', J_String (transport_as_str (svc_transport s))),
        (''service'', J_String (service_kind_name (svc_service s))),
        (''confidence'', J_String (confidence_name (svc_confidence s))),
        (''banner'', json_text (svc_banner s)),
        (''protocol_details'', json_string_map (svc_details s)),
        (''ssh'', json_option json_posture (svc_ssh s))])) (rep_services report))"

definition http_map :: "scan_report \<Rightarrow> (string \<times> json) list" where
  "http_map report =
     btm_of_list (map (\<lambda>h. (ho_url h, json_object
       [(''final_url'', json_text (ho_final_url h)),
        (''status'', json_option json_word (ho_status h)),
        (''redirects'', json_list json_redirect (ho_redirects h)),
        (''headers'', json_string_map (ho_headers h)),
        (''cookies'', json_list json_cookie (ho_cookies h)),
        (''robots_txt'', json_flag (ho_robots_txt h)),
        (''security_txt'', json_flag (ho_security_txt h)),
        (''sitemap_xml'', json_flag (ho_sitemap_xml h))])) (rep_http report))"

definition tls_map :: "scan_report \<Rightarrow> (string \<times> json) list" where
  "tls_map report =
     btm_of_list (map (\<lambda>t. (show_socket (to_address t) @ ''|'' @ to_server_name t, json_object
       [(''server_name'', J_String (to_server_name t)),
        (''handshake_succeeded'', J_Bool (to_handshake_succeeded t)),
        (''certificate_trusted'', json_flag (to_certificate_trusted t)),
        (''hostname_matches'', json_flag (to_hostname_matches t)),
        (''protocol_version'', json_text (to_protocol_version t)),
        (''cipher_suite'', json_text (to_cipher_suite t)),
        (''alpn'', json_text (to_alpn t)),
        (''certificate_chain_length'', json_option json_nat (to_certificate_chain_length t)),
        (''leaf_certificate_sha256'', json_text (to_leaf_certificate_sha256 t)),
        (''subject'', json_text (to_subject t)),
        (''issuer'', json_text (to_issuer t)),
        (''serial_number'', json_text (to_serial_number t)),
        (''valid_from_unix'', json_option J_Number (to_valid_from_unix t)),
        (''valid_until_unix'', json_option J_Number (to_valid_until_unix t)),
        (''subject_alt_names'', json_list J_String (to_subject_alt_names t)),
        (''subject_alt_names_truncated'', J_Bool (to_subject_alt_names_truncated t)),
        (''public_key_algorithm'', json_text (to_public_key_algorithm t)),
        (''public_key_bits'', json_option json_nat (to_public_key_bits t)),
        (''signature_algorithm'', json_text (to_signature_algorithm t))])) (rep_tls report))"

definition evidence_locations :: "finding \<Rightarrow> json" where
  "evidence_locations f = json_list J_String (btree_set (map evd_location (fnd_evidence f)))"

definition finding_map :: "serde \<Rightarrow> scan_report \<Rightarrow> (string \<times> json) list" where
  "finding_map sd report =
     btm_of_list (map (\<lambda>f. (fnd_id f @ ''|'' @ fnd_target f @ ''|'' @ sd_to_string sd (evidence_locations f), json_object
       [(''title'', J_String (fnd_title f)),
        (''severity'', J_String (severity_name (fnd_severity f))),
        (''category'', J_String (category_name (fnd_category f))),
        (''description'', J_String (fnd_description f)),
        (''evidence_locations'', evidence_locations f),
        (''remediation'', json_text (fnd_remediation f)),
        (''references'', json_list J_String (fnd_references f)),
        (''confidence'', J_String (finding_confidence_name (fnd_confidence f)))])) (rep_findings report))"

definition dns_record_set :: "serde \<Rightarrow> scan_report \<Rightarrow> string list" where
  "dns_record_set sd report =
     (case rep_dns report of None \<Rightarrow> [] | Some dns \<Rightarrow> btree_set (map (sd_dns_record sd) (dns_records dns)))"

definition mail_value :: "serde \<Rightarrow> scan_report \<Rightarrow> json option" where
  "mail_value sd report = map_option (\<lambda>dns. sd_mail sd (dns_mail dns)) (rep_dns report)"

definition json_remove :: "string \<Rightarrow> json \<Rightarrow> json" where
  \<comment> \<open>\<open>Map::remove\<close> on an object, nothing on another value\<close>
  "json_remove key v = (case v of J_Object m \<Rightarrow> J_Object (filter (\<lambda>(k, _). k \<noteq> key) m) | _ \<Rightarrow> v)"

definition json_update :: "string \<Rightarrow> (json \<Rightarrow> json) \<Rightarrow> json \<Rightarrow> json" where
  \<comment> \<open>\<open>Map::get_mut\<close>\<close>
  "json_update key f v = (case v of J_Object m \<Rightarrow> J_Object (map (\<lambda>(k, x). (k, if k = key then f x else x)) m) | _ \<Rightarrow> v)"

definition intelligence_value :: "serde \<Rightarrow> intelligence_observation \<Rightarrow> json option" where
  "intelligence_value sd i =
     (case sd_intelligence sd i of
        J_Object m \<Rightarrow>
          let v = json_remove ''errors'' (J_Object m);
              v = json_update ''subdomains''
                (\<lambda>x. case x of J_Array xs \<Rightarrow> J_Array (map (json_remove ''error'') xs) | _ \<Rightarrow> x) v
          in Some (json_update ''certificate_transparency'' (json_remove ''errors'')
               (json_update ''related_domains'' (json_remove ''errors'') v))
      | _ \<Rightarrow> None)"

definition report_intelligence :: "serde \<Rightarrow> scan_report \<Rightarrow> json option" where
  "report_intelligence sd report =
     (case rep_intelligence report of None \<Rightarrow> None | Some i \<Rightarrow> intelligence_value sd i)"

definition completeness_value :: "serde \<Rightarrow> scan_report \<Rightarrow> json" where
  "completeness_value sd report = json_object
     [(''status'', J_String (status_name (rep_status report))),
      (''error_kinds'', json_list J_String (btree_set
         (map (\<lambda>e. sd_to_string sd (J_String (error_kind_name (err_kind e)))) (rep_errors report))))]"

section \<open>The comparison\<close>

definition network_changes :: "scan_report \<Rightarrow> scan_report \<Rightarrow> string \<Rightarrow> change list" where
  "network_changes old new target =
     sort_changes (compare_sets ''ip_address'' (ip_set old) (ip_set new) target ''medium'' @
       compare_maps ''port'' (port_map old) (port_map new) target ''medium'')"

definition service_changes :: "scan_report \<Rightarrow> scan_report \<Rightarrow> string \<Rightarrow> change list" where
  "service_changes old new target =
     sort_changes (compare_maps ''service'' (service_map old) (service_map new) target ''medium'' @
       compare_maps ''http_endpoint'' (http_map old) (http_map new) target ''medium'')"

definition push_difference ::
    "string \<Rightarrow> string \<Rightarrow> string \<Rightarrow> json option \<Rightarrow> json option \<Rightarrow> change list \<Rightarrow> change list" where
  "push_difference category target significance old_value new_value changes =
     (if old_value \<noteq> new_value
      then push changes (change_of category target old_value new_value target significance) else changes)"

definition dns_changes :: "serde \<Rightarrow> scan_report \<Rightarrow> scan_report \<Rightarrow> string \<Rightarrow> change list" where
  "dns_changes sd old new target =
     (let changes = compare_sets ''dns_record'' (dns_record_set sd old) (dns_record_set sd new) target ''medium'';
          changes = push_difference ''mail_policy'' target ''high'' (mail_value sd old) (mail_value sd new) changes;
          changes = push_difference ''passive_intelligence'' target ''medium''
            (report_intelligence sd old) (report_intelligence sd new) changes
      in sort_changes changes)"

definition completeness_changes :: "serde \<Rightarrow> scan_report \<Rightarrow> scan_report \<Rightarrow> string \<Rightarrow> change list" where
  "completeness_changes sd old new target =
     push_difference ''scan_completeness'' target ''high''
       (Some (completeness_value sd old)) (Some (completeness_value sd new)) []"

definition score_change :: "scan_report \<Rightarrow> scan_report \<Rightarrow> string \<Rightarrow> change option \<times> string list" where
  \<comment> \<open>with the warnings\<close>
  "score_change old new target =
     (let changed = (\<lambda>a b. change_of ''exposure_score'' target (map_option json_score a) (map_option json_score b) target ''high'')
      in case (rep_exposure_score old, rep_exposure_score new) of
           (Some a, Some b) \<Rightarrow>
             if score_model_version a = score_model_version b then
               (if a \<noteq> b then Some (changed (Some a) (Some b)) else None, [])
             else (None, [''score models differ: '' @ score_model_version a @ '' versus '' @ score_model_version b @
               ''; no numeric delta is claimed''])
         | (None, None) \<Rightarrow> (None, [])
         | (a, b) \<Rightarrow> (Some (changed a b), []))"

definition all_changes :: "scan_diff \<Rightarrow> change list" where
  "all_changes d = df_network d @ df_services d @ df_certificates d @ df_dns d @ df_findings d @ df_completeness d @
     (case df_score d of Some c \<Rightarrow> [c] | None \<Rightarrow> [])"

definition count_change :: "diff_summary \<Rightarrow> change \<Rightarrow> diff_summary" where
  "count_change s c =
     (case (ch_old_value c, ch_new_value c) of
        (None, Some _) \<Rightarrow> s\<lparr>ds_added := ds_added s + 1\<rparr>
      | (Some _, None) \<Rightarrow> s\<lparr>ds_removed := ds_removed s + 1\<rparr>
      | _ \<Rightarrow> s\<lparr>ds_changed := ds_changed s + 1\<rparr>)"

definition diff_reports :: "serde \<Rightarrow> scan_report \<Rightarrow> scan_report \<Rightarrow> string + scan_diff" where
  "diff_reports sd old new =
     (let old_target = identity (rep_target old); new_target = identity (rep_target new); quoted = (\<lambda>s. [CHR 39] @ s @ [CHR 39])
      in if old_target \<noteq> new_target then
           Inl (''cannot compare different targets '' @ quoted old_target @ '' and '' @ quoted new_target)
         else (case schema_family (rep_schema_version old) of
             Inl e \<Rightarrow> Inl e
           | Inr old_family \<Rightarrow>
               (case schema_family (rep_schema_version new) of
                  Inl e \<Rightarrow> Inl e
                | Inr new_family \<Rightarrow>
                    if old_family \<noteq> new_family then
                      Inl (''cannot compare report schema families '' @ quoted (rep_schema_version old) @ '' and '' @
                        quoted (rep_schema_version new))
                    else
                      let (score, warnings) = score_change old new old_target;
                          d = \<lparr>df_schema_version = DIFF_SCHEMA_VERSION, df_old_scan = reference old old_target,
                            df_new_scan = reference new new_target,
                            df_summary = \<lparr>ds_added = 0, ds_removed = 0, ds_changed = 0\<rparr>,
                            df_network = network_changes old new old_target,
                            df_services = service_changes old new old_target,
                            df_certificates = compare_maps ''certificate'' (tls_map old) (tls_map new) old_target ''high'',
                            df_dns = dns_changes sd old new old_target,
                            df_findings = compare_maps ''finding'' (finding_map sd old) (finding_map sd new) old_target ''high'',
                            df_score = score,
                            df_completeness = completeness_changes sd old new old_target,
                            df_warnings = warnings\<rparr>
                      in Inr (d\<lparr>df_summary := foldl count_change (df_summary d) (all_changes d)\<rparr>))))"

section \<open>Renderings\<close>

definition change_marker :: "change \<Rightarrow> string" where
  "change_marker c =
     (case (ch_old_value c, ch_new_value c) of (None, Some _) \<Rightarrow> ''+'' | (Some _, None) \<Rightarrow> ''-'' | _ \<Rightarrow> ''~'')"

definition change_line :: "change \<Rightarrow> string" where
  "change_line c = concat
     [''  '', change_marker c, '' '', clean_terminal (ch_category c), '' '', clean_terminal (ch_key c), newline]"

definition change_section :: "string \<times> change list \<Rightarrow> string" where
  "change_section s =
     (case s of (title, changes) \<Rightarrow>
        if changes = [] then [] else concat [title, newline, concat (map change_line changes), newline])"

definition render_diff_terminal :: "scan_diff \<Rightarrow> string" where
  "render_diff_terminal d = concat
     [''Surface scan diff'', newline, ''Old: '', clean_terminal (ref_scan_id (df_old_scan d)), newline,
      ''New: '', clean_terminal (ref_scan_id (df_new_scan d)), newline,
      ''Target: '', clean_terminal (ref_target (df_new_scan d)), newline, newline,
      concat (map change_section
        [(''Network'', df_network d), (''Services and HTTP'', df_services d), (''Certificates'', df_certificates d),
         (''DNS and mail'', df_dns d), (''Findings'', df_findings d), (''Completeness'', df_completeness d)]),
      (case df_score d of
         Some c \<Rightarrow> concat [''Exposure score changed: '', clean_terminal (ch_evidence c), newline]
       | None \<Rightarrow> []),
      concat (map (\<lambda>warning. concat [''Warning: '', clean_terminal warning, newline]) (df_warnings d)),
      (if ds_added (df_summary d) = 0 \<and> ds_removed (df_summary d) = 0 \<and> ds_changed (df_summary d) = 0
       then concat [''No semantic changes.'', newline] else [])]"

definition change_operation :: "change \<Rightarrow> string" where
  "change_operation c =
     (case (ch_old_value c, ch_new_value c) of
        (None, Some _) \<Rightarrow> ''added'' | (Some _, None) \<Rightarrow> ''removed'' | _ \<Rightarrow> ''changed'')"

definition change_row :: "change \<Rightarrow> string" where
  "change_row c = concat
     [''<tr><td>'', escape_html (change_operation c), ''</td><td>'', escape_html (ch_category c),
      ''</td><td><code>'', escape_html (ch_key c), ''</code></td><td>'', escape_html (ch_significance c),
      ''</td></tr>'']"

definition render_diff_html :: "scan_diff \<Rightarrow> string" where
  "render_diff_html d =
     (let changes = concat (map change_row (all_changes d));
          rows = (if changes = [] then ''<tr><td colspan=\"4\">No semantic changes.</td></tr>'' else changes)
      in concat
         [''<!doctype html><html lang=\"en\"><head><meta charset=\"utf-8\">'',
          ''<meta name=\"viewport\" content=\"width=device-width\"><title>Surface scan diff</title><style>'',
          ''body{font:16px system-ui;max-width:70rem;margin:2rem auto;padding:0 1rem}table{border-collapse:collapse;width:100%}th,td{padding:.5rem;border-bottom:1px solid #888;text-align:left}code{overflow-wrap:anywhere}</style>'',
          ''</head><body><main><h1>Surface scan diff</h1><p><strong>Target:</strong> <code>'',
          escape_html (ref_target (df_new_scan d)), ''</code></p><p><strong>Old:</strong> <code>'',
          escape_html (ref_scan_id (df_old_scan d)), ''</code><br><strong>New:</strong> <code>'',
          escape_html (ref_scan_id (df_new_scan d)),
          ''</code></p><table><thead><tr><th>Operation</th><th>Category</th><th>Key</th><th>'',
          ''Significance</th></tr></thead><tbody>'', rows, ''</tbody></table><p>'',
          ''Changes are externally observed differences, not proof of compromise or security.</p></main>'',
          ''</body></html>'', newline])"

section \<open>What the changes are\<close>

definition diagonal :: "string list \<Rightarrow> (string \<times> json) list" where
  "diagonal ks = map (\<lambda>k. (k, J_String k)) ks"

definition at_key :: "string \<Rightarrow> json option \<Rightarrow> (string \<times> json) list" where
  "at_key k v = (case v of Some x \<Rightarrow> [(k, x)] | None \<Rightarrow> [])"

definition same_score_model :: "scan_report \<Rightarrow> scan_report \<Rightarrow> bool" where
  "same_score_model old new \<longleftrightarrow>
     (case (rep_exposure_score old, rep_exposure_score new) of
        (Some a, Some b) \<Rightarrow> score_model_version a = score_model_version b
      | _ \<Rightarrow> True)"

definition diff_views ::
    "serde \<Rightarrow> scan_report \<Rightarrow> scan_report \<Rightarrow> (string \<times> (scan_report \<Rightarrow> (string \<times> json) list)) list" where
  \<comment> \<open>what a report says under each category, as a map; scores of different models say nothing to each other\<close>
  "diff_views sd old new =
     [(''ip_address'', \<lambda>r. diagonal (ip_set r)),
      (''port'', port_map),
      (''service'', service_map),
      (''http_endpoint'', http_map),
      (''certificate'', tls_map),
      (''dns_record'', \<lambda>r. diagonal (dns_record_set sd r)),
      (''mail_policy'', \<lambda>r. at_key (identity (rep_target r)) (mail_value sd r)),
      (''passive_intelligence'', \<lambda>r. at_key (identity (rep_target r)) (report_intelligence sd r)),
      (''finding'', finding_map sd),
      (''scan_completeness'', \<lambda>r. at_key (identity (rep_target r)) (Some (completeness_value sd r))),
      (''exposure_score'', \<lambda>r. at_key (identity (rep_target r))
        (if same_score_model old new then map_option json_score (rep_exposure_score r) else None))]"

definition of_category :: "string \<Rightarrow> change list \<Rightarrow> change list" where
  "of_category category cs = filter (\<lambda>c. ch_category c = category) cs"

definition exact_changes :: "change list \<Rightarrow> (string \<times> json) list \<Rightarrow> (string \<times> json) list \<Rightarrow> bool" where
  \<comment> \<open>one change for every key whose value differs, with both values\<close>
  "exact_changes cs old new \<longleftrightarrow>
     distinct (map ch_key cs) \<and>
     (\<forall>k v w. (\<exists>c \<in> set cs. ch_key c = k \<and> ch_old_value c = v \<and> ch_new_value c = w) \<longleftrightarrow>
        v = map_of old k \<and> w = map_of new k \<and> v \<noteq> w)"

definition apply_change :: "(string \<times> json) list \<Rightarrow> change \<Rightarrow> (string \<times> json) list" where
  "apply_change m c =
     (case ch_new_value c of
        Some v \<Rightarrow> btm_insert (ch_key c) v m
      | None \<Rightarrow> filter (\<lambda>(k, _). k \<noteq> ch_key c) m)"

definition apply_changes :: "change list \<Rightarrow> (string \<times> json) list \<Rightarrow> (string \<times> json) list" where
  "apply_changes cs m = foldl apply_change m cs"

lemma change_of_simps [simp]:
  "ch_category (change_of c k v w t s) = c" "ch_key (change_of c k v w t s) = k"
  "ch_old_value (change_of c k v w t s) = v" "ch_new_value (change_of c k v w t s) = w"
  by (simp_all add: change_of_def)

lemma exact_changes_mset:
  assumes "mset cs = mset cs'"
  shows "exact_changes cs old new \<longleftrightarrow> exact_changes cs' old new"
proof -
  have "distinct (map ch_key cs) = distinct (map ch_key cs')"
    using assms by (intro mset_eq_imp_distinct_iff) simp
  with mset_eq_setD [OF assms] show ?thesis by (simp add: exact_changes_def)
qed

lemma exact_changesI:
  assumes "distinct (map ch_key cs)"
    and "\<And>c. c \<in> set cs \<Longrightarrow> ch_old_value c = map_of old (ch_key c) \<and> ch_new_value c = map_of new (ch_key c) \<and>
      map_of old (ch_key c) \<noteq> map_of new (ch_key c)"
    and "\<And>k. map_of old k \<noteq> map_of new k \<Longrightarrow> k \<in> ch_key ` set cs"
  shows "exact_changes cs old new"
  unfolding exact_changes_def
proof (intro conjI allI iffI)
  fix k v w
  assume "v = map_of old k \<and> w = map_of new k \<and> v \<noteq> w"
  moreover from this obtain c where "c \<in> set cs" "ch_key c = k" using assms(3) by blast
  ultimately show "\<exists>c \<in> set cs. ch_key c = k \<and> ch_old_value c = v \<and> ch_new_value c = w" using assms(2) by auto
qed (use assms(1,2) in auto)

lemma set_compare_maps:
  "c \<in> set (compare_maps category old new t s) \<longleftrightarrow>
     (\<exists>k. c = change_of category k (map_of old k) (map_of new k) t s \<and> map_of old k \<noteq> map_of new k)"
proof
  assume "\<exists>k. c = change_of category k (map_of old k) (map_of new k) t s \<and> map_of old k \<noteq> map_of new k"
  then obtain k where k: "c = change_of category k (map_of old k) (map_of new k) t s" "map_of old k \<noteq> map_of new k" by blast
  then have "k \<in> fst ` set old \<union> fst ` set new" by (metis map_of_eq_None_iff UnI1 UnI2)
  with k show "c \<in> set (compare_maps category old new t s)"
    by (auto simp: compare_maps_def Let_def set_filter_map)
qed (auto simp: compare_maps_def Let_def set_filter_map split: if_splits)

lemma filter_map_keys:
  "(\<And>x y. f x = Some y \<Longrightarrow> g y = x) \<Longrightarrow> map g (filter_map f xs) = filter (\<lambda>x. f x \<noteq> None) xs"
  by (induction xs) (auto split: option.splits)

lemma compare_maps_exact: "exact_changes (compare_maps category old new t s) old new"
proof -
  have dist: "distinct (map ch_key (compare_maps category old new t s))"
    unfolding compare_maps_def by (subst filter_map_keys) (auto simp: Let_def split: if_splits)
  have mem: "k \<in> ch_key ` set (compare_maps category old new t s)" if "map_of old k \<noteq> map_of new k" for k
    using that set_compare_maps [of "change_of category k (map_of old k) (map_of new k) t s"]
    by (metis change_of_simps(2) image_eqI)
  show ?thesis by (rule exact_changesI [OF dist _ mem]) (auto simp: set_compare_maps)
qed

lemma map_of_diagonal: "map_of (diagonal ks) k = (if k \<in> set ks then Some (J_String k) else None)"
  by (induction ks) (auto simp: diagonal_def)

lemma compare_sets_exact:
  assumes "distinct old" "distinct new"
  shows "exact_changes (compare_sets category old new t s) (diagonal old) (diagonal new)"
  using assms
  by (intro exact_changesI) (auto simp: compare_sets_def o_def map_of_diagonal image_Un image_image split: if_splits)

lemma map_of_at_key: "map_of (at_key k v) k' = (if k' = k then v else None)"
  by (cases v) (auto simp: at_key_def)

lemma push_difference_exact: "exact_changes (push_difference category k s v w []) (at_key k v) (at_key k w)"
  by (rule exact_changesI) (auto simp: push_difference_def push_def map_of_at_key split: if_splits)

lemma of_category_simps [simp]:
  "of_category category [] = []"
  "of_category category (a @ b) = of_category category a @ of_category category b"
  "of_category category (compare_maps c old new t s) = (if c = category then compare_maps c old new t s else [])"
  "of_category category (compare_sets c xs ys t s) = (if c = category then compare_sets c xs ys t s else [])"
  "of_category category (push_difference c k s v w cs) =
     of_category category cs @ (if c = category then push_difference c k s v w [] else [])"
  using set_compare_maps [of _ c old new t s]
  by (auto simp: of_category_def compare_sets_def push_difference_def push_def filter_empty_conv intro!: filter_True)

lemma of_category_sort: "mset (of_category category (sort_changes cs)) = mset (of_category category cs)"
  by (simp add: of_category_def sort_changes_def mset_filter)

lemma json_object_same:
  assumes "json_object xs = json_object ys" "distinct (map fst xs)" "distinct (map fst ys)"
  shows "map_of xs k = map_of ys k"
proof -
  from assms(1) have "map_of (btm_of_list xs) k = map_of (btm_of_list ys) k" by (simp add: json_object_def)
  moreover have "map_of (rev zs) = map_of zs" if "distinct (map fst zs)" for zs :: "(string \<times> json) list"
    using that map_of_inject_set [of "rev zs" zs] by (simp add: rev_map [symmetric])
  ultimately show ?thesis using assms(2,3) by (simp add: map_of_btm_of_list)
qed

lemma json_list_inject: "(\<And>a b. f a = f b \<longleftrightarrow> a = b) \<Longrightarrow> json_list f xs = json_list f ys \<longleftrightarrow> xs = ys"
  by (simp add: json_list_def inj_map_eq_map inj_on_def)

lemma score_class_name_inject: "score_class_name a = score_class_name b \<longleftrightarrow> a = b"
  by (cases a; cases b) simp_all

lemma json_deduction_inject: "json_deduction a = json_deduction b \<longleftrightarrow> a = b"
proof
  assume eq: "json_deduction a = json_deduction b"
  note field = json_object_same [OF eq [unfolded json_deduction_def]]
  have texts: "json_text u = json_text v \<longleftrightarrow> u = v" for u v by (cases u; cases v) simp_all
  have "J_String (ded_id a) = J_String (ded_id b)" using field [of "''id''"] by simp
  moreover have "json_nat (ded_points a) = json_nat (ded_points b)" using field [of "''points''"] by simp
  moreover have "J_String (ded_reason a) = J_String (ded_reason b)" using field [of "''reason''"] by simp
  moreover have "json_list J_String (ded_finding_ids a) = json_list J_String (ded_finding_ids b)" using field [of "''finding_ids''"] by simp
  moreover have "json_text (ded_target a) = json_text (ded_target b)" using field [of "''target''"] by simp
  ultimately show "a = b" by (intro score_deduction.equality) (simp_all add: json_list_inject texts)
qed simp

lemma json_score_inject: "json_score a = json_score b \<longleftrightarrow> a = b"
proof
  assume eq: "json_score a = json_score b"
  note field = json_object_same [OF eq [unfolded json_score_def]]
  have "J_String (score_model_version a) = J_String (score_model_version b)" using field [of "''model_version''"] by simp
  moreover have "json_nat (score_value a) = json_nat (score_value b)" using field [of "''value''"] by simp
  moreover have "J_String (score_class_name (score_class a)) = J_String (score_class_name (score_class b))"
    using field [of "''classification''"] by simp
  moreover have "json_list json_deduction (score_deductions a) = json_list json_deduction (score_deductions b)"
    using field [of "''deductions''"] by simp
  moreover have "J_Bool (score_incomplete a) = J_Bool (score_incomplete b)" using field [of "''incomplete''"] by simp
  moreover have "json_list J_String (score_limitations a) = json_list J_String (score_limitations b)"
    using field [of "''limitations''"] by simp
  ultimately show "a = b"
    by (intro exposure_score.equality) (simp_all add: json_list_inject json_deduction_inject score_class_name_inject)
qed simp

lemma score_change_category:
  "score_change old new t = (Some c, ws) \<Longrightarrow> ch_category c = ''exposure_score''"
  by (auto simp: score_change_def Let_def split: option.splits if_splits)

lemma score_change_exact:
  "score_change old new t = (score, ws) \<Longrightarrow>
     exact_changes (case score of Some c \<Rightarrow> [c] | None \<Rightarrow> [])
       (at_key t (if same_score_model old new then map_option json_score (rep_exposure_score old) else None))
       (at_key t (if same_score_model old new then map_option json_score (rep_exposure_score new) else None))"
  by (rule exact_changesI)
    (auto simp: score_change_def same_score_model_def Let_def map_of_at_key json_score_inject split: option.splits if_splits)

lemma of_category_score:
  "score_change old new t = (score, ws) \<Longrightarrow>
     of_category category (case score of Some c \<Rightarrow> [c] | None \<Rightarrow> []) =
       (if category = ''exposure_score'' then case score of Some c \<Rightarrow> [c] | None \<Rightarrow> [] else [])"
  by (cases score) (auto simp: of_category_def dest: score_change_category)

lemma diff_reports_Inr:
  assumes "diff_reports sd old new = Inr d"
  shows "identity (rep_target old) = identity (rep_target new)"
    and "\<exists>f. schema_family (rep_schema_version old) = Inr f \<and> schema_family (rep_schema_version new) = Inr f"
    and "all_changes d = network_changes old new (identity (rep_target old)) @ service_changes old new (identity (rep_target old)) @
      compare_maps ''certificate'' (tls_map old) (tls_map new) (identity (rep_target old)) ''high'' @
      dns_changes sd old new (identity (rep_target old)) @
      compare_maps ''finding'' (finding_map sd old) (finding_map sd new) (identity (rep_target old)) ''high'' @
      completeness_changes sd old new (identity (rep_target old)) @
      (case fst (score_change old new (identity (rep_target old))) of Some c \<Rightarrow> [c] | None \<Rightarrow> [])"
    and "df_summary d = foldl count_change \<lparr>ds_added = 0, ds_removed = 0, ds_changed = 0\<rparr> (all_changes d)"
    and "df_warnings d = snd (score_change old new (identity (rep_target old)))"
  using assms
  by (auto simp: diff_reports_def Let_def all_changes_def split: if_splits sum.splits prod.splits)

lemma category_names:
  "distinct [''ip_address'', ''port'', ''service'', ''http_endpoint'', ''certificate'', ''dns_record'', ''mail_policy'',
     ''passive_intelligence'', ''finding'', ''scan_completeness'', ''exposure_score'']"
  "distinct [''scan_completeness'', ''finding'', ''passive_intelligence'', ''mail_policy'', ''dns_record'', ''certificate'',
     ''http_endpoint'', ''service'', ''port'', ''ip_address'']"
  by code_simp+

lemmas category_neq = category_names [unfolded distinct.simps list.set insert_iff de_Morgan_disj]

lemma diff_changes_exact_lemma:
  assumes d: "diff_reports sd old new = Inr d" and view: "(category, view) \<in> set (diff_views sd old new)"
  shows "exact_changes (of_category category (all_changes d)) (view old) (view new)"
proof -
  let ?t = "identity (rep_target old)"
  obtain score ws where score: "score_change old new ?t = (score, ws)" by (cases "score_change old new ?t")
  note all = diff_reports_Inr(3) [OF d]
  note same = diff_reports_Inr(1) [OF d, symmetric]
  have sets: "distinct (ip_set r)" "distinct (dns_record_set sd r)" for r
    by (simp_all add: ip_set_def dns_record_set_def split: option.split)
  have parts: "mset (of_category category (all_changes d)) = mset (
      of_category category (compare_sets ''ip_address'' (ip_set old) (ip_set new) ?t ''medium'') @
      of_category category (compare_maps ''port'' (port_map old) (port_map new) ?t ''medium'') @
      of_category category (compare_maps ''service'' (service_map old) (service_map new) ?t ''medium'') @
      of_category category (compare_maps ''http_endpoint'' (http_map old) (http_map new) ?t ''medium'') @
      of_category category (compare_maps ''certificate'' (tls_map old) (tls_map new) ?t ''high'') @
      of_category category (compare_sets ''dns_record'' (dns_record_set sd old) (dns_record_set sd new) ?t ''medium'') @
      of_category category (push_difference ''mail_policy'' ?t ''high'' (mail_value sd old) (mail_value sd new) []) @
      of_category category (push_difference ''passive_intelligence'' ?t ''medium''
        (report_intelligence sd old) (report_intelligence sd new) []) @
      of_category category (compare_maps ''finding'' (finding_map sd old) (finding_map sd new) ?t ''high'') @
      of_category category (completeness_changes sd old new ?t) @
      (if category = ''exposure_score'' then case score of Some c \<Rightarrow> [c] | None \<Rightarrow> [] else []))"
    using of_category_score [OF score]
    by (simp add: all score network_changes_def service_changes_def dns_changes_def Let_def of_category_sort
        completeness_changes_def)
  from view show ?thesis
    unfolding exact_changes_mset [OF parts] diff_views_def completeness_changes_def list.set insert_iff prod.inject
    by (elim disjE conjE emptyE; hypsubst)
      (simp_all only: of_category_simps category_neq if_True if_False append_Nil append_Nil2
        refl compare_maps_exact compare_sets_exact push_difference_exact score_change_exact [OF score] sets same empty_iff)
qed

lemma apply_changes_btm: "btm_wf m \<Longrightarrow> btm_wf (apply_changes cs m)"
proof -
  have filt: "btm_wf (filter P m)" if "btm_wf m" for P and m :: "(string \<times> json) list"
    using that by (simp add: btm_wf_def sorted_filter distinct_map_filter)
  show "btm_wf m \<Longrightarrow> btm_wf (apply_changes cs m)"
    by (induction cs arbitrary: m) (auto simp: apply_changes_def apply_change_def btm_wf_insert filt split: option.split)
qed

lemma map_of_apply_change: "map_of (apply_change m c) k = (if k = ch_key c then ch_new_value c else map_of m k)"
proof -
  have "map_of (filter (\<lambda>(k, _). k \<noteq> a) m) k = (if k = a then None else map_of m k)" for a
    by (induction m) auto
  then show ?thesis by (auto simp: apply_change_def map_of_btm_insert split: option.split)
qed

lemma map_of_apply_changes:
  "distinct (map ch_key cs) \<Longrightarrow> map_of (apply_changes cs m) k =
     (case find (\<lambda>c. ch_key c = k) cs of Some c \<Rightarrow> ch_new_value c | None \<Rightarrow> map_of m k)"
proof (induction cs arbitrary: m)
  case (Cons c cs)
  then have IH: "map_of (apply_changes cs (apply_change m c)) k =
      (case find (\<lambda>c. ch_key c = k) cs of Some c \<Rightarrow> ch_new_value c | None \<Rightarrow> map_of (apply_change m c) k)" by simp
  have "find (\<lambda>c. ch_key c = k) cs = None" if "ch_key c = k"
    unfolding find_None_iff using Cons.prems that by (auto simp del: imageI) (metis imageI)
  with IH show ?case
    by (cases "find (\<lambda>c. ch_key c = k) cs") (auto simp: apply_changes_def map_of_apply_change)
qed (simp add: apply_changes_def)

lemma exact_changes_apply:
  assumes "exact_changes cs old new" "btm_wf old" "btm_wf new"
  shows "apply_changes cs old = new"
proof (rule btm_ext)
  show "map_of (apply_changes cs old) = map_of new"
  proof
    fix k
    have dist: "distinct (map ch_key cs)" using assms(1) by (simp add: exact_changes_def)
    show "map_of (apply_changes cs old) k = map_of new k"
    proof (cases "find (\<lambda>c. ch_key c = k) cs")
      case None
      then have "\<not> (\<exists>c \<in> set cs. ch_key c = k)" by (auto simp: find_None_iff)
      with assms(1) have "map_of old k = map_of new k" unfolding exact_changes_def by blast
      with None show ?thesis by (simp add: map_of_apply_changes [OF dist])
    next
      case (Some c)
      then have "c \<in> set cs" "ch_key c = k" by (auto simp: find_Some_iff)
      with assms(1) have "ch_new_value c = map_of new k" unfolding exact_changes_def by blast
      with Some show ?thesis by (simp add: map_of_apply_changes [OF dist])
    qed
  qed
qed (simp_all add: assms apply_changes_btm)

lemma view_wf:
  assumes "(category, view) \<in> set (diff_views sd old new)"
  shows "btm_wf (view r)"
proof -
  have diag: "btm_wf (diagonal (btree_set ks))" for ks
    by (simp add: btm_wf_def diagonal_def o_def)
  have dns: "btm_wf (diagonal (dns_record_set sd r))"
    using diag [of "[]"] by (auto simp: dns_record_set_def diag split: option.split)
  have at: "btm_wf (at_key k v)" for k v
    by (cases v) (simp_all add: at_key_def btm_wf_def)
  from assms show ?thesis
    unfolding diff_views_def list.set insert_iff prod.inject
    by (elim disjE conjE emptyE; hypsubst)
      (simp_all add: diag dns at ip_set_def port_map_def service_map_def http_map_def tls_map_def finding_map_def)
qed

lemma schema_family_cases:
  "(\<exists>f. schema_family v = Inr f \<and> schema_family w = Inr f) \<longleftrightarrow>
     {v, w} \<subseteq> {''0.1.0'', ''0.1.1'', ''0.1.2'', ''0.2.0'', ''0.3.0''} \<or> v = ''0.4.0'' \<and> w = ''0.4.0''"
  by (auto simp: schema_family_def)

section \<open>Properties\<close>

text \<open>
  C15: The changes a comparison lists under each of its categories are exact: for what the code takes the two reports to say under
  it, as keyed maps, there is one change for every key whose value differs, with the value on either side, and none for any other
  key; two scores of different models are not compared. (Under passive intelligence, what is compared still holds the error texts
  nested in the DNS observations of subdomains.)
\<close>

theorem diff_changes_exact:
  assumes "diff_reports sd old new = Inr d" "(category, view) \<in> set (diff_views sd old new)"
  shows "exact_changes (of_category category (all_changes d)) (view old) (view new)"
  by (rule diff_changes_exact_lemma [OF assms])

definition plain_serde :: serde where
  "plain_serde = \<lparr>sd_to_string = (\<lambda>_. ''text''), sd_dns_record = (\<lambda>_. ''record''), sd_finding = fnd_id,
     sd_mail = (\<lambda>_. J_Null), sd_intelligence = (\<lambda>_. J_Object [])\<rparr>"

definition with_port :: "port_state \<Rightarrow> scan_report" where
  "with_port state = sample_report\<lparr>rep_hosts :=
     [\<lparr>host_ip = V4 3221225985, host_ports = [\<lparr>po_transport = Tcp, po_address = SocketAddr (V4 3221225985) 22, po_state = state,
        po_latency_ms = None, po_error = None\<rparr>]\<rparr>]\<rparr>"

lemma sample_diff:
  "case diff_reports plain_serde (with_port Open) (with_port Closed) of
     Inr d \<Rightarrow> map (\<lambda>c. (ch_category c, ch_key c, ch_old_value c, ch_new_value c)) (all_changes d) =
       [(''port'', ''tcp:192.0.2.1:22'', Some (J_String ''open''), Some (J_String ''closed''))]
   | Inl _ \<Rightarrow> False"
  by code_simp

lemma diff_changes_exact_witness:
  "\<exists>d. diff_reports plain_serde (with_port Open) (with_port Closed) = Inr d \<and>
     exact_changes (of_category ''port'' (all_changes d)) (port_map (with_port Open)) (port_map (with_port Closed))"
proof -
  obtain d where d: "diff_reports plain_serde (with_port Open) (with_port Closed) = Inr d"
    using sample_diff by (auto split: sum.splits)
  have "(''port'', port_map) \<in> set (diff_views plain_serde (with_port Open) (with_port Closed))" by (simp add: diff_views_def)
  from diff_changes_exact [OF d this] d show ?thesis by blast
qed

text \<open>
  Nothing is lost: applying the changes of a category to what the old report says under it gives what the new report says.
\<close>

theorem diff_changes_reconstruct:
  assumes "diff_reports sd old new = Inr d" "(category, view) \<in> set (diff_views sd old new)"
  shows "apply_changes (of_category category (all_changes d)) (view old) = view new"
  by (rule exact_changes_apply [OF diff_changes_exact_lemma [OF assms] view_wf [OF assms(2)] view_wf [OF assms(2)]])

lemma diff_changes_reconstruct_witness:
  "\<exists>d. diff_reports plain_serde (with_port Open) (with_port Closed) = Inr d \<and>
     apply_changes (of_category ''port'' (all_changes d)) (port_map (with_port Open)) = port_map (with_port Closed)"
proof -
  obtain d where d: "diff_reports plain_serde (with_port Open) (with_port Closed) = Inr d"
    using sample_diff by (auto split: sum.splits)
  have "(''port'', port_map) \<in> set (diff_views plain_serde (with_port Open) (with_port Closed))" by (simp add: diff_views_def)
  from diff_changes_reconstruct [OF d this] d show ?thesis by blast
qed

text \<open>
  Two reports can be compared exactly when they have the same target identity and their schema versions are both of
  the legacy family or both \<open>0.4.0\<close>; every other pair is refused.
\<close>

theorem diff_comparable_exact:
  "(\<exists>d. diff_reports sd old new = Inr d) \<longleftrightarrow>
     identity (rep_target old) = identity (rep_target new) \<and>
     ({rep_schema_version old, rep_schema_version new} \<subseteq> {''0.1.0'', ''0.1.1'', ''0.1.2'', ''0.2.0'', ''0.3.0''} \<or>
      {rep_schema_version old, rep_schema_version new} = {''0.4.0''})"
proof -
  have "(\<exists>d. diff_reports sd old new = Inr d) \<longleftrightarrow>
      identity (rep_target old) = identity (rep_target new) \<and>
      (\<exists>f. schema_family (rep_schema_version old) = Inr f \<and> schema_family (rep_schema_version new) = Inr f)"
    by (auto simp: diff_reports_def Let_def split: sum.splits prod.splits)
  then show ?thesis unfolding schema_family_cases by (auto simp: doubleton_eq_iff)
qed

definition diff_template_tags :: "string list" where
  "diff_template_tags =
     [''!doctype html'', ''html lang=\"en\"'', ''head'', ''meta charset=\"utf-8\"'',
      ''meta name=\"viewport\" content=\"width=device-width\"'', ''title'', ''/title'', ''style'', ''/style'', ''/head'',
      ''body'', ''main'', ''h1'', ''/h1'', ''p'', ''/p'', ''strong'', ''/strong'', ''code'', ''/code'', ''br'', ''table'',
      ''thead'', ''tr'', ''th'', ''/th'', ''/tr'', ''/thead'', ''tbody'', ''/tbody'', ''/table'', ''td'',
      ''td colspan=\"4\"'', ''/td'', ''/main'', ''/body'', ''/html'']"

text \<open>
  The text of a report cannot alter the structure of the HTML comparison: whatever the reports contain, the document
  is tokenised into tags of the template only, and the tokenizer ends outside of a tag.
\<close>

theorem diff_html_template_tags: "tags_in (set diff_template_tags) (render_diff_html d)"
proof -
  have row: "tags_in (set diff_template_tags) (change_row c)" for c
    unfolding change_row_def concat.simps
    by (intro tags_in_rules; rule tags_checkI; code_simp)
  have rows: "tags_in (set diff_template_tags) (concat (map change_row cs))" for cs
    by (rule tags_in_concat) (auto simp: row)
  show ?thesis
    unfolding render_diff_html_def Let_def concat.simps
    by (intro tags_in_rules rows; rule tags_checkI; code_simp)
qed

end
