(* ===== verification/Terminal.thy ===== *)
theory Terminal
  imports Render_Text
begin

text \<open>
  The plain-text report, \<open>render_terminal\<close> of \<^verbatim>\<open>crates/surface-report/src/lib.rs\<close>, one definition per section. The text of
  a time is a parameter.
\<close>

section \<open>Sections\<close>

definition term_value :: "string option \<Rightarrow> string" where
  \<comment> \<open>\<open>clean_terminal(&bounded_ssh_value(..))\<close>\<close>
  "term_value v = clean_terminal (bounded_ssh_value v)"

definition term_header :: "(int \<Rightarrow> string) \<Rightarrow> scan_report \<Rightarrow> string" where
  "term_header show_time r = concat
    [''Surface '', clean_terminal (rep_scanner_version r), newline, ''Target: '',
     clean_terminal (tgt_original (rep_target r)), newline, ''Started: '', show_time (rep_started_at r),
     newline, ''Status: '', status_debug (rep_status r), newline, newline]"

definition term_port :: "port_projection \<Rightarrow> string" where
  "term_port p = concat
    [''    '', show_nat (unat (pp_number p)), ''/'', pp_transport p, ''  '', pp_state p, ''  '', pp_service p,
     newline]"

definition term_host :: "scan_report \<Rightarrow> host_observation \<Rightarrow> string" where
  "term_host r host = concat
    [''  '', show_ip (host_ip host), newline, concat (map term_port (project_ports r host))]"

definition term_hosts :: "scan_report \<Rightarrow> string" where
  "term_hosts r = (if rep_hosts r \<noteq> []
     then concat [''Hosts'', newline, concat (map (term_host r) (rep_hosts r)), newline] else [])"

definition term_selections :: "ssh_projection \<Rightarrow> string" where
  "term_selections p =
     (let s = sp_selections p
      in if part_kex s \<noteq> None then
           concat
             [''    KEXINIT-inferred selections ('', sp_status p, ''; no completed key exchange): KEX='',
              term_value (part_kex s), ''  host-key='', term_value (part_host_key s), newline,
              ''      cipher c2s='', term_value (part_cipher_c2s s), ''  s2c='',
              term_value (part_cipher_s2c s), ''  MAC c2s='', term_value (part_mac_c2s s), ''  s2c='',
              term_value (part_mac_s2c s), newline]
         else concat [''    No inferred selections available.'', newline])"

definition term_ssh_service :: "service_observation \<Rightarrow> string" where
  "term_ssh_service service =
     (case project_ssh service of
        None \<Rightarrow> []
      | Some p \<Rightarrow>
          concat
            [''  '', show_socket (svc_address service), ''  protocol='', term_value (sp_protocol p),
             ''  software='', term_value (sp_software p), ''  status='', sp_status p, newline,
             (case svc_banner service of Some banner \<Rightarrow> concat [''    Banner: '', term_value (Some banner), newline] | None \<Rightarrow> []),
             term_selections p,
             (case sp_reason p of Some reason \<Rightarrow> concat [''    Skip reason (bounded): '', term_value (Some reason), newline] | None \<Rightarrow> [])])"

definition term_ssh :: "scan_report \<Rightarrow> string" where
  "term_ssh r =
     (if list_ex (\<lambda>s. svc_ssh s \<noteq> None) (rep_services r)
      then concat
        [''SSH posture'', newline,
         concat (map term_ssh_service (filter (\<lambda>s. svc_ssh s \<noteq> None) (rep_services r))),
         newline] else [])"

definition term_redirect :: "redirect_observation \<Rightarrow> string" where
  "term_redirect d = concat
    [''    '', clean_terminal (rd_from d), '' --'', show_nat (unat (rd_status d)), ''--> '',
     clean_terminal (rd_to d), newline]"

definition term_http_endpoint :: "http_observation \<Rightarrow> string" where
  "term_http_endpoint h =
     concat
       [''  '', clean_terminal (ho_url h), ''  status='',
        unknown_or ''error'' (\<lambda>status. show_nat (unat status)) (ho_status h),
        (if hsts_state h \<noteq> Hsts_NotApplicable then ''  HSTS='' @ hsts_label (hsts_state h) else []),
        ''  security.txt='', option_bool (ho_security_txt h), newline,
        concat (map term_redirect (ho_redirects h))]"

definition term_http :: "scan_report \<Rightarrow> string" where
  "term_http r = (if rep_http r \<noteq> []
     then concat [''HTTP'', newline, concat (map term_http_endpoint (rep_http r)), newline] else [])"

definition term_text :: "string option \<Rightarrow> string" where
  \<comment> \<open>\<open>clean_terminal(..as_deref().unwrap_or("unknown"))\<close>\<close>
  "term_text v = clean_terminal (case v of Some s \<Rightarrow> s | None \<Rightarrow> ''unknown'')"

definition term_limitation :: "string \<Rightarrow> string" where
  "term_limitation limitation = concat [''    Error/limitation: '', clean_terminal limitation, newline]"

definition term_tls_endpoint :: "tls_observation \<Rightarrow> string" where
  "term_tls_endpoint t =
     concat
       [''  '', show_socket (to_address t), ''  validation='',
        (if to_handshake_succeeded t then ''passed'' else ''failed''), ''  trusted='',
        option_yes_no (to_certificate_trusted t), ''  hostname='', option_yes_no (to_hostname_matches t),
        ''  protocol='', term_text (to_protocol_version t), ''  cipher='', term_text (to_cipher_suite t),
        ''  chain='', unknown_or ''unknown'' show_nat (to_certificate_chain_length t), ''  key_bits='',
        unknown_or ''unknown'' show_nat (to_public_key_bits t), newline, ''    Leaf SHA-256: '',
        term_text (to_leaf_certificate_sha256 t), newline, ''    Subject: '', term_text (to_subject t),
        ''  Issuer: '', term_text (to_issuer t), ''  Serial: '', term_text (to_serial_number t), newline,
        ''    Validity: '', unknown_or ''unknown'' show_int (to_valid_from_unix t), '' to '',
        unknown_or ''unknown'' show_int (to_valid_until_unix t), ''  key_oid='',
        term_text (to_public_key_algorithm t), ''  signature_oid='', term_text (to_signature_algorithm t),
        newline, ''    SANs'', (if to_subject_alt_names_truncated t then '' (truncated)'' else []), '': '',
        clean_terminal (join '', '' (to_subject_alt_names t)), newline,
        concat (map term_limitation (to_errors t))]"

definition term_tls :: "scan_report \<Rightarrow> string" where
  "term_tls r = (if rep_tls r \<noteq> [] then concat
    [''TLS'', newline, concat (map term_tls_endpoint (rep_tls r)), newline] else [])"

definition pad_right :: "nat \<Rightarrow> string \<Rightarrow> string" where
  \<comment> \<open>the format \<open>{:<n}\<close> of an ASCII text\<close>
  "pad_right n s = s @ replicate (n - length s) (CHR '' '')"

definition term_finding :: "finding \<Rightarrow> string" where
  "term_finding f =
     concat
       [''  '', pad_right 8 (to_ascii_uppercase (severity_debug (fnd_severity f))), '' '',
        clean_terminal (fnd_title f), '' '', em_dash, '' '', clean_terminal (fnd_target f), newline]"

definition term_findings :: "scan_report \<Rightarrow> string" where
  "term_findings r =
     concat
       [''Findings'', newline,
        (if rep_findings r = [] then concat [''  No findings generated.'', newline] else concat (map term_finding (rep_findings r)))]"

definition term_ct :: "certificate_transparency_observation \<Rightarrow> string" where
  "term_ct ct =
     concat
       [newline, ''Verified subdomains'', newline, ''  Source: '', clean_terminal (ct_source ct), '' '',
        middle_dot, '' pages: '', show_nat (ct_pages_fetched ct), '' '', middle_dot, '' complete: '',
        bool_str (ct_complete ct), newline,
        ''  DNS verification is passive only; these names were not actively scanned.'', newline,
        concat (map (\<lambda>c. concat [''  '', clean_terminal (ctc_name c), newline]) (filter (\<lambda>c. \<not> ctc_wildcard c \<and> ctc_dns_status c = Ct_Resolved) (ct_candidates ct)))]"

definition term_certificates :: "scan_report \<Rightarrow> string" where
  "term_certificates r =
     (case rep_intelligence r of
        None \<Rightarrow> []
      | Some i \<Rightarrow> (case int_certificate_transparency i of Some ct \<Rightarrow> term_ct ct | None \<Rightarrow> []))"

definition term_related :: "scan_report \<Rightarrow> string" where
  "term_related r =
     (case rep_intelligence r of
        None \<Rightarrow> []
      | Some i \<Rightarrow>
          (case int_related_domains i of
             None \<Rightarrow> []
           | Some related \<Rightarrow>
               (case rdo_provider related of
                  Some provider \<Rightarrow> concat [newline, ''Provider: '', clean_terminal provider, newline]
                | None \<Rightarrow> [])))"

definition term_deduction :: "score_deduction \<Rightarrow> string" where
  "term_deduction d = concat [''  -'', show_nat (ded_points d), ''  '', clean_terminal (ded_reason d), newline]"

definition term_score :: "scan_report \<Rightarrow> string" where
  "term_score r =
     (case rep_exposure_score r of
        None \<Rightarrow> []
      | Some score \<Rightarrow>
          concat
            [newline, ''Surface Exposure Score: '', show_nat (score_value score), ''/100 ('',
             score_class_debug (score_class score), '', model '', clean_terminal (score_model_version score),
             '')'', newline,
             (if score_incomplete score then concat [''  Incomplete scan: score interpretation is limited.'', newline] else []),
             concat (map term_deduction (score_deductions score))])"

definition term_skip :: "skipped_check \<Rightarrow> string" where
  "term_skip s = concat
    [''  '', clean_terminal (skip_check s), '' '', em_dash, '' '', clean_terminal (skip_reason s), newline]"

definition term_skipped :: "scan_report \<Rightarrow> string" where
  "term_skipped r =
     (if rep_skipped_checks r \<noteq> []
      then concat [newline, ''Checks not run'', newline, concat (map term_skip (rep_skipped_checks r))] else [])"

definition term_count :: "scan_report \<Rightarrow> severity \<Rightarrow> string" where
  "term_count r severity =
     concat
       [''  '', severity_debug severity, '': '',
        show_nat (length (filter (\<lambda>f. fnd_severity f = severity) (rep_findings r))), newline]"

definition term_summary :: "scan_report \<Rightarrow> string" where
  "term_summary r =
     concat
       [newline, ''Summary'', newline,
        concat (map (term_count r) [Sev_Critical, Sev_High, Sev_Medium, Sev_Low, Sev_Info]),
        (if 0 < lp_errors (project_lifecycle r) then concat [''  '', status_debug (rep_status r), '' errors: '', show_nat (lp_errors (project_lifecycle r)), newline] else [])]"

definition render_terminal :: "(int \<Rightarrow> string) \<Rightarrow> scan_report \<Rightarrow> string" where
  "render_terminal show_time r = concat
     [term_header show_time r, term_hosts r, term_ssh r, term_http r, term_tls r, term_findings r,
      term_certificates r, term_related r, term_score r, term_skipped r, term_summary r]"

section \<open>No control characters\<close>

lemma term_redirect_line: "line_text (term_redirect d)"
  unfolding term_redirect_def concat.simps
  by (intro line_rules line_text_template only_template; simp only: template_literal)

lemma term_limitation_line: "line_text (term_limitation d)"
  unfolding term_limitation_def concat.simps
  by (intro line_rules line_text_template only_template; simp only: template_literal)

lemma term_tls_line: "line_text (term_tls_endpoint t)"
  unfolding term_tls_endpoint_def term_text_def concat.simps
  by (intro line_rules term_limitation_line line_text_template only_template template_unknown_or template_if; simp only: template_literal)

lemma template_padded: "template (pad_right n (to_ascii_uppercase (severity_debug s)))"
proof -
  have "template (to_ascii_uppercase (severity_debug s))" by (induction s; code_simp)
  moreover have "template (replicate k (CHR '' ''))" for k
    by (induction k) (simp_all only: replicate.simps template_literal)
  ultimately show ?thesis by (simp add: pad_right_def template_append)
qed

lemma term_finding_line: "line_text (term_finding f)"
  unfolding term_finding_def concat.simps
  by (intro line_rules template_padded line_text_template only_template; simp only: template_literal)

lemma term_deduction_line: "line_text (term_deduction d)"
  unfolding term_deduction_def concat.simps
  by (intro line_rules line_text_template only_template; simp only: template_literal)

lemma term_skip_line: "line_text (term_skip s)"
  unfolding term_skip_def concat.simps
  by (intro line_rules line_text_template only_template; simp only: template_literal)

lemma term_count_line: "line_text (term_count r s)"
  unfolding term_count_def concat.simps
  by (intro line_rules line_text_template only_template; simp only: template_literal)

lemma term_ct_line: "line_text (term_ct ct)"
  unfolding term_ct_def concat.simps
  by (intro line_rules line_text_template only_template; simp only: template_literal)

lemma term_selections_line: "line_text (term_selections p)" if "template (sp_status p)"
  unfolding term_selections_def Let_def term_value_def concat.simps
  using that
  by (intro line_rules line_text_if line_text_template only_template; simp only: template_literal)

lemma project_outcome_status: "template (fst (project_outcome o'))"
  by (cases o') (simp_all add: template_literal)

lemma project_ssh_status: "project_ssh s = Some p \<Longrightarrow> template (sp_status p)"
  by (auto simp: project_ssh_def case_prod_beta project_outcome_status)

lemma term_ssh_line: "line_text (term_ssh_service s)"
proof (cases "project_ssh s")
  case (Some p)
  show ?thesis
    unfolding term_ssh_service_def concat.simps term_value_def Some option.case
    by (intro line_rules line_text_template only_template project_ssh_status [OF Some] line_text_only line_text_append
        term_selections_line line_option; (simp only: template_literal)?)
qed (simp add: term_ssh_service_def line_text_Nil)

lemma project_ports_plain:
  "p \<in> set (project_ports r host) \<Longrightarrow> template (pp_transport p) \<and> template (pp_state p) \<and> template (pp_service p)"
  by (auto simp: project_ports_def set_filter_map project_port_def Let_def template_labels template_service template_literal
      split: if_splits option.splits)

lemma term_host_line: "line_text (term_host r host)"
proof -
  have port: "line_text (term_port p)" if "p \<in> set (project_ports r host)" for p
    unfolding term_port_def concat.simps
    by (intro line_rules line_text_template only_template; (simp only: template_literal project_ports_plain [OF that])?)
  have "line_text (concat (map term_port (project_ports r host)))" by (rule line_text_concat) (auto simp: port)
  then have ports: "only_newlines (concat (map term_port (project_ports r host)) @ [])" by (simp add: line_text_only)
  show ?thesis
    unfolding term_host_def concat.simps
    by (intro ports template_ip line_text_template only_template; simp only: template_literal)
qed

lemma term_http_line: "line_text (term_http_endpoint h)"
proof -
  have "template (if hsts_state h \<noteq> Hsts_NotApplicable then ''  HSTS='' @ hsts_label (hsts_state h) else [])"
    by (simp add: template_append template_labels template_literal)
  then show ?thesis
    unfolding term_http_endpoint_def concat.simps
    by (intro line_rules term_redirect_line line_text_template only_template template_unknown_or;
        (simp only: template_literal)?)
qed

lemmas term_section_lines = term_host_line term_ssh_line term_http_line term_tls_line term_finding_line term_ct_line
  term_deduction_line term_skip_line term_count_line

lemma term_hosts_lines: "line_text (term_hosts r)"
  unfolding term_hosts_def concat.simps
  by (intro line_text_if line_option line_rules line_text_map term_section_lines only_if line_if
      line_text_template only_template;
      simp only: template_literal)

lemma term_ssh_lines: "line_text (term_ssh r)"
  unfolding term_ssh_def concat.simps
  by (intro line_text_if line_option line_rules line_text_map term_section_lines only_if line_if
      line_text_template only_template;
      simp only: template_literal)

lemma term_http_lines: "line_text (term_http r)"
  unfolding term_http_def concat.simps
  by (intro line_text_if line_option line_rules line_text_map term_section_lines only_if line_if
      line_text_template only_template;
      simp only: template_literal)

lemma term_tls_lines: "line_text (term_tls r)"
  unfolding term_tls_def concat.simps
  by (intro line_text_if line_option line_rules line_text_map term_section_lines only_if line_if
      line_text_template only_template;
      simp only: template_literal)

lemma term_findings_lines: "line_text (term_findings r)"
  unfolding term_findings_def concat.simps
  by (intro line_text_if line_option line_rules line_text_map term_section_lines only_if line_if
      line_text_template only_template;
      simp only: template_literal)

lemma term_certificates_lines: "line_text (term_certificates r)"
  unfolding term_certificates_def concat.simps
  by (intro line_text_if line_option line_rules line_text_map term_section_lines only_if line_if
      line_text_template only_template;
      simp only: template_literal)

lemma term_related_lines: "line_text (term_related r)"
  unfolding term_related_def concat.simps
  by (intro line_text_if line_option line_rules line_text_map term_section_lines only_if line_if
      line_text_template only_template;
      simp only: template_literal)

lemma term_score_lines: "line_text (term_score r)"
  unfolding term_score_def concat.simps
  by (intro line_text_if line_option line_rules line_text_map term_section_lines only_if line_if
      line_text_template only_template;
      simp only: template_literal)

lemma term_skipped_lines: "line_text (term_skipped r)"
  unfolding term_skipped_def concat.simps
  by (intro line_text_if line_option line_rules line_text_map term_section_lines only_if line_if
      line_text_template only_template;
      simp only: template_literal)

lemma term_summary_lines: "line_text (term_summary r)"
  unfolding term_summary_def concat.simps
  by (intro line_text_if line_option line_rules line_text_map term_section_lines only_if line_if
      line_text_template only_template;
      simp only: template_literal)

lemma term_header_lines:
  assumes "\<And>t. template (show_time t)"
  shows "line_text (term_header show_time r)"
  unfolding term_header_def concat.simps
  by (intro line_rules assms line_text_template only_template; simp only: template_literal)

section \<open>Property\<close>

text \<open>
  C32: Whatever a report contains, its plain-text rendering has no control character but the line feed, so that no observed
  banner, header, certificate field or name can move the cursor or colour the terminal (provided that the text of a time
  has none).
\<close>

theorem terminal_only_newlines:
  assumes "\<And>t. template (show_time t)"
  shows "only_newlines (render_terminal show_time r)"
  unfolding render_terminal_def concat.simps
  by (intro line_text_only line_text_append line_text_Nil term_header_lines assms term_hosts_lines term_ssh_lines
      term_http_lines term_tls_lines term_findings_lines term_certificates_lines term_related_lines term_score_lines
      term_skipped_lines term_summary_lines)

lemma terminal_only_newlines_witness:
  "only_newlines (render_terminal show_int (sample_report\<lparr>rep_scanner_version := [CHR 27, CHR ''[''], rep_http := []\<rparr>))"
  by (rule terminal_only_newlines) (rule template_int)

end
