(* ===== verification/Html.thy ===== *)
theory Html
  imports Render_Text
begin

text \<open>
  The HTML report, \<open>render_html\<close> of \<^verbatim>\<open>crates/surface-report/src/lib.rs\<close>, one definition per fragment. The text of a time and the
  derived \<open>Debug\<close> text of a DNS record are parameters.
\<close>

section \<open>Small parts\<close>

record report_texts =
  rx_time :: "int \<Rightarrow> string"
  rx_record :: "dns_record \<Rightarrow> string"

definition or_text :: "string \<Rightarrow> string \<Rightarrow> string" where
  \<comment> \<open>a replacement for an empty fragment\<close>
  "or_text text s = (if s = [] then text else s)"

definition esc :: "string \<Rightarrow> string option \<Rightarrow> string" where
  \<comment> \<open>\<open>escape_html(..as_deref().unwrap_or(..))\<close>\<close>
  "esc text v = escape_html (case v of Some s \<Rightarrow> s | None \<Rightarrow> text)"

definition detail :: "string option \<Rightarrow> string" where
  \<comment> \<open>\<open>escape_html(&bounded_ssh_value(..))\<close>\<close>
  "detail v = escape_html (bounded_ssh_value v)"

definition li_text :: "string \<Rightarrow> string" where
  "li_text item = concat [''<li>'', escape_html item, ''</li>'']"

definition li_code :: "string \<Rightarrow> string" where
  "li_code item = concat [''<li><code>'', escape_html item, ''</code></li>'']"

definition none_item :: string where "none_item = ''<li>None.</li>''"

section \<open>Findings\<close>

definition evidence_item :: "evidence \<Rightarrow> string" where
  "evidence_item e = concat
    [''<li><code>'', escape_html (evd_location e), ''</code>: '', escape_html (evd_observed e), ''</li>'']"

definition remediation_part :: "string option \<Rightarrow> string" where
  "remediation_part v =
     (case v of Some s \<Rightarrow> concat [''<p><strong>Remediation:</strong> '', escape_html s, ''</p>''] | None \<Rightarrow> [])"

definition article_open :: "severity \<Rightarrow> string" where
  "article_open s = concat [''<article class=\"finding '', severity_class s, ''\">'']"

definition html_finding :: "finding \<Rightarrow> string" where
  "html_finding f =
     concat
       [article_open (fnd_severity f), ''<h3>'',
        escape_html (to_ascii_uppercase (severity_debug (fnd_severity f))), '' '', em_dash, '' '',
        escape_html (fnd_title f), ''</h3><p><strong>ID:</strong> <code>'', escape_html (fnd_id f),
        ''</code> '', middle_dot, '' <strong>Target:</strong> <code>'', escape_html (fnd_target f),
        ''</code> '', middle_dot, '' <strong>Category:</strong> '', category_debug (fnd_category f), '' '',
        middle_dot, '' <strong>Confidence:</strong> '', finding_confidence_debug (fnd_confidence f),
        ''</p><p>'', escape_html (fnd_description f), ''</p><h4>Evidence</h4><ul>'',
        concat (map evidence_item (fnd_evidence f)), ''</ul>'', remediation_part (fnd_remediation f),
        ''<details><summary>References</summary><ul>'',
        or_text none_item (concat (map li_code (fnd_references f))), ''</ul></details></article>'']"

definition html_findings :: "scan_report \<Rightarrow> string" where
  "html_findings r = or_text ''<p>No findings generated.</p>'' (concat (map html_finding (rep_findings r)))"

section \<open>DNS\<close>

definition html_hop :: "cname_hop \<Rightarrow> string" where
  "html_hop hop = concat
    [''<li><code>'', escape_html (hop_from hop), ''</code> '', right_arrow, '' <code>'',
     escape_html (hop_to hop), ''</code></li>'']"

definition html_dangling :: "dangling_cname_observation \<Rightarrow> string" where
  "html_dangling i =
     concat
       [''<li><code>'', escape_html (dg_source_alias i), ''</code> -&gt; <code>'',
        escape_html (dg_canonical_target i), ''</code>: <strong>'', dangling_status_str (dg_status i),
        ''</strong><ul>'',
        or_text ''<li>No conclusive evidence retained.</li>'' (concat (map li_text (dg_evidence i))),
        ''</ul><ul class=\"error\">'', concat (map li_text (dg_errors i)), ''</ul><ul>'',
        concat (map li_text (dg_limitations i)), ''</ul></li>'']"

definition html_danglings :: "dns_observation \<Rightarrow> string" where
  "html_danglings dns =
     (if dns_dangling_cnames dns = [] then ''<p>No primary-chain CNAME destinations were checked.</p>''
      else concat
        [''<ul>'', concat (map html_dangling (dns_dangling_cnames dns)), ''</ul><p>'',
         ''Destination addresses were not scanned; ownership, claimability, and takeover feasibility were not tested.</p>''])"

definition html_resolved :: "resolved_host \<Rightarrow> string" where
  "html_resolved h =
     concat
       [''<tr><td><code>'', esc em_dash (rh_hostname h), ''</code></td><td><code>'',
        escape_html (show_ip (rh_ip h)), ''</code></td><td>'', source_debug (rh_source h), ''</td></tr>'']"

definition html_attempt :: "axfr_limits \<Rightarrow> axfr_attempt \<Rightarrow> string" where
  "html_attempt limits a =
     concat
       [''<tr><td><code>'', escape_html (att_server a), ''</code></td><td><code>'',
        escape_html (show_socket (att_endpoint a)), ''</code></td><td>'', axfr_outcome_str (att_outcome a),
        ''</td><td>'', esc ''none'' (att_response_code a), ''</td><td>'', show_nat (att_messages a), ''/'',
        show_nat (lim_messages limits), ''</td><td>'', show_nat (att_records a), ''/'',
        show_nat (lim_records limits), ''</td><td>'', show_nat (att_bytes a), ''/'',
        show_nat (lim_bytes limits), ''</td><td>'', esc em_dash (att_error a), ''</td></tr>'']"

definition html_axfr :: "authoritative_axfr_observation option \<Rightarrow> string" where
  "html_axfr v =
     (case v of
        None \<Rightarrow> ''<p>Not recorded or not confidently applicable.</p>''
      | Some axfr \<Rightarrow>
          concat
            [''<p><strong>Zone:</strong> <code>'', escape_html (axfr_zone axfr), ''</code> '', middle_dot,
             '' <strong>NS names:</strong> '', show_nat (length (axfr_nameservers axfr)), ''/'',
             show_nat (lim_nameservers (axfr_limits axfr)), '' '', middle_dot,
             '' <strong>IPs per NS:</strong> at most '', show_nat (lim_ips_per_nameserver (axfr_limits axfr)),
             '' '', middle_dot, '' <strong>Endpoints:</strong> '', show_nat (length (axfr_attempts axfr)),
             ''/'', show_nat (lim_endpoints (axfr_limits axfr)),
             ''</p><table><thead><tr><th>Server</th><th>TCP endpoint</th><th>Outcome</th><th>Response</th><th>'',
             ''Messages</th><th>Records</th><th>Bytes</th><th>Error</th></tr></thead><tbody>'',
             or_text ''<tr><td colspan=\"8\">No endpoint attempts.</td></tr>'' (concat (map (html_attempt (axfr_limits axfr)) (axfr_attempts axfr))),
             ''</tbody></table><p>Transferred owner names and records were neither retained nor scanned.</p>''])"

definition html_wildcard :: "wildcard_dns_observation option \<Rightarrow> string" where
  "html_wildcard v =
     (case v of
        None \<Rightarrow> ''<p>Status: not recorded (older report).</p>''
      | Some w \<Rightarrow>
          concat
            [''<p><strong>Status:</strong> '', wildcard_status_str (wild_status w), '' '', middle_dot,
             '' <strong>Probes attempted:</strong> '', show_nat (wild_probes_attempted w), ''/2 '', middle_dot,
             '' <strong>Answer types:</strong> '',
             escape_html (or_text ''none'' (join '', '' (map wildcard_record_type_str (wild_answer_types w)))),
             '' '', middle_dot, '' <strong>Fingerprints:</strong> '',
             show_nat (length (wild_answer_fingerprints w)), ''</p><ul>'',
             or_text none_item (concat (map li_code (wild_answer_fingerprints w))),
             ''</ul><h4>Errors</h4><ul class=\"error\">'',
             or_text none_item (concat (map li_text (wild_errors w))), ''</ul><h4>Limitations</h4><ul>'',
             or_text none_item (concat (map li_text (wild_limitations w))),
             ''</ul><p>Probe answers were not scanned or used as downstream targets.</p>''])"

definition html_rrset :: "dnssec_rrset_observation \<Rightarrow> string" where
  "html_rrset s =
     concat
       [''<li><code>'', escape_html (rrset_name s), ''</code> <code>'',
        dnssec_record_type_str (rrset_record_type s), ''</code>: '', dnssec_status_str (rrset_status s),
        ''</li>'']"

definition html_dnssec :: "dnssec_observation option \<Rightarrow> string" where
  "html_dnssec v =
     (case v of
        None \<Rightarrow> ''<p>Status: not recorded (older report).</p>''
      | Some d \<Rightarrow>
          concat
            [''<p><strong>Status:</strong> '', dnssec_status_str (dnssec_status d),
             ''</p><h4>Checked names and types</h4><ul>'',
             or_text ''<li>None completed.</li>'' (concat (map html_rrset (dnssec_checked_rrsets d))),
             ''</ul><h4>Errors</h4><ul class=\"error\">'',
             or_text none_item (concat (map li_text (dnssec_errors d))), ''</ul><h4>Limitations</h4><ul>'',
             or_text none_item (concat (map li_text (dnssec_limitations d))), ''</ul>''])"

definition html_dns :: "report_texts \<Rightarrow> dns_observation option \<Rightarrow> string" where
  "html_dns tx v =
     (case v of
        None \<Rightarrow> ''<p>DNS stage produced no observation.</p>''
      | Some dns \<Rightarrow>
          concat
            [''<p>Queried <code>'', escape_html (dns_queried_name dns),
             ''</code></p><h3>CNAME chain</h3><ul>'',
             or_text ''<li>None observed.</li>'' (concat (map html_hop (dns_cname_chain dns))),
             ''</ul><h3>Dangling CNAME indicators</h3>'', html_danglings dns, ''<h3>Records</h3><ul>'',
             concat (map (\<lambda>record. li_code (rx_record tx record)) (dns_records dns)),
             ''</ul><h3>Resolved scan addresses</h3><table><thead><tr><th>Host</th><th>Address</th><th>'',
             ''Source</th></tr></thead><tbody>'', concat (map html_resolved (dns_resolved_hosts dns)),
             ''</tbody></table><h3>DNSSEC</h3>'', html_dnssec (dns_dnssec dns),
             ''<h3>Authoritative AXFR</h3>'', html_axfr (dns_authoritative_axfr dns),
             ''<h3>Wildcard DNS detection</h3>'', html_wildcard (dns_wildcard_dns dns),
             ''<p><strong>MX:</strong> '', option_bool (Some (mail_mx_present (dns_mail dns))), '' '',
             middle_dot, '' <strong>SPF records:</strong> '',
             show_nat (length (spf_records (mail_spf (dns_mail dns)))), '' '', middle_dot,
             '' <strong>DMARC records:</strong> '', show_nat (length (mail_dmarc (dns_mail dns))), '' '',
             middle_dot, '' <strong>MTA-STS:</strong> '', show_nat (length (mail_mta_sts (dns_mail dns))),
             '' '', middle_dot, '' <strong>TLS-RPT:</strong> '',
             show_nat (length (mail_tls_rpt (dns_mail dns))), ''</p>''])"

section \<open>Hosts and services\<close>

definition html_port :: "port_projection \<Rightarrow> string" where
  "html_port p = concat
    [''<li>'', show_nat (unat (pp_number p)), ''/'', pp_transport p, '' '', pp_state p, '' '',
     escape_html (pp_service p), ''</li>'']"

definition html_host :: "scan_report \<Rightarrow> host_observation \<Rightarrow> string" where
  "html_host r host =
     concat
       [''<article><h3>'', escape_html (show_ip (host_ip host)), ''</h3><ul>'',
        concat (map html_port (project_ports r host)), ''</ul></article>'']"

definition html_detail_pair :: "string \<times> string \<Rightarrow> string" where
  "html_detail_pair kv = (case kv of (key, val) \<Rightarrow> concat
    [detail (Some key), ''='', detail (Some val)])"

definition html_service :: "service_observation \<Rightarrow> string" where
  "html_service s =
     concat
       [''<tr><td><code>'', escape_html (show_socket (svc_address s)), ''</code></td><td>'',
        transport_as_str (svc_transport s), ''</td><td>'', escape_html (service_kind_str (svc_service s)),
        ''</td><td>'', confidence_debug (svc_confidence s), ''</td><td>'',
        or_text em_dash (join '', '' (map html_detail_pair (svc_details s))), ''</td></tr>'']"

definition html_selections :: "ssh_projection \<Rightarrow> string" where
  "html_selections p =
     (let s = sp_selections p
      in if part_kex s \<noteq> None then
           concat
             [''<p><strong>KEXINIT-inferred selections ('', sp_status p,
              ''; no completed key exchange):</strong> KEX <code>'', detail (part_kex s), ''</code> '',
              middle_dot, '' host key <code>'', detail (part_host_key s), ''</code> '', middle_dot,
              '' cipher c2s/s2c <code>'', detail (part_cipher_c2s s), ''</code>/<code>'',
              detail (part_cipher_s2c s), ''</code> '', middle_dot, '' MAC c2s/s2c <code>'',
              detail (part_mac_c2s s), ''</code>/<code>'', detail (part_mac_s2c s), ''</code></p>'']
         else ''<p><strong>No inferred selections available.</strong></p>'')"

definition html_skip_reason :: "string option \<Rightarrow> string" where
  "html_skip_reason v =
     (case v of Some reason \<Rightarrow> concat
       [''<p><strong>Skip reason (bounded):</strong> <code>'', detail (Some reason), ''</code></p>''] | None \<Rightarrow> [])"

definition html_posture :: "service_observation \<Rightarrow> ssh_projection \<Rightarrow> string" where
  "html_posture s p =
     concat
       [''<details class=\"card\"><summary><code>'', escape_html (show_socket (svc_address s)), ''</code> '',
        middle_dot, '' status <code>'', sp_status p, ''</code></summary><p><strong>Protocol:</strong> <code>'',
        detail (sp_protocol p), ''</code> '', middle_dot, '' <strong>Software:</strong> <code>'',
        detail (sp_software p), ''</code> '', middle_dot, '' <strong>Banner:</strong> <code>'',
        detail (svc_banner s), ''</code></p>'', html_selections p, html_skip_reason (sp_reason p),
        ''</details>'']"

definition html_ssh_entry :: "service_observation \<Rightarrow> string" where
  "html_ssh_entry s = (case project_ssh s of Some p \<Rightarrow> html_posture s p | None \<Rightarrow> [])"

definition html_ssh :: "scan_report \<Rightarrow> string" where
  "html_ssh r =
     (let entries = concat (map html_ssh_entry (rep_services r))
      in if entries = [] then [] else concat [''<section><h2>SSH posture</h2>'', entries, ''</section>''])"

section \<open>HTTP and TLS\<close>

definition html_redirect :: "redirect_observation \<Rightarrow> string" where
  "html_redirect d =
     concat
       [''<li><code>'', escape_html (rd_from d), ''</code> <strong>'', em_dash, show_nat (unat (rd_status d)),
        right_arrow, ''</strong> <code>'', escape_html (rd_to d), ''</code></li>'']"

definition html_header :: "string \<times> string \<Rightarrow> string" where
  "html_header h = (case h of (name, val) \<Rightarrow> concat
    [''<li><code>'', escape_html name, ''</code>: '', escape_html val, ''</li>''])"

definition html_cookie :: "cookie_observation \<Rightarrow> string" where
  "html_cookie c =
     concat
       [''<li><code>'', escape_html (ck_name c), ''</code>: Secure='', bool_str (ck_secure c), '' HttpOnly='',
        bool_str (ck_http_only c), '' SameSite='', esc em_dash (ck_same_site c), '' Domain='',
        esc em_dash (ck_domain c), '' Path='', esc em_dash (ck_path c), ''</li>'']"

definition html_http_error :: "string option \<Rightarrow> string" where
  "html_http_error v =
     (case v of Some error \<Rightarrow> concat
       [''<p class=\"error\"><strong>Error:</strong> '', escape_html error, ''</p>''] | None \<Rightarrow> [])"

definition html_http_endpoint :: "http_observation \<Rightarrow> string" where
  "html_http_endpoint h =
     concat
       [''<article class=\"card\"><h3><code>'', escape_html (ho_url h),
        ''</code></h3><p><strong>Status:</strong> '',
        unknown_or ''error'' (\<lambda>status. show_nat (unat status)) (ho_status h), '' '', middle_dot,
        '' <strong>Final URL:</strong> <code>'', escape_html (effective_url h), ''</code> '', middle_dot,
        '' <strong>Protocol:</strong> '', esc ''unknown'' (ho_version h), '' '', middle_dot,
        '' <strong>Latency:</strong> '', unknown_or em_dash show_nat (ho_latency_ms h),
        '' ms</p><p><strong>Title:</strong> '', esc em_dash (ho_title h), '' '', middle_dot,
        '' <strong>HSTS:</strong> '', hsts_label (hsts_state h), '' '', middle_dot,
        '' <strong>security.txt:</strong> '', option_bool (ho_security_txt h), '' '', middle_dot,
        '' <strong>robots.txt:</strong> '', option_bool (ho_robots_txt h), '' '', middle_dot,
        '' <strong>sitemap.xml:</strong> '', option_bool (ho_sitemap_xml h),
        ''</p><p><strong>Retained body:</strong> '', show_nat (ho_body_bytes h), '' bytes'',
        (if ho_body_truncated h then '' (truncated)'' else []), ''</p><h4>Redirects</h4><ul>'',
        or_text none_item (concat (map html_redirect (ho_redirects h))),
        ''</ul><details><summary>Selected headers</summary><ul>'',
        or_text ''<li>None retained.</li>'' (concat (map html_header (ho_headers h))),
        ''</ul></details><details><summary>Cookies (values omitted)</summary><ul>'',
        or_text none_item (concat (map html_cookie (ho_cookies h))), ''</ul></details>'',
        html_http_error (ho_error h), ''</article>'']"

definition html_tls_endpoint :: "tls_observation \<Rightarrow> string" where
  "html_tls_endpoint t =
     concat
       [''<tr><td><code>'', escape_html (show_socket (to_address t)), ''</code></td><td>'',
        escape_html (to_server_name t), ''</td><td>'',
        (if to_handshake_succeeded t then ''passed'' else ''failed''), ''</td><td>'',
        option_yes_no (to_certificate_trusted t), ''</td><td>'', option_yes_no (to_hostname_matches t),
        ''</td><td>'', esc em_dash (to_protocol_version t), ''</td><td>'', esc em_dash (to_cipher_suite t),
        ''</td><td>'', unknown_or em_dash show_nat (to_certificate_chain_length t), ''</td><td><code>'',
        esc em_dash (to_leaf_certificate_sha256 t), ''</code></td><td>'', esc em_dash (to_subject t),
        ''</td><td>'', esc em_dash (to_issuer t), ''</td><td>'', esc em_dash (to_serial_number t),
        ''</td><td>'', unknown_or em_dash show_int (to_valid_from_unix t), ''</td><td>'',
        unknown_or em_dash show_int (to_valid_until_unix t), ''</td><td>'',
        or_text em_dash (join '', '' (map escape_html (to_subject_alt_names t))), ''</td><td>'',
        (if to_subject_alt_names_truncated t then ''yes'' else ''no''), ''</td><td>'',
        esc em_dash (to_public_key_algorithm t), ''</td><td>'',
        unknown_or em_dash show_nat (to_public_key_bits t), ''</td><td>'',
        esc em_dash (to_signature_algorithm t), ''</td><td>'',
        or_text em_dash (join ''; '' (map escape_html (to_errors t))), ''</td></tr>'']"

section \<open>Intelligence, errors, score\<close>

definition html_error :: "scan_error \<Rightarrow> string" where
  "html_error e =
     concat
       [''<li><strong>'', stage_debug (err_stage e), ''/'', error_kind_debug (err_kind e), ''</strong> '',
        (case err_target e of Some target \<Rightarrow> concat [''<code>'', escape_html target, ''</code>: ''] | None \<Rightarrow> []),
        escape_html (err_message e), ''</li>'']"

definition CT_DNS_GROUPS :: "(certificate_transparency_dns_status \<times> string) list" where
  "CT_DNS_GROUPS =
     [(Ct_Resolved, ''Currently resolved''), (Ct_NoAddress, ''No current address record''),
      (Ct_NxDomain, ''Historical certificate names''), (Ct_Indeterminate, ''DNS verification indeterminate''),
      (Ct_NotChecked, ''Wildcard or unverified certificate names'')]"

definition html_candidate :: "certificate_transparency_candidate \<Rightarrow> string" where
  "html_candidate c =
     concat
       [''<tr><td><code>'', escape_html (ctc_name c), ''</code></td><td>'',
        (if ctc_wildcard c then ''yes'' else ''no''), ''</td><td>'', show_nat (ctc_issuance_count c),
        ''</td></tr>'']"

definition html_ct_group :: "certificate_transparency_observation \<Rightarrow> certificate_transparency_dns_status \<times> string \<Rightarrow> string" where
  "html_ct_group ct g =
     (case g of (status, label) \<Rightarrow>
        let rows = concat (map html_candidate (filter (\<lambda>c. ctc_dns_status c = status) (ct_candidates ct)))
        in if rows = [] then [] else concat [''<tr><th colspan=\"3\">'', label, ''</th></tr>'', rows])"

definition html_ct :: "certificate_transparency_observation option \<Rightarrow> string" where
  "html_ct v =
     (case v of
        None \<Rightarrow> ''<p>Not available.</p>''
      | Some ct \<Rightarrow>
          concat
            [''<p><strong>Source:</strong> '', escape_html (ct_source ct), '' '', middle_dot,
             '' <strong>Issuances:</strong> '', show_nat (ct_issuance_count ct), '' '', middle_dot,
             '' <strong>Pages:</strong> '', show_nat (ct_pages_fetched ct), '' '', middle_dot,
             '' <strong>Complete:</strong> '', bool_str (ct_complete ct), ''</p><p>'',
             ''Non-wildcard names received only a bounded passive DNS address lookup; they were not actively scanned.</p>'',
             ''<table><thead><tr><th>Name</th><th>Wildcard</th><th>Issuances</th></tr></thead><tbody>'',
             concat (map (html_ct_group ct) CT_DNS_GROUPS), ''</tbody></table><ul class=\"error\">'',
             concat (map li_text (ct_errors ct)), ''</ul>''])"

definition html_related_candidate :: "related_domain_candidate \<Rightarrow> string" where
  "html_related_candidate c =
     concat
       [''<article class=\"card\"><h3><code>'', escape_html (rdc_name c),
        ''</code></h3><p><strong>Confidence:</strong> '', escape_html (rdc_confidence c), ''</p><ul>'',
        concat (map li_text (rdc_evidence c)), ''</ul></article>'']"

definition html_related :: "related_domains_observation option \<Rightarrow> string" where
  "html_related v =
     (case v of
        None \<Rightarrow> ''<p>Not requested.</p>''
      | Some related \<Rightarrow>
          concat
            [''<p><strong>Nameservers:</strong> <code>'', escape_html (join '', '' (rdo_nameservers related)),
             ''</code> '', middle_dot, '' <strong>Provider:</strong> '',
             esc ''unknown'' (rdo_provider related),
             ''</p><p>Shared DNS infrastructure does not prove common ownership.</p>'',
             or_text ''<p>No candidates returned.</p>'' (concat (map html_related_candidate (rdo_candidates related))),
             ''<ul class=\"error\">'', concat (map li_text (rdo_errors related)), ''</ul>''])"

definition html_skip :: "skipped_check \<Rightarrow> string" where
  "html_skip s = concat
    [''<li><code>'', escape_html (skip_check s), ''</code> '', em_dash, '' '', escape_html (skip_reason s),
     ''</li>'']"

definition html_deduction :: "score_deduction \<Rightarrow> string" where
  "html_deduction d = concat [''<li>-'', show_nat (ded_points d), '': '', escape_html (ded_reason d), ''</li>'']"

definition html_score :: "scan_report \<Rightarrow> string" where
  "html_score r =
     (case rep_exposure_score r of
        None \<Rightarrow> ''<p>Score unavailable.</p>''
      | Some score \<Rightarrow>
          concat
            [''<p><strong>'', show_nat (score_value score), ''/100</strong> ('',
             score_class_debug (score_class score), '', model '', escape_html (score_model_version score),
             '')</p>'',
             (if lp_score_incomplete (project_lifecycle r) then ''<p><strong>Incomplete scan: score interpretation is limited.</strong></p>'' else []),
             ''<ul>'', concat (map html_deduction (score_deductions score)), ''</ul>''])"

section \<open>The document\<close>

definition html_head :: "scan_report \<Rightarrow> string" where
  "html_head r = concat
    [''<!doctype html><html lang=\"en\"><head><meta charset=\"utf-8\">'',
     ''<meta name=\"viewport\" content=\"width=device-width,initial-scale=1\"><title>Surface report '',
     em_dash, '' '', escape_html (tgt_original (rep_target r)), ''</title><style>'',
     '':root{color-scheme:light;--bg:#f4f7fb;--panel:#fff;--text:#172033;--muted:#607089;--line:#dbe3ee;--accent:#3157d5}*{box-sizing:border-box}body{margin:0;background:var(--bg);color:var(--text);font:15px/1.55 system-ui,sans-serif}main{max-width:76rem;margin:auto;padding:2rem 1rem 4rem}header{padding:1.5rem;border-radius:1rem;background:linear-gradient(135deg,#172554,#3157d5);color:#fff}header h1{margin:0}.meta,.cards{display:grid;grid-template-columns:repeat(auto-fit,minmax(10rem,1fr));gap:.8rem}.meta div,.card,.finding,section{background:var(--panel);border:1px solid var(--line);border-radius:.8rem;padding:1rem}header .meta div{background:#ffffff18;border-color:#ffffff33}dt{font-size:.78rem;text-transform:uppercase;color:var(--muted)}header dt{color:#dbeafe}dd{margin:0;font-weight:650}section{margin-top:1rem}section>h2{margin-top:0}.cards{margin:1rem 0}.cards .card{font-size:1.2rem;font-weight:700}.cards small{display:block;color:var(--muted);font-size:.78rem}code{overflow-wrap:anywhere}table{border-collapse:collapse;width:100%;display:block;overflow:auto}th,td{padding:.55rem;border-bottom:1px solid var(--line);text-align:left;white-space:nowrap}ul{padding-left:1.3rem}.finding{border-left:.45rem solid #64748b;margin:.8rem 0}.critical,.high{border-left-color:#c62828}.medium{border-left-color:#ef6c00}.low{border-left-color:#ca8a04}.info{border-left-color:#2563eb}.error{color:#b91c1c}footer{margin-top:2rem;color:var(--muted)}@media print{body{background:#fff}main{max-width:none;padding:0}section,.card,.finding,header{break-inside:avoid}}</style>'']"

definition html_summary :: "report_texts \<Rightarrow> scan_report \<Rightarrow> string" where
  "html_summary tx r = concat
    [''</head><body><main><header><h1>Surface report</h1><p><code>'',
     escape_html (tgt_original (rep_target r)), ''</code></p><dl class=\"meta\"><div><dt>Status</dt><dd>'',
     status_debug (rep_status r), ''</dd></div><div><dt>Started</dt><dd>'',
     escape_html (rx_time tx (rep_started_at r)), ''</dd></div><div><dt>Completed</dt><dd>'',
     escape_html (unknown_or ''incomplete'' (rx_time tx) (rep_completed_at r)),
     ''</dd></div><div><dt>Scan ID</dt><dd><code>'', escape_html (rep_scan_id r),
     ''</code></dd></div></dl></header><div class=\"cards\"><div class=\"card\"><small>'',
     ''Exposure score</small>'',
     unknown_or em_dash (\<lambda>s. show_nat (score_value s) @ ''/100'') (rep_exposure_score r),
     ''</div><div class=\"card\"><small>Findings</small>'', show_nat (length (rep_findings r)),
     ''</div><div class=\"card\"><small>Hosts</small>'', show_nat (length (rep_hosts r)),
     ''</div><div class=\"card\"><small>Services</small>'', show_nat (length (rep_services r)),
     ''</div><div class=\"card\"><small>HTTP endpoints</small>'', show_nat (length (rep_http r)),
     ''</div><div class=\"card\"><small>Partial errors</small>'', show_nat (length (rep_errors r)),
     ''</div></div>'']"

definition html_sections :: "report_texts \<Rightarrow> scan_report \<Rightarrow> string" where
  "html_sections tx r = concat
    [''<section><h2>Findings</h2>'', html_findings r, ''</section><section><h2>DNS</h2>'',
     html_dns tx (rep_dns r), ''</section><section><h2>Hosts and open ports</h2>'',
     or_text ''<p>No hosts observed.</p>'' (concat (map (html_host r) (rep_hosts r))),
     ''</section><section><h2>Services</h2><table><thead><tr><th>Endpoint</th><th>Transport</th><th>'',
     ''Service</th><th>Confidence</th><th>Details</th></tr></thead><tbody>'',
     concat (map html_service (rep_services r)), ''</tbody></table></section>'', html_ssh r,
     ''<section><h2>HTTP</h2>'',
     or_text ''<p>No HTTP endpoints observed.</p>'' (concat (map html_http_endpoint (rep_http r))),
     ''</section><section><h2>TLS</h2><table><thead><tr><th>Endpoint</th><th>Server name</th><th>'',
     ''Validation</th><th>Trusted</th><th>Hostname</th><th>Protocol</th><th>Cipher</th><th>'',
     ''Chain length</th><th>Leaf SHA-256</th><th>Subject</th><th>Issuer</th><th>Serial</th><th>'',
     ''Valid from</th><th>Valid until</th><th>Names</th><th>SANs truncated</th><th>Key algorithm</th>'',
     ''<th>Key bits</th><th>Signature algorithm</th><th>Errors/limitations</th></tr></thead><tbody>'',
     concat (map html_tls_endpoint (rep_tls r)),
     ''</tbody></table></section><section><h2>Certificate Transparency candidates</h2>'',
     html_ct (case rep_intelligence r of Some i \<Rightarrow> int_certificate_transparency i | None \<Rightarrow> None),
     ''</section><section><h2>Related domain candidates</h2>'',
     html_related (case rep_intelligence r of Some i \<Rightarrow> int_related_domains i | None \<Rightarrow> None),
     ''</section><section><h2>Surface Exposure Score</h2>'', html_score r,
     ''</section><section><h2>Partial errors</h2><ul>'',
     or_text none_item (concat (map html_error (rep_errors r))),
     ''</ul></section><section><h2>Checks not run</h2><ul>'',
     or_text none_item (concat (map html_skip (rep_skipped_checks r))), ''</ul></section>'']"

definition html_configuration :: "scan_report \<Rightarrow> string" where
  "html_configuration r =
     (let c = rep_configuration r
      in concat
        [''<section><h2>Configuration</h2><p>TCP ports: '', show_nat (length (cfg_ports c)), '' '', middle_dot,
         '' UDP ports: '', show_nat (length (cfg_udp_ports c)), '' '', middle_dot, '' concurrency: '',
         show_nat (cfg_concurrency c), '' '', middle_dot, '' connect timeout: '',
         show_nat (cfg_connect_timeout_ms c), '' ms '', middle_dot, '' request timeout: '',
         show_nat (cfg_request_timeout_ms c), '' ms '', middle_dot, '' global timeout: '',
         show_nat (cfg_global_timeout_ms c), '' ms</p></section><section><h2>Limitations</h2><p>'',
         ''Surface analyzes externally observable services and security-related configuration. It performs no active exploitation. DNS answers, redirects, timeouts, and a clean report do not prove security.</p>'',
         ''</section><footer>Surface '', escape_html (rep_scanner_version r), '' '', middle_dot, '' schema '',
         escape_html (rep_schema_version r), ''</footer></main></body></html>'', newline])"

definition render_html :: "report_texts \<Rightarrow> scan_report \<Rightarrow> string" where
  \<comment> \<open>the closing \<open>format!\<close>, in four parts\<close>
  "render_html tx r = html_head r @ html_summary tx r @ html_sections tx r @ html_configuration r"

section \<open>The tags of the document\<close>

definition html_template_tags :: "string list" where
  "html_template_tags =
     [''li'', ''/li'', ''code'', ''/code'', ''p'', ''strong'', ''/strong'', ''/p'', ''h3'', ''/h3'', ''h4'',
      ''/h4'', ''ul'', ''/ul'', ''details'', ''summary'', ''/summary'', ''/details'', ''/article'',
      ''ul class=\"error\"'', ''tr'', ''td'', ''/td'', ''/tr'', ''table'', ''thead'', ''th'', ''/th'',
      ''/thead'', ''tbody'', ''td colspan=\"8\"'', ''/tbody'', ''/table'', ''article'',
      ''details class=\"card\"'', ''section'', ''h2'', ''/h2'', ''/section'', ''p class=\"error\"'',
      ''article class=\"card\"'', ''th colspan=\"3\"'', ''!doctype html'', ''html lang=\"en\"'', ''head'',
      ''meta charset=\"utf-8\"'', ''meta name=\"viewport\" content=\"width=device-width,initial-scale=1\"'',
      ''title'', ''/title'', ''style'', ''/style'', ''/head'', ''body'', ''main'', ''header'', ''h1'', ''/h1'',
      ''dl class=\"meta\"'', ''div'', ''dt'', ''/dt'', ''dd'', ''/dd'', ''/div'', ''/dl'', ''/header'',
      ''div class=\"cards\"'', ''div class=\"card\"'', ''small'', ''/small'', ''footer'', ''/footer'',
      ''/main'', ''/body'', ''/html'', ''article class=\"finding info\"'', ''article class=\"finding low\"'',
      ''article class=\"finding medium\"'', ''article class=\"finding high\"'',
      ''article class=\"finding critical\"'']"

abbreviation only_template_tags :: "string \<Rightarrow> bool" where
  "only_template_tags \<equiv> tags_in (set html_template_tags)"

lemma tags_map: "(\<And>x. tags_in T (f x)) \<Longrightarrow> tags_in T (concat (map f xs))"
  by (rule tags_in_concat) auto

lemma tags_or_text: "tags_in T t \<Longrightarrow> tags_in T s \<Longrightarrow> tags_in T (or_text t s)"
  by (simp add: or_text_def)

lemma tags_esc: "tags_in T (esc text v)"
  by (simp add: esc_def)

lemma tags_detail: "tags_in T (detail v)"
  by (simp add: detail_def)

lemma tags_unknown_or: "tags_in T t \<Longrightarrow> (\<And>x. tags_in T (f x)) \<Longrightarrow> tags_in T (unknown_or t f v)"
  by (cases v) (simp_all add: unknown_or_def)

lemma tags_option: "(\<And>x. tags_in T (f x)) \<Longrightarrow> tags_in T g \<Longrightarrow> tags_in T (case v of Some x \<Rightarrow> f x | None \<Rightarrow> g)"
  by (cases v) simp_all

lemma tags_join: "tags_in T sep \<Longrightarrow> (\<And>x. tags_in T (f x)) \<Longrightarrow> tags_in T (join sep (map f xs))"
proof (induction xs)
  case (Cons x xs)
  then show ?case by (cases xs) (simp_all add: tags_in_append)
qed simp

lemma tags_nat: "tags_in T (show_nat n)"
proof (rule tags_in_plain)
  show "CHR ''<'' \<notin> set (show_nat n)"
    using show_nat_digits [of n] by (auto simp: list_all_iff is_ascii_digit_def)
qed

lemma tags_int: "tags_in T (show_int i)"
  using tags_nat [of T] by (simp add: show_int_def tags_in_def tag_closed_def html_tags_def)

lemma tags_category_debug: "tags_in T (category_debug c)"
  by (cases c; simp add: tags_in_plain)

lemma tags_finding_confidence_debug: "tags_in T (finding_confidence_debug c)"
  by (cases c; simp add: tags_in_plain)

lemma tags_confidence_debug: "tags_in T (confidence_debug c)"
  by (cases c; simp add: tags_in_plain)

lemma tags_source_debug: "tags_in T (source_debug s)"
  by (cases s; simp add: tags_in_plain)

lemma tags_stage_debug: "tags_in T (stage_debug s)"
  by (cases s; simp add: tags_in_plain)

lemma tags_error_kind_debug: "tags_in T (error_kind_debug k)"
  by (cases k; simp add: tags_in_plain)

lemma tags_dangling_status_str: "tags_in T (dangling_status_str s)"
  by (cases s; simp add: tags_in_plain)

lemma tags_axfr_outcome_str: "tags_in T (axfr_outcome_str x)"
  by (cases x; simp add: tags_in_plain)

lemma tags_wildcard_status_str: "tags_in T (wildcard_status_str s)"
  by (cases s; simp add: tags_in_plain)

lemma tags_dnssec_record_type_str: "tags_in T (dnssec_record_type_str t)"
  by (cases t; simp add: tags_in_plain)

lemma tags_dnssec_status_str: "tags_in T (dnssec_status_str s)"
  by (cases s; simp add: tags_in_plain)

lemma tags_transport_as_str: "tags_in T (transport_as_str t)"
  by (cases t; simp add: tags_in_plain)

lemma tags_hsts_label: "tags_in T (hsts_label h)"
  by (cases h; simp add: tags_in_plain)

lemma tags_status_debug: "tags_in T (status_debug s)"
  by (cases s; simp add: tags_in_plain)

lemma tags_score_class_debug: "tags_in T (score_class_debug c)"
  by (cases c; simp add: tags_in_plain)

lemma tags_bool_str: "tags_in T (bool_str b)"
  by (cases b; simp add: tags_in_plain)

lemma tags_option_bool: "tags_in T (option_bool v)"
  by (cases v) (simp_all add: option_bool_def tags_in_plain)

lemma tags_option_yes_no: "tags_in T (option_yes_no v)"
  by (cases v) (simp_all add: option_yes_no_def tags_in_plain)

lemmas tag_rules = tags_in_append tags_in_Nil escape_html_tags tags_map tags_or_text tags_esc tags_detail tags_unknown_or
  tags_join tags_nat tags_int tags_option_bool tags_option_yes_no
  tags_category_debug tags_finding_confidence_debug tags_confidence_debug tags_source_debug tags_stage_debug
  tags_error_kind_debug tags_dangling_status_str tags_axfr_outcome_str tags_wildcard_status_str
  tags_dnssec_record_type_str tags_dnssec_status_str tags_transport_as_str tags_hsts_label tags_status_debug
  tags_score_class_debug tags_bool_str


lemma tags_set: "(\<And>x. x \<in> set xs \<Longrightarrow> tags_in T (f x)) \<Longrightarrow> tags_in T (concat (map f xs))"
  by (rule tags_in_concat) auto

lemma tags_article_open: "only_template_tags (article_open s)"
  by (induction s) (rule tags_checkI, code_simp)+

lemma tags_items:
  "only_template_tags (evidence_item e)" "only_template_tags (remediation_part v)" "only_template_tags (li_text t)"
  "only_template_tags (li_code t)" "only_template_tags none_item" "only_template_tags (html_hop h)"
  "only_template_tags (html_resolved a)" "only_template_tags (html_attempt l b)" "only_template_tags (html_rrset s)"
  unfolding evidence_item_def remediation_part_def li_text_def li_code_def none_item_def html_hop_def html_resolved_def
    html_attempt_def html_rrset_def concat.simps
  by ((intro tag_rules tags_option)?; rule tags_checkI; code_simp)+

lemma tags_finding: "only_template_tags (html_finding f)"
  unfolding html_finding_def concat.simps
  by (intro tag_rules tags_article_open tags_items; rule tags_checkI; code_simp)

lemma tags_dangling: "only_template_tags (html_dangling d)"
  unfolding html_dangling_def concat.simps
  by (intro tag_rules tags_items; rule tags_checkI; code_simp)

lemma tags_dns_parts:
  "only_template_tags (html_danglings dns)" "only_template_tags (html_axfr a)" "only_template_tags (html_wildcard w)"
  "only_template_tags (html_dnssec d)"
  unfolding html_danglings_def html_axfr_def html_wildcard_def html_dnssec_def concat.simps
  by (intro tag_rules tags_items tags_dangling tags_option tags_in_if; rule tags_checkI; code_simp)+

lemma tags_dns: "only_template_tags (html_dns tx v)"
  unfolding html_dns_def concat.simps
  by (intro tag_rules tags_items tags_dns_parts tags_option; rule tags_checkI; code_simp)

text \<open>The projections give the templates plain texts.\<close>

lemma tags_projected_port:
  assumes "p \<in> set (project_ports r host)" shows "only_template_tags (html_port p)"
proof -
  have "tags_in T (transport_as_str t)" for T t by (rule tags_transport_as_str)
  with assms have p: "only_template_tags (pp_transport p)" "only_template_tags (pp_state p)"
    by (auto simp: project_ports_def set_filter_map project_port_def Let_def tags_in_plain split: if_splits)
  show ?thesis
    unfolding html_port_def concat.simps
    by (intro tag_rules p; rule tags_checkI; code_simp)
qed

lemma tags_host: "only_template_tags (html_host r host)"
  unfolding html_host_def concat.simps
  by (intro tags_in_append escape_html_tags tags_set tags_in_Nil; (erule tags_projected_port | rule tags_checkI, code_simp))

lemma tags_service: "only_template_tags (html_service s)"
proof -
  have pair: "only_template_tags (html_detail_pair kv)" for kv
    unfolding html_detail_pair_def concat.simps
    by (cases kv; simp only: prod.case; intro tag_rules; rule tags_checkI; code_simp)
  show ?thesis
    unfolding html_service_def concat.simps
    by (intro tag_rules pair; rule tags_checkI; code_simp)
qed

lemma tags_projected_status: "project_ssh s = Some p \<Longrightarrow> tags_in T (sp_status p)"
proof -
  have plain: "CHR ''<'' \<notin> set (fst (project_outcome z))" for z by (cases z) simp_all
  assume "project_ssh s = Some p"
  then have "\<exists>z. sp_status p = fst (project_outcome z)"
    by (cases "svc_ssh s") (auto simp: project_ssh_def case_prod_beta)
  then show ?thesis by (metis plain tags_in_plain)
qed

lemma tags_selections:
  assumes p: "only_template_tags (sp_status p)"
  shows "only_template_tags (html_selections p)" "only_template_tags (html_skip_reason v)"
  unfolding html_selections_def html_skip_reason_def Let_def concat.simps
  by (intro tag_rules p tags_option tags_in_if; rule tags_checkI; code_simp)+

lemma tags_posture:
  assumes p: "only_template_tags (sp_status p)" shows "only_template_tags (html_posture s p)"
  unfolding html_posture_def concat.simps
  by (intro tag_rules p tags_selections [OF p]; rule tags_checkI; code_simp)

lemma tags_ssh: "only_template_tags (html_ssh r)"
proof -
  have entry: "only_template_tags (html_ssh_entry s)" for s
    by (auto simp: html_ssh_entry_def intro: tags_posture tags_projected_status split: option.splits)
  show ?thesis
    unfolding html_ssh_def Let_def concat.simps
    by (intro tag_rules entry tags_in_if; rule tags_checkI; code_simp)
qed

lemma tags_http_parts:
  "only_template_tags (html_redirect d)" "only_template_tags (html_cookie c)" "only_template_tags (html_http_error v)"
  unfolding html_redirect_def html_cookie_def html_http_error_def concat.simps
  by (intro tag_rules tags_option; rule tags_checkI; code_simp)+

lemma tags_header: "only_template_tags (html_header h)"
  unfolding html_header_def concat.simps
  by (cases h; simp only: prod.case; intro tag_rules; rule tags_checkI; code_simp)

lemma tags_endpoints:
  "only_template_tags (html_http_endpoint h)" "only_template_tags (html_tls_endpoint t)"
  unfolding html_http_endpoint_def html_tls_endpoint_def concat.simps
  by (intro tag_rules tags_http_parts tags_header tags_items tags_in_if; rule tags_checkI; code_simp)+

lemma tags_intelligence_parts:
  "only_template_tags (html_error e)" "only_template_tags (html_candidate c)" "only_template_tags (html_related_candidate rc)"
  "only_template_tags (html_skip sk)" "only_template_tags (html_deduction d)"
  unfolding html_error_def html_candidate_def html_related_candidate_def html_skip_def html_deduction_def concat.simps
  by (intro tag_rules tags_items tags_option tags_in_if; rule tags_checkI; code_simp)+

lemma tags_ct_group:
  assumes "g \<in> set CT_DNS_GROUPS" shows "only_template_tags (html_ct_group ct g)"
proof -
  from assms have label: "only_template_tags (snd g)" by (auto simp: CT_DNS_GROUPS_def tags_in_plain)
  show ?thesis
    unfolding html_ct_group_def Let_def concat.simps case_prod_beta
    by (intro tag_rules label tags_intelligence_parts tags_in_if; rule tags_checkI; code_simp)
qed

lemma tags_ct: "only_template_tags (html_ct v)"
  unfolding html_ct_def concat.simps
  by (intro tags_option tags_in_append escape_html_tags tags_nat tags_bool_str tags_map [of _ li_text] tags_items tags_in_Nil;
      (rule tags_set, erule tags_ct_group | rule tags_checkI, code_simp))

lemma tags_related: "only_template_tags (html_related v)"
  unfolding html_related_def concat.simps
  by (intro tag_rules tags_items tags_intelligence_parts tags_option; rule tags_checkI; code_simp)

lemma tags_score: "only_template_tags (html_score r)"
  unfolding html_score_def concat.simps
  by (intro tag_rules tags_intelligence_parts tags_option tags_in_if; rule tags_checkI; code_simp)

lemma tags_findings: "only_template_tags (html_findings r)"
  unfolding html_findings_def
  by (intro tag_rules tags_finding; rule tags_checkI; code_simp)

lemma tags_head: "only_template_tags (html_head r)"
  unfolding html_head_def concat.simps
  by (intro tag_rules; rule tags_checkI; code_simp)

lemma tags_summary: "only_template_tags (html_summary tx r)"
  unfolding html_summary_def concat.simps
  by (intro tag_rules; rule tags_checkI; code_simp)

lemma tags_sections: "only_template_tags (html_sections tx r)"
  unfolding html_sections_def concat.simps
  by (intro tag_rules tags_findings tags_dns tags_host tags_service tags_ssh tags_endpoints tags_ct tags_related
        tags_score tags_items tags_intelligence_parts; rule tags_checkI; code_simp)

lemma tags_configuration: "only_template_tags (html_configuration r)"
  unfolding html_configuration_def Let_def concat.simps
  by (intro tag_rules; rule tags_checkI; code_simp)

text \<open>C16: the HTML report contains no tag but those of its templates: whatever banners, certificate names, DNS texts,
  errors and finding texts a scanned host supplied, every \<open><\<close> of the document opens one of the tags of a fixed list, each
  of which is closed, so remote text cannot introduce an element or an attribute.\<close>
theorem html_report_template_tags: "only_template_tags (render_html tx r)"
  unfolding render_html_def by (intro tags_in_append tags_head tags_summary tags_sections tags_configuration)

end
