(* ===== verification/Exports.thy ===== *)
theory Exports
  imports Json
begin

text \<open>
  The SARIF and CycloneDX exports, \<^verbatim>\<open>crates/surface-report/src/exports.rs\<close>, as JSON values. The text of a document, the
  canonical text of a finding and the derived \<open>Debug\<close> text of an SSH posture are parameters.
\<close>

section \<open>Small parts\<close>

fun sarif_level :: "severity \<Rightarrow> string" where
  "sarif_level Sev_Critical = ''error''"
| "sarif_level Sev_High = ''error''"
| "sarif_level Sev_Medium = ''warning''"
| "sarif_level Sev_Low = ''note''"
| "sarif_level Sev_Info = ''note''"

fun cyclone_severity :: "severity \<Rightarrow> string" where
  "cyclone_severity Sev_Critical = ''critical''"
| "cyclone_severity Sev_High = ''high''"
| "cyclone_severity Sev_Medium = ''medium''"
| "cyclone_severity Sev_Low = ''low''"
| "cyclone_severity Sev_Info = ''info''"

fun security_severity :: "severity \<Rightarrow> string" where
  "security_severity Sev_Critical = ''9.5''"
| "security_severity Sev_High = ''8.0''"
| "security_severity Sev_Medium = ''5.5''"
| "security_severity Sev_Low = ''2.0''"
| "security_severity Sev_Info = ''0.0''"

definition property :: "string \<Rightarrow> string \<Rightarrow> json" where
  "property name val = json_object [(''name'', J_String name), (''value'', J_String val)]"

definition service_ref :: "socket_addr \<Rightarrow> string \<Rightarrow> string \<Rightarrow> string" where
  "service_ref address transport service =
     concat [''surface-service:'', transport, '':'', show_socket address, ''/'', service]"

definition uri_char :: "string \<Rightarrow> string" where
  \<comment> \<open>one character of the context of a target URI\<close>
  "uri_char ch =
     (case ch of
        [c] \<Rightarrow> if is_ascii_alphanumeric c \<or> c \<in> {CHR ''.'', CHR ''-'', CHR ''_'', CHR '':'', CHR ''['', CHR '']''} then ch else ''_''
      | _ \<Rightarrow> ''_'')"

definition synthetic_target_uri :: "scan_report \<Rightarrow> string \<Rightarrow> string" where
  "synthetic_target_uri report finding_target =
     (let host = (case tgt_hostname (rep_target report) of Some h \<Rightarrow> h | None \<Rightarrow> ''target'');
          ctxt = concat (map uri_char (chars finding_target))
      in concat [''surface://'', host, ''/'', ctxt])"

section \<open>SARIF\<close>

definition sarif_order :: "serde \<Rightarrow> finding \<Rightarrow> int \<times> string \<times> string \<times> string" where
  \<comment> \<open>the severest first\<close>
  "sarif_order sd f = (- int (severity_rank (fnd_severity f)), fnd_id f, fnd_target f, sd_finding sd f)"

definition sarif_findings :: "serde \<Rightarrow> scan_report \<Rightarrow> finding list" where
  "sarif_findings sd report = sort_key (sarif_order sd) (rep_findings report)"

definition entry_or_insert :: "(string \<times> finding) list \<Rightarrow> finding \<Rightarrow> (string \<times> finding) list" where
  \<comment> \<open>the first finding of an identifier gives its rule\<close>
  "entry_or_insert table f = (if map_of table (fnd_id f) = None then btm_insert (fnd_id f) f table else table)"

definition sarif_rules :: "finding list \<Rightarrow> (string \<times> finding) list" where
  "sarif_rules findings = foldl entry_or_insert [] findings"

definition sarif_rule :: "string \<times> finding \<Rightarrow> json" where
  "sarif_rule r =
     (case r of (rule_id, f) \<Rightarrow> json_object
       [(''id'', J_String rule_id), (''name'', J_String (fnd_title f)),
        (''shortDescription'', json_object [(''text'', J_String (fnd_title f))]),
        (''fullDescription'', json_object [(''text'', J_String (fnd_description f))]),
        (''help'', json_object [(''text'', J_String (case fnd_remediation f of
           Some s \<Rightarrow> s | None \<Rightarrow> ''Review the supporting Surface evidence.''))]),
        (''properties'', json_object
          [(''category'', J_String (category_name (fnd_category f))),
           (''confidence'', J_String (finding_confidence_name (fnd_confidence f))),
           (''security-severity'', J_String (security_severity (fnd_severity f)))])])"

definition sarif_result :: "scan_report \<Rightarrow> finding \<Rightarrow> json" where
  "sarif_result report f = json_object
     [(''ruleId'', J_String (fnd_id f)), (''level'', J_String (sarif_level (fnd_severity f))),
      (''message'', json_object [(''text'', J_String (concat [fnd_title f, '' '', em_dash, '' '', fnd_description f]))]),
      (''locations'', J_Array [json_object [(''physicalLocation'', json_object [(''artifactLocation'', json_object
         [(''uri'', J_String (synthetic_target_uri report (fnd_target f)))])])]]),
      (''properties'', json_object
        [(''target'', J_String (fnd_target f)), (''confidence'', J_String (finding_confidence_name (fnd_confidence f))),
         (''evidence'', json_list json_evidence (fnd_evidence f)), (''remediation'', json_text (fnd_remediation f))])]"

definition sarif_document :: "serde \<Rightarrow> scan_report \<Rightarrow> json" where
  "sarif_document sd report =
     (let findings = sarif_findings sd report; lifecycle = project_lifecycle report
      in json_object
        [(''$schema'', J_String ''https://json.schemastore.org/sarif-2.1.0.json''), (''version'', J_String ''2.1.0''),
         (''runs'', J_Array [json_object
           [(''tool'', json_object [(''driver'', json_object
              [(''name'', J_String ''Surface''), (''version'', J_String (rep_scanner_version report)),
               (''informationUri'', J_String ''https://github.com/bxn-dev/surface''),
               (''rules'', json_list sarif_rule (sarif_rules findings))])]),
            (''invocations'', J_Array [json_object
              [(''executionSuccessful'', J_Bool (lp_successful lifecycle)),
               (''properties'', json_object
                 [(''scanId'', J_String (rep_scan_id report)),
                  (''reportSchemaVersion'', J_String (rep_schema_version report)),
                  (''scanStatus'', J_String (status_name (rep_status report))),
                  (''partial'', J_Bool (lp_partial lifecycle))])]]),
            (''results'', json_list (sarif_result report) findings)]])])"

definition render_sarif :: "(json \<Rightarrow> string option) \<Rightarrow> serde \<Rightarrow> scan_report \<Rightarrow> string option" where
  \<comment> \<open>over \<open>serde_json::to_string_pretty\<close>\<close>
  "render_sarif pretty sd report = pretty (sarif_document sd report)"

section \<open>CycloneDX\<close>

type_synonym service_key =
  "socket_addr \<times> transport_protocol \<times> string \<times> string \<times> string option \<times> (string \<times> string) list \<times> string"

definition service_order :: "(ssh_posture option \<Rightarrow> string) \<Rightarrow> service_observation \<Rightarrow> service_key" where
  "service_order ssh_debug s =
     (svc_address s, svc_transport s, service_kind_str (svc_service s), confidence_debug (svc_confidence s), svc_banner s,
      svc_details s, ssh_debug (svc_ssh s))"

definition named_selections :: "partial_ssh_algorithm_selections \<Rightarrow> (string \<times> string option) list" where
  "named_selections s =
     [(''kex'', part_kex s), (''host-key'', part_host_key s), (''cipher-c2s'', part_cipher_c2s s),
      (''cipher-s2c'', part_cipher_s2c s), (''mac-c2s'', part_mac_c2s s), (''mac-s2c'', part_mac_s2c s)]"

fun outcome_parts :: "ssh_posture_outcome \<Rightarrow> string \<times> (string \<times> string option) list \<times> string option" where
  "outcome_parts (Ssh_Complete s) = (''complete'', named_selections (selections_ref s), None)"
| "outcome_parts (Ssh_Partial s reason) = (''partial'', named_selections s, Some reason)"
| "outcome_parts (Ssh_Indeterminate reason) = (''indeterminate'', replicate 6 ([], None), Some reason)"

definition ssh_properties :: "ssh_posture \<Rightarrow> json list" where
  "ssh_properties posture =
     (case outcome_parts (ssh_outcome posture) of (result, selections, reason) \<Rightarrow>
        (case ssh_ident posture of
           Some i \<Rightarrow> [property ''surface:ssh:protocol'' (ssh_protocol i), property ''surface:ssh:software'' (ssh_software i)]
         | None \<Rightarrow> []) @
        [property ''surface:ssh:outcome'' result] @
        filter_map (\<lambda>(name, val). map_option (property (''surface:ssh:'' @ name)) val) selections @
        (case reason of Some r \<Rightarrow> [property ''surface:ssh:reason'' r] | None \<Rightarrow> []))"

definition service_properties :: "scan_report \<Rightarrow> service_observation \<Rightarrow> json list" where
  "service_properties report s =
     [property ''surface:detection-confidence'' (to_ascii_lowercase (confidence_debug (svc_confidence s))),
      property ''surface:evidence-source'' ''active-safe-probe'', property ''surface:scan-id'' (rep_scan_id report),
      property ''surface:report-schema-version'' (rep_schema_version report)] @
     map (\<lambda>(name, val). property (''surface:protocol:'' @ name) val) (svc_details s) @
     (case svc_ssh s of Some posture \<Rightarrow> ssh_properties posture | None \<Rightarrow> [])"

definition cyclone_service :: "scan_report \<Rightarrow> service_observation \<Rightarrow> json" where
  "cyclone_service report s =
     (let service_name = service_kind_str (svc_service s); transport = transport_as_str (svc_transport s)
      in json_object
        [(''bom-ref'', J_String (service_ref (svc_address s) transport service_name)),
         (''name'', J_String (concat [''Externally observed '', service_name, '' service''])),
         (''endpoints'', J_Array [J_String (concat [transport, ''://'', show_socket (svc_address s)])]),
         (''authenticated'', J_Bool False), (''properties'', J_Array (service_properties report s))])"

definition cyclone_order :: "serde \<Rightarrow> finding \<Rightarrow> string \<times> string \<times> severity \<times> string" where
  "cyclone_order sd f = (fnd_id f, fnd_target f, fnd_severity f, sd_finding sd f)"

definition cyclone_vulnerability :: "finding \<Rightarrow> json" where
  "cyclone_vulnerability f =
     (let source = json_object [(''name'', J_String ''Surface'')]
      in json_object
        [(''id'', J_String (fnd_id f)), (''source'', source),
         (''ratings'', J_Array [json_object [(''source'', source), (''severity'', J_String (cyclone_severity (fnd_severity f))),
            (''method'', J_String ''other'')]]),
         (''description'', J_String (fnd_description f)), (''recommendation'', json_text (fnd_remediation f)),
         (''properties'', J_Array [property ''surface:target'' (fnd_target f),
            property ''surface:confidence'' (to_ascii_lowercase (finding_confidence_debug (fnd_confidence f)))])])"

definition cyclone_component :: "scan_report \<Rightarrow> json" where
  "cyclone_component report =
     (let target = identity (rep_target report)
      in json_object
        [(''type'', J_String ''application''), (''bom-ref'', J_String (''surface-target:'' @ target)),
         (''name'', J_String ''Externally Observed Service Inventory''),
         (''properties'', J_Array [property ''surface:target'' target, property ''surface:scan-id'' (rep_scan_id report),
            property ''surface:scan-status'' (lp_status (project_lifecycle report))])])"

definition cyclone_document :: "(ssh_posture option \<Rightarrow> string) \<Rightarrow> serde \<Rightarrow> scan_report \<Rightarrow> json" where
  "cyclone_document ssh_debug sd report = json_object
     [(''$schema'', J_String ''https://cyclonedx.org/schema/bom-1.6.schema.json''), (''bomFormat'', J_String ''CycloneDX''),
      (''specVersion'', J_String ''1.6''), (''version'', json_nat 1),
      (''metadata'', json_object
        [(''component'', cyclone_component report),
         (''tools'', json_object [(''components'', J_Array [json_object
            [(''type'', J_String ''application''), (''name'', J_String ''Surface''),
             (''version'', J_String (rep_scanner_version report))]])])]),
      (''services'', json_list (cyclone_service report) (sort_key (service_order ssh_debug) (rep_services report))),
      (''vulnerabilities'', json_list cyclone_vulnerability (sort_key (cyclone_order sd) (rep_findings report)))]"

definition render_cyclonedx ::
    "(json \<Rightarrow> string option) \<Rightarrow> (ssh_posture option \<Rightarrow> string) \<Rightarrow> serde \<Rightarrow> scan_report \<Rightarrow> string option" where
  "render_cyclonedx pretty ssh_debug sd report = pretty (cyclone_document ssh_debug sd report)"

section \<open>The rules of a SARIF document\<close>

lemma map_of_rules: "map_of (sarif_rules fs) i = find (\<lambda>f. fnd_id f = i) fs"
proof (induction fs rule: rev_induct)
  case (snoc f fs)
  have find: "find P (xs @ [x]) = (case find P xs of Some y \<Rightarrow> Some y | None \<Rightarrow> if P x then Some x else None)" for P and xs :: "finding list" and x
    by (induction xs) auto
  from snoc show ?case
    by (auto simp: sarif_rules_def entry_or_insert_def find map_of_btm_insert split: option.splits)
qed (simp add: sarif_rules_def)

lemma find_sorted_first:
  assumes "sorted (map key xs)" "find P xs = Some x" "y \<in> set xs" "P y"
  shows "key x \<le> key y"
  using assms by (induction xs) (auto split: if_splits)

lemma find_SomeD: "find P xs = Some x \<Longrightarrow> x \<in> set xs \<and> P x"
  by (induction xs) (auto split: if_splits)

lemma rule_severest:
  assumes "find (\<lambda>f. fnd_id f = i) (sarif_findings sd report) = Some f"
  shows "fnd_severity f = Max (fnd_severity ` {g \<in> set (rep_findings report). fnd_id g = i})"
proof (rule Max_eqI [symmetric])
  have sorted: "sorted (map (sarif_order sd) (sarif_findings sd report))" by (simp add: sarif_findings_def)
  from assms have f: "f \<in> set (sarif_findings sd report)" "fnd_id f = i" by (auto dest: find_SomeD)
  then show "fnd_severity f \<in> fnd_severity ` {g \<in> set (rep_findings report). fnd_id g = i}"
    by (auto simp: sarif_findings_def)
  fix s assume "s \<in> fnd_severity ` {g \<in> set (rep_findings report). fnd_id g = i}"
  then obtain g where g: "g \<in> set (sarif_findings sd report)" "fnd_id g = i" "s = fnd_severity g"
    by (auto simp: sarif_findings_def)
  from find_sorted_first [OF sorted assms g(1)] g(2) have "sarif_order sd f \<le> sarif_order sd g" by simp
  then show "s \<le> fnd_severity f" by (auto simp: g(3) sarif_order_def less_eq_severity_def less_eq_prod_def)
qed simp

text \<open>
  C18: A SARIF document has a rule for exactly the identifiers its results refer to, and the severity score of a rule is that of
  the severest finding with its identifier.
\<close>

theorem sarif_rules_exact:
  "map_option fnd_severity (map_of (sarif_rules (sarif_findings sd report)) i) =
     (if i \<in> fnd_id ` set (rep_findings report)
      then Some (Max (fnd_severity ` {f \<in> set (rep_findings report). fnd_id f = i})) else None)"
proof (cases "find (\<lambda>f. fnd_id f = i) (sarif_findings sd report)")
  case None
  then have "i \<notin> fnd_id ` set (rep_findings report)" by (auto simp: find_None_iff sarif_findings_def)
  with None show ?thesis by (simp add: map_of_rules)
next
  case (Some f)
  then have "f \<in> set (rep_findings report)" "fnd_id f = i" by (auto simp: sarif_findings_def dest!: find_SomeD)
  then have "i \<in> fnd_id ` set (rep_findings report)" by blast
  with Some rule_severest [OF Some] show ?thesis by (simp add: map_of_rules)
qed

section \<open>Order of observation\<close>

definition every_kind :: "service_kind list" where
  "every_kind =
     [Svc_Http, Svc_Https, Svc_Ssh, Svc_Smtp, Svc_Smtps, Svc_Ftp, Svc_Imap, Svc_Imaps, Svc_Pop3, Svc_Pop3s, Svc_Dns,
      Svc_Redis, Svc_Mysql, Svc_Postgresql, Svc_Mqtt, Svc_Mssql, Svc_Oracle, Svc_Mongodb, Svc_Memcached, Svc_Elasticsearch,
      Svc_Rabbitmq, Svc_Kafka, Svc_Cassandra, Svc_Clickhouse, Svc_Neo4j, Svc_Smb, Svc_Nfs, Svc_Rdp, Svc_Vnc, Svc_Docker,
      Svc_Kubernetes, Svc_Prometheus, Svc_Grafana, Svc_Wireguard, Svc_StunTurn, Svc_Netbird, Svc_MinecraftJava,
      Svc_MinecraftBedrock, Svc_Terraria, Svc_Valheim, Svc_Factorio, Svc_SourceEngine, Svc_Tls, Svc_Unknown]"

lemma service_kind_str_inject: "service_kind_str a = service_kind_str b \<longleftrightarrow> a = b"
proof -
  have "distinct (map service_kind_str every_kind)" by code_simp
  moreover have "k \<in> set every_kind" for k by (cases k) (simp_all add: every_kind_def)
  ultimately show ?thesis by (auto simp: distinct_map dest: inj_onD)
qed

lemma confidence_debug_inject: "confidence_debug a = confidence_debug b \<longleftrightarrow> a = b"
  by (cases a; cases b) simp_all

lemma service_order_inj: "inj_on ssh_debug (svc_ssh ` S) \<Longrightarrow> inj_on (service_order ssh_debug) S"
proof (rule inj_onI)
  fix a b :: service_observation
  assume "inj_on ssh_debug (svc_ssh ` S)" "a \<in> S" "b \<in> S" "service_order ssh_debug a = service_order ssh_debug b"
  then show "a = b"
    by (intro service_observation.equality)
      (auto simp: service_order_def service_kind_str_inject confidence_debug_inject dest: inj_onD)
qed

lemma cyclone_order_inj: "inj_on (sd_finding sd) S \<Longrightarrow> inj_on (cyclone_order sd) S"
  and sarif_order_inj: "inj_on (sd_finding sd) S \<Longrightarrow> inj_on (sarif_order sd) S"
  by (auto simp: cyclone_order_def sarif_order_def inj_on_def)

definition same_observations :: "scan_report \<Rightarrow> scan_report \<Rightarrow> bool" where
  \<comment> \<open>up to the order of services and findings\<close>
  "same_observations a b \<longleftrightarrow>
     mset (rep_services a) = mset (rep_services b) \<and> mset (rep_findings a) = mset (rep_findings b) \<and>
     b = a\<lparr>rep_services := rep_services b, rep_findings := rep_findings b\<rparr>"

definition separates :: "(ssh_posture option \<Rightarrow> string) \<Rightarrow> serde \<Rightarrow> scan_report \<Rightarrow> bool" where
  \<comment> \<open>the texts used as sort keys tell the findings and postures of a report apart\<close>
  "separates ssh_debug sd report \<longleftrightarrow>
     inj_on (sd_finding sd) (set (rep_findings report)) \<and> inj_on ssh_debug (svc_ssh ` set (rep_services report))"

lemma same_observations_fields:
  assumes "same_observations a b"
  obtains ss fs where "b = a\<lparr>rep_services := ss, rep_findings := fs\<rparr>" "mset (rep_services a) = mset ss" "mset (rep_findings a) = mset fs"
  using assms by (auto simp: same_observations_def)

lemma sarif_document_perm:
  assumes "inj_on (sd_finding sd) (set (rep_findings a))" "mset (rep_findings a) = mset fs"
  shows "sarif_document sd (a\<lparr>rep_services := ss, rep_findings := fs\<rparr>) = sarif_document sd a"
proof -
  have "sarif_findings sd (a\<lparr>rep_services := ss, rep_findings := fs\<rparr>) = sarif_findings sd a"
    using sort_key_perm [OF assms(2) sarif_order_inj [OF assms(1)]] by (simp add: sarif_findings_def)
  moreover have "sarif_result (a\<lparr>rep_services := ss, rep_findings := fs\<rparr>) = sarif_result a"
    by (simp add: fun_eq_iff sarif_result_def synthetic_target_uri_def)
  ultimately show ?thesis by (simp add: sarif_document_def project_lifecycle_def Let_def)
qed

lemma cyclone_document_perm:
  assumes "separates ssh_debug sd a" "mset (rep_services a) = mset ss" "mset (rep_findings a) = mset fs"
  shows "cyclone_document ssh_debug sd (a\<lparr>rep_services := ss, rep_findings := fs\<rparr>) = cyclone_document ssh_debug sd a"
proof -
  have "cyclone_service (a\<lparr>rep_services := ss, rep_findings := fs\<rparr>) = cyclone_service a"
    by (simp add: fun_eq_iff cyclone_service_def service_properties_def)
  moreover have "sort_key (service_order ssh_debug) (rep_services a) = sort_key (service_order ssh_debug) ss"
    by (rule sort_key_perm [OF assms(2) service_order_inj]) (use assms(1) in \<open>simp add: separates_def\<close>)
  moreover have "sort_key (cyclone_order sd) (rep_findings a) = sort_key (cyclone_order sd) fs"
    by (rule sort_key_perm [OF assms(3) cyclone_order_inj]) (use assms(1) in \<open>simp add: separates_def\<close>)
  ultimately show ?thesis by (simp add: cyclone_document_def cyclone_component_def project_lifecycle_def)
qed

text \<open>
  C17: Both exports are deterministic: two reports that differ only in the order in which services and findings were recorded
  are exported to the same SARIF document and the same CycloneDX document.
\<close>

theorem exports_order_independent:
  assumes "same_observations a b" "separates ssh_debug sd a"
  shows "(sarif_document sd b, cyclone_document ssh_debug sd b) = (sarif_document sd a, cyclone_document ssh_debug sd a)"
  using assms(1)
proof (rule same_observations_fields)
  fix ss fs
  assume "b = a\<lparr>rep_services := ss, rep_findings := fs\<rparr>" "mset (rep_services a) = mset ss" "mset (rep_findings a) = mset fs"
  moreover from this assms(2) have "inj_on (sd_finding sd) (set (rep_findings a))" by (simp add: separates_def)
  ultimately show ?thesis using assms(2) by (simp add: sarif_document_perm cyclone_document_perm)
qed

definition two_findings :: "string \<Rightarrow> string \<Rightarrow> scan_report" where
  "two_findings x y = sample_report\<lparr>rep_findings :=
     [finding_of x ''title'' Sev_Low Cat_Http ''target'' ''text'' ''place'' ''seen'' None FConf_High,
      finding_of y ''title'' Sev_Low Cat_Http ''target'' ''text'' ''place'' ''seen'' None FConf_High]\<rparr>"

lemma exports_order_independent_witness:
  "\<exists>sd. (sarif_document sd (two_findings ''b'' ''a''), cyclone_document (\<lambda>_. ''ssh'') sd (two_findings ''b'' ''a'')) =
     (sarif_document sd (two_findings ''a'' ''b''), cyclone_document (\<lambda>_. ''ssh'') sd (two_findings ''a'' ''b''))"
proof
  let ?sd = "\<lparr>sd_to_string = (\<lambda>_. ''text''), sd_dns_record = (\<lambda>_. ''record''), sd_finding = fnd_id, sd_mail = (\<lambda>_. J_Null),
     sd_intelligence = (\<lambda>_. J_Null)\<rparr>"
  have "rep_services sample_report = []" by (simp add: sample_report_def not_started_def)
  then have "separates (\<lambda>_. ''ssh'') ?sd (two_findings ''a'' ''b'')"
    by (auto simp: separates_def two_findings_def finding_of_def)
  moreover have "same_observations (two_findings ''a'' ''b'') (two_findings ''b'' ''a'')"
    by (simp add: same_observations_def two_findings_def add_mset_commute)
  ultimately show "(sarif_document ?sd (two_findings ''b'' ''a''), cyclone_document (\<lambda>_. ''ssh'') ?sd (two_findings ''b'' ''a'')) =
     (sarif_document ?sd (two_findings ''a'' ''b''), cyclone_document (\<lambda>_. ''ssh'') ?sd (two_findings ''a'' ''b''))"
    by (intro exports_order_independent)
qed

end
