(* ===== verification/Signing.thy ===== *)
theory Signing
  imports Ssh_Wire "HOL-Library.Code_Target_Nat"
begin

text \<open>
  Detached signatures of reports, \<^verbatim>\<open>crates/surface-report/src/signing.rs\<close>. The Ed25519 and SHA-256 crates and the
  serialisation of the envelope are the fields of \<open>signing_env\<close>; \<open>signing_laws\<close> is what their documentation promises.
\<close>

section \<open>Data\<close>

record signature_envelope =
  env_format :: string
  env_version :: string
  env_algorithm :: string
  env_key_id :: string
  env_sha256 :: string
  env_signature :: string

datatype verification_error =
    MalformedEnvelope | UnknownAlgorithm | MalformedKey | DigestMismatch | KeyIdMismatch | InvalidSignature

fun verification_error_str :: "verification_error \<Rightarrow> string" where
  "verification_error_str MalformedEnvelope = ''signature envelope is malformed''"
| "verification_error_str UnknownAlgorithm = ''signature algorithm is unsupported''"
| "verification_error_str MalformedKey = ''public key is malformed''"
| "verification_error_str DigestMismatch = ''report digest does not match signature envelope''"
| "verification_error_str KeyIdMismatch = ''signature key ID does not match public key''"
| "verification_error_str InvalidSignature = ''report signature is invalid''"

record signing_env =
  sg_sha256 :: "bytes \<Rightarrow> bytes"
  sg_public_key :: "bytes \<Rightarrow> bytes" \<comment> \<open>\<open>SigningKey::from_bytes(..).verifying_key().to_bytes()\<close>\<close>
  sg_sign :: "bytes \<Rightarrow> bytes \<Rightarrow> bytes" \<comment> \<open>by the private key\<close>
  sg_key_valid :: "bytes \<Rightarrow> bool" \<comment> \<open>whether \<open>VerifyingKey::from_bytes\<close> succeeds\<close>
  sg_verify :: "bytes \<Rightarrow> bytes \<Rightarrow> bytes \<Rightarrow> bool" \<comment> \<open>public key, message, signature\<close>
  sg_to_string :: "signature_envelope \<Rightarrow> string option" \<comment> \<open>\<open>serde_json::to_string_pretty\<close>\<close>
  sg_from_slice :: "bytes \<Rightarrow> signature_envelope option" \<comment> \<open>\<open>serde_json::from_slice\<close>\<close>

section \<open>Hexadecimal text\<close>

definition DIGITS :: string where "DIGITS = ''0123456789abcdef''"

definition octet :: "char \<Rightarrow> u8" where
  "octet c = word_of_nat (byte c)"

unbundle bit_operations_syntax

definition hex_byte :: "char \<Rightarrow> string" where
  "hex_byte c = [DIGITS ! unat (drop_bit 4 (octet c)), DIGITS ! unat (octet c AND 0x0f)]"

definition hex :: "bytes \<Rightarrow> string" where
  "hex bs = concat (map hex_byte bs)"

definition digit :: "u8 \<Rightarrow> u8 option" where
  "digit v =
     (if 48 \<le> v \<and> v \<le> 57 then Some (v - 48)
      else if 97 \<le> v \<and> v \<le> 102 then Some (v - 97 + 10)
      else if 65 \<le> v \<and> v \<le> 70 then Some (v - 65 + 10)
      else None)"

fun decode_pairs :: "string \<Rightarrow> bytes option" where
  \<comment> \<open>the loop over \<open>chunks_exact(2)\<close>\<close>
  "decode_pairs (a # b # s) =
     (case (digit (octet a), digit (octet b)) of
        (Some x, Some y) \<Rightarrow> map_option ((#) (char_of (unat (push_bit 4 x OR y)))) (decode_pairs s)
      | _ \<Rightarrow> None)"
| "decode_pairs _ = Some []"

definition decode_hex :: "nat \<Rightarrow> string \<Rightarrow> bytes option" where
  "decode_hex n s = (if length s \<noteq> n * 2 then None else decode_pairs s)"

definition decode_key :: "nat \<Rightarrow> bytes \<Rightarrow> bytes option" where
  "decode_key n v = (if valid_utf8 v then decode_hex n (trim v) else None)"

section \<open>Signing and verification\<close>

definition sign_bytes :: "signing_env \<Rightarrow> bytes \<Rightarrow> bytes \<Rightarrow> string option" where
  \<comment> \<open>\<open>None\<close> when the envelope cannot be serialised\<close>
  "sign_bytes E report private_key =
     (let public_key = sg_public_key E private_key
      in sg_to_string E \<lparr>env_format = ''surface-detached-signature'', env_version = ''1.0'', env_algorithm = ''Ed25519'',
           env_key_id = take 32 (hex (sg_sha256 E public_key)), env_sha256 = hex (sg_sha256 E report),
           env_signature = hex (sg_sign E private_key report)\<rparr>)"

definition verify_bytes :: "signing_env \<Rightarrow> bytes \<Rightarrow> bytes \<Rightarrow> bytes \<Rightarrow> verification_error + unit" where
  "verify_bytes E report envelope_json public_key =
     (case sg_from_slice E envelope_json of
        None \<Rightarrow> Inl MalformedEnvelope
      | Some envelope \<Rightarrow>
          if env_format envelope \<noteq> ''surface-detached-signature'' \<or> env_version envelope \<noteq> ''1.0'' then Inl MalformedEnvelope
          else if env_algorithm envelope \<noteq> ''Ed25519'' then Inl UnknownAlgorithm
          else if env_sha256 envelope \<noteq> hex (sg_sha256 E report) then Inl DigestMismatch
          else if env_key_id envelope \<noteq> take 32 (hex (sg_sha256 E public_key)) then Inl KeyIdMismatch
          else (case decode_hex 64 (env_signature envelope) of
              None \<Rightarrow> Inl MalformedEnvelope
            | Some signature \<Rightarrow>
                if \<not> sg_key_valid E public_key then Inl MalformedKey
                else if sg_verify E public_key report signature then Inr () else Inl InvalidSignature))"

definition signing_laws :: "signing_env \<Rightarrow> bool" where
  \<comment> \<open>of the crates: a signature has 64 bytes, a derived public key is valid and accepts the signatures of its private key,
     and the text of an envelope is read back as that envelope\<close>
  "signing_laws E \<longleftrightarrow>
     (\<forall>key m. length (sg_sign E key m) = 64 \<and> sg_key_valid E (sg_public_key E key) \<and>
        sg_verify E (sg_public_key E key) m (sg_sign E key m)) \<and>
     (\<forall>e t. sg_to_string E e = Some t \<longrightarrow> sg_from_slice E t = Some e)"

section \<open>Hexadecimal text is read back\<close>

lemma all_chars: "list_all P (map char_of [0..<256::nat]) \<Longrightarrow> P (c :: char)"
  by (metis (no_types, lifting) UNIV_I UNIV_char_of_nat list_all_iff list.set_map set_upt image_cong atLeastLessThan_iff)

definition digit_row :: "char \<Rightarrow> bool" where
  "digit_row c =
     (case digit (octet c) of
        Some x \<Rightarrow> unat x < 16 \<and> DIGITS ! unat x = char_lower c
      | None \<Rightarrow> char_lower c \<notin> set DIGITS)"

lemma digit_table: "list_all digit_row (map char_of [0..<256::nat])"
  by code_simp

lemma distinct_DIGITS: "distinct DIGITS" by code_simp

lemma length_DIGITS [simp]: "length DIGITS = 16" by (simp add: DIGITS_def)

lemma digit_exact: "digit (octet c) = Some x \<longleftrightarrow> unat x < 16 \<and> char_lower c = DIGITS ! unat x"
proof (cases "digit (octet c)")
  case None
  with all_chars [OF digit_table, of c] have "char_lower c \<notin> set DIGITS" by (simp add: digit_row_def)
  with None show ?thesis by (auto simp: in_set_conv_nth)
next
  case (Some y)
  with all_chars [OF digit_table, of c] have y: "unat y < 16" "DIGITS ! unat y = char_lower c" by (simp_all add: digit_row_def)
  then have "x = y" if "unat x < 16" "char_lower c = DIGITS ! unat x"
    using that distinct_DIGITS by (metis length_DIGITS nth_eq_iff_index_eq word_unat_eq_iff)
  with Some y show ?thesis by auto
qed


lemma octet_nat [simp]: "unat (octet c) = byte c"
proof -
  have "byte c < 256" by simp
  then show ?thesis by (simp add: octet_def unat_of_nat)
qed

lemma nibble_bounds [simp]: "byte c div 16 < 16" "byte c mod 16 < 16"
proof -
  have "byte c < 16 * 16" by simp
  then show "byte c div 16 < 16" by (rule less_mult_imp_div_less)
qed simp

lemma high_nibble: "unat (drop_bit 4 (octet c)) = byte c div 16"
  by (simp add: drop_bit_eq_div unat_div_distrib)

lemma low_nibble: "unat (octet c AND 0x0f) = byte c mod 16"
proof -
  have "octet c AND 0x0f = take_bit 4 (octet c)" by (simp add: take_bit_eq_mask mask_eq_exp_minus_1)
  then show ?thesis by (simp add: take_bit_eq_mod unat_mod_distrib)
qed

lemma hex_byte_nat: "hex_byte c = [DIGITS ! (byte c div 16), DIGITS ! (byte c mod 16)]"
  by (simp add: hex_byte_def high_nibble low_nibble)

lemma join_nibbles:
  fixes x y :: u8
  assumes "unat x < 16" "unat y < 16"
  shows "unat (push_bit 4 x OR y) = unat x * 16 + unat y"
proof -
  have table: "\<forall>n \<in> set [0..<16]. \<forall>m \<in> set [0..<16]. unat (push_bit 4 (word_of_nat n) OR (word_of_nat m :: u8)) = n * 16 + m"
    unfolding list_all_iff [symmetric] by code_simp
  from bspec [OF bspec [OF table, of "unat x"], of "unat y"] assms
  have "unat (push_bit 4 (word_of_nat (unat x)) OR (word_of_nat (unat y) :: u8)) = unat x * 16 + unat y" by simp
  then show ?thesis by simp
qed

lemma hex_pair:
  "(\<exists>x y. digit (octet a) = Some x \<and> digit (octet b) = Some y \<and> c = char_of (unat (push_bit 4 x OR y))) \<longleftrightarrow>
     [char_lower a, char_lower b] = hex_byte c"
proof
  assume "\<exists>x y. digit (octet a) = Some x \<and> digit (octet b) = Some y \<and> c = char_of (unat (push_bit 4 x OR y))"
  then obtain x y :: u8 where xy: "unat x < 16" "unat y < 16" "char_lower a = DIGITS ! unat x" "char_lower b = DIGITS ! unat y"
    and c: "c = char_of (unat (push_bit 4 x OR y))" unfolding digit_exact by blast
  from c xy(1,2) have "byte c = unat x * 16 + unat y" by (simp add: join_nibbles)
  with xy show "[char_lower a, char_lower b] = hex_byte c" by (simp add: hex_byte_nat)
next
  assume eq: "[char_lower a, char_lower b] = hex_byte c"
  define x y where "x = (word_of_nat (byte c div 16) :: u8)" and "y = (word_of_nat (byte c mod 16) :: u8)"
  have "byte c div 16 < 256" using nibble_bounds(1) [of c] by linarith
  moreover have "byte c mod 16 < 256" using nibble_bounds(2) [of c] by linarith
  ultimately have n: "unat x = byte c div 16" "unat y = byte c mod 16" by (simp_all add: x_def y_def unat_of_nat)
  with eq have "digit (octet a) = Some x" "digit (octet b) = Some y"
    by (simp_all add: digit_exact hex_byte_nat)
  moreover from n have "unat (push_bit 4 x OR y) = byte c" by (simp add: join_nibbles)
  then have "c = char_of (unat (push_bit 4 x OR y))" by simp
  ultimately show "\<exists>x y. digit (octet a) = Some x \<and> digit (octet b) = Some y \<and> c = char_of (unat (push_bit 4 x OR y))"
    by blast
qed

lemma length_hex [simp]: "length (hex bs) = 2 * length bs"
  by (induction bs) (simp_all add: hex_def hex_byte_def)

lemma decode_pairs_exact:
  "even (length s) \<Longrightarrow> decode_pairs s = Some bs \<longleftrightarrow> map char_lower s = hex bs"
proof (induction s arbitrary: bs rule: decode_pairs.induct)
  case (1 a b s)
  show ?case
  proof (cases bs)
    case Nil
    then show ?thesis by (auto simp: hex_def split: option.splits)
  next
    case (Cons c cs)
    have "decode_pairs (a # b # s) = Some bs \<longleftrightarrow>
        (\<exists>x y. digit (octet a) = Some x \<and> digit (octet b) = Some y \<and> c = char_of (unat (push_bit 4 x OR y))) \<and>
        decode_pairs s = Some cs"
      by (auto simp: Cons split: option.splits)
    also have "\<dots> \<longleftrightarrow> [char_lower a, char_lower b] = hex_byte c \<and> map char_lower s = hex cs"
      unfolding hex_pair
    proof (intro conj_cong refl)
      assume "[char_lower a, char_lower b] = hex_byte c"
      then obtain x y :: u8 where "Some x = digit (octet a)" "Some y = digit (octet b)" unfolding hex_pair [symmetric] by metis
      then show "decode_pairs s = Some cs \<longleftrightarrow> map char_lower s = hex cs" using 1 by simp
    qed
    finally show ?thesis by (auto simp: Cons hex_def hex_byte_def)
  qed
qed (auto simp: hex_def hex_byte_def)

lemma decode_hex_exact_lemma: "decode_hex n s = Some bs \<longleftrightarrow> length bs = n \<and> to_ascii_lowercase s = hex bs"
proof -
  have "length s = n * 2 \<longleftrightarrow> length bs = n" if "map char_lower s = hex bs"
    using arg_cong [OF that, of length] by auto
  then show ?thesis
    using decode_pairs_exact [of s bs] by (auto simp: decode_hex_def to_ascii_lowercase_def)
qed

lemma hex_byte_lower: "map char_lower (hex_byte c) = hex_byte c"
proof -
  have "\<forall>d \<in> set DIGITS. char_lower d = d" by (simp add: DIGITS_def) code_simp
  then have "char_lower (DIGITS ! n) = DIGITS ! n" if "n < 16" for n using that nth_mem [of n DIGITS] by simp
  then show ?thesis by (simp add: hex_byte_nat)
qed

lemma decode_hex_hex: "decode_hex (length bs) (hex bs) = Some bs"
  by (simp add: decode_hex_exact_lemma to_ascii_lowercase_def hex_def map_concat o_def hex_byte_lower)

lemma hex_inject [simp]: "hex a = hex b \<longleftrightarrow> a = b"
  by (metis decode_hex_hex length_hex mult_cancel1 option.inject zero_neq_numeral)

text \<open>A scheme for the witnesses: an envelope is written as its fields in hexadecimal, and a signature repeats its message.\<close>

definition pad_to :: "nat \<Rightarrow> bytes \<Rightarrow> bytes" where
  "pad_to n s = take n (s @ replicate n (CHR ''x''))"

lemma length_pad_to [simp]: "length (pad_to n s) = n" by (simp add: pad_to_def)

definition plain_envelope :: "signature_envelope \<Rightarrow> string" where
  "plain_envelope e = join '','' (map hex [env_format e, env_version e, env_algorithm e, env_key_id e, env_sha256 e, env_signature e])"

definition read_envelope :: "bytes \<Rightarrow> signature_envelope option" where
  "read_envelope v =
     (case map (\<lambda>s. decode_hex (length s div 2) s) (split_on (CHR '','') v) of
        [Some a, Some b, Some c, Some d, Some e, Some f] \<Rightarrow>
          Some \<lparr>env_format = a, env_version = b, env_algorithm = c, env_key_id = d, env_sha256 = e, env_signature = f\<rparr>
      | _ \<Rightarrow> None)"

definition plain_scheme :: signing_env where
  "plain_scheme = \<lparr>sg_sha256 = pad_to 32, sg_public_key = rev, sg_sign = (\<lambda>key m. pad_to 64 m), sg_key_valid = (\<lambda>_. True),
     sg_verify = (\<lambda>key m s. s = pad_to 64 m), sg_to_string = (\<lambda>e. Some (plain_envelope e)), sg_from_slice = read_envelope\<rparr>"

lemma hex_no_comma: "CHR '','' \<notin> set (hex bs)"
proof -
  have "CHR '','' \<notin> set DIGITS" by (simp add: DIGITS_def)
  then have "CHR '','' \<noteq> DIGITS ! (byte c div 16)" "CHR '','' \<noteq> DIGITS ! (byte c mod 16)" for c
    by (metis length_DIGITS nth_mem nibble_bounds)+
  then show ?thesis by (auto simp: hex_def hex_byte_nat)
qed

lemma plain_scheme_laws: "signing_laws plain_scheme"
proof -
  have "read_envelope (plain_envelope e) = Some e" for e
  proof -
    have "split_on (CHR '','') (plain_envelope e) =
        map hex [env_format e, env_version e, env_algorithm e, env_key_id e, env_sha256 e, env_signature e]"
      unfolding plain_envelope_def by (rule split_on_join) (auto simp: hex_no_comma)
    then show ?thesis by (simp add: read_envelope_def decode_hex_hex)
  qed
  then show ?thesis by (simp add: signing_laws_def plain_scheme_def)
qed

section \<open>Properties\<close>

lemma signature_roundtrip_lemma:
  assumes "signing_laws E" "sign_bytes E report private_key = Some envelope"
  shows "verify_bytes E report envelope (sg_public_key E private_key) = Inr ()"
proof -
  from assms have "sg_from_slice E envelope = Some \<lparr>env_format = ''surface-detached-signature'', env_version = ''1.0'',
      env_algorithm = ''Ed25519'', env_key_id = take 32 (hex (sg_sha256 E (sg_public_key E private_key))),
      env_sha256 = hex (sg_sha256 E report), env_signature = hex (sg_sign E private_key report)\<rparr>"
    by (simp add: signing_laws_def sign_bytes_def Let_def)
  moreover have "decode_hex 64 (hex (sg_sign E private_key report)) = Some (sg_sign E private_key report)"
    using assms(1) decode_hex_hex [of "sg_sign E private_key report"] by (simp add: signing_laws_def)
  ultimately show ?thesis using assms(1) by (simp add: verify_bytes_def signing_laws_def)
qed

text \<open>A report signed with a private key is accepted with the public key of that private key: the envelope written by
  \<open>sign_bytes\<close> passes every check of \<open>verify_bytes\<close>.\<close>

theorem signature_roundtrip:
  assumes "signing_laws E" "sign_bytes E report private_key = Some envelope"
  shows "verify_bytes E report envelope (sg_public_key E private_key) = Inr ()"
  by (rule signature_roundtrip_lemma [OF assms])

lemma signature_roundtrip_witness:
  "\<exists>envelope. sign_bytes plain_scheme ''report'' ''key'' = Some envelope \<and>
     verify_bytes plain_scheme ''report'' envelope (rev ''key'') = Inr ()"
proof -
  obtain envelope where e: "sign_bytes plain_scheme ''report'' ''key'' = Some envelope"
    by (simp add: sign_bytes_def plain_scheme_def Let_def)
  from signature_roundtrip [OF plain_scheme_laws e] e show ?thesis by (auto simp: plain_scheme_def)
qed

text \<open>An envelope accepts reports of one digest only: two reports that one envelope is accepted for have the same SHA-256
  digest, whatever the keys.\<close>

theorem envelope_binds_digest:
  assumes "verify_bytes E report envelope key = Inr ()" "verify_bytes E report' envelope key' = Inr ()"
  shows "sg_sha256 E report = sg_sha256 E report'"
  using assms by (auto simp: verify_bytes_def split: option.splits if_splits)

lemma verify_bytes_cong:
  assumes "sg_sha256 E a = sg_sha256 E b" "sg_verify E key a = sg_verify E key b"
  shows "verify_bytes E a envelope key = verify_bytes E b envelope key"
  by (simp only: verify_bytes_def assms)

lemma envelope_binds_digest_witness:
  "\<exists>envelope. verify_bytes plain_scheme (replicate 70 (CHR ''a'')) envelope (rev ''key'') = Inr () \<and>
     verify_bytes plain_scheme (replicate 71 (CHR ''a'')) envelope (rev ''key'') = Inr () \<and>
     sg_sha256 plain_scheme (replicate 70 (CHR ''a'')) = sg_sha256 plain_scheme (replicate 71 (CHR ''a''))"
proof -
  let ?a = "replicate 70 (CHR ''a'')" and ?b = "replicate 71 (CHR ''a'')"
  obtain envelope where e: "sign_bytes plain_scheme ?a ''key'' = Some envelope"
    by (simp add: sign_bytes_def plain_scheme_def Let_def)
  have "pad_to 32 ?a = pad_to 32 ?b" "pad_to 64 ?a = pad_to 64 ?b" by code_simp+
  then have same: "verify_bytes plain_scheme ?b envelope key = verify_bytes plain_scheme ?a envelope key" for key
    by (intro verify_bytes_cong) (simp_all add: plain_scheme_def)
  have "sg_public_key plain_scheme ''key'' = rev ''key''" by (simp add: plain_scheme_def)
  with signature_roundtrip_lemma [OF plain_scheme_laws e]
  have a: "verify_bytes plain_scheme ?a envelope (rev ''key'') = Inr ()" by simp
  with same have b: "verify_bytes plain_scheme ?b envelope (rev ''key'') = Inr ()" by simp
  from envelope_binds_digest [OF a b] a b show ?thesis by blast
qed

text \<open>Hexadecimal text is decoded exactly: the result is the byte string whose lower-case hexadecimal text is the input
  up to the case of its letters, and everything else is refused.\<close>

theorem decode_hex_exact: "decode_hex n s = Some bs \<longleftrightarrow> length bs = n \<and> to_ascii_lowercase s = hex bs"
  by (rule decode_hex_exact_lemma)

end
