(* ===== verification/Storage.thy ===== *)
theory Storage
  imports Report
begin

text \<open>
  The scan history, \<^verbatim>\<open>crates/surface-storage/src/lib.rs\<close>: reports in tables of a database, with queries, deletion,
  retention and schema migrations. A table is the list of its rows; a statement checks the constraints the migrations
  declare (primary keys, foreign keys, cascading deletion). A transaction works on a copy that replaces the database when
  it commits and is dropped with every error. What SQLite may refuse for other reasons, the serialisation of a report, the
  clock and the random identifiers are the fields of \<open>storage_env\<close>.
\<close>

section \<open>Tables\<close>

record scan_row =
  row_scan_id :: string
  row_original_target :: string
  row_normalized_target :: string
  row_scanner_version :: string
  row_schema_version :: string
  row_started_at :: int
  row_completed_at :: "int option"
  row_status :: string
  row_interrupted :: int
  row_info_count :: nat
  row_low_count :: nat
  row_medium_count :: nat
  row_high_count :: nat
  row_critical_count :: nat
  row_report_json :: string
  row_origin :: string
  row_created_at :: int
  row_tenant_id :: string

record finding_row =
  fr_scan_id :: string
  fr_index :: nat
  fr_rule_id :: string
  fr_severity :: string
  fr_target :: string
  fr_title :: string

record audit_row =
  au_event_id :: string
  au_occurred_at :: int
  au_action :: string
  au_resource_type :: string
  au_resource_id :: "string option"
  au_outcome :: string
  au_tenant_id :: string

record database =
  db_versions :: "(int \<times> int) list" \<comment> \<open>\<open>surface_schema_migrations\<close>\<close>
  db_tenants :: "string list"
  db_scans :: "scan_row list"
  db_findings :: "finding_row list"
  db_audit :: "audit_row list"
  db_job_scans :: "string list" \<comment> \<open>the scans that rows of \<open>scan_jobs\<close> refer to\<close>

datatype statement =
    St_Begin | St_Commit | St_Insert_Scan | St_Insert_Finding nat | St_Delete string | St_Audit nat | St_Select
  | St_Open | St_Permissions | St_Foreign_Keys | St_Create_Table | St_Version | St_Applied int | St_Record int

record storage_env =
  st_fails :: "statement \<Rightarrow> bool" \<comment> \<open>what fails although no constraint is violated\<close>
  st_to_string :: "scan_report \<Rightarrow> string option"
  st_from_str :: "string \<Rightarrow> scan_report option"
  st_parse_uuid :: "string \<Rightarrow> string option" \<comment> \<open>\<open>Uuid::parse_str(..).to_string()\<close>\<close>
  st_now :: int
  st_sub :: "int \<Rightarrow> int option" \<comment> \<open>\<open>now.checked_sub(..)\<close> of a duration\<close>
  st_event_id :: "nat \<Rightarrow> string"
  st_script :: "int \<Rightarrow> database \<Rightarrow> database option" \<comment> \<open>the script of a migration\<close>

type_synonym 'a stored = "string + 'a"

fun and_then_ok :: "'a stored \<Rightarrow> ('a \<Rightarrow> 'b stored) \<Rightarrow> 'b stored" where
  \<comment> \<open>the operator \<open>?\<close>\<close>
  "and_then_ok (Inl e) f = Inl e"
| "and_then_ok (Inr x) f = f x"

definition execute :: "storage_env \<Rightarrow> statement \<Rightarrow> string \<Rightarrow> 'a option \<Rightarrow> 'a stored" where
  \<comment> \<open>a statement with its result, \<open>None\<close> when it violates a constraint\<close>
  "execute E st message result =
     (if st_fails E st then Inl message else (case result of Some x \<Rightarrow> Inr x | None \<Rightarrow> Inl message))"

section \<open>Names\<close>

fun stored_rank :: "severity \<Rightarrow> int" where
  "stored_rank Sev_Info = 0"
| "stored_rank Sev_Low = 1"
| "stored_rank Sev_Medium = 2"
| "stored_rank Sev_High = 3"
| "stored_rank Sev_Critical = 4"

fun stored_severity :: "severity \<Rightarrow> string" where
  "stored_severity Sev_Info = ''info''"
| "stored_severity Sev_Low = ''low''"
| "stored_severity Sev_Medium = ''medium''"
| "stored_severity Sev_High = ''high''"
| "stored_severity Sev_Critical = ''critical''"

fun stored_status :: "scan_status \<Rightarrow> string" where
  "stored_status NotStarted = ''not_started''"
| "stored_status Completed = ''completed''"
| "stored_status Partial = ''partial''"
| "stored_status Interrupted = ''interrupted''"
| "stored_status Failed = ''failed''"

section \<open>Storing and loading reports\<close>

definition count_severity :: "severity \<Rightarrow> finding list \<Rightarrow> nat" where
  "count_severity s fs = length (filter (\<lambda>f. fnd_severity f = s) fs)"

definition finding_counts :: "scan_report \<Rightarrow> nat \<times> nat \<times> nat \<times> nat \<times> nat" where
  "finding_counts report =
     foldl (\<lambda>(i, l, m, h, c) f. case fnd_severity f of
         Sev_Info \<Rightarrow> (i + 1, l, m, h, c) | Sev_Low \<Rightarrow> (i, l + 1, m, h, c) | Sev_Medium \<Rightarrow> (i, l, m + 1, h, c)
       | Sev_High \<Rightarrow> (i, l, m, h + 1, c) | Sev_Critical \<Rightarrow> (i, l, m, h, c + 1))
       (0, 0, 0, 0, 0) (rep_findings report)"

definition scan_row_of :: "storage_env \<Rightarrow> string \<Rightarrow> scan_report \<Rightarrow> string \<Rightarrow> string \<Rightarrow> scan_row" where
  \<comment> \<open>the parameters of the insertion; a time is its Unix timestamp\<close>
  "scan_row_of E tenant report report_json origin =
     (case finding_counts report of (info, low, medium, high, critical) \<Rightarrow>
       \<lparr>row_scan_id = rep_scan_id report, row_original_target = tgt_original (rep_target report),
        row_normalized_target = identity (rep_target report), row_scanner_version = rep_scanner_version report,
        row_schema_version = rep_schema_version report, row_started_at = rep_started_at report,
        row_completed_at = rep_completed_at report, row_status = stored_status (rep_status report),
        row_interrupted = (if rep_status report = Interrupted then 1 else 0),
        row_info_count = info, row_low_count = low, row_medium_count = medium, row_high_count = high,
        row_critical_count = critical, row_report_json = report_json, row_origin = origin, row_created_at = st_now E,
        row_tenant_id = tenant\<rparr>)"

definition insert_scan :: "storage_env \<Rightarrow> scan_row \<Rightarrow> database \<Rightarrow> database stored" where
  "insert_scan E row db = execute E St_Insert_Scan ''could not persist scan report''
     (if row_scan_id row \<in> row_scan_id ` set (db_scans db) \<or> row_tenant_id row \<notin> set (db_tenants db) then None
      else Some (db\<lparr>db_scans := push (db_scans db) row\<rparr>))"

definition finding_row_of :: "string \<Rightarrow> nat \<Rightarrow> finding \<Rightarrow> finding_row" where
  "finding_row_of scan_id index f =
     \<lparr>fr_scan_id = scan_id, fr_index = index, fr_rule_id = fnd_id f, fr_severity = stored_severity (fnd_severity f),
      fr_target = fnd_target f, fr_title = fnd_title f\<rparr>"

definition insert_finding :: "storage_env \<Rightarrow> finding_row \<Rightarrow> database \<Rightarrow> database stored" where
  "insert_finding E row db = execute E (St_Insert_Finding (fr_index row)) ''could not persist scan findings''
     (if (fr_scan_id row, fr_index row) \<in> (\<lambda>r. (fr_scan_id r, fr_index r)) ` set (db_findings db) \<or>
         fr_scan_id row \<notin> row_scan_id ` set (db_scans db) then None
      else Some (db\<lparr>db_findings := push (db_findings db) row\<rparr>))"

fun insert_findings :: "storage_env \<Rightarrow> string \<Rightarrow> nat \<Rightarrow> finding list \<Rightarrow> database \<Rightarrow> database stored" where
  \<comment> \<open>the loop over \<open>enumerate()\<close>\<close>
  "insert_findings E scan_id index [] db = Inr db"
| "insert_findings E scan_id index (f # fs) db =
     and_then_ok (insert_finding E (finding_row_of scan_id index f) db) (insert_findings E scan_id (index + 1) fs)"

definition persist_report_for_tenant ::
    "storage_env \<Rightarrow> string \<Rightarrow> scan_report \<Rightarrow> string \<Rightarrow> database \<Rightarrow> database stored" where
  "persist_report_for_tenant E tenant report origin db =
     (case st_to_string E report of
        None \<Rightarrow> Inl ''could not serialize scan report''
      | Some report_json \<Rightarrow>
          and_then_ok (execute E St_Begin ''could not start report persistence transaction'' (Some db)) (\<lambda>tx.
          and_then_ok (insert_scan E (scan_row_of E tenant report report_json origin) tx) (\<lambda>tx.
          and_then_ok (insert_findings E (rep_scan_id report) 0 (rep_findings report) tx) (\<lambda>tx.
          execute E St_Commit ''could not commit scan report'' (Some tx)))))"

definition persist_report :: "storage_env \<Rightarrow> scan_report \<Rightarrow> string \<Rightarrow> database \<Rightarrow> database stored" where
  "persist_report E report origin db = persist_report_for_tenant E ''local'' report origin db"

definition load_report :: "storage_env \<Rightarrow> string \<Rightarrow> database \<Rightarrow> scan_report option stored" where
  \<comment> \<open>\<open>Storage::report\<close>\<close>
  "load_report E scan_id db =
     and_then_ok (execute E St_Select ''could not retrieve scan report''
         (Some (map_option row_report_json (find (\<lambda>r. row_scan_id r = scan_id) (db_scans db))))) (\<lambda>json.
       case json of
         None \<Rightarrow> Inr None
       | Some text \<Rightarrow> (case st_from_str E text of Some report \<Rightarrow> Inr (Some report) | None \<Rightarrow> Inl ''stored scan report is invalid''))"

section \<open>History\<close>

record scan_summary =
  sum_scan_id :: string
  sum_original_target :: string
  sum_normalized_target :: string
  sum_status :: string
  sum_started_at :: int
  sum_completed_at :: "int option"
  sum_high_findings :: nat
  sum_critical_findings :: nat
  sum_origin :: string

record history_filter =
  hf_target :: "string option"
  hf_status :: "string option"
  hf_minimum_severity :: "severity option"
  hf_started_after :: "int option"
  hf_started_before :: "int option"
  hf_offset :: nat
  hf_limit :: nat

definition DEFAULT_PAGE_SIZE :: nat where "DEFAULT_PAGE_SIZE = 50"
definition MAX_PAGE_SIZE :: nat where "MAX_PAGE_SIZE = 500"

definition null_or :: "'a option \<Rightarrow> ('a \<Rightarrow> bool) \<Rightarrow> bool" where
  \<comment> \<open>the SQL idiom \<open>?n IS NULL OR ..\<close>\<close>
  "null_or v p = (case v of None \<Rightarrow> True | Some x \<Rightarrow> p x)"

definition history_where :: "history_filter \<Rightarrow> scan_row \<Rightarrow> bool" where
  "history_where f r \<longleftrightarrow>
     null_or (hf_target f) (\<lambda>t. row_normalized_target r = t) \<and>
     null_or (hf_status f) (\<lambda>s. row_status r = s) \<and>
     null_or (hf_started_after f) (\<lambda>t. t \<le> row_started_at r) \<and>
     null_or (hf_started_before f) (\<lambda>t. row_started_at r \<le> t) \<and>
     null_or (map_option stored_rank (hf_minimum_severity f)) (\<lambda>rank.
       (rank \<le> 0 \<and> 0 < row_info_count r) \<or> (rank \<le> 1 \<and> 0 < row_low_count r) \<or> (rank \<le> 2 \<and> 0 < row_medium_count r) \<or>
       (rank \<le> 3 \<and> 0 < row_high_count r) \<or> (rank \<le> 4 \<and> 0 < row_critical_count r))"

definition oldest_first :: "scan_row list \<Rightarrow> scan_row list" where
  \<comment> \<open>\<open>ORDER BY started_at, scan_id\<close>; text is compared by its bytes\<close>
  "oldest_first rows = sort_key (\<lambda>r. (row_started_at r, row_scan_id r)) rows"

definition decode_u32 :: "nat \<Rightarrow> nat option" where
  "decode_u32 n = (if n < 2 ^ 32 then Some n else None)"

definition scan_summary_of :: "storage_env \<Rightarrow> scan_row \<Rightarrow> scan_summary option" where
  "scan_summary_of E r =
     (case (st_parse_uuid E (row_scan_id r), decode_u32 (row_high_count r), decode_u32 (row_critical_count r)) of
        (Some scan_id, Some high, Some critical) \<Rightarrow>
          Some \<lparr>sum_scan_id = scan_id, sum_original_target = row_original_target r,
            sum_normalized_target = row_normalized_target r, sum_status = row_status r, sum_started_at = row_started_at r,
            sum_completed_at = row_completed_at r, sum_high_findings = high, sum_critical_findings = critical,
            sum_origin = row_origin r\<rparr>
      | _ \<Rightarrow> None)"

fun collect_all :: "'a option list \<Rightarrow> 'a list option" where
  \<comment> \<open>\<open>collect::<Result<Vec<_>>>\<close>\<close>
  "collect_all [] = Some []"
| "collect_all (v # vs) = (case v of None \<Rightarrow> None | Some x \<Rightarrow> map_option ((#) x) (collect_all vs))"

definition history :: "storage_env \<Rightarrow> history_filter \<Rightarrow> database \<Rightarrow> scan_summary list stored" where
  "history E f db =
     (let limit = (if hf_limit f = 0 then DEFAULT_PAGE_SIZE else min (hf_limit f) MAX_PAGE_SIZE);
          rows = take limit (drop (hf_offset f) (rev (oldest_first (filter (history_where f) (db_scans db)))))
      in and_then_ok (execute E St_Select ''could not query scan history'' (Some rows)) (\<lambda>rows.
           case collect_all (map (scan_summary_of E) rows) of
             Some summaries \<Rightarrow> Inr summaries
           | None \<Rightarrow> Inl ''could not decode scan history''))"

section \<open>Deletion\<close>

definition delete_rows :: "storage_env \<Rightarrow> string \<Rightarrow> string \<Rightarrow> database \<Rightarrow> (nat \<times> database) stored" where
  \<comment> \<open>\<open>DELETE FROM scans WHERE scan_id = ?1\<close> with the number of rows; findings are deleted with their scan, a scan that a
     job refers to cannot be deleted\<close>
  "delete_rows E message scan_id db = execute E (St_Delete scan_id) message
     (let rows = filter (\<lambda>r. row_scan_id r = scan_id) (db_scans db)
      in if rows \<noteq> [] \<and> scan_id \<in> set (db_job_scans db) then None
         else Some (length rows,
           db\<lparr>db_scans := filter (\<lambda>r. row_scan_id r \<noteq> scan_id) (db_scans db),
              db_findings := (if rows = [] then db_findings db
                else filter (\<lambda>r. fr_scan_id r \<noteq> scan_id) (db_findings db))\<rparr>))"

definition record_audit :: "storage_env \<Rightarrow> nat \<Rightarrow> string \<Rightarrow> string option \<Rightarrow> database \<Rightarrow> database stored" where
  \<comment> \<open>the \<open>n\<close>-th event of an operation; its tenant is the default of the column, which refers to a tenant\<close>
  "record_audit E n action resource_id db = execute E (St_Audit n) ''could not record audit event''
     (if st_event_id E n \<in> au_event_id ` set (db_audit db) \<or> ''local'' \<notin> set (db_tenants db) then None
      else Some (db\<lparr>db_audit := push (db_audit db)
        \<lparr>au_event_id = st_event_id E n, au_occurred_at = st_now E, au_action = action, au_resource_type = ''scan'',
          au_resource_id = resource_id, au_outcome = ''success'', au_tenant_id = ''local''\<rparr>\<rparr>))"

definition delete_scan :: "storage_env \<Rightarrow> string \<Rightarrow> database \<Rightarrow> (bool \<times> database) stored" where
  "delete_scan E scan_id db =
     and_then_ok (execute E St_Begin ''could not start scan deletion transaction'' (Some db)) (\<lambda>tx.
     and_then_ok (delete_rows E ''could not delete scan'' scan_id tx) (\<lambda>(n, tx).
     and_then_ok (if n = 1 then record_audit E 0 ''scan.delete'' (Some scan_id) tx else Inr tx) (\<lambda>tx.
     and_then_ok (execute E St_Commit ''could not commit scan deletion'' (Some tx)) (\<lambda>tx. Inr (n = 1, tx)))))"

section \<open>Retention\<close>

record retention_policy =
  pol_keep_last :: "nat option"
  pol_older_than :: "int option"
  pol_preserve_high :: bool
  pol_dry_run :: bool

record retention_result =
  ret_scan_ids :: "string list"
  ret_deleted :: bool

definition target_rank :: "scan_row list \<Rightarrow> scan_row \<Rightarrow> nat" where
  \<comment> \<open>\<open>ROW_NUMBER() OVER (PARTITION BY normalized_target ORDER BY started_at DESC, scan_id DESC)\<close>\<close>
  "target_rank rows r =
     length (takeWhile (\<lambda>s. row_scan_id s \<noteq> row_scan_id r)
       (rev (oldest_first (filter (\<lambda>s. row_normalized_target s = row_normalized_target r) rows)))) + 1"

definition retention_where :: "scan_row list \<Rightarrow> int option \<Rightarrow> nat option \<Rightarrow> bool \<Rightarrow> scan_row \<Rightarrow> bool" where
  "retention_where rows cutoff keep_last preserve_high r \<longleftrightarrow>
     null_or cutoff (\<lambda>t. row_started_at r < t) \<and>
     null_or keep_last (\<lambda>k. k < target_rank rows r) \<and>
     (\<not> preserve_high \<or> row_high_count r = 0 \<and> row_critical_count r = 0)"

definition retention_rows :: "database \<Rightarrow> int option \<Rightarrow> nat option \<Rightarrow> bool \<Rightarrow> scan_row list" where
  "retention_rows db cutoff keep_last preserve_high =
     oldest_first (filter (retention_where (db_scans db) cutoff keep_last preserve_high) (db_scans db))"

fun prune_ids :: "storage_env \<Rightarrow> nat \<Rightarrow> string list \<Rightarrow> database \<Rightarrow> database stored" where
  "prune_ids E n [] db = Inr db"
| "prune_ids E n (scan_id # ids) db =
     and_then_ok (delete_rows E ''could not prune scan'' scan_id db) (\<lambda>(_, tx).
     and_then_ok (record_audit E n ''retention.delete'' (Some scan_id) tx) (prune_ids E (n + 1) ids))"

definition retention_cutoff :: "storage_env \<Rightarrow> retention_policy \<Rightarrow> int option stored" where
  "retention_cutoff E policy =
     (case pol_older_than policy of
        None \<Rightarrow> Inr None
      | Some duration \<Rightarrow>
          (case st_sub E duration of Some t \<Rightarrow> Inr (Some t) | None \<Rightarrow> Inl ''retention duration is outside the supported range''))"

definition prune :: "storage_env \<Rightarrow> retention_policy \<Rightarrow> database \<Rightarrow> (retention_result \<times> database) stored" where
  "prune E policy db =
     (if pol_keep_last policy = None \<and> pol_older_than policy = None then Inl ''retention requires --keep-last or --older-than''
      else and_then_ok (retention_cutoff E policy) (\<lambda>cutoff.
        and_then_ok (execute E St_Select ''could not select retention candidates''
          (Some (map row_scan_id (retention_rows db cutoff (pol_keep_last policy) (pol_preserve_high policy))))) (\<lambda>found.
        case collect_all (map (st_parse_uuid E) found) of
          None \<Rightarrow> Inl ''could not decode retention candidates''
        | Some ids \<Rightarrow>
            let result = \<lparr>ret_scan_ids = ids, ret_deleted = \<not> pol_dry_run policy\<rparr>
            in if \<not> pol_dry_run policy \<and> ids \<noteq> [] then
                 and_then_ok (execute E St_Begin ''could not start retention transaction'' (Some db)) (\<lambda>tx.
                 and_then_ok (prune_ids E 0 ids tx) (\<lambda>tx.
                 and_then_ok (execute E St_Commit ''could not commit retention'' (Some tx)) (\<lambda>tx. Inr (result, tx))))
               else Inr (result, db))))"

section \<open>Migrations\<close>

definition MIGRATIONS :: "int list" where
  \<comment> \<open>the versions; the scripts are \<open>st_script\<close>\<close>
  "MIGRATIONS = [1, 2, 3]"

definition latest_applied :: "database \<Rightarrow> int" where
  \<comment> \<open>\<open>COALESCE(MAX(version), 0)\<close>\<close>
  "latest_applied db = (if db_versions db = [] then 0 else Max (fst ` set (db_versions db)))"

definition migrate :: "storage_env \<Rightarrow> int \<Rightarrow> database \<Rightarrow> database stored" where
  \<comment> \<open>one migration in its transaction\<close>
  "migrate E version db =
     and_then_ok (execute E St_Begin ''could not start migration'' (Some db)) (\<lambda>tx.
     and_then_ok (execute E (St_Applied version) (''migration '' @ show_int version @ '' failed'') (st_script E version tx)) (\<lambda>tx.
     and_then_ok (execute E (St_Record version) ''could not record migration''
       (if version \<in> fst ` set (db_versions tx) then None
        else Some (tx\<lparr>db_versions := push (db_versions tx) (version, st_now E)\<rparr>))) (\<lambda>tx.
     execute E St_Commit ''could not commit migration'' (Some tx))))"

fun migrate_all :: "storage_env \<Rightarrow> int list \<Rightarrow> database \<Rightarrow> string option \<times> database" where
  \<comment> \<open>with the error, and the database as the committed migrations left it\<close>
  "migrate_all E [] db = (None, db)"
| "migrate_all E (version # versions) db =
     (if st_fails E St_Version then (Some ''could not inspect migration state'', db)
      else if version \<in> fst ` set (db_versions db) then migrate_all E versions db
      else (case migrate E version db of Inl e \<Rightarrow> (Some e, db) | Inr db' \<Rightarrow> migrate_all E versions db'))"

definition apply_migrations :: "storage_env \<Rightarrow> database \<Rightarrow> string option \<times> database" where
  "apply_migrations E db =
     (let latest_supported = (if MIGRATIONS = [] then 0 else last MIGRATIONS); latest = latest_applied db
      in if st_fails E St_Create_Table then (Some ''could not initialize migrations'', db)
         else if st_fails E St_Select then (Some ''could not inspect migration version'', db)
         else if latest_supported < latest then
           (Some (''database schema version '' @ show_int latest @ '' is newer than supported version '' @
             show_int latest_supported), db)
         else migrate_all E MIGRATIONS db)"

definition open_storage :: "storage_env \<Rightarrow> database \<Rightarrow> string option \<times> database" where
  \<comment> \<open>\<open>Storage::open\<close>\<close>
  "open_storage E db =
     (if st_fails E St_Open then (Some ''could not open Surface database'', db)
      else if st_fails E St_Permissions then (Some ''could not restrict Surface database permissions'', db)
      else if st_fails E St_Foreign_Keys then (Some ''could not enable SQLite foreign keys'', db)
      else apply_migrations E db)"

end
