(* ===== verification/Storage_Props.thy ===== *)
theory Storage_Props
  imports Storage
begin

text \<open>
  What the store guarantees: its tables stay consistent, a stored report stays as it was for as long as it is stored, the
  history query and the retention query mean what their options say, and migrations run once.
\<close>

section \<open>Statements\<close>

lemma and_then_ok_Inr [simp]: "and_then_ok v f = Inr y \<longleftrightarrow> (\<exists>x. v = Inr x \<and> f x = Inr y)"
  by (cases v) auto

lemma execute_Inr [simp]: "execute E st message v = Inr x \<longleftrightarrow> \<not> st_fails E st \<and> v = Some x"
  by (cases v) (auto simp: execute_def)

lemma null_or_simps [simp]: "null_or None p" "null_or (Some x) p = p x"
  by (simp_all add: null_or_def)

lemma stored_severity_inject [simp]: "stored_severity a = stored_severity b \<longleftrightarrow> a = b"
  by (cases a; cases b) simp_all

section \<open>Consistency of the tables\<close>

abbreviation scan_ids :: "database \<Rightarrow> string set" where
  "scan_ids db \<equiv> row_scan_id ` set (db_scans db)"

definition findings_of :: "string \<Rightarrow> severity \<Rightarrow> finding_row list \<Rightarrow> nat" where
  "findings_of scan_id s rows = length (filter (\<lambda>f. fr_scan_id f = scan_id \<and> fr_severity f = stored_severity s) rows)"

definition row_counts_ok :: "finding_row list \<Rightarrow> scan_row \<Rightarrow> bool" where
  "row_counts_ok rows r \<longleftrightarrow>
     row_info_count r = findings_of (row_scan_id r) Sev_Info rows \<and>
     row_low_count r = findings_of (row_scan_id r) Sev_Low rows \<and>
     row_medium_count r = findings_of (row_scan_id r) Sev_Medium rows \<and>
     row_high_count r = findings_of (row_scan_id r) Sev_High rows \<and>
     row_critical_count r = findings_of (row_scan_id r) Sev_Critical rows"

definition store_wf :: "database \<Rightarrow> bool" where
  "store_wf db \<longleftrightarrow>
     distinct (map row_scan_id (db_scans db)) \<and>
     distinct (map (\<lambda>f. (fr_scan_id f, fr_index f)) (db_findings db)) \<and>
     fr_scan_id ` set (db_findings db) \<subseteq> scan_ids db \<and>
     (\<forall>r \<in> set (db_scans db). row_counts_ok (db_findings db) r)"

definition after_step :: "'a stored \<Rightarrow> ('a \<Rightarrow> database) \<Rightarrow> database \<Rightarrow> database" where
  \<comment> \<open>the database after an operation: an error leaves it as it was\<close>
  "after_step result state db = (case result of Inl _ \<Rightarrow> db | Inr x \<Rightarrow> state x)"

locale store_step =
  fixes step :: "database \<Rightarrow> 'a stored" and state :: "'a \<Rightarrow> database"
  assumes keeps_wf: "store_wf db \<Longrightarrow> step db = Inr x \<Longrightarrow> store_wf (state x)"
    and keeps_row: "step db = Inr x \<Longrightarrow> r \<in> set (db_scans db) \<Longrightarrow> row_scan_id r \<in> scan_ids (state x) \<Longrightarrow>
      r \<in> set (db_scans (state x))"
begin

lemma after_wf: "store_wf db \<Longrightarrow> store_wf (after_step (step db) state db)"
  by (auto simp: after_step_def keeps_wf split: sum.split)

lemma after_row:
  "r \<in> set (db_scans db) \<Longrightarrow> row_scan_id r \<in> scan_ids (after_step (step db) state db) \<Longrightarrow>
     r \<in> set (db_scans (after_step (step db) state db))"
  using keeps_row [of db _ r] by (cases "step db") (auto simp: after_step_def)

end

section \<open>Storing\<close>

fun finding_rows :: "string \<Rightarrow> nat \<Rightarrow> finding list \<Rightarrow> finding_row list" where
  "finding_rows scan_id n [] = []"
| "finding_rows scan_id n (f # fs) = finding_row_of scan_id n f # finding_rows scan_id (n + 1) fs"

lemma finding_rows_scan: "f \<in> set (finding_rows scan_id n fs) \<Longrightarrow> fr_scan_id f = scan_id"
  by (induction scan_id n fs rule: finding_rows.induct) (auto simp: finding_row_of_def)

lemma findings_of_rows: "findings_of scan_id s (finding_rows scan_id n fs) = count_severity s fs"
  by (induction scan_id n fs rule: finding_rows.induct)
    (auto simp: findings_of_def count_severity_def finding_row_of_def)

lemma findings_of_append: "findings_of i s (a @ b) = findings_of i s a + findings_of i s b"
  by (simp add: findings_of_def)

lemma findings_of_absent: "i \<notin> fr_scan_id ` set rows \<Longrightarrow> findings_of i s rows = 0"
  by (auto simp: findings_of_def filter_empty_conv)

lemma insert_findings_result:
  "insert_findings E scan_id n fs db = Inr db' \<Longrightarrow>
     db' = db\<lparr>db_findings := db_findings db @ finding_rows scan_id n fs\<rparr> \<and>
     (distinct (map (\<lambda>f. (fr_scan_id f, fr_index f)) (db_findings db)) \<longrightarrow>
      distinct (map (\<lambda>f. (fr_scan_id f, fr_index f)) (db_findings db')))"
proof (induction fs arbitrary: n db)
  case (Cons f fs)
  then obtain tx where tx: "insert_finding E (finding_row_of scan_id n f) db = Inr tx"
    and rest: "insert_findings E scan_id (n + 1) fs tx = Inr db'" by auto
  have key: "(fr_scan_id (finding_row_of scan_id n f), fr_index (finding_row_of scan_id n f)) = (scan_id, n)"
    by (simp add: finding_row_of_def)
  from tx have row: "tx = db\<lparr>db_findings := db_findings db @ [finding_row_of scan_id n f]\<rparr>"
    and new: "(scan_id, n) \<notin> (\<lambda>r. (fr_scan_id r, fr_index r)) ` set (db_findings db)"
    unfolding insert_finding_def key execute_Inr push_def by (auto split: if_splits)
  from Cons.IH [OF rest] have "db' = db\<lparr>db_findings := db_findings db @ finding_rows scan_id n (f # fs)\<rparr>"
    by (simp add: row)
  moreover from row new key have "distinct (map (\<lambda>f. (fr_scan_id f, fr_index f)) (db_findings db)) \<longrightarrow>
      distinct (map (\<lambda>f. (fr_scan_id f, fr_index f)) (db_findings tx))" by simp
  ultimately show ?case using Cons.IH [OF rest] by blast
qed simp

lemma finding_counts_exact:
  "finding_counts r = (count_severity Sev_Info (rep_findings r), count_severity Sev_Low (rep_findings r),
     count_severity Sev_Medium (rep_findings r), count_severity Sev_High (rep_findings r),
     count_severity Sev_Critical (rep_findings r))"
proof -
  have "finding_counts (r\<lparr>rep_findings := fs\<rparr>) = (count_severity Sev_Info fs, count_severity Sev_Low fs,
      count_severity Sev_Medium fs, count_severity Sev_High fs, count_severity Sev_Critical fs)" for fs
  proof (induction fs rule: rev_induct)
    case (snoc f fs)
    then show ?case by (cases "fnd_severity f") (simp_all add: finding_counts_def count_severity_def)
  qed (simp add: finding_counts_def count_severity_def)
  from this [of "rep_findings r"] show ?thesis by simp
qed

lemma persist_result:
  assumes "persist_report_for_tenant E tenant r origin db = Inr db'"
  obtains json where "st_to_string E r = Some json" "rep_scan_id r \<notin> scan_ids db"
    "db' = db\<lparr>db_scans := db_scans db @ [scan_row_of E tenant r json origin],
       db_findings := db_findings db @ finding_rows (rep_scan_id r) 0 (rep_findings r)\<rparr>"
    "distinct (map (\<lambda>f. (fr_scan_id f, fr_index f)) (db_findings db)) \<longrightarrow>
       distinct (map (\<lambda>f. (fr_scan_id f, fr_index f)) (db_findings db'))"
proof -
  from assms obtain json tx where json: "st_to_string E r = Some json"
    and tx: "insert_scan E (scan_row_of E tenant r json origin) db = Inr tx"
    and fs: "insert_findings E (rep_scan_id r) 0 (rep_findings r) tx = Inr db'"
    by (auto simp: persist_report_for_tenant_def split: option.splits)
  have id: "row_scan_id (scan_row_of E tenant r json origin) = rep_scan_id r"
    by (simp add: scan_row_of_def split: prod.split)
  from tx id have new: "rep_scan_id r \<notin> scan_ids db"
    and tx: "tx = db\<lparr>db_scans := db_scans db @ [scan_row_of E tenant r json origin]\<rparr>"
    by (auto simp: insert_scan_def push_def split: if_splits)
  show thesis
  proof (rule that [OF json new])
    show "db' = db\<lparr>db_scans := db_scans db @ [scan_row_of E tenant r json origin],
        db_findings := db_findings db @ finding_rows (rep_scan_id r) 0 (rep_findings r)\<rparr>"
      using conjunct1 [OF insert_findings_result [OF fs]] by (simp add: tx)
    show "distinct (map (\<lambda>f. (fr_scan_id f, fr_index f)) (db_findings db)) \<longrightarrow>
        distinct (map (\<lambda>f. (fr_scan_id f, fr_index f)) (db_findings db'))"
      using conjunct2 [OF insert_findings_result [OF fs]] by (simp add: tx)
  qed
qed

lemma scan_row_counts:
  assumes "fr_scan_id ` set rows \<subseteq> ids" "rep_scan_id r \<notin> ids"
  shows "row_counts_ok (rows @ finding_rows (rep_scan_id r) n (rep_findings r)) (scan_row_of E tenant r json origin)"
proof -
  from assms have "findings_of (rep_scan_id r) s rows = 0" for s by (intro findings_of_absent) blast
  then show ?thesis
    by (simp add: row_counts_ok_def scan_row_of_def finding_counts_exact findings_of_append findings_of_rows)
qed

lemma row_counts_other:
  "row_scan_id r \<noteq> scan_id \<Longrightarrow> row_counts_ok rows r \<Longrightarrow> row_counts_ok (rows @ finding_rows scan_id n fs) r"
proof -
  assume *: "row_scan_id r \<noteq> scan_id" "row_counts_ok rows r"
  have "findings_of (row_scan_id r) s (finding_rows scan_id n fs) = 0" for s
    by (rule findings_of_absent) (use * in \<open>auto dest: finding_rows_scan\<close>)
  with * show ?thesis by (simp add: row_counts_ok_def findings_of_append)
qed

lemma persist_wf:
  assumes wf: "store_wf db" and ok: "persist_report_for_tenant E tenant r origin db = Inr db'"
  shows "store_wf db'"
proof -
  from ok obtain json where j: "rep_scan_id r \<notin> scan_ids db"
    "db' = db\<lparr>db_scans := db_scans db @ [scan_row_of E tenant r json origin],
       db_findings := db_findings db @ finding_rows (rep_scan_id r) 0 (rep_findings r)\<rparr>"
    and keys: "distinct (map (\<lambda>f. (fr_scan_id f, fr_index f)) (db_findings db)) \<longrightarrow>
       distinct (map (\<lambda>f. (fr_scan_id f, fr_index f)) (db_findings db'))"
    by (rule persist_result)
  have id: "row_scan_id (scan_row_of E tenant r json origin) = rep_scan_id r"
    by (simp add: scan_row_of_def split: prod.split)
  have old: "row_counts_ok (db_findings db @ finding_rows (rep_scan_id r) 0 (rep_findings r)) x" if "x \<in> set (db_scans db)" for x
    using that wf j(1) by (intro row_counts_other) (auto simp: store_wf_def image_iff)
  have new: "row_counts_ok (db_findings db @ finding_rows (rep_scan_id r) 0 (rep_findings r)) (scan_row_of E tenant r json origin)"
    using wf j(1) by (intro scan_row_counts [of _ "scan_ids db"]) (auto simp: store_wf_def)
  show ?thesis
    using wf keys old new id j unfolding store_wf_def by (auto dest: finding_rows_scan)
qed

interpretation persisting: store_step "persist_report E r origin" "\<lambda>db. db" for E r origin
proof
  fix db db' row
  assume ok: "persist_report E r origin db = Inr db'"
  then show "store_wf db'" if "store_wf db" using that by (auto simp: persist_report_def intro: persist_wf)
  show "row \<in> set (db_scans db')" if "row \<in> set (db_scans db)"
    using ok that unfolding persist_report_def by (elim persist_result) simp
qed

section \<open>Deleting\<close>

definition without :: "string set \<Rightarrow> database \<Rightarrow> database \<Rightarrow> bool" where
  \<comment> \<open>the second database is the first less some scans with their findings\<close>
  "without ids db db' \<longleftrightarrow>
     db_scans db' = filter (\<lambda>r. row_scan_id r \<notin> ids) (db_scans db) \<and>
     (store_wf db \<longrightarrow> db_findings db' = filter (\<lambda>f. fr_scan_id f \<notin> ids) (db_findings db))"

lemma findings_of_filter:
  "i \<notin> ids \<Longrightarrow> findings_of i s (filter (\<lambda>f. fr_scan_id f \<notin> ids) rows) = findings_of i s rows"
  unfolding findings_of_def filter_filter by (rule arg_cong [where f = length]) (rule filter_cong; auto)

lemma without_wf: "without ids db db' \<Longrightarrow> store_wf db \<Longrightarrow> store_wf db'"
  by (auto simp: without_def store_wf_def row_counts_ok_def findings_of_filter distinct_map_filter)

lemma without_row:
  "without ids db db' \<Longrightarrow> r \<in> set (db_scans db) \<Longrightarrow> row_scan_id r \<in> scan_ids db' \<Longrightarrow> r \<in> set (db_scans db')"
  by (auto simp: without_def)

lemma without_trans: "without a db db' \<Longrightarrow> without b db' db'' \<Longrightarrow> without (a \<union> b) db db''"
  using without_wf [of a db db'] by (auto simp: without_def conj_commute intro!: filter_cong)

lemma delete_rows_result:
  assumes "delete_rows E message scan_id db = Inr (n, db')"
  shows "without {scan_id} db db'" and "n = length (filter (\<lambda>r. row_scan_id r = scan_id) (db_scans db))"
proof -
  from assms have n: "n = length (filter (\<lambda>r. row_scan_id r = scan_id) (db_scans db))"
    and db': "db' = db\<lparr>db_scans := filter (\<lambda>r. row_scan_id r \<noteq> scan_id) (db_scans db),
      db_findings := (if filter (\<lambda>r. row_scan_id r = scan_id) (db_scans db) = [] then db_findings db
        else filter (\<lambda>r. fr_scan_id r \<noteq> scan_id) (db_findings db))\<rparr>"
    by (auto simp: delete_rows_def Let_def split: if_splits)
  then show "n = length (filter (\<lambda>r. row_scan_id r = scan_id) (db_scans db))" by simp
  have "filter (\<lambda>f. fr_scan_id f \<noteq> scan_id) (db_findings db) = db_findings db"
    if "store_wf db" "filter (\<lambda>r. row_scan_id r = scan_id) (db_scans db) = []"
    using that by (intro filter_True) (fastforce simp: store_wf_def filter_empty_conv)
  with db' show "without {scan_id} db db'" by (auto simp: without_def)
qed

lemma record_audit_result:
  "record_audit E n action resource db = Inr db' \<Longrightarrow> db_scans db' = db_scans db \<and> db_findings db' = db_findings db"
  by (auto simp: record_audit_def split: if_splits)

lemma without_audit:
  "without ids db tx \<Longrightarrow> db_scans db' = db_scans tx \<Longrightarrow> db_findings db' = db_findings tx \<Longrightarrow> without ids db db'"
  by (simp add: without_def)

lemma delete_scan_result: "delete_scan E scan_id db = Inr (deleted, db') \<Longrightarrow> without {scan_id} db db'"
  by (auto simp: delete_scan_def dest!: delete_rows_result(1) record_audit_result intro: without_audit split: if_splits)

lemma prune_ids_result: "prune_ids E n ids db = Inr db' \<Longrightarrow> without (set ids) db db'"
proof (induction ids arbitrary: n db)
  case Nil
  then show ?case by (simp add: without_def)
next
  case (Cons scan_id ids)
  then obtain k tx tx' where "delete_rows E ''could not prune scan'' scan_id db = Inr (k, tx)"
    and audit: "record_audit E n ''retention.delete'' (Some scan_id) tx = Inr tx'"
    and rest: "prune_ids E (n + 1) ids tx' = Inr db'" by auto
  then have "without {scan_id} db tx'"
    using record_audit_result [OF audit] by (auto dest!: delete_rows_result(1) intro: without_audit)
  from without_trans [OF this Cons.IH [OF rest]] show ?case by simp
qed

lemma without_none: "without {} db db"
  by (simp add: without_def)

lemma prune_result:
  assumes "prune E policy db = Inr (result, db')"
  shows "without (if pol_dry_run policy then {} else set (ret_scan_ids result)) db db'"
  using assms without_none
  by (auto simp: prune_def Let_def dest!: prune_ids_result split: if_splits option.splits)

interpretation deleting: store_step "delete_scan E scan_id" snd for E scan_id
  by unfold_locales (auto dest!: delete_scan_result intro: without_wf without_row)

interpretation pruning: store_step "prune E policy" snd for E policy
  by unfold_locales (auto dest!: prune_result intro: without_wf without_row split: if_splits)

section \<open>Histories of operations\<close>

datatype store_command = Do_Persist scan_report string | Do_Delete string | Do_Prune retention_policy

fun perform :: "storage_env \<times> store_command \<Rightarrow> database \<Rightarrow> database" where
  "perform (E, Do_Persist r origin) db = after_step (persist_report E r origin db) (\<lambda>db. db) db"
| "perform (E, Do_Delete scan_id) db = after_step (delete_scan E scan_id db) snd db"
| "perform (E, Do_Prune policy) db = after_step (prune E policy db) snd db"

definition perform_all :: "(storage_env \<times> store_command) list \<Rightarrow> database \<Rightarrow> database" where
  "perform_all commands db = foldl (\<lambda>db c. perform c db) db commands"

lemma perform_wf: "store_wf db \<Longrightarrow> store_wf (perform c db)"
proof (cases c)
  case (Pair E k)
  then show "store_wf db \<Longrightarrow> ?thesis"
    by (cases k) (simp_all add: persisting.after_wf deleting.after_wf pruning.after_wf)
qed

lemma perform_row:
  "r \<in> set (db_scans db) \<Longrightarrow> row_scan_id r \<in> scan_ids (perform c db) \<Longrightarrow> r \<in> set (db_scans (perform c db))"
proof (cases c)
  case (Pair E k)
  then show "r \<in> set (db_scans db) \<Longrightarrow> row_scan_id r \<in> scan_ids (perform c db) \<Longrightarrow> ?thesis"
    by (cases k) (simp_all add: persisting.after_row deleting.after_row pruning.after_row)
qed

lemma perform_all_snoc: "perform_all (cs @ [c]) db = perform c (perform_all cs db)"
  by (simp add: perform_all_def)

lemma perform_all_wf: "store_wf db \<Longrightarrow> store_wf (perform_all cs db)"
  by (induction cs rule: rev_induct) (simp_all add: perform_all_snoc perform_wf, simp add: perform_all_def)

lemma perform_all_row:
  assumes "r \<in> set (db_scans db)" "\<And>n. n \<le> length cs \<Longrightarrow> row_scan_id r \<in> scan_ids (perform_all (take n cs) db)"
  shows "r \<in> set (db_scans (perform_all cs db))"
  using assms(2)
proof (induction cs rule: rev_induct)
  case Nil
  then show ?case using assms(1) by (simp add: perform_all_def)
next
  case (snoc c cs)
  have "row_scan_id r \<in> scan_ids (perform_all (take n cs) db)" if "n \<le> length cs" for n
    using snoc.prems [of n] that by simp
  from perform_row [OF snoc.IH [OF this]] snoc.prems [of "length (cs @ [c])"]
  show ?case by (simp add: perform_all_snoc)
qed

lemma load_stored:
  assumes "store_wf db" "r \<in> set (db_scans db)" "\<not> st_fails E St_Select"
    "st_from_str E (row_report_json r) = Some report"
  shows "load_report E (row_scan_id r) db = Inr (Some report)"
proof -
  obtain s where s: "find (\<lambda>x. row_scan_id x = row_scan_id r) (db_scans db) = Some s"
    using assms(2) by (metis (mono_tags, lifting) find_None_iff not_Some_eq)
  then have "s \<in> set (db_scans db)" "row_scan_id s = row_scan_id r" by (auto simp: find_Some_iff)
  with assms(1,2) have "s = r" by (auto simp: store_wf_def dest: inj_onD [OF distinct_map [THEN iffD1, THEN conjunct2]])
  with s assms(3,4) show ?thesis by (simp add: load_report_def)
qed

definition store_serde :: "storage_env \<Rightarrow> storage_env \<Rightarrow> scan_report \<Rightarrow> bool" where
  \<comment> \<open>the text written of a report is read back as that report\<close>
  "store_serde E E' r \<longleftrightarrow> (\<forall>text. st_to_string E r = Some text \<longrightarrow> st_from_str E' text = Some r)"

section \<open>Properties of histories\<close>

text \<open>
  C9: The tables stay consistent in every history of operations, whatever statements fail: scan identifiers are unique,
  every finding row belongs to a stored scan, and the counts of a scan are the numbers of its finding rows of each severity.
\<close>

theorem store_stays_consistent:
  assumes "store_wf db"
  shows "store_wf (perform_all commands db)"
  by (rule perform_all_wf [OF assms])

text \<open>
  A stored report is immutable: whatever is stored, deleted or pruned afterwards and whatever fails, as long as its
  scan is in the history, loading it returns the report that was stored.
\<close>

theorem stored_report_immutable:
  assumes "store_wf db" "persist_report E r origin db = Inr db'" "store_serde E E' r" "\<not> st_fails E' St_Select"
    and "\<And>n. n \<le> length commands \<Longrightarrow> rep_scan_id r \<in> scan_ids (perform_all (take n commands) db')"
  shows "load_report E' (rep_scan_id r) (perform_all commands db') = Inr (Some r)"
proof -
  from assms(2) obtain json where j: "st_to_string E r = Some json"
    and db': "db_scans db' = db_scans db @ [scan_row_of E ''local'' r json origin]"
    unfolding persist_report_def by (elim persist_result) simp
  define row where "row = scan_row_of E ''local'' r json origin"
  have row: "row_scan_id row = rep_scan_id r" "row_report_json row = json"
    by (simp_all add: row_def scan_row_of_def split: prod.split)
  have "row \<in> set (db_scans (perform_all commands db'))"
    using assms(5) db' by (intro perform_all_row) (simp_all add: row, simp add: row_def)
  moreover have "store_wf (perform_all commands db')"
    using persisting.keeps_wf [OF assms(1,2)] by (rule perform_all_wf)
  moreover from assms(3) j row have "st_from_str E' (row_report_json row) = Some r" by (simp add: store_serde_def)
  ultimately show ?thesis using load_stored [of _ row E' r] assms(4) row(1) by simp
qed

section \<open>What the history query lists\<close>

abbreviation newest_key :: "scan_row \<Rightarrow> int \<times> string" where
  "newest_key r \<equiv> (row_started_at r, row_scan_id r)"

definition has_finding :: "database \<Rightarrow> scan_row \<Rightarrow> severity \<Rightarrow> bool" where
  "has_finding db r s \<longleftrightarrow> (\<exists>f \<in> set (db_findings db). fr_scan_id f = row_scan_id r \<and> fr_severity f = stored_severity s)"

definition listed :: "history_filter \<Rightarrow> database \<Rightarrow> scan_row \<Rightarrow> bool" where
  \<comment> \<open>what the options of the history command say, over the findings themselves\<close>
  "listed f db r \<longleftrightarrow>
     hf_target f \<in> {None, Some (row_normalized_target r)} \<and> hf_status f \<in> {None, Some (row_status r)} \<and>
     (\<forall>t. hf_started_after f = Some t \<longrightarrow> t \<le> row_started_at r) \<and>
     (\<forall>t. hf_started_before f = Some t \<longrightarrow> row_started_at r \<le> t) \<and>
     (\<forall>s. hf_minimum_severity f = Some s \<longrightarrow> (\<exists>t \<ge> s. has_finding db r t))"

lemma findings_of_positive: "0 < findings_of (row_scan_id r) s (db_findings db) \<longleftrightarrow> has_finding db r s"
  by (auto simp: findings_of_def has_finding_def filter_empty_conv)

lemma at_least:
  "(\<exists>t \<ge> s. P t) \<longleftrightarrow>
     stored_rank s \<le> 0 \<and> P Sev_Info \<or> stored_rank s \<le> 1 \<and> P Sev_Low \<or> stored_rank s \<le> 2 \<and> P Sev_Medium \<or>
     stored_rank s \<le> 3 \<and> P Sev_High \<or> stored_rank s \<le> 4 \<and> P Sev_Critical"
proof -
  have all: "(\<exists>t. Q t) \<longleftrightarrow> Q Sev_Info \<or> Q Sev_Low \<or> Q Sev_Medium \<or> Q Sev_High \<or> Q Sev_Critical" for Q
    by (metis severity.exhaust)
  show ?thesis by (subst all) (cases s; simp add: less_eq_severity_def)
qed

lemma history_where_listed:
  assumes "store_wf db" "r \<in> set (db_scans db)"
  shows "history_where f r \<longleftrightarrow> listed f db r"
proof -
  from assms have counts: "row_counts_ok (db_findings db) r" by (simp add: store_wf_def)
  have "null_or (map_option stored_rank (hf_minimum_severity f)) (\<lambda>rank.
       (rank \<le> 0 \<and> 0 < row_info_count r) \<or> (rank \<le> 1 \<and> 0 < row_low_count r) \<or> (rank \<le> 2 \<and> 0 < row_medium_count r) \<or>
       (rank \<le> 3 \<and> 0 < row_high_count r) \<or> (rank \<le> 4 \<and> 0 < row_critical_count r)) \<longleftrightarrow>
     (\<forall>s. hf_minimum_severity f = Some s \<longrightarrow> (\<exists>t \<ge> s. has_finding db r t))"
    using counts
    by (cases "hf_minimum_severity f") (simp_all add: at_least row_counts_ok_def findings_of_positive)
  moreover have "null_or v (\<lambda>t. x = t) \<longleftrightarrow> v \<in> {None, Some x}" for v and x :: string by (cases v) auto
  moreover have "null_or v p \<longleftrightarrow> (\<forall>t. v = Some t \<longrightarrow> p t)" for v and p :: "int \<Rightarrow> bool" by (cases v) auto
  ultimately show ?thesis unfolding history_where_def listed_def by (simp only:)
qed

lemma collect_all_Some: "collect_all vs = Some xs \<longleftrightarrow> vs = map Some xs"
proof (induction vs arbitrary: xs)
  case (Cons v vs)
  then show ?case by (cases xs) (auto split: option.splits)
qed auto

definition plain_ids :: "storage_env \<Rightarrow> database \<Rightarrow> bool" where
  \<comment> \<open>the stored identifiers are texts of UUIDs\<close>
  "plain_ids E db \<longleftrightarrow> (\<forall>r \<in> set (db_scans db). st_parse_uuid E (row_scan_id r) = Some (row_scan_id r))"

lemma summaries_ids:
  "map (scan_summary_of E) rows = map Some page \<Longrightarrow>
     (\<And>r. r \<in> set rows \<Longrightarrow> st_parse_uuid E (row_scan_id r) = Some (row_scan_id r)) \<Longrightarrow>
     map row_scan_id rows = map sum_scan_id page"
proof (induction rows arbitrary: page)
  case (Cons r rows)
  then show ?case by (cases page) (auto simp: scan_summary_of_def split: option.splits)
qed simp

text \<open>
  C10: The history command lists what its options say: a page is a segment, of at most 500 scans, of all matching scans newest
  first, where a minimum severity selects the scans that have a finding of at least that severity.
\<close>

theorem history_lists_exactly:
  assumes "store_wf db" "plain_ids E db" "history E f db = Inr page"
  shows "map sum_scan_id page =
    take (if hf_limit f = 0 then 50 else min (hf_limit f) 500) (drop (hf_offset f)
      (rev (map row_scan_id (oldest_first (filter (listed f db) (db_scans db))))))"
proof -
  let ?rows = "take (if hf_limit f = 0 then 50 else min (hf_limit f) 500)
    (drop (hf_offset f) (rev (oldest_first (filter (listed f db) (db_scans db)))))"
  have "filter (history_where f) (db_scans db) = filter (listed f db) (db_scans db)"
    by (rule filter_cong) (simp_all add: history_where_listed assms(1))
  with assms(3) have "map (scan_summary_of E) ?rows = map Some page"
    by (auto simp: history_def Let_def DEFAULT_PAGE_SIZE_def MAX_PAGE_SIZE_def collect_all_Some split: option.splits)
  then have "map row_scan_id ?rows = map sum_scan_id page"
  proof (rule summaries_ids)
    fix r assume "r \<in> set ?rows"
    then have "r \<in> set (db_scans db)" by (auto simp: oldest_first_def dest!: in_set_takeD in_set_dropD)
    with assms(2) show "st_parse_uuid E (row_scan_id r) = Some (row_scan_id r)" by (simp add: plain_ids_def)
  qed
  then show ?thesis by (simp add: take_map drop_map rev_map)
qed


section \<open>What retention removes\<close>

lemma rank_newer:
  fixes key :: "'a \<Rightarrow> 'k::linorder"
  assumes x: "x \<in> set xs" and inj: "inj_on key (set xs)" and dist: "distinct xs"
  shows "length (takeWhile (\<lambda>y. y \<noteq> x) (rev (sort_key key xs))) = card {y \<in> set xs. key x < key y}"
proof -
  from x have "x \<in> set (sort_key key xs)" by simp
  then obtain ys zs where split: "sort_key key xs = ys @ x # zs" by (meson split_list)
  from dist have d: "distinct (ys @ x # zs)" by (simp flip: split)
  have s: "sorted (map key (ys @ x # zs))" by (simp flip: split)
  have set: "set xs = set ys \<union> {x} \<union> set zs" using arg_cong [OF split, of set] by auto
  have "key y \<le> key x" if "y \<in> set ys" for y using s that by (auto simp: sorted_append)
  moreover have "key x < key z" if "z \<in> set zs" for z
  proof -
    have "key x \<le> key z" using s that by (auto simp: sorted_append)
    moreover have "x \<noteq> z" using d that by auto
    ultimately show ?thesis using inj set that by (metis inj_onD UnI2 Un_iff insertI1 le_neq_trans)
  qed
  ultimately have "{y \<in> set xs. key x < key y} = set zs" unfolding set by (auto dest: leD)
  moreover have "takeWhile (\<lambda>y. y \<noteq> x) (rev (sort_key key xs)) = rev zs"
  proof -
    have "takeWhile (\<lambda>y. y \<noteq> x) (rev zs @ x # rev ys) = rev zs @ takeWhile (\<lambda>y. y \<noteq> x) (x # rev ys)"
      by (rule takeWhile_append2) (use d in auto)
    then show ?thesis by (simp add: split)
  qed
  ultimately show ?thesis using d by (simp add: distinct_card)
qed

definition newer_same_target :: "database \<Rightarrow> scan_row \<Rightarrow> scan_row set" where
  "newer_same_target db r =
     {s \<in> set (db_scans db). row_normalized_target s = row_normalized_target r \<and> newest_key r < newest_key s}"

lemma target_rank_newer:
  assumes wf: "store_wf db" and r: "r \<in> set (db_scans db)"
  shows "target_rank (db_scans db) r = card (newer_same_target db r) + 1"
proof -
  let ?same = "filter (\<lambda>s. row_normalized_target s = row_normalized_target r) (db_scans db)"
  have ids: "inj_on row_scan_id (set (db_scans db))" "distinct (db_scans db)"
    using wf by (simp_all add: store_wf_def distinct_map)
  have "takeWhile (\<lambda>s. row_scan_id s \<noteq> row_scan_id r) (rev (oldest_first ?same)) =
      takeWhile (\<lambda>s. s \<noteq> r) (rev (oldest_first ?same))"
    by (rule takeWhile_cong) (use ids(1) r in \<open>auto simp: oldest_first_def dest: inj_onD\<close>)
  also have "length \<dots> = card {s \<in> set ?same. newest_key r < newest_key s}"
    unfolding oldest_first_def using ids r
    by (intro rank_newer) (auto intro!: inj_onI dest: inj_onD)
  finally show ?thesis
    by (simp add: target_rank_def newer_same_target_def conj_assoc)
qed

definition removable :: "storage_env \<Rightarrow> retention_policy \<Rightarrow> database \<Rightarrow> scan_row \<Rightarrow> bool" where
  \<comment> \<open>what the options of the prune command say\<close>
  "removable E policy db r \<longleftrightarrow>
     (\<forall>d. pol_older_than policy = Some d \<longrightarrow> (\<exists>t. st_sub E d = Some t \<and> row_started_at r < t)) \<and>
     (\<forall>k. pol_keep_last policy = Some k \<longrightarrow> k \<le> card (newer_same_target db r)) \<and>
     (pol_preserve_high policy \<longrightarrow> \<not> has_finding db r Sev_High \<and> \<not> has_finding db r Sev_Critical)"

lemma retention_where_removable:
  assumes wf: "store_wf db" and r: "r \<in> set (db_scans db)" and cutoff: "retention_cutoff E policy = Inr cutoff"
  shows "retention_where (db_scans db) cutoff (pol_keep_last policy) (pol_preserve_high policy) r \<longleftrightarrow> removable E policy db r"
proof -
  have counts: "row_counts_ok (db_findings db) r" using wf r by (simp add: store_wf_def)
  have "row_high_count r = 0 \<longleftrightarrow> \<not> has_finding db r Sev_High" "row_critical_count r = 0 \<longleftrightarrow> \<not> has_finding db r Sev_Critical"
    using counts findings_of_positive [of r _ db] by (metis row_counts_ok_def neq0_conv)+
  moreover have "null_or (pol_keep_last policy) (\<lambda>k. k < target_rank (db_scans db) r) \<longleftrightarrow>
      (\<forall>k. pol_keep_last policy = Some k \<longrightarrow> k \<le> card (newer_same_target db r))"
    by (cases "pol_keep_last policy") (auto simp: target_rank_newer [OF wf r])
  moreover have "null_or cutoff (\<lambda>t. row_started_at r < t) \<longleftrightarrow>
      (\<forall>d. pol_older_than policy = Some d \<longrightarrow> (\<exists>t. st_sub E d = Some t \<and> row_started_at r < t))"
    using cutoff
    by (cases "pol_older_than policy"; cases "st_sub E (the (pol_older_than policy))") (auto simp: retention_cutoff_def)
  ultimately show ?thesis unfolding retention_where_def removable_def by blast
qed

lemma prune_removes:
  assumes wf: "store_wf db" and ids: "plain_ids E db" and ok: "prune E policy db = Inr (result, db')"
  shows "set (ret_scan_ids result) = row_scan_id ` {r \<in> set (db_scans db). removable E policy db r}"
proof -
  from ok obtain cutoff where cutoff: "retention_cutoff E policy = Inr cutoff"
    and found: "map (st_parse_uuid E) (map row_scan_id (retention_rows db cutoff (pol_keep_last policy) (pol_preserve_high policy)))
      = map Some (ret_scan_ids result)"
    by (auto simp: prune_def Let_def collect_all_Some split: if_splits option.splits)
  let ?rows = "retention_rows db cutoff (pol_keep_last policy) (pol_preserve_high policy)"
  have rows: "set ?rows = {r \<in> set (db_scans db). removable E policy db r}"
    using retention_where_removable [OF wf _ cutoff] by (auto simp: retention_rows_def oldest_first_def)
  with ids have "map (st_parse_uuid E) (map row_scan_id ?rows) = map Some (map row_scan_id ?rows)"
    by (auto simp: plain_ids_def)
  with found have "map row_scan_id ?rows = ret_scan_ids result" by (metis inj_Some map_injective)
  with rows show ?thesis by (metis set_map)
qed

text \<open>
  C8: Retention removes exactly what its policy names: of the stored scans the ones that are older than the given age, have at
  least the given number of newer scans of the same target, and, when severe findings are preserved, have no high or critical
  finding; every other scan is kept.
\<close>

theorem prune_removes_exactly:
  assumes "store_wf db" "plain_ids E db" "prune E policy db = Inr (result, db')" "\<not> pol_dry_run policy"
  shows "db_scans db' = filter (\<lambda>r. \<not> removable E policy db r) (db_scans db)"
proof -
  have "db_scans db' = filter (\<lambda>r. row_scan_id r \<notin> set (ret_scan_ids result)) (db_scans db)"
    using prune_result [OF assms(3)] assms(4) by (simp add: without_def)
  also have "\<dots> = filter (\<lambda>r. \<not> removable E policy db r) (db_scans db)"
    using assms(1) unfolding prune_removes [OF assms(1-3)]
    by (intro filter_cong) (auto simp: store_wf_def distinct_map dest: inj_onD)
  finally show ?thesis .
qed

section \<open>Migrations\<close>

definition script_keeps_versions :: "storage_env \<Rightarrow> bool" where
  \<comment> \<open>no script of a migration touches the table of migrations\<close>
  "script_keeps_versions E \<longleftrightarrow> (\<forall>v db db'. st_script E v db = Some db' \<longrightarrow> db_versions db' = db_versions db)"

definition applied :: "database \<Rightarrow> int set" where
  "applied db = fst ` set (db_versions db)"

lemma migrate_versions:
  "script_keeps_versions E \<Longrightarrow> migrate E v db = Inr db' \<Longrightarrow> applied db' = insert v (applied db)"
  by (auto simp: migrate_def applied_def push_def script_keeps_versions_def split: if_splits)

lemma migrate_all_versions:
  "script_keeps_versions E \<Longrightarrow> migrate_all E versions db = (None, db') \<Longrightarrow> applied db' = applied db \<union> set versions"
proof (induction versions arbitrary: db)
  case (Cons v versions)
  then show ?case
    by (auto simp: applied_def [symmetric] migrate_versions split: if_splits sum.splits)
qed simp

lemma migrate_all_done:
  "set versions \<subseteq> applied db \<Longrightarrow> \<not> st_fails E St_Version \<Longrightarrow> migrate_all E versions db = (None, db)"
  by (induction versions) (auto simp: applied_def)

lemma latest_applied_max: "latest_applied db \<le> n \<longleftrightarrow> (\<forall>v \<in> applied db. v \<le> n) \<and> (applied db = {} \<longrightarrow> 0 \<le> n)"
  by (auto simp: latest_applied_def applied_def)

text \<open>
  Opening a database is idempotent: once its migrations were applied, opening it again runs no script, changes
  nothing and succeeds.
\<close>

theorem migrations_idempotent:
  assumes "script_keeps_versions E" "open_storage E db = (None, db')" "\<And>st. \<not> st_fails E' st"
  shows "open_storage E' db' = (None, db')"
proof -
  from assms(2) have all: "migrate_all E MIGRATIONS db = (None, db')" and latest: "latest_applied db \<le> 3"
    by (auto simp: open_storage_def apply_migrations_def Let_def MIGRATIONS_def split: if_splits)
  from migrate_all_versions [OF assms(1) all] have "applied db' = applied db \<union> {1, 2, 3}"
    by (simp add: MIGRATIONS_def)
  moreover from this latest have "latest_applied db' \<le> 3" by (auto simp: latest_applied_max)
  moreover from calculation have "migrate_all E' MIGRATIONS db' = (None, db')"
    using assms(3) by (intro migrate_all_done) (auto simp: MIGRATIONS_def)
  ultimately show ?thesis
    using assms(3) by (simp add: open_storage_def apply_migrations_def Let_def) (simp add: MIGRATIONS_def)
qed


section \<open>Instances\<close>

definition plain_storage :: storage_env where
  "plain_storage = \<lparr>st_fails = (\<lambda>_. False), st_to_string = (\<lambda>r. Some (rep_scan_id r)),
     st_from_str = (\<lambda>t. Some (sample_report\<lparr>rep_scan_id := t\<rparr>)), st_parse_uuid = Some, st_now = 50,
     st_sub = (\<lambda>d. Some (50 - d)), st_event_id = show_nat, st_script = (\<lambda>_. Some)\<rparr>"

definition empty_database :: database where
  "empty_database = \<lparr>db_versions = [(1, 0)], db_tenants = [''local''], db_scans = [], db_findings = [], db_audit = [],
     db_job_scans = []\<rparr>"

lemma empty_database_wf: "store_wf empty_database"
  by (simp add: store_wf_def empty_database_def)

lemma store_stays_consistent_witness:
  "store_wf empty_database \<and>
   store_wf (perform_all [(plain_storage, Do_Persist sample_report ''cli''), (plain_storage, Do_Delete ''id'')] empty_database)"
  using store_stays_consistent [OF empty_database_wf] empty_database_wf by blast

definition sample_stored :: database where
  \<comment> \<open>two scans of one target\<close>
  "sample_stored = perform_all [(plain_storage, Do_Persist sample_report ''cli''),
     (plain_storage, Do_Persist (sample_report\<lparr>rep_scan_id := ''later'', rep_started_at := 10\<rparr>) ''cli'')] empty_database"

lemma sample_stored_scans:
  "sample_stored = empty_database\<lparr>db_scans := [scan_row_of plain_storage ''local'' sample_report ''id'' ''cli'',
     scan_row_of plain_storage ''local'' (sample_report\<lparr>rep_scan_id := ''later'', rep_started_at := 10\<rparr>) ''later'' ''cli'']\<rparr>"
  by code_simp

lemma sample_stored_wf: "store_wf sample_stored"
  unfolding sample_stored_def by (rule perform_all_wf [OF empty_database_wf])

lemma sample_stored_ids: "plain_ids plain_storage sample_stored"
  by (simp add: plain_ids_def plain_storage_def)

lemma stored_report_immutable_witness:
  "\<exists>db'. persist_report plain_storage sample_report ''cli'' empty_database = Inr db' \<and>
     load_report plain_storage ''id'' (perform_all [(plain_storage, Do_Delete ''other'')] db') = Inr (Some sample_report)"
proof -
  obtain db' where db': "persist_report plain_storage sample_report ''cli'' empty_database = Inr db'"
    and ids: "''id'' \<in> scan_ids db'" "''id'' \<in> scan_ids (perform_all [(plain_storage, Do_Delete ''other'')] db')"
  proof -
    have "case persist_report plain_storage sample_report ''cli'' empty_database of Inl _ \<Rightarrow> False
        | Inr db' \<Rightarrow> ''id'' \<in> scan_ids db' \<and> ''id'' \<in> scan_ids (perform_all [(plain_storage, Do_Delete ''other'')] db')"
      by code_simp
    then show thesis by (auto intro: that split: sum.splits)
  qed
  have id: "rep_scan_id sample_report = ''id''" by code_simp
  have serde: "store_serde plain_storage plain_storage sample_report"
    by (simp add: store_serde_def plain_storage_def)
  have "load_report plain_storage (rep_scan_id sample_report) (perform_all [(plain_storage, Do_Delete ''other'')] db') =
      Inr (Some sample_report)"
  proof (rule stored_report_immutable [OF empty_database_wf db' serde])
    show "\<not> st_fails plain_storage St_Select" by (simp add: plain_storage_def)
    show "rep_scan_id sample_report \<in> scan_ids (perform_all (take n [(plain_storage, Do_Delete ''other'')]) db')"
      if "n \<le> length [(plain_storage, Do_Delete ''other'')]" for n
      using that ids id by (cases n) (simp_all add: perform_all_def)
  qed
  with db' id show ?thesis by auto
qed

definition any_scan :: history_filter where
  "any_scan = \<lparr>hf_target = None, hf_status = None, hf_minimum_severity = None, hf_started_after = None, hf_started_before = None,
     hf_offset = 0, hf_limit = 1\<rparr>"

lemma history_lists_exactly_witness:
  "\<exists>page. history plain_storage any_scan sample_stored = Inr page \<and>
     map sum_scan_id page = take 1 (drop 0 (rev (map row_scan_id (oldest_first (filter (listed any_scan sample_stored) (db_scans sample_stored))))))"
proof -
  obtain page where page: "history plain_storage any_scan sample_stored = Inr page"
  proof -
    have "case history plain_storage any_scan sample_stored of Inl _ \<Rightarrow> False | Inr page \<Rightarrow> True" by code_simp
    then show thesis by (auto intro: that split: sum.splits)
  qed
  with history_lists_exactly [OF sample_stored_wf sample_stored_ids page] show ?thesis
    by (auto simp: any_scan_def)
qed

definition keep_one :: retention_policy where
  "keep_one = \<lparr>pol_keep_last = Some 1, pol_older_than = None, pol_preserve_high = False, pol_dry_run = False\<rparr>"

lemma prune_removes_exactly_witness:
  "\<exists>result db'. prune plain_storage keep_one sample_stored = Inr (result, db') \<and> ret_scan_ids result = [''id''] \<and>
     db_scans db' = filter (\<lambda>r. \<not> removable plain_storage keep_one sample_stored r) (db_scans sample_stored)"
proof -
  obtain result db' where ok: "prune plain_storage keep_one sample_stored = Inr (result, db')"
    and ids: "ret_scan_ids result = [''id'']"
  proof -
    have "case prune plain_storage keep_one sample_stored of Inl _ \<Rightarrow> False | Inr (result, db') \<Rightarrow> ret_scan_ids result = [''id'']"
      by code_simp
    then show thesis by (auto intro: that split: sum.splits)
  qed
  have "\<not> pol_dry_run keep_one" by (simp add: keep_one_def)
  from prune_removes_exactly [OF sample_stored_wf sample_stored_ids ok this] ok ids show ?thesis by blast
qed

lemma migrations_idempotent_witness:
  "\<exists>db'. open_storage plain_storage empty_database = (None, db') \<and> open_storage plain_storage db' = (None, db')"
proof -
  have keeps: "script_keeps_versions plain_storage" by (simp add: script_keeps_versions_def plain_storage_def)
  have sound: "\<not> st_fails plain_storage st" for st by (simp add: plain_storage_def)
  have "fst (open_storage plain_storage empty_database) = None" by code_simp
  then obtain db' where "open_storage plain_storage empty_database = (None, db')" by (metis prod.collapse)
  from migrations_idempotent [OF keeps this sound] this show ?thesis by blast
qed

end
