(* ===== verification/Backup.thy ===== *)
theory Backup
  imports Cli_Output Ssh_Wire Storage
begin

text \<open>
  Backup, verification and restoration of the database file, \<^verbatim>\<open>crates/surface-storage/src/backup.rs\<close>, over a file system
  that maps a path to the contents of its file. What SQLite says of the contents of a file, the random parts of temporary
  names, and which calls fail in which state are the fields of \<open>backup_env\<close>. Paths are UTF-8 text.
\<close>

section \<open>Calls\<close>

datatype backup_call =
    Call_Remove string | Call_Open string | Call_Vacuum string string | Call_Secure string | Call_Open_Read string
  | Call_Integrity string | Call_Rename string string

record backup_env =
  bk_fails :: "backup_call \<Rightarrow> files \<Rightarrow> bool"
  bk_integrity :: "string \<Rightarrow> string option" \<comment> \<open>\<open>PRAGMA integrity_check\<close>\<close>
  bk_version :: "string \<Rightarrow> int option" \<comment> \<open>\<open>SELECT COALESCE(MAX(version), 0)\<close>\<close>
  bk_vacuum :: "string \<Rightarrow> string" \<comment> \<open>what \<open>VACUUM INTO\<close> writes\<close>
  bk_uuid :: "string \<Rightarrow> string" \<comment> \<open>the random name drawn for a label\<close>

type_synonym 'a on_files = "files \<Rightarrow> 'a stored \<times> files"

definition then_files :: "'a on_files \<Rightarrow> ('a \<Rightarrow> 'b on_files) \<Rightarrow> 'b on_files" where
  \<comment> \<open>the operator \<open>?\<close>: what was done before an error stays done\<close>
  "then_files a f fs = (case a fs of (Inl e, fs') \<Rightarrow> (Inl e, fs') | (Inr x, fs') \<Rightarrow> f x fs')"

definition remove_file :: "backup_env \<Rightarrow> string \<Rightarrow> files \<Rightarrow> files option" where
  "remove_file E path fs = (if bk_fails E (Call_Remove path) fs then None else Some (fs(path := None)))"

definition rename_file :: "backup_env \<Rightarrow> string \<Rightarrow> string \<Rightarrow> files \<Rightarrow> files option" where
  \<comment> \<open>the target is replaced in one step\<close>
  "rename_file E source target fs =
     (case fs source of
        None \<Rightarrow> None
      | Some contents \<Rightarrow>
          if bk_fails E (Call_Rename source target) fs then None else Some (fs(source := None, target \<mapsto> contents)))"

definition try_files :: "string \<Rightarrow> (files \<Rightarrow> files option) \<Rightarrow> unit on_files" where
  "try_files message f fs = (case f fs of Some fs' \<Rightarrow> (Inr (), fs') | None \<Rightarrow> (Inl message, fs))"

definition remove_if_exists :: "backup_env \<Rightarrow> string \<Rightarrow> unit on_files" where
  "remove_if_exists E path fs =
     (if fs path = None then (Inr (), fs) else try_files ''could not remove temporary database'' (remove_file E path) fs)"

definition path_with_file_name :: "string \<Rightarrow> string \<Rightarrow> string" where
  \<comment> \<open>\<open>Path::with_file_name\<close>\<close>
  "path_with_file_name path name =
     (case path_file_name path of
        None \<Rightarrow> path_join path name
      | Some old \<Rightarrow> take (length (path_trimmed path) - length old) (path_trimmed path) @ name)"

definition sibling_temporary :: "backup_env \<Rightarrow> string \<Rightarrow> string \<Rightarrow> string" where
  "sibling_temporary E path label =
     (let name = (case path_file_name path of Some n \<Rightarrow> if valid_utf8 n then n else ''surface.db'' | None \<Rightarrow> ''surface.db'')
      in path_with_file_name path (concat [''.'', name, ''.'', label, ''.'', bk_uuid E label]))"

definition secure_database :: "backup_env \<Rightarrow> string \<Rightarrow> unit on_files" where
  "secure_database E path fs =
     (if path \<noteq> '':memory:'' \<and> bk_fails E (Call_Secure path) fs
      then (Inl ''could not restrict Surface database permissions'', fs) else (Inr (), fs))"

section \<open>Verification\<close>

definition verify_database :: "backup_env \<Rightarrow> string \<Rightarrow> unit on_files" where
  "verify_database E path fs =
     (let supported = (if MIGRATIONS = [] then 0 else last MIGRATIONS)
      in (case fs path of
            None \<Rightarrow> Inl ''could not open database for verification''
          | Some contents \<Rightarrow>
              if bk_fails E (Call_Open_Read path) fs then Inl ''could not open database for verification''
              else if bk_fails E (Call_Integrity path) fs then Inl ''could not run SQLite integrity check''
              else (case bk_integrity E contents of
                  None \<Rightarrow> Inl ''could not run SQLite integrity check''
                | Some integrity \<Rightarrow>
                    if integrity \<noteq> ''ok'' then Inl (''database integrity check failed: '' @ integrity)
                    else (case bk_version E contents of
                        None \<Rightarrow> Inl ''could not inspect backup schema''
                      | Some version \<Rightarrow>
                          if supported < version then
                            Inl (''database schema version '' @ show_int version @ '' is newer than supported version '' @
                              show_int supported)
                          else Inr ()))), fs)"

definition vacuum_into :: "backup_env \<Rightarrow> string \<Rightarrow> string \<Rightarrow> files \<Rightarrow> files option" where
  \<comment> \<open>the target must be missing or empty; it is written as \<open>to_string_lossy\<close> of a path, that path as paths are UTF-8 text\<close>
  "vacuum_into E source target fs =
     (case fs source of
        None \<Rightarrow> None
      | Some contents \<Rightarrow>
          if bk_fails E (Call_Vacuum source target) fs \<or> fs target \<notin> {None, Some []} then None
          else Some (fs(target \<mapsto> bk_vacuum E contents)))"

definition open_file :: "backup_env \<Rightarrow> string \<Rightarrow> files \<Rightarrow> files option" where
  \<comment> \<open>\<open>Connection::open\<close> creates a missing file\<close>
  "open_file E path fs =
     (if bk_fails E (Call_Open path) fs then None else Some (if fs path = None then fs(path \<mapsto> []) else fs))"

definition open_read :: "backup_env \<Rightarrow> string \<Rightarrow> files \<Rightarrow> files option" where
  "open_read E path fs = (if bk_fails E (Call_Open_Read path) fs \<or> fs path = None then None else Some fs)"

section \<open>Backup and restoration\<close>

definition backup_database :: "backup_env \<Rightarrow> string \<Rightarrow> string \<Rightarrow> unit on_files" where
  "backup_database E db_path out fs =
     (if fs out \<noteq> None then (Inl ''backup destination already exists'', fs)
      else let temporary = sibling_temporary E out ''backup''
        in then_files (remove_if_exists E temporary) (\<lambda>_.
           then_files (try_files ''could not open database for backup'' (open_file E db_path)) (\<lambda>_.
           then_files (try_files ''could not create SQLite backup'' (vacuum_into E db_path temporary)) (\<lambda>_.
           then_files (secure_database E temporary) (\<lambda>_.
           then_files (verify_database E temporary) (\<lambda>_.
           try_files ''could not publish database backup'' (rename_file E temporary out)))))) fs)"

definition roll_back :: "backup_env \<Rightarrow> string \<Rightarrow> string \<Rightarrow> files \<Rightarrow> files" where
  \<comment> \<open>the previous database is put back where it can be\<close>
  "roll_back E previous db_path fs =
     (if fs previous = None then fs else (case rename_file E previous db_path fs of Some fs' \<Rightarrow> fs' | None \<Rightarrow> fs))"

definition preserve_current :: "backup_env \<Rightarrow> string \<Rightarrow> string \<Rightarrow> unit on_files" where
  "preserve_current E db_path previous fs =
     (if fs db_path = None then (Inr (), fs)
      else try_files ''could not preserve current database'' (rename_file E db_path previous) fs)"

definition install :: "backup_env \<Rightarrow> string \<Rightarrow> string \<Rightarrow> string \<Rightarrow> unit on_files" where
  \<comment> \<open>from the renaming of the prepared file to the verification of the installed one\<close>
  "install E temporary previous db_path fs =
     (case rename_file E temporary db_path fs of
        None \<Rightarrow> (Inl ''could not install restored database'', roll_back E previous db_path fs)
      | Some fs \<Rightarrow>
          (case verify_database E db_path fs of
             (Inl e, fs) \<Rightarrow>
               (Inl e, roll_back E previous db_path (case remove_file E db_path fs of Some fs' \<Rightarrow> fs' | None \<Rightarrow> fs))
           | (Inr _, fs) \<Rightarrow> remove_if_exists E previous fs))"

definition restore_database :: "backup_env \<Rightarrow> string \<Rightarrow> string \<Rightarrow> unit on_files" where
  "restore_database E db_path input =
     (let temporary = sibling_temporary E db_path ''restore''; previous = sibling_temporary E db_path ''previous''
      in then_files (verify_database E input) (\<lambda>_.
         then_files (remove_if_exists E temporary) (\<lambda>_.
         then_files (remove_if_exists E previous) (\<lambda>_.
         then_files (try_files ''could not open backup for restore'' (open_read E input)) (\<lambda>_.
         then_files (try_files ''could not prepare restored database'' (vacuum_into E input temporary)) (\<lambda>_.
         then_files (secure_database E temporary) (\<lambda>_.
         then_files (verify_database E temporary) (\<lambda>_.
         then_files (preserve_current E db_path previous) (\<lambda>_.
         install E temporary previous db_path)))))))))"

section \<open>Assertions\<close>

definition ensures :: "(files \<Rightarrow> bool) \<Rightarrow> 'a on_files \<Rightarrow> ('a \<Rightarrow> files \<Rightarrow> bool) \<Rightarrow> (files \<Rightarrow> bool) \<Rightarrow> bool" where
  \<comment> \<open>from states with the first assertion, success reaches the second and an error the third\<close>
  "ensures P a Q R \<longleftrightarrow>
     (\<forall>fs. P fs \<longrightarrow> (case a fs of (Inr x, fs') \<Rightarrow> Q x fs' | (Inl _, fs') \<Rightarrow> R fs'))"

lemma ensures_then:
  "ensures P a Q R \<Longrightarrow> (\<And>x. ensures (Q x) (f x) Q' R) \<Longrightarrow> ensures P (then_files a f) Q' R"
  by (fastforce simp: ensures_def then_files_def split: prod.splits sum.splits)

lemma ensures_try:
  assumes "\<And>fs. P fs \<Longrightarrow> f fs = None \<Longrightarrow> R fs" "\<And>fs fs'. P fs \<Longrightarrow> f fs = Some fs' \<Longrightarrow> Q fs'"
  shows "ensures P (try_files message f) (\<lambda>_. Q) R"
  using assms by (auto simp: ensures_def try_files_def split: option.splits)

lemma ensures_D:
  "ensures P a Q R \<Longrightarrow> P fs \<Longrightarrow> a fs = (r, fs') \<Longrightarrow> (case r of Inr x \<Rightarrow> Q x fs' | Inl _ \<Rightarrow> R fs')"
  by (fastforce simp: ensures_def split: prod.splits sum.splits)

lemma ensures_keep:
  "(\<And>fs. P fs \<Longrightarrow> snd (a fs) = fs) \<Longrightarrow> (\<And>fs. P fs \<Longrightarrow> R fs) \<Longrightarrow> ensures P a (\<lambda>_. P) R"
  by (fastforce simp: ensures_def split: prod.splits sum.splits)

definition usable :: "backup_env \<Rightarrow> string \<Rightarrow> bool" where
  \<comment> \<open>what verification accepts\<close>
  "usable E contents \<longleftrightarrow> bk_integrity E contents = Some ''ok'' \<and> (\<exists>v \<le> 3. bk_version E contents = Some v)"

lemma verify_unchanged: "snd (verify_database E path fs) = fs"
  by (simp add: verify_database_def Let_def)

lemma verify_usable: "fst (verify_database E path fs) = Inr () \<Longrightarrow> \<exists>c. fs path = Some c \<and> usable E c"
  by (auto simp: verify_database_def usable_def MIGRATIONS_def not_less split: option.splits if_splits)

lemma ensures_post: "ensures P a Q R \<Longrightarrow> (\<And>x fs. Q x fs \<Longrightarrow> Q' x fs) \<Longrightarrow> ensures P a Q' R"
proof -
  assume a: "ensures P a Q R" and Q: "\<And>x fs. Q x fs \<Longrightarrow> Q' x fs"
  have "case a fs of (Inr x, fs') \<Rightarrow> Q' x fs' | (Inl _, fs') \<Rightarrow> R fs'" if P: "P fs" for fs
  proof -
    obtain r fs' where "a fs = (r, fs')" by (cases "a fs") blast
    with a P Q show ?thesis by (cases r) (auto simp: ensures_def dest!: spec [of _ fs])
  qed
  then show ?thesis by (simp add: ensures_def)
qed

lemma ensures_verify:
  "(\<And>fs. P fs \<Longrightarrow> R fs) \<Longrightarrow> ensures P (verify_database E path) (\<lambda>_ fs. P fs \<and> (\<exists>c. fs path = Some c \<and> usable E c)) R"
  unfolding ensures_def
proof (intro allI impI)
  fix fs assume R: "\<And>fs. P fs \<Longrightarrow> R fs" and P: "P fs"
  obtain r where r: "verify_database E path fs = (r, fs)" by (metis prod.collapse verify_unchanged)
  with R P verify_usable [of E path fs]
  show "case verify_database E path fs of (Inr x, fs') \<Rightarrow> P fs' \<and> (\<exists>c. fs' path = Some c \<and> usable E c) | (Inl _, fs') \<Rightarrow> R fs'"
    by (cases r) auto
qed

lemma ensures_secure: "(\<And>fs. P fs \<Longrightarrow> R fs) \<Longrightarrow> ensures P (secure_database E path) (\<lambda>_. P) R"
  by (rule ensures_keep) (simp add: secure_database_def)

lemma ensures_remove:
  assumes "\<And>fs. P fs \<Longrightarrow> R fs" "\<And>fs. P fs \<Longrightarrow> Q (fs(path := None))"
  shows "ensures P (remove_if_exists E path) (\<lambda>_. Q) R"
  unfolding ensures_def
proof (intro allI impI)
  fix fs :: files assume P: "P fs"
  have "Q fs" if "fs path = None" using assms(2) [OF P] that fun_upd_idem [of fs path None] by simp
  with assms P show "case remove_if_exists E path fs of (Inr x, fs') \<Rightarrow> Q fs' | (Inl _, fs') \<Rightarrow> R fs'"
    by (cases "fs path"; cases "remove_file E path fs")
      (auto simp: remove_if_exists_def try_files_def remove_file_def split: if_splits)
qed

lemma rename_fileD: "rename_file E a b fs = Some fs' \<Longrightarrow> \<exists>c. fs a = Some c \<and> fs' = fs(a := None, b \<mapsto> c)"
  by (auto simp: rename_file_def split: option.splits if_splits)

lemma vacuum_intoD: "vacuum_into E a b fs = Some fs' \<Longrightarrow> \<exists>c. fs a = Some c \<and> fs' = fs(b \<mapsto> bk_vacuum E c)"
  by (auto simp: vacuum_into_def split: option.splits if_splits)

section \<open>Restoration\<close>

abbreviation restore_path :: "backup_env \<Rightarrow> string \<Rightarrow> string" where
  "restore_path E db_path \<equiv> sibling_temporary E db_path ''restore''"

abbreviation previous_path :: "backup_env \<Rightarrow> string \<Rightarrow> string" where
  "previous_path E db_path \<equiv> sibling_temporary E db_path ''previous''"

definition preserved :: "backup_env \<Rightarrow> string \<Rightarrow> string \<Rightarrow> files \<Rightarrow> bool" where
  \<comment> \<open>the database is at its path or at the path it was moved to\<close>
  "preserved E db_path old fs \<longleftrightarrow> fs db_path = Some old \<or> fs (previous_path E db_path) = Some old"

lemma roll_back_preserved:
  "d \<noteq> p \<Longrightarrow> fs p = Some old \<Longrightarrow> roll_back E p d fs d = Some old \<or> roll_back E p d fs p = Some old"
  by (auto simp: roll_back_def dest!: rename_fileD split: option.splits)

lemma install_preserved:
  assumes "distinct [d, t, p]"
  shows "ensures (\<lambda>fs. fs p = Some old) (install E t p d) (\<lambda>_ _. True) (\<lambda>fs. fs d = Some old \<or> fs p = Some old)"
  unfolding ensures_def
proof (intro allI impI)
  fix fs :: files assume p: "fs p = Some old"
  have removed: "fs' p = Some old \<Longrightarrow> (case remove_file E d fs' of Some fs'' \<Rightarrow> fs'' | None \<Rightarrow> fs') p = Some old" for fs'
    using assms by (auto simp: remove_file_def)
  have cleanup: "case remove_if_exists E p fs' of (Inr x, fs'') \<Rightarrow> True | (Inl _, fs'') \<Rightarrow> fs'' d = Some old \<or> fs'' p = Some old"
    if "fs' p = Some old" for fs'
    using that by (auto simp: remove_if_exists_def try_files_def split: option.splits)
  show "case install E t p d fs of (Inr x, fs') \<Rightarrow> True | (Inl _, fs') \<Rightarrow> fs' d = Some old \<or> fs' p = Some old"
  proof (cases "rename_file E t d fs")
    case None
    with roll_back_preserved [of d p fs old E] assms p show ?thesis by (simp add: install_def)
  next
    case (Some fs1)
    then have p1: "fs1 p = Some old" using assms p by (auto dest!: rename_fileD)
    show ?thesis
    proof (cases "fst (verify_database E d fs1)")
      case (Inl e)
      then have "verify_database E d fs1 = (Inl e, fs1)" by (metis prod.collapse verify_unchanged)
      moreover have "roll_back E p d (case remove_file E d fs1 of Some fs2 \<Rightarrow> fs2 | None \<Rightarrow> fs1) d = Some old \<or>
          roll_back E p d (case remove_file E d fs1 of Some fs2 \<Rightarrow> fs2 | None \<Rightarrow> fs1) p = Some old"
        by (rule roll_back_preserved) (use assms removed [of fs1] p1 in simp_all)
      ultimately show ?thesis using Some by (simp add: install_def)
    next
      case (Inr u)
      then have "verify_database E d fs1 = (Inr u, fs1)" by (metis prod.collapse verify_unchanged)
      with Some cleanup [of fs1] p1 show ?thesis by (simp add: install_def)
    qed
  qed
qed

text \<open>
  C11: A restoration never loses the current database: when it fails, in whichever call, the contents of the database are
  still at its path or, when they could not be put back, at the path they were moved to.
\<close>

theorem restore_failure_preserves:
  assumes "fs db_path = Some old" "restore_database E db_path input fs = (Inl e, fs')"
    and "distinct [db_path, restore_path E db_path, previous_path E db_path]"
  shows "preserved E db_path old fs'"
proof -
  let ?t = "restore_path E db_path" and ?p = "previous_path E db_path"
  let ?D = "\<lambda>fs :: files. fs db_path = Some old" and ?R = "\<lambda>fs :: files. fs db_path = Some old \<or> fs ?p = Some old"
  from assms(3) have d: "db_path \<noteq> ?t" "db_path \<noteq> ?p" "?t \<noteq> ?p" by simp_all
  have preserve: "ensures ?D (preserve_current E db_path ?p) (\<lambda>_ fs. fs ?p = Some old) ?R"
    using d by (auto simp: ensures_def preserve_current_def try_files_def dest!: rename_fileD split: option.splits)
  have "ensures ?D (restore_database E db_path input) (\<lambda>_ _. True) ?R"
    unfolding restore_database_def Let_def
    apply (rule ensures_then [where Q = "\<lambda>_. ?D"], rule ensures_keep, rule verify_unchanged, simp)
    apply (rule ensures_then [where Q = "\<lambda>_. ?D"], rule ensures_remove, simp, use d in simp)
    apply (rule ensures_then [where Q = "\<lambda>_. ?D"], rule ensures_remove, simp, use d in simp)
    apply (rule ensures_then [where Q = "\<lambda>_. ?D"], rule ensures_try, simp, simp add: open_read_def split: if_splits)
    apply (rule ensures_then [where Q = "\<lambda>_. ?D"], rule ensures_try, simp, use d in \<open>auto dest!: vacuum_intoD\<close>)
    apply (rule ensures_then [where Q = "\<lambda>_. ?D"], rule ensures_secure, simp)
    apply (rule ensures_then [where Q = "\<lambda>_. ?D"], rule ensures_keep, rule verify_unchanged, simp)
    apply (rule ensures_then, rule preserve)
    apply (rule install_preserved [OF assms(3)])
    done
  from ensures_D [OF this assms(1,2)] show ?thesis by (simp add: preserved_def)
qed

lemma restore_installs:
  assumes "restore_database E db_path input fs = (Inr (), fs')"
    and "distinct [db_path, restore_path E db_path, previous_path E db_path]"
  shows "\<exists>contents. fs input = Some contents \<and> fs' db_path = Some (bk_vacuum E contents) \<and> usable E (bk_vacuum E contents)"
proof -
  let ?t = "restore_path E db_path" and ?p = "previous_path E db_path"
  from assms(2) have d: "db_path \<noteq> ?t" "db_path \<noteq> ?p" "?t \<noteq> ?p" by simp_all
  define I where "I = (\<lambda>fs' :: files. fs' input = fs input \<or> fs' input = None)"
  define T where "T = (\<lambda>fs' :: files. \<exists>c. fs input = Some c \<and> fs' ?t = Some (bk_vacuum E c))"
  define U where "U = (\<lambda>fs' :: files. \<exists>c. fs input = Some c \<and> fs' ?t = Some (bk_vacuum E c) \<and> usable E (bk_vacuum E c))"
  define D where "D = (\<lambda>fs' :: files. \<exists>c. fs input = Some c \<and> fs' db_path = Some (bk_vacuum E c) \<and> usable E (bk_vacuum E c))"
  have vacuum: "ensures I (try_files message (vacuum_into E input ?t)) (\<lambda>_. T) (\<lambda>_. True)" for message
    by (rule ensures_try) (auto simp: I_def T_def dest!: vacuum_intoD)
  have verified: "ensures T (verify_database E ?t) (\<lambda>_. U) (\<lambda>_. True)"
    using ensures_verify [where P = T and R = "\<lambda>_. True" and E = E and path = ?t] by (rule ensures_post) (auto simp: T_def U_def)
  have preserve: "ensures U (preserve_current E db_path ?p) (\<lambda>_. U) (\<lambda>_. True)"
    using d by (auto simp: ensures_def preserve_current_def try_files_def U_def dest!: rename_fileD split: option.splits)
  have moved: "D fs2" if "U fs1" "rename_file E ?t db_path fs1 = Some fs2" for fs1 fs2
    using that d by (auto simp: U_def D_def dest!: rename_fileD)
  have kept: "case remove_if_exists E ?p fs1 of (Inr x, fs2) \<Rightarrow> D fs2 | (Inl _, fs2) \<Rightarrow> True" if "D fs1" for fs1
  proof -
    have "D (fs2(?p := None))" if "D fs2" for fs2 using that d by (auto simp: D_def)
    then have "ensures D (remove_if_exists E ?p) (\<lambda>_. D) (\<lambda>_. True)" by (intro ensures_remove) simp_all
    with that show ?thesis by (simp add: ensures_def)
  qed
  have install: "ensures U (install E ?t ?p db_path) (\<lambda>_. D) (\<lambda>_. True)"
    unfolding ensures_def
  proof (intro allI impI)
    fix fs1 assume U: "U fs1"
    show "case install E ?t ?p db_path fs1 of (Inr x, fs2) \<Rightarrow> D fs2 | (Inl _, fs2) \<Rightarrow> True"
    proof (cases "rename_file E ?t db_path fs1")
      case (Some fs2)
      obtain r where "verify_database E db_path fs2 = (r, fs2)" by (metis prod.collapse verify_unchanged)
      with Some kept [of fs2] moved [OF U Some] show ?thesis by (cases r) (simp_all add: install_def)
    qed (simp add: install_def)
  qed
  have "ensures I (restore_database E db_path input) (\<lambda>_. D) (\<lambda>_. True)"
    unfolding restore_database_def Let_def
    apply (rule ensures_then [where Q = "\<lambda>_. I"], rule ensures_keep, rule verify_unchanged, simp)
    apply (rule ensures_then [where Q = "\<lambda>_. I"], rule ensures_remove, simp, simp add: I_def)
    apply (rule ensures_then [where Q = "\<lambda>_. I"], rule ensures_remove, simp, simp add: I_def)
    apply (rule ensures_then [where Q = "\<lambda>_. I"], rule ensures_try, simp, simp add: open_read_def split: if_splits)
    apply (rule ensures_then [where Q = "\<lambda>_. T"], rule vacuum)
    apply (rule ensures_then [where Q = "\<lambda>_. T"], rule ensures_secure, simp)
    apply (rule ensures_then [where Q = "\<lambda>_. U"], rule verified)
    apply (rule ensures_then, rule preserve, rule install)
    done
  from ensures_D [OF this _ assms(1)] show ?thesis by (simp add: I_def D_def)
qed

text \<open>
  C19: After a successful restoration the database is a compacted copy of the contents the backup had, which passed the
  integrity check and has a supported schema version.
\<close>

theorem restore_success_installs:
  assumes "restore_database E db_path input fs = (Inr (), fs')"
    and "distinct [db_path, restore_path E db_path, previous_path E db_path]"
  shows "\<exists>contents. fs input = Some contents \<and> fs' db_path = Some (bk_vacuum E contents) \<and> usable E (bk_vacuum E contents)"
  by (rule restore_installs [OF assms])

section \<open>Files left alone\<close>

lemma ensures_frame:
  assumes "ensures P a (\<lambda>_. P) P" "P fs"
  shows "P (snd (a fs))"
proof -
  obtain r fs' where r: "a fs = (r, fs')" by fastforce
  from ensures_D [OF assms r] r show ?thesis by (cases r) simp_all
qed

lemma roll_back_frame: "x \<noteq> p \<Longrightarrow> x \<noteq> d \<Longrightarrow> roll_back E p d fs x = fs x"
  by (auto simp: roll_back_def dest!: rename_fileD split: option.splits)

lemma install_frame:
  assumes "x \<notin> {d, t, p}"
  shows "snd (install E t p d fs) x = fs x"
proof (cases "rename_file E t d fs")
  case None
  with assms show ?thesis by (simp add: install_def roll_back_frame)
next
  case (Some fs1)
  then have fs1: "fs1 x = fs x" using assms by (auto dest!: rename_fileD)
  obtain r where r: "verify_database E d fs1 = (r, fs1)" by (metis prod.collapse verify_unchanged)
  have "(case remove_file E d fs1 of Some fs2 \<Rightarrow> fs2 | None \<Rightarrow> fs1) x = fs x"
    using fs1 assms by (auto simp: remove_file_def)
  moreover have "snd (remove_if_exists E p fs1) x = fs x"
    using fs1 assms by (auto simp: remove_if_exists_def try_files_def remove_file_def)
  ultimately show ?thesis using Some r assms by (cases r) (simp_all add: install_def roll_back_frame)
qed

lemma restore_frame:
  assumes "x \<notin> {d, restore_path E d, previous_path E d}"
  shows "snd (restore_database E d input fs) x = fs x"
proof -
  let ?P = "\<lambda>fs' :: files. fs' x = fs x"
  have preserve: "ensures ?P (preserve_current E d (previous_path E d)) (\<lambda>_. ?P) ?P"
    using assms by (auto simp: ensures_def preserve_current_def try_files_def dest!: rename_fileD split: option.splits)
  have install: "ensures ?P (install E (restore_path E d) (previous_path E d) d) (\<lambda>_. ?P) ?P"
    using install_frame [of x d "restore_path E d" "previous_path E d" E] assms
    by (auto simp: ensures_def split: prod.splits sum.splits) (metis snd_conv)+
  have "ensures ?P (restore_database E d input) (\<lambda>_. ?P) ?P"
    unfolding restore_database_def Let_def
    by (intro ensures_then [where Q = "\<lambda>_. ?P"] ensures_keep ensures_remove ensures_try ensures_secure preserve install)
      (use assms in \<open>auto simp: verify_unchanged open_read_def dest!: vacuum_intoD split: if_splits\<close>)
  then show ?thesis by (rule ensures_frame) simp
qed

lemma backup_frame:
  assumes "x \<noteq> sibling_temporary E out ''backup''" "fs x \<noteq> None"
  shows "snd (backup_database E d out fs) x = fs x"
proof (cases "fs out")
  case None
  with assms(2) have out: "x \<noteq> out" by auto
  let ?P = "\<lambda>fs' :: files. fs' x = fs x" and ?t = "sibling_temporary E out ''backup''"
  have "ensures ?P (then_files (remove_if_exists E ?t) (\<lambda>_.
      then_files (try_files ''could not open database for backup'' (open_file E d)) (\<lambda>_.
      then_files (try_files ''could not create SQLite backup'' (vacuum_into E d ?t)) (\<lambda>_.
      then_files (secure_database E ?t) (\<lambda>_.
      then_files (verify_database E ?t) (\<lambda>_.
      try_files ''could not publish database backup'' (rename_file E ?t out))))))) (\<lambda>_. ?P) ?P"
    by (intro ensures_then [where Q = "\<lambda>_. ?P"] ensures_keep ensures_remove ensures_try ensures_secure)
      (use assms out in \<open>auto simp: verify_unchanged open_file_def dest!: vacuum_intoD rename_fileD split: if_splits\<close>)
  from ensures_frame [OF this, of fs] None show ?thesis by (simp add: backup_database_def Let_def)
qed (simp add: backup_database_def)

section \<open>Backups\<close>

text \<open>
  C20: A backup replaces no file and publishes only what was verified: when the contents at the destination change, there was
  no file before, and the new file passed the integrity check with a supported schema version.
\<close>

theorem backup_publishes_verified:
  assumes "backup_database E db_path out fs = (r, fs')" "fs' out \<noteq> fs out"
    and "distinct [out, sibling_temporary E out ''backup'']" "db_path \<noteq> out"
  shows "fs out = None \<and> (\<exists>contents. fs' out = Some contents \<and> usable E contents)"
proof -
  let ?t = "sibling_temporary E out ''backup''"
  from assms(1,2) have new: "fs out = None" by (auto simp: backup_database_def split: if_splits)
  let ?N = "\<lambda>fs :: files. fs out = None"
  define Q where "Q = (\<lambda>fs :: files. \<exists>c. fs out = Some c \<and> usable E c)"
  from assms(3) have t: "out \<noteq> ?t" by simp
  have "ensures ?N (then_files (remove_if_exists E ?t) (\<lambda>_.
      then_files (try_files ''could not open database for backup'' (open_file E db_path)) (\<lambda>_.
      then_files (try_files ''could not create SQLite backup'' (vacuum_into E db_path ?t)) (\<lambda>_.
      then_files (secure_database E ?t) (\<lambda>_.
      then_files (verify_database E ?t) (\<lambda>_.
      try_files ''could not publish database backup'' (rename_file E ?t out))))))) (\<lambda>_. Q) ?N"
    apply (rule ensures_then [where Q = "\<lambda>_. ?N"], rule ensures_remove, simp, use t in simp)
    apply (rule ensures_then [where Q = "\<lambda>_. ?N"], rule ensures_try, simp, use assms(4) in \<open>auto simp: open_file_def split: if_splits\<close>)
    apply (rule ensures_then [where Q = "\<lambda>_. ?N"], rule ensures_try, simp, use t in \<open>auto dest!: vacuum_intoD\<close>)
    apply (rule ensures_then [where Q = "\<lambda>_. ?N"], rule ensures_secure, simp)
    apply (rule ensures_then, rule ensures_verify, simp)
    apply (rule ensures_try, simp, auto simp: Q_def dest!: rename_fileD)
    done
  from ensures_D [OF this, of fs r fs'] assms(1,2) new show ?thesis
    by (cases r) (auto simp: backup_database_def Let_def Q_def)
qed

section \<open>Instances\<close>

definition plain_backup :: "(backup_call \<Rightarrow> files \<Rightarrow> bool) \<Rightarrow> backup_env" where
  "plain_backup fails = \<lparr>bk_fails = fails, bk_integrity = (\<lambda>_. Some ''ok''), bk_version = (\<lambda>_. Some 3), bk_vacuum = (\<lambda>c. c),
     bk_uuid = (\<lambda>_. ''u'')\<rparr>"

definition two_files :: files where
  "two_files = [''h.db'' \<mapsto> ''current'', ''b.db'' \<mapsto> ''saved'']"

definition no_call_fails :: "backup_call \<Rightarrow> files \<Rightarrow> bool" where
  "no_call_fails call fs = False"

fun installing_fails :: "backup_call \<Rightarrow> files \<Rightarrow> bool" where
  "installing_fails (Call_Rename a b) fs = (a = ''.h.db.restore.u'')"
| "installing_fails call fs = False"

lemma sibling_paths:
  "sibling_temporary (plain_backup fails) ''h.db'' ''restore'' = ''.h.db.restore.u''"
  "sibling_temporary (plain_backup fails) ''h.db'' ''previous'' = ''.h.db.previous.u''"
  "sibling_temporary (plain_backup fails) ''o.db'' ''backup'' = ''.o.db.backup.u''"
  by code_simp+

lemma restore_failure_preserves_witness:
  "\<exists>e fs'. restore_database (plain_backup installing_fails) ''h.db'' ''b.db'' two_files = (Inl e, fs') \<and>
     preserved (plain_backup installing_fails) ''h.db'' ''current'' fs'"
proof -
  obtain r fs' where r: "restore_database (plain_backup installing_fails) ''h.db'' ''b.db'' two_files = (r, fs')"
    by (cases "restore_database (plain_backup installing_fails) ''h.db'' ''b.db'' two_files") blast
  have "case fst (restore_database (plain_backup installing_fails) ''h.db'' ''b.db'' two_files) of Inl _ \<Rightarrow> True | Inr _ \<Rightarrow> False"
    by code_simp
  with r obtain e where e: "r = Inl e" by (cases r) auto
  have d: "distinct [''h.db'', restore_path (plain_backup installing_fails) ''h.db'', previous_path (plain_backup installing_fails) ''h.db'']"
    by (simp add: sibling_paths)
  have "two_files ''h.db'' = Some ''current''" by (simp add: two_files_def)
  from restore_failure_preserves [OF this r [unfolded e] d] r e show ?thesis by blast
qed

lemma restore_success_installs_witness:
  "\<exists>fs'. restore_database (plain_backup no_call_fails) ''h.db'' ''b.db'' two_files = (Inr (), fs') \<and>
     (\<exists>contents. two_files ''b.db'' = Some contents \<and> fs' ''h.db'' = Some (bk_vacuum (plain_backup no_call_fails) contents) \<and>
       usable (plain_backup no_call_fails) (bk_vacuum (plain_backup no_call_fails) contents))"
proof -
  have "fst (restore_database (plain_backup no_call_fails) ''h.db'' ''b.db'' two_files) = Inr ()" by code_simp
  then obtain fs' where r: "restore_database (plain_backup no_call_fails) ''h.db'' ''b.db'' two_files = (Inr (), fs')"
    by (metis prod.collapse)
  have d: "distinct [''h.db'', restore_path (plain_backup no_call_fails) ''h.db'', previous_path (plain_backup no_call_fails) ''h.db'']"
    by (simp add: sibling_paths)
  from restore_success_installs [OF r d] r show ?thesis by blast
qed

lemma backup_publishes_verified_witness:
  "\<exists>r fs'. backup_database (plain_backup no_call_fails) ''h.db'' ''o.db'' two_files = (r, fs') \<and>
     two_files ''o.db'' = None \<and> (\<exists>contents. fs' ''o.db'' = Some contents \<and> usable (plain_backup no_call_fails) contents)"
proof -
  obtain r fs' where r: "backup_database (plain_backup no_call_fails) ''h.db'' ''o.db'' two_files = (r, fs')"
    by (cases "backup_database (plain_backup no_call_fails) ''h.db'' ''o.db'' two_files") blast
  have "snd (backup_database (plain_backup no_call_fails) ''h.db'' ''o.db'' two_files) ''o.db'' = Some ''current''" by code_simp
  with r have "fs' ''o.db'' \<noteq> two_files ''o.db''" by (simp add: two_files_def)
  from backup_publishes_verified [OF r this] r show ?thesis by (simp add: sibling_paths)
qed

end
