(* ===== verification/Cli_Commands.thy ===== *)
theory Cli_Commands
  imports Cli_Scan Diff Terminal Html Exports Signing Storage_Props Backup
begin

text \<open>
  The commands of \<^verbatim>\<open>crates/surface-cli/src/main.rs\<close> other than the scan: signing and verifying reports, the database
  commands, the scan history and the comparison. A command takes the files and what was printed so far, and returns its error
  and the state afterwards; \<open>None\<close> would be a command that does not return. A database is one of the files: what tables
  SQLite finds in its contents, and what contents it leaves after tables have changed, are parameters (changes of permission bits and the
  journal that exists beside the file during a transaction are left out). Paths are UTF-8 text.
\<close>

section \<open>The world of a command\<close>

record command_world =
  kw_storage :: storage_env
  kw_tables :: "string option \<Rightarrow> database" \<comment> \<open>of the contents of a file, or of a new file\<close>
  kw_image :: "string option \<Rightarrow> database \<Rightarrow> string option" \<comment> \<open>of the contents before and the tables after\<close>
  kw_backup :: backup_env
  kw_signing :: signing_env
  kw_serde :: serde
  kw_texts :: report_texts
  kw_ssh_debug :: "ssh_posture option \<Rightarrow> string"
  kw_pretty :: "json \<Rightarrow> string option" \<comment> \<open>\<open>to_string_pretty\<close>; likewise the next three\<close>
  kw_report_json :: "scan_report \<Rightarrow> string option"
  kw_diff_json :: "scan_diff \<Rightarrow> string option"
  kw_history_json :: "scan_summary list \<Rightarrow> string option"
  kw_read_report :: "bytes \<Rightarrow> scan_report option" \<comment> \<open>\<open>serde_json::from_slice\<close>\<close>
  kw_parse_uuid :: "string \<Rightarrow> string option"
  kw_stat_error :: "string \<Rightarrow> string option" \<comment> \<open>why the metadata of an existing file cannot be read\<close>
  kw_read_error :: "string \<Rightarrow> string option"
  kw_missing :: string \<comment> \<open>the error text for a missing file\<close>
  kw_mode :: "string \<Rightarrow> 32 word" \<comment> \<open>permission bits\<close>
  kw_serde_error :: string
  kw_version :: string \<comment> \<open>\<open>CARGO_PKG_VERSION\<close>\<close>
  kw_completion :: "string \<Rightarrow> string" \<comment> \<open>\<open>clap_complete::generate\<close>\<close>
  kw_write_error :: "string \<Rightarrow> string option"
  kw_faults :: file_faults
  kw_date :: string

record command_state =
  ks_files :: files
  ks_out :: string
  ks_err :: string

type_synonym command_result = "(app_error option \<times> command_state) option"

definition say :: "string \<Rightarrow> command_state \<Rightarrow> command_state" where
  "say t st = st\<lparr>ks_out := ks_out st @ t\<rparr>"

definition complain :: "string \<Rightarrow> command_state \<Rightarrow> command_state" where
  "complain t st = st\<lparr>ks_err := ks_err st @ t\<rparr>"

definition quoted :: "string \<Rightarrow> string" where
  "quoted s = [CHR 39] @ s @ [CHR 39]"

section \<open>Reading files\<close>

definition read_bounded :: "command_world \<Rightarrow> string \<Rightarrow> nat \<Rightarrow> files \<Rightarrow> app_error + bytes" where
  "read_bounded w path maximum fs =
     (let inspect = (\<lambda>e. Inl (app_error_new (concat [''could not inspect '', quoted path, '': '', e]) EXIT_INVALID_INPUT))
      in case fs path of
           None \<Rightarrow> inspect (kw_missing w)
         | Some contents \<Rightarrow>
             (case kw_stat_error w path of
                Some e \<Rightarrow> inspect e
              | None \<Rightarrow>
                  if maximum < length contents then
                    Inl (app_error_new (concat [quoted path, '' exceeds the '', show_nat maximum, '' byte limit'']) EXIT_INVALID_INPUT)
                  else (case kw_read_error w path of
                      Some e \<Rightarrow> Inl (app_error_new (concat [''could not read '', quoted path, '': '', e]) EXIT_INVALID_INPUT)
                    | None \<Rightarrow> Inr contents)))"

definition MAX_REPORT_BYTES :: nat where "MAX_REPORT_BYTES = 16 * 1024 * 1024"

definition load_report_file :: "command_world \<Rightarrow> string \<Rightarrow> files \<Rightarrow> app_error + scan_report" where
  "load_report_file w path fs =
     (let inspect = (\<lambda>e. Inl (app_error_new (concat [''could not inspect '', quoted path, '': '', e]) EXIT_SCAN_FAILED))
      in case fs path of
           None \<Rightarrow> inspect (kw_missing w)
         | Some contents \<Rightarrow>
             (case kw_stat_error w path of
                Some e \<Rightarrow> inspect e
              | None \<Rightarrow>
                  if MAX_REPORT_BYTES < length contents then
                    Inl (app_error_new (concat [''report '', quoted path, '' exceeds 16 MiB'']) EXIT_INVALID_INPUT)
                  else (case kw_read_error w path of
                      Some e \<Rightarrow> Inl (app_error_new (concat [''could not read '', quoted path, '': '', e]) EXIT_SCAN_FAILED)
                    | None \<Rightarrow> (case kw_read_report w contents of
                        Some report \<Rightarrow> Inr report
                      | None \<Rightarrow> Inl (app_error_new (concat [''report '', quoted path, '' is invalid: '', kw_serde_error w]) EXIT_INVALID_INPUT)))))"

definition ensure_private_key_permissions :: "command_world \<Rightarrow> string \<Rightarrow> files \<Rightarrow> app_error + unit" where
  "ensure_private_key_permissions w path fs =
     (let inspect = (\<lambda>e. Inl (app_error_new (concat [''could not inspect '', quoted path, '': '', e]) EXIT_INVALID_INPUT))
      in if fs path = None then inspect (kw_missing w)
         else (case kw_stat_error w path of
             Some e \<Rightarrow> inspect e
           | None \<Rightarrow>
               if kw_mode w path AND 0x3F \<noteq> 0
               then Inl (app_error_new ''private key permissions must not grant group or other access'' EXIT_INVALID_INPUT)
               else Inr ()))"

definition write_output_file :: "command_world \<Rightarrow> string \<Rightarrow> string \<Rightarrow> command_state \<Rightarrow> app_error option \<times> command_state" where
  "write_output_file w path rendered st =
     (case kw_write_error w path of
        Some e \<Rightarrow> (Some (app_error_new (concat [''could not write '', quoted path, '': '', e]) EXIT_SCAN_FAILED), st)
      | None \<Rightarrow> (None, st\<lparr>ks_files := (ks_files st)(path \<mapsto> rendered)\<rparr>))"

section \<open>Signatures\<close>

datatype report_command =
    Report_Sign string string string \<comment> \<open>report, key, signature\<close>
  | Report_Verify string string string \<comment> \<open>report, signature, public key\<close>

definition sign_command :: "command_world \<Rightarrow> string \<Rightarrow> string \<Rightarrow> string \<Rightarrow> command_state \<Rightarrow> app_error option \<times> command_state" where
  "sign_command w report key signature st =
     (case ensure_private_key_permissions w key (ks_files st) of Inl e \<Rightarrow> (Some e, st) | Inr _ \<Rightarrow>
     (case read_bounded w report (16 * 1024 * 1024) (ks_files st) of Inl e \<Rightarrow> (Some e, st) | Inr report_bytes \<Rightarrow>
     (case read_bounded w key 4096 (ks_files st) of Inl e \<Rightarrow> (Some e, st) | Inr key_bytes \<Rightarrow>
     (case decode_key 32 key_bytes of
        None \<Rightarrow> (Some (app_error_new ''private key must be 32 raw bytes encoded as hexadecimal'' EXIT_INVALID_INPUT), st)
      | Some private_key \<Rightarrow>
          (case sign_bytes (kw_signing w) report_bytes private_key of
             None \<Rightarrow> (Some (app_error_new (kw_serde_error w) EXIT_SCAN_FAILED), st)
           | Some envelope \<Rightarrow> write_output_file w signature envelope st)))))"

definition verify_command :: "command_world \<Rightarrow> string \<Rightarrow> string \<Rightarrow> string \<Rightarrow> command_state \<Rightarrow> app_error option \<times> command_state" where
  "verify_command w report signature public_key st =
     (case read_bounded w report (16 * 1024 * 1024) (ks_files st) of Inl e \<Rightarrow> (Some e, st) | Inr report_bytes \<Rightarrow>
     (case read_bounded w signature (64 * 1024) (ks_files st) of Inl e \<Rightarrow> (Some e, st) | Inr envelope \<Rightarrow>
     (case read_bounded w public_key 4096 (ks_files st) of Inl e \<Rightarrow> (Some e, st) | Inr key_bytes \<Rightarrow>
     (case decode_key 32 key_bytes of
        None \<Rightarrow> (Some (app_error_new ''public key must be 32 raw bytes encoded as hexadecimal'' EXIT_INVALID_INPUT), st)
      | Some key \<Rightarrow>
          (case verify_bytes (kw_signing w) report_bytes envelope key of
             Inl e \<Rightarrow> (Some (app_error_new (verification_error_str e) EXIT_SCAN_FAILED), st)
           | Inr _ \<Rightarrow> (None, say (''signature valid'' @ newline) st))))))"

fun run_report_command :: "command_world \<Rightarrow> report_command \<Rightarrow> command_state \<Rightarrow> app_error option \<times> command_state" where
  "run_report_command w (Report_Sign report key signature) st = sign_command w report key signature st"
| "run_report_command w (Report_Verify report signature public_key) st = verify_command w report signature public_key st"

section \<open>Databases as files\<close>

datatype database_command = Db_Backup string string | Db_Verify string | Db_Restore string string

fun database_operation :: "backup_env \<Rightarrow> database_command \<Rightarrow> unit on_files" where
  "database_operation E (Db_Backup db_path out) = backup_database E db_path out"
| "database_operation E (Db_Verify db_path) = verify_database E db_path"
| "database_operation E (Db_Restore db_path input) = restore_database E db_path input"

definition run_database_command :: "command_world \<Rightarrow> database_command \<Rightarrow> command_state \<Rightarrow> app_error option \<times> command_state" where
  "run_database_command w cmd st =
     (case database_operation (kw_backup w) cmd (ks_files st) of
        (Inl e, fs) \<Rightarrow> (Some (app_error_new e EXIT_SCAN_FAILED), st\<lparr>ks_files := fs\<rparr>)
      | (Inr _, fs) \<Rightarrow> (None, st\<lparr>ks_files := fs\<rparr>))"

section \<open>Writing reports\<close>

definition render_report :: "command_world \<Rightarrow> scan_report \<Rightarrow> report_format \<Rightarrow> app_error + string" where
  "render_report w report format =
     (case (case format of
              Format_Json \<Rightarrow> kw_report_json w report
            | Format_Html \<Rightarrow> Some (render_html (kw_texts w) report)
            | Format_Sarif \<Rightarrow> render_sarif (kw_pretty w) (kw_serde w) report
            | Format_CyclonedxJson \<Rightarrow> render_cyclonedx (kw_pretty w) (kw_ssh_debug w) (kw_serde w) report) of
        Some text \<Rightarrow> Inr text
      | None \<Rightarrow> Inl (app_error_new (''could not serialize report: '' @ kw_serde_error w) EXIT_SCAN_FAILED))"

definition render_diff_output :: "command_world \<Rightarrow> scan_diff \<Rightarrow> report_format \<Rightarrow> (app_error + string) option" where
  \<comment> \<open>\<open>None\<close> is the panic of \<open>unreachable!\<close>\<close>
  "render_diff_output w d format =
     (case format of
        Format_Json \<Rightarrow> Some (case kw_diff_json w d of
            Some text \<Rightarrow> Inr text
          | None \<Rightarrow> Inl (app_error_new (''could not serialize diff: '' @ kw_serde_error w) EXIT_SCAN_FAILED))
      | Format_Html \<Rightarrow> Some (Inr (render_diff_html d))
      | _ \<Rightarrow> None)"

fun render_all :: "(report_format \<Rightarrow> (app_error + string) option) \<Rightarrow> output_spec list \<Rightarrow> (app_error + string list) option" where
  \<comment> \<open>\<open>collect::<Result<Vec<_>, _>>\<close> over the outputs\<close>
  "render_all render [] = Some (Inr [])"
| "render_all render (spec # specs) =
     (case render (os_format spec) of
        None \<Rightarrow> None
      | Some (Inl e) \<Rightarrow> Some (Inl e)
      | Some (Inr text) \<Rightarrow> map_option (map_sum id ((#) text)) (render_all render specs))"

definition warn_unrecognized_extension :: "output_spec \<Rightarrow> command_state \<Rightarrow> command_state" where
  "warn_unrecognized_extension spec st =
     (case unrecognized_extension_warning spec of Some t \<Rightarrow> complain (t @ newline) st | None \<Rightarrow> st)"

fun write_all :: "command_world \<Rightarrow> (output_spec \<times> string) list \<Rightarrow> command_state \<Rightarrow> app_error option \<times> command_state" where
  "write_all w [] st = (None, st)"
| "write_all w ((spec, text) # outputs) st =
     (case write_output_file w (os_path spec) text (warn_unrecognized_extension spec st) of
        (Some e, st) \<Rightarrow> (Some e, st)
      | (None, st) \<Rightarrow> write_all w outputs st)"

definition write_default_html_file :: "command_world \<Rightarrow> string \<Rightarrow> string \<Rightarrow> command_state \<Rightarrow> command_result" where
  "write_default_html_file w stem rendered st =
     (case write_default_html_file_at (kw_faults w) ''.'' stem (kw_date w) rendered (ks_files st) of
        None \<Rightarrow> None
      | Some (Inl e, fs) \<Rightarrow> Some (Some e, st\<lparr>ks_files := fs\<rparr>)
      | Some (Inr _, fs) \<Rightarrow> Some (None, st\<lparr>ks_files := fs\<rparr>))"

definition publish ::
    "command_world \<Rightarrow> output_spec list \<Rightarrow> string list \<Rightarrow> string \<Rightarrow> string \<Rightarrow> string \<Rightarrow> command_state \<Rightarrow> command_result" where
  \<comment> \<open>the end of \<open>show\<close> and \<open>diff\<close>: the terminal text, then the files asked for or the default one\<close>
  "publish w specs rendered terminal stem default_html st =
     (let st = say terminal st
      in if specs = [] then write_default_html_file w stem default_html st
         else Some (write_all w (zip specs rendered) st))"

section \<open>The history\<close>

datatype severity_filter = Filter_Info | Filter_Low | Filter_Medium | Filter_High | Filter_Critical

fun filter_severity :: "severity_filter \<Rightarrow> severity" where
  "filter_severity Filter_Info = Sev_Info"
| "filter_severity Filter_Low = Sev_Low"
| "filter_severity Filter_Medium = Sev_Medium"
| "filter_severity Filter_High = Sev_High"
| "filter_severity Filter_Critical = Sev_Critical"

record list_args =
  la_database :: string
  la_target :: "string option"
  la_status :: "string option"
  la_severity :: "severity_filter option"
  la_started_after :: "int option"
  la_started_before :: "int option"
  la_limit :: nat
  la_offset :: nat
  la_json :: bool

datatype history_command =
    History_List list_args
  | History_Show string string "string list"
  | History_Delete string string
  | History_Prune string "nat option" "int option" bool bool \<comment> \<open>database, keep last, older than, preserve high, dry run\<close>

definition database_at :: "command_world \<Rightarrow> string \<Rightarrow> command_state \<Rightarrow> database" where
  "database_at w path st = kw_tables w (if path = '':memory:'' then None else ks_files st path)"

definition keep_database :: "command_world \<Rightarrow> string \<Rightarrow> database \<Rightarrow> command_state \<Rightarrow> command_state" where
  \<comment> \<open>the file after its tables became these\<close>
  "keep_database w path db st =
     (if path = '':memory:'' then st
      else st\<lparr>ks_files := (ks_files st)(path := kw_image w (ks_files st path) db)\<rparr>)"

definition open_database :: "command_world \<Rightarrow> string \<Rightarrow> command_state \<Rightarrow> (app_error + database) \<times> command_state" where
  \<comment> \<open>the function \<open>open_storage\<close> of the command line\<close>
  "open_database w path st =
     (case open_storage (kw_storage w) (database_at w path st) of (e, db) \<Rightarrow>
        let st = keep_database w path db st
        in case e of Some m \<Rightarrow> (Inl (app_error_new m EXIT_SCAN_FAILED), st) | None \<Rightarrow> (Inr db, st))"

definition summary_line :: "scan_summary \<Rightarrow> string" where
  "summary_line s = concat
     [sum_scan_id s, ''  '', show_int (sum_started_at s), ''  '', sum_status s, ''  '', sum_normalized_target s, ''  high='',
      show_nat (sum_high_findings s), '' critical='', show_nat (sum_critical_findings s), newline]"

definition list_command :: "command_world \<Rightarrow> list_args \<Rightarrow> command_state \<Rightarrow> app_error option \<times> command_state" where
  "list_command w args st =
     (case open_database w (la_database args) st of
        (Inl e, st) \<Rightarrow> (Some e, st)
      | (Inr db, st) \<Rightarrow>
          (case history (kw_storage w)
                 \<lparr>hf_target = la_target args, hf_status = la_status args, hf_minimum_severity = map_option filter_severity (la_severity args),
                  hf_started_after = la_started_after args, hf_started_before = la_started_before args, hf_offset = la_offset args,
                  hf_limit = la_limit args\<rparr> db of
             Inl e \<Rightarrow> (Some (app_error_new e EXIT_SCAN_FAILED), st)
           | Inr page \<Rightarrow>
               if la_json args then
                 (case kw_history_json w page of
                    Some text \<Rightarrow> (None, say (text @ newline) st)
                  | None \<Rightarrow> (Some (app_error_new (''could not serialize history: '' @ kw_serde_error w) EXIT_SCAN_FAILED), st))
               else (None, say (concat (map summary_line page)) st)))"

definition load_scan :: "command_world \<Rightarrow> string \<Rightarrow> database \<Rightarrow> app_error + scan_report" where
  "load_scan w scan_id db =
     (case load_report (kw_storage w) scan_id db of
        Inl e \<Rightarrow> Inl (app_error_new e EXIT_SCAN_FAILED)
      | Inr None \<Rightarrow> Inl (app_error_new (concat [''scan '', scan_id, '' was not found'']) EXIT_INVALID_INPUT)
      | Inr (Some report) \<Rightarrow> Inr report)"

definition show_command :: "command_world \<Rightarrow> string \<Rightarrow> string \<Rightarrow> string list \<Rightarrow> command_state \<Rightarrow> command_result" where
  "show_command w scan_id path outputs st =
     (case build_output_specs outputs Output_HistoryShow of
        Inl e \<Rightarrow> Some (Some e, st)
      | Inr specs \<Rightarrow>
          (case open_database w path st of
             (Inl e, st) \<Rightarrow> Some (Some e, st)
           | (Inr db, st) \<Rightarrow>
               (case load_scan w scan_id db of
                  Inl e \<Rightarrow> Some (Some e, st)
                | Inr report \<Rightarrow>
                    (case render_all (\<lambda>format. Some (render_report w report format)) specs of
                       None \<Rightarrow> None
                     | Some (Inl e) \<Rightarrow> Some (Some e, st)
                     | Some (Inr rendered) \<Rightarrow>
                         publish w specs rendered (render_terminal (rx_time (kw_texts w)) report) (''scan-'' @ scan_id)
                           (render_html (kw_texts w) report) st))))"

definition delete_command :: "command_world \<Rightarrow> string \<Rightarrow> string \<Rightarrow> command_state \<Rightarrow> app_error option \<times> command_state" where
  "delete_command w scan_id path st =
     (case open_database w path st of
        (Inl e, st) \<Rightarrow> (Some e, st)
      | (Inr db, st) \<Rightarrow>
          (case delete_scan (kw_storage w) scan_id db of
             Inl e \<Rightarrow> (Some (app_error_new e EXIT_SCAN_FAILED), st)
           | Inr (deleted, db) \<Rightarrow>
               let st = keep_database w path db st
               in if \<not> deleted then (Some (app_error_new (concat [''scan '', scan_id, '' was not found'']) EXIT_INVALID_INPUT), st)
                  else (None, say (concat [''deleted '', scan_id, newline]) st)))"

definition prune_command ::
    "command_world \<Rightarrow> string \<Rightarrow> nat option \<Rightarrow> int option \<Rightarrow> bool \<Rightarrow> bool \<Rightarrow> command_state \<Rightarrow> app_error option \<times> command_state" where
  "prune_command w path keep_last older_than preserve_high dry_run st =
     (case open_database w path st of
        (Inl e, st) \<Rightarrow> (Some e, st)
      | (Inr db, st) \<Rightarrow>
          (case prune (kw_storage w)
                 \<lparr>pol_keep_last = keep_last, pol_older_than = older_than, pol_preserve_high = preserve_high, pol_dry_run = dry_run\<rparr> db of
             Inl e \<Rightarrow> (Some (app_error_new e EXIT_INVALID_INPUT), st)
           | Inr (result, db) \<Rightarrow>
               (None, complain (concat [''surface: '', (if ret_deleted result then ''deleted'' else ''would delete''), '' '',
                    show_nat (length (ret_scan_ids result)), '' scan(s)'', newline])
                  (say (concat (map (\<lambda>scan_id. scan_id @ newline) (ret_scan_ids result)))
                    (keep_database w path db st)))))"

fun run_history_command :: "command_world \<Rightarrow> history_command \<Rightarrow> command_state \<Rightarrow> command_result" where
  "run_history_command w (History_List args) st = Some (list_command w args st)"
| "run_history_command w (History_Show scan_id path outputs) st = show_command w scan_id path outputs st"
| "run_history_command w (History_Delete scan_id path) st = Some (delete_command w scan_id path st)"
| "run_history_command w (History_Prune path keep_last older_than preserve_high dry_run) st =
     Some (prune_command w path keep_last older_than preserve_high dry_run st)"

section \<open>The comparison\<close>

record diff_args =
  da_old :: string
  da_new :: string
  da_database :: "string option"
  da_output :: "string list"

definition load_stored_pair ::
    "command_world \<Rightarrow> string \<Rightarrow> string \<Rightarrow> string \<Rightarrow> command_state \<Rightarrow> (app_error + scan_report \<times> scan_report) \<times> command_state" where
  "load_stored_pair w path old new st =
     (case kw_parse_uuid w old of
        None \<Rightarrow> (Inl (app_error_new ''old scan ID is invalid'' EXIT_INVALID_INPUT), st)
      | Some old_id \<Rightarrow>
          (case kw_parse_uuid w new of
             None \<Rightarrow> (Inl (app_error_new ''new scan ID is invalid'' EXIT_INVALID_INPUT), st)
           | Some new_id \<Rightarrow>
               (case open_database w path st of
                  (Inl e, st) \<Rightarrow> (Inl e, st)
                | (Inr db, st) \<Rightarrow>
                    (case load_scan w old_id db of
                       Inl e \<Rightarrow> (Inl e, st)
                     | Inr a \<Rightarrow> (case load_scan w new_id db of Inl e \<Rightarrow> (Inl e, st) | Inr b \<Rightarrow> (Inr (a, b), st))))))"

definition load_file_pair :: "command_world \<Rightarrow> string \<Rightarrow> string \<Rightarrow> command_state \<Rightarrow> app_error + scan_report \<times> scan_report" where
  "load_file_pair w old new st =
     (case load_report_file w old (ks_files st) of
        Inl e \<Rightarrow> Inl e
      | Inr a \<Rightarrow> (case load_report_file w new (ks_files st) of Inl e \<Rightarrow> Inl e | Inr b \<Rightarrow> Inr (a, b)))"

definition run_diff_command :: "command_world \<Rightarrow> diff_args \<Rightarrow> command_state \<Rightarrow> command_result" where
  "run_diff_command w args st =
     (case build_output_specs (da_output args) Output_Diff of
        Inl e \<Rightarrow> Some (Some e, st)
      | Inr specs \<Rightarrow>
          (case (case da_database args of
                   Some path \<Rightarrow> load_stored_pair w path (da_old args) (da_new args) st
                 | None \<Rightarrow> (load_file_pair w (da_old args) (da_new args) st, st)) of
             (Inl e, st) \<Rightarrow> Some (Some e, st)
           | (Inr (old, new), st) \<Rightarrow>
               (case diff_reports (kw_serde w) old new of
                  Inl e \<Rightarrow> Some (Some (app_error_new e EXIT_INVALID_INPUT), st)
                | Inr d \<Rightarrow>
                    (case render_all (render_diff_output w d) specs of
                       None \<Rightarrow> None
                     | Some (Inl e) \<Rightarrow> Some (Some e, st)
                     | Some (Inr rendered) \<Rightarrow>
                         publish w specs rendered (render_diff_terminal d) ''diff'' (render_diff_html d) st))))"

section \<open>Dispatch\<close>

datatype command =
    Cmd_Diff diff_args | Cmd_History history_command | Cmd_Report report_command | Cmd_Database database_command | Cmd_Version
  | Cmd_Completion string

fun run_command :: "command_world \<Rightarrow> command \<Rightarrow> command_state \<Rightarrow> command_result" where
  \<comment> \<open>the function \<open>run\<close>; its branch for the scan is \<open>run_scan_command\<close>\<close>
  "run_command w (Cmd_Diff args) st = run_diff_command w args st"
| "run_command w (Cmd_History cmd) st = run_history_command w cmd st"
| "run_command w (Cmd_Report cmd) st = Some (run_report_command w cmd st)"
| "run_command w (Cmd_Database cmd) st = Some (run_database_command w cmd st)"
| "run_command w Cmd_Version st = Some (None, say (concat [''surface '', kw_version w, newline]) st)"
| "run_command w (Cmd_Completion shell) st = Some (None, say (kw_completion w shell) st)"

definition main_command :: "command_world \<Rightarrow> command \<Rightarrow> command_state \<Rightarrow> (nat \<times> command_state) option" where
  \<comment> \<open>the end of \<open>main\<close>: the exit code\<close>
  "main_command w cmd st =
     (case run_command w cmd st of
        None \<Rightarrow> None
      | Some (None, st) \<Rightarrow> Some (0, st)
      | Some (Some e, st) \<Rightarrow> Some (app_exit_code e, complain (concat [''surface: '', app_message e, newline]) st))"

end
