(* ===== verification/Command_Props.thy ===== *)
theory Command_Props
  imports Cli_Commands
begin

text \<open>
  What the commands of \<^verbatim>\<open>crates/surface-cli/src/main.rs\<close> other than the scan promise: they return with an error code of
  their own, leave files alone that they were not asked to write, verify what they signed, and show what was stored.
\<close>

section \<open>Return and exit codes\<close>

definition fails_well :: "app_error option \<Rightarrow> bool" where
  \<comment> \<open>an error is one of input or of the operation, never of high findings\<close>
  "fails_well e \<longleftrightarrow> (case e of None \<Rightarrow> True | Some e \<Rightarrow> app_exit_code e \<in> {EXIT_INVALID_INPUT, EXIT_SCAN_FAILED})"

lemma fails_well_simps [simp]:
  "fails_well None"
  "fails_well (Some (app_error_new m EXIT_INVALID_INPUT))" "fails_well (Some (app_error_new m EXIT_SCAN_FAILED))"
  by (simp_all add: fails_well_def app_error_new_def)

lemma read_bounded_fails: "read_bounded w path n fs = Inl e \<Longrightarrow> fails_well (Some e)"
  by (auto simp: read_bounded_def Let_def split: option.splits if_splits)

lemma load_report_file_fails: "load_report_file w path fs = Inl e \<Longrightarrow> fails_well (Some e)"
  by (auto simp: load_report_file_def Let_def split: option.splits if_splits)

lemma private_key_fails: "ensure_private_key_permissions w path fs = Inl e \<Longrightarrow> fails_well (Some e)"
  by (auto simp: ensure_private_key_permissions_def Let_def split: option.splits if_splits)

lemma write_output_fails: "write_output_file w path text st = (e, st') \<Longrightarrow> fails_well e"
  by (auto simp: write_output_file_def split: option.splits)

lemma open_database_fails: "open_database w path st = (Inl e, st') \<Longrightarrow> fails_well (Some e)"
  by (auto simp: open_database_def Let_def split: prod.splits option.splits)

lemma load_scan_fails: "load_scan w i db = Inl e \<Longrightarrow> fails_well (Some e)"
  by (auto simp: load_scan_def split: sum.splits option.splits)

lemma render_report_fails: "render_report w report format = Inl e \<Longrightarrow> fails_well (Some e)"
  by (auto simp: render_report_def split: option.splits)

lemma render_diff_fails: "render_diff_output w d format = Some (Inl e) \<Longrightarrow> fails_well (Some e)"
  by (auto simp: render_diff_output_def split: option.splits report_format.splits)

lemma first_format_error_fails: "first_format_error specs = Some e \<Longrightarrow> fails_well (Some e)"
  by (induction specs) (auto simp: ensure_diff_output_format_def split: if_splits sum.splits)

lemma build_specs_fails: "build_output_specs paths c = Inl e \<Longrightarrow> fails_well (Some e)"
  by (auto simp: build_output_specs_def Let_def dest: first_format_error_fails split: if_splits option.splits)

lemma render_all_fails:
  "render_all render specs = Some (Inl e) \<Longrightarrow> (\<And>format e. render format = Some (Inl e) \<Longrightarrow> fails_well (Some e)) \<Longrightarrow> fails_well (Some e)"
proof (induction specs arbitrary: e)
  case (Cons spec specs)
  have "map_sum id ((#) t) z = Inl e \<longleftrightarrow> z = Inl e" for t :: string and z :: "app_error + string list"
    by (cases z) simp_all
  with Cons show ?case by (cases "render (os_format spec)") (auto split: sum.splits)
qed simp

lemmas command_fails =
  read_bounded_fails load_report_file_fails private_key_fails open_database_fails load_scan_fails build_specs_fails

section \<open>Files\<close>

definition spared :: "string set \<Rightarrow> files \<Rightarrow> files \<Rightarrow> bool" where
  \<comment> \<open>existing files, the named ones aside, are what they were\<close>
  "spared named fs fs' \<longleftrightarrow> (\<forall>p. p \<notin> named \<longrightarrow> fs p \<noteq> None \<longrightarrow> fs' p = fs p)"

lemma spared_refl [simp]: "spared named fs fs" by (simp add: spared_def)

lemma spared_trans: "spared named fs fs' \<Longrightarrow> spared named fs' fs'' \<Longrightarrow> spared named fs fs''"
  by (simp add: spared_def)

lemma spared_upd: "path \<in> named \<Longrightarrow> spared named fs (fs(path := c))"
  by (auto simp: spared_def)

definition orderly :: "string set \<Rightarrow> command_state \<Rightarrow> app_error option \<times> command_state \<Rightarrow> bool" where
  \<comment> \<open>a result whose error is well coded and that spares the other files\<close>
  "orderly named st r \<longleftrightarrow> fails_well (fst r) \<and> spared named (ks_files st) (ks_files (snd r))"

lemma orderly_I: "fails_well e \<Longrightarrow> spared named (ks_files st) (ks_files st') \<Longrightarrow> orderly named st (e, st')"
  by (simp add: orderly_def)

lemma orderly_after: "spared named (ks_files st) (ks_files st') \<Longrightarrow> orderly named st' r \<Longrightarrow> orderly named st r"
  by (auto simp: orderly_def intro: spared_trans)

lemma say_files [simp]: "ks_files (say t st) = ks_files st"
  and complain_files [simp]: "ks_files (complain t st) = ks_files st"
  by (simp_all add: say_def complain_def)

lemma warn_files [simp]: "ks_files (warn_unrecognized_extension spec st) = ks_files st"
  by (simp add: warn_unrecognized_extension_def split: option.split)

lemma keep_database_spares: "path \<in> named \<Longrightarrow> spared named (ks_files st) (ks_files (keep_database w path db st))"
  by (simp add: keep_database_def spared_upd)

lemma keep_database_finite [simp]:
  "finite (dom (ks_files st)) \<Longrightarrow> finite (dom (ks_files (keep_database w path db st)))"
  by (auto simp: keep_database_def intro: finite_subset [of _ "insert path (dom (ks_files st))"] split: if_splits)

lemma open_database_keeps:
  "open_database w path st = (r, st') \<Longrightarrow> \<exists>db. st' = keep_database w path db st"
  by (auto simp: open_database_def Let_def split: prod.splits option.splits)

lemma open_database_spares: "open_database w path st = (r, st') \<Longrightarrow> path \<in> named \<Longrightarrow> spared named (ks_files st) (ks_files st')"
  by (auto dest!: open_database_keeps intro: keep_database_spares)

lemma open_keep_spares:
  "open_database w path st = (r, st') \<Longrightarrow> path \<in> named \<Longrightarrow> spared named (ks_files st) (ks_files (keep_database w path db st'))"
  by (blast intro: spared_trans open_database_spares keep_database_spares)

lemma write_output_orderly: "path \<in> named \<Longrightarrow> orderly named st (write_output_file w path text st)"
  by (auto simp: write_output_file_def spared_upd intro!: orderly_I split: option.split)

lemma write_all_orderly:
  "os_path ` fst ` set outputs \<subseteq> named \<Longrightarrow> orderly named st (write_all w outputs st)"
proof (induction w outputs st rule: write_all.induct)
  case (2 w spec t outputs st)
  let ?st = "warn_unrecognized_extension spec st"
  obtain e st' where w: "write_output_file w (os_path spec) t ?st = (e, st')" by fastforce
  have first: "orderly named ?st (e, st')" using write_output_orderly [of "os_path spec" named ?st w t] 2(2) w by simp
  then show ?case
  proof (cases e)
    case None
    with 2 w have "orderly named st' (write_all w outputs st')" by simp
    with first have "orderly named st (write_all w outputs st')" by (auto simp: orderly_def intro: spared_trans)
    with None w show ?thesis by simp
  next
    case (Some error)
    with first w show ?thesis by (simp add: orderly_def)
  qed
qed (simp add: orderly_def)

lemma write_default_orderly:
  assumes "finite (dom (ks_files st))"
  shows "\<exists>r. write_default_html_file w stem rendered st = Some r \<and> orderly named st r"
proof -
  let ?path = "default_html_path_for_suffix ''.'' stem (kw_date w)" and ?faults = "kw_faults w"
  obtain n where n: "write_default_html_file_at ?faults ''.'' stem (kw_date w) rendered (ks_files st) =
      Some (write_default_at ?faults (?path n) rendered (ks_files st))"
    and fresh: "?path n \<notin> dom (ks_files st) \<or> ff_create ?faults (?path n) \<noteq> None"
    using write_default_returns [OF assms default_path_inj] unfolding write_default_html_file_at_def by blast
  then show ?thesis
    by (auto simp: write_default_html_file_def write_default_at_def orderly_def spared_def domIff split: option.splits)
qed

lemma publish_orderly:
  assumes "finite (dom (ks_files st))" "os_path ` set specs \<subseteq> named"
  shows "\<exists>r. publish w specs rendered terminal stem html st = Some r \<and> orderly named st r"
proof (cases "specs = []")
  case True
  with write_default_orderly [of "say terminal st" w stem html named] assms(1) show ?thesis
    by (auto simp: publish_def orderly_def)
next
  case False
  have "os_path ` fst ` set (zip specs rendered) \<subseteq> named" using assms(2) set_zip_leftD [of _ _ specs rendered] by fastforce
  from write_all_orderly [OF this, of "say terminal st" w] False show ?thesis by (simp add: publish_def orderly_def)
qed

lemma render_all_total:
  "(\<And>spec. spec \<in> set specs \<Longrightarrow> render (os_format spec) \<noteq> None) \<Longrightarrow> render_all render specs \<noteq> None"
  by (induction specs) (auto split: option.splits sum.splits)

lemma diff_renders:
  assumes "build_output_specs paths Output_Diff = Inr specs" "spec \<in> set specs"
  shows "render_diff_output w d (os_format spec) \<noteq> None"
proof -
  have "first_format_error specs = None \<Longrightarrow> os_format spec \<notin> {Format_Sarif, Format_CyclonedxJson}"
    using assms(2) by (induction specs) (auto simp: ensure_diff_output_format_def split: if_splits)
  moreover from assms(1) have "first_format_error specs = None"
    by (auto simp: build_output_specs_def Let_def split: option.splits)
  ultimately show ?thesis by (auto simp: render_diff_output_def split: report_format.splits option.splits)
qed

lemma built_specs: "build_output_specs paths c = Inr specs \<Longrightarrow> specs = map output_spec_of paths"
  by (auto simp: build_output_specs_def Let_def split: if_splits option.splits)

section \<open>Every command\<close>

fun named_files :: "command_world \<Rightarrow> command \<Rightarrow> string set" where
  \<comment> \<open>the outputs and the database named on the command line, and the temporary names beside it\<close>
  "named_files w (Cmd_Diff args) = os_path ` output_spec_of ` set (da_output args) \<union> set_option (da_database args)"
| "named_files w (Cmd_History (History_List args)) = {la_database args}"
| "named_files w (Cmd_History (History_Show scan_id path outputs)) = os_path ` output_spec_of ` set outputs \<union> {path}"
| "named_files w (Cmd_History (History_Delete scan_id path)) = {path}"
| "named_files w (Cmd_History (History_Prune path keep_last older_than preserve_high dry_run)) = {path}"
| "named_files w (Cmd_Report (Report_Sign report key signature)) = {signature}"
| "named_files w (Cmd_Database (Db_Backup path out)) = {sibling_temporary (kw_backup w) out ''backup''}"
| "named_files w (Cmd_Database (Db_Restore path input)) =
     {path, restore_path (kw_backup w) path, previous_path (kw_backup w) path}"
| "named_files w cmd = {}"

lemma render_publish_orderly:
  assumes "finite (dom (ks_files st))" "os_path ` set specs \<subseteq> named" "render_all render specs \<noteq> None"
    and "\<And>format e. render format = Some (Inl e) \<Longrightarrow> fails_well (Some e)"
  shows "\<exists>r. (case render_all render specs of None \<Rightarrow> None | Some (Inl e) \<Rightarrow> Some (Some e, st)
      | Some (Inr rendered) \<Rightarrow> publish w specs rendered terminal stem html st) = Some r \<and> orderly named st r"
proof -
  from assms(3) obtain r where r: "render_all render specs = Some r" by blast
  show ?thesis
  proof (cases r)
    case (Inl e)
    with r render_all_fails [of render specs e] assms(4) show ?thesis by (simp add: orderly_def)
  next
    case (Inr rendered)
    with r publish_orderly [OF assms(1,2)] show ?thesis by simp
  qed
qed

lemma show_orderly:
  assumes "finite (dom (ks_files st))"
  shows "\<exists>r. show_command w scan_id path outputs st = Some r \<and> orderly (os_path ` output_spec_of ` set outputs \<union> {path}) st r"
proof (cases "build_output_specs outputs Output_HistoryShow")
  case (Inl e)
  then show ?thesis by (simp add: show_command_def orderly_def command_fails)
next
  case (Inr specs)
  let ?named = "os_path ` output_spec_of ` set outputs \<union> {path}"
  from Inr have specs: "os_path ` set specs \<subseteq> ?named" by (auto dest: built_specs)
  obtain q st' where o: "open_database w path st = (q, st')" by fastforce
  then have fs: "spared ?named (ks_files st) (ks_files st')" by (rule open_database_spares) simp
  from o have fin: "finite (dom (ks_files st'))" using assms by (auto dest!: open_database_keeps)
  show ?thesis
  proof (cases q)
    case (Inl e)
    with Inr o fs show ?thesis by (simp add: show_command_def orderly_def command_fails)
  next
    case db: (Inr db)
    show ?thesis
    proof (cases "load_scan w scan_id db")
      case (Inl e)
      with Inr o fs db show ?thesis by (simp add: show_command_def orderly_def command_fails)
    next
      case report: (Inr report)
      have "render_all (\<lambda>format. Some (render_report w report format)) specs \<noteq> None" by (rule render_all_total) simp
      from render_publish_orderly [OF fin specs this, of w] Inr o db report
      have "\<exists>r. show_command w scan_id path outputs st = Some r \<and> orderly ?named st' r"
        by (simp add: show_command_def render_report_fails del: split_paired_Ex)
      with orderly_after [OF fs] show ?thesis by blast
    qed
  qed
qed

lemma loaded_pair:
  assumes "(case da_database args of Some path \<Rightarrow> load_stored_pair w path (da_old args) (da_new args) st
      | None \<Rightarrow> (load_file_pair w (da_old args) (da_new args) st, st)) = (q, st')"
  shows "(st' = st \<or> (\<exists>path db. da_database args = Some path \<and> st' = keep_database w path db st)) \<and>
    (\<forall>e. q = Inl e \<longrightarrow> fails_well (Some e))"
  using assms
  by (auto simp: load_stored_pair_def load_file_pair_def command_fails dest: open_database_keeps
      split: option.splits sum.splits prod.splits)

lemma diff_orderly:
  assumes "finite (dom (ks_files st))"
  shows "\<exists>r. run_diff_command w args st = Some r \<and>
    orderly (os_path ` output_spec_of ` set (da_output args) \<union> set_option (da_database args)) st r"
proof (cases "build_output_specs (da_output args) Output_Diff")
  case (Inl e)
  then show ?thesis by (simp add: run_diff_command_def orderly_def command_fails)
next
  case (Inr specs)
  let ?named = "os_path ` output_spec_of ` set (da_output args) \<union> set_option (da_database args)"
  from Inr have specs: "os_path ` set specs \<subseteq> ?named" by (auto dest: built_specs)
  obtain q st' where o: "(case da_database args of Some path \<Rightarrow> load_stored_pair w path (da_old args) (da_new args) st
      | None \<Rightarrow> (load_file_pair w (da_old args) (da_new args) st, st)) = (q, st')" by fastforce
  from loaded_pair [OF o] assms have fs: "spared ?named (ks_files st) (ks_files st')" and fin: "finite (dom (ks_files st'))"
    by (auto intro: keep_database_spares)
  show ?thesis
  proof (cases q)
    case (Inl e)
    with Inr o loaded_pair [OF o] fs show ?thesis by (simp add: run_diff_command_def orderly_def)
  next
    case pair: (Inr pair)
    obtain old new where p: "pair = (old, new)" by fastforce
    show ?thesis
    proof (cases "diff_reports (kw_serde w) old new")
      case (Inl e)
      with Inr o fs pair p show ?thesis by (simp add: run_diff_command_def orderly_def)
    next
      case d: (Inr d)
      have "render_all (render_diff_output w d) specs \<noteq> None"
        by (rule render_all_total) (rule diff_renders [OF Inr])
      from render_publish_orderly [OF fin specs this, of w] Inr o pair p d
      have "\<exists>r. run_diff_command w args st = Some r \<and> orderly ?named st' r"
        by (simp add: run_diff_command_def render_diff_fails del: split_paired_Ex)
      with orderly_after [OF fs] show ?thesis by blast
    qed
  qed
qed

lemma sign_orderly: "orderly {signature} st (sign_command w report key signature st)"
  by (auto simp: sign_command_def orderly_I command_fails write_output_orderly split: sum.splits option.splits)

lemma verify_orderly: "orderly {} st (verify_command w report signature public_key st)"
  by (auto simp: verify_command_def orderly_I command_fails split: sum.splits option.splits)

lemma list_orderly: "orderly {la_database args} st (list_command w args st)"
  by (auto simp: list_command_def orderly_I command_fails open_database_spares split: sum.splits option.splits prod.splits)

lemma delete_orderly: "orderly {path} st (delete_command w scan_id path st)"
  by (auto simp: delete_command_def orderly_I command_fails open_database_spares open_keep_spares Let_def
      split: sum.splits prod.splits)

lemma prune_orderly: "orderly {path} st (prune_command w path keep_last older_than preserve_high dry_run st)"
  by (auto simp: prune_command_def orderly_I command_fails open_database_spares open_keep_spares split: sum.splits prod.splits)

lemma database_orderly: "orderly (named_files w (Cmd_Database cmd)) st (run_database_command w cmd st)"
proof -
  have "spared (named_files w (Cmd_Database cmd)) fs (snd (database_operation (kw_backup w) cmd fs))" for fs
    by (cases cmd) (auto simp: spared_def verify_unchanged intro!: restore_frame backup_frame)
  from this [of "ks_files st"] show ?thesis
    by (auto simp: orderly_def run_database_command_def split: sum.splits prod.splits)
qed

lemma command_orderly:
  assumes "finite (dom (ks_files st))"
  shows "\<exists>r. run_command w cmd st = Some r \<and> orderly (named_files w cmd) st r"
proof (cases cmd)
  case (Cmd_Diff args)
  then show ?thesis using diff_orderly [OF assms, of w args] by (simp del: split_paired_Ex)
next
  case (Cmd_History c)
  show ?thesis
  proof (cases c)
    case (History_Show scan_id path outputs)
    with Cmd_History show ?thesis using show_orderly [OF assms, of w scan_id path outputs] by (simp del: split_paired_Ex)
  qed (simp_all add: Cmd_History list_orderly delete_orderly prune_orderly)
next
  case (Cmd_Report c)
  then show ?thesis by (cases c) (simp_all add: sign_orderly verify_orderly)
qed (simp_all add: database_orderly orderly_I del: named_files.simps(7,8))

text \<open>
  C13: Every command but the scan returns, and its exit code is 0, that of invalid input or that of a failed operation: the
  search for a free file name ends, the branch of the code that would panic is never reached, and exit code 2 is left to the scan.
\<close>

theorem commands_return:
  assumes "finite (dom (ks_files st))"
  shows "\<exists>code st'. main_command w cmd st = Some (code, st') \<and> code \<in> {0, EXIT_INVALID_INPUT, EXIT_SCAN_FAILED}"
proof -
  obtain e st' where "run_command w cmd st = Some (e, st')" "orderly (named_files w cmd) st (e, st')"
    using command_orderly [OF assms, of w cmd] by (metis surj_pair)
  then show ?thesis by (cases e) (auto simp: main_command_def orderly_def fails_well_def)
qed

text \<open>
  C14: No command overwrites, removes or changes a file it was not told to write, whatever fails: an existing file is what it
  was after every command but the scan, unless it is one of the outputs named on the command line, the database named there
  (which opening migrates and \<open>delete\<close> and \<open>prune\<close> change), or, for \<open>database backup\<close> and \<open>restore\<close>, the restored database or a
  temporary name beside the database. The file an export writes under a default name, and a published backup, did not exist.
\<close>

theorem commands_spare_files:
  assumes "main_command w cmd st = Some (code, st')" "finite (dom (ks_files st))"
    and "ks_files st path = Some contents" "path \<notin> named_files w cmd"
  shows "ks_files st' path = Some contents"
proof -
  obtain e st1 where r: "run_command w cmd st = Some (e, st1)" "orderly (named_files w cmd) st (e, st1)"
    using command_orderly [OF assms(2), of w cmd] by (metis surj_pair)
  with assms(1) have "ks_files st' = ks_files st1" by (auto simp: main_command_def split: option.splits)
  with r(2) assms(3,4) show ?thesis by (simp add: orderly_def spared_def)
qed

section \<open>Signing, then verifying\<close>

lemma read_bounded_Inr:
  "read_bounded w path n fs = Inr v \<longleftrightarrow>
     fs path = Some v \<and> kw_stat_error w path = None \<and> length v \<le> n \<and> kw_read_error w path = None"
  by (auto simp: read_bounded_def Let_def split: option.splits)

text \<open>
  C12: What \<open>report sign\<close> accepted \<open>report verify\<close> accepts: after a successful signature, verification with the hexadecimal text
  of the public key that belongs to the private key reports a valid signature, when the signature file can be read back, is no
  larger than its bound and is not the report itself.
\<close>

theorem sign_then_verify:
  assumes "signing_laws (kw_signing w)"
    and "main_command w (Cmd_Report (Report_Sign report key signature)) st = Some (0, st')"
    and "ks_files st key = Some key_bytes" "decode_key 32 key_bytes = Some private_key"
    and "read_bounded w public_key 4096 (ks_files st') = Inr public_bytes"
      "decode_key 32 public_bytes = Some (sg_public_key (kw_signing w) private_key)"
    and "read_bounded w signature (64 * 1024) (ks_files st') = Inr envelope" "signature \<noteq> report"
  shows "main_command w (Cmd_Report (Report_Verify report signature public_key)) st' = Some (0, say (''signature valid'' @ newline) st')"
proof -
  have "sign_command w report key signature st = (None, st')"
    using assms(2) sign_orderly [of signature st w report key]
    by (auto simp: main_command_def orderly_def fails_well_def EXIT_INVALID_INPUT_def EXIT_SCAN_FAILED_def split: option.splits prod.splits)
  then obtain report_bytes envelope' where r: "read_bounded w report (16 * 1024 * 1024) (ks_files st) = Inr report_bytes"
    and e: "sign_bytes (kw_signing w) report_bytes private_key = Some envelope'"
    and st': "st' = st\<lparr>ks_files := (ks_files st)(signature \<mapsto> envelope')\<rparr>"
    using assms(3,4) by (auto simp: sign_command_def write_output_file_def read_bounded_Inr split: sum.splits option.splits)
  from assms(7) st' have "envelope' = envelope" by (simp add: read_bounded_Inr)
  with signature_roundtrip_lemma [OF assms(1) e]
  have v: "verify_bytes (kw_signing w) report_bytes envelope (sg_public_key (kw_signing w) private_key) = Inr ()" by simp
  from r assms(8) st' have "read_bounded w report (16 * 1024 * 1024) (ks_files st') = Inr report_bytes"
    by (simp add: read_bounded_Inr)
  with assms(5-7) v show ?thesis by (simp add: main_command_def verify_command_def)
qed

section \<open>Showing what was stored\<close>

lemma write_all_out: "write_all w outputs st = (e, st') \<Longrightarrow> ks_out st' = ks_out st"
proof (induction w outputs st arbitrary: e rule: write_all.induct)
  case (2 w spec t outputs st)
  have "ks_out (warn_unrecognized_extension spec st) = ks_out st"
    by (simp add: warn_unrecognized_extension_def complain_def split: option.split)
  moreover have "ks_out (snd (write_output_file w path t' st1)) = ks_out st1" for path t' st1
    by (simp add: write_output_file_def split: option.split)
  ultimately show ?case using 2
    by (auto split: prod.splits option.splits) (metis snd_conv)+
qed simp

lemma publish_out: "publish w specs rendered terminal stem html st = Some (e, st') \<Longrightarrow> ks_out st' = ks_out st @ terminal"
  by (auto simp: publish_def Let_def say_def write_default_html_file_def dest: write_all_out split: if_splits option.splits sum.splits)

lemma show_loaded:
  assumes "open_storage (kw_storage w) (database_at w path st) = (None, db)"
    and "load_report (kw_storage w) scan_id db = Inr (Some r)"
    and "\<And>format. \<exists>t. render_report w r format = Inr t" "finite (dom (ks_files st))"
  shows "\<exists>code st'. main_command w (Cmd_History (History_Show scan_id path outputs)) st = Some (code, st') \<and>
    ks_out st' = ks_out st @ render_terminal (rx_time (kw_texts w)) r"
proof -
  let ?specs = "map output_spec_of outputs" and ?st = "keep_database w path db st"
  have loaded: "load_scan w scan_id db = Inr r" using assms(2) by (simp add: load_scan_def)
  have opened: "open_database w path st = (Inr db, ?st)" using assms(1) by (simp add: open_database_def)
  obtain rendered where rendered: "render_all (\<lambda>format. Some (render_report w r format)) ?specs = Some (Inr rendered)"
  proof (induction outputs arbitrary: thesis)
    case (Cons o1 outputs)
    obtain t where "render_report w r (os_format (output_spec_of o1)) = Inr t" using assms(3) by blast
    with Cons show ?case by fastforce
  qed simp
  have "finite (dom (ks_files ?st))" using assms(4) by simp
  from publish_orderly [OF this subset_refl]
  obtain res where p: "publish w ?specs rendered (render_terminal (rx_time (kw_texts w)) r) (''scan-'' @ scan_id)
      (render_html (kw_texts w) r) ?st = Some res" by blast
  obtain e st' where res: "res = (e, st')" by fastforce
  with p opened loaded rendered
  have "run_command w (Cmd_History (History_Show scan_id path outputs)) st = Some (e, st')"
    by (simp add: show_command_def build_output_specs_def)
  with publish_out [OF p [unfolded res]] show ?thesis
    by (cases e) (auto simp: main_command_def complain_def keep_database_def)
qed

text \<open>
  C7: The history shows what was stored: whatever was stored, deleted or pruned after a report was persisted, as long as its
  scan is in the history, \<open>history show\<close> prints the terminal rendering of exactly that report, from a database file that holds
  these tables and whose migrations were applied.
\<close>

theorem history_shows_stored:
  assumes "store_wf db" "persist_report E r origin db = Inr db'" "store_serde E (kw_storage w) r"
    and "\<And>n. n \<le> length commands \<Longrightarrow> rep_scan_id r \<in> scan_ids (perform_all (take n commands) db')"
    and "database_at w path st = perform_all commands db'"
    and "open_storage (kw_storage w) (database_at w path st) = (None, database_at w path st)" "\<not> st_fails (kw_storage w) St_Select"
    and "\<And>format. \<exists>t. render_report w r format = Inr t" "finite (dom (ks_files st))"
  shows "\<exists>code st'. main_command w (Cmd_History (History_Show (rep_scan_id r) path outputs)) st = Some (code, st') \<and>
    ks_out st' = ks_out st @ render_terminal (rx_time (kw_texts w)) r"
proof (rule show_loaded [OF assms(6) _ assms(8,9)])
  show "load_report (kw_storage w) (rep_scan_id r) (database_at w path st) = Inr (Some r)"
    using stored_report_immutable [OF assms(1-3) assms(7) assms(4)] assms(5) by simp
qed

lemma restore_finite:
  assumes "finite (dom fs)"
  shows "finite (dom (snd (restore_database E path input fs)))"
proof (rule finite_subset)
  show "dom (snd (restore_database E path input fs)) \<subseteq> dom fs \<union> {path, restore_path E path, previous_path E path}"
    using restore_frame [of _ path E input fs] by (auto simp: dom_def)
qed (simp add: assms)

definition vacuum_keeps :: "command_world \<Rightarrow> bool" where
  \<comment> \<open>\<open>VACUUM\<close> writes the same tables into another file\<close>
  "vacuum_keeps w \<longleftrightarrow> (\<forall>contents. kw_tables w (Some (bk_vacuum (kw_backup w) contents)) = kw_tables w (Some contents))"

text \<open>
  C37: A restored history shows the scans of the backup: after \<open>database restore\<close> succeeded, \<open>history show\<close> on the restored
  database prints, for every scan whose report can be loaded from the tables of the backup file, the terminal rendering of
  exactly that report, where \<open>VACUUM\<close> keeps the tables.
\<close>

theorem restored_history_shown:
  assumes "vacuum_keeps w" "path \<noteq> '':memory:''"
    and "distinct [path, restore_path (kw_backup w) path, previous_path (kw_backup w) path]"
    and "main_command w (Cmd_Database (Db_Restore path input)) st = Some (0, st1)"
    and "open_storage (kw_storage w) (kw_tables w (ks_files st input)) = (None, db)"
    and "load_report (kw_storage w) scan_id db = Inr (Some r)"
    and "\<And>format. \<exists>t. render_report w r format = Inr t" "finite (dom (ks_files st))"
  shows "\<exists>code st2. main_command w (Cmd_History (History_Show scan_id path outputs)) st1 = Some (code, st2) \<and>
    ks_out st2 = ks_out st1 @ render_terminal (rx_time (kw_texts w)) r"
proof -
  from assms(4) obtain fs where r: "restore_database (kw_backup w) path input (ks_files st) = (Inr (), fs)"
    and st1: "st1 = st\<lparr>ks_files := fs\<rparr>"
    by (auto simp: main_command_def run_database_command_def app_error_new_def EXIT_SCAN_FAILED_def split: option.splits sum.splits prod.splits)
  from restore_installs [OF r assms(3)] obtain contents
    where "ks_files st input = Some contents" "fs path = Some (bk_vacuum (kw_backup w) contents)" by blast
  with assms(1,2,5) st1 have "open_storage (kw_storage w) (database_at w path st1) = (None, db)"
    by (simp add: database_at_def vacuum_keeps_def)
  moreover have "finite (dom (ks_files st1))"
    using restore_finite [OF assms(8), of "kw_backup w" path input] r st1 by simp
  ultimately show ?thesis using show_loaded assms(6,7) by blast
qed

section \<open>Instances\<close>

definition migrated_database :: database where
  "migrated_database = empty_database\<lparr>db_versions := [(1, 0), (2, 0), (3, 0)]\<rparr>"

definition stored_database :: database where
  "stored_database = perform_all [(plain_storage, Do_Persist sample_report ''cli'')] migrated_database"

definition plain_world :: command_world where
  \<comment> \<open>a file with the contents \<open>h\<close> is a history of one scan\<close>
  "plain_world = \<lparr>kw_storage = plain_storage, kw_tables = (\<lambda>c. if c = Some ''h'' then stored_database else migrated_database),
     kw_image = (\<lambda>_ db. if db_scans db = [] then Some ''m'' else Some ''h''),
     kw_backup = plain_backup no_call_fails, kw_signing = plain_scheme,
     kw_serde = \<lparr>sd_to_string = (\<lambda>_. ''text''), sd_dns_record = (\<lambda>_. ''record''), sd_finding = fnd_id, sd_mail = (\<lambda>_. J_Null),
       sd_intelligence = (\<lambda>_. J_Null)\<rparr>,
     kw_texts = \<lparr>rx_time = show_int, rx_record = (\<lambda>_. ''record'')\<rparr>, kw_ssh_debug = (\<lambda>_. ''ssh''), kw_pretty = (\<lambda>_. Some ''{}''),
     kw_report_json = (\<lambda>r. Some (rep_scan_id r)), kw_diff_json = (\<lambda>_. Some ''{}''), kw_history_json = (\<lambda>_. Some ''[]''),
     kw_read_report = (\<lambda>t. Some (sample_report\<lparr>rep_scan_id := t\<rparr>)), kw_parse_uuid = Some, kw_stat_error = (\<lambda>_. None),
     kw_read_error = (\<lambda>_. None), kw_missing = ''not found'', kw_mode = (\<lambda>_. 0x180), kw_serde_error = ''error'', kw_version = ''0'',
     kw_completion = (\<lambda>shell. shell), kw_write_error = (\<lambda>_. None), kw_faults = \<lparr>ff_create = (\<lambda>_. None), ff_write = (\<lambda>_. None)\<rparr>,
     kw_date = ''2025-01-01''\<rparr>"

definition key_text :: string where
  "key_text = hex (replicate 32 (CHR ''k''))"

definition plain_state :: command_state where
  \<comment> \<open>a report, a private key and its public key, and a history of one scan\<close>
  "plain_state = \<lparr>ks_files = [''r'' \<mapsto> ''report'', ''k'' \<mapsto> key_text, ''p'' \<mapsto> key_text, ''h.db'' \<mapsto> ''h''],
     ks_out = [], ks_err = []\<rparr>"

lemma plain_files: "finite (dom (ks_files plain_state))"
  by (simp add: plain_state_def)

lemma commands_return_witness:
  "\<exists>code st'. main_command plain_world (Cmd_Diff \<lparr>da_old = ''r'', da_new = ''k'', da_database = None, da_output = [''d.json'']\<rparr>) plain_state =
     Some (code, st') \<and> code \<in> {0, EXIT_INVALID_INPUT, EXIT_SCAN_FAILED}"
  by (rule commands_return [OF plain_files])

lemma commands_spare_files_witness:
  "\<exists>code st'. main_command plain_world (Cmd_History (History_Delete ''id'' ''h.db'')) plain_state = Some (code, st') \<and>
     ks_files st' ''r'' = Some ''report'' \<and> ks_files st' ''h.db'' \<noteq> ks_files plain_state ''h.db''"
proof -
  let ?delete = "Cmd_History (History_Delete ''id'' ''h.db'')"
  have "case main_command plain_world ?delete plain_state of None \<Rightarrow> False | Some (code, st') \<Rightarrow> ks_files st' ''h.db'' = Some ''m''"
    by code_simp
  then obtain code st' where m: "main_command plain_world ?delete plain_state = Some (code, st')" "ks_files st' ''h.db'' = Some ''m''"
    by (auto split: option.splits prod.splits)
  from commands_spare_files [OF m(1) plain_files, of "''r''"] m show ?thesis by (simp add: plain_state_def)
qed

lemma sign_then_verify_witness:
  "\<exists>st'. main_command plain_world (Cmd_Report (Report_Sign ''r'' ''k'' ''s'')) plain_state = Some (0, st') \<and>
     main_command plain_world (Cmd_Report (Report_Verify ''r'' ''s'' ''p'')) st' = Some (0, say (''signature valid'' @ newline) st')"
proof -
  have key: "decode_key 32 key_text = Some (replicate 32 (CHR ''k''))" "length key_text \<le> 4096" by code_simp+
  have world: "kw_signing plain_world = plain_scheme" "kw_stat_error plain_world path = None" "kw_read_error plain_world path = None"
    for path by (simp_all add: plain_world_def)
  obtain envelope where sign: "sign_bytes plain_scheme ''report'' (replicate 32 (CHR ''k'')) = Some envelope"
    and length: "length envelope \<le> 64 * 1024"
    by (simp add: sign_bytes_def plain_scheme_def Let_def plain_envelope_def)
  define st' where "st' = plain_state\<lparr>ks_files := (ks_files plain_state)(''s'' \<mapsto> envelope)\<rparr>"
  have "read_bounded plain_world ''k'' 4096 (ks_files plain_state) = Inr key_text"
    using key(2) by (simp add: read_bounded_Inr world plain_state_def)
  moreover have "read_bounded plain_world ''r'' 16777216 (ks_files plain_state) = Inr ''report''"
    by (simp add: read_bounded_Inr world plain_state_def)
  moreover have "ensure_private_key_permissions plain_world ''k'' (ks_files plain_state) = Inr ()"
    by (simp add: ensure_private_key_permissions_def world plain_state_def) (simp add: plain_world_def)
  ultimately have run: "main_command plain_world (Cmd_Report (Report_Sign ''r'' ''k'' ''s'')) plain_state = Some (0, st')"
    by (simp add: main_command_def sign_command_def key(1) world sign write_output_file_def st'_def)
      (simp add: plain_world_def)
  have "main_command plain_world (Cmd_Report (Report_Verify ''r'' ''s'' ''p'')) st' = Some (0, say (''signature valid'' @ newline) st')"
  proof (rule sign_then_verify [OF _ run _ key(1)])
    show "signing_laws (kw_signing plain_world)" by (simp add: world plain_scheme_laws)
    show "ks_files plain_state ''k'' = Some key_text" by (simp add: plain_state_def)
    show "read_bounded plain_world ''p'' 4096 (ks_files st') = Inr key_text" using key(2) by (simp add: read_bounded_Inr world st'_def plain_state_def)
    show "decode_key 32 key_text = Some (sg_public_key (kw_signing plain_world) (replicate 32 (CHR ''k'')))"
      by (simp only: key(1) world) (simp add: plain_scheme_def)
    show "read_bounded plain_world ''s'' (64 * 1024) (ks_files st') = Inr envelope" using length by (simp add: read_bounded_Inr world st'_def)
  qed simp
  with run show ?thesis by blast
qed

lemma plain_renders: "\<exists>t. render_report plain_world sample_report format = Inr t"
  by (cases format) (simp_all add: render_report_def plain_world_def render_sarif_def render_cyclonedx_def)

lemma history_shows_stored_witness:
  "\<exists>code st'. main_command plain_world (Cmd_History (History_Show ''id'' ''h.db'' [''o.html''])) plain_state = Some (code, st') \<and>
     ks_out st' = render_terminal show_int sample_report"
proof -
  obtain db' where db': "persist_report plain_storage sample_report ''cli'' migrated_database = Inr db'"
    and ids: "''id'' \<in> scan_ids db'" and opens: "open_storage plain_storage db' = (None, db')" and same: "stored_database = db'"
  proof -
    have "case persist_report plain_storage sample_report ''cli'' migrated_database of Inl _ \<Rightarrow> False
        | Inr db' \<Rightarrow> ''id'' \<in> scan_ids db' \<and> open_storage plain_storage db' = (None, db') \<and> stored_database = db'"
      by code_simp
    then show thesis by (auto intro: that split: sum.splits)
  qed
  have id: "rep_scan_id sample_report = ''id''" by code_simp
  have at: "database_at plain_world ''h.db'' plain_state = stored_database"
    by (simp add: database_at_def plain_state_def plain_world_def)
  have wf: "store_wf migrated_database"
    using empty_database_wf by (simp add: store_wf_def migrated_database_def)
  have "\<exists>code st'. main_command plain_world (Cmd_History (History_Show (rep_scan_id sample_report) ''h.db'' [''o.html''])) plain_state =
      Some (code, st') \<and> ks_out st' = ks_out plain_state @ render_terminal (rx_time (kw_texts plain_world)) sample_report"
  proof (rule history_shows_stored [OF wf db', where commands = "[]"])
    show "store_serde plain_storage (kw_storage plain_world) sample_report"
      by (simp add: store_serde_def plain_storage_def plain_world_def)
    show "rep_scan_id sample_report \<in> scan_ids (perform_all (take n []) db')" for n using ids id by (simp add: perform_all_def)
    show "database_at plain_world ''h.db'' plain_state = perform_all [] db'" by (simp add: at perform_all_def same)
    show "open_storage (kw_storage plain_world) (database_at plain_world ''h.db'' plain_state) =
        (None, database_at plain_world ''h.db'' plain_state)"
      using opens by (simp add: at same) (simp add: plain_world_def)
    show "\<not> st_fails (kw_storage plain_world) St_Select" by (simp add: plain_world_def plain_storage_def)
    show "\<exists>t. render_report plain_world sample_report format = Inr t" for format by (rule plain_renders)
  qed (rule plain_files)
  then show ?thesis by (simp add: id plain_state_def plain_world_def)
qed

lemma restored_history_shown_witness:
  "\<exists>st1. main_command plain_world (Cmd_Database (Db_Restore ''n.db'' ''h.db'')) plain_state = Some (0, st1) \<and>
     (\<exists>code st2. main_command plain_world (Cmd_History (History_Show ''id'' ''n.db'' [''o.html''])) st1 = Some (code, st2) \<and>
        ks_out st2 = render_terminal show_int sample_report)"
proof -
  let ?restore = "Cmd_Database (Db_Restore ''n.db'' ''h.db'')"
  have "case main_command plain_world ?restore plain_state of None \<Rightarrow> False | Some (code, st1) \<Rightarrow> code = 0 \<and> ks_out st1 = []"
    by code_simp
  then obtain st1 where m: "main_command plain_world ?restore plain_state = Some (0, st1)" "ks_out st1 = []"
    by (auto split: option.splits prod.splits)
  have paths: "distinct [''n.db'', restore_path (kw_backup plain_world) ''n.db'', previous_path (kw_backup plain_world) ''n.db'']"
    by code_simp
  have keeps: "vacuum_keeps plain_world" by (simp add: vacuum_keeps_def plain_world_def plain_backup_def)
  have at: "kw_tables plain_world (ks_files plain_state ''h.db'') = stored_database" "kw_storage plain_world = plain_storage"
    by (simp_all add: plain_world_def plain_state_def)
  have stored: "open_storage plain_storage stored_database = (None, stored_database)" by code_simp
  have "load_report plain_storage ''id'' stored_database = Inr (Some sample_report)" by code_simp
  with restored_history_shown [OF keeps _ paths m(1) _ _ plain_renders plain_files] stored m show ?thesis
    by (simp add: at) (simp add: plain_world_def)
qed

end
