(* ===== verification/Spec2Isabelle.thy ===== *)
theory Spec2Isabelle
  imports Ports Findings Intelligence_Types Engine_Props Cli_Props Axfr Dns_Probe Command_Props
begin

text \<open>
  Verification of \<^emph>\<open>Surface\<close>, a scanner of externally observable services and their security-related
  configuration (Rust workspace under \<^verbatim>\<open>src/crates\<close>).

  \<^bold>\<open>The program.\<close> A scan normalises its target, resolves it, probes TCP and UDP ports of the resolved
  addresses, detects services on the open ports, negotiates SSH up to KEXINIT, requests HTTP and TLS
  endpoints, derives findings from what was observed, and scores them. All stages write to one report; the
  engine runs them in order, stops at cancellation or the deadline, and announces progress.

  \<^bold>\<open>Theories and sources\<close> (under \<^verbatim>\<open>crates/surface-core/src\<close> unless named otherwise).
  \<^item> \<^verbatim>\<open>Prelude\<close>, \<^verbatim>\<open>Rust_Str\<close>, \<^verbatim>\<open>Utf8_Lossy\<close>, \<^verbatim>\<open>Net\<close>: the part of the Rust standard library the sources call. A
    \<open>String\<close> is its UTF-8 bytes, a \<open>BTreeSet\<close> the sorted list of its distinct elements, a \<open>BTreeMap\<close> a sorted
    association list, an IP address a 32- or 128-bit word.
  \<^item> \<^verbatim>\<open>Core_Types\<close> (\<^verbatim>\<open>lib.rs\<close>), \<^verbatim>\<open>Dns_Types\<close> (\<^verbatim>\<open>dns.rs\<close>), \<^verbatim>\<open>Intelligence_Types\<close> (\<^verbatim>\<open>intelligence.rs\<close>),
    \<^verbatim>\<open>Report\<close> (\<^verbatim>\<open>lib.rs\<close>, \<^verbatim>\<open>exposure.rs\<close>): the data.
  \<^item> \<^verbatim>\<open>Ports\<close> (\<^verbatim>\<open>ports.rs\<close>), \<^verbatim>\<open>Target\<close> (\<^verbatim>\<open>target.rs\<close>): the parsers of port specifications and targets.
  \<^item> \<^verbatim>\<open>Dns\<close> (\<^verbatim>\<open>dns.rs\<close>): CNAME chain, mail policies, DNSSEC aggregation, dangling CNAMEs, text bounds.
  \<^item> \<^verbatim>\<open>Dns_Wire\<close>, \<^verbatim>\<open>Axfr\<close>, \<^verbatim>\<open>Dns_Probe\<close> (\<^verbatim>\<open>dns.rs\<close>): what the code sees of the hickory crates; the zone-transfer check as
    a state machine over the messages of its stream; baseline, DNSSEC, wildcard probes and CNAME destinations.
  \<^item> \<^verbatim>\<open>Keyed_Stage\<close>: the interface between a stage and the pool of concurrent requests under it, as two
    locales. \<^verbatim>\<open>Scanner\<close> (\<^verbatim>\<open>scanner.rs\<close>), \<^verbatim>\<open>Service\<close> (\<^verbatim>\<open>service.rs\<close>), \<^verbatim>\<open>Ssh\<close> (\<^verbatim>\<open>ssh.rs\<close>), \<^verbatim>\<open>Http\<close> (\<^verbatim>\<open>http.rs\<close>) and
    \<^verbatim>\<open>Tls\<close> (\<^verbatim>\<open>tls.rs\<close>) model the stages; where results are keyed by their input, the locale is interpreted
    and gives that the order of completion cannot be seen.
  \<^item> \<^verbatim>\<open>Ssh_Wire\<close> (\<^verbatim>\<open>ssh.rs\<close>): the identification line as a byte-at-a-time state machine, the client's KEXINIT
    packet and the reader of the server's.
  \<^item> \<^verbatim>\<open>Findings\<close> (\<^verbatim>\<open>findings.rs\<close>): the 22 rules, deduplication and order. \<^verbatim>\<open>Exposure\<close> (\<^verbatim>\<open>exposure.rs\<close>): the score.
  \<^item> \<^verbatim>\<open>Lifecycle\<close> (\<^verbatim>\<open>lifecycle.rs\<close>): early termination, settling, finalisation. The locale \<open>report_step\<close> states
    what every operation on the report owes the others: it keeps the report well formed and the scan's
    identity, only adds errors and skipped checks, and never returns to \<open>NotStarted\<close>.
  \<^item> \<^verbatim>\<open>Engine\<close> (\<^verbatim>\<open>engine.rs\<close>): one definition per stage over a run (report, progress events, whether the function
    has returned), composed in the order of the code. The locale \<open>quiet_step\<close> extends \<open>report_step\<close> (no findings,
    score or closing time are written), \<open>engine_stage\<close> is the contract of a stage; every stage interprets it.
  \<^item> \<^verbatim>\<open>Engine_Props\<close>: properties of whole scans, by assertions carried from stage to stage with one for every
    point of return.

  \<^item> \<^verbatim>\<open>Network_Prefix\<close>, \<^verbatim>\<open>Intel_Http\<close>, \<^verbatim>\<open>Intel_Evidence\<close> (\<^verbatim>\<open>intelligence.rs\<close>, \<^verbatim>\<open>intelligence/http.rs\<close>): address
    prefixes and the public-destination policy, the pinned clients with bounded responses (locale
    \<open>client_source\<close>), and what the sources share when they write to the report (locales \<open>evidence_writer\<close> and
    \<open>arrival_loop\<close>). \<^verbatim>\<open>Rdap\<close> and \<^verbatim>\<open>Bgp\<close> interpret both for the registration and route lookups; \<^verbatim>\<open>Passive_Intel\<close> has
    certificate transparency and related domains, \<^verbatim>\<open>Supplied_Intel\<close> the supplied names, DKIM selectors and the
    offline bundle. \<^verbatim>\<open>Intel_Props\<close>: what the sources may contact and conclude.
  \<^item> \<^verbatim>\<open>Cli_Output\<close>, \<^verbatim>\<open>Cli_Scan\<close> (\<^verbatim>\<open>crates/surface-cli/src/main.rs\<close>): output formats and file names; the scan command
    from its arguments to the report, the files and the exit code. The locale \<open>intelligence_step\<close> is what its
    steps owe each other. \<^verbatim>\<open>Cli_Props\<close>: properties of the command. \<^verbatim>\<open>Cli_Commands\<close>: the other commands, over the files
    (a database is one of them) and the printed text, composed of the models below; \<^verbatim>\<open>Command_Props\<close>: their properties.
  \<^item> \<^verbatim>\<open>Render_Text\<close>, \<^verbatim>\<open>Terminal\<close>, \<^verbatim>\<open>Html\<close> (\<^verbatim>\<open>crates/surface-report/src/lib.rs\<close>, \<^verbatim>\<open>projection.rs\<close>): escaping, the
    projections, and the plain-text and HTML reports, one definition per fragment, over a tokenizer of tags and a
    toolkit of rules for lines. \<^verbatim>\<open>Json\<close>, \<^verbatim>\<open>Diff\<close> (\<^verbatim>\<open>diff.rs\<close>): JSON values and the comparison of two reports.
    \<^verbatim>\<open>Exports\<close> (\<^verbatim>\<open>exports.rs\<close>): the SARIF and CycloneDX documents as JSON values.
    \<^verbatim>\<open>Signing\<close> (\<^verbatim>\<open>signing.rs\<close>): detached signatures over an abstract signature scheme.
  \<^item> \<^verbatim>\<open>Storage\<close>, \<^verbatim>\<open>Storage_Props\<close> (\<^verbatim>\<open>crates/surface-storage/src/lib.rs\<close>): the scan history as tables with the constraints
    of the migrations, one definition per SQL statement and operation; the locale \<open>store_step\<close> is what every operation
    that writes owes the others. \<^verbatim>\<open>Backup\<close> (\<^verbatim>\<open>backup.rs\<close>): backup, verification and restoration as sequences of calls on a
    file system, each of which may fail.

  \<^bold>\<open>The world.\<close> Sockets, the resolver, TLS handshakes, the HTTP client, the URL and X.509 crates, clock readings,
  the random identifiers, the cancellation token and the deadline are arguments: functions that say what
  the world answers at each point where the code asks. A \<open>select!\<close> or timeout is a datatype of the branches it
  can take. The order in which concurrent requests complete is an argument too (\<open>arrive\<close>); \<open>fair_pool\<close>
  says that every result arrives once, which is what \<open>buffer_unordered\<close> promises. No theorem assumes more of it.

  \<^bold>\<open>What is shown.\<close> Whole scans: observations stay in scope, completed scans are complete, reports are
  consistent, unselected stages are silent, progress is ordered, conflicting address families contact nothing.
  Report: exact condition for completion, findings canonical and exact for high
  severity, score bounds and order independence. Protocols: HTTP stays on its origin with bounded
  observations, SSH wire format parsed exactly, with a bounded greeting, posture with evidence; TLS key sizes and
  candidates. DNS: a zone transfer is allowed exactly on a complete authoritative transfer, within its limits;
  wildcard and alias statuses rest on the answers they claim. Parsers: port specifications and targets. Stages: independence of completion order.
  Intelligence: lookups contact only approved endpoints through clients pinned to public addresses, evidence is
  sound, concurrent verification refines the sequential one. Command: success means a complete scan without high
  findings; the other commands return with exit codes of their own, spare the files they were not told to write, verify what
  they signed, and show what was stored, also after a restoration. Reports: no text from a scanned host adds a tag to the HTML documents or a control
  character to the terminal; a comparison lists exactly what differs; exports do not depend on the order of observation, and
  their rules are those of their results. Store: tables stay consistent, listing and retention do exactly what their options
  say; a restoration never loses the current database, and only verified files are published.

  \<^bold>\<open>Bounds.\<close> The HTTP redirect loop terminates by the redirect limit (measure), the CNAME walk by its hop limit, the
  zone transfer by its message limit,
  the SSH greeting by its input; the search for a free report name is a partial function shown to return. Nothing
  uses fuel. Integers are \<open>w word\<close> where the code keeps a width that matters
  (ports, addresses, serials) and \<^typ>\<open>nat\<close> for counts and durations; the saturating 16-bit sum of the score is
  written out.

  \<^bold>\<open>Not modelled.\<close> What only calls a library: argument parsing by clap, logging, the progress bar, signal handling, the
  configuration of the TLS connector and the delegating methods of its verifier, the derived serialisation of a report
  (\<open>render_json\<close>), which are arguments where another definition needs them. The scan command's own printed text.
  Paths are UTF-8 text, for which the lossy conversion before \<open>VACUUM INTO\<close> is the identity. A database is the contents of
  a file; which tables SQLite finds there, and which contents it leaves after they changed, are the arguments \<open>kw_tables\<close>
  and \<open>kw_image\<close>, through which the database commands and the history commands see the same file. Changes of permission bits and the
  journals SQLite keeps beside a file are left out.
\<close>

end
